(* ===== verification/P11_Prelude.thy ===== *)
theory P11_Prelude
  imports "HOL-Library.Word" "HOL-Library.State_Monad"
begin

text \<open>
  Shared ground of the p11scope development: machine integers with the checked
  and saturating arithmetic of the Rust core library, little-endian byte
  images, fixed-size arrays as lists, and the reader monad in which every
  access to the observed process is an event of a log.
\<close>

unbundle bit_operations_syntax

section \<open>Machine integers\<close>

type_synonym u8 = "8 word"
type_synonym u16 = "16 word"
type_synonym u32 = "32 word"
type_synonym u64 = "64 word"

text \<open>Collections: unfolding of the model's small helpers, run rules of the
  reader monad, and the facts that evaluate byte images at numeral offsets.\<close>

named_theorems p11_arith \<open>definitions of checked and saturating arithmetic\<close>
named_theorems rd_run \<open>what the reader monad's operations return and log\<close>
named_theorems byte_image \<open>reading fixed offsets of concatenated byte images\<close>

definition checked_add :: "'a::len word \<Rightarrow> 'a word \<Rightarrow> 'a word option" where
  "checked_add a b = (if unat a + unat b < 2 ^ LENGTH('a) then Some (a + b) else None)"

definition checked_mul :: "'a::len word \<Rightarrow> 'a word \<Rightarrow> 'a word option" where
  "checked_mul a b = (if unat a * unat b < 2 ^ LENGTH('a) then Some (a * b) else None)"

definition saturating_add :: "'a::len word \<Rightarrow> 'a word \<Rightarrow> 'a word" where
  "saturating_add a b = (if unat a + unat b < 2 ^ LENGTH('a) then a + b else - 1)"

definition saturating_sub :: "'a::len word \<Rightarrow> 'a word \<Rightarrow> 'a word" where
  "saturating_sub a b = (if b \<le> a then a - b else 0)"

lemma unat_add_exact:
  fixes a b :: "'a::len word"
  assumes "unat a + unat b < 2 ^ LENGTH('a)"
  shows "unat (a + b) = unat a + unat b"
  using assms by (simp add: unat_word_ariths)

lemma unat_mult_exact:
  fixes a b :: "'a::len word"
  assumes "unat a * unat b < 2 ^ LENGTH('a)"
  shows "unat (a * b) = unat a * unat b"
  using assms by (simp add: unat_word_ariths)

lemma checked_add_Some_iff:
  "checked_add a b = Some c \<longleftrightarrow> unat (c :: 'a::len word) = unat a + unat b"
proof
  assume "checked_add a b = Some c"
  then have "unat a + unat b < 2 ^ LENGTH('a)" "c = a + b"
    by (auto simp: checked_add_def split: if_splits)
  then show "unat c = unat a + unat b" by (simp add: unat_add_exact)
next
  assume c: "unat c = unat a + unat b"
  have "unat a + unat b < 2 ^ LENGTH('a)"
    using unsigned_less[of c, where 'a = nat] c by simp
  moreover from this have "c = a + b"
    using c by (simp add: word_unat_eq_iff unat_add_exact)
  ultimately show "checked_add a b = Some c" by (simp add: checked_add_def)
qed

lemma checked_add_None_iff:
  "checked_add a b = None \<longleftrightarrow> 2 ^ LENGTH('a) \<le> unat (a :: 'a::len word) + unat b"
  by (simp add: checked_add_def not_less)

lemma checked_mul_Some_iff:
  "checked_mul a b = Some c \<longleftrightarrow> unat (c :: 'a::len word) = unat a * unat b"
proof
  assume "checked_mul a b = Some c"
  then have "unat a * unat b < 2 ^ LENGTH('a)" "c = a * b"
    by (auto simp: checked_mul_def split: if_splits)
  then show "unat c = unat a * unat b" by (simp add: unat_mult_exact)
next
  assume c: "unat c = unat a * unat b"
  have "unat a * unat b < 2 ^ LENGTH('a)"
    using unsigned_less[of c, where 'a = nat] c by simp
  moreover from this have "c = a * b"
    using c by (simp add: word_unat_eq_iff unat_mult_exact)
  ultimately show "checked_mul a b = Some c" by (simp add: checked_mul_def)
qed

lemma unat_ucast_up:
  "LENGTH('a) \<le> LENGTH('b) \<Longrightarrow> unat (ucast (w :: 'a::len word) :: 'b::len word) = unat w"
  using order.strict_trans2[OF unsigned_less[of w, where 'a = nat], of "2 ^ LENGTH('b)"]
  by (simp add: unsigned_ucast_eq take_bit_nat_eq_self_iff)

lemma bit_beyond: "LENGTH('a) \<le> n \<Longrightarrow> \<not> bit (w :: 'a::len word) n"
  using bit_imp_le_length[of w n] by auto

lemma bit_below:
  assumes "unat (w :: 'a::len word) < 2 ^ k" "bit w n"
  shows "n < k"
proof -
  have "take_bit k (unat w) = unat w" using assms(1) by (rule take_bit_nat_eq_self)
  moreover have "bit (unat w) n" using assms(2) by (simp add: bit_unsigned_iff bit_imp_le_length)
  ultimately show ?thesis by (metis bit_take_bit_iff)
qed

lemma unat_minus_one_max: "unat (- 1 :: 'a::len word) = 2 ^ LENGTH('a) - 1"
  by (simp add: unsigned_minus_1_eq_mask mask_eq_exp_minus_1)

lemma unat_saturating_add:
  "unat (saturating_add a b) = min (unat a + unat b) (2 ^ LENGTH('a) - 1)"
  for a b :: "'a::len word"
  by (auto simp: saturating_add_def unat_add_exact unat_minus_one_max)

lemma unat_saturating_sub: "unat (saturating_sub a b) = unat a - unat b"
  by (auto simp: saturating_sub_def word_le_nat_alt unat_sub)

section \<open>Little-endian byte images\<close>

text \<open>\<^verbatim>\<open>from_le_bytes\<close> and \<^verbatim>\<open>to_le_bytes\<close> at any width.\<close>

fun from_le :: "u8 list \<Rightarrow> 'a::len word" where
  "from_le [] = 0"
| "from_le (b # bs) = ucast b OR push_bit 8 (from_le bs)"

fun to_le :: "nat \<Rightarrow> 'a::len word \<Rightarrow> u8 list" where
  "to_le 0 w = []"
| "to_le (Suc n) w = ucast w # to_le n (drop_bit 8 w)"

lemma length_to_le [simp]: "length (to_le n w) = n"
  by (induction n arbitrary: w) auto

lemma from_le_to_le: "from_le (to_le n w) = take_bit (8 * n) (w :: 'a::len word)"
proof (induction n arbitrary: w)
  case (Suc n)
  have "ucast (ucast w :: u8) OR push_bit 8 (take_bit (8 * n) (drop_bit 8 w)) = take_bit (8 * Suc n) w"
    by (rule bit_word_eqI) (auto simp: bit_simps)
  then show ?case by (simp add: Suc.IH)
qed simp

definition le_at :: "nat \<Rightarrow> u8 list \<Rightarrow> nat \<Rightarrow> 'a::len word" where
  "le_at n xs off = from_le (take n (drop off xs))"

lemma le_at_append1 [byte_image]:
  "off + n \<le> length xs \<Longrightarrow> le_at n (xs @ ys) off = le_at n xs off"
  by (simp add: le_at_def)

lemma le_at_append2 [byte_image]:
  "length xs \<le> off \<Longrightarrow> le_at n (xs @ ys) off = le_at n ys (off - length xs)"
  by (simp add: le_at_def)

lemma le_at_Cons [byte_image]: "0 < off \<Longrightarrow> le_at n (x # xs) off = le_at n xs (off - 1)"
  by (simp add: le_at_def drop_Cons')

lemma le_at_to_le [byte_image]: "le_at n (to_le n w) 0 = take_bit (8 * n) w"
  by (simp add: le_at_def from_le_to_le)

lemma take_bit_full [simp]: "LENGTH('a) \<le> n \<Longrightarrow> take_bit n w = (w :: 'a::len word)"
  by (rule bit_word_eqI) (auto simp: bit_simps)

text \<open>A sub-slice \<^verbatim>\<open>&xs[a..b]\<close>.\<close>

definition slice_of :: "nat \<Rightarrow> nat \<Rightarrow> 'a list \<Rightarrow> 'a list" where
  "slice_of a b xs = take (b - a) (drop a xs)"

lemma length_slice_of [simp]: "length (slice_of a b xs) = min (b - a) (length xs - a)"
  by (simp add: slice_of_def)

lemma nth_slice_of [simp]: "a + i < b \<Longrightarrow> a \<le> length xs \<Longrightarrow> slice_of a b xs ! i = xs ! (a + i)"
  by (simp add: slice_of_def)

section \<open>The observed process\<close>

text \<open>
  \<^verbatim>\<open>LinuxLayout\<close> comes from the \<^verbatim>\<open>pkcs11_module\<close> package; the sources match it
  exhaustively on exactly these two constructors. Its method \<^verbatim>\<open>word_bytes\<close> is
  a parameter \<open>wb\<close> of the definitions that call it, and \<open>word_bytes_ok\<close> is what
  the sources document about it (8 bytes on LP64, 4 on ILP32).
\<close>

datatype LinuxLayout = Lp64 | Ilp32

definition word_bytes_ok :: "(LinuxLayout \<Rightarrow> u64) \<Rightarrow> bool" where
  "word_bytes_ok wb \<longleftrightarrow> wb Lp64 = 8 \<and> wb Ilp32 = 4"

definition word_bytes_std :: "LinuxLayout \<Rightarrow> u64" where
  "word_bytes_std l = (case l of Lp64 \<Rightarrow> 8 | Ilp32 \<Rightarrow> 4)"

lemma word_bytes_okD [simp]:
  "word_bytes_ok wb \<Longrightarrow> wb Lp64 = 8" "word_bytes_ok wb \<Longrightarrow> wb Ilp32 = 4"
  by (simp_all add: word_bytes_ok_def)

lemma word_bytes_std_ok [simp]: "word_bytes_ok word_bytes_std"
  by (simp add: word_bytes_ok_def word_bytes_std_def)

text \<open>
  Target memory belongs to a running process: it may change between any two
  reads. A target is therefore an oracle that answers each access from the
  whole history of earlier accesses. The history is a log of events, newest
  first, and each event carries its answer; \<^verbatim>\<open>Err(())\<close> is \<open>None\<close>.
\<close>

datatype read_event =
    WordRead u64 LinuxLayout "u64 option"
  | BytesRead u64 nat "u8 list option"
  | ArgFetch u8 "u64 option"

type_synonym read_log = "read_event list"
type_synonym 'a rd = "(read_log, 'a) state"

record target =
  word_at :: "read_log \<Rightarrow> u64 \<Rightarrow> LinuxLayout \<Rightarrow> u64 option"
  byte_at :: "read_log \<Rightarrow> u64 \<Rightarrow> nat \<Rightarrow> (nat \<Rightarrow> u8) option"
  arg_at :: "read_log \<Rightarrow> u8 \<Rightarrow> u64 option"

definition read_word :: "target \<Rightarrow> u64 \<Rightarrow> LinuxLayout \<Rightarrow> u64 option rd" where
  "read_word t a l = State (\<lambda>log. let v = word_at t log a l in (v, WordRead a l v # log))"

definition read_bytes :: "target \<Rightarrow> u64 \<Rightarrow> nat \<Rightarrow> u8 list option rd" where
  "read_bytes t a n = State (\<lambda>log.
     let v = map_option (\<lambda>f. map f [0..<n]) (byte_at t log a n) in (v, BytesRead a n v # log))"

definition fetch_arg :: "target \<Rightarrow> u8 \<Rightarrow> u64 option rd" where
  "fetch_arg t i = State (\<lambda>log. let v = arg_at t log i in (v, ArgFetch i v # log))"

lemma run_read_word [rd_run]:
  "run_state (read_word t a l) log = (word_at t log a l, WordRead a l (word_at t log a l) # log)"
  by (simp add: read_word_def Let_def)

lemma run_read_bytes [rd_run]:
  "run_state (read_bytes t a n) log =
    (map_option (\<lambda>f. map f [0..<n]) (byte_at t log a n),
     BytesRead a n (map_option (\<lambda>f. map f [0..<n]) (byte_at t log a n)) # log)"
  by (simp add: read_bytes_def Let_def)

lemma run_fetch_arg [rd_run]:
  "run_state (fetch_arg t i) log = (arg_at t log i, ArgFetch i (arg_at t log i) # log)"
  by (simp add: fetch_arg_def Let_def)

text \<open>A bounded loop \<^verbatim>\<open>while i < n { ... }\<close> over the indices of a list.\<close>

fun for_each :: "('i \<Rightarrow> 's \<Rightarrow> ('l, 's) state) \<Rightarrow> 'i list \<Rightarrow> 's \<Rightarrow> ('l, 's) state" where
  "for_each f [] s = State_Monad.return s"
| "for_each f (i # is) s = do { s' \<leftarrow> f i s; for_each f is s' }"

lemma for_each_append:
  "for_each f (xs @ ys) s = do { s' \<leftarrow> for_each f xs s; for_each f ys s' }"
proof (induction xs arbitrary: s)
  case (Cons x xs)
  then have "for_each f (xs @ ys) = (\<lambda>s. do { s' \<leftarrow> for_each f xs s; for_each f ys s' })" by auto
  then show ?case by simp
qed simp

section \<open>Reasoning about reader programs\<close>

text \<open>\<open>triple P m Q\<close>: started with a log satisfying \<open>P\<close>, the program returns a
  value and a log related by \<open>Q\<close>. Every reader program terminates.\<close>

definition triple :: "('l \<Rightarrow> bool) \<Rightarrow> ('l, 'a) state \<Rightarrow> ('a \<Rightarrow> 'l \<Rightarrow> bool) \<Rightarrow> bool" where
  "triple P m Q \<longleftrightarrow> (\<forall>s. P s \<longrightarrow> (case run_state m s of (x, s') \<Rightarrow> Q x s'))"

lemma tripleI: "(\<And>s x s'. P s \<Longrightarrow> run_state m s = (x, s') \<Longrightarrow> Q x s') \<Longrightarrow> triple P m Q"
  by (auto simp: triple_def split: prod.splits)

lemma tripleD: "triple P m Q \<Longrightarrow> P s \<Longrightarrow> run_state m s = (x, s') \<Longrightarrow> Q x s'"
  by (auto simp: triple_def split: prod.splits)

lemma triple_return: "(\<And>s. P s \<Longrightarrow> Q x s) \<Longrightarrow> triple P (State_Monad.return x) Q"
  by (auto simp: triple_def)

lemma triple_bind:
  "triple P m R \<Longrightarrow> (\<And>x. triple (R x) (f x) Q) \<Longrightarrow> triple P (State_Monad.bind m f) Q"
  by (fastforce simp: triple_def split: prod.splits)

lemma triple_conseq:
  "triple P' m Q' \<Longrightarrow> (\<And>s. P s \<Longrightarrow> P' s) \<Longrightarrow> (\<And>x s. Q' x s \<Longrightarrow> Q x s) \<Longrightarrow> triple P m Q"
  by (fastforce simp: triple_def split: prod.splits)

lemma triple_for_each:
  assumes "\<And>i s. i \<in> set is \<Longrightarrow> triple (I s) (f i s) I"
  shows "triple (I s) (for_each f is s) I"
  using assms
proof (induction "is" arbitrary: s)
  case Nil
  then show ?case by (auto intro: triple_return)
next
  case (Cons i "is")
  then show ?case by (auto intro: triple_bind)
qed

text \<open>\<open>keeps I m Q\<close>: the program preserves the invariant \<open>I\<close> and returns a value
  satisfying \<open>Q\<close>.\<close>

definition keeps :: "('l \<Rightarrow> bool) \<Rightarrow> ('l, 'a) state \<Rightarrow> ('a \<Rightarrow> bool) \<Rightarrow> bool" where
  "keeps I m Q \<longleftrightarrow> triple I m (\<lambda>x s. I s \<and> Q x)"

lemma keepsI: "(\<And>s x s'. I s \<Longrightarrow> run_state m s = (x, s') \<Longrightarrow> I s' \<and> Q x) \<Longrightarrow> keeps I m Q"
  unfolding keeps_def by (rule tripleI)

lemma keepsD: "keeps I m Q \<Longrightarrow> I s \<Longrightarrow> run_state m s = (x, s') \<Longrightarrow> I s' \<and> Q x"
  unfolding keeps_def by (rule tripleD)

lemma keeps_return: "Q x \<Longrightarrow> keeps I (State_Monad.return x) Q"
  unfolding keeps_def by (rule triple_return) simp

lemma keeps_bind:
  assumes "keeps I m R" "\<And>x. R x \<Longrightarrow> keeps I (f x) Q"
  shows "keeps I (State_Monad.bind m f) Q"
proof (rule keepsI)
  fix s x s' assume s: "I s" "run_state (State_Monad.bind m f) s = (x, s')"
  obtain y s1 where m: "run_state m s = (y, s1)" by fastforce
  from keepsD[OF assms(1) s(1) m] have "I s1" "R y" by auto
  with s(2) m show "I s' \<and> Q x" using keepsD[OF assms(2)] by auto
qed

lemmas keeps_then = keeps_bind[where R = "\<lambda>_. True", simplified]

lemma keeps_weaken: "keeps I m R \<Longrightarrow> (\<And>x. R x \<Longrightarrow> Q x) \<Longrightarrow> keeps I m Q"
  unfolding keeps_def by (erule triple_conseq) auto

lemma keeps_if:
  "(c \<Longrightarrow> keeps I a Q) \<Longrightarrow> (\<not> c \<Longrightarrow> keeps I b Q) \<Longrightarrow> keeps I (if c then a else b) Q"
  by simp

lemma keeps_option:
  "(x = None \<Longrightarrow> keeps I a Q) \<Longrightarrow> (\<And>y. x = Some y \<Longrightarrow> keeps I (b y) Q) \<Longrightarrow>
    keeps I (case x of None \<Rightarrow> a | Some y \<Rightarrow> b y) Q"
  by (cases x) auto

lemma keeps_prod:
  "(\<And>a b. p = (a, b) \<Longrightarrow> keeps I (f a b) Q) \<Longrightarrow> keeps I (case p of (a, b) \<Rightarrow> f a b) Q"
  by (cases p) auto

lemma keeps_let: "(\<And>x. x = t \<Longrightarrow> keeps I (f x) Q) \<Longrightarrow> keeps I (let x = t in f x) Q"
  by simp

lemmas keeps_rules = keeps_return keeps_if keeps_option keeps_prod keeps_let

lemma keeps_sum:
  "(\<And>y. x = Inl y \<Longrightarrow> keeps I (a y) Q) \<Longrightarrow> (\<And>y. x = Inr y \<Longrightarrow> keeps I (b y) Q) \<Longrightarrow>
    keeps I (case x of Inl y \<Rightarrow> a y | Inr y \<Rightarrow> b y) Q"
  by (cases x) auto

lemma keeps_for_each:
  assumes "\<And>i s. i \<in> set is \<Longrightarrow> Q s \<Longrightarrow> keeps I (f i s) Q" "Q s"
  shows "keeps I (for_each f is s) Q"
  using assms
proof (induction "is" arbitrary: s)
  case (Cons i "is")
  then show ?case by (auto intro!: keeps_bind)
qed (simp add: keeps_return)

lemma for_each_cong:
  assumes "\<And>i s. i \<in> set is \<Longrightarrow> f i s = g i s"
  shows "for_each f is s = for_each g is s"
  using assms
proof (induction "is" arbitrary: s)
  case (Cons i "is")
  then have "for_each f is = for_each g is" by auto
  with Cons.prems show ?case by simp
qed simp

text \<open>\<open>gives m Q\<close>: whatever the log, the program returns a value satisfying \<open>Q\<close>.\<close>

abbreviation gives :: "('l, 'a) state \<Rightarrow> ('a \<Rightarrow> bool) \<Rightarrow> bool" where
  "gives m Q \<equiv> keeps (\<lambda>_. True) m Q"

lemma gives_True [intro!, simp]: "gives m (\<lambda>_. True)"
  by (rule keepsI) simp

lemma bind_cong_gives:
  assumes "gives m Q" "\<And>x. Q x \<Longrightarrow> f x = g x"
  shows "State_Monad.bind m f = State_Monad.bind m g"
proof -
  have "run_state (State_Monad.bind m f) s = run_state (State_Monad.bind m g) s" for s
  proof -
    obtain x s' where m: "run_state m s = (x, s')" by fastforce
    with keepsD[OF assms(1) _ m] assms(2) show ?thesis by simp
  qed
  then show ?thesis by (metis ext state.exhaust_sel)
qed

lemma bind_return_pair [simp]: "State_Monad.bind m (\<lambda>(a, b). State_Monad.return (a, b)) = m"
  by (simp add: case_prod_unfold)

lemma bind_return_4 [simp]: "State_Monad.bind m (\<lambda>(a, b, c, d). State_Monad.return (a, b, c, d)) = m"
  by (simp add: case_prod_unfold)

lemma bind_case_prod:
  "State_Monad.bind (case p of (a, b) \<Rightarrow> f a b) g = (case p of (a, b) \<Rightarrow> State_Monad.bind (f a b) g)"
  by (cases p) simp

text \<open>\<open>yields m v\<close>: whatever the log, the program returns \<open>v\<close>.\<close>

definition yields :: "('l, 'a) state \<Rightarrow> 'a \<Rightarrow> bool" where
  "yields m v \<longleftrightarrow> (\<forall>s. fst (run_state m s) = v)"

lemma yields_return: "yields (State_Monad.return v) v"
  by (simp add: yields_def)

lemma yields_return_iff [simp]: "yields (State_Monad.return v) w \<longleftrightarrow> v = w"
  by (simp add: yields_def)

lemma yields_bind: "yields m v \<Longrightarrow> yields (f v) w \<Longrightarrow> yields (State_Monad.bind m f) w"
  by (simp add: yields_def case_prod_unfold)

lemma yields_unique: "yields m v \<Longrightarrow> yields m w \<Longrightarrow> v = w"
  by (simp add: yields_def)

lemma yields_run: "yields m v \<Longrightarrow> fst (run_state m s) = v"
  by (simp add: yields_def)

lemma yields_for_each:
  assumes "\<And>i s. i \<in> set is \<Longrightarrow> yields (f i s) (g i s)"
  shows "yields (for_each f is s) (fold g is s)"
  using assms
  by (induction "is" arbitrary: s) (auto intro: yields_return yields_bind)

lemma yields_upto:
  assumes "\<And>i. i < n \<Longrightarrow> yields (f i (S i)) (S (Suc i))"
  shows "yields (for_each f [0..<n] (S 0)) (S n)"
  using assms
proof (induction n)
  case (Suc n)
  then have a: "yields (for_each f [0..<n] (S 0)) (S n)" and b: "yields (f n (S n)) (S (Suc n))" by simp_all
  show ?case by (simp add: for_each_append) (rule yields_bind[OF a], rule yields_bind[OF b], simp)
qed simp

text \<open>\<open>agree R m m'\<close>: the two programs make the same accesses and return related
  values.\<close>

definition agree :: "('a \<Rightarrow> 'b \<Rightarrow> bool) \<Rightarrow> ('l, 'a) state \<Rightarrow> ('l, 'b) state \<Rightarrow> bool" where
  "agree R m m' \<longleftrightarrow>
     (\<forall>s. snd (run_state m s) = snd (run_state m' s) \<and> R (fst (run_state m s)) (fst (run_state m' s)))"

lemma agree_return [intro]: "R x y \<Longrightarrow> agree R (State_Monad.return x) (State_Monad.return y)"
  by (simp add: agree_def)

lemma agree_refl: "(\<And>x. R x x) \<Longrightarrow> agree R m m"
  by (simp add: agree_def)

lemma agree_bind:
  "agree R m m' \<Longrightarrow> (\<And>x y. R x y \<Longrightarrow> agree Q (f x) (g y)) \<Longrightarrow>
    agree Q (State_Monad.bind m f) (State_Monad.bind m' g)"
  by (simp add: agree_def case_prod_unfold)

lemma agree_bind_same: "(\<And>x. agree Q (f x) (g x)) \<Longrightarrow> agree Q (State_Monad.bind m f) (State_Monad.bind m g)"
  by (rule agree_bind[where R = "(=)"]) (auto intro: agree_refl)

lemma agree_weaken: "agree R m m' \<Longrightarrow> (\<And>x y. R x y \<Longrightarrow> Q x y) \<Longrightarrow> agree Q m m'"
  by (simp add: agree_def)

lemma agree_upto:
  assumes "\<And>i x y. i < n \<Longrightarrow> R i x y \<Longrightarrow> agree (R (Suc i)) (f i x) (g i y)" "R 0 x y"
  shows "agree (R n) (for_each f [0..<n] x) (for_each g [0..<n] y)"
  using assms(1)
proof (induction n)
  case 0
  then show ?case using assms(2) by (simp add: agree_return)
next
  case (Suc n)
  then have "agree (R n) (for_each f [0..<n] x) (for_each g [0..<n] y)" by simp
  moreover have "agree (R (Suc n)) (for_each f [n] a) (for_each g [n] b)" if "R n a b" for a b
    using Suc.prems[OF lessI that] by (simp add: agree_def case_prod_unfold)
  ultimately show ?case by (simp add: for_each_append del: for_each.simps) (rule agree_bind)
qed

lemma agree_eq: "agree (=) m m' \<longleftrightarrow> m = m'"
  by (auto simp: agree_def prod_eq_iff intro!: state_ext)

lemma agreeD: "agree R m m' \<Longrightarrow> run_state m s = (x, log) \<Longrightarrow> run_state m' s = (y, log') \<Longrightarrow> log = log' \<and> R x y"
  unfolding agree_def by (metis fst_conv snd_conv)

text \<open>An authority \<open>A e earlier\<close> says when event \<open>e\<close> may follow the events
  \<open>earlier\<close>; a log is authorized when each of its events was.\<close>

fun authorized_log :: "(read_event \<Rightarrow> read_log \<Rightarrow> bool) \<Rightarrow> read_log \<Rightarrow> bool" where
  "authorized_log A [] = True"
| "authorized_log A (e # earlier) = (A e earlier \<and> authorized_log A earlier)"

text \<open>A target whose memory does not change while it is read.\<close>

definition static_target :: "target \<Rightarrow> bool" where
  "static_target t \<longleftrightarrow>
     (\<forall>l1 l2. word_at t l1 = word_at t l2 \<and> byte_at t l1 = byte_at t l2 \<and> arg_at t l1 = arg_at t l2)"

lemma static_targetD:
  assumes "static_target t"
  shows "word_at t log = word_at t []" "byte_at t log = byte_at t []" "arg_at t log = arg_at t []"
  using assms unfolding static_target_def by blast+

lemma yields_word:
  assumes "static_target t"
  shows "yields (read_word t a l) (word_at t [] a l)"
  unfolding yields_def
proof
  fix log
  show "fst (run_state (read_word t a l) log) = word_at t [] a l"
    unfolding run_read_word static_targetD(1)[OF assms, of log] by simp
qed

lemma yields_bytes:
  assumes "static_target t"
  shows "yields (read_bytes t a n) (map_option (\<lambda>f. map f [0..<n]) (byte_at t [] a n))"
  unfolding yields_def
proof
  fix log
  show "fst (run_state (read_bytes t a n) log) = map_option (\<lambda>f. map f [0..<n]) (byte_at t [] a n)"
    unfolding run_read_bytes static_targetD(2)[OF assms, of log] by simp
qed

section \<open>Scalar codecs\<close>

text \<open>
  Many boundaries of the program squeeze a tuple into one scalar (attach
  cookies, configuration cells, the packed results of BPF subprograms). The
  contract of such a boundary: the encoder may refuse, what it emits decodes
  to what was encoded; an exact codec also decodes nothing it would not emit.
\<close>

locale codec =
  fixes enc :: "'a \<Rightarrow> 'w option" and dec :: "'w \<Rightarrow> 'a option"
  assumes dec_enc: "enc x = Some w \<Longrightarrow> dec w = Some x"
begin

lemma enc_inj: "enc x = Some w \<Longrightarrow> enc y = Some w \<Longrightarrow> x = y"
  by (metis dec_enc option.inject)

lemma enc_distinct: "enc x = Some w \<Longrightarrow> enc y = Some v \<Longrightarrow> x \<noteq> y \<Longrightarrow> w \<noteq> v"
  using enc_inj by blast

end

locale exact_codec = codec +
  assumes enc_dec: "dec w = Some x \<Longrightarrow> enc x = Some w"
begin

lemma dec_iff: "dec w = Some x \<longleftrightarrow> enc x = Some w"
  using dec_enc enc_dec by blast

lemma dec_inj: "dec w = Some x \<Longrightarrow> dec v = Some x \<Longrightarrow> w = v"
  by (metis enc_dec option.inject)

end

end
