(* ===== verification/P11_Abi.thy ===== *)
theory P11_Abi
  imports P11_Prelude
begin

text \<open>
  The scalar ABI of \<^verbatim>\<open>crates/ebpf-common/src/lib.rs\<close>: target words and stack
  arguments, attachment cookies, configuration cells, latency buckets, the
  attribute and login allowlists, image identities, continuity stamps and the
  journal birth marker.
\<close>

section \<open>Target words and stack arguments\<close>

definition target_layout_from_cs :: "u64 \<Rightarrow> LinuxLayout option" where
  "target_layout_from_cs cs =
     (if cs = 0x33 then Some Lp64 else if cs = 0x23 then Some Ilp32 else None)"

definition normalize_target_word :: "u64 \<Rightarrow> LinuxLayout \<Rightarrow> u64" where
  "normalize_target_word value l =
     (case l of Lp64 \<Rightarrow> value | Ilp32 \<Rightarrow> ucast (ucast value :: u32))"

definition target_word_end :: "u64 \<Rightarrow> LinuxLayout \<Rightarrow> u64 option" where
  "target_word_end address l =
     (case l of
        Lp64 \<Rightarrow> checked_add address 7
      | Ilp32 \<Rightarrow> if address \<le> 0xFFFFFFFF - 3 then Some (address + 3) else None)"

abbreviation (input) IA32_ARG_READ_FAILURE :: u64 where
  "IA32_ARG_READ_FAILURE \<equiv> 0x100000000"

definition ia32_arg_address :: "u64 \<Rightarrow> u32 \<Rightarrow> u64 option" where
  "ia32_arg_address stack_pointer index =
     (if index > 6 then None
      else do {
        let sp = stack_pointer AND 0xFFFFFFFF;
        offset \<leftarrow> checked_mul (ucast index + 1) 4;
        address \<leftarrow> checked_add sp offset;
        _ \<leftarrow> target_word_end address Ilp32;
        Some address })"

definition read_ia32_arg_with :: "u64 \<Rightarrow> u32 \<Rightarrow> (u64 \<Rightarrow> u32 option) \<Rightarrow> u64" where
  "read_ia32_arg_with stack_pointer index read =
     (case ia32_arg_address stack_pointer index of
        None \<Rightarrow> IA32_ARG_READ_FAILURE
      | Some address \<Rightarrow>
          (case read address of Some value \<Rightarrow> ucast value | None \<Rightarrow> IA32_ARG_READ_FAILURE))"

definition target_stack_arg_address :: "u64 \<Rightarrow> u8 \<Rightarrow> LinuxLayout \<Rightarrow> u64 option" where
  "target_stack_arg_address stack_pointer index l =
     (if l = Ilp32 then ia32_arg_address stack_pointer (ucast index)
      else if index = 6 then do {
        address \<leftarrow> checked_add (normalize_target_word stack_pointer l) 8;
        _ \<leftarrow> target_word_end address l;
        Some address }
      else None)"

section \<open>Attachment cookies\<close>

definition attach_cookie :: "u32 \<Rightarrow> u32 \<Rightarrow> u64" where
  "attach_cookie slot descriptor = ucast slot OR push_bit 32 (ucast descriptor)"

definition cookie_slot :: "u64 \<Rightarrow> u32" where
  "cookie_slot cookie = ucast cookie"

definition cookie_descriptor :: "u64 \<Rightarrow> u32" where
  "cookie_descriptor cookie = ucast (drop_bit 32 cookie)"

abbreviation (input) EXPORT_HOOK_ID_MASK :: u32 where
  "EXPORT_HOOK_ID_MASK \<equiv> 0x00ffffff"

definition export_attach_cookie :: "u32 \<Rightarrow> u8 \<Rightarrow> u32 \<Rightarrow> u64 option" where
  "export_attach_cookie object_id context_case_id hook_id =
     (if hook_id = 0 \<or> hook_id > EXPORT_HOOK_ID_MASK then None
      else Some (push_bit 32 (ucast object_id) OR push_bit 24 (ucast context_case_id) OR ucast hook_id))"

definition decode_export_attach_cookie :: "u64 \<Rightarrow> (u32 \<times> u8 \<times> u32) option" where
  "decode_export_attach_cookie cookie =
     (let hook_id = ucast cookie AND EXPORT_HOOK_ID_MASK
      in if hook_id = 0 then None
         else Some (ucast (drop_bit 32 cookie), ucast (drop_bit 24 cookie), hook_id))"

section \<open>Slot semantics\<close>

abbreviation (input) ARG_NONE :: u8 where "ARG_NONE \<equiv> 255"

record SlotSemantics =
  operations :: u16
  transition :: u8
  lifecycle :: u8
  direct :: u8
  semantic_flags :: u8
  session_arg :: u8
  slot_arg :: u8
  mechanism_arg :: u8
  output_arg :: u8
  flags_arg :: u8
  user_type_arg :: u8
  template0_arg :: u8
  template_count0_arg :: u8
  template1_arg :: u8
  template_count1_arg :: u8
  async_name_arg :: u8
  async_value_arg :: u8

definition COUNT_ONLY :: SlotSemantics where
  "COUNT_ONLY = \<lparr>operations = 0, transition = 0, lifecycle = 0, direct = 0, semantic_flags = 0,
     session_arg = ARG_NONE, slot_arg = ARG_NONE, mechanism_arg = ARG_NONE, output_arg = ARG_NONE,
     flags_arg = ARG_NONE, user_type_arg = ARG_NONE, template0_arg = ARG_NONE,
     template_count0_arg = ARG_NONE, template1_arg = ARG_NONE, template_count1_arg = ARG_NONE,
     async_name_arg = ARG_NONE, async_value_arg = ARG_NONE\<rparr>"

definition argument_indices :: "SlotSemantics \<Rightarrow> u8 list" where
  "argument_indices s =
     filter (\<lambda>index. index \<noteq> ARG_NONE)
       [session_arg s, slot_arg s, mechanism_arg s, output_arg s, flags_arg s, user_type_arg s,
        template0_arg s, template_count0_arg s, template1_arg s, template_count1_arg s,
        async_name_arg s, async_value_arg s]"

section \<open>Configuration cells\<close>

abbreviation (input) CFG_TASK_NEWTASK_OFFSETS_VALID :: u64 where
  "CFG_TASK_NEWTASK_OFFSETS_VALID \<equiv> 0x100000000"
abbreviation (input) CFG_TASK_NEWTASK_OFFSET_MASK :: u64 where
  "CFG_TASK_NEWTASK_OFFSET_MASK \<equiv> 0xFFFF"
abbreviation (input) CFG_TASK_NEWTASK_OFFSETS_KNOWN :: u64 where
  "CFG_TASK_NEWTASK_OFFSETS_KNOWN \<equiv>
     CFG_TASK_NEWTASK_OFFSETS_VALID OR CFG_TASK_NEWTASK_OFFSET_MASK
     OR push_bit 16 CFG_TASK_NEWTASK_OFFSET_MASK"

definition pack_task_newtask_offsets :: "u16 \<Rightarrow> u16 \<Rightarrow> u64" where
  "pack_task_newtask_offsets pid clone_flags =
     CFG_TASK_NEWTASK_OFFSETS_VALID OR push_bit 0 (ucast pid) OR push_bit 16 (ucast clone_flags)"

definition unpack_task_newtask_offsets :: "u64 \<Rightarrow> (nat \<times> nat) option" where
  "unpack_task_newtask_offsets v =
     (if v AND CFG_TASK_NEWTASK_OFFSETS_VALID = 0 \<or> v AND NOT CFG_TASK_NEWTASK_OFFSETS_KNOWN \<noteq> 0
      then None
      else Some (unat (drop_bit 0 v AND CFG_TASK_NEWTASK_OFFSET_MASK),
                 unat (drop_bit 16 v AND CFG_TASK_NEWTASK_OFFSET_MASK)))"

abbreviation (input) FLAG_PID_FILTER :: u64 where "FLAG_PID_FILTER \<equiv> 0x1"
abbreviation (input) FLAG_CGROUP_FILTER :: u64 where "FLAG_CGROUP_FILTER \<equiv> 0x2"
abbreviation (input) FLAG_SYSTEM_FILTER :: u64 where "FLAG_SYSTEM_FILTER \<equiv> 0x40"
abbreviation (input) FLAG_POLICY_ALLOWLISTED :: u64 where "FLAG_POLICY_ALLOWLISTED \<equiv> 0x4"
abbreviation (input) FLAG_POLICY_UNSAFE_UNVALIDATED_METADATA :: u64 where
  "FLAG_POLICY_UNSAFE_UNVALIDATED_METADATA \<equiv> 0x8"
abbreviation (input) FLAG_POLICY_AGGREGATE :: u64 where "FLAG_POLICY_AGGREGATE \<equiv> 0x10"
abbreviation (input) FLAG_PAUSE_ENABLED :: u64 where "FLAG_PAUSE_ENABLED \<equiv> 0x20"
abbreviation (input) FLAG_POLICY_INVENTORY :: u64 where "FLAG_POLICY_INVENTORY \<equiv> 0x80"
abbreviation (input) FLAG_TRACK_SHORT_LIVED :: u64 where "FLAG_TRACK_SHORT_LIVED \<equiv> 0x100"

definition valid_inventory_config :: "u64 \<Rightarrow> bool" where
  "valid_inventory_config flags \<longleftrightarrow>
     flags = FLAG_POLICY_INVENTORY OR FLAG_PID_FILTER
     \<or> flags = FLAG_POLICY_INVENTORY OR FLAG_CGROUP_FILTER
     \<or> flags = FLAG_POLICY_INVENTORY OR FLAG_SYSTEM_FILTER"

definition valid_config :: "u64 \<Rightarrow> bool" where
  "valid_config flags \<longleftrightarrow>
     (let scope = flags AND (FLAG_PID_FILTER OR FLAG_CGROUP_FILTER OR FLAG_SYSTEM_FILTER);
          policy = flags AND (FLAG_POLICY_ALLOWLISTED OR FLAG_POLICY_UNSAFE_UNVALIDATED_METADATA
                              OR FLAG_POLICY_AGGREGATE);
          known = FLAG_PID_FILTER OR FLAG_CGROUP_FILTER OR FLAG_SYSTEM_FILTER
                  OR FLAG_POLICY_ALLOWLISTED OR FLAG_POLICY_UNSAFE_UNVALIDATED_METADATA
                  OR FLAG_POLICY_AGGREGATE OR FLAG_PAUSE_ENABLED OR FLAG_TRACK_SHORT_LIVED
      in (scope = FLAG_PID_FILTER \<or> scope = FLAG_CGROUP_FILTER \<or> scope = FLAG_SYSTEM_FILTER)
         \<and> (policy = FLAG_POLICY_ALLOWLISTED \<or> policy = FLAG_POLICY_UNSAFE_UNVALIDATED_METADATA
            \<or> policy = FLAG_POLICY_AGGREGATE)
         \<and> flags AND NOT known = 0
         \<and> (flags AND FLAG_PAUSE_ENABLED = 0 \<or> scope = FLAG_PID_FILTER))"

abbreviation (input) INVENTORY_COOKIE_TAG :: u32 where "INVENTORY_COOKIE_TAG \<equiv> 0x50555347"
abbreviation (input) INVENTORY_USAGE_VERSION :: u32 where "INVENTORY_USAGE_VERSION \<equiv> 1"

record InventoryUsageConfig =
  iuc_version :: u32
  endpoint_capacity :: u32

definition iuc_is_valid :: "InventoryUsageConfig \<Rightarrow> bool" where
  "iuc_is_valid c \<longleftrightarrow> iuc_version c = INVENTORY_USAGE_VERSION \<and> endpoint_capacity c \<noteq> 0"

definition inventory_cookie_endpoint :: "u64 \<Rightarrow> u32 \<Rightarrow> u32 option" where
  "inventory_cookie_endpoint cookie capacity =
     (let endpoint = ucast cookie
      in if drop_bit 32 cookie \<noteq> ucast INVENTORY_COOKIE_TAG \<or> endpoint \<ge> capacity
         then None else Some endpoint)"

section \<open>Aggregates and finite classifications\<close>

abbreviation (input) LATENCY_BUCKETS :: nat where "LATENCY_BUCKETS \<equiv> 32"

text \<open>\<^verbatim>\<open>u64::leading_zeros\<close>, counting down from the top bit.\<close>

fun leading_zeros_below :: "nat \<Rightarrow> u64 \<Rightarrow> nat" where
  "leading_zeros_below 0 w = 0"
| "leading_zeros_below (Suc k) w = (if bit w k then 0 else Suc (leading_zeros_below k w))"

definition leading_zeros :: "u64 \<Rightarrow> nat" where
  "leading_zeros w = leading_zeros_below 64 w"

definition bucket_of :: "u64 \<Rightarrow> nat" where
  "bucket_of ns =
     (if ns = 0 then 0
      else let idx = 64 - leading_zeros ns
           in if idx \<ge> LATENCY_BUCKETS then LATENCY_BUCKETS - 1 else idx)"

definition TYPES_AND_BITS :: "(u32 \<times> u32) list" where
  "TYPES_AND_BITS =
     [(0x01, 0), (0x02, 1), (0x103, 2), (0x104, 3), (0x105, 4), (0x106, 5), (0x107, 6),
      (0x108, 7), (0x10A, 8), (0x10C, 9), (0x162, 10)]"

fun bit_in_table :: "(u32 \<times> u32) list \<Rightarrow> u32 \<Rightarrow> u32 option" where
  "bit_in_table [] attr_type = None"
| "bit_in_table ((ty, b) # rest) attr_type =
     (if ty = attr_type then Some b else bit_in_table rest attr_type)"

definition bit_for_attr_type :: "u64 \<Rightarrow> u32 option" where
  "bit_for_attr_type attr_type =
     (if attr_type > 0xFFFFFFFF then None else bit_in_table TYPES_AND_BITS (ucast attr_type))"

text \<open>The named masks of the module, with the attribute type each is documented for: TOKEN,
  PRIVATE, SENSITIVE, ENCRYPT, DECRYPT, WRAP, UNWRAP, SIGN, VERIFY, DERIVE, EXTRACTABLE.\<close>

definition attr_bool_masks :: "(u64 \<times> u32) list" where
  "attr_bool_masks =
     [(0x01, push_bit 0 1), (0x02, push_bit 1 1), (0x103, push_bit 2 1), (0x104, push_bit 3 1), (0x105, push_bit 4 1),
      (0x106, push_bit 5 1), (0x107, push_bit 6 1), (0x108, push_bit 7 1), (0x10A, push_bit 8 1), (0x10C, push_bit 9 1),
      (0x162, push_bit 10 1)]"

abbreviation (input) USER_TYPE_NONE :: u32 where "USER_TYPE_NONE \<equiv> 0xFFFFFFFF"
abbreviation (input) FUNCTION_NONE :: u32 where "FUNCTION_NONE \<equiv> 0xFFFFFFFF"

definition finite_login_user_type :: "u64 \<Rightarrow> u32" where
  "finite_login_user_type raw = (if raw \<le> 2 then ucast raw else USER_TYPE_NONE)"

abbreviation (input) FUNCTION_NAME_MAX_BYTES :: nat where "FUNCTION_NAME_MAX_BYTES \<equiv> 27"

record FunctionNameKey =
  fnk_len :: u32
  fnk_bytes :: "u8 list"

fun position_zero :: "u8 list \<Rightarrow> nat option" where
  "position_zero [] = None"
| "position_zero (b # bs) = (if b = 0 then Some 0 else map_option Suc (position_zero bs))"

definition function_name_key_from_bytes :: "u8 list \<Rightarrow> FunctionNameKey option" where
  "function_name_key_from_bytes snapshot =
     (if length snapshot > FUNCTION_NAME_MAX_BYTES + 2 then None
      else case position_zero snapshot of
             None \<Rightarrow> None
           | Some len \<Rightarrow>
               if len > FUNCTION_NAME_MAX_BYTES then None
               else Some \<lparr>fnk_len = of_nat len,
                          fnk_bytes = take len snapshot @ replicate (FUNCTION_NAME_MAX_BYTES + 1 - len) 0\<rparr>)"

definition return_allows_mechanism :: "u64 \<Rightarrow> bool" where
  "return_allows_mechanism rv \<longleftrightarrow> rv = 0 \<or> rv = 0x204"

abbreviation (input) EVENT_TYPE_CALL :: u32 where "EVENT_TYPE_CALL \<equiv> 0"
abbreviation (input) EVENT_TYPE_FORK :: u32 where "EVENT_TYPE_FORK \<equiv> 1"
abbreviation (input) EVENT_TYPE_FORK_INTO_CGROUP :: u32 where "EVENT_TYPE_FORK_INTO_CGROUP \<equiv> 2"
abbreviation (input) CLONE_THREAD :: u64 where "CLONE_THREAD \<equiv> 0x00010000"
abbreviation (input) CLONE_INTO_CGROUP :: u64 where "CLONE_INTO_CGROUP \<equiv> 0x200000000"

definition classify_task_newtask :: "u64 \<Rightarrow> u32 option" where
  "classify_task_newtask clone_flags =
     (if clone_flags AND CLONE_THREAD \<noteq> 0 then None
      else if clone_flags AND CLONE_INTO_CGROUP \<noteq> 0 then Some EVENT_TYPE_FORK_INTO_CGROUP
      else Some EVENT_TYPE_FORK)"

section \<open>Image identity, continuity stamps, birth marker\<close>

abbreviation (input) IMAGE_IDENTITY_TICKET_LIMIT :: u64 where "IMAGE_IDENTITY_TICKET_LIMIT \<equiv> 16384"

record ImageIdentity =
  task_cookie :: u64
  exec_id :: u64

definition image_pair_matches :: "ImageIdentity \<Rightarrow> ImageIdentity \<Rightarrow> bool" where
  "image_pair_matches saved current \<longleftrightarrow>
     task_cookie saved \<noteq> 0 \<and> task_cookie current \<noteq> 0
     \<and> task_cookie saved = task_cookie current \<and> exec_id saved = exec_id current"

abbreviation (input) STAMP_VALID :: u16 where "STAMP_VALID \<equiv> 0x8000"
abbreviation (input) STAMP_NO_FILE :: u16 where "STAMP_NO_FILE \<equiv> 0x1"
abbreviation (input) STAMP_NO_TASK :: u16 where "STAMP_NO_TASK \<equiv> 0x2"
abbreviation (input) STAMP_SHARED_MM :: u16 where "STAMP_SHARED_MM \<equiv> 0x4"
abbreviation (input) STAMP_OVERFLOW :: u16 where "STAMP_OVERFLOW \<equiv> 0x8"
abbreviation (input) STAMP_LOCAL_FAULT :: u16 where "STAMP_LOCAL_FAULT \<equiv> 0x10"
abbreviation (input) STAMP_BLOCKING :: u16 where
  "STAMP_BLOCKING \<equiv>
     STAMP_NO_FILE OR STAMP_NO_TASK OR STAMP_SHARED_MM OR STAMP_OVERFLOW OR STAMP_LOCAL_FAULT"
abbreviation (input) FILE_SLOTS :: u32 where "FILE_SLOTS \<equiv> 1024"
abbreviation (input) RECORD_SLOTS :: nat where "RECORD_SLOTS \<equiv> 8"

record InstanceStamp =
  epoch :: u32
  global_epoch :: u32
  fault :: u32
  file_slot_plus1 :: u16
  stamp_flags :: u16

definition stamp_joinable :: "InstanceStamp \<Rightarrow> InstanceStamp \<Rightarrow> bool" where
  "stamp_joinable entry ret \<longleftrightarrow>
     stamp_flags entry AND STAMP_VALID \<noteq> 0
     \<and> stamp_flags entry AND STAMP_BLOCKING = 0
     \<and> file_slot_plus1 entry \<noteq> 0
     \<and> epoch entry = epoch ret
     \<and> global_epoch entry = global_epoch ret
     \<and> fault entry = fault ret
     \<and> file_slot_plus1 entry = file_slot_plus1 ret
     \<and> stamp_flags entry = stamp_flags ret"

record InstanceContinuity =
  entry_ip :: u64
  entry_stamp :: InstanceStamp
  return_stamp :: InstanceStamp

abbreviation (input) MARKER_UNPUBLISHED :: u64 where "MARKER_UNPUBLISHED \<equiv> 0"
abbreviation (input) MARKER_DIRTY :: u64 where "MARKER_DIRTY \<equiv> 1"
abbreviation (input) MARKER_STATE_MASK :: u64 where "MARKER_STATE_MASK \<equiv> 3"
abbreviation (input) MARKER_READY_STATE :: u64 where "MARKER_READY_STATE \<equiv> 2"

datatype MarkerRead = Unpublished | Ready u64 | Dirty | Invalid

definition ready_word :: "u64 \<Rightarrow> u64" where
  "ready_word exec = push_bit 2 exec OR MARKER_READY_STATE"

definition marker_read_word :: "u64 \<Rightarrow> MarkerRead" where
  "marker_read_word w =
     (if w = MARKER_UNPUBLISHED then Unpublished
      else if w = MARKER_DIRTY then Dirty
      else if w AND MARKER_STATE_MASK = MARKER_READY_STATE then Ready (drop_bit 2 w)
      else Invalid)"

text \<open>Specification vocabulary: the last byte of a target word and the size of a
  target's address space, as numbers.\<close>

definition word_last :: "LinuxLayout \<Rightarrow> nat" where
  "word_last l = (case l of Lp64 \<Rightarrow> 7 | Ilp32 \<Rightarrow> 3)"

definition space_size :: "LinuxLayout \<Rightarrow> nat" where
  "space_size l = (case l of Lp64 \<Rightarrow> 2 ^ 64 | Ilp32 \<Rightarrow> 2 ^ 32)"

text \<open>The legal tracing configurations, spelled out: one scope, one policy, the
  optional short-lived tracker, and pausing only under a process filter.\<close>

definition legal_configs :: "u64 list" where
  "legal_configs =
     [scope OR policy OR pause OR short_lived.
        scope \<leftarrow> [FLAG_PID_FILTER, FLAG_CGROUP_FILTER, FLAG_SYSTEM_FILTER],
        policy \<leftarrow> [FLAG_POLICY_ALLOWLISTED, FLAG_POLICY_UNSAFE_UNVALIDATED_METADATA,
                   FLAG_POLICY_AGGREGATE],
        pause \<leftarrow> (if scope = FLAG_PID_FILTER then [0, FLAG_PAUSE_ENABLED] else [0]),
        short_lived \<leftarrow> [0, FLAG_TRACK_SHORT_LIVED]]"

section \<open>Facts about target words and stack arguments\<close>

lemma and_low32: "w AND 0xFFFFFFFF = (take_bit 32 w :: u64)"
  by (simp add: take_bit_eq_mask mask_numeral)

lemma unat_take_bit32: "unat (take_bit 32 (w :: u64)) = unat w mod 2 ^ 32"
  by (metis unsigned_take_bit_eq take_bit_eq_mod)

lemma normalize_target_word_Lp64 [simp]: "normalize_target_word w Lp64 = w"
  by (simp add: normalize_target_word_def)

lemma normalize_target_word_Ilp32 [simp]: "normalize_target_word w Ilp32 = take_bit 32 w"
  unfolding normalize_target_word_def by simp (rule bit_word_eqI, auto simp: bit_simps)

lemma normalize_target_word_idem [simp]:
  "normalize_target_word (normalize_target_word w l) l = normalize_target_word w l"
  by (cases l) simp_all

lemma target_word_end_Some_iff:
  "target_word_end a l = Some e \<longleftrightarrow> unat e = unat a + word_last l \<and> unat e < space_size l"
proof (cases l)
  case Lp64
  then show ?thesis
    using unsigned_less[of e, where 'a = nat]
    by (auto simp: target_word_end_def checked_add_Some_iff word_last_def space_size_def)
next
  case Ilp32
  have *: "a \<le> 0xFFFFFFFC \<Longrightarrow> unat (a + 3) = unat a + 3"
    by (subst unat_add_exact) (auto simp: word_le_nat_alt)
  show ?thesis
    using Ilp32 * by (auto simp: target_word_end_def word_last_def space_size_def
        word_le_nat_alt word_unat_eq_iff split: if_splits)
qed

lemma target_word_end_fits:
  "(\<exists>e. target_word_end a l = Some e) \<longleftrightarrow> unat a + word_last l < space_size l"
proof
  assume "unat a + word_last l < space_size l"
  moreover from this have "unat a + word_last l < 2 ^ 64"
    by (cases l) (simp_all add: space_size_def)
  ultimately have "target_word_end a l = Some (of_nat (unat a + word_last l))"
    by (simp add: target_word_end_Some_iff unat_of_nat del: of_nat_add)
  then show "\<exists>e. target_word_end a l = Some e" by blast
qed (auto simp: target_word_end_Some_iff)

lemma ia32_arg_address_Some_iff:
  "ia32_arg_address sp i = Some a \<longleftrightarrow>
     i \<le> 6 \<and> unat a = unat sp mod 2 ^ 32 + 4 * (unat i + 1) \<and> unat a + 3 < 2 ^ 32"
proof (cases "i \<le> 6")
  case True
  then have i: "unat i \<le> 6" by (simp add: word_le_nat_alt)
  have u: "unat (ucast i + 1 :: u64) = unat i + 1"
    using i by (subst unat_add_exact) (auto simp: unat_ucast_up)
  have m: "checked_mul (ucast i + 1 :: u64) 4 = Some ((ucast i + 1) * 4)"
    using i u by (simp add: checked_mul_def)
  have um: "unat ((ucast i + 1 :: u64) * 4) = 4 * (unat i + 1)"
    using i u by (subst unat_mult_exact) auto
  have "ia32_arg_address sp i =
      do { address \<leftarrow> checked_add (take_bit 32 sp) ((ucast i + 1) * 4);
           _ \<leftarrow> target_word_end address Ilp32; Some address }"
    unfolding ia32_arg_address_def and_low32 Let_def m using True by (simp add: not_less [symmetric])
  then show ?thesis
    using True um by (auto simp: bind_eq_Some_conv checked_add_Some_iff
        target_word_end_fits unat_take_bit32 word_last_def space_size_def)
qed (simp add: ia32_arg_address_def not_le)

text \<open>A stack argument is always one whole target word inside the address space.\<close>

lemma target_stack_arg_address_fits:
  assumes "target_stack_arg_address sp i l = Some a"
  shows "unat (normalize_target_word sp l) < unat a" "unat a + word_last l < space_size l"
proof -
  have ilp: "unat sp mod 2 ^ 32 = unat (take_bit 32 sp)" by (simp only: unat_take_bit32)
  have "unat (normalize_target_word sp l) < unat a \<and> unat a + word_last l < space_size l"
  proof (cases l)
    case Lp64
    with assms show ?thesis
      by (auto simp: target_stack_arg_address_def bind_eq_Some_conv checked_add_Some_iff
          target_word_end_fits split: if_splits)
  next
    case Ilp32
    with assms ilp show ?thesis
      by (auto simp: target_stack_arg_address_def ia32_arg_address_Some_iff word_last_def space_size_def)
  qed
  then show "unat (normalize_target_word sp l) < unat a" "unat a + word_last l < space_size l" by auto
qed

section \<open>Cookie and cell codecs\<close>

lemma mask24: "0xFFFFFF = (mask 24 :: u32)" by (simp add: mask_numeral)

interpretation attach_cookie: exact_codec
  "\<lambda>(slot, descriptor). Some (attach_cookie slot descriptor)"
  "\<lambda>c. Some (cookie_slot c, cookie_descriptor c)"
proof unfold_locales
  fix x w
  have s: "cookie_slot (attach_cookie a b) = a" for a b
    unfolding cookie_slot_def attach_cookie_def by (rule bit_word_eqI) (auto simp: bit_simps)
  have d: "cookie_descriptor (attach_cookie a b) = b" for a b
    unfolding cookie_descriptor_def attach_cookie_def
    by (rule bit_word_eqI) (auto simp: bit_simps dest: bit_imp_le_length)
  show "(case x of (a, b) \<Rightarrow> Some (attach_cookie a b)) = Some w \<Longrightarrow>
      Some (cookie_slot w, cookie_descriptor w) = Some x"
    using s d by (auto split: prod.splits)
  have "attach_cookie (cookie_slot w) (cookie_descriptor w) = w"
    unfolding cookie_slot_def cookie_descriptor_def attach_cookie_def
    by (rule bit_word_eqI) (auto simp: bit_simps)
  then show "Some (cookie_slot w, cookie_descriptor w) = Some x \<Longrightarrow>
      (case x of (a, b) \<Rightarrow> Some (attach_cookie a b)) = Some w"
    by auto
qed

interpretation export_cookie: exact_codec
  "\<lambda>(object_id, case_id, hook_id). export_attach_cookie object_id case_id hook_id"
  decode_export_attach_cookie
proof unfold_locales
  fix x w
  show "(case x of (a, b, c) \<Rightarrow> export_attach_cookie a b c) = Some w \<Longrightarrow>
      decode_export_attach_cookie w = Some x"
  proof (cases x)
    case (fields a b c)
    assume "(case x of (a, b, c) \<Rightarrow> export_attach_cookie a b c) = Some w"
    then have c: "c \<noteq> 0" "c \<le> mask 24"
      and w: "w = push_bit 32 (ucast a) OR push_bit 24 (ucast b) OR ucast c"
      by (auto simp: fields export_attach_cookie_def mask24 split: if_splits)
    from c(2) have "unat c < 2 ^ 24" by (simp add: word_le_nat_alt mask_numeral)
    note bits = bit_below[OF this]
    have "ucast w AND mask 24 = c" "ucast (drop_bit 32 w) = a" "ucast (drop_bit 24 w) = b"
      unfolding w by (auto intro!: bit_word_eqI simp: bit_simps bit_beyond dest: bits)
    with c(1) show "decode_export_attach_cookie w = Some x"
      by (simp add: decode_export_attach_cookie_def fields mask24)
  qed
  show "decode_export_attach_cookie w = Some x \<Longrightarrow>
      (case x of (a, b, c) \<Rightarrow> export_attach_cookie a b c) = Some w"
  proof -
    let ?h = "ucast w AND mask 24 :: u32"
    assume "decode_export_attach_cookie w = Some x"
    then have h: "?h \<noteq> 0" and x: "x = (ucast (drop_bit 32 w), ucast (drop_bit 24 w), ?h)"
      by (auto simp: decode_export_attach_cookie_def mask24 Let_def split: if_splits)
    have le: "?h \<le> mask 24" by (rule word_and_le1)
    let ?v = "push_bit 32 (ucast (ucast (drop_bit 32 w) :: u32)) OR
      push_bit 24 (ucast (ucast (drop_bit 24 w) :: u8)) OR ucast ?h :: u64"
    have "bit ?v n = bit w n" if "n < 64" for n
      using that by (cases "n < 32") (auto simp: bit_simps)
    then have "?v = w" by (intro bit_word_eqI) simp
    with h le show ?thesis
      by (auto simp: x export_attach_cookie_def mask24 not_less)
  qed
qed

text \<open>The task-newtask offsets travel in one configuration cell; the cell is
  accepted only in the exact form the packer writes.\<close>

lemma task_newtask_cell:
  "pack_task_newtask_offsets pid flags = push_bit 32 1 OR ucast pid OR push_bit 16 (ucast flags)"
  by (simp add: pack_task_newtask_offsets_def)

lemma task_newtask_bits:
  fixes p f :: u16
  defines "w \<equiv> push_bit 32 1 OR ucast p OR push_bit 16 (ucast f) :: u64"
  shows "bit w 32" "w AND NOT (mask 33) = 0" "take_bit 16 w = ucast p"
    "take_bit 16 (drop_bit 16 w) = ucast f"
proof -
  have w: "bit w n \<longleftrightarrow> n = 32 \<or> n < 16 \<and> bit p n \<or> 16 \<le> n \<and> n < 32 \<and> bit f (n - 16)" for n
    unfolding w_def bit_or_iff bit_push_bit_iff
    using bit_imp_le_length[of p n] bit_imp_le_length[of f "n - 16"] by (auto simp: bit_simps)
  have len: "bit v n \<Longrightarrow> n < 16" for v :: u16 and n using bit_imp_le_length[of v n] by simp
  show "bit w 32" "w AND NOT (mask 33) = 0" "take_bit 16 w = ucast p"
    "take_bit 16 (drop_bit 16 w) = ucast f"
    by (auto intro!: bit_word_eqI simp: bit_simps w dest: len)
qed

lemma bit_exp32: "bit (0x100000000 :: u64) n \<longleftrightarrow> n = 32"
  using bit_exp_iff[where 'a = u64, of 32 n] by auto

lemma known_offsets_mask: "CFG_TASK_NEWTASK_OFFSETS_KNOWN = mask 33"
  by (simp add: mask_numeral)

interpretation task_newtask: exact_codec
  "\<lambda>(pid, flags). if pid < 2 ^ 16 \<and> flags < 2 ^ 16
     then Some (pack_task_newtask_offsets (of_nat pid) (of_nat flags)) else None"
  unpack_task_newtask_offsets
proof unfold_locales
  fix x w
  have valid: "v AND CFG_TASK_NEWTASK_OFFSETS_VALID = 0 \<longleftrightarrow> \<not> bit v 32" for v
    using and_exp_eq_0_iff_not_bit[of v 32] by simp
  have low: "v AND CFG_TASK_NEWTASK_OFFSET_MASK = take_bit 16 v" for v :: u64
    by (simp add: take_bit_eq_mask mask_numeral)
  have unpack: "unpack_task_newtask_offsets v =
      (if bit v 32 \<and> v AND NOT (mask 33) = 0
       then Some (unat (take_bit 16 v), unat (take_bit 16 (drop_bit 16 v))) else None)" for v
    unfolding unpack_task_newtask_offsets_def valid known_offsets_mask low by simp
  show "(case x of (pid, flags) \<Rightarrow> if pid < 2 ^ 16 \<and> flags < 2 ^ 16
     then Some (pack_task_newtask_offsets (of_nat pid) (of_nat flags)) else None) = Some w \<Longrightarrow>
     unpack_task_newtask_offsets w = Some x"
  proof (cases x)
    case (Pair a b)
    assume "(case x of (pid, flags) \<Rightarrow> if pid < 2 ^ 16 \<and> flags < 2 ^ 16
     then Some (pack_task_newtask_offsets (of_nat pid) (of_nat flags)) else None) = Some w"
    then have r: "a < 2 ^ 16" "b < 2 ^ 16"
      and w: "w = push_bit 32 1 OR ucast (of_nat a :: u16) OR push_bit 16 (ucast (of_nat b :: u16))"
      by (auto simp: Pair task_newtask_cell split: if_splits)
    note bits = task_newtask_bits[of "of_nat a" "of_nat b", folded w]
    have "unat (ucast (of_nat a :: u16) :: u64) = a" "unat (ucast (of_nat b :: u16) :: u64) = b"
      using r by (simp_all add: unat_ucast_up unat_of_nat)
    with bits show ?thesis by (simp only: unpack Pair if_True simp_thms)
  qed
  show "unpack_task_newtask_offsets w = Some x \<Longrightarrow> (case x of (pid, flags) \<Rightarrow> if pid < 2 ^ 16 \<and> flags < 2 ^ 16
     then Some (pack_task_newtask_offsets (of_nat pid) (of_nat flags)) else None) = Some w"
  proof -
    assume "unpack_task_newtask_offsets w = Some x"
    then have v: "bit w 32" "w AND NOT (mask 33) = 0"
      and x: "x = (unat (take_bit 16 w), unat (take_bit 16 (drop_bit 16 w)))"
      by (auto simp: unpack split: if_splits)
    have hi: "n < 33" if "bit w n" for n
    proof -
      have "\<not> bit (w AND NOT (mask 33)) n" using v(2) by simp
      then show ?thesis using that bit_imp_le_length[OF that] by (simp add: bit_simps)
    qed
    have b: "unat (take_bit 16 v) < 2 ^ 16" for v :: u64
      by (metis take_bit_nat_less_exp unsigned_take_bit_eq)
    have "push_bit 32 1 OR ucast (of_nat (unat (take_bit 16 w)) :: u16)
        OR push_bit 16 (ucast (of_nat (unat (take_bit 16 (drop_bit 16 w))) :: u16)) = w"
      (is "?v = w")
    proof (rule bit_word_eqI)
      fix n assume "n < LENGTH(64)"
      then show "bit ?v n = bit w n"
        using v(1) hi[of n] bit_exp32[of n]
        by (cases "n < 16"; cases "n < 32"; cases "n = 32") (auto simp: bit_simps)
    qed
    then show ?thesis using b[of w] b[of "drop_bit 16 w"] by (simp add: x task_newtask_cell)
  qed
qed

text \<open>A READY marker names its exec generation exactly, up to the two state bits.\<close>

interpretation marker: exact_codec
  "\<lambda>exec. if exec < 2 ^ 62 then Some (ready_word exec) else None"
  "\<lambda>w. case marker_read_word w of Ready exec \<Rightarrow> Some exec | _ \<Rightarrow> None"
proof unfold_locales
  have two: "(2 :: u64) = push_bit 1 1" by simp
  have b2: "bit (2 :: u64) n \<longleftrightarrow> n = 1" for n using bit_exp_iff[where 'a = u64, of 1 n] by auto
  have st: "w AND MARKER_STATE_MASK = MARKER_READY_STATE \<longleftrightarrow> bit w 1 \<and> \<not> bit w 0" for w :: u64
  proof
    assume *: "w AND MARKER_STATE_MASK = MARKER_READY_STATE"
    have "bit (w AND mask 2) n = bit (2 :: u64) n" for n using * by (simp add: mask_numeral)
    from this[of 1] this[of 0] show "bit w 1 \<and> \<not> bit w 0" by (simp add: bit_simps b2)
  next
    assume *: "bit w 1 \<and> \<not> bit w 0"
    have "w AND mask 2 = 2"
      using * by (intro bit_word_eqI) (auto simp: bit_simps b2 less_2_cases_iff)
    then show "w AND MARKER_STATE_MASK = MARKER_READY_STATE" by (simp add: mask_numeral)
  qed
  have r: "bit (ready_word e) n \<longleftrightarrow> n = 1 \<or> 2 \<le> n \<and> n < 64 \<and> bit e (n - 2)" for e n
    unfolding ready_word_def bit_or_iff bit_push_bit_iff b2 by auto
  fix e w :: u64
  show "(if e < 2 ^ 62 then Some (ready_word e) else None) = Some w \<Longrightarrow>
      (case marker_read_word w of Ready exec \<Rightarrow> Some exec | _ \<Rightarrow> None) = Some e"
  proof -
    assume "(if e < 2 ^ 62 then Some (ready_word e) else None) = Some w"
    then have w: "w = ready_word e" and "unat e < 2 ^ 62"
      by (auto simp: word_less_nat_alt split: if_splits)
    note top = bit_below[OF this(2)]
    have "bit w 1" "\<not> bit w 0" by (simp_all add: w r)
    moreover from this have "w \<noteq> 0" "w \<noteq> 1" by auto
    moreover have "drop_bit 2 w = e"
      unfolding w by (rule bit_word_eqI) (auto simp: bit_drop_bit_eq r dest: top)
    ultimately show ?thesis by (simp add: marker_read_word_def st)
  qed
  show "(case marker_read_word w of Ready exec \<Rightarrow> Some exec | _ \<Rightarrow> None) = Some e \<Longrightarrow>
      (if e < 2 ^ 62 then Some (ready_word e) else None) = Some w"
  proof -
    assume "(case marker_read_word w of Ready exec \<Rightarrow> Some exec | _ \<Rightarrow> None) = Some e"
    then have b: "bit w 1" "\<not> bit w 0" and e: "e = drop_bit 2 w"
      by (auto simp: marker_read_word_def st split: if_splits)
    have "unat e < 2 ^ 62"
      using unsigned_less[of w, where 'a = nat] by (simp add: e drop_bit_eq_div unat_div)
    moreover have "ready_word e = w"
    proof (rule bit_word_eqI)
      fix n show "bit (ready_word e) n = bit w n" if "n < LENGTH(64)"
        using that b le_add_diff_inverse[of 2 n]
        by (cases "n = 0"; cases "n = 1") (auto simp: r e bit_drop_bit_eq)
    qed
    ultimately show ?thesis by (simp add: word_less_nat_alt)
  qed
qed

section \<open>Configuration validity\<close>

lemma and_exp_cases: "w AND 2 ^ n = (0 :: 'a::len word) \<or> w AND 2 ^ n = 2 ^ n"
  by (cases "bit w n") (auto intro!: bit_word_eqI simp: bit_simps)

lemma known_flags_split:
  assumes "(flags :: u64) AND NOT 0x17F = 0"
  shows "flags = (flags AND 0x43) OR (flags AND 0x1C) OR (flags AND 0x20) OR (flags AND 0x100)"
proof -
  have "flags = flags AND (0x17F OR NOT 0x17F)" by (simp only: bit.disj_cancel_right and.right_neutral)
  also have "\<dots> = (flags AND 0x17F) OR (flags AND NOT 0x17F)"
    by (simp only: bit.conj_disj_distrib)
  also have "\<dots> = flags AND (0x43 OR 0x1C OR 0x20 OR 0x100)" using assms by simp
  finally show ?thesis by (simp only: bit.conj_disj_distrib)
qed

lemma valid_config_iff_legal: "valid_config flags \<longleftrightarrow> flags \<in> set legal_configs"
proof
  assume v: "valid_config flags"
  then have "flags AND NOT 0x17F = 0" and scope: "flags AND 0x43 \<in> {1, 2, 0x40}"
    and policy: "flags AND 0x1C \<in> {4, 8, 0x10}"
    and pause: "flags AND 0x20 = 0 \<or> flags AND 0x43 = 1"
    by (auto simp: valid_config_def Let_def)
  note split = known_flags_split[OF this(1)]
  have "flags AND 0x20 \<in> {0, 0x20}" "flags AND 0x100 \<in> {0, 0x100}"
    using and_exp_cases[of flags 5] and_exp_cases[of flags 8] by auto
  with scope policy pause show "flags \<in> set legal_configs"
    by (subst split) (auto simp: legal_configs_def)
next
  assume "flags \<in> set legal_configs"
  then show "valid_config flags" unfolding legal_configs_def by (auto simp: valid_config_def)
qed

text \<open>A tracing configuration is never an inventory configuration.\<close>

lemma config_disjoint: "valid_config flags \<Longrightarrow> \<not> valid_inventory_config flags"
  by (auto simp: valid_config_def valid_inventory_config_def Let_def)

section \<open>Latency buckets\<close>

lemma leading_zeros_below_le: "leading_zeros_below k w \<le> k"
  by (induction k) auto

lemma leading_zeros_below_bounds:
  "unat (take_bit k w) < 2 ^ (k - leading_zeros_below k w)"
  "take_bit k w \<noteq> 0 \<Longrightarrow>
    leading_zeros_below k w < k \<and> 2 ^ (k - 1 - leading_zeros_below k w) \<le> unat (take_bit k w)"
proof -
  have nat: "unat (take_bit j w) = take_bit j (unat w)" for j by (rule unsigned_take_bit_eq)
  have z: "take_bit j w = 0 \<longleftrightarrow> take_bit j (unat w) = 0" for j by (metis nat unat_eq_0)
  have suc: "take_bit (Suc j) (unat w) = take_bit j (unat w) + (if bit w j then 2 ^ j else 0)" for j
    using bit_imp_le_length[of w j]
    by (auto simp: take_bit_Suc_from_most bit_unsigned_iff)
  have "take_bit k (unat w) < 2 ^ (k - leading_zeros_below k w) \<and>
    (take_bit k (unat w) \<noteq> 0 \<longrightarrow>
      leading_zeros_below k w < k \<and> 2 ^ (k - 1 - leading_zeros_below k w) \<le> take_bit k (unat w))"
  proof (induction k)
    case (Suc k)
    have "take_bit k (unat w) < 2 ^ k" by simp
    with Suc leading_zeros_below_le[of k w] show ?case
      by (auto simp: suc Suc_diff_le)
  qed simp
  then show "unat (take_bit k w) < 2 ^ (k - leading_zeros_below k w)"
    "take_bit k w \<noteq> 0 \<Longrightarrow>
    leading_zeros_below k w < k \<and> 2 ^ (k - 1 - leading_zeros_below k w) \<le> unat (take_bit k w)"
    by (simp_all add: nat z)
qed

lemma leading_zeros_bounds:
  assumes "ns \<noteq> 0"
  shows "leading_zeros ns < 64" "2 ^ (63 - leading_zeros ns) \<le> unat ns"
    "unat ns < 2 ^ (64 - leading_zeros ns)"
  using leading_zeros_below_bounds[of 64 ns] assms by (auto simp: leading_zeros_def)

lemma bucket_of_range: "bucket_of ns < LATENCY_BUCKETS"
  by (auto simp: bucket_of_def Let_def)

lemma bucket_of_upper:
  assumes "bucket_of ns < LATENCY_BUCKETS - 1"
  shows "unat ns < 2 ^ bucket_of ns"
  using assms leading_zeros_bounds(3)[of ns] by (auto simp: bucket_of_def Let_def split: if_splits)

lemma bucket_of_lower:
  assumes "ns \<noteq> 0"
  shows "2 ^ (bucket_of ns - 1) \<le> unat ns"
proof -
  have "bucket_of ns - 1 \<le> 63 - leading_zeros ns"
    using assms leading_zeros_bounds(1)[of ns] by (auto simp: bucket_of_def Let_def)
  then have "(2::nat) ^ (bucket_of ns - 1) \<le> 2 ^ (63 - leading_zeros ns)" by simp
  also note leading_zeros_bounds(2)[OF assms]
  finally show ?thesis .
qed

lemma bucket_of_mono:
  assumes "a \<le> b"
  shows "bucket_of a \<le> bucket_of b"
proof (rule ccontr)
  assume "\<not> bucket_of a \<le> bucket_of b"
  then have lt: "bucket_of b < bucket_of a" by simp
  then have "a \<noteq> 0" "bucket_of b < LATENCY_BUCKETS - 1"
    using bucket_of_range[of a] by (auto simp: bucket_of_def)
  then have "unat b < 2 ^ bucket_of b" "2 ^ (bucket_of a - 1) \<le> unat a"
    using bucket_of_upper bucket_of_lower by blast+
  moreover have "(2::nat) ^ bucket_of b \<le> 2 ^ (bucket_of a - 1)" using lt by simp
  ultimately have "unat b < unat a" by linarith
  with assms show False by (simp add: word_le_nat_alt)
qed

section \<open>Finite classifications\<close>

lemma bit_in_table_Some: "bit_in_table xs a = Some b \<Longrightarrow> (a, b) \<in> set xs"
  by (induction xs) (auto split: if_splits)

lemma bit_in_table_complete: "distinct (map fst xs) \<Longrightarrow> (a, b) \<in> set xs \<Longrightarrow> bit_in_table xs a = Some b"
  by (induction xs) (force split: if_splits)+

lemma bit_for_attr_type_iff:
  "bit_for_attr_type a = Some b \<longleftrightarrow> (\<exists>t. (t, b) \<in> set TYPES_AND_BITS \<and> a = ucast t)"
proof
  assume "bit_for_attr_type a = Some b"
  then have "(ucast a, b) \<in> set TYPES_AND_BITS" and "unat a < 2 ^ 32"
    by (auto simp: bit_for_attr_type_def word_less_nat_alt dest: bit_in_table_Some split: if_splits)
  moreover from bit_below[OF this(2)] have "a = ucast (ucast a :: u32)"
    by (intro bit_word_eqI) (auto simp: bit_simps)
  ultimately show "\<exists>t. (t, b) \<in> set TYPES_AND_BITS \<and> a = ucast t" by blast
next
  assume "\<exists>t. (t, b) \<in> set TYPES_AND_BITS \<and> a = ucast t"
  then obtain t where t: "(t, b) \<in> set TYPES_AND_BITS" "a = ucast t" by blast
  have "unat a < 2 ^ 32" using unsigned_less[of t, where 'a = nat] by (simp add: t(2) unat_ucast_up)
  moreover have "ucast a = t" unfolding t(2) by (rule bit_word_eqI) (auto simp: bit_simps)
  moreover have "distinct (map fst TYPES_AND_BITS)" by (simp add: TYPES_AND_BITS_def)
  ultimately show "bit_for_attr_type a = Some b"
    using t(1) bit_in_table_complete[of TYPES_AND_BITS t b]
    by (simp add: bit_for_attr_type_def word_less_nat_alt)
qed

lemma bit_for_attr_type_none: "bit_for_attr_type a = None \<longleftrightarrow> a \<notin> (\<lambda>(t, _). ucast t) ` set TYPES_AND_BITS"
  using bit_for_attr_type_iff[of a] by (cases "bit_for_attr_type a") force+

lemma position_zero_Some_iff:
  "position_zero xs = Some n \<longleftrightarrow> n < length xs \<and> xs ! n = 0 \<and> 0 \<notin> set (take n xs)"
proof (induction xs arbitrary: n)
  case (Cons x xs)
  show ?case by (cases n) (auto simp: Cons.IH)
qed simp

text \<open>A key stands for exactly one C string: the bytes before the first NUL.\<close>

lemma function_name_key_string:
  assumes "function_name_key_from_bytes s = Some k"
  shows "take (unat (fnk_len k)) (fnk_bytes k) = takeWhile (\<lambda>b. b \<noteq> 0) s"
    "length (fnk_bytes k) = 28" "unat (fnk_len k) \<le> 27"
proof -
  from assms obtain n where n: "position_zero s = Some n" "n \<le> 27"
    and k: "k = \<lparr>fnk_len = of_nat n, fnk_bytes = take n s @ replicate (28 - n) 0\<rparr>"
    by (auto simp: function_name_key_from_bytes_def split: if_splits option.splits)
  from n(1) have p: "n < length s" "s ! n = 0" "0 \<notin> set (take n s)"
    by (simp_all add: position_zero_Some_iff)
  have "takeWhile (\<lambda>b. b \<noteq> 0) s = take n s"
    using p by (intro takeWhile_eq_take_P_nth) (auto simp: in_set_conv_nth)
  moreover have "unat (fnk_len k) = n" using n(2) by (simp add: k unat_of_nat)
  ultimately show "take (unat (fnk_len k)) (fnk_bytes k) = takeWhile (\<lambda>b. b \<noteq> 0) s"
    "length (fnk_bytes k) = 28" "unat (fnk_len k) \<le> 27"
    using n(2) p(1) by (simp_all add: k)
qed

lemma classify_task_newtask_cases:
  "classify_task_newtask f = (if bit f 16 then None else Some (if bit f 33 then 2 else 1))"
  using and_exp_eq_0_iff_not_bit[of f 16] and_exp_eq_0_iff_not_bit[of f 33]
  by (auto simp: classify_task_newtask_def)

section \<open>Identity and continuity\<close>

lemma image_pair_matches_iff:
  "image_pair_matches a b \<longleftrightarrow> task_cookie a \<noteq> 0 \<and> a = b"
  by (cases a; cases b) (auto simp: image_pair_matches_def)

lemma stamp_joinable_iff:
  "stamp_joinable a b \<longleftrightarrow>
     a = b \<and> bit (stamp_flags a) 15 \<and> file_slot_plus1 a \<noteq> 0 \<and> stamp_flags a AND 0x1F = 0"
  using and_exp_eq_0_iff_not_bit[of "stamp_flags a" 15]
  by (cases a; cases b) (auto simp: stamp_joinable_def)

section \<open>Properties\<close>

text \<open>C5: A tracing configuration is accepted exactly when it is one of the legal
  combinations: one scope, one policy, the optional short-lived tracker, and
  pausing only under a process filter. None of them is an inventory
  configuration.\<close>

theorem valid_config_exact:
  "(valid_config flags \<longleftrightarrow> flags \<in> set legal_configs) \<and> \<not> (valid_config flags \<and> valid_inventory_config flags)"
  using valid_config_iff_legal config_disjoint by blast

text \<open>C12: A stack argument address lies above the stack pointer, and the whole target
  word behind it lies inside the target's address space, in both ABIs.\<close>

theorem stack_argument_in_space:
  assumes "target_stack_arg_address sp i l = Some a"
  shows "unat (normalize_target_word sp l) < unat a \<and> unat a + word_last l < space_size l"
  using target_stack_arg_address_fits[OF assms] by blast

theorem stack_argument_in_space_witness:
  "target_stack_arg_address 0xFFFFFFF0 2 Ilp32 = Some 0xFFFFFFFC
   \<and> unat (normalize_target_word 0xFFFFFFF0 Ilp32) < unat (0xFFFFFFFC :: u64)
   \<and> unat (0xFFFFFFFC :: u64) + word_last Ilp32 < space_size Ilp32"
proof -
  have "target_stack_arg_address 0xFFFFFFF0 2 Ilp32 = Some 0xFFFFFFFC"
    by (simp add: target_stack_arg_address_def ia32_arg_address_def checked_mul_def checked_add_def
        target_word_end_def)
  with stack_argument_in_space[OF this] show ?thesis by blast
qed

text \<open>C15: The latency bucket of a duration is its position on a power-of-two scale:
  it is always one of the 32 buckets, longer durations never land in a lower
  bucket, and a bucket other than the last bounds its durations from both sides.\<close>

theorem latency_bucket_scale:
  "bucket_of ns < LATENCY_BUCKETS
   \<and> (ns \<noteq> 0 \<longrightarrow> 2 ^ (bucket_of ns - 1) \<le> unat ns)
   \<and> (bucket_of ns < LATENCY_BUCKETS - 1 \<longrightarrow> unat ns < 2 ^ bucket_of ns)
   \<and> (ns \<le> ms \<longrightarrow> bucket_of ns \<le> bucket_of ms)"
  using bucket_of_range bucket_of_lower bucket_of_upper bucket_of_mono by blast

theorem latency_bucket_scale_witness: "2 ^ (bucket_of 1000 - 1) \<le> (1000 :: nat) \<and> bucket_of 1000 \<le> bucket_of 5000"
  using latency_bucket_scale[of 1000 5000] by simp

text \<open>C13: Export attach cookies are an exact encoding: a cookie decodes to an identity
  triple exactly when that triple encodes to it, so distinct identities have
  distinct cookies and hook id zero never decodes.\<close>

theorem export_cookie_exact:
  "decode_export_attach_cookie cookie = Some (object_id, case_id, hook_id)
   \<longleftrightarrow> export_attach_cookie object_id case_id hook_id = Some cookie"
  using export_cookie.dec_iff[of cookie "(object_id, case_id, hook_id)"] by simp

text \<open>C14: The task-newtask offsets cell is accepted exactly in the form the packer
  writes; a zero cell or one with unknown bits is refused.\<close>

theorem task_offsets_exact:
  "unpack_task_newtask_offsets v = Some (pid, flags)
   \<longleftrightarrow> pid < 2 ^ 16 \<and> flags < 2 ^ 16 \<and> v = pack_task_newtask_offsets (of_nat pid) (of_nat flags)"
  using task_newtask.dec_iff[of v "(pid, flags)"] by (auto split: if_splits)

text \<open>C16: Exactly the eleven allowlisted boolean attributes have a bit: in the order of
  their types they have the bits 0 to 10, so no two share one; every other target word has
  none, also one that agrees with an attribute type in its low half only; and the bit of
  each attribute is the one its documented mask constant sets.\<close>

theorem attribute_bits_exact:
  "map bit_for_attr_type [0x01, 0x02, 0x103, 0x104, 0x105, 0x106, 0x107, 0x108, 0x10A, 0x10C, 0x162] = map (Some \<circ> of_nat) [0..<11]
   \<and> (bit_for_attr_type attr_type = None \<longleftrightarrow>
        attr_type \<notin> {0x01, 0x02, 0x103, 0x104, 0x105, 0x106, 0x107, 0x108, 0x10A, 0x10C, 0x162})
   \<and> map (\<lambda>(ty, _). map_option (\<lambda>b. push_bit (unat b) 1) (bit_for_attr_type ty)) attr_bool_masks = map (Some \<circ> snd) attr_bool_masks"
proof (intro conjI)
  show "bit_for_attr_type attr_type = None \<longleftrightarrow>
      attr_type \<notin> {0x01, 0x02, 0x103, 0x104, 0x105, 0x106, 0x107, 0x108, 0x10A, 0x10C, 0x162}"
    using bit_for_attr_type_none[of attr_type] by (simp add: TYPES_AND_BITS_def)
qed (simp_all add: bit_for_attr_type_def TYPES_AND_BITS_def attr_bool_masks_def upt_rec)

text \<open>C17: A birth marker word reads as READY for an exec generation exactly when it is
  that generation's READY word; generations of 62 bits round-trip.\<close>

theorem marker_ready_exact:
  "marker_read_word w = Ready exec \<longleftrightarrow> exec < 2 ^ 62 \<and> w = ready_word exec"
  using marker.dec_iff[of w exec] by (auto split: MarkerRead.splits if_splits)

end
