(* ===== verification/P11_Discovery.thy ===== *)
theory P11_Discovery
  imports P11_Abi
begin

text \<open>
  The private discovery transport of \<^verbatim>\<open>crates/ebpf-common/src/lib.rs\<close>: the finite
  classes a probe may publish, loader cookies and tokens, the interface-list
  continuation word, the 920-byte \<^verbatim>\<open>DiscoveryRecord\<close> and the structural
  validator \<^verbatim>\<open>valid_discovery_record\<close> that userspace runs on every record.
\<close>

section \<open>Finite classes\<close>

abbreviation (input) DISCOVERY_KIND_FUNCTION_LIST_RETURN :: u8 where
  "DISCOVERY_KIND_FUNCTION_LIST_RETURN \<equiv> 1"
abbreviation (input) DISCOVERY_KIND_INTERFACE_LIST_ELEMENT_RETURN :: u8 where
  "DISCOVERY_KIND_INTERFACE_LIST_ELEMENT_RETURN \<equiv> 2"
abbreviation (input) DISCOVERY_KIND_LOADER :: u8 where "DISCOVERY_KIND_LOADER \<equiv> 3"
abbreviation (input) DISCOVERY_KIND_INTERFACE_RETURN :: u8 where
  "DISCOVERY_KIND_INTERFACE_RETURN \<equiv> 4"
abbreviation (input) DISCOVERY_KIND_EXEC :: u8 where "DISCOVERY_KIND_EXEC \<equiv> 5"
abbreviation (input) DISCOVERY_KIND_LEADER_EXIT :: u8 where "DISCOVERY_KIND_LEADER_EXIT \<equiv> 6"
abbreviation (input) DISCOVERY_KIND_LEADER_EXIT_MAPPINGS :: u8 where
  "DISCOVERY_KIND_LEADER_EXIT_MAPPINGS \<equiv> 7"

abbreviation (input) DISCOVERY_EXEC_UNKNOWN :: u8 where "DISCOVERY_EXEC_UNKNOWN \<equiv> 0"
abbreviation (input) DISCOVERY_EXEC_SAME_TASK_CANDIDATE :: u8 where
  "DISCOVERY_EXEC_SAME_TASK_CANDIDATE \<equiv> 1"
abbreviation (input) DISCOVERY_EXEC_TASK_REPLACED :: u8 where "DISCOVERY_EXEC_TASK_REPLACED \<equiv> 2"

abbreviation (input) I32_MAX :: nat where "I32_MAX \<equiv> 2147483647"

definition valid_exec_leader :: "u64 \<Rightarrow> bool" where
  "valid_exec_leader pid_tgid \<longleftrightarrow>
     (let tid = ucast pid_tgid :: u32
      in tid \<noteq> 0 \<and> tid \<le> of_nat I32_MAX \<and> tid = ucast (drop_bit 32 pid_tgid))"

definition classify_exec_task :: "u64 \<Rightarrow> u64 \<Rightarrow> u32 \<Rightarrow> u8" where
  "classify_exec_task old_pid pid_tgid user_dumpable =
     (if old_pid = 0 \<or> old_pid > of_nat I32_MAX \<or> \<not> valid_exec_leader pid_tgid
      then DISCOVERY_EXEC_UNKNOWN
      else if old_pid \<noteq> ucast (ucast pid_tgid :: u32) then DISCOVERY_EXEC_TASK_REPLACED
      else if user_dumpable = 1 then DISCOVERY_EXEC_SAME_TASK_CANDIDATE
      else DISCOVERY_EXEC_UNKNOWN)"

abbreviation (input) DISCOVERY_NAME_NA :: u8 where "DISCOVERY_NAME_NA \<equiv> 0"
abbreviation (input) DISCOVERY_NAME_EXACT_STANDARD :: u8 where "DISCOVERY_NAME_EXACT_STANDARD \<equiv> 1"
abbreviation (input) DISCOVERY_NAME_OTHER :: u8 where "DISCOVERY_NAME_OTHER \<equiv> 2"
abbreviation (input) DISCOVERY_NAME_NULL :: u8 where "DISCOVERY_NAME_NULL \<equiv> 3"
abbreviation (input) DISCOVERY_NAME_UNREADABLE :: u8 where "DISCOVERY_NAME_UNREADABLE \<equiv> 4"

abbreviation (input) DISCOVERY_VERSION_NULL :: u8 where "DISCOVERY_VERSION_NULL \<equiv> 0"
abbreviation (input) DISCOVERY_VERSION_UNREADABLE :: u8 where "DISCOVERY_VERSION_UNREADABLE \<equiv> 1"
abbreviation (input) DISCOVERY_VERSION_V2_40 :: u8 where "DISCOVERY_VERSION_V2_40 \<equiv> 2"
abbreviation (input) DISCOVERY_VERSION_V3_0 :: u8 where "DISCOVERY_VERSION_V3_0 \<equiv> 3"
abbreviation (input) DISCOVERY_VERSION_V3_1 :: u8 where "DISCOVERY_VERSION_V3_1 \<equiv> 4"
abbreviation (input) DISCOVERY_VERSION_V3_2 :: u8 where "DISCOVERY_VERSION_V3_2 \<equiv> 5"
abbreviation (input) DISCOVERY_VERSION_OTHER :: u8 where "DISCOVERY_VERSION_OTHER \<equiv> 6"

abbreviation (input) DISCOVERY_STATUS_READ_FAILURE :: u8 where
  "DISCOVERY_STATUS_READ_FAILURE \<equiv> 0x01"
abbreviation (input) DISCOVERY_STATUS_COALESCED_NO_HELPER :: u8 where
  "DISCOVERY_STATUS_COALESCED_NO_HELPER \<equiv> 0x02"
abbreviation (input) DISCOVERY_STATUS_LOADER_CONTEXT_INVALID :: u8 where
  "DISCOVERY_STATUS_LOADER_CONTEXT_INVALID \<equiv> 0x04"
abbreviation (input) DISCOVERY_STATUS_EXIT_MAP_SHARED_MM :: u8 where
  "DISCOVERY_STATUS_EXIT_MAP_SHARED_MM \<equiv> 0x08"
abbreviation (input) DISCOVERY_STATUS_EXIT_MAP_OVERFLOW :: u8 where
  "DISCOVERY_STATUS_EXIT_MAP_OVERFLOW \<equiv> 0x10"
abbreviation (input) DISCOVERY_STATUS_EXIT_MAP_LOCAL_FAULT :: u8 where
  "DISCOVERY_STATUS_EXIT_MAP_LOCAL_FAULT \<equiv> 0x20"
abbreviation (input) DISCOVERY_STATUS_EXIT_MAP_HOOKS_REFUSED :: u8 where
  "DISCOVERY_STATUS_EXIT_MAP_HOOKS_REFUSED \<equiv> 0x40"
abbreviation (input) DISCOVERY_STATUS_LOADER_ACK_PENDING :: u8 where
  "DISCOVERY_STATUS_LOADER_ACK_PENDING \<equiv> 0x80"

abbreviation (input) DISCOVERY_COUNTER_RING_LOSS :: nat where "DISCOVERY_COUNTER_RING_LOSS \<equiv> 0"
abbreviation (input) DISCOVERY_COUNTER_EXPORT_STATE_FAILURES :: nat where
  "DISCOVERY_COUNTER_EXPORT_STATE_FAILURES \<equiv> 1"
abbreviation (input) DISCOVERY_COUNTER_EXPORT_BOUNDED_READ_FAILURES :: nat where
  "DISCOVERY_COUNTER_EXPORT_BOUNDED_READ_FAILURES \<equiv> 2"
abbreviation (input) DISCOVERY_COUNTER_LOADER_HITS :: nat where "DISCOVERY_COUNTER_LOADER_HITS \<equiv> 3"
abbreviation (input) DISCOVERY_COUNTER_LOADER_STATE_READ_FAILURES :: nat where
  "DISCOVERY_COUNTER_LOADER_STATE_READ_FAILURES \<equiv> 4"

abbreviation (input) PAUSE_ARMED :: u64 where "PAUSE_ARMED \<equiv> 1"
abbreviation (input) PAUSE_REQUESTED :: u64 where "PAUSE_REQUESTED \<equiv> 2"
abbreviation (input) COALESCED_NO_HELPER_RC :: int where
  "COALESCED_NO_HELPER_RC \<equiv> - 9223372036854775808"
abbreviation (input) DISCOVERY_POINTERS :: nat where "DISCOVERY_POINTERS \<equiv> 104"
abbreviation (input) DISCOVERY_INTERFACES :: u8 where "DISCOVERY_INTERFACES \<equiv> 16"
abbreviation (input) LOADER_STATE_PRESENT :: u64 where "LOADER_STATE_PRESENT \<equiv> 0x100"
abbreviation (input) LOADER_STATE_ABSENT_SENTINEL :: u64 where "LOADER_STATE_ABSENT_SENTINEL \<equiv> 1"
abbreviation (input) STATE_DOMAIN_EXPORT :: u64 where "STATE_DOMAIN_EXPORT \<equiv> 1"
abbreviation (input) STATE_DOMAIN_SELECTION :: u64 where "STATE_DOMAIN_SELECTION \<equiv> 2"

definition discovery_table_slots :: "u8 \<Rightarrow> u8 \<Rightarrow> u8 \<Rightarrow> u8" where
  "discovery_table_slots kind version_major version_minor =
     (if kind = DISCOVERY_KIND_FUNCTION_LIST_RETURN then 68
      else if kind = DISCOVERY_KIND_INTERFACE_LIST_ELEMENT_RETURN \<or> kind = DISCOVERY_KIND_INTERFACE_RETURN
      then (if version_major = 3 \<and> (version_minor = 0 \<or> version_minor = 1) then 92
            else if version_major = 3 \<and> version_minor \<ge> 2 then 104
            else 68)
      else 0)"

definition discovery_version_class :: "u8 \<Rightarrow> u8 \<Rightarrow> u8" where
  "discovery_version_class major minor =
     (if major = 2 \<and> minor = 40 then DISCOVERY_VERSION_V2_40
      else if major = 3 \<and> minor = 0 then DISCOVERY_VERSION_V3_0
      else if major = 3 \<and> minor = 1 then DISCOVERY_VERSION_V3_1
      else if major = 3 \<and> minor = 2 then DISCOVERY_VERSION_V3_2
      else DISCOVERY_VERSION_OTHER)"

definition discovery_usable_prefix :: "bool \<Rightarrow> u8 \<Rightarrow> u8" where
  "discovery_usable_prefix read_failed completed = completed"

definition valid_loader_cookie :: "u64 \<Rightarrow> bool" where
  "valid_loader_cookie cookie \<longleftrightarrow>
     (let state_present = cookie AND LOADER_STATE_PRESENT \<noteq> 0;
          payload = drop_bit 9 cookie
      in cookie \<noteq> 0 \<and> (state_present \<or> payload = LOADER_STATE_ABSENT_SENTINEL))"

abbreviation (input) LOADER_TOKEN_MAX :: u64 where "LOADER_TOKEN_MAX \<equiv> 0xffffffffff"

definition valid_loader_token :: "u64 \<Rightarrow> bool" where
  "valid_loader_token cookie \<longleftrightarrow> cookie \<noteq> 0 \<and> cookie \<le> LOADER_TOKEN_MAX \<and> drop_bit 8 cookie \<noteq> 0"

definition valid_loader_binding :: "u64 \<Rightarrow> bool" where
  "valid_loader_binding binding \<longleftrightarrow>
     binding = 0 \<or> valid_loader_cookie binding \<or> valid_loader_token binding"

definition discovery_pause_enabled :: "bool \<Rightarrow> u64 \<Rightarrow> u64 \<Rightarrow> bool" where
  "discovery_pause_enabled eligible flags generation_token \<longleftrightarrow>
     eligible \<and> flags AND FLAG_PAUSE_ENABLED \<noteq> 0 \<and> generation_token \<noteq> 0"

definition discovery_pause_coalesced :: "u64 \<Rightarrow> bool \<Rightarrow> bool" where
  "discovery_pause_coalesced previous won \<longleftrightarrow> \<not> won \<and> previous = PAUSE_REQUESTED"

definition discovery_state_take_failed :: "bool \<Rightarrow> bool \<Rightarrow> bool" where
  "discovery_state_take_failed state_present removed \<longleftrightarrow> \<not> state_present \<or> \<not> removed"

definition discovery_state_take_scope_lost :: "bool \<Rightarrow> bool \<Rightarrow> bool \<Rightarrow> bool" where
  "discovery_state_take_scope_lost state_present removed scoped \<longleftrightarrow>
     state_present \<and> removed \<and> \<not> scoped"

section \<open>The interface-list continuation\<close>

definition interface_continuation_pack :: "u64 \<Rightarrow> u8 \<Rightarrow> u32 \<Rightarrow> u64 option" where
  "interface_continuation_pack announced_count index symbol_id =
     (if symbol_id = 0 \<or> symbol_id > 0x00ffffff then None
      else let saturated_count = (if announced_count > 0xFFFFFFFF then 0xFFFFFFFF
                                  else ucast announced_count) :: u32
           in Some (push_bit 40 (ucast symbol_id) OR push_bit 8 (ucast saturated_count) OR ucast index))"

definition interface_active_count :: "u32 \<Rightarrow> u32" where
  "interface_active_count announced_count =
     (if announced_count < ucast DISCOVERY_INTERFACES then announced_count
      else ucast DISCOVERY_INTERFACES)"

definition interface_continuation_unpack :: "u64 \<Rightarrow> (u32 \<times> u8 \<times> u32) option" where
  "interface_continuation_unpack v =
     (let symbol_id = ucast (drop_bit 40 v) :: u32
      in if symbol_id = 0 then None
         else let announced_count = ucast (drop_bit 8 v AND 0xFFFFFFFF) :: u32;
                  index = ucast v :: u8;
                  active_count = interface_active_count announced_count
              in if index \<ge> DISCOVERY_INTERFACES \<or> ucast index \<ge> active_count then None
                 else Some (announced_count, index, symbol_id))"

definition interface_continuation_next :: "u64 \<Rightarrow> u64 option" where
  "interface_continuation_next v =
     (case interface_continuation_unpack v of
        None \<Rightarrow> None
      | Some (announced_count, index, symbol_id) \<Rightarrow>
          let next = index + 1;
              active_count = interface_active_count announced_count
          in if ucast next \<ge> active_count then None
             else interface_continuation_pack (ucast announced_count) next symbol_id)"

section \<open>Discovery records\<close>

record DiscoveryRecord =
  hook_ts_ns :: u64
  pid_tgid :: u64
  table_ptr :: u64
  interface_flags :: u64
  pointers :: "u64 list"
  kind :: u8
  case_id :: u8
  interface_index :: u8
  name_class :: u8
  status_flags :: u8
  usable_n :: u8
  pointers_attempted :: u8
  completed_prefix :: u8
  version_major :: u8
  version_minor :: u8
  selection_version_class :: u8
  reserved_zero :: "u8 list"
  symbol_id :: u32
  announced_count :: u32
  reserved_tail_zero :: "u8 list"
  send_signal_rc :: int
  return_rv :: u64
  request_flags :: u64
  binding_id :: u64

definition exec_task_ticket :: "DiscoveryRecord \<Rightarrow> u64 option" where
  "exec_task_ticket r =
     (if kind r = DISCOVERY_KIND_EXEC \<and> binding_id r \<noteq> 0
         \<and> binding_id r \<le> IMAGE_IDENTITY_TICKET_LIMIT
      then Some (binding_id r) else None)"

record StateKey =
  sk_pid_tgid :: u64
  sk_attach_cookie :: u64
  sk_domain :: u64

record StartState =
  ss_arg0 :: u64
  ss_arg1 :: u64
  ss_arg2 :: u64

record PauseKey =
  pk_tgid :: u32
  pk_pad :: u32
  pk_generation_token :: u64

definition zero_discovery_scalar_payload :: "DiscoveryRecord \<Rightarrow> bool" where
  "zero_discovery_scalar_payload r \<longleftrightarrow>
     table_ptr r = 0 \<and> interface_flags r = 0 \<and> interface_index r = 0
     \<and> name_class r = DISCOVERY_NAME_NA \<and> usable_n r = 0 \<and> pointers_attempted r = 0
     \<and> completed_prefix r = 0 \<and> version_major r = 0 \<and> version_minor r = 0
     \<and> selection_version_class r = 0 \<and> symbol_id r = 0 \<and> return_rv r = 0 \<and> request_flags r = 0"

definition all_zero :: "u64 list \<Rightarrow> bool" where
  "all_zero ps \<longleftrightarrow> list_all (\<lambda>pointer. pointer = 0) ps"

definition zero_discovery_payload_except_binding :: "DiscoveryRecord \<Rightarrow> bool" where
  "zero_discovery_payload_except_binding r \<longleftrightarrow>
     zero_discovery_scalar_payload r \<and> all_zero (pointers r)"

definition zero_discovery_payload :: "DiscoveryRecord \<Rightarrow> bool" where
  "zero_discovery_payload r \<longleftrightarrow> binding_id r = 0 \<and> zero_discovery_payload_except_binding r"

definition zero_discovery_exec_tail :: "DiscoveryRecord \<Rightarrow> bool" where
  "zero_discovery_exec_tail r \<longleftrightarrow>
     zero_discovery_scalar_payload r \<and> all_zero (drop 2 (pointers r))"

definition zero_selection_payload :: "DiscoveryRecord \<Rightarrow> bool" where
  "zero_selection_payload r \<longleftrightarrow>
     return_rv r = 0 \<and> request_flags r = 0 \<and> binding_id r = 0 \<and> selection_version_class r = 0"

definition valid_export_prefix :: "DiscoveryRecord \<Rightarrow> bool" where
  "valid_export_prefix r \<longleftrightarrow>
     (let pointer_limit = (if kind r = DISCOVERY_KIND_FUNCTION_LIST_RETURN then 68
                           else DISCOVERY_POINTERS)
      in if unat (pointers_attempted r) > pointer_limit
            \<or> completed_prefix r > pointers_attempted r
            \<or> usable_n r \<noteq> completed_prefix r
         then False
         else all_zero (drop (unat (completed_prefix r)) (pointers r)))"

abbreviation (input) DISCOVERY_INTERFACE_FLAGS_FORK_SAFE :: u64 where
  "DISCOVERY_INTERFACE_FLAGS_FORK_SAFE \<equiv> 1"
abbreviation (input) DISCOVERY_INTERFACE_FLAGS_OTHER :: u64 where
  "DISCOVERY_INTERFACE_FLAGS_OTHER \<equiv> 2"

definition interface_flags_class :: "u64 \<Rightarrow> u64" where
  "interface_flags_class flags =
     (if flags > DISCOVERY_INTERFACE_FLAGS_FORK_SAFE then DISCOVERY_INTERFACE_FLAGS_OTHER else flags)"

definition finite_name_class :: "u8 \<Rightarrow> bool" where
  "finite_name_class c \<longleftrightarrow>
     c = DISCOVERY_NAME_EXACT_STANDARD \<or> c = DISCOVERY_NAME_OTHER
     \<or> c = DISCOVERY_NAME_NULL \<or> c = DISCOVERY_NAME_UNREADABLE"

text \<open>\<^verbatim>\<open>rc as i32\<close> on a signed 64-bit value.\<close>

definition as_i32 :: "int \<Rightarrow> int" where
  "as_i32 rc = signed_take_bit 31 rc"

text \<open>The arms of the validator's match on \<^verbatim>\<open>record.kind\<close>.\<close>

definition valid_function_list_record :: "DiscoveryRecord \<Rightarrow> bool" where
  "valid_function_list_record r \<longleftrightarrow>
     status_flags r \<le> 0x03 \<and> case_id r = 0 \<and> interface_index r = 0
     \<and> name_class r = DISCOVERY_NAME_NA \<and> interface_flags r = 0
     \<and> symbol_id r \<noteq> 0 \<and> announced_count r = 0
     \<and> (table_ptr r \<noteq> 0 \<or> status_flags r AND DISCOVERY_STATUS_READ_FAILURE \<noteq> 0)
     \<and> zero_selection_payload r \<and> valid_export_prefix r"

definition valid_interface_element_record :: "DiscoveryRecord \<Rightarrow> bool" where
  "valid_interface_element_record r \<longleftrightarrow>
     status_flags r \<le> 0x03 \<and> case_id r = 0 \<and> interface_index r < DISCOVERY_INTERFACES
     \<and> announced_count r > ucast (interface_index r)
     \<and> finite_name_class (name_class r)
     \<and> symbol_id r \<noteq> 0 \<and> zero_selection_payload r \<and> valid_export_prefix r
     \<and> (name_class r = DISCOVERY_NAME_EXACT_STANDARD
        \<or> usable_n r = 0 \<and> pointers_attempted r = 0 \<and> completed_prefix r = 0
          \<and> version_major r = 0 \<and> version_minor r = 0)"

definition valid_loader_record :: "DiscoveryRecord \<Rightarrow> bool" where
  "valid_loader_record r \<longleftrightarrow>
     interface_flags r = 0 \<and> all_zero (pointers r) \<and> interface_index r = 0
     \<and> name_class r = DISCOVERY_NAME_NA \<and> usable_n r = 0 \<and> pointers_attempted r = 0
     \<and> completed_prefix r = 0 \<and> version_major r = 0 \<and> version_minor r = 0
     \<and> symbol_id r = 0 \<and> return_rv r = 0 \<and> request_flags r = 0
     \<and> valid_loader_binding (binding_id r) \<and> selection_version_class r = 0
     \<and> (if status_flags r = 0 \<or> status_flags r = DISCOVERY_STATUS_COALESCED_NO_HELPER
        then table_ptr r \<noteq> 0 \<and> announced_count r \<le> 2
        else if status_flags r = DISCOVERY_STATUS_LOADER_CONTEXT_INVALID
        then table_ptr r = 0 \<and> case_id r = 0 \<and> announced_count r = 0 \<and> send_signal_rc r = 0
             \<and> binding_id r = 0
        else if status_flags r = DISCOVERY_STATUS_LOADER_ACK_PENDING
        then table_ptr r \<noteq> 0 \<and> announced_count r = 0 \<and> valid_loader_token (binding_id r)
        else False)"

definition valid_interface_return_record :: "DiscoveryRecord \<Rightarrow> bool" where
  "valid_interface_return_record r \<longleftrightarrow>
     status_flags r \<le> 0x03 \<and> finite_name_class (case_id r)
     \<and> interface_index r \<le> DISCOVERY_VERSION_OTHER
     \<and> symbol_id r = 0 \<and> binding_id r \<noteq> 0 \<and> announced_count r = 0
     \<and> version_major r = 0 \<and> version_minor r = 0
     \<and> selection_version_class r \<le> DISCOVERY_VERSION_OTHER \<and> valid_export_prefix r
     \<and> (if return_rv r \<noteq> 0
        then status_flags r = 0 \<and> table_ptr r = 0 \<and> interface_flags r = 0
             \<and> all_zero (pointers r) \<and> name_class r = DISCOVERY_NAME_NA
             \<and> selection_version_class r = DISCOVERY_VERSION_NULL
             \<and> usable_n r = 0 \<and> pointers_attempted r = 0 \<and> completed_prefix r = 0
        else finite_name_class (name_class r)
             \<and> (name_class r = DISCOVERY_NAME_EXACT_STANDARD
                \<or> usable_n r = 0 \<and> pointers_attempted r = 0 \<and> completed_prefix r = 0)
             \<and> (name_class r \<noteq> DISCOVERY_NAME_UNREADABLE
                \<or> status_flags r AND DISCOVERY_STATUS_READ_FAILURE \<noteq> 0)
             \<and> (selection_version_class r > DISCOVERY_VERSION_NULL
                \<or> status_flags r AND DISCOVERY_STATUS_READ_FAILURE \<noteq> 0 \<and> table_ptr r = 0)
             \<and> (selection_version_class r = DISCOVERY_VERSION_NULL
                \<or> selection_version_class r = DISCOVERY_VERSION_UNREADABLE \<or> table_ptr r \<noteq> 0)
             \<and> (selection_version_class r \<noteq> DISCOVERY_VERSION_UNREADABLE
                \<or> status_flags r AND DISCOVERY_STATUS_READ_FAILURE \<noteq> 0))"

definition valid_exec_record :: "DiscoveryRecord \<Rightarrow> bool" where
  "valid_exec_record r \<longleftrightarrow>
     (status_flags r = 0 \<or> status_flags r = DISCOVERY_STATUS_COALESCED_NO_HELPER)
     \<and> (case_id r = DISCOVERY_EXEC_UNKNOWN \<or> case_id r = DISCOVERY_EXEC_SAME_TASK_CANDIDATE
        \<or> case_id r = DISCOVERY_EXEC_TASK_REPLACED)
     \<and> valid_exec_leader (pid_tgid r) \<and> announced_count r = 0
     \<and> binding_id r \<le> IMAGE_IDENTITY_TICKET_LIMIT \<and> zero_discovery_exec_tail r"

definition valid_leader_exit_record :: "DiscoveryRecord \<Rightarrow> bool" where
  "valid_leader_exit_record r \<longleftrightarrow>
     status_flags r = 0 \<and> case_id r = 0 \<and> announced_count r = 0 \<and> send_signal_rc r = 0
     \<and> zero_discovery_payload r"

definition valid_exit_mappings_record :: "DiscoveryRecord \<Rightarrow> bool" where
  "valid_exit_mappings_record r \<longleftrightarrow>
     status_flags r AND NOT (DISCOVERY_STATUS_EXIT_MAP_SHARED_MM
       OR DISCOVERY_STATUS_EXIT_MAP_OVERFLOW OR DISCOVERY_STATUS_EXIT_MAP_LOCAL_FAULT
       OR DISCOVERY_STATUS_EXIT_MAP_HOOKS_REFUSED) = 0
     \<and> case_id r = 0 \<and> announced_count r = 0 \<and> send_signal_rc r = 0 \<and> binding_id r = 0
     \<and> list_all (\<lambda>cell. cell \<le> ucast FILE_SLOTS) (take RECORD_SLOTS (pointers r))
     \<and> all_zero (drop RECORD_SLOTS (pointers r))
     \<and> zero_discovery_scalar_payload r"

definition valid_discovery_record :: "DiscoveryRecord \<Rightarrow> bool" where
  "valid_discovery_record r \<longleftrightarrow>
     (if interface_flags r > DISCOVERY_INTERFACE_FLAGS_OTHER then False
      else if reserved_zero r \<noteq> [0] \<or> reserved_tail_zero r \<noteq> [0, 0, 0, 0]
        \<or> (status_flags r AND DISCOVERY_STATUS_COALESCED_NO_HELPER \<noteq> 0)
           \<noteq> (send_signal_rc r = COALESCED_NO_HELPER_RC)
        \<or> send_signal_rc r \<noteq> COALESCED_NO_HELPER_RC \<and> send_signal_rc r \<noteq> as_i32 (send_signal_rc r)
      then False
      else if kind r = DISCOVERY_KIND_FUNCTION_LIST_RETURN then valid_function_list_record r
      else if kind r = DISCOVERY_KIND_INTERFACE_LIST_ELEMENT_RETURN
      then valid_interface_element_record r
      else if kind r = DISCOVERY_KIND_LOADER then valid_loader_record r
      else if kind r = DISCOVERY_KIND_INTERFACE_RETURN then valid_interface_return_record r
      else if kind r = DISCOVERY_KIND_EXEC then valid_exec_record r
      else if kind r = DISCOVERY_KIND_LEADER_EXIT then valid_leader_exit_record r
      else if kind r = DISCOVERY_KIND_LEADER_EXIT_MAPPINGS then valid_exit_mappings_record r
      else False)"

text \<open>Specification vocabulary: the interfaces a continuation word still visits.
  Sixteen steps are enough because an index stays below \<^verbatim>\<open>DISCOVERY_INTERFACES\<close>.\<close>

fun continuation_visits :: "nat \<Rightarrow> u64 option \<Rightarrow> (u32 \<times> u8 \<times> u32) list" where
  "continuation_visits 0 v = []"
| "continuation_visits (Suc n) None = []"
| "continuation_visits (Suc n) (Some v) =
     (case interface_continuation_unpack v of
        None \<Rightarrow> []
      | Some x \<Rightarrow> x # continuation_visits n (interface_continuation_next v))"

section \<open>Facts about continuations\<close>

lemma continuation_bits:
  fixes sym cnt :: u32 and idx :: u8
  assumes "sym \<le> 0x00ffffff"
  defines "v \<equiv> push_bit 40 (ucast sym) OR push_bit 8 (ucast cnt) OR ucast idx :: u64"
  shows "ucast (drop_bit 40 v) = sym" "ucast (drop_bit 8 v AND 0xFFFFFFFF) = cnt" "ucast v = idx"
proof -
  have "unat sym < 2 ^ 24" using assms(1) by (simp add: word_le_nat_alt)
  note s = bit_below[OF this]
  have v: "bit v n \<longleftrightarrow> 40 \<le> n \<and> n < 64 \<and> bit sym (n - 40) \<or> 8 \<le> n \<and> n < 40 \<and> bit cnt (n - 8)
      \<or> n < 8 \<and> bit idx n" for n
    unfolding v_def bit_or_iff bit_push_bit_iff
    using bit_imp_le_length[of cnt "n - 8"] bit_imp_le_length[of idx n]
      bit_imp_le_length[of sym "n - 40"]
    by (auto simp: bit_simps)
  show "ucast (drop_bit 40 v) = sym" "ucast v = idx" "ucast (drop_bit 8 v AND 0xFFFFFFFF) = cnt"
    unfolding and_low32 by (auto intro!: bit_word_eqI simp: bit_simps v dest: s)
qed

lemma interface_active_count_le: "unat (interface_active_count c) = min (unat c) 16"
  by (auto simp: interface_active_count_def word_less_nat_alt)

lemma unat_ucast_small:
  "unat (c :: u64) < 2 ^ 32 \<Longrightarrow> unat (ucast c :: u32) = unat c"
  by (simp add: unsigned_ucast_eq take_bit_nat_eq_self_iff)

lemma saturated_count_min:
  "min (unat (if c > 0xFFFFFFFF then 0xFFFFFFFF else ucast c :: u32)) 16 = min (unat (c :: u64)) 16"
  by (auto simp: word_less_nat_alt not_less unat_ucast_small)

lemma interface_continuation_unpack_pack:
  assumes "interface_continuation_pack c i s = Some v"
  defines "sat \<equiv> if c > 0xFFFFFFFF then 0xFFFFFFFF else ucast c :: u32"
  shows "interface_continuation_unpack v =
     (if unat i < min (unat c) 16 then Some (sat, i, s) else None)"
proof -
  from assms have s: "s \<noteq> 0" "s \<le> 0xFFFFFF"
    and v: "v = push_bit 40 (ucast s) OR push_bit 8 (ucast sat) OR ucast i"
    by (auto simp: interface_continuation_pack_def Let_def sat_def split: if_splits)
  note b = continuation_bits[OF s(2), of sat i, folded v]
  note sat = saturated_count_min[of c, folded sat_def]
  have "i \<ge> DISCOVERY_INTERFACES \<or> ucast i \<ge> interface_active_count sat \<longleftrightarrow> \<not> unat i < min (unat c) 16"
    using sat by (auto simp: word_le_nat_alt interface_active_count_le unat_ucast_up)
  then show ?thesis using s(1) by (simp add: interface_continuation_unpack_def Let_def b)
qed

lemma interface_continuation_next_pack:
  assumes "interface_continuation_pack c i s = Some v" "unat i + 1 < min (unat c) 16"
  defines "sat \<equiv> if c > 0xFFFFFFFF then 0xFFFFFFFF else ucast c :: u32"
  shows "interface_continuation_next v = interface_continuation_pack (ucast sat) (i + 1) s"
    "interface_continuation_pack (ucast sat) (i + 1) s \<noteq> None"
proof -
  have u: "interface_continuation_unpack v = Some (sat, i, s)"
    using interface_continuation_unpack_pack[OF assms(1)] assms(2) by (simp add: sat_def)
  show "interface_continuation_pack (ucast sat) (i + 1) s \<noteq> None"
    using assms(1) by (auto simp: interface_continuation_pack_def Let_def split: if_splits)
  have i1: "unat (i + 1) = unat i + 1"
    using assms(2) by (subst unat_add_exact) auto
  note m = saturated_count_min[of c, folded sat_def]
  have "\<not> ucast (i + 1) \<ge> interface_active_count sat"
    using assms(2) m
    by (simp only: word_le_nat_alt interface_active_count_le) (simp add: unat_ucast_up i1 not_le)
  then show "interface_continuation_next v = interface_continuation_pack (ucast sat) (i + 1) s"
    by (simp add: interface_continuation_next_def u Let_def)
qed

lemma interface_continuation_next_last:
  assumes "interface_continuation_pack c i s = Some v" "unat i < min (unat c) 16"
    and "min (unat c) 16 \<le> unat i + 1"
  shows "interface_continuation_next v = None"
proof -
  let ?sat = "if c > 0xFFFFFFFF then 0xFFFFFFFF else ucast c :: u32"
  have "unat (i + 1) = unat i + 1" using assms(2) by (subst unat_add_exact) auto
  then have "ucast (i + 1) \<ge> interface_active_count ?sat"
    using assms(3) saturated_count_min[of c]
    by (simp only: word_le_nat_alt interface_active_count_le unat_ucast_up) (simp add: unat_ucast_up)
  then show ?thesis
    using interface_continuation_unpack_pack[OF assms(1)] assms(2)
    by (simp add: interface_continuation_next_def Let_def)
qed

lemma saturated_count_idem:
  fixes sat :: u32
  shows "(if ucast sat > (0xFFFFFFFF :: u64) then 0xFFFFFFFF else ucast (ucast sat :: u64)) = sat"
proof -
  have "ucast (ucast sat :: u64) = sat" by (rule bit_word_eqI) (auto simp: bit_simps)
  moreover have "\<not> ucast sat > (0xFFFFFFFF :: u64)"
    using unsigned_less[of sat, where 'a = nat] by (simp add: word_less_nat_alt unat_ucast_up)
  ultimately show ?thesis by simp
qed

lemma continuation_visits_pack:
  assumes "interface_continuation_pack c i s = Some v" "min (unat c) 16 \<le> n + unat i"
  shows "continuation_visits n (Some v) =
    map (\<lambda>j. (if c > 0xFFFFFFFF then 0xFFFFFFFF else ucast c, of_nat j, s)) [unat i..<min (unat c) 16]"
  using assms
proof (induction n arbitrary: c i v)
  case 0
  then show ?case by simp
next
  case (Suc n)
  let ?sat = "if c > 0xFFFFFFFF then 0xFFFFFFFF else ucast c :: u32"
  note unp = interface_continuation_unpack_pack[OF Suc.prems(1)]
  show ?case
  proof (cases "unat i < min (unat c) 16")
    case False
    then have "interface_continuation_unpack v = None" "min (unat c) 16 \<le> unat i"
      using unp by (metis, linarith)
    then show ?thesis by simp
  next
    case True
    have "continuation_visits n (interface_continuation_next v) =
        map (\<lambda>j. (?sat, of_nat j, s)) [Suc (unat i)..<min (unat c) 16]"
    proof (cases "unat i + 1 < min (unat c) 16")
      case last: True
      note nxt = interface_continuation_next_pack[OF Suc.prems(1) last]
      then obtain v' where v': "interface_continuation_pack (ucast ?sat) (i + 1) s = Some v'" by blast
      have i1: "unat (i + 1) = Suc (unat i)" using last by (subst unat_add_exact) auto
      have c1: "min (unat (ucast ?sat :: u64)) 16 = min (unat c) 16"
        using saturated_count_min[of c] by (simp add: unat_ucast_up)
      show ?thesis
        using Suc.IH[OF v'] Suc.prems(2) nxt(1) v' by (simp only: c1 i1 saturated_count_idem)
    next
      case last: False
      have "interface_continuation_next v = None"
        by (rule interface_continuation_next_last[OF Suc.prems(1) True leI[OF last]])
      then show ?thesis using last by (cases n) auto
    qed
    then show ?thesis using unp True by (simp add: upt_conv_Cons)
  qed
qed

text \<open>Every visited element is inside both the announced list and the bound.\<close>

lemma interface_continuation_unpack_bounds:
  assumes "interface_continuation_unpack v = Some (c, i, s)"
  shows "i < DISCOVERY_INTERFACES" "ucast i < c" "s \<noteq> 0"
proof -
  from assms have *: "i < DISCOVERY_INTERFACES" "ucast i < interface_active_count c" "s \<noteq> 0"
    by (auto simp: interface_continuation_unpack_def Let_def split: if_splits)
  have "unat (interface_active_count c) \<le> unat c" by (simp add: interface_active_count_le)
  with *(2) have "ucast i < c" by (simp add: word_less_nat_alt)
  with * show "i < DISCOVERY_INTERFACES" "ucast i < c" "s \<noteq> 0" by auto
qed

section \<open>Facts about the finite classes\<close>

lemma discovery_table_slots_bounds:
  "discovery_table_slots k a b \<le> 104"
  "k = DISCOVERY_KIND_FUNCTION_LIST_RETURN \<Longrightarrow> discovery_table_slots k a b = 68"
  by (auto simp: discovery_table_slots_def)

lemma discovery_version_class_bounds:
  "discovery_version_class a b \<noteq> DISCOVERY_VERSION_NULL"
  "discovery_version_class a b \<noteq> DISCOVERY_VERSION_UNREADABLE"
  "discovery_version_class a b \<le> DISCOVERY_VERSION_OTHER"
  by (auto simp: discovery_version_class_def)

lemma interface_flags_class_le: "interface_flags_class f \<le> DISCOVERY_INTERFACE_FLAGS_OTHER"
  by (auto simp: interface_flags_class_def word_le_nat_alt word_less_nat_alt)

lemma classify_exec_task_range:
  "classify_exec_task old p d = DISCOVERY_EXEC_UNKNOWN
   \<or> classify_exec_task old p d = DISCOVERY_EXEC_SAME_TASK_CANDIDATE
   \<or> classify_exec_task old p d = DISCOVERY_EXEC_TASK_REPLACED"
  by (auto simp: classify_exec_task_def)

lemma all_zero_replicate [simp]: "all_zero (replicate n 0)"
  by (simp add: all_zero_def list_all_iff)

lemma all_zero_drop [simp]: "all_zero xs \<Longrightarrow> all_zero (drop n xs)"
  by (auto simp: all_zero_def list_all_iff dest: in_set_dropD)

end
