(* ===== verification/P11_Concurrency.thy ===== *)
theory P11_Concurrency
  imports P11_Abi
begin

text \<open>
  Shared words. Part one: the bounded compare-exchange policies of
  \<^verbatim>\<open>crates/ebpf-common/src/counter_policy.rs\<close> and \<^verbatim>\<open>inventory_mark_used_with\<close>,
  written against the interface of an atomic cell whose other users may write
  between any two operations. Part two: the stop gate, \<^verbatim>\<open>stop_gate_admit_with\<close>
  on the probe side and \<^verbatim>\<open>src/attach/stop_gate.rs\<close> in userspace, as a step
  relation over any number of threads.
\<close>

section \<open>Counter modes\<close>

datatype CounterMode = Counts | Timestamps | Latency

fun counter_mode_name :: "CounterMode \<Rightarrow> string" where
  "counter_mode_name Counts = ''counts''"
| "counter_mode_name Timestamps = ''timestamps''"
| "counter_mode_name Latency = ''latency''"

definition counter_mode_parse :: "string \<Rightarrow> CounterMode option" where
  "counter_mode_parse v =
     (if v = ''counts'' then Some Counts
      else if v = ''timestamps'' then Some Timestamps
      else if v = ''latency'' then Some Latency
      else None)"

definition has_timing :: "CounterMode \<Rightarrow> bool" where
  "has_timing m \<longleftrightarrow> m \<noteq> Counts"

definition has_histogram :: "CounterMode \<Rightarrow> bool" where
  "has_histogram m \<longleftrightarrow> m = Latency"

fun stats_bytes :: "CounterMode \<Rightarrow> nat" where
  "stats_bytes Counts = 24"
| "stats_bytes Timestamps = 40"
| "stats_bytes Latency = 296"

section \<open>Bounded compare-exchange policies\<close>

datatype CounterUpdate = Added | Saturated | Contended

datatype CounterMaxUpdate = Raised | Kept | MaxContended

fun add_counter_tries ::
  "nat \<Rightarrow> u64 \<Rightarrow> ('s, u64) state \<Rightarrow> (u64 \<Rightarrow> u64 \<Rightarrow> ('s, bool) state) \<Rightarrow> ('s, CounterUpdate) state" where
  "add_counter_tries 0 delta load compare_exchange = State_Monad.return Contended"
| "add_counter_tries (Suc n) delta load compare_exchange = do {
     before \<leftarrow> load;
     let after = saturating_add before delta;
     ok \<leftarrow> compare_exchange before after;
     if ok then State_Monad.return (if delta > - 1 - before then Saturated else Added)
     else add_counter_tries n delta load compare_exchange }"

definition add_counter_with ::
  "u64 \<Rightarrow> ('s, u64) state \<Rightarrow> (u64 \<Rightarrow> u64 \<Rightarrow> ('s, bool) state) \<Rightarrow> ('s, CounterUpdate) state" where
  "add_counter_with delta load compare_exchange = add_counter_tries 8 delta load compare_exchange"

fun max_counter_tries ::
  "nat \<Rightarrow> u64 \<Rightarrow> ('s, u64) state \<Rightarrow> (u64 \<Rightarrow> u64 \<Rightarrow> ('s, bool) state) \<Rightarrow> ('s, CounterMaxUpdate) state" where
  "max_counter_tries 0 candidate load compare_exchange = State_Monad.return MaxContended"
| "max_counter_tries (Suc n) candidate load compare_exchange = do {
     before \<leftarrow> load;
     if candidate \<le> before then State_Monad.return Kept
     else do {
       ok \<leftarrow> compare_exchange before candidate;
       if ok then State_Monad.return Raised
       else max_counter_tries n candidate load compare_exchange } }"

definition max_counter_with ::
  "u64 \<Rightarrow> ('s, u64) state \<Rightarrow> (u64 \<Rightarrow> u64 \<Rightarrow> ('s, bool) state) \<Rightarrow> ('s, CounterMaxUpdate) state" where
  "max_counter_with candidate load compare_exchange = max_counter_tries 8 candidate load compare_exchange"

definition inventory_mark_used_with :: "('s, u64) state \<Rightarrow> ('s, u64) state \<Rightarrow> ('s, bool) state" where
  "inventory_mark_used_with load set_if_zero = do {
     v \<leftarrow> load;
     if v = 0 then do { previous \<leftarrow> set_if_zero; State_Monad.return (previous = 0 \<or> previous = 1) }
     else State_Monad.return (v = 1) }"

text \<open>
  An atomic cell: before its \<open>k\<close>-th operation the other users of the cell have
  turned its value into \<open>interference k v\<close>. The writes made through this handle
  are remembered, oldest first, as pairs of the value before and after.
\<close>

record acell =
  cell :: u64
  tick :: nat
  interference :: "nat \<Rightarrow> u64 \<Rightarrow> u64"
  writes :: "(u64 \<times> u64) list"

definition settle :: "acell \<Rightarrow> acell" where
  "settle c = c\<lparr>cell := interference c (tick c) (cell c), tick := Suc (tick c)\<rparr>"

definition atomic_load :: "(acell, u64) state" where
  "atomic_load = State (\<lambda>c. let c' = settle c in (cell c', c'))"

text \<open>\<^verbatim>\<open>atomic_cxchg(cell, before, after)\<close>: the previous value and whether the
  exchange happened.\<close>

definition atomic_cxchg :: "u64 \<Rightarrow> u64 \<Rightarrow> (acell, u64 \<times> bool) state" where
  "atomic_cxchg before after = State (\<lambda>c.
     let c' = settle c; previous = cell c'
     in if previous = before
        then ((previous, True), c'\<lparr>cell := after, writes := writes c' @ [(before, after)]\<rparr>)
        else ((previous, False), c'))"

definition atomic_cas :: "u64 \<Rightarrow> u64 \<Rightarrow> (acell, bool) state" where
  "atomic_cas before after = do { r \<leftarrow> atomic_cxchg before after; State_Monad.return (snd r) }"

definition cell_set_if_zero :: "(acell, u64) state" where
  "cell_set_if_zero = do { r \<leftarrow> atomic_cxchg 0 1; State_Monad.return (fst r) }"

text \<open>The probe-side counters of \<^verbatim>\<open>crates/ebpf/src/main.rs\<close>: the shared policy on
  the live cell, and the sticky health cells it raises.\<close>

record counter_health =
  health_saturated :: bool
  health_contended :: bool

definition counter_add :: "u64 \<Rightarrow> counter_health \<Rightarrow> (acell, counter_health) state" where
  "counter_add delta h = do {
     update \<leftarrow> add_counter_with delta atomic_load atomic_cas;
     State_Monad.return (case update of
        Added \<Rightarrow> h
      | Saturated \<Rightarrow> h\<lparr>health_saturated := True\<rparr>
      | Contended \<Rightarrow> h\<lparr>health_contended := True\<rparr>) }"

definition counter_max :: "u64 \<Rightarrow> counter_health \<Rightarrow> (acell, counter_health) state" where
  "counter_max candidate h = do {
     update \<leftarrow> max_counter_with candidate atomic_load atomic_cas;
     State_Monad.return (if update = MaxContended then h\<lparr>health_contended := True\<rparr> else h) }"

section \<open>The stop gate\<close>

abbreviation (input) STOP_GATE_STOP :: u64 where "STOP_GATE_STOP \<equiv> 0x8000000000000000"
abbreviation (input) STOP_GATE_COUNT_MASK :: u64 where "STOP_GATE_COUNT_MASK \<equiv> 0x7FFFFFFFFFFFFFFF"
abbreviation (input) FIRST_STOP_UNKNOWN :: u64 where "FIRST_STOP_UNKNOWN \<equiv> 0xFFFFFFFFFFFFFFFF"

definition stop_gate_admit_with :: "('s, u64) state \<Rightarrow> (int \<Rightarrow> ('s, unit) state) \<Rightarrow> ('s, bool) state" where
  "stop_gate_admit_with read add = do {
     w \<leftarrow> read;
     if w AND STOP_GATE_STOP \<noteq> 0 then State_Monad.return False
     else do {
       add 1;
       w' \<leftarrow> read;
       if w' AND STOP_GATE_STOP \<noteq> 0 then do { add (- 1); State_Monad.return False }
       else State_Monad.return True } }"

datatype FirstStop = NotRequested | UnknownStop | Known u64

text \<open>The shared gate: the mapped word, the latched first stop, and one control
  point per guarded thread. \<open>pending\<close> counts userspace requests between their
  two atomic operations.\<close>

datatype gate_pc = Outside | Checked | Counted | Inside | BackingOut

datatype gate_op = GateRead u64 | GateAdd int

record gate =
  gate_word :: u64
  gate_first_stop :: u64
  pending :: nat
  pcs :: "nat \<Rightarrow> gate_pc"

definition stamp_of :: "u64 option \<Rightarrow> u64" where
  "stamp_of now = (case now of
     Some ns \<Rightarrow> min (max ns 1) (FIRST_STOP_UNKNOWN - 1)
   | None \<Rightarrow> FIRST_STOP_UNKNOWN)"

text \<open>\<^verbatim>\<open>request_stop_with\<close> is two atomic operations: latch the instant, then set
  the bit.\<close>

definition request_latch :: "u64 option \<Rightarrow> gate \<Rightarrow> gate" where
  "request_latch now g =
     g\<lparr>gate_first_stop := (if gate_first_stop g = 0 then stamp_of now else gate_first_stop g),
       pending := Suc (pending g)\<rparr>"

definition request_publish :: "gate \<Rightarrow> gate" where
  "request_publish g = g\<lparr>gate_word := gate_word g OR STOP_GATE_STOP, pending := pending g - 1\<rparr>"

definition request_stop_with :: "u64 option \<Rightarrow> gate \<Rightarrow> gate" where
  "request_stop_with now g = request_publish (request_latch now g)"

definition first_stop :: "gate \<Rightarrow> FirstStop" where
  "first_stop g =
     (if gate_first_stop g = 0 then NotRequested
      else if gate_first_stop g = FIRST_STOP_UNKNOWN then UnknownStop
      else Known (gate_first_stop g))"

definition stop_requested :: "gate \<Rightarrow> bool" where
  "stop_requested g \<longleftrightarrow> gate_word g AND STOP_GATE_STOP \<noteq> 0"

definition quiescent :: "gate \<Rightarrow> bool" where
  "quiescent g \<longleftrightarrow> gate_word g = STOP_GATE_STOP"

definition in_flight :: "gate \<Rightarrow> u64" where
  "in_flight g = gate_word g AND STOP_GATE_COUNT_MASK"

definition new_gate :: gate where
  "new_gate = \<lparr>gate_word = 0, gate_first_stop = 0, pending = 0, pcs = (\<lambda>_. Outside)\<rparr>"

text \<open>What a guarded thread does next: the operations of \<^verbatim>\<open>stop_gate_enter\<close>, then,
  once inside, the decrement of \<^verbatim>\<open>stop_gate_leave\<close>.\<close>

fun gate_next :: "gate_pc \<Rightarrow> gate_op \<Rightarrow> gate_pc option" where
  "gate_next Outside (GateRead w) = Some (if w AND STOP_GATE_STOP \<noteq> 0 then Outside else Checked)"
| "gate_next Checked (GateAdd d) = (if d = 1 then Some Counted else None)"
| "gate_next Counted (GateRead w) = Some (if w AND STOP_GATE_STOP \<noteq> 0 then BackingOut else Inside)"
| "gate_next BackingOut (GateAdd d) = (if d = - 1 then Some Outside else None)"
| "gate_next Inside (GateAdd d) = (if d = - 1 then Some Outside else None)"
| "gate_next pc op = None"

fun gate_effect :: "gate_op \<Rightarrow> u64 \<Rightarrow> u64" where
  "gate_effect (GateRead v) w = w"
| "gate_effect (GateAdd d) w = w + of_int d"

fun gate_observes :: "gate_op \<Rightarrow> u64 \<Rightarrow> bool" where
  "gate_observes (GateRead v) w = (v = w)"
| "gate_observes (GateAdd d) w = True"

inductive gate_step :: "nat \<Rightarrow> gate \<Rightarrow> gate \<Rightarrow> bool" for threads where
  thread_op: "i < threads \<Longrightarrow> gate_observes op (gate_word g) \<Longrightarrow> gate_next (pcs g i) op = Some pc \<Longrightarrow>
    gate_step threads g
      (g\<lparr>gate_word := gate_effect op (gate_word g), pcs := (pcs g)(i := pc)\<rparr>)"
| latch: "gate_step threads g (request_latch now g)"
| publish: "pending g > 0 \<Longrightarrow> gate_step threads g (request_publish g)"

inductive gate_reachable :: "nat \<Rightarrow> gate \<Rightarrow> gate \<Rightarrow> bool" for threads g where
  here: "gate_reachable threads g g"
| further: "gate_reachable threads g h \<Longrightarrow> gate_step threads h k \<Longrightarrow> gate_reachable threads g k"

inductive_cases gate_stepE: "gate_step threads g h"

text \<open>The operations one admission performs, recorded on a scripted word.\<close>

record gate_script =
  answers :: "nat \<Rightarrow> u64"
  performed :: "gate_op list"

definition script_read :: "(gate_script, u64) state" where
  "script_read = State (\<lambda>s. let v = answers s (length (performed s))
     in (v, s\<lparr>performed := performed s @ [GateRead v]\<rparr>))"

definition script_add :: "int \<Rightarrow> (gate_script, unit) state" where
  "script_add d = State (\<lambda>s. ((), s\<lparr>performed := performed s @ [GateAdd d]\<rparr>))"

fun gate_run :: "gate_pc \<Rightarrow> gate_op list \<Rightarrow> gate_pc option" where
  "gate_run pc [] = Some pc"
| "gate_run pc (op # ops) = (case gate_next pc op of None \<Rightarrow> None | Some pc' \<Rightarrow> gate_run pc' ops)"

text \<open>The counted threads, and the invariant: the word is exactly the stop bit
  plus their number; a set or pending stop has a latched instant.\<close>

definition counted :: "nat \<Rightarrow> gate \<Rightarrow> nat set" where
  "counted threads g = {i. i < threads \<and> pcs g i \<in> {Counted, Inside, BackingOut}}"

definition gate_inv :: "nat \<Rightarrow> gate \<Rightarrow> bool" where
  "gate_inv threads g \<longleftrightarrow>
     gate_word g = (if stop_requested g then STOP_GATE_STOP else 0) + of_nat (card (counted threads g))
     \<and> (pending g > 0 \<or> stop_requested g \<longrightarrow> gate_first_stop g \<noteq> 0)
     \<and> (\<forall>i \<ge> threads. pcs g i = Outside)"

section \<open>The contract of an atomic cell\<close>

text \<open>What the policies rely on: a load reports the current value and writes
  nothing; an exchange that succeeds is one write, a failed one is none.\<close>

locale cas_cell =
  fixes load :: "('s, u64) state" and cas :: "u64 \<Rightarrow> u64 \<Rightarrow> ('s, bool) state"
    and val :: "'s \<Rightarrow> u64" and made :: "'s \<Rightarrow> (u64 \<times> u64) list"
  assumes load_law: "run_state load s = (v, s') \<Longrightarrow> val s' = v \<and> made s' = made s"
    and cas_law: "run_state (cas b a) s = (ok, s') \<Longrightarrow>
      (if ok then made s' = made s @ [(b, a)] \<and> val s' = a else made s' = made s)"
begin

text \<open>One addition makes at most one write; that write is exact or saturating as
  reported, and a contended addition writes nothing.\<close>

lemma add_counter_tries_writes:
  assumes "run_state (add_counter_tries n delta load cas) s = (r, s')"
  shows "case r of
      Added \<Rightarrow> (\<exists>b. made s' = made s @ [(b, b + delta)] \<and> val s' = b + delta
                 \<and> unat (b + delta) = unat b + unat delta)
    | Saturated \<Rightarrow> (\<exists>b. made s' = made s @ [(b, - 1)] \<and> val s' = - 1
                 \<and> 2 ^ 64 \<le> unat b + unat delta)
    | Contended \<Rightarrow> made s' = made s"
  using assms
proof (induction n arbitrary: s)
  case 0
  then show ?case by auto
next
  case (Suc n)
  obtain b s1 where l: "run_state load s = (b, s1)" by fastforce
  obtain ok s2 where c: "run_state (cas b (saturating_add b delta)) s1 = (ok, s2)" by fastforce
  note laws = load_law[OF l] cas_law[OF c]
  show ?case
  proof (cases ok)
    case False
    with Suc.prems l c have "run_state (add_counter_tries n delta load cas) s2 = (r, s')"
      by (simp add: Let_def)
    from Suc.IH[OF this] laws False show ?thesis by (simp split: CounterUpdate.splits)
  next
    case True
    have sat: "delta > - 1 - b \<longleftrightarrow> 2 ^ 64 \<le> unat b + unat delta"
      using unsigned_less[of b, where 'a = nat]
      by (auto simp: word_less_nat_alt unat_sub word_le_nat_alt unat_minus_one_max)
    from Suc.prems l c True have "r = (if delta > - 1 - b then Saturated else Added)" "s' = s2"
      by (auto simp: Let_def)
    with laws True sat show ?thesis
      by (auto simp: saturating_add_def unat_add_exact)
  qed
qed

lemma max_counter_tries_writes:
  assumes "run_state (max_counter_tries n candidate load cas) s = (r, s')"
  shows "case r of
      Raised \<Rightarrow> (\<exists>b. made s' = made s @ [(b, candidate)] \<and> b < candidate \<and> val s' = candidate)
    | Kept \<Rightarrow> made s' = made s \<and> candidate \<le> val s'
    | MaxContended \<Rightarrow> made s' = made s"
  using assms
proof (induction n arbitrary: s)
  case 0
  then show ?case by auto
next
  case (Suc n)
  obtain b s1 where l: "run_state load s = (b, s1)" by fastforce
  obtain ok s2 where c: "run_state (cas b candidate) s1 = (ok, s2)" by fastforce
  note laws = load_law[OF l] cas_law[OF c]
  show ?case
  proof (cases "candidate \<le> b \<or> ok")
    case False
    with Suc.prems l c have "run_state (max_counter_tries n candidate load cas) s2 = (r, s')" by simp
    from Suc.IH[OF this] laws False show ?thesis by (simp split: CounterMaxUpdate.splits)
  next
    case True
    with Suc.prems l c laws show ?thesis by (auto split: if_splits)
  qed
qed

end

lemma run_atomic_cas:
  "run_state (atomic_cas b a) c =
    (if cell (settle c) = b
     then (True, (settle c)\<lparr>cell := a, writes := writes c @ [(b, a)]\<rparr>)
     else (False, settle c))"
  by (auto simp: atomic_cas_def atomic_cxchg_def Let_def settle_def)

interpretation bpf_cell: cas_cell atomic_load atomic_cas cell writes
  by unfold_locales (auto simp: atomic_load_def run_atomic_cas Let_def settle_def split: if_splits)

text \<open>Without interference the first attempt succeeds.\<close>

lemma add_counter_alone:
  assumes "\<And>k v. interference c k v = v"
  shows "run_state (add_counter_with delta atomic_load atomic_cas) c =
    (if 2 ^ 64 \<le> unat (cell c) + unat delta then Saturated else Added,
     c\<lparr>cell := saturating_add (cell c) delta, tick := tick c + 2,
       writes := writes c @ [(cell c, saturating_add (cell c) delta)]\<rparr>)"
proof -
  have sat: "delta > - 1 - cell c \<longleftrightarrow> 2 ^ 64 \<le> unat (cell c) + unat delta"
    using unsigned_less[of "cell c", where 'a = nat]
    by (auto simp: word_less_nat_alt unat_sub word_le_nat_alt unat_minus_one_max)
  have e: "(8::nat) = Suc 7" by simp
  show ?thesis
    unfolding add_counter_with_def e add_counter_tries.simps
    by (simp add: atomic_load_def run_atomic_cas settle_def Let_def assms sat)
qed

text \<open>A used cell is monotone: while everyone only moves it from 0 to 1, a mark
  succeeds and leaves it at 1.\<close>

lemma inventory_mark_used_cell:
  assumes "cell c \<le> 1" "\<And>k v. v \<le> 1 \<Longrightarrow> v \<le> interference c k v \<and> interference c k v \<le> 1"
    and "run_state (inventory_mark_used_with atomic_load cell_set_if_zero) c = (r, c')"
  shows "r \<and> cell c' = 1"
proof -
  have bit: "w = 0 \<or> w = 1" if "w \<le> 1" for w :: u64
    using that by (auto simp: word_le_nat_alt word_unat_eq_iff)
  let ?v = "interference c (tick c) (cell c)"
  let ?w = "interference c (Suc (tick c)) ?v"
  have v: "?v \<le> 1" using assms(1,2) by blast
  then have w: "?w \<le> 1" using assms(2) by blast
  have run: "(r, c') = run_state (inventory_mark_used_with atomic_load cell_set_if_zero) c"
    using assms(3) by simp
  from bit[OF v] bit[OF w] show ?thesis using run
    by (auto simp: inventory_mark_used_with_def atomic_load_def cell_set_if_zero_def
        atomic_cxchg_def settle_def Let_def)
qed

section \<open>Facts about the stop gate\<close>

lemma stop_bit: "w AND STOP_GATE_STOP \<noteq> 0 \<longleftrightarrow> bit (w :: u64) 63"
  using and_exp_eq_0_iff_not_bit[of w 63] by simp

lemma stop_count_word:
  assumes "c < 2 ^ 63"
  defines "w b \<equiv> (if b then STOP_GATE_STOP else 0) + of_nat c"
  shows "bit (w b) 63 \<longleftrightarrow> b" "w b OR STOP_GATE_STOP = w True" "w b = STOP_GATE_STOP \<longleftrightarrow> b \<and> c = 0"
    "w b AND STOP_GATE_COUNT_MASK = of_nat c"
proof -
  have u: "unat (w b) = (if b then 2 ^ 63 else 0) + c" for b
    using assms(1) unfolding w_def by (simp add: unat_word_ariths unat_of_nat)
  have "bit (unat (w b)) 63 \<longleftrightarrow> bit (w b) 63" for b by (simp add: bit_unsigned_iff)
  then have "bit (w b) 63 \<longleftrightarrow> odd (unat (w b) div 2 ^ 63)" for b by (metis bit_iff_odd)
  moreover have "(2 ^ 63 + c) div 2 ^ 63 = 1" "c div 2 ^ 63 = 0"
    using assms(1) by (simp_all add: div_add_self1 div_eq_0_iff)
  ultimately show "bit (w b) 63 \<longleftrightarrow> b"
    by (cases b) (simp_all only: u if_True if_False add_0 odd_one even_zero simp_thms)
  show "w b = STOP_GATE_STOP \<longleftrightarrow> b \<and> c = 0" using assms(1) by (simp add: word_unat_eq_iff u)
  define x :: u64 where "x = of_nat c"
  have "unat x < 2 ^ 63" using assms(1) by (simp add: x_def unat_of_nat)
  note low = bit_below[OF this]
  have s: "bit STOP_GATE_STOP n \<longleftrightarrow> n = 63" for n using bit_exp_iff[where 'a = u64, of 63 n] by auto
  have "x AND STOP_GATE_STOP = 0"
  proof (rule bit_word_eqI)
    fix n show "bit (x AND STOP_GATE_STOP) n = bit 0 n"
      unfolding bit_and_iff s using low[of n] by auto
  qed
  then have wT: "w True = x OR STOP_GATE_STOP"
    unfolding w_def if_True x_def[symmetric] by (subst add.commute) (rule disjunctive_add_eq_or)
  have wF: "w False = x" by (simp add: w_def x_def)
  show "w b OR STOP_GATE_STOP = w True"
    by (cases b) (simp_all add: wT wF or.assoc)
  have m: "STOP_GATE_COUNT_MASK = mask 63" by (simp add: mask_numeral)
  have "bit (w b AND mask 63) n = bit x n" for n
    using low[of n] s[of n] by (cases b) (auto simp: wT wF bit_and_iff bit_or_iff bit_mask_iff)
  then show "w b AND STOP_GATE_COUNT_MASK = of_nat c"
    unfolding m x_def[symmetric] by (intro bit_word_eqI)
qed

lemma finite_counted [simp]: "finite (counted threads g)"
  by (simp add: counted_def)

lemma card_counted_le: "card (counted threads g) \<le> threads"
proof -
  have "counted threads g \<subseteq> {..<threads}" by (auto simp: counted_def)
  then have "card (counted threads g) \<le> card {..<threads}" by (rule card_mono[rotated]) simp
  then show ?thesis by simp
qed

lemma counted_update:
  "i < threads \<Longrightarrow> pc \<in> {Counted, Inside, BackingOut} \<Longrightarrow>
    counted threads (g\<lparr>gate_word := w, pcs := (pcs g)(i := pc)\<rparr>) = insert i (counted threads g)"
  "pc \<notin> {Counted, Inside, BackingOut} \<Longrightarrow>
    counted threads (g\<lparr>gate_word := w, pcs := (pcs g)(i := pc)\<rparr>) = counted threads g - {i}"
  by (auto simp: counted_def split: if_splits)

lemma gate_inv_new: "gate_inv threads new_gate"
  by (simp add: gate_inv_def new_gate_def counted_def stop_requested_def)

text \<open>What one thread operation does to the word and to the set of counted threads.\<close>

lemma gate_next_counts:
  assumes "gate_next (pcs g i) op = Some pc" "i < threads"
  defines "g' \<equiv> g\<lparr>gate_word := gate_effect op (gate_word g), pcs := (pcs g)(i := pc)\<rparr>"
  shows "gate_word g' = gate_word g \<and> counted threads g' = counted threads g
    \<or> gate_word g' = gate_word g + 1 \<and> i \<notin> counted threads g \<and> counted threads g' = insert i (counted threads g)
    \<or> gate_word g' = gate_word g - 1 \<and> i \<in> counted threads g \<and> counted threads g' = counted threads g - {i}"
  using assms(1,2)
  by (cases "(pcs g i, op)" rule: gate_next.cases)
    (auto simp: g'_def counted_def split: if_splits)

lemma stop_requested_count:
  assumes "gate_word g = (if b then STOP_GATE_STOP else 0) + of_nat c" "c < 2 ^ 63"
  shows "stop_requested g = b"
  using stop_count_word(1)[OF assms(2), of b] assms(1) by (simp add: stop_requested_def stop_bit)

lemma gate_step_inv:
  assumes "gate_step threads g h" "gate_inv threads g" "threads < 2 ^ 63"
  shows "gate_inv threads h \<and> (stop_requested g \<longrightarrow> stop_requested h)
    \<and> (gate_first_stop g \<noteq> 0 \<longrightarrow> gate_first_stop h = gate_first_stop g)"
  using assms(1)
proof cases
  case (thread_op i op pc)
  let ?b = "stop_requested g" and ?n = "card (counted threads g)"
  have w: "gate_word g = (if ?b then STOP_GATE_STOP else 0) + of_nat ?n"
    using assms(2) by (simp add: gate_inv_def)
  have le: "card (counted threads h) < 2 ^ 63"
    using card_counted_le[of threads h] assms(3) by simp
  from gate_next_counts[OF thread_op(4,2), folded thread_op(1)]
  have wh: "gate_word h = (if ?b then STOP_GATE_STOP else 0) + of_nat (card (counted threads h))"
  proof (elim disjE conjE)
    assume h: "gate_word h = gate_word g - 1" and "i \<in> counted threads g"
      and c: "counted threads h = counted threads g - {i}"
    then have "?n = Suc (card (counted threads h))"
      using card_Suc_Diff1[of "counted threads g" i] by (simp only: c finite_counted)
    then show ?thesis unfolding h w by simp
  qed (use w in \<open>simp_all add: card_insert_if algebra_simps\<close>)
  have st: "stop_requested h = ?b" by (rule stop_requested_count[OF wh le])
  have "pending h = pending g" "gate_first_stop h = gate_first_stop g"
    "\<forall>j \<ge> threads. pcs h j = Outside"
    using assms(2) thread_op(1,2) by (auto simp: gate_inv_def)
  with wh assms(2) show ?thesis unfolding gate_inv_def st by auto
next
  case (latch now)
  have s: "stamp_of now \<noteq> 0"
    by (auto simp: stamp_of_def min_def max_def word_le_nat_alt word_unat_eq_iff split: option.splits)
  have "counted threads h = counted threads g" by (simp add: latch request_latch_def counted_def)
  with s assms(2) show ?thesis
    by (auto simp: gate_inv_def latch request_latch_def stop_requested_def)
next
  case publish
  let ?b = "stop_requested g" and ?n = "card (counted threads g)"
  have n: "?n < 2 ^ 63" using card_counted_le[of threads g] assms(3) by simp
  have c: "counted threads h = counted threads g" by (simp add: publish request_publish_def counted_def)
  have wg: "gate_word g = (if ?b then STOP_GATE_STOP else 0) + of_nat ?n"
    using assms(2) by (simp add: gate_inv_def)
  have "gate_word h = gate_word g OR STOP_GATE_STOP" by (simp add: publish request_publish_def)
  then have w: "gate_word h = (if True then STOP_GATE_STOP else 0) + of_nat (card (counted threads h))"
    unfolding c wg by (simp only: stop_count_word(2)[OF n])
  have "stop_requested h" using stop_requested_count[OF w] n c by simp
  with w assms(2) show ?thesis
    by (auto simp: gate_inv_def publish request_publish_def)
qed

lemma gate_reachable_inv:
  assumes "gate_reachable threads g h" "gate_inv threads g" "threads < 2 ^ 63"
  shows "gate_inv threads h \<and> (stop_requested g \<longrightarrow> stop_requested h)
    \<and> (gate_first_stop g \<noteq> 0 \<longrightarrow> gate_first_stop h = gate_first_stop g)"
  using assms(1)
proof induction
  case here
  then show ?case using assms(2) by simp
next
  case (further h k)
  then show ?case using gate_step_inv[OF further(2) _ assms(3)] by auto
qed

text \<open>Once the stop bit is set nobody can become admitted.\<close>

lemma gate_step_no_admission:
  assumes "gate_step threads g h" "stop_requested g" "pcs h i = Inside"
  shows "pcs g i = Inside"
  using assms(1)
proof cases
  case (thread_op j op pc)
  then show ?thesis
    using assms(2,3)
    by (cases "(pcs g j, op)" rule: gate_next.cases)
      (auto simp: stop_requested_def split: if_splits)
qed (use assms(3) in \<open>auto simp: request_latch_def request_publish_def\<close>)

lemma gate_reachable_no_admission:
  assumes "gate_reachable threads g h" "gate_inv threads g" "threads < 2 ^ 63"
    and "stop_requested g" "pcs h i = Inside"
  shows "pcs g i = Inside"
  using assms(1,5)
proof induction
  case (further h k)
  have "stop_requested h" using gate_reachable_inv[OF further(1) assms(2,3)] assms(4) by blast
  from gate_step_no_admission[OF further(2) this further(4)] further(3) show ?case by blast
qed

lemma quiescent_nobody_counted:
  assumes "gate_inv threads g" "threads < 2 ^ 63" "quiescent g"
  shows "counted threads g = {}" "stop_requested g"
proof -
  have n: "card (counted threads g) < 2 ^ 63" using card_counted_le[of threads g] assms(2) by simp
  have "(if stop_requested g then STOP_GATE_STOP else 0) + of_nat (card (counted threads g)) = STOP_GATE_STOP"
    using assms(1,3) by (simp add: gate_inv_def quiescent_def)
  then have "stop_requested g \<and> card (counted threads g) = 0"
    by (simp only: stop_count_word(3)[OF n])
  then show "counted threads g = {}" "stop_requested g" by auto
qed

lemma in_flight_counts:
  assumes "gate_inv threads g" "threads < 2 ^ 63"
  shows "in_flight g = of_nat (card (counted threads g))"
proof -
  have n: "card (counted threads g) < 2 ^ 63" using card_counted_le[of threads g] assms(2) by simp
  have "gate_word g = (if stop_requested g then STOP_GATE_STOP else 0) + of_nat (card (counted threads g))"
    using assms(1) by (simp add: gate_inv_def)
  then show ?thesis unfolding in_flight_def by (simp only: stop_count_word(4)[OF n])
qed

text \<open>The code of \<^verbatim>\<open>stop_gate_admit_with\<close> performs exactly the operations a thread
  of the step relation may perform, and ends inside exactly when admitted.\<close>

lemma stop_gate_admit_trace:
  assumes "run_state (stop_gate_admit_with script_read script_add) s = (admitted, s')"
    and "performed s = []"
  shows "gate_run Outside (performed s') = Some (if admitted then Inside else Outside)"
  using assms
  by (auto simp: stop_gate_admit_with_def script_read_def script_add_def Let_def split: if_splits)

section \<open>Properties\<close>

text \<open>C4: A counter update never wraps and never claims an increment it did not make,
  whatever the other users of the cell do: an addition that reports success
  made exactly one write, of the exact sum; a saturated one made exactly one
  write, of the maximum; a contended one made none.\<close>

theorem add_counter_exact:
  assumes "run_state (add_counter_with delta atomic_load atomic_cas) c = (r, c')"
  shows "case r of
      Added \<Rightarrow> (\<exists>b. writes c' = writes c @ [(b, b + delta)] \<and> cell c' = b + delta
                 \<and> unat (b + delta) = unat b + unat delta)
    | Saturated \<Rightarrow> (\<exists>b. writes c' = writes c @ [(b, - 1)] \<and> cell c' = - 1 \<and> 2 ^ 64 \<le> unat b + unat delta)
    | Contended \<Rightarrow> writes c' = writes c"
  using bpf_cell.add_counter_tries_writes[OF assms[unfolded add_counter_with_def]] .

theorem add_counter_exact_witness:
  "\<exists>c'. run_state (add_counter_with 2 atomic_load atomic_cas)
      \<lparr>cell = - 2, tick = 0, interference = (\<lambda>_ v. v), writes = []\<rparr> = (Saturated, c')
    \<and> cell c' = - 1"
proof -
  let ?c = "\<lparr>cell = - 2, tick = 0, interference = (\<lambda>_ v. v), writes = []\<rparr> :: acell"
  let ?c' = "snd (run_state (add_counter_with 2 atomic_load atomic_cas) ?c)"
  have run: "run_state (add_counter_with 2 atomic_load atomic_cas) ?c = (Saturated, ?c')"
    by (subst add_counter_alone; simp)+
  from add_counter_exact[OF run] have "cell ?c' = - 1" by auto
  with run show ?thesis by blast
qed

text \<open>C11: The maximum cell is exact: a raise writes the candidate over a smaller value,
  a kept cell already covers the candidate, and contention writes nothing.\<close>

theorem max_counter_exact:
  assumes "run_state (max_counter_with candidate atomic_load atomic_cas) c = (r, c')"
  shows "case r of
      Raised \<Rightarrow> (\<exists>b. writes c' = writes c @ [(b, candidate)] \<and> b < candidate \<and> cell c' = candidate)
    | Kept \<Rightarrow> writes c' = writes c \<and> candidate \<le> cell c'
    | MaxContended \<Rightarrow> writes c' = writes c"
  using bpf_cell.max_counter_tries_writes[OF assms[unfolded max_counter_with_def]] .

theorem max_counter_exact_witness:
  "run_state (max_counter_with 5 atomic_load atomic_cas)
      \<lparr>cell = 9, tick = 0, interference = (\<lambda>_ v. v), writes = []\<rparr>
    = (Kept, \<lparr>cell = 9, tick = 1, interference = (\<lambda>_ v. v), writes = []\<rparr>) \<and> (5 :: u64) \<le> 9"
proof -
  have e: "(8 :: nat) = Suc 7" by simp
  have run: "run_state (max_counter_with 5 atomic_load atomic_cas)
      \<lparr>cell = 9, tick = 0, interference = (\<lambda>_ v. v), writes = []\<rparr>
    = (Kept, \<lparr>cell = 9, tick = 1, interference = (\<lambda>_ v. v), writes = []\<rparr>)"
    unfolding max_counter_with_def e max_counter_tries.simps by (simp add: atomic_load_def settle_def)
  with max_counter_exact[OF run] show ?thesis by simp
qed

text \<open>C2: The stop protocol is safe for any number of threads below 2^63: once userspace
  has observed the gate quiescent, no probe body is running, and none ever
  runs again, however the threads and further stop requests interleave.\<close>

theorem quiescent_is_final:
  assumes "threads < 2 ^ 63" "gate_reachable threads new_gate g" "quiescent g" "gate_reachable threads g h"
  shows "pcs h i \<noteq> Inside"
proof
  assume "pcs h i = Inside"
  have inv: "gate_inv threads g" using gate_reachable_inv[OF assms(2) gate_inv_new assms(1)] by blast
  note q = quiescent_nobody_counted[OF inv assms(1,3)]
  from gate_reachable_no_admission[OF assms(4) inv assms(1) q(2) \<open>pcs h i = Inside\<close>]
  have "pcs g i = Inside" .
  then have "i \<in> counted threads g"
    using inv by (cases "i < threads") (auto simp: counted_def gate_inv_def)
  with q(1) show False by simp
qed

theorem quiescent_is_final_witness:
  "gate_reachable 4 new_gate (request_stop_with (Some 10) new_gate)
   \<and> quiescent (request_stop_with (Some 10) new_gate)
   \<and> pcs (request_stop_with (Some 10) new_gate) 0 \<noteq> Inside"
proof -
  let ?g = "request_stop_with (Some 10) new_gate"
  have "pending (request_latch (Some 10) new_gate) > 0" by (simp add: request_latch_def)
  then have r: "gate_reachable 4 new_gate ?g"
    unfolding request_stop_with_def
    by (meson gate_reachable.here gate_reachable.further gate_step.latch gate_step.publish)
  moreover have "quiescent ?g"
    by (simp add: quiescent_def request_stop_with_def request_publish_def request_latch_def new_gate_def)
  moreover have "pcs ?g 0 \<noteq> Inside"
    by (rule quiescent_is_final[OF _ r \<open>quiescent ?g\<close> gate_reachable.here]) simp
  ultimately show ?thesis by blast
qed

text \<open>C8: The gate word always holds exactly the stop bit and the number of threads
  between their increment and their decrement, so \<^verbatim>\<open>in_flight\<close> never over- or
  under-reports, and the count never reaches the stop bit.\<close>

theorem in_flight_exact:
  assumes "threads < 2 ^ 63" "gate_reachable threads new_gate g"
  shows "in_flight g = of_nat (card (counted threads g))"
  using in_flight_counts gate_reachable_inv[OF assms(2) gate_inv_new assms(1)] assms(1) by blast

theorem in_flight_exact_witness:
  "\<exists>g. gate_reachable 4 new_gate g \<and> pcs g 2 = Counted \<and> in_flight g = of_nat (card (counted 4 g)) \<and> in_flight g = 1"
proof -
  let ?g1 = "new_gate\<lparr>gate_word := gate_effect (GateRead 0) (gate_word new_gate), pcs := (pcs new_gate)(2 := Checked)\<rparr>"
  let ?g2 = "?g1\<lparr>gate_word := gate_effect (GateAdd 1) (gate_word ?g1), pcs := (pcs ?g1)(2 := Counted)\<rparr>"
  have "gate_step 4 new_gate ?g1" by (rule gate_step.thread_op) (simp_all add: new_gate_def)
  moreover have "gate_step 4 ?g1 ?g2" by (rule gate_step.thread_op) simp_all
  ultimately have r: "gate_reachable 4 new_gate ?g2" by (blast intro: gate_reachable.intros)
  have "in_flight ?g2 = of_nat (card (counted 4 ?g2))" by (rule in_flight_exact[OF _ r]) simp
  moreover have "in_flight ?g2 = 1" by (simp add: in_flight_def new_gate_def)
  ultimately show ?thesis using r by (intro exI[of _ ?g2]) simp
qed

text \<open>C9: The first stop instant is latched once: when the stop bit is visible an instant
  (or its absence) has been recorded, and no later request ever changes it.\<close>

theorem first_stop_latched:
  assumes "threads < 2 ^ 63" "gate_reachable threads new_gate g" "stop_requested g" "gate_reachable threads g h"
  shows "first_stop g \<noteq> NotRequested \<and> first_stop h = first_stop g \<and> stop_requested h"
proof -
  have inv: "gate_inv threads g" using gate_reachable_inv[OF assms(2) gate_inv_new assms(1)] by blast
  then have nz: "gate_first_stop g \<noteq> 0" using assms(3) by (simp add: gate_inv_def)
  with gate_reachable_inv[OF assms(4) inv assms(1)] assms(3) show ?thesis
    by (auto simp: first_stop_def)
qed

theorem first_stop_latched_witness:
  "first_stop (request_stop_with (Some 99) (request_stop_with None new_gate)) = UnknownStop"
proof -
  let ?g = "request_stop_with None new_gate"
  have step: "gate_reachable 4 k (request_stop_with now k)" for k now
    unfolding request_stop_with_def
    by (rule gate_reachable.further[OF gate_reachable.further[OF gate_reachable.here gate_step.latch]
          gate_step.publish]) (simp add: request_latch_def)
  have s: "stop_requested ?g"
    by (simp add: stop_requested_def request_stop_with_def request_publish_def request_latch_def new_gate_def)
  have "first_stop ?g = UnknownStop"
    by (simp add: first_stop_def request_stop_with_def request_publish_def request_latch_def new_gate_def stamp_of_def)
  moreover have "first_stop (request_stop_with (Some 99) ?g) = first_stop ?g"
    using first_stop_latched[OF _ step s step] by simp
  ultimately show ?thesis by simp
qed

text \<open>C10: The admission code refines a gate thread: whatever values its reads return, the
  operations it performs are a run of the thread automaton of the protocol,
  ending inside exactly when it reports admission.\<close>

theorem admission_refines_thread:
  assumes "run_state (stop_gate_admit_with script_read script_add) s = (admitted, s')" "performed s = []"
  shows "gate_run Outside (performed s') = Some (if admitted then Inside else Outside)"
  by (rule stop_gate_admit_trace[OF assms])

theorem admission_refines_thread_witness:
  "\<exists>s'. run_state (stop_gate_admit_with script_read script_add) \<lparr>answers = (\<lambda>_. 0), performed = []\<rparr> = (True, s')
     \<and> gate_run Outside (performed s') = Some Inside"
proof -
  let ?s = "\<lparr>answers = (\<lambda>_. 0), performed = []\<rparr>"
  let ?s' = "snd (run_state (stop_gate_admit_with script_read script_add) ?s)"
  have run: "run_state (stop_gate_admit_with script_read script_add) ?s = (True, ?s')"
    by (simp add: stop_gate_admit_with_def script_read_def script_add_def Let_def)
  from admission_refines_thread[OF run] have "gate_run Outside (performed ?s') = Some Inside" by simp
  with run show ?thesis by blast
qed

end
