(* ===== verification/P11_Probes.thy ===== *)
theory P11_Probes
  imports P11_Discovery P11_Concurrency
begin

text \<open>
  The discovery and lifecycle probes of \<^verbatim>\<open>crates/ebpf/src/main.rs\<close>: scope
  admission, the table and interface readers, the export, selection, loader,
  exec and exit handlers, and the records they submit to the discovery ring.
  A handler is a program over the probe-side state (start-state map, pause
  map, ring, counters, stop gate). Whatever the kernel or the observed process
  answers comes from an environment \<open>kenv\<close>, which may answer differently at
  every tick: target memory, helper results, ring space, the native custody
  calls of \<^verbatim>\<open>native/task_owner.c\<close> and the loader gate.
\<close>

section \<open>Environment and state\<close>

text \<open>Outcome of a native custody call on the start-state map: it did what was
  asked, it failed and left the row, or it failed and dropped the row.\<close>

datatype custody = CustodyDone | CustodyKept | CustodyDropped

record features =
  inventory_only :: bool
  inventory_callers :: bool
  loader_gate :: bool

record kenv =
  user_mem :: "nat \<Rightarrow> u64 \<Rightarrow> nat \<Rightarrow> (nat \<Rightarrow> u8) option"
  user_str :: "nat \<Rightarrow> u64 \<Rightarrow> nat \<Rightarrow> int \<times> u8 list"
  ktime :: "nat \<Rightarrow> u64"
  send_signal :: "nat \<Rightarrow> int"
  ring_has_room :: "nat \<Rightarrow> bool"
  state_readable :: "nat \<Rightarrow> bool"
  custody_insert :: "nat \<Rightarrow> custody"
  custody_remove :: "nat \<Rightarrow> custody"
  owner_healthy :: "nat \<Rightarrow> bool"
  config_flags :: u64
  pid_filter :: "nat \<Rightarrow> u32 \<Rightarrow> u64 option"
  under_cgroup :: "nat \<Rightarrow> bool option"
  exec_dumpability :: "nat \<Rightarrow> u32"
  link_current_cookie :: "nat \<Rightarrow> u64"
  exe_identity :: "nat \<Rightarrow> (u64 \<times> u64) option"
  exit_summary :: "nat \<Rightarrow> (nat \<Rightarrow> u64) \<times> u64"
  gate_latched :: "nat \<Rightarrow> bool"
  gate_hit :: "nat \<Rightarrow> u32 \<Rightarrow> u64 \<Rightarrow> int"
  tail_call_ok :: "nat \<Rightarrow> bool"
  cleanup_drops :: "nat \<Rightarrow> StateKey \<Rightarrow> bool"
  interface_stride :: "LinuxLayout \<Rightarrow> u64"
  word_bytes :: "LinuxLayout \<Rightarrow> u64"
  feat :: features

text \<open>What a probe context gives a handler: the current task, the attach cookie
  and the saved registers.\<close>

record pctx =
  cur_pid_tgid :: u64
  cookie_of :: u64
  regs_cs :: u64
  regs_rsp :: u64
  regs_rip :: u64
  reg_args :: "nat \<Rightarrow> u64 option"
  ret_value :: u64
  func_ip :: u64
  raw_old_pid :: u64

record kstate =
  ticks :: nat
  starts :: "StateKey \<Rightarrow> StartState option"
  pauses :: "PauseKey \<Rightarrow> u64 option"
  ring :: "DiscoveryRecord list"
  counters :: "nat \<Rightarrow> u64"
  evidence :: "nat \<Rightarrow> u64"
  stop_word :: u64

type_synonym 'a k = "(kstate, 'a) state"

definition ask :: "(nat \<Rightarrow> 'a) \<Rightarrow> 'a k" where
  "ask f = State (\<lambda>s. (f (ticks s), s\<lparr>ticks := Suc (ticks s)\<rparr>))"

definition bump_discovery_counter :: "nat \<Rightarrow> unit k" where
  "bump_discovery_counter index =
     State (\<lambda>s. ((), s\<lparr>counters := (counters s)(index := counters s index + 1)\<rparr>))"

abbreviation (input) EVIDENCE_ABI_REFUSALS :: nat where "EVIDENCE_ABI_REFUSALS \<equiv> 8"
abbreviation (input) EVIDENCE_CGROUP_SCOPE_FAILURES :: nat where "EVIDENCE_CGROUP_SCOPE_FAILURES \<equiv> 4"

definition bump_evidence :: "nat \<Rightarrow> unit k" where
  "bump_evidence index =
     State (\<lambda>s. ((), s\<lparr>evidence := (evidence s)(index := evidence s index + 1)\<rparr>))"

section \<open>The stop gate around a handler\<close>

definition gate_cell_read :: "u64 k" where
  "gate_cell_read = State (\<lambda>s. (stop_word s, s))"

definition gate_cell_add :: "int \<Rightarrow> unit k" where
  "gate_cell_add d = State (\<lambda>s. ((), s\<lparr>stop_word := stop_word s + of_int d\<rparr>))"

definition stop_gate_enter :: "kenv \<Rightarrow> bool k" where
  "stop_gate_enter env =
     (if inventory_only (feat env) then State_Monad.return True
      else stop_gate_admit_with gate_cell_read gate_cell_add)"

definition stop_gate_leave :: "kenv \<Rightarrow> unit k" where
  "stop_gate_leave env =
     (if inventory_only (feat env) then State_Monad.return () else gate_cell_add (- 1))"

definition guarded :: "kenv \<Rightarrow> unit k \<Rightarrow> unit k" where
  "guarded env body = do {
     admitted \<leftarrow> stop_gate_enter env;
     if \<not> admitted then State_Monad.return ()
     else do { body; stop_gate_leave env } }"

section \<open>Reading the observed process\<close>

definition probe_read_user :: "kenv \<Rightarrow> nat \<Rightarrow> u64 \<Rightarrow> u8 list option k" where
  "probe_read_user env n address =
     ask (\<lambda>t. map_option (\<lambda>f. map f [0..<n]) (user_mem env t address n))"

definition probe_layout :: "pctx \<Rightarrow> LinuxLayout option" where
  "probe_layout ctx = target_layout_from_cs (regs_cs ctx)"

definition kread_word :: "kenv \<Rightarrow> u64 \<Rightarrow> LinuxLayout \<Rightarrow> u64 option k" where
  "kread_word env address l =
     (case target_word_end address l of
        None \<Rightarrow> State_Monad.return None
      | Some _ \<Rightarrow>
          (case l of
             Lp64 \<Rightarrow> do { b \<leftarrow> probe_read_user env 8 address; State_Monad.return (map_option from_le b) }
           | Ilp32 \<Rightarrow> do { b \<leftarrow> probe_read_user env 4 address;
                          State_Monad.return (map_option (\<lambda>bs. ucast (from_le bs :: u32)) b) }))"

definition words3 :: "LinuxLayout \<Rightarrow> u8 list \<Rightarrow> u64 \<times> u64 \<times> u64" where
  "words3 l bs =
     (case l of
        Lp64 \<Rightarrow> (le_at 8 bs 0, le_at 8 bs 8, le_at 8 bs 16)
      | Ilp32 \<Rightarrow> (ucast (le_at 4 bs 0 :: u32), ucast (le_at 4 bs 4 :: u32), ucast (le_at 4 bs 8 :: u32)))"

definition read_interface :: "kenv \<Rightarrow> u64 \<Rightarrow> LinuxLayout \<Rightarrow> (u64 \<times> u64 \<times> u64) option k" where
  "read_interface env address l =
     (case checked_add address (word_bytes env l * 2) of
        None \<Rightarrow> State_Monad.return None
      | Some last_word \<Rightarrow>
          (case target_word_end last_word l of
             None \<Rightarrow> State_Monad.return None
           | Some _ \<Rightarrow> do {
               b \<leftarrow> probe_read_user env (case l of Lp64 \<Rightarrow> 24 | Ilp32 \<Rightarrow> 12) address;
               State_Monad.return (map_option (words3 l) b) }))"

definition p11_read_ia32_arg :: "kenv \<Rightarrow> u64 \<Rightarrow> u32 \<Rightarrow> u64 k" where
  "p11_read_ia32_arg env stack_pointer index =
     ask (\<lambda>t. read_ia32_arg_with stack_pointer index
       (\<lambda>address. map_option (\<lambda>f. from_le (map f [0..<4])) (user_mem env t address 4)))"

definition arg_u64 :: "kenv \<Rightarrow> pctx \<Rightarrow> u8 \<Rightarrow> LinuxLayout \<Rightarrow> u64 option k" where
  "arg_u64 env ctx index l =
     (if l = Ilp32 then do {
        v \<leftarrow> p11_read_ia32_arg env (regs_rsp ctx) (ucast index);
        State_Monad.return (if v \<le> 0xFFFFFFFF then Some v else None) }
      else if index \<le> 5 then State_Monad.return (reg_args ctx (unat index))
      else if index = 6 then
        (case target_stack_arg_address (regs_rsp ctx) index l of
           None \<Rightarrow> State_Monad.return None
         | Some address \<Rightarrow> kread_word env address l)
      else State_Monad.return None)"

section \<open>Scope admission\<close>

record ScopeAuth =
  sa_flags :: u64
  sa_tgid :: u32
  sa_generation_token :: u64

definition scope_of :: "u64 \<Rightarrow> u32 \<Rightarrow> u64 \<Rightarrow> ScopeAuth" where
  "scope_of flags tgid token = \<lparr>sa_flags = flags, sa_tgid = tgid, sa_generation_token = token\<rparr>"

definition scope_auth :: "kenv \<Rightarrow> pctx \<Rightarrow> ScopeAuth option k" where
  "scope_auth env ctx = do {
     healthy \<leftarrow> ask (owner_healthy env);
     if \<not> healthy then State_Monad.return None
     else let flags = config_flags env;
              valid = (if inventory_only (feat env) then valid_inventory_config flags
                       else valid_config flags);
              tgid = ucast (drop_bit 32 (cur_pid_tgid ctx)) :: u32
          in if \<not> valid then State_Monad.return None
     else do {
       token \<leftarrow> (if flags AND FLAG_PID_FILTER \<noteq> 0 then ask (\<lambda>t. pid_filter env t tgid)
                 else State_Monad.return None);
       if case_option 0 id token \<noteq> 0
       then State_Monad.return (Some (scope_of flags tgid (case_option 0 id token)))
       else if flags AND FLAG_CGROUP_FILTER \<noteq> 0 then do {
         under \<leftarrow> ask (under_cgroup env);
         case under of
           Some b \<Rightarrow> State_Monad.return (if b then Some (scope_of flags tgid 0) else None)
         | None \<Rightarrow> do { bump_evidence EVIDENCE_CGROUP_SCOPE_FAILURES; State_Monad.return None } }
       else State_Monad.return
         (if flags AND FLAG_SYSTEM_FILTER \<noteq> 0 then Some (scope_of flags tgid 0) else None) } }"

section \<open>Submitting a record\<close>

definition zero_record :: DiscoveryRecord where
  "zero_record = \<lparr>hook_ts_ns = 0, pid_tgid = 0, table_ptr = 0, interface_flags = 0,
     pointers = replicate DISCOVERY_POINTERS 0, kind = 0, case_id = 0, interface_index = 0,
     name_class = 0, status_flags = 0, usable_n = 0, pointers_attempted = 0, completed_prefix = 0,
     version_major = 0, version_minor = 0, selection_version_class = 0, reserved_zero = [0],
     symbol_id = 0, announced_count = 0, reserved_tail_zero = [0, 0, 0, 0], send_signal_rc = 0,
     return_rv = 0, request_flags = 0, binding_id = 0\<rparr>"

definition reserve_discovery :: "kenv \<Rightarrow> DiscoveryRecord option k" where
  "reserve_discovery env = do {
     room \<leftarrow> ask (ring_has_room env);
     if room then State_Monad.return (Some zero_record)
     else do { bump_discovery_counter DISCOVERY_COUNTER_RING_LOSS; State_Monad.return None } }"

definition submit_record :: "DiscoveryRecord \<Rightarrow> unit k" where
  "submit_record r = State (\<lambda>s. ((), s\<lparr>ring := ring s @ [r]\<rparr>))"

text \<open>\<^verbatim>\<open>atomic_cxchg(value, PAUSE_ARMED, PAUSE_REQUESTED)\<close> on the pause cell of one
  process generation; \<open>None\<close> when the map has no such cell.\<close>

definition pause_cxchg :: "PauseKey \<Rightarrow> (u64 \<times> bool) option k" where
  "pause_cxchg key = State (\<lambda>s.
     case pauses s key of
       None \<Rightarrow> (None, s)
     | Some previous \<Rightarrow>
         if previous = PAUSE_ARMED
         then (Some (previous, True), s\<lparr>pauses := (pauses s)(key \<mapsto> PAUSE_REQUESTED)\<rparr>)
         else (Some (previous, False), s))"

definition finish_discovery_record ::
  "kenv \<Rightarrow> DiscoveryRecord \<Rightarrow> ScopeAuth \<Rightarrow> bool \<Rightarrow> u64 \<Rightarrow> u8 \<Rightarrow> unit k" where
  "finish_discovery_record env raw scope eligible cur status = do {
     (ts, rc, status') \<leftarrow>
       (if inventory_only (feat env) then do {
          now \<leftarrow> ask (ktime env); State_Monad.return (now, 0, status) }
        else if discovery_pause_enabled eligible (sa_flags scope) (sa_generation_token scope) then do {
          outcome \<leftarrow> pause_cxchg \<lparr>pk_tgid = sa_tgid scope, pk_pad = 0,
                                   pk_generation_token = sa_generation_token scope\<rparr>;
          case outcome of
            Some (previous, won) \<Rightarrow>
              if won then do {
                now \<leftarrow> ask (ktime env);
                rc \<leftarrow> ask (send_signal env);
                State_Monad.return (now, rc, status) }
              else if discovery_pause_coalesced previous won then do {
                now \<leftarrow> ask (ktime env);
                State_Monad.return
                  (now, COALESCED_NO_HELPER_RC, status OR DISCOVERY_STATUS_COALESCED_NO_HELPER) }
              else do { now \<leftarrow> ask (ktime env); State_Monad.return (now, 0, status) }
          | None \<Rightarrow> do { now \<leftarrow> ask (ktime env); State_Monad.return (now, 0, status) } }
        else do { now \<leftarrow> ask (ktime env); State_Monad.return (now, 0, status) });
     submit_record (raw\<lparr>hook_ts_ns := ts, pid_tgid := cur, status_flags := status',
                       send_signal_rc := rc\<rparr>) }"

section \<open>Export classification\<close>

record ExportArgs =
  ea_kind :: u8
  ea_interface_index :: u8
  ea_symbol_id :: u32
  ea_announced_count :: u32
  ea_address :: u64

record SelectionTransport =
  st_request_flags :: u64
  st_binding_id :: u64
  st_return_rv :: u64
  st_request_name_class :: u8
  st_request_version_class :: u8
  st_pause_eligible :: bool
  st_word_bytes :: u8

definition no_selection :: "kenv \<Rightarrow> LinuxLayout \<Rightarrow> SelectionTransport" where
  "no_selection env l = \<lparr>st_request_flags = 0, st_binding_id = 0, st_return_rv = 0,
     st_request_name_class = DISCOVERY_NAME_NA, st_request_version_class = DISCOVERY_VERSION_NULL,
     st_pause_eligible = True, st_word_bytes = ucast (word_bytes env l)\<rparr>"

definition selection_layout :: "SelectionTransport \<Rightarrow> LinuxLayout option" where
  "selection_layout selection =
     (if st_word_bytes selection = 4 then Some Ilp32
      else if st_word_bytes selection = 8 then Some Lp64 else None)"

record ExportPayload =
  ep_record_meta :: u64
  ep_announced_count :: u32
  ep_table_ptr :: u64
  ep_interface_flags :: u64
  ep_selection :: SelectionTransport

text \<open>The table walk: at most 104 words, stopping at the first failure.
  The result is the attempted and completed counts, the failure flag and the
  pointer array.\<close>

fun walk_table ::
  "kenv \<Rightarrow> u64 \<Rightarrow> LinuxLayout \<Rightarrow> nat \<Rightarrow> nat \<Rightarrow> u8 \<times> u8 \<times> bool \<times> u64 list
   \<Rightarrow> (u8 \<times> u8 \<times> bool \<times> u64 list) k" where
  "walk_table env tbl l 0 slot acc = State_Monad.return acc"
| "walk_table env tbl l (Suc n) slot (attempted, completed, failed, ps) =
     (case Option.bind (checked_add tbl (word_bytes env l))
             (\<lambda>base. checked_add base (of_nat slot * word_bytes env l)) of
        None \<Rightarrow> State_Monad.return (attempted + 1, completed, True, ps)
      | Some address \<Rightarrow> do {
          w \<leftarrow> kread_word env address l;
          case w of
            None \<Rightarrow> State_Monad.return (attempted + 1, completed, True, ps)
          | Some pointer \<Rightarrow>
              walk_table env tbl l n (Suc slot) (attempted + 1, completed + 1, failed, ps[slot := pointer]) })"

text \<open>The steps of \<^verbatim>\<open>emit_export\<close>: what the selection outcome implies before the
  table is touched (failure, version class, whether to read the version), the
  version read itself, and the record that is filled in.\<close>

definition export_decision :: "ExportPayload \<Rightarrow> bool \<Rightarrow> bool \<Rightarrow> bool \<Rightarrow> bool \<times> u8 \<times> bool" where
  "export_decision payload read_failed interface_unreadable read_table =
     (let selection = ep_selection payload in
      if st_return_rv selection \<noteq> 0 then (False, DISCOVERY_VERSION_NULL, False)
      else if st_binding_id selection \<noteq> 0 then
        (if interface_unreadable then (read_failed, DISCOVERY_VERSION_UNREADABLE, False)
         else if ep_table_ptr payload = 0 then (True, DISCOVERY_VERSION_NULL, False)
         else (read_failed, DISCOVERY_VERSION_NULL, True))
      else (read_failed, DISCOVERY_VERSION_NULL, read_table \<and> \<not> read_failed))"

definition export_version ::
  "kenv \<Rightarrow> ExportPayload \<Rightarrow> u8 \<Rightarrow> u8 \<Rightarrow> bool \<times> u8 \<times> bool \<Rightarrow> (u8 \<times> u8 \<times> u8 \<times> u8 \<times> bool) k" where
  "export_version env payload knd name decision =
     (case decision of (read_failed, version_class, read_version) \<Rightarrow>
      let selected = (st_binding_id (ep_selection payload) \<noteq> 0);
          read_table = (name = DISCOVERY_NAME_NA \<or> name = DISCOVERY_NAME_EXACT_STANDARD);
          base_slots = (if read_table then discovery_table_slots knd 0 0 else 0) in
      if \<not> read_version then State_Monad.return (0, 0, 0, version_class, read_failed)
      else do {
        v \<leftarrow> probe_read_user env 2 (ep_table_ptr payload);
        State_Monad.return
          (case v of
             Some bytes \<Rightarrow>
               (let maj = bytes ! 0; mnr = bytes ! 1 in
                if selected
                then ((if name = DISCOVERY_NAME_EXACT_STANDARD
                       then discovery_table_slots knd maj mnr else base_slots),
                      0, 0, discovery_version_class maj mnr, read_failed)
                else (discovery_table_slots knd maj mnr, maj, mnr, version_class, read_failed))
           | None \<Rightarrow>
               (base_slots, 0, 0,
                (if selected then DISCOVERY_VERSION_UNREADABLE else version_class), True)) })"

definition export_record ::
  "DiscoveryRecord \<Rightarrow> ExportPayload \<Rightarrow> u8 \<times> u8 \<times> bool \<times> u64 list \<Rightarrow> u8 \<Rightarrow> u8 \<Rightarrow> u8 \<Rightarrow> DiscoveryRecord" where
  "export_record raw payload walked maj mnr version_class =
     (case walked of (attempted, completed, read_failed, ps) \<Rightarrow>
      let selection = ep_selection payload; meta = ep_record_meta payload;
          selected = (st_binding_id selection \<noteq> 0) in
      raw\<lparr>table_ptr := ep_table_ptr payload,
          interface_flags := ep_interface_flags payload,
          pointers := ps,
          kind := ucast meta,
          case_id := (if selected then st_request_name_class selection else case_id raw),
          interface_index := (if selected then st_request_version_class selection
                              else ucast (drop_bit 8 meta)),
          return_rv := (if selected then st_return_rv selection else return_rv raw),
          request_flags := (if selected then st_request_flags selection else request_flags raw),
          binding_id := (if selected then st_binding_id selection else binding_id raw),
          name_class := ucast (drop_bit 16 meta),
          usable_n := discovery_usable_prefix read_failed completed,
          pointers_attempted := attempted,
          completed_prefix := completed,
          version_major := maj,
          version_minor := mnr,
          selection_version_class := (if selected then version_class else 0),
          symbol_id := ucast (drop_bit 32 meta),
          announced_count := ep_announced_count payload\<rparr>)"

definition emit_export :: "kenv \<Rightarrow> pctx \<Rightarrow> ExportPayload \<Rightarrow> ScopeAuth \<Rightarrow> unit k" where
  "emit_export env ctx payload scope =
     (case selection_layout (ep_selection payload) of
        None \<Rightarrow> bump_discovery_counter DISCOVERY_COUNTER_EXPORT_BOUNDED_READ_FAILURES
      | Some l \<Rightarrow> do {
          entry \<leftarrow> reserve_discovery env;
          case entry of
            None \<Rightarrow> State_Monad.return ()
          | Some raw \<Rightarrow>
              (let meta = ep_record_meta payload;
                   knd = ucast meta;
                   name = ucast (drop_bit 16 meta);
                   read_failed = (drop_bit 24 meta AND 1 \<noteq> 0);
                   interface_unreadable = (drop_bit 25 meta AND 1 \<noteq> 0);
                   read_table = (name = DISCOVERY_NAME_NA \<or> name = DISCOVERY_NAME_EXACT_STANDARD) in
               do {
                 (walk_slots, maj, mnr, version_class, version_failed) \<leftarrow>
                   export_version env payload knd name
                     (export_decision payload read_failed interface_unreadable read_table);
                 walked \<leftarrow> walk_table env (ep_table_ptr payload) l
                   (min DISCOVERY_POINTERS (unat walk_slots)) 0 (0, 0, version_failed, pointers raw);
                 let failed = fst (snd (snd walked));
                 _ \<leftarrow> (if failed
                      then bump_discovery_counter DISCOVERY_COUNTER_EXPORT_BOUNDED_READ_FAILURES
                      else State_Monad.return ());
                 finish_discovery_record env (export_record raw payload walked maj mnr version_class)
                   scope (st_pause_eligible (ep_selection payload)) (cur_pid_tgid ctx)
                   (if failed then DISCOVERY_STATUS_READ_FAILURE else 0) }) })"

abbreviation (input) STANDARD_NAME :: "u8 list" where
  "STANDARD_NAME \<equiv> [80, 75, 67, 83, 32, 49, 49, 0]"

definition classify_direct_interface ::
  "kenv \<Rightarrow> pctx \<Rightarrow> u64 \<Rightarrow> u32 \<Rightarrow> u64 \<Rightarrow> ScopeAuth \<Rightarrow> SelectionTransport \<Rightarrow> unit k" where
  "classify_direct_interface env ctx meta count address scope selection =
     (case selection_layout selection of
        None \<Rightarrow> bump_discovery_counter DISCOVERY_COUNTER_EXPORT_BOUNDED_READ_FAILURES
      | Some l \<Rightarrow> do {
          (name, read_failed, interface_unreadable, tbl, iflags) \<leftarrow>
            (if address = 0
             then State_Monad.return (DISCOVERY_NAME_UNREADABLE, True, True, 0, 0)
             else do {
               iface \<leftarrow> read_interface env address l;
               case iface of
                 None \<Rightarrow> State_Monad.return (DISCOVERY_NAME_UNREADABLE, True, True, 0, 0)
               | Some (name_ptr, tbl, flags) \<Rightarrow>
                   if name_ptr = 0
                   then State_Monad.return
                          (DISCOVERY_NAME_NULL, False, False, tbl, interface_flags_class flags)
                   else do {
                     (read, bytes) \<leftarrow> ask (\<lambda>t. user_str env t name_ptr 9);
                     State_Monad.return
                       (if read < 0
                        then (DISCOVERY_NAME_UNREADABLE, True, False, tbl, interface_flags_class flags)
                        else if read = 8 \<and> take 8 bytes = STANDARD_NAME
                        then (DISCOVERY_NAME_EXACT_STANDARD, False, False, tbl,
                              interface_flags_class flags)
                        else (DISCOVERY_NAME_OTHER, False, False, tbl, interface_flags_class flags)) } });
          let meta' = (meta AND NOT (0xff000000 OR 0x00ff0000 OR push_bit 25 1))
                OR push_bit 16 (ucast name) OR push_bit 24 (of_bool read_failed)
                OR push_bit 25 (of_bool interface_unreadable);
          emit_export env ctx
            \<lparr>ep_record_meta = meta', ep_announced_count = count, ep_table_ptr = tbl,
             ep_interface_flags = iflags, ep_selection = selection\<rparr> scope })"

definition classify_indirect_interface ::
  "kenv \<Rightarrow> pctx \<Rightarrow> u64 \<Rightarrow> u32 \<Rightarrow> u64 \<Rightarrow> ScopeAuth \<Rightarrow> SelectionTransport \<Rightarrow> unit k" where
  "classify_indirect_interface env ctx meta count pp_interface scope selection =
     (case selection_layout selection of
        None \<Rightarrow> bump_discovery_counter DISCOVERY_COUNTER_EXPORT_BOUNDED_READ_FAILURES
      | Some l \<Rightarrow> do {
          address \<leftarrow> (if pp_interface = 0 then State_Monad.return 0
                     else do { w \<leftarrow> kread_word env pp_interface l;
                               State_Monad.return (case w of Some pointer \<Rightarrow> pointer | None \<Rightarrow> 0) });
          classify_direct_interface env ctx meta count address scope selection })"

definition classify_export :: "kenv \<Rightarrow> pctx \<Rightarrow> ExportArgs \<Rightarrow> ScopeAuth \<Rightarrow> LinuxLayout \<Rightarrow> unit k" where
  "classify_export env ctx args scope l = do {
     let meta = ucast (ea_kind args) OR push_bit 8 (ucast (ea_interface_index args))
           OR push_bit 32 (ucast (ea_symbol_id args));
     w \<leftarrow> kread_word env (ea_address args) l;
     let (tbl, read_failed) =
       (case w of Some pointer \<Rightarrow> if pointer \<noteq> 0 then (pointer, False) else (0, True)
                | None \<Rightarrow> (0, True));
     emit_export env ctx
       \<lparr>ep_record_meta = meta OR push_bit 24 (of_bool read_failed),
        ep_announced_count = ea_announced_count args, ep_table_ptr = tbl,
        ep_interface_flags = 0, ep_selection = no_selection env l\<rparr> scope }"

section \<open>Start states\<close>

definition owned_discovery_get :: "kenv \<Rightarrow> StateKey \<Rightarrow> StartState option k" where
  "owned_discovery_get env key = do {
     readable \<leftarrow> ask (state_readable env);
     State (\<lambda>s. (if readable then starts s key else None, s)) }"

definition owned_discovery_insert :: "kenv \<Rightarrow> StateKey \<Rightarrow> StartState \<Rightarrow> bool \<Rightarrow> bool k" where
  "owned_discovery_insert env key st must_exist = do {
     outcome \<leftarrow> ask (custody_insert env);
     State (\<lambda>s.
       if outcome = CustodyDone \<and> (starts s key \<noteq> None) = must_exist
       then (True, s\<lparr>starts := (starts s)(key \<mapsto> st)\<rparr>)
       else if outcome = CustodyKept then (False, s)
       else (False, s\<lparr>starts := (starts s)(key := None)\<rparr>)) }"

definition owned_discovery_remove :: "kenv \<Rightarrow> StateKey \<Rightarrow> bool k" where
  "owned_discovery_remove env key = do {
     outcome \<leftarrow> ask (custody_remove env);
     State (\<lambda>s.
       if outcome = CustodyKept then (False, s)
       else (outcome = CustodyDone \<and> starts s key \<noteq> None,
             s\<lparr>starts := (starts s)(key := None)\<rparr>)) }"

definition export_symbol_id :: "u64 \<Rightarrow> u32 option" where
  "export_symbol_id cookie = map_option (\<lambda>(_, _, symbol). symbol) (decode_export_attach_cookie cookie)"

definition export_state_key :: "pctx \<Rightarrow> StateKey option" where
  "export_state_key ctx =
     (case export_symbol_id (cookie_of ctx) of
        None \<Rightarrow> None
      | Some _ \<Rightarrow> Some \<lparr>sk_pid_tgid = cur_pid_tgid ctx, sk_attach_cookie = cookie_of ctx,
                        sk_domain = STATE_DOMAIN_EXPORT\<rparr>)"

definition selection_state_key :: "pctx \<Rightarrow> StateKey option" where
  "selection_state_key ctx =
     (if cookie_of ctx \<noteq> 0
      then Some \<lparr>sk_pid_tgid = cur_pid_tgid ctx, sk_attach_cookie = cookie_of ctx,
                 sk_domain = STATE_DOMAIN_SELECTION\<rparr>
      else None)"

definition insert_state :: "kenv \<Rightarrow> StateKey \<Rightarrow> StartState \<Rightarrow> unit k" where
  "insert_state env key st = do {
     ok \<leftarrow> owned_discovery_insert env key st False;
     if ok then State_Monad.return ()
     else bump_discovery_counter DISCOVERY_COUNTER_EXPORT_STATE_FAILURES }"

definition insert_export_state :: "kenv \<Rightarrow> pctx \<Rightarrow> StartState \<Rightarrow> unit k" where
  "insert_export_state env ctx st = do {
     scope \<leftarrow> scope_auth env ctx;
     case scope of
       None \<Rightarrow> State_Monad.return ()
     | Some _ \<Rightarrow> (case export_state_key ctx of
                     None \<Rightarrow> State_Monad.return ()
                   | Some key \<Rightarrow> insert_state env key st) }"

definition insert_selection_state :: "kenv \<Rightarrow> pctx \<Rightarrow> StartState \<Rightarrow> unit k" where
  "insert_selection_state env ctx st =
     (case selection_state_key ctx of
        None \<Rightarrow> State_Monad.return ()
      | Some key \<Rightarrow> insert_state env key st)"

text \<open>\<^verbatim>\<open>take_export_state\<close> and \<^verbatim>\<open>take_selection_state\<close> share their body.\<close>

definition take_state :: "kenv \<Rightarrow> StateKey option \<Rightarrow> bool \<Rightarrow> (StateKey \<times> StartState) option k" where
  "take_state env skey scoped =
     (case skey of
        None \<Rightarrow> State_Monad.return None
      | Some key \<Rightarrow> do {
          st \<leftarrow> owned_discovery_get env key;
          let state_present = (st \<noteq> None);
          removed \<leftarrow> owned_discovery_remove env key;
          if discovery_state_take_failed state_present removed then do {
            _ \<leftarrow> (if scoped then bump_discovery_counter DISCOVERY_COUNTER_EXPORT_STATE_FAILURES
                 else State_Monad.return ());
            State_Monad.return None }
          else if discovery_state_take_scope_lost state_present removed scoped then do {
            bump_discovery_counter DISCOVERY_COUNTER_EXPORT_STATE_FAILURES;
            State_Monad.return None }
          else State_Monad.return (map_option (\<lambda>v. (key, v)) st) })"

definition take_export_state :: "kenv \<Rightarrow> pctx \<Rightarrow> bool \<Rightarrow> (StateKey \<times> StartState) option k" where
  "take_export_state env ctx scoped = take_state env (export_state_key ctx) scoped"

definition take_selection_state :: "kenv \<Rightarrow> pctx \<Rightarrow> bool \<Rightarrow> (StateKey \<times> StartState) option k" where
  "take_selection_state env ctx scoped = take_state env (selection_state_key ctx) scoped"

definition discard_export_state :: "kenv \<Rightarrow> StateKey \<Rightarrow> unit k" where
  "discard_export_state env key = do { _ \<leftarrow> owned_discovery_remove env key; State_Monad.return () }"

definition discard_if_keyed :: "kenv \<Rightarrow> StateKey option \<Rightarrow> unit k" where
  "discard_if_keyed env skey =
     (case skey of None \<Rightarrow> State_Monad.return () | Some key \<Rightarrow> discard_export_state env key)"

definition fail_export_state :: "kenv \<Rightarrow> StateKey \<Rightarrow> unit k" where
  "fail_export_state env key = do {
     _ \<leftarrow> owned_discovery_remove env key;
     bump_discovery_counter DISCOVERY_COUNTER_EXPORT_STATE_FAILURES }"

definition finish_export_state :: "kenv \<Rightarrow> StateKey \<Rightarrow> unit k" where
  "finish_export_state env key = do {
     ok \<leftarrow> owned_discovery_remove env key;
     if ok then State_Monad.return ()
     else bump_discovery_counter DISCOVERY_COUNTER_EXPORT_STATE_FAILURES }"

definition classify_selection_name :: "kenv \<Rightarrow> u64 \<Rightarrow> u8 k" where
  "classify_selection_name env pointer =
     (if pointer = 0 then State_Monad.return DISCOVERY_NAME_NULL
      else do {
        (read, bytes) \<leftarrow> ask (\<lambda>t. user_str env t pointer 9);
        if read < 0 then do {
          bump_discovery_counter DISCOVERY_COUNTER_EXPORT_BOUNDED_READ_FAILURES;
          State_Monad.return DISCOVERY_NAME_UNREADABLE }
        else if read = 8 \<and> take 8 bytes = STANDARD_NAME
        then State_Monad.return DISCOVERY_NAME_EXACT_STANDARD
        else State_Monad.return DISCOVERY_NAME_OTHER })"

definition classify_selection_version :: "kenv \<Rightarrow> u64 \<Rightarrow> u8 k" where
  "classify_selection_version env pointer =
     (if pointer = 0 then State_Monad.return DISCOVERY_VERSION_NULL
      else do {
        v \<leftarrow> probe_read_user env 2 pointer;
        case v of
          Some bytes \<Rightarrow> State_Monad.return (discovery_version_class (bytes ! 0) (bytes ! 1))
        | None \<Rightarrow> do {
            bump_discovery_counter DISCOVERY_COUNTER_EXPORT_BOUNDED_READ_FAILURES;
            State_Monad.return DISCOVERY_VERSION_UNREADABLE } })"

definition selection_request_word :: "u8 \<Rightarrow> u8 \<Rightarrow> u64" where
  "selection_request_word name_cls version_cls = ucast name_cls OR push_bit 8 (ucast version_cls)"

section \<open>Function-list and interface-list handlers\<close>

definition function_list_entry_impl :: "kenv \<Rightarrow> pctx \<Rightarrow> unit k" where
  "function_list_entry_impl env ctx = do {
     scope \<leftarrow> scope_auth env ctx;
     case scope of
       None \<Rightarrow> State_Monad.return ()
     | Some _ \<Rightarrow>
         (case probe_layout ctx of
            None \<Rightarrow> do { discard_if_keyed env (export_state_key ctx); bump_evidence EVIDENCE_ABI_REFUSALS }
          | Some l \<Rightarrow> do {
              a0 \<leftarrow> arg_u64 env ctx 0 l;
              case a0 of
                None \<Rightarrow> do {
                  discard_if_keyed env (export_state_key ctx);
                  bump_discovery_counter DISCOVERY_COUNTER_EXPORT_BOUNDED_READ_FAILURES }
              | Some arg0 \<Rightarrow>
                  insert_export_state env ctx \<lparr>ss_arg0 = arg0, ss_arg1 = 0, ss_arg2 = 0\<rparr> }) }"

definition function_list_entry :: "kenv \<Rightarrow> pctx \<Rightarrow> unit k" where
  "function_list_entry env ctx = guarded env (function_list_entry_impl env ctx)"

definition function_list_return_impl :: "kenv \<Rightarrow> pctx \<Rightarrow> unit k" where
  "function_list_return_impl env ctx = do {
     scope \<leftarrow> scope_auth env ctx;
     case scope of
       None \<Rightarrow> do { _ \<leftarrow> take_export_state env ctx False; State_Monad.return () }
     | Some sc \<Rightarrow>
         (case probe_layout ctx of
            None \<Rightarrow> do { discard_if_keyed env (export_state_key ctx); bump_evidence EVIDENCE_ABI_REFUSALS }
          | Some l \<Rightarrow> do {
              taken \<leftarrow> take_export_state env ctx True;
              case taken of
                None \<Rightarrow> State_Monad.return ()
              | Some (key, st) \<Rightarrow>
                  if normalize_target_word (ret_value ctx) l \<noteq> 0 then State_Monad.return ()
                  else (case export_symbol_id (sk_attach_cookie key) of
                          None \<Rightarrow> bump_discovery_counter DISCOVERY_COUNTER_EXPORT_STATE_FAILURES
                        | Some symbol \<Rightarrow>
                            classify_export env ctx
                              \<lparr>ea_kind = DISCOVERY_KIND_FUNCTION_LIST_RETURN, ea_interface_index = 0,
                               ea_symbol_id = symbol, ea_announced_count = 0,
                               ea_address = ss_arg0 st\<rparr> sc l) }) }"

definition function_list_return :: "kenv \<Rightarrow> pctx \<Rightarrow> unit k" where
  "function_list_return env ctx = guarded env (function_list_return_impl env ctx)"

definition interface_list_entry_impl :: "kenv \<Rightarrow> pctx \<Rightarrow> unit k" where
  "interface_list_entry_impl env ctx = do {
     scope \<leftarrow> scope_auth env ctx;
     case scope of
       None \<Rightarrow> State_Monad.return ()
     | Some _ \<Rightarrow>
         (case probe_layout ctx of
            None \<Rightarrow> do { discard_if_keyed env (export_state_key ctx); bump_evidence EVIDENCE_ABI_REFUSALS }
          | Some l \<Rightarrow> do {
              a0 \<leftarrow> arg_u64 env ctx 0 l;
              a1 \<leftarrow> arg_u64 env ctx 1 l;
              case (a0, a1) of
                (Some arg0, Some arg1) \<Rightarrow>
                  insert_export_state env ctx \<lparr>ss_arg0 = arg0, ss_arg1 = arg1, ss_arg2 = 0\<rparr>
              | _ \<Rightarrow> do {
                  discard_if_keyed env (export_state_key ctx);
                  bump_discovery_counter DISCOVERY_COUNTER_EXPORT_BOUNDED_READ_FAILURES } }) }"

definition interface_list_entry :: "kenv \<Rightarrow> pctx \<Rightarrow> unit k" where
  "interface_list_entry env ctx = guarded env (interface_list_entry_impl env ctx)"

definition interface_span_fits :: "kenv \<Rightarrow> u64 \<Rightarrow> u64 \<Rightarrow> LinuxLayout \<Rightarrow> bool" where
  "interface_span_fits env base last_offset l \<longleftrightarrow>
     Option.bind (checked_add base last_offset) (\<lambda>address.
       Option.bind (checked_add address (interface_stride env l - word_bytes env l))
         (\<lambda>address'. target_word_end address' l)) \<noteq> None"

definition continuation_key :: "u64 \<Rightarrow> StateKey" where
  "continuation_key cur = \<lparr>sk_pid_tgid = cur, sk_attach_cookie = 0, sk_domain = STATE_DOMAIN_EXPORT\<rparr>"

text \<open>One segment of the worker. The result says whether it reached its tail call.\<close>

definition interface_list_segment :: "kenv \<Rightarrow> pctx \<Rightarrow> bool k" where
  "interface_list_segment env ctx = (let key = continuation_key (cur_pid_tgid ctx) in do {
     scope \<leftarrow> scope_auth env ctx;
     case scope of
       None \<Rightarrow> do { _ \<leftarrow> owned_discovery_remove env key; State_Monad.return False }
     | Some sc \<Rightarrow>
     (case probe_layout ctx of
        None \<Rightarrow> do { _ \<leftarrow> owned_discovery_remove env key; bump_evidence EVIDENCE_ABI_REFUSALS;
                    State_Monad.return False }
      | Some l \<Rightarrow> do {
     found \<leftarrow> owned_discovery_get env key;
     case found of
       None \<Rightarrow> do { fail_export_state env key; State_Monad.return False }
     | Some st \<Rightarrow>
     if ss_arg0 st = 0 then do { fail_export_state env key; State_Monad.return False }
     else (case interface_continuation_unpack (ss_arg1 st) of
        None \<Rightarrow> do { fail_export_state env key; State_Monad.return False }
      | Some (count, index, symbol) \<Rightarrow>
     (let active = ucast (interface_active_count count) :: u64 in
      if active = 0 then do { fail_export_state env key; State_Monad.return False }
      else (case checked_mul (active - 1) (interface_stride env l) of
        None \<Rightarrow> do { fail_export_state env key; State_Monad.return False }
      | Some last_offset \<Rightarrow>
     if \<not> interface_span_fits env (ss_arg0 st) last_offset l
     then do { fail_export_state env key; State_Monad.return False }
     else (case Option.bind (checked_mul (ucast index) (interface_stride env l))
                  (\<lambda>offset. checked_add (ss_arg0 st) offset) of
        None \<Rightarrow> do { fail_export_state env key; State_Monad.return False }
      | Some address \<Rightarrow> do {
          classify_direct_interface env ctx
            (ucast DISCOVERY_KIND_INTERFACE_LIST_ELEMENT_RETURN OR push_bit 8 (ucast index)
             OR push_bit 32 (ucast symbol)) count address sc (no_selection env l);
          case interface_continuation_next (ss_arg1 st) of
            None \<Rightarrow> do { finish_export_state env key; State_Monad.return False }
          | Some next \<Rightarrow> do {
              ok \<leftarrow> owned_discovery_insert env key
                     \<lparr>ss_arg0 = ss_arg0 st, ss_arg1 = next, ss_arg2 = 0\<rparr> True;
              if \<not> ok then do { fail_export_state env key; State_Monad.return False }
              else State_Monad.return True } })))) }) })"

text \<open>The worker tail-calls itself with the gate admission carried. \<open>budget\<close> is the
  number of tail calls the kernel still grants; a refused tail call falls
  through to the failure path, and every chain ends in exactly one leave.\<close>

fun interface_list_worker :: "kenv \<Rightarrow> pctx \<Rightarrow> nat \<Rightarrow> unit k" where
  "interface_list_worker env ctx budget = do {
     more \<leftarrow> interface_list_segment env ctx;
     if \<not> more then stop_gate_leave env
     else do {
       granted \<leftarrow> ask (tail_call_ok env);
       (case budget of
          0 \<Rightarrow> do { fail_export_state env (continuation_key (cur_pid_tgid ctx)); stop_gate_leave env }
        | Suc rest \<Rightarrow>
            if granted then interface_list_worker env ctx rest
            else do { fail_export_state env (continuation_key (cur_pid_tgid ctx));
                      stop_gate_leave env }) } }"

declare interface_list_worker.simps [simp del]

abbreviation (input) MAX_TAIL_CALL_CNT :: nat where "MAX_TAIL_CALL_CNT \<equiv> 33"

text \<open>The return probe up to its tail call; the result is whether it got there.\<close>

definition interface_list_return_impl :: "kenv \<Rightarrow> pctx \<Rightarrow> bool k" where
  "interface_list_return_impl env ctx = do {
     scope \<leftarrow> scope_auth env ctx;
     case scope of
       None \<Rightarrow> do { _ \<leftarrow> take_export_state env ctx False; State_Monad.return False }
     | Some sc \<Rightarrow>
     (case probe_layout ctx of
        None \<Rightarrow> do { discard_if_keyed env (export_state_key ctx); bump_evidence EVIDENCE_ABI_REFUSALS;
                    State_Monad.return False }
      | Some l \<Rightarrow> do {
     taken \<leftarrow> take_export_state env ctx True;
     case taken of
       None \<Rightarrow> State_Monad.return False
     | Some (entry_key, st) \<Rightarrow>
     if normalize_target_word (ret_value ctx) l \<noteq> 0 then State_Monad.return False
     else do {
     w \<leftarrow> kread_word env (ss_arg1 st) l;
     case w of
       None \<Rightarrow> do { bump_discovery_counter DISCOVERY_COUNTER_EXPORT_BOUNDED_READ_FAILURES;
                   State_Monad.return False }
     | Some count \<Rightarrow>
     (let active = min count (ucast DISCOVERY_INTERFACES) in
      if active = 0 \<or> ss_arg0 st = 0 then State_Monad.return False
      else if \<not> interface_span_fits env (ss_arg0 st) ((active - 1) * interface_stride env l) l
      then do { bump_discovery_counter DISCOVERY_COUNTER_EXPORT_BOUNDED_READ_FAILURES;
                State_Monad.return False }
      else (case Option.bind (export_symbol_id (sk_attach_cookie entry_key))
                   (\<lambda>symbol. interface_continuation_pack count 0 symbol) of
        None \<Rightarrow> do { bump_discovery_counter DISCOVERY_COUNTER_EXPORT_STATE_FAILURES;
                    State_Monad.return False }
      | Some packed \<Rightarrow> do {
          ok \<leftarrow> owned_discovery_insert env (continuation_key (sk_pid_tgid entry_key))
                 \<lparr>ss_arg0 = ss_arg0 st, ss_arg1 = packed, ss_arg2 = 0\<rparr> False;
          if ok then State_Monad.return True
          else do { bump_discovery_counter DISCOVERY_COUNTER_EXPORT_STATE_FAILURES;
                    State_Monad.return False } })) } }) }"

definition interface_list_return :: "kenv \<Rightarrow> pctx \<Rightarrow> unit k" where
  "interface_list_return env ctx = do {
     admitted \<leftarrow> stop_gate_enter env;
     if \<not> admitted then State_Monad.return ()
     else do {
       continues \<leftarrow> interface_list_return_impl env ctx;
       if \<not> continues then stop_gate_leave env
       else do {
         granted \<leftarrow> ask (tail_call_ok env);
         if granted then interface_list_worker env ctx (MAX_TAIL_CALL_CNT - 1)
         else do { fail_export_state env (continuation_key (cur_pid_tgid ctx));
                   stop_gate_leave env } } } }"

section \<open>Interface selection handlers\<close>

definition interface_entry_impl :: "kenv \<Rightarrow> pctx \<Rightarrow> unit k" where
  "interface_entry_impl env ctx = do {
     scope \<leftarrow> scope_auth env ctx;
     case scope of
       None \<Rightarrow> State_Monad.return ()
     | Some sc \<Rightarrow>
         (case probe_layout ctx of
            None \<Rightarrow> do { discard_if_keyed env (selection_state_key ctx); bump_evidence EVIDENCE_ABI_REFUSALS }
          | Some l \<Rightarrow>
              if sa_flags sc AND FLAG_POLICY_AGGREGATE \<noteq> 0 then State_Monad.return ()
              else do {
                a0 \<leftarrow> arg_u64 env ctx 0 l;
                a1 \<leftarrow> arg_u64 env ctx 1 l;
                a2 \<leftarrow> arg_u64 env ctx 2 l;
                a3 \<leftarrow> arg_u64 env ctx 3 l;
                case (a0, a1, a2, a3) of
                  (Some name, Some version, Some pp_interface, Some flags) \<Rightarrow> do {
                    name_cls \<leftarrow> classify_selection_name env name;
                    version_cls \<leftarrow> classify_selection_version env version;
                    insert_selection_state env ctx
                      \<lparr>ss_arg0 = pp_interface, ss_arg1 = selection_request_word name_cls version_cls,
                       ss_arg2 = flags\<rparr> }
                | _ \<Rightarrow> do {
                    discard_if_keyed env (selection_state_key ctx);
                    bump_discovery_counter DISCOVERY_COUNTER_EXPORT_BOUNDED_READ_FAILURES } }) }"

definition interface_entry :: "kenv \<Rightarrow> pctx \<Rightarrow> unit k" where
  "interface_entry env ctx = guarded env (interface_entry_impl env ctx)"

definition interface_return_impl :: "kenv \<Rightarrow> pctx \<Rightarrow> unit k" where
  "interface_return_impl env ctx = do {
     scope \<leftarrow> scope_auth env ctx;
     case scope of
       None \<Rightarrow> do { _ \<leftarrow> take_selection_state env ctx False; State_Monad.return () }
     | Some sc \<Rightarrow>
         (case probe_layout ctx of
            None \<Rightarrow> do { discard_if_keyed env (selection_state_key ctx); bump_evidence EVIDENCE_ABI_REFUSALS }
          | Some l \<Rightarrow>
              if sa_flags sc AND FLAG_POLICY_AGGREGATE \<noteq> 0 then State_Monad.return ()
              else do {
                taken \<leftarrow> take_selection_state env ctx True;
                case taken of
                  None \<Rightarrow> State_Monad.return ()
                | Some (key, st) \<Rightarrow>
                    (let rv = normalize_target_word (ret_value ctx) l;
                         selection = \<lparr>st_request_flags = ss_arg2 st, st_binding_id = sk_attach_cookie key,
                           st_return_rv = rv, st_request_name_class = ucast (ss_arg1 st),
                           st_request_version_class = ucast (drop_bit 8 (ss_arg1 st)),
                           st_pause_eligible = (rv = 0), st_word_bytes = ucast (word_bytes env l)\<rparr> in
                     if rv \<noteq> 0
                     then emit_export env ctx
                            \<lparr>ep_record_meta = ucast DISCOVERY_KIND_INTERFACE_RETURN,
                             ep_announced_count = 0, ep_table_ptr = 0, ep_interface_flags = 0,
                             ep_selection = selection\<rparr> sc
                     else classify_indirect_interface env ctx (ucast DISCOVERY_KIND_INTERFACE_RETURN) 0
                            (ss_arg0 st) sc selection) }) }"

definition interface_return :: "kenv \<Rightarrow> pctx \<Rightarrow> unit k" where
  "interface_return env ctx = guarded env (interface_return_impl env ctx)"

section \<open>Loader handler\<close>

definition loader_runtime_ip :: "pctx \<Rightarrow> u64" where
  "loader_runtime_ip ctx = (if func_ip ctx \<noteq> 0 then func_ip ctx else regs_rip ctx)"

definition loader_state_address :: "u64 \<Rightarrow> u64 \<Rightarrow> LinuxLayout \<Rightarrow> u64 option" where
  "loader_state_address cookie hook_ip l =
     (let delta = drop_bit 9 (sint cookie);
          address = (if delta \<ge> 0 then checked_add hook_ip (of_int delta)
                     else if of_int (- delta) \<le> hook_ip then Some (hook_ip - of_int (- delta)) else None)
      in Option.bind address (\<lambda>a.
           if l = Lp64 \<or> (case checked_add a 3 of None \<Rightarrow> False | Some e \<Rightarrow> e \<le> 0xFFFFFFFF)
           then Some a else None))"

definition emit_loader_legacy_record :: "kenv \<Rightarrow> pctx \<Rightarrow> ScopeAuth \<Rightarrow> LinuxLayout \<Rightarrow> u64 \<Rightarrow> unit k" where
  "emit_loader_legacy_record env ctx scope l cookie = do {
     entry \<leftarrow> reserve_discovery env;
     case entry of
       None \<Rightarrow> State_Monad.return ()
     | Some raw \<Rightarrow>
         if \<not> valid_loader_cookie cookie
         then finish_discovery_record env (raw\<lparr>kind := DISCOVERY_KIND_LOADER\<rparr>) scope False
                (cur_pid_tgid ctx) DISCOVERY_STATUS_LOADER_CONTEXT_INVALID
         else (let hook_ip = normalize_target_word (loader_runtime_ip ctx) l in
           if hook_ip = 0
           then bump_discovery_counter DISCOVERY_COUNTER_LOADER_STATE_READ_FAILURES
           else do {
             r_state \<leftarrow>
               (if cookie AND LOADER_STATE_PRESENT \<noteq> 0 then
                  (case loader_state_address cookie hook_ip l of
                     Some address \<Rightarrow> do {
                       b \<leftarrow> probe_read_user env 4 address;
                       case b of
                         Some bs \<Rightarrow> State_Monad.return (from_le bs :: u32)
                       | None \<Rightarrow> do {
                           bump_discovery_counter DISCOVERY_COUNTER_LOADER_STATE_READ_FAILURES;
                           State_Monad.return 0 } }
                   | None \<Rightarrow> do {
                       bump_discovery_counter DISCOVERY_COUNTER_LOADER_STATE_READ_FAILURES;
                       State_Monad.return 0 })
                else State_Monad.return 0);
             finish_discovery_record env
               (raw\<lparr>table_ptr := hook_ip, kind := DISCOVERY_KIND_LOADER,
                    case_id := ucast (cookie AND 0xff), binding_id := cookie,
                    announced_count := r_state\<rparr>)
               scope True (cur_pid_tgid ctx) 0 }) }"

definition emit_loader_token_record :: "kenv \<Rightarrow> pctx \<Rightarrow> ScopeAuth \<Rightarrow> LinuxLayout \<Rightarrow> u64 \<Rightarrow> unit k" where
  "emit_loader_token_record env ctx scope l cookie = do {
     let slot = ucast (cookie AND 0xff);
     let generation = drop_bit 8 cookie;
     (status, publish) \<leftarrow>
       (if valid_loader_token cookie then do {
          resolved \<leftarrow> ask (\<lambda>t. gate_hit env t slot generation);
          State_Monad.return
            (if resolved \<ge> 0 then (0, True)
             else if resolved = - 2 then (DISCOVERY_STATUS_LOADER_ACK_PENDING, True)
             else (DISCOVERY_STATUS_LOADER_CONTEXT_INVALID, False)) }
        else State_Monad.return (DISCOVERY_STATUS_LOADER_CONTEXT_INVALID, False));
     if \<not> publish then do {
       entry \<leftarrow> reserve_discovery env;
       case entry of
         None \<Rightarrow> State_Monad.return ()
       | Some raw \<Rightarrow>
           finish_discovery_record env (raw\<lparr>kind := DISCOVERY_KIND_LOADER\<rparr>) scope False
             (cur_pid_tgid ctx) DISCOVERY_STATUS_LOADER_CONTEXT_INVALID }
     else (let hook_ip = normalize_target_word (loader_runtime_ip ctx) l in
       if hook_ip = 0 then bump_discovery_counter DISCOVERY_COUNTER_LOADER_STATE_READ_FAILURES
       else do {
         entry \<leftarrow> reserve_discovery env;
         case entry of
           None \<Rightarrow> State_Monad.return ()
         | Some raw \<Rightarrow>
             finish_discovery_record env
               (raw\<lparr>table_ptr := hook_ip, kind := DISCOVERY_KIND_LOADER,
                    case_id := ucast slot, binding_id := cookie, announced_count := 0\<rparr>)
               scope True (cur_pid_tgid ctx) status }) }"

definition dl_debug_state_impl :: "kenv \<Rightarrow> pctx \<Rightarrow> unit k" where
  "dl_debug_state_impl env ctx = do {
     scope \<leftarrow> scope_auth env ctx;
     case scope of
       None \<Rightarrow> State_Monad.return ()
     | Some sc \<Rightarrow>
         (case probe_layout ctx of
            None \<Rightarrow> bump_evidence EVIDENCE_ABI_REFUSALS
          | Some l \<Rightarrow> do {
              bump_discovery_counter DISCOVERY_COUNTER_LOADER_HITS;
              latched \<leftarrow> (if loader_gate (feat env) \<and> \<not> inventory_only (feat env)
                         then ask (gate_latched env) else State_Monad.return False);
              if latched then emit_loader_token_record env ctx sc l (cookie_of ctx)
              else emit_loader_legacy_record env ctx sc l (cookie_of ctx) }) }"

definition dl_debug_state :: "kenv \<Rightarrow> pctx \<Rightarrow> unit k" where
  "dl_debug_state env ctx = guarded env (dl_debug_state_impl env ctx)"

section \<open>Lifecycle handlers\<close>

definition exit_map_status :: "u64 \<Rightarrow> u8" where
  "exit_map_status flags =
     (if flags AND 0x4 \<noteq> 0 then DISCOVERY_STATUS_EXIT_MAP_SHARED_MM else 0)
     OR (if flags AND 0x8 \<noteq> 0 then DISCOVERY_STATUS_EXIT_MAP_OVERFLOW else 0)
     OR (if flags AND 0x10 \<noteq> 0 then DISCOVERY_STATUS_EXIT_MAP_LOCAL_FAULT else 0)"

definition emit_lifecycle :: "kenv \<Rightarrow> pctx \<Rightarrow> u8 \<Rightarrow> u8 \<Rightarrow> ScopeAuth \<Rightarrow> bool \<Rightarrow> unit k" where
  "emit_lifecycle env ctx knd cls scope pause_eligible = do {
     entry \<leftarrow> reserve_discovery env;
     case entry of
       None \<Rightarrow> State_Monad.return ()
     | Some raw \<Rightarrow> do {
         let detailed = (\<not> inventory_only (feat env));
         let armed = (inventory_callers (feat env)
                \<or> detailed \<and> sa_flags scope AND FLAG_TRACK_SHORT_LIVED \<noteq> 0
                   \<and> sa_flags scope AND FLAG_POLICY_AGGREGATE = 0);
         ticket \<leftarrow>
           (if (detailed \<or> inventory_callers (feat env)) \<and> knd = DISCOVERY_KIND_EXEC
               \<and> sa_flags scope AND FLAG_PID_FILTER = 0 \<and> armed
            then ask (link_current_cookie env) else State_Monad.return 0);
         identity \<leftarrow>
           (if knd = DISCOVERY_KIND_EXEC \<and> sa_flags scope AND FLAG_TRACK_SHORT_LIVED \<noteq> 0
            then ask (exe_identity env) else State_Monad.return None);
         let ps = (case identity of Some (dev, ino) \<Rightarrow> (pointers raw)[0 := dev, 1 := ino]
                                  | None \<Rightarrow> pointers raw);
         (ps', status) \<leftarrow>
           (if detailed \<and> knd = DISCOVERY_KIND_LEADER_EXIT_MAPPINGS then do {
              (cells, flags) \<leftarrow> ask (exit_summary env);
              State_Monad.return (map cells [0..<RECORD_SLOTS] @ drop RECORD_SLOTS ps, exit_map_status flags) }
            else State_Monad.return (ps, 0));
         finish_discovery_record env
           (raw\<lparr>kind := knd, case_id := cls, binding_id := ticket, pointers := ps'\<rparr>)
           scope pause_eligible (cur_pid_tgid ctx) status } }"

definition owner_cleanup :: "kenv \<Rightarrow> unit k" where
  "owner_cleanup env = do {
     drops \<leftarrow> ask (cleanup_drops env);
     State (\<lambda>s. ((), s\<lparr>starts := (\<lambda>key. if drops key then None else starts s key)\<rparr>)) }"

definition sched_process_exec_impl :: "kenv \<Rightarrow> pctx \<Rightarrow> unit k" where
  "sched_process_exec_impl env ctx = do {
     owner_cleanup env;
     scope \<leftarrow> scope_auth env ctx;
     case scope of
       None \<Rightarrow> State_Monad.return ()
     | Some sc \<Rightarrow>
         (let cls = classify_exec_task (raw_old_pid ctx) (cur_pid_tgid ctx) 1 in do {
            cls' \<leftarrow> (if cls = DISCOVERY_EXEC_SAME_TASK_CANDIDATE
                    then do { dumpable \<leftarrow> ask (exec_dumpability env);
                              State_Monad.return
                                (classify_exec_task (raw_old_pid ctx) (cur_pid_tgid ctx) dumpable) }
                    else State_Monad.return cls);
            emit_lifecycle env ctx DISCOVERY_KIND_EXEC cls' sc True }) }"

definition sched_process_exec :: "kenv \<Rightarrow> pctx \<Rightarrow> unit k" where
  "sched_process_exec env ctx = guarded env (sched_process_exec_impl env ctx)"

definition sched_process_exit_impl :: "kenv \<Rightarrow> pctx \<Rightarrow> unit k" where
  "sched_process_exit_impl env ctx = do {
     owner_cleanup env;
     if (ucast (cur_pid_tgid ctx) :: u32) \<noteq> ucast (drop_bit 32 (cur_pid_tgid ctx))
     then State_Monad.return ()
     else do {
       scope \<leftarrow> scope_auth env ctx;
       case scope of
         None \<Rightarrow> State_Monad.return ()
       | Some sc \<Rightarrow>
           emit_lifecycle env ctx
             (if \<not> inventory_only (feat env) \<and> sa_flags sc AND FLAG_TRACK_SHORT_LIVED \<noteq> 0
              then DISCOVERY_KIND_LEADER_EXIT_MAPPINGS else DISCOVERY_KIND_LEADER_EXIT)
             DISCOVERY_EXEC_UNKNOWN sc False } }"

definition sched_process_exit :: "kenv \<Rightarrow> pctx \<Rightarrow> unit k" where
  "sched_process_exit env ctx = guarded env (sched_process_exit_impl env ctx)"

section \<open>Specification vocabulary\<close>

text \<open>What the kernel documents about the answers the handlers publish: the
  signal helper returns a 32-bit errno or zero, an image ticket is below its
  limit, and an exit summary names watched files only.\<close>

definition kernel_ok :: "kenv \<Rightarrow> bool" where
  "kernel_ok env \<longleftrightarrow>
     (\<forall>t. - (2 ^ 31) \<le> send_signal env t \<and> send_signal env t < 2 ^ 31)
     \<and> (\<forall>t. link_current_cookie env t \<le> IMAGE_IDENTITY_TICKET_LIMIT)
     \<and> (\<forall>t i. fst (exit_summary env t) i \<le> ucast FILE_SLOTS)"

text \<open>Loader records are the one kind whose payload the producer does not bound:
  a runtime state above 2 read from the target, and in loader-gate builds an
  acknowledgement-pending hit that coalesces with a pause.\<close>

definition loader_drift :: "DiscoveryRecord \<Rightarrow> bool" where
  "loader_drift r \<longleftrightarrow>
     kind r = DISCOVERY_KIND_LOADER
     \<and> (announced_count r > 2 \<and> valid_discovery_record (r\<lparr>announced_count := 0\<rparr>)
        \<or> status_flags r = DISCOVERY_STATUS_LOADER_ACK_PENDING OR DISCOVERY_STATUS_COALESCED_NO_HELPER
          \<and> valid_discovery_record
              (r\<lparr>status_flags := DISCOVERY_STATUS_LOADER_ACK_PENDING, send_signal_rc := 0\<rparr>))"

definition publishable :: "DiscoveryRecord \<Rightarrow> bool" where
  "publishable r \<longleftrightarrow> valid_discovery_record r \<or> loader_drift r"

text \<open>Selection rows hold the finite request classes.\<close>

definition start_ok :: "StateKey \<Rightarrow> StartState \<Rightarrow> bool" where
  "start_ok key st \<longleftrightarrow>
     (sk_domain key = STATE_DOMAIN_SELECTION \<longrightarrow>
        finite_name_class (ucast (ss_arg1 st))
        \<and> (ucast (drop_bit 8 (ss_arg1 st)) :: u8) \<le> DISCOVERY_VERSION_OTHER)"

definition discovery_inv :: "kstate \<Rightarrow> bool" where
  "discovery_inv s \<longleftrightarrow>
     list_all publishable (ring s)
     \<and> (\<forall>key st. starts s key = Some st \<longrightarrow> start_ok key st)"

definition export_meta :: "u8 \<Rightarrow> u8 \<Rightarrow> u8 \<Rightarrow> bool \<Rightarrow> bool \<Rightarrow> u32 \<Rightarrow> u64" where
  "export_meta k i n rf iu s =
     ucast k OR push_bit 8 (ucast i) OR push_bit 16 (ucast n) OR push_bit 24 (of_bool rf)
     OR push_bit 25 (of_bool iu) OR push_bit 32 (ucast s)"

text \<open>What a caller of \<^verbatim>\<open>emit_export\<close> guarantees about its payload, per record kind,
  and what the version read then yields.\<close>

definition export_ok :: "u8 \<Rightarrow> u8 \<Rightarrow> u8 \<Rightarrow> bool \<Rightarrow> bool \<Rightarrow> u32 \<Rightarrow> ExportPayload \<Rightarrow> bool" where
  "export_ok k i n rf iu s p \<longleftrightarrow>
     (let sel = ep_selection p in
      ep_record_meta p = export_meta k i n rf iu s \<and> ep_interface_flags p \<le> 2 \<and> (iu \<longrightarrow> rf)
      \<and> (if k = DISCOVERY_KIND_FUNCTION_LIST_RETURN
         then st_binding_id sel = 0 \<and> st_return_rv sel = 0 \<and> i = 0 \<and> n = 0 \<and> s \<noteq> 0
              \<and> ep_announced_count p = 0 \<and> ep_interface_flags p = 0 \<and> (ep_table_ptr p \<noteq> 0 \<or> rf)
         else if k = DISCOVERY_KIND_INTERFACE_LIST_ELEMENT_RETURN
         then st_binding_id sel = 0 \<and> st_return_rv sel = 0 \<and> i < DISCOVERY_INTERFACES
              \<and> ep_announced_count p > ucast i \<and> finite_name_class n \<and> s \<noteq> 0
         else k = DISCOVERY_KIND_INTERFACE_RETURN \<and> st_binding_id sel \<noteq> 0 \<and> s = 0
              \<and> ep_announced_count p = 0 \<and> finite_name_class (st_request_name_class sel)
              \<and> st_request_version_class sel \<le> DISCOVERY_VERSION_OTHER
              \<and> st_pause_eligible sel = (st_return_rv sel = 0)
              \<and> (if st_return_rv sel \<noteq> 0
                 then ep_table_ptr p = 0 \<and> ep_interface_flags p = 0 \<and> n = 0
                 else finite_name_class n \<and> (n = DISCOVERY_NAME_UNREADABLE \<longrightarrow> rf))))"

definition version_facts :: "ExportPayload \<Rightarrow> u8 \<Rightarrow> u8 \<Rightarrow> bool \<Rightarrow> u8 \<times> u8 \<times> u8 \<times> u8 \<times> bool \<Rightarrow> bool" where
  "version_facts p k n rf = (\<lambda>(w, maj, mnr, vc, vf).
     (let sel = ep_selection p; selected = (st_binding_id sel \<noteq> 0); tabled = (n = 0 \<or> n = 1) in
      unat w \<le> 104 \<and> (k = 1 \<longrightarrow> unat w \<le> 68) \<and> (\<not> tabled \<or> st_return_rv sel \<noteq> 0 \<longrightarrow> w = 0)
      \<and> (selected \<or> \<not> tabled \<longrightarrow> maj = 0 \<and> mnr = 0) \<and> vc \<le> 6
      \<and> (if st_return_rv sel \<noteq> 0 then \<not> vf \<and> vc = 0
         else (rf \<longrightarrow> vf)
              \<and> (selected \<longrightarrow> (vc = 0 \<longrightarrow> vf \<and> ep_table_ptr p = 0) \<and> (vc = 1 \<longrightarrow> vf)
                   \<and> (vc > 1 \<longrightarrow> ep_table_ptr p \<noteq> 0)))))"

text \<open>The tail every submitted record shares: helper result and status agree.\<close>

definition finished :: "DiscoveryRecord \<Rightarrow> u64 \<Rightarrow> u64 \<Rightarrow> u8 \<Rightarrow> int \<Rightarrow> DiscoveryRecord" where
  "finished raw ts cur st rc =
     raw\<lparr>hook_ts_ns := ts, pid_tgid := cur, status_flags := st, send_signal_rc := rc\<rparr>"

definition helper_agrees :: "u8 \<Rightarrow> u8 \<Rightarrow> int \<Rightarrow> bool \<Rightarrow> bool" where
  "helper_agrees base st rc eligible \<longleftrightarrow>
     st = base \<and> as_i32 rc = rc \<and> rc \<noteq> COALESCED_NO_HELPER_RC \<and> (eligible \<or> rc = 0)
     \<or> st = base OR 2 \<and> rc = COALESCED_NO_HELPER_RC \<and> eligible"

section \<open>Runs\<close>

datatype probe =
    FunctionListEntry | FunctionListReturn | InterfaceListEntry | InterfaceListReturn
  | InterfaceEntry | InterfaceReturn | DlDebugState | SchedProcessExec | SchedProcessExit

fun run_probe :: "kenv \<Rightarrow> pctx \<Rightarrow> probe \<Rightarrow> unit k" where
  "run_probe env ctx FunctionListEntry = function_list_entry env ctx"
| "run_probe env ctx FunctionListReturn = function_list_return env ctx"
| "run_probe env ctx InterfaceListEntry = interface_list_entry env ctx"
| "run_probe env ctx InterfaceListReturn = interface_list_return env ctx"
| "run_probe env ctx InterfaceEntry = interface_entry env ctx"
| "run_probe env ctx InterfaceReturn = interface_return env ctx"
| "run_probe env ctx DlDebugState = dl_debug_state env ctx"
| "run_probe env ctx SchedProcessExec = sched_process_exec env ctx"
| "run_probe env ctx SchedProcessExit = sched_process_exit env ctx"

text \<open>The exec tracepoint fires in the thread-group leader.\<close>

definition fires_in :: "probe \<Rightarrow> pctx \<Rightarrow> bool" where
  "fires_in p ctx \<longleftrightarrow> (p = SchedProcessExec \<longrightarrow> valid_exec_leader (cur_pid_tgid ctx))"

definition kernel_start :: kstate where
  "kernel_start = \<lparr>ticks = 0, starts = (\<lambda>_. None), pauses = (\<lambda>_. None), ring = [],
     counters = (\<lambda>_. 0), evidence = (\<lambda>_. 0), stop_word = 0\<rparr>"

text \<open>A run interleaves whole probe firings with userspace writing a pause cell or
  the stop word. The environment of each firing is its own.\<close>

inductive probe_run :: "kstate \<Rightarrow> bool" where
  boot: "probe_run kernel_start"
| fire: "probe_run s \<Longrightarrow> kernel_ok env \<Longrightarrow> fires_in p ctx \<Longrightarrow>
    run_state (run_probe env ctx p) s = ((), s') \<Longrightarrow> probe_run s'"
| pause_cell: "probe_run s \<Longrightarrow> probe_run (s\<lparr>pauses := (pauses s)(key := v)\<rparr>)"
| gate_word: "probe_run s \<Longrightarrow> probe_run (s\<lparr>stop_word := w\<rparr>)"

end
