(* ===== verification/P11_Probe_Safety.thy ===== *)
theory P11_Probe_Safety
  imports P11_Probes
begin

text \<open>
  What the discovery probes may publish. The contract of the probe-side store
  is a locale; every handler is shown once, inside it, to keep any invariant
  of that contract. The interpretation on the model's own state gives: every
  record in the ring passes the userspace validator, up to the two loader
  drifts named by \<open>loader_drift\<close>.
\<close>

section \<open>Packing of the record metadata\<close>

lemma bit_field:
  fixes x :: "'a::len word"
  assumes "m + LENGTH('a) \<le> 64"
  shows "bit (push_bit m (ucast x) :: u64) j \<longleftrightarrow> m \<le> j \<and> bit x (j - m)"
proof -
  have "j < 64" if "m \<le> j" "bit x (j - m)"
    using bit_imp_le_length[OF that(2)] that(1) assms by linarith
  then show ?thesis using assms by (auto simp: bit_push_bit_iff bit_unsigned_iff)
qed

lemma bit_flag: "m < 64 \<Longrightarrow> bit (push_bit m (of_bool p) :: u64) j \<longleftrightarrow> j = m \<and> p"
  by (cases p) (auto simp: bit_exp_iff)

lemma export_meta_bit:
  "bit (export_meta k i n rf iu s) j \<longleftrightarrow>
     bit k j \<or> 8 \<le> j \<and> bit i (j - 8) \<or> 16 \<le> j \<and> bit n (j - 16)
     \<or> j = 24 \<and> rf \<or> j = 25 \<and> iu \<or> 32 \<le> j \<and> bit s (j - 32)"
  using bit_field[of 0 k j]
  by (simp add: export_meta_def bit_or_iff bit_flag bit_field)

lemma export_meta_decode:
  "ucast (export_meta k i n rf iu s) = k"
  "ucast (drop_bit 8 (export_meta k i n rf iu s)) = i"
  "ucast (drop_bit 16 (export_meta k i n rf iu s)) = n"
  "ucast (drop_bit 32 (export_meta k i n rf iu s)) = s"
  "drop_bit 24 (export_meta k i n rf iu s) AND 1 \<noteq> 0 \<longleftrightarrow> rf"
  "drop_bit 25 (export_meta k i n rf iu s) AND 1 \<noteq> 0 \<longleftrightarrow> iu"
proof -
  have one: "w AND 1 \<noteq> 0 \<longleftrightarrow> bit w 0" for w :: u64
    using and_exp_eq_0_iff_not_bit[of w 0] by simp
  show "drop_bit 24 (export_meta k i n rf iu s) AND 1 \<noteq> 0 \<longleftrightarrow> rf"
    "drop_bit 25 (export_meta k i n rf iu s) AND 1 \<noteq> 0 \<longleftrightarrow> iu"
    unfolding one by (simp_all add: bit_drop_bit_eq export_meta_bit bit_beyond)
qed (rule bit_word_eqI, simp add: bit_unsigned_iff bit_drop_bit_eq export_meta_bit bit_beyond)+

lemma export_meta_plain:
  "(ucast k OR push_bit 8 (ucast i) OR push_bit 32 (ucast s)) OR push_bit 24 (of_bool rf)
     = export_meta k i 0 rf False s"
  by (simp add: export_meta_def ac_simps)

lemma export_meta_named:
  "((ucast k OR push_bit 8 (ucast i) OR push_bit 32 (ucast s))
      AND NOT (0xff000000 OR 0x00ff0000 OR push_bit 25 1))
    OR push_bit 16 (ucast n) OR push_bit 24 (of_bool rf) OR push_bit 25 (of_bool iu)
   = export_meta k i n rf iu s" (is "(?x AND NOT ?m) OR _ = _")
proof -
  have m: "?m = push_bit 16 (mask 16)" by (simp add: mask_numeral)
  have "?x AND NOT (push_bit 16 (mask 16)) = ?x"
  proof (rule bit_word_eqI)
    fix j assume "j < LENGTH(64)"
    have "\<not> bit ?x j" if "16 \<le> j" "j < 32"
      using bit_field[of 0 k j] that by (simp add: bit_or_iff bit_field bit_beyond)
    moreover have "bit (push_bit 16 (mask 16) :: u64) j \<longleftrightarrow> 16 \<le> j \<and> j < 32"
      by (auto simp: bit_push_bit_iff bit_mask_iff)
    ultimately show "bit (?x AND NOT (push_bit 16 (mask 16))) j = bit ?x j"
      using \<open>j < LENGTH(64)\<close> by (auto simp: bit_and_iff bit_not_iff)
  qed
  then show ?thesis unfolding m by (simp add: export_meta_def ac_simps)
qed

section \<open>Export records are valid\<close>

lemma export_record_fields:
  fixes p :: ExportPayload and att cmp maj mnr vc st :: u8 and f :: bool and ps :: "u64 list"
    and ts cur :: u64 and rc :: int
  assumes "ep_record_meta p = export_meta k i n rf iu s"
  defines "r \<equiv> finished (export_record zero_record p (att, cmp, f, ps) maj mnr vc) ts cur st rc"
    and "sel \<equiv> ep_selection p"
  shows "table_ptr r = ep_table_ptr p" "interface_flags r = ep_interface_flags p" "pointers r = ps"
    "kind r = k" "name_class r = n" "symbol_id r = s" "announced_count r = ep_announced_count p"
    "usable_n r = cmp" "completed_prefix r = cmp" "pointers_attempted r = att"
    "version_major r = maj" "version_minor r = mnr" "status_flags r = st" "send_signal_rc r = rc"
    "reserved_zero r = [0]" "reserved_tail_zero r = [0, 0, 0, 0]"
    "case_id r = (if st_binding_id sel \<noteq> 0 then st_request_name_class sel else 0)"
    "interface_index r = (if st_binding_id sel \<noteq> 0 then st_request_version_class sel else i)"
    "return_rv r = (if st_binding_id sel \<noteq> 0 then st_return_rv sel else 0)"
    "request_flags r = (if st_binding_id sel \<noteq> 0 then st_request_flags sel else 0)"
    "binding_id r = st_binding_id sel"
    "selection_version_class r = (if st_binding_id sel \<noteq> 0 then vc else 0)"
  using assms(1) export_meta_decode[of k i n rf iu s]
  by (simp_all add: r_def sel_def finished_def export_record_def zero_record_def
      discovery_usable_prefix_def Let_def)

lemma above_one: "w \<noteq> 0 \<Longrightarrow> w \<noteq> 1 \<Longrightarrow> w > (1 :: 'a::len word)"
proof -
  assume "w \<noteq> 0" "w \<noteq> 1"
  moreover from this have "unat w \<noteq> 0" "unat w \<noteq> 1" by (metis unat_eq_0, metis word_unat_eq_iff unsigned_1)
  ultimately show ?thesis by (simp add: word_less_nat_alt)
qed

lemma export_record_valid:
  assumes ok: "export_ok k i n rf iu s p"
    and v: "version_facts p k n rf (w, maj, mnr, vc, vf)"
    and walk: "unat att \<le> min 104 (unat w)" "cmp \<le> att" "vf \<longrightarrow> f" "all_zero (drop (unat cmp) ps)"
    and none: "w = 0 \<longrightarrow> f = vf"
    and fin: "helper_agrees (if f then 1 else 0) st rc (st_pause_eligible (ep_selection p))"
  shows "valid_discovery_record (finished (export_record zero_record p (att, cmp, f, ps) maj mnr vc) ts cur st rc)"
    (is "valid_discovery_record ?r")
proof -
  have meta: "ep_record_meta p = export_meta k i n rf iu s"
    using ok by (simp add: export_ok_def Let_def)
  note fields = export_record_fields[OF meta, of att cmp f ps maj mnr vc ts cur st rc]
  have st: "st \<le> 3" "(st AND 1 \<noteq> 0) = f" "(st AND 2 \<noteq> 0) = (rc = COALESCED_NO_HELPER_RC)"
    using fin by (auto simp: helper_agrees_def split: if_splits)
  have rc: "rc = COALESCED_NO_HELPER_RC \<or> rc = as_i32 rc" using fin by (auto simp: helper_agrees_def)
  have none0: "att = 0 \<and> cmp = 0" if "w = 0"
    using that walk(1,2) by (auto simp: word_le_nat_alt unat_eq_0)
  have iflags: "\<not> ep_interface_flags p > 2" using ok by (simp add: export_ok_def Let_def not_less)
  have arm: "valid_discovery_record ?r" if
    "k = 1 \<and> valid_function_list_record ?r \<or> k = 2 \<and> valid_interface_element_record ?r
     \<or> k = 4 \<and> valid_interface_return_record ?r"
    unfolding valid_discovery_record_def fields using that iflags st rc by auto
  consider (fl) "k = 1" | (el) "k = 2" | (ir) "k = 4"
    using ok by (cases "k = 1"; cases "k = 2") (simp_all add: export_ok_def Let_def)
  then show ?thesis
  proof cases
    case fl
    have "st_binding_id (ep_selection p) = 0" "i = 0" "n = 0" "s \<noteq> 0" "ep_announced_count p = 0"
      "ep_interface_flags p = 0" "ep_table_ptr p \<noteq> 0 \<or> rf" "st_return_rv (ep_selection p) = 0"
      using ok fl by (simp_all add: export_ok_def Let_def)
    moreover from this have "rf \<longrightarrow> f" "unat att \<le> 68"
      using v walk fl by (auto simp: version_facts_def)
    ultimately have "valid_function_list_record ?r"
      unfolding valid_function_list_record_def valid_export_prefix_def zero_selection_payload_def fields
      using fl st walk by auto
    with fl show ?thesis by (intro arm) simp
  next
    case el
    have "st_binding_id (ep_selection p) = 0" "i < 16" "ep_announced_count p > ucast i"
      "finite_name_class n" "s \<noteq> 0" "st_return_rv (ep_selection p) = 0"
      using ok el by (simp_all add: export_ok_def Let_def)
    moreover from this have "unat att \<le> 104" "n \<noteq> 1 \<Longrightarrow> w = 0 \<and> maj = 0 \<and> mnr = 0"
      using v walk by (auto simp: version_facts_def finite_name_class_def)
    ultimately have "valid_interface_element_record ?r"
      unfolding valid_interface_element_record_def valid_export_prefix_def zero_selection_payload_def fields
      using el st walk none0 by auto
    with el show ?thesis by (intro arm) simp
  next
    case ir
    then have ok4: "st_binding_id (ep_selection p) \<noteq> 0" "s = 0" "ep_announced_count p = 0"
      "finite_name_class (st_request_name_class (ep_selection p))"
      "st_request_version_class (ep_selection p) \<le> 6"
      "st_pause_eligible (ep_selection p) = (st_return_rv (ep_selection p) = 0)"
      "if st_return_rv (ep_selection p) \<noteq> 0
       then ep_table_ptr p = 0 \<and> ep_interface_flags p = 0 \<and> n = 0
       else finite_name_class n \<and> (n = 4 \<longrightarrow> rf)"
      using ok by (simp_all add: export_ok_def Let_def)
    have att: "unat att \<le> 104" using walk(1) by simp
    have ver: "maj = 0" "mnr = 0" "vc \<le> 6" using v ok4(1) by (simp_all add: version_facts_def Let_def)
    have "valid_interface_return_record ?r"
    proof (cases "st_return_rv (ep_selection p) = 0")
      case False
      then have z: "w = 0" "\<not> vf" "vc = 0" using v by (simp_all add: version_facts_def Let_def)
      with none none0 walk(4) have "att = 0" "cmp = 0" "\<not> f" "all_zero ps" by simp_all
      moreover from this False ok4 fin have "st = 0"
        by (auto simp: helper_agrees_def)
      ultimately show ?thesis
        unfolding valid_interface_return_record_def valid_export_prefix_def fields
        using ir ok4 ver z False by auto
    next
      case True
      have q: "rf \<longrightarrow> vf" "vc = 0 \<longrightarrow> vf \<and> ep_table_ptr p = 0" "vc = 1 \<longrightarrow> vf"
        "vc > 1 \<longrightarrow> ep_table_ptr p \<noteq> 0" "\<not> (n = 0 \<or> n = 1) \<longrightarrow> w = 0"
        using v True ok4(1) by (simp_all add: version_facts_def Let_def)
      have name: "finite_name_class n" "n = 4 \<longrightarrow> rf" using ok4(7) True by simp_all
      then have "n \<noteq> 0" by (auto simp: finite_name_class_def)
      then have named: "n = 1 \<or> att = 0 \<and> cmp = 0" using q(5) none0 by blast
      have vc: "vc > 0 \<or> f \<and> ep_table_ptr p = 0" "vc = 0 \<or> vc = 1 \<or> ep_table_ptr p \<noteq> 0" "vc \<noteq> 1 \<or> f"
        using q(2,3,4) walk(3) above_one[of vc] word_gt_0[of vc] by metis+
      have "valid_export_prefix ?r"
        unfolding valid_export_prefix_def fields using ir att walk(2,4) by (simp add: not_less)
      then show ?thesis
        unfolding valid_interface_return_record_def fields
        using ok4(1-5) ver True st(1,2) name named vc q(1) walk(3) by simp blast
    qed
    with ir show ?thesis by (intro arm) simp
  qed
qed

section \<open>The contract of the probe-side store\<close>

text \<open>Bookkeeping every invariant about rings and rows ignores.\<close>

locale probe_frame =
  fixes I :: "kstate \<Rightarrow> bool"
  assumes I_ticks: "I s \<Longrightarrow> I (s\<lparr>ticks := t\<rparr>)"
    and I_counters: "I s \<Longrightarrow> I (s\<lparr>counters := c\<rparr>)"
    and I_evidence: "I s \<Longrightarrow> I (s\<lparr>evidence := e\<rparr>)"
    and I_pauses: "I s \<Longrightarrow> I (s\<lparr>pauses := p\<rparr>)"
begin

lemma keeps_ask: "(\<And>t. Q (f t)) \<Longrightarrow> keeps I (ask f) Q"
  by (rule keepsI) (auto simp: ask_def I_ticks)

lemma keeps_bump [intro]: "keeps I (bump_discovery_counter i) (\<lambda>_. True)"
  by (rule keepsI) (auto simp: bump_discovery_counter_def I_counters)

lemma keeps_evidence [intro]: "keeps I (bump_evidence i) (\<lambda>_. True)"
  by (rule keepsI) (auto simp: bump_evidence_def I_evidence)

lemma keeps_pause_cxchg: "keeps I (pause_cxchg key) (\<lambda>_. True)"
  by (rule keepsI) (auto simp: pause_cxchg_def I_pauses split: option.splits if_splits)

lemma keeps_reserve: "keeps I (reserve_discovery env) (\<lambda>r. \<forall>raw. r = Some raw \<longrightarrow> raw = zero_record)"
  unfolding reserve_discovery_def
  by (rule keeps_bind[OF keeps_ask[where Q = "\<lambda>_. True"]])
    (auto intro!: keeps_return keeps_then[OF keeps_bump])

lemma keeps_read_user: "keeps I (probe_read_user env n a) (\<lambda>r. \<forall>bs. r = Some bs \<longrightarrow> length bs = n)"
  unfolding probe_read_user_def by (rule keeps_ask) auto

lemma keeps_read_word [intro]: "keeps I (kread_word env a l) (\<lambda>_. True)"
  unfolding kread_word_def
  by (cases l) (auto intro!: keeps_option keeps_return keeps_then[OF keeps_weaken[OF keeps_read_user]])

lemma keeps_read_interface [intro]: "keeps I (read_interface env a l) (\<lambda>_. True)"
  unfolding read_interface_def
  by (auto intro!: keeps_option keeps_return keeps_then[OF keeps_weaken[OF keeps_read_user]])

lemma keeps_arg [intro]: "keeps I (arg_u64 env ctx i l) (\<lambda>_. True)"
  unfolding arg_u64_def p11_read_ia32_arg_def
  by (auto intro!: keeps_rules keeps_then[OF keeps_ask])

lemma keeps_scope [intro]: "keeps I (scope_auth env ctx) (\<lambda>_. True)"
  unfolding scope_auth_def
  by (intro keeps_then[OF keeps_ask] keeps_rules keeps_then[OF keeps_evidence] keeps_then
      | auto intro: keeps_ask)+

text \<open>The table walk counts what it reads and leaves the rest of the array zero.\<close>

lemma keeps_walk_table:
  assumes "unat att = slot" "unat cmp = slot" "slot + n \<le> 104" "all_zero (drop slot ps)"
  shows "keeps I (walk_table env tbl l n slot (att, cmp, f, ps))
    (\<lambda>(att', cmp', f', ps'). unat att' \<le> slot + n \<and> cmp' \<le> att' \<and> (f \<longrightarrow> f')
       \<and> (n = 0 \<longrightarrow> f' = f) \<and> all_zero (drop (unat cmp') ps'))"
  using assms
proof (induction n arbitrary: slot att cmp f ps)
  case 0
  then show ?case by (auto intro!: keeps_return simp: word_le_nat_alt)
next
  case (Suc n)
  have u: "unat (att + 1) = Suc slot" "unat (cmp + 1) = Suc slot"
    using Suc.prems by (subst unat_add_exact; simp)+
  have stop: "unat (att + 1) \<le> slot + Suc n \<and> cmp \<le> att + 1 \<and> all_zero (drop (unat cmp) ps)"
    using Suc.prems u by (simp add: word_le_nat_alt)
  have go: "all_zero (drop (Suc slot) (ps[slot := w]))" for w
    using Suc.prems(4) all_zero_drop[of "drop slot ps" 1] by (simp add: drop_update_cancel)
  show ?case
    unfolding walk_table.simps
  proof (intro keeps_option keeps_then[OF keeps_read_word] keeps_return)
    fix address :: u64 and w :: u64 and r
    assume "r = Some w"
    show "keeps I (walk_table env tbl l n (Suc slot) (att + 1, cmp + 1, f, ps[slot := w]))
      (\<lambda>(att', cmp', f', ps'). unat att' \<le> slot + Suc n \<and> cmp' \<le> att' \<and> (f \<longrightarrow> f')
         \<and> (Suc n = 0 \<longrightarrow> f' = f) \<and> all_zero (drop (unat cmp') ps'))"
      by (rule keeps_weaken[OF Suc.IH[OF u(1) u(2) _ go]]) (use Suc.prems in auto)
  qed (use stop in auto)
qed

lemma keeps_export_version:
  assumes "iu \<longrightarrow> rf"
  shows "keeps I (export_version env p k n (export_decision p rf iu (n = 0 \<or> n = 1)))
    (version_facts p k n rf)"
proof (cases "export_decision p rf iu (n = 0 \<or> n = 1)")
  case (fields f vc rd)
  show ?thesis
  proof (cases rd)
    case False
    then show ?thesis
      using fields assms
      by (auto simp: export_version_def export_decision_def version_facts_def Let_def
          intro!: keeps_return split: if_splits)
  next
    case True
    have slots: "unat (discovery_table_slots k a b) \<le> 104" "discovery_table_slots 1 a b = 68" for a b
      using discovery_table_slots_bounds[of k a b] by (auto simp: word_le_nat_alt discovery_table_slots_def)
    have cls: "discovery_version_class a b > 1" "discovery_version_class a b \<le> 6"
      "discovery_version_class a b \<noteq> 0" "discovery_version_class a b \<noteq> 1" for a b
      by (auto simp: discovery_version_class_def)
    show ?thesis
      using True fields assms
      by (auto simp: export_version_def export_decision_def version_facts_def Let_def slots cls
          intro!: keeps_then[OF keeps_weaken[OF keeps_read_user]] keeps_return split: if_splits option.splits)
  qed
qed

end

text \<open>Publishing and row custody: only publishable records are pushed, and every
  row satisfies \<open>start_ok\<close>.\<close>

locale probe_store = probe_frame +
  assumes I_push: "I s \<Longrightarrow> publishable r \<Longrightarrow> I (s\<lparr>ring := ring s @ [r]\<rparr>)"
    and I_start: "I s \<Longrightarrow> starts s key = Some st \<Longrightarrow> start_ok key st"
    and I_insert: "I s \<Longrightarrow> start_ok key st \<Longrightarrow> I (s\<lparr>starts := (starts s)(key \<mapsto> st)\<rparr>)"
    and I_drop: "I s \<Longrightarrow> I (s\<lparr>starts := (\<lambda>key. if drops key then None else starts s key)\<rparr>)"
begin

lemma keeps_submit: "publishable r \<Longrightarrow> keeps I (submit_record r) (\<lambda>_. True)"
  by (rule keepsI) (auto simp: submit_record_def I_push)

lemma I_drop_one: "I s \<Longrightarrow> I (s\<lparr>starts := (starts s)(key := None)\<rparr>)"
  using I_drop[of s "\<lambda>k. k = key"] by (simp add: fun_upd_def)

lemma keeps_get: "keeps I (owned_discovery_get env key) (\<lambda>r. \<forall>st. r = Some st \<longrightarrow> start_ok key st)"
  unfolding owned_discovery_get_def
  by (rule keeps_bind[OF keeps_ask[where Q = "\<lambda>_. True"]]) (auto intro!: keepsI dest: I_start split: if_splits)

lemma keeps_insert: "start_ok key st \<Longrightarrow> keeps I (owned_discovery_insert env key st e) (\<lambda>_. True)"
  unfolding owned_discovery_insert_def
  by (rule keeps_bind[OF keeps_ask[where Q = "\<lambda>_. True"]])
    (auto intro!: keepsI simp: I_insert I_drop_one split: if_splits)

lemma keeps_remove [intro]: "keeps I (owned_discovery_remove env key) (\<lambda>_. True)"
  unfolding owned_discovery_remove_def
  by (rule keeps_bind[OF keeps_ask[where Q = "\<lambda>_. True"]])
    (auto intro!: keepsI simp: I_drop_one split: if_splits)

text \<open>Submitting: the record is published either as it stands with a finite
  helper result, or marked as coalesced with the sentinel result.\<close>

lemma keeps_finish:
  assumes env: "kernel_ok env"
    and plain: "\<And>ts rc. as_i32 rc = rc \<Longrightarrow> rc \<noteq> COALESCED_NO_HELPER_RC \<Longrightarrow> eligible \<or> rc = 0 \<Longrightarrow>
      publishable (raw\<lparr>hook_ts_ns := ts, pid_tgid := cur, status_flags := status, send_signal_rc := rc\<rparr>)"
    and coalesced: "\<And>ts. eligible \<Longrightarrow>
      publishable (raw\<lparr>hook_ts_ns := ts, pid_tgid := cur, status_flags := status OR 2,
        send_signal_rc := COALESCED_NO_HELPER_RC\<rparr>)"
  shows "keeps I (finish_discovery_record env raw scope eligible cur status) (\<lambda>_. True)"
proof -
  have i32: "as_i32 rc = rc \<and> rc \<noteq> COALESCED_NO_HELPER_RC" if "- (2 ^ 31) \<le> rc" "rc < 2 ^ 31" for rc
    using that by (simp add: as_i32_def signed_take_bit_int_eq_self)
  have zero: "as_i32 0 = 0 \<and> (0::int) \<noteq> COALESCED_NO_HELPER_RC" by (simp add: as_i32_def)
  have sig: "as_i32 (send_signal env t) = send_signal env t \<and> send_signal env t \<noteq> COALESCED_NO_HELPER_RC" for t
    using env by (intro i32) (simp_all add: kernel_ok_def)
  let ?R = "\<lambda>(ts, rc, st). publishable (raw\<lparr>hook_ts_ns := ts, pid_tgid := cur, status_flags := st,
    send_signal_rc := rc\<rparr>)"
  have now: "keeps I (ask (ktime env) \<bind> (\<lambda>now. State_Monad.return (now, 0, status))) ?R"
    by (rule keeps_then[OF keeps_ask]) (auto intro!: keeps_return plain simp: zero)
  have won: "keeps I (ask (ktime env) \<bind> (\<lambda>now. ask (send_signal env) \<bind>
      (\<lambda>rc. State_Monad.return (now, rc, status)))) ?R" if "eligible"
    by (rule keeps_then[OF keeps_ask], simp)
      (rule keeps_bind[OF keeps_ask[where Q = "\<lambda>rc. as_i32 rc = rc \<and> rc \<noteq> COALESCED_NO_HELPER_RC"]],
        auto intro!: keeps_return plain simp: sig that)
  have lost: "keeps I (ask (ktime env) \<bind> (\<lambda>now. State_Monad.return
      (now, COALESCED_NO_HELPER_RC, status OR 2))) ?R" if "eligible"
    by (rule keeps_then[OF keeps_ask]) (auto intro!: keeps_return coalesced simp: that)
  show ?thesis
    unfolding finish_discovery_record_def
  proof (rule keeps_bind[where R = ?R], goal_cases)
    case 1
    show ?case
      by (intro keeps_if keeps_then[OF keeps_pause_cxchg] keeps_option keeps_prod now)
        (auto simp: discovery_pause_enabled_def intro!: won lost)
  next
    case (2 x)
    then show ?case by (cases x) (auto intro: keeps_submit)
  qed
qed

lemma keeps_emit_export:
  assumes env: "kernel_ok env" and ok: "export_ok k i n rf iu s p"
  shows "keeps I (emit_export env ctx p scope) (\<lambda>_. True)"
proof -
  have meta: "ep_record_meta p = export_meta k i n rf iu s" and iu: "iu \<longrightarrow> rf"
    using ok by (simp_all add: export_ok_def Let_def)
  note dec = export_meta_decode[of k i n rf iu s]
  have fin: "keeps I (finish_discovery_record env (export_record zero_record p (att, cmp, f, ps) maj mnr vc)
      scope (st_pause_eligible (ep_selection p)) (cur_pid_tgid ctx) (if f then 1 else 0)) (\<lambda>_. True)"
    if v: "version_facts p k n rf (w, maj, mnr, vc, vf)"
      and walk: "unat att \<le> min 104 (unat w)" "cmp \<le> att" "vf \<longrightarrow> f" "all_zero (drop (unat cmp) ps)"
        "w = 0 \<longrightarrow> f = vf"
    for w maj mnr vc vf att cmp f ps
  proof (rule keeps_finish[OF env], goal_cases)
    case (1 ts rc)
    then show ?case
      using export_record_valid[OF ok v walk, of "if f then 1 else 0" rc ts "cur_pid_tgid ctx"]
      by (simp add: publishable_def finished_def helper_agrees_def)
  next
    case (2 ts)
    then show ?case
      using export_record_valid[OF ok v walk, of "(if f then 1 else 0) OR 2" "COALESCED_NO_HELPER_RC" ts
          "cur_pid_tgid ctx"]
      by (simp add: publishable_def finished_def helper_agrees_def)
  qed
  have zero: "all_zero (drop 0 (pointers zero_record))" by (simp add: zero_record_def)
  have walk: "keeps I (walk_table env (ep_table_ptr p) l (min 104 (unat w)) 0 (0, 0, vf, pointers zero_record)
      \<bind> (\<lambda>walked. (if fst (snd (snd walked))
             then bump_discovery_counter DISCOVERY_COUNTER_EXPORT_BOUNDED_READ_FAILURES
             else State_Monad.return ())
           \<bind> (\<lambda>_. finish_discovery_record env (export_record zero_record p walked maj mnr vc) scope
             (st_pause_eligible (ep_selection p)) (cur_pid_tgid ctx) (if fst (snd (snd walked)) then 1 else 0))))
      (\<lambda>_. True)" if "version_facts p k n rf (w, maj, mnr, vc, vf)" for l w maj mnr vc vf
  proof (rule keeps_bind[OF keeps_walk_table[OF _ _ _ zero]], goal_cases)
    case (4 x)
    obtain att cmp f ps where x: "x = (att, cmp, f, ps)" by (cases x) auto
    with 4 have facts: "unat att \<le> min 104 (unat w)" "cmp \<le> att" "vf \<longrightarrow> f" "all_zero (drop (unat cmp) ps)"
      "w = 0 \<longrightarrow> f = vf" by (simp_all add: unat_eq_0)
    show ?case
      unfolding x fst_conv snd_conv
      by (rule keeps_then) (auto intro!: keeps_return simp only: fin[OF that facts] split: if_splits)
  qed simp_all
  show ?thesis
    unfolding emit_export_def Let_def meta dec
    by (intro keeps_option keeps_bump keeps_bind[OF keeps_reserve] keeps_return)
      (simp, auto intro!: keeps_bind[OF keeps_export_version[OF iu]] walk)
qed

lemma keeps_classify_direct:
  assumes env: "kernel_ok env"
    and ok: "\<And>n rf iu tbl fl. finite_name_class n \<Longrightarrow> (n = 4 \<longrightarrow> rf) \<Longrightarrow> (iu \<longrightarrow> rf) \<Longrightarrow> fl \<le> 2 \<Longrightarrow>
      export_ok k i n rf iu s \<lparr>ep_record_meta = export_meta k i n rf iu s, ep_announced_count = count,
        ep_table_ptr = tbl, ep_interface_flags = fl, ep_selection = sel\<rparr>"
    and meta: "meta = ucast k OR push_bit 8 (ucast i) OR push_bit 32 (ucast s)"
  shows "keeps I (classify_direct_interface env ctx meta count address scope sel) (\<lambda>_. True)"
proof -
  let ?R = "\<lambda>(n, rf, iu, tbl, fl). finite_name_class n \<and> (n = (4 :: u8) \<longrightarrow> rf) \<and> (iu \<longrightarrow> rf) \<and> fl \<le> (2 :: u64)"
  have str: "keeps I (ask (\<lambda>t. user_str env t a 9)) (\<lambda>_. True)" for a by (rule keeps_ask) simp
  note fl = interface_flags_class_le
  show ?thesis
    unfolding classify_direct_interface_def
  proof (intro keeps_option keeps_bump keeps_bind[where R = ?R], goal_cases)
    case (1 l)
    show ?case
      by (intro keeps_if keeps_then[OF keeps_read_interface] keeps_option keeps_prod keeps_then[OF str]
          keeps_return)
        (auto simp: finite_name_class_def fl)
  next
    case (2 l x)
    obtain n rf iu tbl fl where x: "x = (n, rf, iu, tbl, fl)" by (cases x) auto
    show ?case
      unfolding x prod.case Let_def meta export_meta_named
      by (rule keeps_emit_export[OF env ok]) (use 2 x in simp_all)
  qed
qed

lemma keeps_classify_indirect:
  assumes "\<And>address. keeps I (classify_direct_interface env ctx meta count address scope sel) (\<lambda>_. True)"
  shows "keeps I (classify_indirect_interface env ctx meta count pp scope sel) (\<lambda>_. True)"
  unfolding classify_indirect_interface_def
  by (intro keeps_option keeps_bump keeps_then[OF keeps_if] keeps_then[OF keeps_read_word] keeps_return assms) simp_all

lemma keeps_classify_export:
  assumes "kernel_ok env" "ea_kind args = DISCOVERY_KIND_FUNCTION_LIST_RETURN" "ea_interface_index args = 0"
    "ea_symbol_id args \<noteq> 0" "ea_announced_count args = 0"
  shows "keeps I (classify_export env ctx args scope l) (\<lambda>_. True)"
proof -
  have "export_ok 1 0 0 rf False (ea_symbol_id args)
      \<lparr>ep_record_meta = export_meta 1 0 0 rf False (ea_symbol_id args), ep_announced_count = 0,
       ep_table_ptr = tbl, ep_interface_flags = 0, ep_selection = no_selection env l\<rparr>"
    if "tbl \<noteq> 0 \<or> rf" for tbl rf
    using assms that by (simp add: export_ok_def Let_def no_selection_def)
  note ok = keeps_emit_export[OF assms(1) this]
  show ?thesis
    unfolding classify_export_def Let_def export_meta_plain assms(2,3,5)
    by (intro keeps_then[OF keeps_read_word]) (auto intro!: ok split: option.splits)
qed

text \<open>Start-state handling.\<close>

lemma keeps_insert_state: "start_ok key st \<Longrightarrow> keeps I (insert_state env key st) (\<lambda>_. True)"
  unfolding insert_state_def
  by (intro keeps_then[OF keeps_insert] keeps_if keeps_return keeps_bump) simp_all

lemma keeps_insert_export [intro]: "keeps I (insert_export_state env ctx st) (\<lambda>_. True)"
  unfolding insert_export_state_def
  by (intro keeps_then[OF keeps_scope] keeps_option keeps_return keeps_insert_state)
    (auto simp: export_state_key_def start_ok_def split: option.splits)

lemma keeps_take_state:
  "keeps I (take_state env skey scoped) (\<lambda>r. \<forall>key st. r = Some (key, st) \<longrightarrow> skey = Some key \<and> start_ok key st)"
  unfolding take_state_def Let_def
  by (intro keeps_option keeps_return keeps_bind[OF keeps_get] keeps_then[OF keeps_remove] keeps_if
      keeps_then[OF keeps_bump] keeps_then[OF keeps_if] keeps_bump) auto

lemma keeps_discard [intro]: "keeps I (discard_if_keyed env skey) (\<lambda>_. True)"
  unfolding discard_if_keyed_def discard_export_state_def
  by (intro keeps_option keeps_return keeps_then[OF keeps_remove]) simp_all

lemma keeps_fail [intro]: "keeps I (fail_export_state env key) (\<lambda>_. True)"
  unfolding fail_export_state_def by (intro keeps_then[OF keeps_remove] keeps_bump)

lemma keeps_finish_export [intro]: "keeps I (finish_export_state env key) (\<lambda>_. True)"
  unfolding finish_export_state_def
  by (intro keeps_then[OF keeps_remove] keeps_if keeps_return keeps_bump) simp

lemma keeps_cleanup [intro]: "keeps I (owner_cleanup env) (\<lambda>_. True)"
  unfolding owner_cleanup_def
  by (rule keeps_then[OF keeps_ask]) (auto intro!: keepsI simp: I_drop)

lemmas store_rules = keeps_then[OF keeps_scope] keeps_then[OF keeps_arg] keeps_then[OF keeps_read_word]
  keeps_then[OF keeps_discard] keeps_then[OF keeps_bump] keeps_then[OF keeps_remove]
  keeps_then[OF keeps_fail] keeps_then[OF keeps_finish_export] keeps_then[OF keeps_evidence]
  keeps_then[OF keeps_cleanup]
  keeps_option keeps_if keeps_return keeps_bump keeps_evidence keeps_insert_export

text \<open>Function and interface lists.\<close>

lemma keeps_function_list_entry: "keeps I (function_list_entry_impl env ctx) (\<lambda>_. True)"
  unfolding function_list_entry_impl_def by (intro store_rules) simp_all

lemma export_symbol_nonzero: "export_symbol_id c = Some symbol \<Longrightarrow> symbol \<noteq> 0"
  by (auto simp: export_symbol_id_def decode_export_attach_cookie_def Let_def split: if_splits)

lemma keeps_function_list_return:
  assumes "kernel_ok env"
  shows "keeps I (function_list_return_impl env ctx) (\<lambda>_. True)"
  unfolding function_list_return_impl_def take_export_state_def
  by (intro store_rules keeps_then[OF keeps_weaken[OF keeps_take_state]] keeps_prod
      keeps_classify_export[OF assms])
    (simp_all add: export_symbol_nonzero)

lemma keeps_interface_list_entry: "keeps I (interface_list_entry_impl env ctx) (\<lambda>_. True)"
  unfolding interface_list_entry_impl_def
  by (intro store_rules) (auto intro: keeps_then[OF keeps_discard] split: option.splits)

lemma continuation_start_ok: "start_ok (continuation_key cur) st"
  by (simp add: start_ok_def continuation_key_def)

lemma keeps_segment:
  assumes env: "kernel_ok env"
  shows "keeps I (interface_list_segment env ctx) (\<lambda>_. True)"
proof -
  have direct: "keeps I (classify_direct_interface env ctx (ucast (2 :: u8) OR push_bit 8 (ucast index)
      OR push_bit 32 (ucast symbol)) count address sc (no_selection env l)) (\<lambda>_. True)"
    if "interface_continuation_unpack v = Some (count, index, symbol)" for v count index symbol address sc l
    by (rule keeps_classify_direct[OF env _ refl])
      (use interface_continuation_unpack_bounds[OF that] in
        \<open>simp add: export_ok_def Let_def no_selection_def\<close>)
  show ?thesis
    unfolding interface_list_segment_def Let_def
    by (intro store_rules keeps_then[OF keeps_weaken[OF keeps_get]] keeps_prod
        keeps_then[OF direct] keeps_then[OF keeps_insert[OF continuation_start_ok]]) simp_all
qed

lemma keeps_interface_list_return_impl: "keeps I (interface_list_return_impl env ctx) (\<lambda>_. True)"
  unfolding interface_list_return_impl_def take_export_state_def Let_def
  by (intro store_rules keeps_then[OF keeps_weaken[OF keeps_take_state]] keeps_prod
      keeps_then[OF keeps_insert[OF continuation_start_ok]]) simp_all

text \<open>Interface selection: the row written at entry carries finite classes, which
  the return probe publishes.\<close>

lemma selection_word_decode:
  "ucast (selection_request_word a b) = a" "ucast (drop_bit 8 (selection_request_word a b)) = b"
  unfolding selection_request_word_def
  by (rule bit_word_eqI, auto simp: bit_simps bit_beyond)+

lemma keeps_selection_name: "keeps I (classify_selection_name env pointer) finite_name_class"
  unfolding classify_selection_name_def
  by (intro keeps_if keeps_return keeps_then[OF keeps_ask] keeps_prod keeps_then[OF keeps_bump])
    (simp_all add: finite_name_class_def)

lemma keeps_selection_version: "keeps I (classify_selection_version env pointer) (\<lambda>c. c \<le> 6)"
  unfolding classify_selection_version_def
  by (intro keeps_if keeps_return keeps_then[OF keeps_weaken[OF keeps_read_user]] keeps_option
      keeps_then[OF keeps_bump]) (simp_all add: discovery_version_class_bounds)

lemma keeps_insert_selection:
  assumes "finite_name_class a" "b \<le> 6"
  shows "keeps I (insert_selection_state env ctx
    \<lparr>ss_arg0 = x, ss_arg1 = selection_request_word a b, ss_arg2 = y\<rparr>) (\<lambda>_. True)"
  unfolding insert_selection_state_def
  by (intro keeps_option keeps_return keeps_insert_state)
    (use assms in \<open>simp_all add: start_ok_def selection_word_decode\<close>)

lemma keeps_interface_entry: "keeps I (interface_entry_impl env ctx) (\<lambda>_. True)"
proof -
  have classify: "keeps I (classify_selection_name env name \<bind> (\<lambda>name_cls.
      classify_selection_version env version \<bind> (\<lambda>version_cls.
      insert_selection_state env ctx \<lparr>ss_arg0 = x, ss_arg1 = selection_request_word name_cls version_cls,
        ss_arg2 = y\<rparr>))) (\<lambda>_. True)" for name version x y
    by (intro keeps_bind[OF keeps_selection_name] keeps_bind[OF keeps_selection_version]
        keeps_insert_selection)
  show ?thesis
    unfolding interface_entry_impl_def
    by (intro store_rules) (auto intro!: keeps_then[OF keeps_discard] classify split: option.splits)
qed

lemma keeps_interface_return:
  assumes env: "kernel_ok env"
  shows "keeps I (interface_return_impl env ctx) (\<lambda>_. True)"
proof -
  let ?sel = "\<lambda>key st rv l. \<lparr>st_request_flags = ss_arg2 st, st_binding_id = sk_attach_cookie key,
    st_return_rv = rv, st_request_name_class = ucast (ss_arg1 st),
    st_request_version_class = ucast (drop_bit 8 (ss_arg1 st)),
    st_pause_eligible = (rv = 0), st_word_bytes = ucast (word_bytes env l)\<rparr>"
  have emit: "keeps I (if rv \<noteq> 0
      then emit_export env ctx \<lparr>ep_record_meta = ucast (4 :: u8), ep_announced_count = 0, ep_table_ptr = 0,
        ep_interface_flags = 0, ep_selection = ?sel key st rv l\<rparr> sc
      else classify_indirect_interface env ctx (ucast (4 :: u8)) 0 (ss_arg0 st) sc (?sel key st rv l)) (\<lambda>_. True)"
    if k: "selection_state_key ctx = Some key" and st: "start_ok key st" for key st rv l sc
  proof -
    have key: "sk_attach_cookie key \<noteq> 0" "sk_domain key = STATE_DOMAIN_SELECTION"
      using k by (auto simp: selection_state_key_def split: if_splits)
    have cls: "finite_name_class (ucast (ss_arg1 st))" "(ucast (drop_bit 8 (ss_arg1 st)) :: u8) \<le> 6"
      using st key(2) by (simp_all add: start_ok_def)
    show ?thesis
    proof (rule keeps_if)
      assume "rv \<noteq> 0"
      then show "keeps I (emit_export env ctx \<lparr>ep_record_meta = ucast (4 :: u8), ep_announced_count = 0,
          ep_table_ptr = 0, ep_interface_flags = 0, ep_selection = ?sel key st rv l\<rparr> sc) (\<lambda>_. True)"
        using key cls by (intro keeps_emit_export[OF env, of 4 0 0 False False 0])
          (simp add: export_ok_def Let_def export_meta_def)
    next
      assume rv: "\<not> rv \<noteq> 0"
      show "keeps I (classify_indirect_interface env ctx (ucast (4 :: u8)) 0 (ss_arg0 st) sc (?sel key st rv l)) (\<lambda>_. True)"
        by (rule keeps_classify_indirect, rule keeps_classify_direct[OF env, where k = 4 and i = 0 and s = 0])
          (use key cls rv in \<open>simp_all add: export_ok_def Let_def\<close>)
    qed
  qed
  show ?thesis
    unfolding interface_return_impl_def take_selection_state_def Let_def
    by (intro store_rules keeps_then[OF keeps_weaken[OF keeps_take_state]] keeps_bind[OF keeps_take_state]
        keeps_prod emit) (auto simp del: ucast_id)
qed

text \<open>Loader hits.\<close>

lemma keeps_loader_invalid:
  assumes "kernel_ok env"
  shows "keeps I (finish_discovery_record env (zero_record\<lparr>kind := DISCOVERY_KIND_LOADER\<rparr>) scope False cur
    DISCOVERY_STATUS_LOADER_CONTEXT_INVALID) (\<lambda>_. True)"
  by (rule keeps_finish[OF assms])
    (simp_all add: publishable_def valid_discovery_record_def valid_loader_record_def zero_record_def
      valid_loader_binding_def)

lemma keeps_loader_hit:
  assumes "kernel_ok env" "ip \<noteq> 0" "valid_loader_binding cookie"
    "status = 0 \<or> status = DISCOVERY_STATUS_LOADER_ACK_PENDING \<and> r_state = 0 \<and> valid_loader_token cookie"
  shows "keeps I (finish_discovery_record env (zero_record\<lparr>table_ptr := ip, kind := DISCOVERY_KIND_LOADER,
      case_id := cs, binding_id := cookie, announced_count := r_state\<rparr>) scope True cur status) (\<lambda>_. True)"
proof -
  have low: "\<not> (2 :: u32) < 0" by simp
  show ?thesis
    using assms(2-)
    by (intro keeps_finish[OF assms(1)]; cases "r_state \<le> 2")
      (auto simp: publishable_def loader_drift_def valid_discovery_record_def valid_loader_record_def
        zero_record_def not_le as_i32_def)
qed

lemma keeps_loader_legacy:
  assumes "kernel_ok env"
  shows "keeps I (emit_loader_legacy_record env ctx scope l cookie) (\<lambda>_. True)"
proof -
  have state: "keeps I (if cookie AND 0x100 \<noteq> 0 then
      (case loader_state_address cookie ip l of
         None \<Rightarrow> do { bump_discovery_counter 4; State_Monad.return 0 }
       | Some address \<Rightarrow> do { b \<leftarrow> probe_read_user env 4 address;
           case b of None \<Rightarrow> do { bump_discovery_counter 4; State_Monad.return 0 }
                   | Some bs \<Rightarrow> State_Monad.return (from_le bs :: u32) })
      else State_Monad.return 0) (\<lambda>_. True)" for ip
    by (intro keeps_if keeps_option keeps_then[OF keeps_bump] keeps_return
        keeps_then[OF keeps_weaken[OF keeps_read_user]]) simp_all
  show ?thesis
    unfolding emit_loader_legacy_record_def Let_def
    by (rule keeps_bind[OF keeps_reserve], intro keeps_option keeps_return keeps_if keeps_bump
        keeps_then[OF state])
      (auto intro!: keeps_loader_invalid keeps_loader_hit assms simp: valid_loader_binding_def)
qed

lemma keeps_loader_token:
  assumes "kernel_ok env"
  shows "keeps I (emit_loader_token_record env ctx scope l cookie) (\<lambda>_. True)"
proof -
  let ?R = "\<lambda>(status, publish). publish \<longrightarrow> valid_loader_token cookie \<and>
    (status = (0 :: u8) \<or> status = DISCOVERY_STATUS_LOADER_ACK_PENDING)"
  show ?thesis
    unfolding emit_loader_token_record_def Let_def
  proof (rule keeps_bind[where R = ?R], goal_cases)
    case 1
    show ?case by (intro keeps_if keeps_then[OF keeps_ask] keeps_return) auto
  next
    case (2 x)
    obtain status publish where x: "x = (status, publish)" by (cases x)
    show ?case
      unfolding x prod.case
    proof (rule keeps_if)
      show "keeps I (reserve_discovery env \<bind> (\<lambda>entry. case entry of None \<Rightarrow> State_Monad.return ()
        | Some raw \<Rightarrow> finish_discovery_record env (raw\<lparr>kind := 3\<rparr>) scope False (cur_pid_tgid ctx) 4)) (\<lambda>_. True)"
        by (rule keeps_bind[OF keeps_reserve], intro keeps_option keeps_return)
          (simp_all add: keeps_loader_invalid[OF assms])
    next
      assume "\<not> \<not> publish"
      with 2 x have tok: "valid_loader_token cookie" and st: "status = 0 \<or> status = 0x80" by auto
      show "keeps I (if normalize_target_word (loader_runtime_ip ctx) l = 0 then bump_discovery_counter 4
        else reserve_discovery env \<bind> (\<lambda>entry. case entry of None \<Rightarrow> State_Monad.return ()
          | Some raw \<Rightarrow> finish_discovery_record env
              (raw\<lparr>table_ptr := normalize_target_word (loader_runtime_ip ctx) l, kind := 3,
                case_id := ucast (ucast (cookie AND 0xFF) :: u32), binding_id := cookie, announced_count := 0\<rparr>)
              scope True (cur_pid_tgid ctx) status)) (\<lambda>_. True)"
        by (rule keeps_if, rule keeps_bump, rule keeps_bind[OF keeps_reserve], intro keeps_option keeps_return)
          (use tok st in \<open>auto intro!: keeps_loader_hit[OF assms] simp: valid_loader_binding_def\<close>)
    qed
  qed
qed

lemma keeps_dl_debug_state:
  assumes "kernel_ok env"
  shows "keeps I (dl_debug_state_impl env ctx) (\<lambda>_. True)"
  unfolding dl_debug_state_impl_def
  by (intro store_rules keeps_then[OF keeps_if] keeps_ask keeps_loader_token keeps_loader_legacy assms) simp_all

text \<open>Exec and exit.\<close>

lemma exit_map_status_bits: "exit_map_status f AND NOT (0x08 OR 0x10 OR 0x20 OR 0x40) = 0"
  "exit_map_status f AND 2 = 0"
  by (auto simp: exit_map_status_def)

lemma lifecycle_record_valid:
  assumes k: "k = 5 \<and> valid_exec_leader cur \<and> (cls = 0 \<or> cls = 1 \<or> cls = 2) \<and> status = 0
        \<and> all_zero (drop 2 ps)
      \<or> k = 6 \<and> cls = 0 \<and> \<not> eligible \<and> ticket = 0 \<and> status = 0 \<and> all_zero ps
      \<or> k = 7 \<and> cls = 0 \<and> \<not> eligible \<and> ticket = 0 \<and> status = exit_map_status f
        \<and> list_all (\<lambda>c. c \<le> 1024) (take 8 ps) \<and> all_zero (drop 8 ps)"
    and "ticket \<le> 16384" and fin: "helper_agrees status st rc eligible"
  shows "valid_discovery_record
    (finished (zero_record\<lparr>kind := k, case_id := cls, binding_id := ticket, pointers := ps\<rparr>) ts cur st rc)"
proof -
  consider (ex) "k = 5" "status = 0" "valid_exec_leader cur" "cls = 0 \<or> cls = 1 \<or> cls = 2" "all_zero (drop 2 ps)"
    | (leave) "k = 6" "cls = 0" "\<not> eligible" "ticket = 0" "status = 0" "all_zero ps"
    | (maps) "k = 7" "cls = 0" "\<not> eligible" "ticket = 0" "status = exit_map_status f"
      "list_all (\<lambda>c. c \<le> 1024) (take 8 ps)" "all_zero (drop 8 ps)"
    using k by blast
  then show ?thesis
  proof cases
  case ex
  moreover from fin this have "st = 0 \<and> as_i32 rc = rc \<and> rc \<noteq> COALESCED_NO_HELPER_RC \<or> st = 2 \<and> rc = COALESCED_NO_HELPER_RC"
    by (auto simp: helper_agrees_def)
  ultimately show ?thesis
    using assms(2) by (auto simp: valid_discovery_record_def valid_exec_record_def finished_def zero_record_def
        zero_discovery_exec_tail_def zero_discovery_scalar_payload_def)
next
  case leave
  moreover from this fin have "st = 0" "rc = 0" by (auto simp: helper_agrees_def)
  ultimately show ?thesis
    by (auto simp: valid_discovery_record_def valid_leader_exit_record_def finished_def zero_record_def
        zero_discovery_payload_def zero_discovery_payload_except_binding_def
        zero_discovery_scalar_payload_def as_i32_def)
next
  case maps
  moreover from this fin have "st = exit_map_status f" "rc = 0" by (auto simp: helper_agrees_def)
  ultimately show ?thesis
    using exit_map_status_bits[of f]
    by (auto simp: valid_discovery_record_def valid_exit_mappings_record_def finished_def zero_record_def
        zero_discovery_scalar_payload_def as_i32_def)
  qed
qed

lemma keeps_lifecycle:
  assumes env: "kernel_ok env"
    and k: "k = 5 \<and> valid_exec_leader (cur_pid_tgid ctx) \<and> (cls = 0 \<or> cls = 1 \<or> cls = 2)
      \<or> (k = 6 \<or> k = 7 \<and> \<not> inventory_only (feat env)) \<and> cls = 0 \<and> \<not> eligible"
  shows "keeps I (emit_lifecycle env ctx k cls scope eligible) (\<lambda>_. True)"
proof -
  have fin: "keeps I (finish_discovery_record env
      (zero_record\<lparr>kind := k, case_id := cls, binding_id := ticket, pointers := ps\<rparr>) scope eligible
      (cur_pid_tgid ctx) status) (\<lambda>_. True)"
    if tk: "ticket \<le> 16384 \<and> (k \<noteq> 5 \<longrightarrow> ticket = 0)"
      and pl: "if k = 7 then \<exists>f. status = exit_map_status f \<and> list_all (\<lambda>c. c \<le> 1024) (take 8 ps) \<and> all_zero (drop 8 ps)
       else status = 0 \<and> all_zero (drop (if k = 5 then 2 else 0) ps)" for ticket ps status
  proof -
    obtain f where f: "k = 7 \<longrightarrow> status = exit_map_status f" using pl by (auto split: if_splits)
    have "valid_discovery_record (finished (zero_record\<lparr>kind := k, case_id := cls, binding_id := ticket,
        pointers := ps\<rparr>) ts (cur_pid_tgid ctx) st rc)" if "helper_agrees status st rc eligible" for ts st rc
      by (rule lifecycle_record_valid[OF _ _ that, where f = f]) (use k f tk pl in \<open>auto split: if_splits\<close>)
    note valid = this[unfolded helper_agrees_def finished_def]
    show ?thesis
      by (rule keeps_finish[OF env]) (simp_all add: publishable_def valid)
  qed
  have ticket: "keeps I (if c \<and> k = 5 \<and> d then ask (link_current_cookie env) else State_Monad.return 0)
      (\<lambda>t. t \<le> 16384 \<and> (k \<noteq> 5 \<longrightarrow> t = 0))" for c d
    using env by (auto intro!: keeps_ask keeps_return simp: kernel_ok_def)
  have identity: "keeps I (if k = 5 \<and> c then ask (exe_identity env) else State_Monad.return None)
      (\<lambda>r. k \<noteq> 5 \<longrightarrow> r = None)" for c
    by (auto intro!: keeps_ask keeps_return)
  let ?ps = "\<lambda>r. case r of None \<Rightarrow> pointers zero_record | Some (dev, ino) \<Rightarrow> (pointers zero_record)[0 := dev, 1 := ino]"
  have tail: "all_zero (drop 2 (?ps r))" "all_zero (drop 8 (?ps r))" for r
    by (auto simp: zero_record_def drop_update_cancel split: option.splits)
  have summary: "keeps I (if \<not> inventory_only (feat env) \<and> k = 7 then ask (exit_summary env) \<bind>
        (\<lambda>x. case x of (cells, flags) \<Rightarrow> State_Monad.return (map cells [0..<8] @ drop 8 (?ps r), exit_map_status flags))
      else State_Monad.return (?ps r, 0))
    (\<lambda>(ps, status). if k = 7 then \<exists>f. status = exit_map_status f \<and> list_all (\<lambda>c. c \<le> 1024) (take 8 ps)
         \<and> all_zero (drop 8 ps)
       else status = 0 \<and> all_zero (drop (if k = 5 then 2 else 0) ps))" if "k \<noteq> 5 \<longrightarrow> r = None" for r
  proof (rule keeps_if)
    assume k7: "\<not> inventory_only (feat env) \<and> k = 7"
    have "keeps I (ask (exit_summary env)) (\<lambda>x. \<forall>i. fst x i \<le> 1024)"
      using env by (intro keeps_ask) (simp add: kernel_ok_def)
    then show "keeps I (ask (exit_summary env) \<bind> (\<lambda>x. case x of (cells, flags) \<Rightarrow>
        State_Monad.return (map cells [0..<8] @ drop 8 (?ps r), exit_map_status flags)))
      (\<lambda>(ps, status). if k = 7 then \<exists>f. status = exit_map_status f \<and> list_all (\<lambda>c. c \<le> 1024) (take 8 ps)
         \<and> all_zero (drop 8 ps) else status = 0 \<and> all_zero (drop (if k = 5 then 2 else 0) ps))"
      by (rule keeps_bind) (use k7 tail in \<open>auto intro!: keeps_return simp: list_all_iff\<close>)
  next
    assume "\<not> (\<not> inventory_only (feat env) \<and> k = 7)"
    with k have "k \<noteq> 7" by auto
    with that tail(1) show "keeps I (State_Monad.return (?ps r, 0))
      (\<lambda>(ps, status). if k = 7 then \<exists>f. status = exit_map_status f \<and> list_all (\<lambda>c. c \<le> 1024) (take 8 ps)
         \<and> all_zero (drop 8 ps) else status = 0 \<and> all_zero (drop (if k = 5 then 2 else 0) ps))"
      by (intro keeps_return) (simp add: zero_record_def)
  qed
  show ?thesis
    unfolding emit_lifecycle_def Let_def
  proof (rule keeps_bind[OF keeps_reserve], intro keeps_option keeps_return, simp, goal_cases)
    case (1 x raw)
    then have raw: "raw = zero_record" by simp
    show ?case
      unfolding raw
      by (rule keeps_bind[OF ticket], rule keeps_bind[OF identity], rule keeps_bind[OF summary])
        (auto intro!: fin)
  qed
qed

lemma keeps_exec:
  assumes "kernel_ok env" "valid_exec_leader (cur_pid_tgid ctx)"
  shows "keeps I (sched_process_exec_impl env ctx) (\<lambda>_. True)"
proof -
  have cls: "keeps I (if classify_exec_task a b 1 = 1
      then ask (exec_dumpability env) \<bind> (\<lambda>dumpable. State_Monad.return (classify_exec_task a b dumpable))
      else State_Monad.return (classify_exec_task a b 1)) (\<lambda>c. c = 0 \<or> c = 1 \<or> c = 2)" for a b
    using classify_exec_task_range by (auto intro!: keeps_then[OF keeps_ask] keeps_return)
  show ?thesis
    unfolding sched_process_exec_impl_def Let_def
    by (intro store_rules keeps_bind[OF cls] keeps_lifecycle) (use assms in auto)
qed

lemma keeps_exit:
  assumes "kernel_ok env"
  shows "keeps I (sched_process_exit_impl env ctx) (\<lambda>_. True)"
  unfolding sched_process_exit_impl_def
  by (intro store_rules keeps_lifecycle) (use assms in auto)

end

text \<open>Handlers with their stop-gate brackets.\<close>

locale gated_store = probe_store +
  assumes I_gate: "I s \<Longrightarrow> I (s\<lparr>stop_word := w\<rparr>)"
begin

lemma keeps_gate_add: "keeps I (gate_cell_add d) (\<lambda>_. True)"
  by (rule keepsI) (auto simp: gate_cell_add_def I_gate)

lemma keeps_enter: "keeps I (stop_gate_enter env) (\<lambda>_. True)"
proof -
  have "keeps I gate_cell_read (\<lambda>_. True)" by (rule keepsI) (auto simp: gate_cell_read_def)
  then show ?thesis
    unfolding stop_gate_enter_def stop_gate_admit_with_def
    by (intro keeps_if keeps_return keeps_then[OF keeps_gate_add] keeps_then) simp_all
qed

lemma keeps_leave: "keeps I (stop_gate_leave env) (\<lambda>_. True)"
  unfolding stop_gate_leave_def by (intro keeps_if keeps_return keeps_gate_add) simp

lemma keeps_guarded: "keeps I body (\<lambda>_. True) \<Longrightarrow> keeps I (guarded env body) (\<lambda>_. True)"
  unfolding guarded_def by (intro keeps_then[OF keeps_enter] keeps_if keeps_return keeps_then keeps_leave) simp_all

lemma keeps_worker:
  assumes "kernel_ok env"
  shows "keeps I (interface_list_worker env ctx budget) (\<lambda>_. True)"
proof (induction budget)
  case 0
  show ?case
    by (subst interface_list_worker.simps)
      (auto intro!: keeps_then[OF keeps_segment[OF assms]] keeps_if keeps_leave keeps_then[OF keeps_ask]
        keeps_then[OF keeps_fail])
next
  case (Suc n)
  show ?case
    by (subst interface_list_worker.simps)
      (auto intro!: keeps_then[OF keeps_segment[OF assms]] keeps_if keeps_leave keeps_then[OF keeps_ask]
        keeps_then[OF keeps_fail] Suc)
qed

lemma keeps_interface_list_return:
  assumes "kernel_ok env"
  shows "keeps I (interface_list_return env ctx) (\<lambda>_. True)"
  unfolding interface_list_return_def
  by (intro keeps_then[OF keeps_enter] keeps_if keeps_return keeps_then[OF keeps_interface_list_return_impl]
      keeps_leave keeps_then[OF keeps_ask] keeps_worker assms keeps_then[OF keeps_fail]) simp_all

lemma keeps_probe:
  assumes "kernel_ok env" "fires_in p ctx"
  shows "keeps I (run_probe env ctx p) (\<lambda>_. True)"
  using assms
  by (cases p)
    (simp_all add: function_list_entry_def function_list_return_def interface_list_entry_def
      interface_entry_def interface_return_def dl_debug_state_def sched_process_exec_def
      sched_process_exit_def keeps_guarded keeps_function_list_entry keeps_function_list_return
      keeps_interface_list_entry keeps_interface_list_return keeps_interface_entry
      keeps_interface_return keeps_dl_debug_state keeps_exec keeps_exit fires_in_def)

end

section \<open>The store of the model\<close>

interpretation ds: gated_store discovery_inv
  by unfold_locales (auto simp: discovery_inv_def list_all_iff)

text \<open>The same contract with the gate word held: no handler body touches it.\<close>

interpretation held: probe_store "\<lambda>s. discovery_inv s \<and> stop_word s = w" for w
  by unfold_locales (auto simp: discovery_inv_def list_all_iff)

interpretation still: probe_frame "\<lambda>s. ring s = R \<and> starts s = S \<and> stop_word s = w" for R S w
  by unfold_locales auto

lemma probe_run_inv: "probe_run s \<Longrightarrow> discovery_inv s"
proof (induction rule: probe_run.induct)
  case boot
  show ?case by (simp add: discovery_inv_def kernel_start_def)
next
  case (fire s env p ctx s')
  from keepsD[OF ds.keeps_probe[OF fire.hyps(2,3)] fire.IH fire.hyps(4)] show ?case by simp
qed (simp_all add: ds.I_pauses ds.I_gate)

section \<open>Emission\<close>

text \<open>\<open>emits m P\<close>: the program submits exactly one record, which satisfies \<open>P\<close>, and
  touches neither the rows nor the gate.\<close>

definition emits :: "'a k \<Rightarrow> (DiscoveryRecord \<Rightarrow> bool) \<Rightarrow> bool" where
  "emits m P \<longleftrightarrow> (\<forall>s x s'. run_state m s = (x, s') \<longrightarrow>
     starts s' = starts s \<and> stop_word s' = stop_word s \<and> (\<exists>r. ring s' = ring s @ [r] \<and> P r))"

definition quiet :: "'a k \<Rightarrow> ('a \<Rightarrow> bool) \<Rightarrow> bool" where
  "quiet m Q \<longleftrightarrow> (\<forall>R S w. keeps (\<lambda>s. ring s = R \<and> starts s = S \<and> stop_word s = w) m Q)"

lemma quietD:
  assumes "quiet m Q" "run_state m s = (x, s')"
  shows "ring s' = ring s" "starts s' = starts s" "stop_word s' = stop_word s" "Q x"
  using keepsD[OF assms(1)[unfolded quiet_def, rule_format, of "ring s" "starts s" "stop_word s"] _ assms(2)]
  by auto

lemma quietI: "(\<And>R S w. keeps (\<lambda>s. ring s = R \<and> starts s = S \<and> stop_word s = w) m Q) \<Longrightarrow> quiet m Q"
  by (simp add: quiet_def)

lemma emits_bind:
  assumes "quiet m Q" "\<And>x. Q x \<Longrightarrow> emits (f x) P"
  shows "emits (State_Monad.bind m f) P"
  unfolding emits_def
proof (intro allI impI)
  fix s x s' assume r: "run_state (State_Monad.bind m f) s = (x, s')"
  obtain y s1 where m: "run_state m s = (y, s1)" by fastforce
  note q = quietD[OF assms(1) m]
  from r m have "run_state (f y) s1 = (x, s')" by simp
  with assms(2)[OF q(4)] q(1-3) show "starts s' = starts s \<and> stop_word s' = stop_word s \<and>
      (\<exists>r. ring s' = ring s @ [r] \<and> P r)"
    unfolding emits_def by metis
qed

lemma emits_submit: "P r \<Longrightarrow> emits (submit_record r) P"
  by (auto simp: emits_def submit_record_def)

lemma emits_finish:
  assumes "\<And>ts st rc. P (finished raw ts cur st rc)"
  shows "emits (finish_discovery_record env raw scope eligible cur status) P"
  unfolding finish_discovery_record_def
proof (rule emits_bind[where Q = "\<lambda>_. True"], goal_cases)
  case 1
  show ?case
    by (rule quietI) (auto intro!: keeps_if keeps_then[OF still.keeps_pause_cxchg] keeps_option keeps_prod
        keeps_then[OF still.keeps_ask] keeps_return)
next
  case (2 x)
  show ?case using assms by (cases x) (auto intro!: emits_submit simp: finished_def)
qed

text \<open>What the target holds at an address at a given time: one word, or the three words of
  a \<^verbatim>\<open>CK_INTERFACE\<close>, and the class of the name it points to.\<close>

definition word_view :: "kenv \<Rightarrow> LinuxLayout \<Rightarrow> nat \<Rightarrow> u64 \<Rightarrow> u64 option" where
  "word_view env l t a =
     (if target_word_end a l = None then None
      else case l of
        Lp64 \<Rightarrow> map_option (\<lambda>f. from_le (map f [0..<8])) (user_mem env t a 8)
      | Ilp32 \<Rightarrow> map_option (\<lambda>f. ucast (from_le (map f [0..<4]) :: u32)) (user_mem env t a 4))"

definition interface_view :: "kenv \<Rightarrow> LinuxLayout \<Rightarrow> nat \<Rightarrow> u64 \<Rightarrow> (u64 \<times> u64 \<times> u64) option" where
  "interface_view env l t a =
     (if Option.bind (checked_add a (word_bytes env l * 2)) (\<lambda>w. target_word_end w l) = None then None
      else let n = (case l of Lp64 \<Rightarrow> 24 | Ilp32 \<Rightarrow> 12) in
        map_option (\<lambda>f. words3 l (map f [0..<n])) (user_mem env t a n))"

definition name_view :: "kenv \<Rightarrow> nat \<Rightarrow> u64 \<Rightarrow> u8" where
  "name_view env t p =
     (if p = 0 then DISCOVERY_NAME_NULL
      else case user_str env t p 9 of (n, bytes) \<Rightarrow>
        if n < 0 then DISCOVERY_NAME_UNREADABLE
        else if n = 8 \<and> take 8 bytes = STANDARD_NAME then DISCOVERY_NAME_EXACT_STANDARD
        else DISCOVERY_NAME_OTHER)"

lemma quiet_word: "quiet (kread_word env a l) (\<lambda>w. \<forall>p. w = Some p \<longrightarrow> (\<exists>t. word_view env l t a = Some p))"
proof (rule quietI)
  fix R S w
  let ?I = "\<lambda>s. ring s = R \<and> starts s = S \<and> stop_word s = w"
  have "keeps ?I (probe_read_user env n a) (\<lambda>b. \<exists>t. b = map_option (\<lambda>f. map f [0..<n]) (user_mem env t a n))" for n
    unfolding probe_read_user_def by (rule still.keeps_ask) auto
  note read = keeps_bind[OF this]
  show "keeps ?I (kread_word env a l) (\<lambda>w. \<forall>p. w = Some p \<longrightarrow> (\<exists>t. word_view env l t a = Some p))"
    unfolding kread_word_def by (cases l) (auto intro!: keeps_option keeps_return read simp: word_view_def, blast+)
qed

text \<open>The walk stores in its array only what it read at the slot of the table.\<close>

definition walked_ok :: "kenv \<Rightarrow> LinuxLayout \<Rightarrow> u64 \<Rightarrow> u8 \<times> u8 \<times> bool \<times> u64 list \<Rightarrow> bool" where
  "walked_ok env l tbl = (\<lambda>(att, cmp, f, ps). \<forall>j < unat cmp.
     \<exists>t. word_view env l t (tbl + word_bytes env l + of_nat j * word_bytes env l) = Some (ps ! j))"

lemma quiet_walk:
  assumes "walked_ok env l tbl (att, of_nat slot, f, ps)" "slot + n \<le> length ps" "slot + n < 256"
  shows "quiet (walk_table env tbl l n slot (att, of_nat slot, f, ps)) (walked_ok env l tbl)"
  using assms
proof (induction n arbitrary: slot att ps)
  case 0
  then show ?case by (auto simp: quiet_def intro: keeps_return)
next
  case (Suc n)
  have stop: "walked_ok env l tbl (att + 1, of_nat slot, True, ps)" using Suc.prems(1) by (simp add: walked_ok_def)
  have u: "unat (of_nat slot :: u8) = slot" "unat (of_nat (Suc slot) :: u8) = Suc slot"
    using Suc.prems(3) by (simp_all only: unat_of_nat) simp_all
  have step: "walked_ok env l tbl (att + 1, of_nat (Suc slot), f, ps[slot := p])"
    if "word_view env l t (tbl + word_bytes env l + of_nat slot * word_bytes env l) = Some p" for p t
    unfolding walked_ok_def prod.case u
  proof (intro allI impI)
    fix j assume j: "j < Suc slot"
    show "\<exists>t. word_view env l t (tbl + word_bytes env l + of_nat j * word_bytes env l) = Some (ps[slot := p] ! j)"
    proof (cases "j = slot")
      case True
      then show ?thesis using that Suc.prems(2) by auto
    next
      case False
      then show ?thesis using j Suc.prems(1) by (auto simp: walked_ok_def u)
    qed
  qed
  show ?case
  proof (rule quietI)
    fix R S w
    have rec: "keeps (\<lambda>s. ring s = R \<and> starts s = S \<and> stop_word s = w)
        (walk_table env tbl l n (Suc slot) (att + 1, of_nat slot + 1, f, ps[slot := p])) (walked_ok env l tbl)"
      if "\<exists>t. word_view env l t (tbl + word_bytes env l + of_nat slot * word_bytes env l) = Some p" for p
      using Suc.IH[of "att + 1" "Suc slot" "ps[slot := p]"] step that Suc.prems(2,3) by (auto simp: quiet_def add.commute)
    show "keeps (\<lambda>s. ring s = R \<and> starts s = S \<and> stop_word s = w)
        (walk_table env tbl l (Suc n) slot (att, of_nat slot, f, ps)) (walked_ok env l tbl)"
      unfolding walk_table.simps
      by (rule keeps_option, rule keeps_return, rule stop, rule keeps_bind[OF quiet_word[unfolded quiet_def, rule_format]])
        (auto intro!: keeps_option keeps_return stop rec simp: bind_eq_Some_conv checked_add_def split: if_splits)
  qed
qed

lemma emits_emit_export:
  assumes "\<And>t. ring_has_room env t" "selection_layout (ep_selection p) = Some l"
    and "\<And>walked maj mnr vc ts st rc. walked_ok env l (ep_table_ptr p) walked \<Longrightarrow>
      P (finished (export_record zero_record p walked maj mnr vc) ts (cur_pid_tgid ctx) st rc)"
  shows "emits (emit_export env ctx p scope) P"
proof -
  have room: "quiet (reserve_discovery env) (\<lambda>r. r = Some zero_record)"
    unfolding reserve_discovery_def
    by (rule quietI, rule keeps_bind[OF still.keeps_ask[where Q = "\<lambda>b. b"]]) (auto simp: assms(1) intro: keeps_return)
  have ver: "quiet (export_version env p k n d) (\<lambda>_. True)" for k n d
    unfolding export_version_def
    by (rule quietI) (cases d, auto simp: Let_def intro!: keeps_return
        keeps_then[OF keeps_weaken[OF still.keeps_read_user]] split: option.splits)
  have walk: "quiet (walk_table env (ep_table_ptr p) l (min DISCOVERY_POINTERS m) 0 (0, 0, f, pointers zero_record))
      (walked_ok env l (ep_table_ptr p))" for m f
    using quiet_walk[of env l "ep_table_ptr p" 0 0 f "pointers zero_record" "min DISCOVERY_POINTERS m"]
    by (simp add: walked_ok_def zero_record_def)
  have bump: "quiet (if b then bump_discovery_counter i else State_Monad.return ()) (\<lambda>_. True)" for b i
    by (rule quietI) (auto intro: keeps_return)
  show ?thesis
    unfolding emit_export_def assms(2) option.case Let_def
    by (rule emits_bind[OF room], simp)
      (auto intro!: emits_bind[OF ver] emits_bind[OF walk] emits_bind[OF bump] emits_finish assms(3)
        split: prod.splits)
qed

section \<open>The interface-list chain\<close>

text \<open>An environment in which nothing the kernel does fails, and the invoking task
  is in scope. Target memory stays arbitrary.\<close>

definition calm :: "kenv \<Rightarrow> pctx \<Rightarrow> LinuxLayout \<Rightarrow> bool" where
  "calm env ctx l \<longleftrightarrow>
     (\<forall>t. ring_has_room env t \<and> state_readable env t \<and> custody_insert env t = CustodyDone
          \<and> custody_remove env t = CustodyDone \<and> tail_call_ok env t)
     \<and> (\<forall>s. fst (run_state (scope_auth env ctx) s) \<noteq> None)
     \<and> probe_layout ctx = Some l \<and> word_bytes_ok (word_bytes env)"

text \<open>What a record says about the interface at address \<open>a\<close>: its table, flags and name class
  are those the target held there, an unreadable interface is published as such and
  without a table, and every published pointer stood in its slot of the table.\<close>

definition shows_interface :: "kenv \<Rightarrow> LinuxLayout \<Rightarrow> u64 \<Rightarrow> DiscoveryRecord \<Rightarrow> bool" where
  "shows_interface env l a r \<longleftrightarrow>
     (\<exists>t t'. case interface_view env l t a of
        None \<Rightarrow> name_class r = DISCOVERY_NAME_UNREADABLE \<and> table_ptr r = 0 \<and> interface_flags r = 0
      | Some (name, tbl, flags) \<Rightarrow> name_class r = name_view env t' name \<and> table_ptr r = tbl
          \<and> interface_flags r = interface_flags_class flags)
     \<and> (\<forall>j < unat (completed_prefix r). \<exists>t.
          word_view env l t (table_ptr r + word_bytes env l + of_nat j * word_bytes env l) = Some (pointers r ! j))"

definition element_record :: "kenv \<Rightarrow> LinuxLayout \<Rightarrow> u64 \<Rightarrow> u32 \<Rightarrow> u8 \<Rightarrow> u32 \<Rightarrow> DiscoveryRecord \<Rightarrow> bool" where
  "element_record env l base count index symbol r \<longleftrightarrow>
     kind r = DISCOVERY_KIND_INTERFACE_LIST_ELEMENT_RETURN \<and> interface_index r = index
     \<and> announced_count r = count \<and> symbol_id r = symbol
     \<and> shows_interface env l (base + ucast index * interface_stride env l) r"

text \<open>The whole announced array, up to sixteen elements, lies in the address space.\<close>

definition interfaces_fit :: "kenv \<Rightarrow> LinuxLayout \<Rightarrow> u64 \<Rightarrow> u64 \<Rightarrow> bool" where
  "interfaces_fit env l base count \<longleftrightarrow>
     unat (interface_stride env l) < 2 ^ 32
     \<and> interface_span_fits env base ((min count 16 - 1) * interface_stride env l) l"

lemma no_selection_layout:
  "word_bytes_ok (word_bytes env) \<Longrightarrow> selection_layout (no_selection env l) = Some l"
  by (cases l) (simp_all add: selection_layout_def no_selection_def)

text \<open>What \<^verbatim>\<open>classify_direct_interface\<close> reads before it emits.\<close>

definition classified_view :: "kenv \<Rightarrow> LinuxLayout \<Rightarrow> u64 \<Rightarrow> u8 \<times> bool \<times> bool \<times> u64 \<times> u64 \<Rightarrow> bool" where
  "classified_view env l a = (\<lambda>(n, rf, iu, tbl, fl). \<exists>t t'. case interface_view env l t a of
        None \<Rightarrow> n = DISCOVERY_NAME_UNREADABLE \<and> tbl = 0 \<and> fl = 0
      | Some (name, tbl', flags) \<Rightarrow> n = name_view env t' name \<and> tbl = tbl' \<and> fl = interface_flags_class flags)"

lemma quiet_interface: "quiet (read_interface env a l) (\<lambda>r. \<exists>t. interface_view env l t a = r)"
proof (rule quietI)
  fix R S w
  let ?I = "\<lambda>s. ring s = R \<and> starts s = S \<and> stop_word s = w"
  have "keeps ?I (probe_read_user env n a) (\<lambda>b. \<exists>t. b = map_option (\<lambda>f. map f [0..<n]) (user_mem env t a n))" for n
    unfolding probe_read_user_def by (rule still.keeps_ask) auto
  note read = keeps_bind[OF this]
  show "keeps ?I (read_interface env a l) (\<lambda>r. \<exists>t. interface_view env l t a = r)"
    unfolding read_interface_def
    by (auto intro!: keeps_option keeps_return read simp: interface_view_def Let_def option.map_comp comp_def)
qed

lemma quiet_classified:
  assumes "a \<noteq> 0"
  shows "quiet (if a = 0
      then State_Monad.return (DISCOVERY_NAME_UNREADABLE, True, True, 0, 0)
      else do {
        iface \<leftarrow> read_interface env a l;
        case iface of
          None \<Rightarrow> State_Monad.return (DISCOVERY_NAME_UNREADABLE, True, True, 0, 0)
        | Some (name_ptr, tbl, flags) \<Rightarrow>
            if name_ptr = 0
            then State_Monad.return (DISCOVERY_NAME_NULL, False, False, tbl, interface_flags_class flags)
            else do {
              (read, bytes) \<leftarrow> ask (\<lambda>t. user_str env t name_ptr 9);
              State_Monad.return
                (if read < 0
                 then (DISCOVERY_NAME_UNREADABLE, True, False, tbl, interface_flags_class flags)
                 else if read = 8 \<and> take 8 bytes = STANDARD_NAME
                 then (DISCOVERY_NAME_EXACT_STANDARD, False, False, tbl, interface_flags_class flags)
                 else (DISCOVERY_NAME_OTHER, False, False, tbl, interface_flags_class flags)) } }) (classified_view env l a)"
proof (rule quietI)
  fix R S w
  let ?I = "\<lambda>s. ring s = R \<and> starts s = S \<and> stop_word s = w"
  have name: "keeps ?I (ask (\<lambda>t. user_str env t p 9)) (\<lambda>x. \<exists>t. x = user_str env t p 9)" for p
    by (rule still.keeps_ask) auto
  have unread: "classified_view env l a (DISCOVERY_NAME_UNREADABLE, True, True, 0, 0)" if "interface_view env l t a = None" for t
    using that by (auto simp: classified_view_def intro!: exI[of _ t])
  have seen: "classified_view env l a (name_view env t' p, b, c, tbl, interface_flags_class flags)"
    if "interface_view env l t a = Some (p, tbl, flags)" for t t' p b c tbl flags
    unfolding classified_view_def prod.case by (rule exI[of _ t], rule exI[of _ t']) (simp add: that)
  show "keeps ?I (if a = 0
      then State_Monad.return (DISCOVERY_NAME_UNREADABLE, True, True, 0, 0)
      else do {
        iface \<leftarrow> read_interface env a l;
        case iface of
          None \<Rightarrow> State_Monad.return (DISCOVERY_NAME_UNREADABLE, True, True, 0, 0)
        | Some (name_ptr, tbl, flags) \<Rightarrow>
            if name_ptr = 0
            then State_Monad.return (DISCOVERY_NAME_NULL, False, False, tbl, interface_flags_class flags)
            else do {
              (read, bytes) \<leftarrow> ask (\<lambda>t. user_str env t name_ptr 9);
              State_Monad.return
                (if read < 0
                 then (DISCOVERY_NAME_UNREADABLE, True, False, tbl, interface_flags_class flags)
                 else if read = 8 \<and> take 8 bytes = STANDARD_NAME
                 then (DISCOVERY_NAME_EXACT_STANDARD, False, False, tbl, interface_flags_class flags)
                 else (DISCOVERY_NAME_OTHER, False, False, tbl, interface_flags_class flags)) } }) (classified_view env l a)"
    apply (rule keeps_if, use assms in simp)
    apply (rule keeps_bind[OF quiet_interface[unfolded quiet_def, rule_format]], rule keeps_option)
     apply (rule keeps_return, elim exE, rule unread, simp)
    apply (rule keeps_prod, rule keeps_prod, rule keeps_if)
     apply (rule keeps_return)
    subgoal for r y name b tbl flags using seen[of _ name tbl flags _ False False] by (auto simp: name_view_def)
    apply (rule keeps_bind[OF name], rule keeps_prod, rule keeps_return)
    apply (elim exE)
    subgoal for r y name b tbl flags x read bytes t t'
      using seen[of t name tbl flags t' True False] seen[of t name tbl flags t' False False] by (cases "read < 0") (auto simp: name_view_def split: if_splits)
    done
qed

lemma emits_classify_direct:
  assumes "\<And>t. ring_has_room env t" "word_bytes_ok (word_bytes env)" and a: "a \<noteq> 0" "a = base + ucast index * interface_stride env l"
  shows "emits (classify_direct_interface env ctx (ucast (2 :: u8) OR push_bit 8 (ucast index)
      OR push_bit 32 (ucast symbol)) count a sc (no_selection env l))
    (element_record env l base count index symbol)"
proof -
  have emit: "emits (emit_export env ctx \<lparr>ep_record_meta = export_meta 2 index n rf iu symbol,
      ep_announced_count = count, ep_table_ptr = tbl, ep_interface_flags = fl,
      ep_selection = no_selection env l\<rparr> sc) (element_record env l base count index symbol)"
    if c: "classified_view env l a (n, rf, iu, tbl, fl)" for n rf iu tbl fl
  proof (rule emits_emit_export[OF assms(1)])
    show "selection_layout (ep_selection \<lparr>ep_record_meta = export_meta 2 index n rf iu symbol,
      ep_announced_count = count, ep_table_ptr = tbl, ep_interface_flags = fl,
      ep_selection = no_selection env l\<rparr>) = Some l" using no_selection_layout[OF assms(2)] by simp
  next
    fix walked :: "u8 \<times> u8 \<times> bool \<times> u64 list" and maj mnr vc ts st rc
    obtain att cmp f ps where w: "walked = (att, cmp, f, ps)" by (cases walked) auto
    assume "walked_ok env l (ep_table_ptr \<lparr>ep_record_meta = export_meta 2 index n rf iu symbol,
      ep_announced_count = count, ep_table_ptr = tbl, ep_interface_flags = fl, ep_selection = no_selection env l\<rparr>) walked"
    then show "element_record env l base count index symbol (finished (export_record zero_record
      \<lparr>ep_record_meta = export_meta 2 index n rf iu symbol, ep_announced_count = count, ep_table_ptr = tbl,
       ep_interface_flags = fl, ep_selection = no_selection env l\<rparr> walked maj mnr vc) ts (cur_pid_tgid ctx) st rc)"
      using c a(2) unfolding classified_view_def walked_ok_def shows_interface_def element_record_def w prod.case
        export_record_fields[OF ExportPayload.select_convs(1)] ExportPayload.select_convs
      by (simp add: no_selection_def)
  qed
  show ?thesis
    unfolding classify_direct_interface_def no_selection_layout[OF assms(2)] option.case
  proof (rule emits_bind[OF quiet_classified[OF a(1)]], goal_cases)
    case (1 x)
    obtain n rf iu tbl fl where x: "x = (n, rf, iu, tbl, fl)" by (cases x) auto
    show ?case unfolding x prod.case Let_def export_meta_named by (rule emit) (use 1 x in simp)
  qed
qed

abbreviation (input) saturated :: "u64 \<Rightarrow> u32" where
  "saturated c \<equiv> (if c > 0xFFFFFFFF then 0xFFFFFFFF else ucast c)"

lemma unat_min: "unat (min a b) = min (unat a) (unat (b :: 'a::len word))"
  by (auto simp: min_def word_le_nat_alt)

lemma active_word: "ucast (interface_active_count (saturated c)) = min c (16 :: u64)"
proof -
  have "unat (ucast (interface_active_count (saturated c)) :: u64) = unat (interface_active_count (saturated c))"
    by (rule unat_ucast_up) simp
  then have "unat (ucast (interface_active_count (saturated c)) :: u64) = unat (min c 16)"
    by (simp only: interface_active_count_le saturated_count_min unat_min) simp
  then show ?thesis by (simp only: word_unat_eq_iff)
qed

lemma interface_offsets:
  assumes "interfaces_fit env l base c" "unat i < min (unat c) 16"
  shows "checked_mul (min c 16 - 1) (interface_stride env l) = Some ((min c 16 - 1) * interface_stride env l)"
    "Option.bind (checked_mul (ucast (i :: u8)) (interface_stride env l)) (\<lambda>off. checked_add base off)
       = Some (base + ucast i * interface_stride env l)"
    "base \<noteq> 0 \<Longrightarrow> base + ucast i * interface_stride env l \<noteq> 0"
proof -
  let ?st = "unat (interface_stride env l)" and ?n = "min (unat c) 16 - 1"
  have st: "?st < 2 ^ 32" using assms(1) by (simp add: interfaces_fit_def)
  have "min c 16 \<noteq> 0" using assms(2) by (auto simp: word_unat_eq_iff unat_min)
  then have n: "unat (min c 16 - 1) = ?n" by (simp add: unat_minus_one unat_min)
  have m: "j * ?st < 2 ^ 64" if "j < 16" for j
  proof -
    have "j * ?st \<le> 16 * 2 ^ 32" using that st by (intro mult_le_mono) auto
    then show ?thesis by simp
  qed
  show mul: "checked_mul (min c 16 - 1) (interface_stride env l) = Some ((min c 16 - 1) * interface_stride env l)"
    using m[of ?n] by (simp add: checked_mul_def n)
  have "unat ((min c 16 - 1) * interface_stride env l) = ?n * ?st"
    using mul by (simp only: checked_mul_Some_iff n)
  moreover have "checked_add base ((min c 16 - 1) * interface_stride env l) \<noteq> None"
    using assms(1) by (auto simp: interfaces_fit_def interface_span_fits_def bind_eq_Some_conv)
  ultimately have base: "unat base + ?n * ?st < 2 ^ 64"
    by (simp add: checked_add_None_iff not_le)
  have ui: "unat (ucast i :: u64) = unat i" by (rule unat_ucast_up) simp
  have "unat i * ?st \<le> ?n * ?st" using assms(2) by (intro mult_le_mono1) linarith
  then have add: "unat base + unat i * ?st < 2 ^ 64" using base by linarith
  have mi: "checked_mul (ucast i) (interface_stride env l) = Some (ucast i * interface_stride env l)"
    using m[of "unat i"] assms(2) by (simp add: checked_mul_def ui)
  then have "unat (ucast i * interface_stride env l) = unat i * ?st" by (simp only: checked_mul_Some_iff ui)
  note off = this
  then show "Option.bind (checked_mul (ucast i) (interface_stride env l)) (\<lambda>off. checked_add base off)
       = Some (base + ucast i * interface_stride env l)"
    using add by (simp add: mi checked_add_def)
  show "base + ucast i * interface_stride env l \<noteq> 0" if "base \<noteq> 0"
  proof
    assume "base + ucast i * interface_stride env l = 0"
    then have "unat (base + ucast i * interface_stride env l) = 0" by simp
    moreover have "unat (base + ucast i * interface_stride env l) = unat base + unat (ucast i * interface_stride env l)"
      by (rule unat_add_exact) (use add off in simp)
    ultimately show False using that by (simp add: unat_eq_0)
  qed
qed

lemma run_get:
  "state_readable env (ticks s) \<Longrightarrow>
    run_state (owned_discovery_get env key) s = (starts s key, s\<lparr>ticks := Suc (ticks s)\<rparr>)"
  by (simp add: owned_discovery_get_def ask_def)

lemma run_insert_exist:
  "custody_insert env (ticks s) = CustodyDone \<Longrightarrow> starts s key \<noteq> None \<Longrightarrow>
    run_state (owned_discovery_insert env key st True) s =
      (True, s\<lparr>ticks := Suc (ticks s), starts := (starts s)(key \<mapsto> st)\<rparr>)"
  by (simp add: owned_discovery_insert_def ask_def)

lemma run_finish_export:
  "custody_remove env (ticks s) = CustodyDone \<Longrightarrow> starts s key \<noteq> None \<Longrightarrow>
    run_state (finish_export_state env key) s =
      ((), s\<lparr>ticks := Suc (ticks s), starts := (starts s)(key := None)\<rparr>)"
  by (simp add: finish_export_state_def owned_discovery_remove_def ask_def)

lemma segment_visits:
  fixes env ctx
  defines "key \<equiv> continuation_key (cur_pid_tgid ctx)"
  assumes calm: "calm env ctx l"
    and row: "starts s key = Some st" "ss_arg0 st \<noteq> 0"
    and word: "interface_continuation_pack c i symbol = Some (ss_arg1 st)" "unat i < min (unat c) 16"
    and fit: "interfaces_fit env l (ss_arg0 st) c"
    and run: "run_state (interface_list_segment env ctx) s = (goes, s')"
  shows "stop_word s' = stop_word s \<and> (\<exists>r. ring s' = ring s @ [r] \<and> element_record env l (ss_arg0 st) (saturated c) i symbol r)
    \<and> (if unat i + 1 < min (unat c) 16
       then goes \<and> (\<exists>next. interface_continuation_pack (ucast (saturated c)) (i + 1) symbol = Some next
                  \<and> starts s' = (starts s)(key \<mapsto> \<lparr>ss_arg0 = ss_arg0 st, ss_arg1 = next, ss_arg2 = 0\<rparr>))
       else \<not> goes \<and> starts s' = (starts s)(key := None))"
proof -
  obtain sc s1 where scope: "run_state (scope_auth env ctx) s = (Some sc, s1)"
    using calm by (metis calm_def fst_conv option.exhaust prod.exhaust)
  have q1: "ring s1 = ring s" "starts s1 = starts s" "stop_word s1 = stop_word s"
    using quietD[OF quietI[OF still.keeps_scope] scope] by auto
  have env: "ring_has_room env u" "state_readable env u" "custody_insert env u = CustodyDone"
    "custody_remove env u = CustodyDone" "probe_layout ctx = Some l" "word_bytes_ok (word_bytes env)" for u
    using calm by (simp_all add: calm_def)
  have unp: "interface_continuation_unpack (ss_arg1 st) = Some (saturated c, i, symbol)"
    using interface_continuation_unpack_pack[OF word(1)] word(2) by simp
  note offs = interface_offsets[OF fit word(2)]
  let ?a = "ss_arg0 st + ucast i * interface_stride env l"
  have act: "min c 16 \<noteq> 0" using word(2) by (auto simp: word_unat_eq_iff unat_min)
  have span: "interface_span_fits env (ss_arg0 st) ((min c 16 - 1) * interface_stride env l) l"
    using fit by (simp add: interfaces_fit_def)
  let ?s2 = "s1\<lparr>ticks := Suc (ticks s1)\<rparr>"
  let ?m = "ucast (2 :: u8) OR push_bit 8 (ucast i) OR push_bit 32 (ucast symbol)"
  obtain u s3 where direct: "run_state (classify_direct_interface env ctx ?m (saturated c) ?a sc
      (no_selection env l)) ?s2 = (u, s3)" by (rule prod.exhaust)
  from emits_classify_direct[OF env(1) env(6) offs(3)[OF row(2)] refl, of ctx symbol "saturated c" sc] direct
  obtain r where e: "starts s3 = starts s" "stop_word s3 = stop_word s" "ring s3 = ring s @ [r]"
    "element_record env l (ss_arg0 st) (saturated c) i symbol r"
    unfolding emits_def using q1 by fastforce
  have tail: "run_state (interface_list_segment env ctx) s = run_state
      (case interface_continuation_next (ss_arg1 st) of
         None \<Rightarrow> do { finish_export_state env key; State_Monad.return False }
       | Some next \<Rightarrow> do {
           ok \<leftarrow> owned_discovery_insert env key \<lparr>ss_arg0 = ss_arg0 st, ss_arg1 = next, ss_arg2 = 0\<rparr> True;
           if \<not> ok then do { fail_export_state env key; State_Monad.return False }
           else State_Monad.return True }) s3"
    using scope row q1 direct unfolding interface_list_segment_def Let_def key_def
    by (simp add: env run_get unp active_word act offs(1,2) span)
  show ?thesis
  proof (cases "unat i + 1 < min (unat c) 16")
    case True
    note nxt = interface_continuation_next_pack[OF word(1) True]
    then obtain v where v: "interface_continuation_pack (ucast (saturated c)) (i + 1) symbol = Some v" by blast
    have "(goes, s') = (True, s3\<lparr>ticks := Suc (ticks s3),
        starts := (starts s3)(key \<mapsto> \<lparr>ss_arg0 = ss_arg0 st, ss_arg1 = v, ss_arg2 = 0\<rparr>)\<rparr>)"
      using run row(1) e(1) nxt(1) v unfolding tail by (simp add: run_insert_exist env)
    with True e v show ?thesis by simp
  next
    case False
    have "interface_continuation_next (ss_arg1 st) = None"
      by (rule interface_continuation_next_last[OF word(1) word(2) leI[OF False]])
    then have "(goes, s') = (False, s3\<lparr>ticks := Suc (ticks s3), starts := (starts s3)(key := None)\<rparr>)"
      using run row(1) e(1) unfolding tail by (simp add: run_finish_export env)
    with False e show ?thesis by simp
  qed
qed

lemma saturated_again:
  "saturated (ucast (saturated c)) = saturated c"
  "min (unat (ucast (saturated c) :: u64)) 16 = min (unat c) 16"
  "min (ucast (saturated c)) 16 = min c (16 :: u64)"
proof -
  show "saturated (ucast (saturated c)) = saturated c" by (rule saturated_count_idem)
  show m: "min (unat (ucast (saturated c) :: u64)) 16 = min (unat c) 16"
    by (subst unat_ucast_up) (simp, rule saturated_count_min)
  then have "unat (min (ucast (saturated c)) (16 :: u64)) = unat (min c 16)"
    by (simp only: unat_min) simp
  then show "min (ucast (saturated c)) 16 = min c (16 :: u64)" by (simp only: word_unat_eq_iff)
qed

lemma upt_single: "i < m \<Longrightarrow> \<not> i + 1 < m \<Longrightarrow> [i..<m] = [i]"
  by (cases "m = Suc i") auto

lemma run_leave:
  "run_state (stop_gate_leave env) s =
    ((), if inventory_only (feat env) then s else s\<lparr>stop_word := stop_word s - 1\<rparr>)"
  by (simp add: stop_gate_leave_def gate_cell_add_def)

lemma worker_visits:
  fixes env ctx
  defines "key \<equiv> continuation_key (cur_pid_tgid ctx)"
  assumes calm: "calm env ctx l"
    and row: "starts s key = Some st" "ss_arg0 st \<noteq> 0"
    and word: "interface_continuation_pack c i symbol = Some (ss_arg1 st)" "unat i < min (unat c) 16"
    and fit: "interfaces_fit env l (ss_arg0 st) c"
    and budget: "min (unat c) 16 \<le> budget + unat i + 1"
    and run: "run_state (interface_list_worker env ctx budget) s = ((), s')"
  shows "starts s' = (starts s)(key := None)
    \<and> stop_word s' = (if inventory_only (feat env) then stop_word s else stop_word s - 1)
    \<and> (\<exists>rs. ring s' = ring s @ rs
         \<and> list_all2 (\<lambda>j. element_record env l (ss_arg0 st) (saturated c) (of_nat j) symbol) [unat i..<min (unat c) 16] rs)"
  using row word fit budget run
proof (induction budget arbitrary: s st c i)
  case (0 s st c i)
  obtain goes s1 where seg: "run_state (interface_list_segment env ctx) s = (goes, s1)" by (rule prod.exhaust)
  note v = segment_visits[OF calm 0(1-5)[unfolded key_def] seg, folded key_def]
  have last: "\<not> unat i + 1 < min (unat c) 16" using 0(6) by linarith
  with v have "\<not> goes" by simp
  then have s': "s' = snd (run_state (stop_gate_leave env) s1)"
    using 0(7) seg by (simp add: interface_list_worker.simps)
  have upt: "[unat i..<min (unat c) 16] = [unat i]"
    by (rule upt_single[OF 0(4) last])
  from v last show ?case by (auto simp: s' run_leave upt)
next
  case (Suc budget s st c i)
  obtain goes s1 where seg: "run_state (interface_list_segment env ctx) s = (goes, s1)" by (rule prod.exhaust)
  note v = segment_visits[OF calm Suc.prems(1-5)[unfolded key_def] seg, folded key_def]
  from v obtain r where r: "ring s1 = ring s @ [r]" "element_record env l (ss_arg0 st) (saturated c) i symbol r"
    "stop_word s1 = stop_word s" by auto
  show ?case
  proof (cases "unat i + 1 < min (unat c) 16")
    case False
    with v have "\<not> goes" by simp
    then have s': "s' = snd (run_state (stop_gate_leave env) s1)"
      using Suc.prems(7) seg by (simp add: interface_list_worker.simps)
    have upt: "[unat i..<min (unat c) 16] = [unat i]"
      by (rule upt_single[OF Suc.prems(4) False])
    from v False show ?thesis by (auto simp: s' run_leave upt)
  next
    case True
    with v obtain v' where goes: goes
      and v': "interface_continuation_pack (ucast (saturated c)) (i + 1) symbol = Some v'"
      and st1: "starts s1 = (starts s)(key \<mapsto> \<lparr>ss_arg0 = ss_arg0 st, ss_arg1 = v', ss_arg2 = 0\<rparr>)"
      by auto
    let ?st = "\<lparr>ss_arg0 = ss_arg0 st, ss_arg1 = v', ss_arg2 = 0\<rparr>" and ?s2 = "s1\<lparr>ticks := Suc (ticks s1)\<rparr>"
    have i1: "unat (i + 1) = Suc (unat i)" using True by (subst unat_add_exact) auto
    have tc: "tail_call_ok env u" for u using calm by (simp add: calm_def)
    have run2: "run_state (interface_list_worker env ctx budget) ?s2 = ((), s')"
      using Suc.prems(7) seg goes by (subst (asm) interface_list_worker.simps) (simp add: ask_def tc)
    have fit2: "interfaces_fit env l (ss_arg0 st) (ucast (saturated c))"
      using Suc.prems(5) unfolding interfaces_fit_def saturated_again(3) .
    have "starts s' = (starts ?s2)(key := None)
      \<and> stop_word s' = (if inventory_only (feat env) then stop_word ?s2 else stop_word ?s2 - 1)
      \<and> (\<exists>rs. ring s' = ring ?s2 @ rs
           \<and> list_all2 (\<lambda>j. element_record env l (ss_arg0 ?st) (saturated (ucast (saturated c))) (of_nat j) symbol)
               [unat (i + 1)..<min (unat (ucast (saturated c) :: u64)) 16] rs)"
    proof (rule Suc.IH[of ?s2 ?st])
      show "starts ?s2 key = Some ?st" by (simp add: st1)
      show "ss_arg0 ?st \<noteq> 0" using Suc.prems(2) by simp
      show "interface_continuation_pack (ucast (saturated c)) (i + 1) symbol = Some (ss_arg1 ?st)"
        using v' by simp
      show "unat (i + 1) < min (unat (ucast (saturated c) :: u64)) 16"
        unfolding saturated_again(2) i1 using True by simp
      show "interfaces_fit env l (ss_arg0 ?st) (ucast (saturated c))" using fit2 by simp
      show "min (unat (ucast (saturated c) :: u64)) 16 \<le> budget + unat (i + 1) + 1"
        unfolding saturated_again(2) i1 using Suc.prems(6) by simp
      show "run_state (interface_list_worker env ctx budget) ?s2 = ((), s')" by (rule run2)
    qed
    then obtain rs where rs: "ring s' = ring s @ r # rs"
      "list_all2 (\<lambda>j. element_record env l (ss_arg0 st) (saturated c) (of_nat j) symbol) [Suc (unat i)..<min (unat c) 16] rs"
      and rest: "starts s' = (starts s)(key := None)"
        "stop_word s' = (if inventory_only (feat env) then stop_word s else stop_word s - 1)"
      unfolding saturated_again(1,2) i1 using r by (auto simp: st1)
    have "[unat i..<min (unat c) 16] = unat i # [Suc (unat i)..<min (unat c) 16]"
      using True by (intro upt_conv_Cons) simp
    with rs rest r(2) show ?thesis by (auto simp del: upt.simps)
  qed
qed

section \<open>Gate brackets\<close>

lemma run_enter:
  assumes "run_state (stop_gate_enter env) s = (admitted, s1)"
  shows "s1 = (if admitted \<and> \<not> inventory_only (feat env) then s\<lparr>stop_word := stop_word s + 1\<rparr> else s)"
proof -
  have "s\<lparr>stop_word := stop_word s\<rparr> = s" by simp
  then show ?thesis
    using assms
    by (auto simp: stop_gate_enter_def stop_gate_admit_with_def gate_cell_read_def gate_cell_add_def
        split: if_splits)
qed

lemma enter_stopped:
  assumes "stop_word s AND STOP_GATE_STOP \<noteq> 0" "\<not> inventory_only (feat env)"
  shows "run_state (stop_gate_enter env) s = (False, s)"
  using assms by (simp add: stop_gate_enter_def stop_gate_admit_with_def gate_cell_read_def)

lemma guarded_balance:
  assumes "run_state (guarded env body) s = ((), s')" "discovery_inv s"
    and body: "\<And>w. keeps (\<lambda>s. discovery_inv s \<and> stop_word s = w) body (\<lambda>_. True)"
  shows "stop_word s' = stop_word s"
proof -
  obtain admitted s1 where e: "run_state (stop_gate_enter env) s = (admitted, s1)" by (rule prod.exhaust)
  note s1 = run_enter[OF e]
  show ?thesis
  proof (cases admitted)
    case False
    with assms(1) e s1 show ?thesis by (simp add: guarded_def)
  next
    case True
    obtain u s2 where b: "run_state body s1 = (u, s2)" by (rule prod.exhaust)
    have "discovery_inv s1" using assms(2) s1 by (simp add: ds.I_gate)
    with keepsD[OF body[of "stop_word s1"] _ b] have "stop_word s2 = stop_word s1" by simp
    then show ?thesis using assms(1) e b True s1 by (auto simp: guarded_def run_leave split: if_splits)
  qed
qed

lemma worker_balance:
  assumes "kernel_ok env" "discovery_inv s"
    and "run_state (interface_list_worker env ctx budget) s = ((), s')"
  shows "stop_word s' = (if inventory_only (feat env) then stop_word s else stop_word s - 1)"
  using assms(2,3)
proof (induction budget arbitrary: s)
  case (0 s)
  obtain goes s1 where seg: "run_state (interface_list_segment env ctx) s = (goes, s1)" by (rule prod.exhaust)
  have s1: "discovery_inv s1" "stop_word s1 = stop_word s"
    using keepsD[OF held.keeps_segment[OF assms(1)] _ seg, of "stop_word s"] 0(1) by simp_all
  let ?s2 = "s1\<lparr>ticks := Suc (ticks s1)\<rparr>"
  obtain u s3 where f: "run_state (fail_export_state env (continuation_key (cur_pid_tgid ctx))) ?s2 = (u, s3)"
    by (rule prod.exhaust)
  have "stop_word s3 = stop_word s"
    using keepsD[OF held.keeps_fail _ f, of "stop_word s"] s1 by (simp add: ds.I_ticks)
  with 0(2) seg s1 f show ?case
    by (auto simp: interface_list_worker.simps run_leave ask_def split: if_splits)
next
  case (Suc budget s)
  obtain goes s1 where seg: "run_state (interface_list_segment env ctx) s = (goes, s1)" by (rule prod.exhaust)
  have s1: "discovery_inv s1" "stop_word s1 = stop_word s"
    using keepsD[OF held.keeps_segment[OF assms(1)] _ seg, of "stop_word s"] Suc.prems(1) by simp_all
  let ?s2 = "s1\<lparr>ticks := Suc (ticks s1)\<rparr>"
  have s2: "discovery_inv ?s2" using s1(1) by (rule ds.I_ticks)
  obtain u s3 where f: "run_state (fail_export_state env (continuation_key (cur_pid_tgid ctx))) ?s2 = (u, s3)"
    by (rule prod.exhaust)
  have "stop_word s3 = stop_word s"
    using keepsD[OF held.keeps_fail _ f, of "stop_word s"] s1 s2 by simp
  moreover have "stop_word s' = (if inventory_only (feat env) then stop_word ?s2 else stop_word ?s2 - 1)"
    if "run_state (interface_list_worker env ctx budget) ?s2 = ((), s')"
    by (rule Suc.IH[OF s2 that])
  ultimately show ?case
    using Suc.prems(2) seg s1 f
    by (subst (asm) interface_list_worker.simps) (auto simp: run_leave ask_def split: if_splits)
qed

lemma interface_list_return_balance:
  assumes "kernel_ok env" "discovery_inv s" "run_state (interface_list_return env ctx) s = ((), s')"
  shows "stop_word s' = stop_word s"
proof -
  obtain admitted s1 where e: "run_state (stop_gate_enter env) s = (admitted, s1)" by (rule prod.exhaust)
  note s1 = run_enter[OF e]
  have i1: "discovery_inv s1" using assms(2) s1 by (simp add: ds.I_gate)
  show ?thesis
  proof (cases admitted)
    case False
    with assms(3) e s1 show ?thesis by (simp add: interface_list_return_def)
  next
    case True
    obtain goes s2 where b: "run_state (interface_list_return_impl env ctx) s1 = (goes, s2)" by (rule prod.exhaust)
    have s2: "discovery_inv s2" "stop_word s2 = stop_word s1"
      using keepsD[OF held.keeps_interface_list_return_impl _ b, of "stop_word s1"] i1 by simp_all
    let ?s3 = "s2\<lparr>ticks := Suc (ticks s2)\<rparr>"
    have s3: "discovery_inv ?s3" using s2(1) by (rule ds.I_ticks)
    obtain u s4 where f: "run_state (fail_export_state env (continuation_key (cur_pid_tgid ctx))) ?s3 = (u, s4)"
      by (rule prod.exhaust)
    have "stop_word s4 = stop_word s2"
      using keepsD[OF held.keeps_fail _ f, of "stop_word s2"] s3 by simp
    moreover have "stop_word s' = (if inventory_only (feat env) then stop_word ?s3 else stop_word ?s3 - 1)"
      if "run_state (interface_list_worker env ctx 32) ?s3 = ((), s')"
      by (rule worker_balance[OF assms(1) s3 that])
    ultimately show ?thesis
      using assms(3) e b f True s1 s2(2)
      by (auto simp: interface_list_return_def run_leave ask_def split: if_splits)
  qed
qed

lemma probe_balance:
  assumes "kernel_ok env" "fires_in p ctx" "discovery_inv s" "run_state (run_probe env ctx p) s = ((), s')"
  shows "stop_word s' = stop_word s"
proof (cases "p = InterfaceListReturn")
  case True
  with assms show ?thesis using interface_list_return_balance by simp
next
  case False
  have "\<exists>body. run_probe env ctx p = guarded env body
      \<and> (\<forall>w. keeps (\<lambda>s. discovery_inv s \<and> stop_word s = w) body (\<lambda>_. True))"
    using False assms(1,2)
    by (cases p)
      (auto simp: function_list_entry_def function_list_return_def interface_list_entry_def
        interface_entry_def interface_return_def dl_debug_state_def sched_process_exec_def
        sched_process_exit_def held.keeps_function_list_entry held.keeps_function_list_return
        held.keeps_interface_list_entry held.keeps_interface_entry held.keeps_interface_return
        held.keeps_dl_debug_state held.keeps_exec held.keeps_exit fires_in_def intro!: exI)
  then show ?thesis using guarded_balance assms(3,4) by auto
qed

section \<open>Concrete environments\<close>

definition demo_env :: kenv where
  "demo_env = \<lparr>user_mem = (\<lambda>_ _ _. None), user_str = (\<lambda>_ _ _. (- 14, [])), ktime = (\<lambda>t. of_nat t),
     send_signal = (\<lambda>_. 0), ring_has_room = (\<lambda>_. True), state_readable = (\<lambda>_. True),
     custody_insert = (\<lambda>_. CustodyDone), custody_remove = (\<lambda>_. CustodyDone),
     owner_healthy = (\<lambda>_. True), config_flags = 0x44, pid_filter = (\<lambda>_ _. None),
     under_cgroup = (\<lambda>_. None), exec_dumpability = (\<lambda>_. 1), link_current_cookie = (\<lambda>_. 0),
     exe_identity = (\<lambda>_. None), exit_summary = (\<lambda>_. (\<lambda>_. 0, 0)), gate_latched = (\<lambda>_. True),
     gate_hit = (\<lambda>_ _ _. - 2), tail_call_ok = (\<lambda>_. True), cleanup_drops = (\<lambda>_ _. False),
     interface_stride = (\<lambda>l. case l of Lp64 \<Rightarrow> 24 | Ilp32 \<Rightarrow> 12), word_bytes = word_bytes_std,
     feat = \<lparr>inventory_only = False, inventory_callers = False, loader_gate = True\<rparr>\<rparr>"

definition demo_ctx :: pctx where
  "demo_ctx = \<lparr>cur_pid_tgid = 0x700000007, cookie_of = 0x101, regs_cs = 0x33, regs_rsp = 0, regs_rip = 0x4000,
     reg_args = (\<lambda>_. Some 0), ret_value = 0, func_ip = 0, raw_old_pid = 7\<rparr>"

lemma demo_kernel_ok: "kernel_ok demo_env"
  by (simp add: kernel_ok_def demo_env_def)

lemma demo_scope:
  "run_state (scope_auth demo_env demo_ctx) s = (Some (scope_of 0x44 7 0), s\<lparr>ticks := Suc (ticks s)\<rparr>)"
  by (simp add: scope_auth_def demo_env_def demo_ctx_def ask_def valid_config_def)

definition demo_exec :: kstate where
  "demo_exec = snd (run_state (run_probe demo_env demo_ctx SchedProcessExec) kernel_start)"

lemma demo_exec_ring: "map kind (ring demo_exec) = [5]"
  by (simp add: demo_exec_def sched_process_exec_def guarded_def stop_gate_enter_def
      sched_process_exec_impl_def stop_gate_admit_with_def gate_cell_read_def gate_cell_add_def
      owner_cleanup_def scope_auth_def ask_def demo_env_def demo_ctx_def kernel_start_def valid_config_def
      classify_exec_task_def valid_exec_leader_def Let_def emit_lifecycle_def reserve_discovery_def
      scope_of_def finish_discovery_record_def discovery_pause_enabled_def submit_record_def
      stop_gate_leave_def)

lemma fire_snd:
  assumes "probe_run s" "kernel_ok env" "fires_in p ctx"
  shows "probe_run (snd (run_state (run_probe env ctx p) s))"
  by (rule probe_run.fire[OF assms]) (simp add: prod_eq_iff)

lemma demo_exec_run: "probe_run demo_exec"
proof -
  have "fires_in SchedProcessExec demo_ctx" by (simp add: fires_in_def demo_ctx_def valid_exec_leader_def)
  from fire_snd[OF probe_run.boot demo_kernel_ok this] show ?thesis by (simp only: demo_exec_def)
qed

definition pause_env :: kenv where
  "pause_env = demo_env\<lparr>config_flags := 0x25, pid_filter := (\<lambda>_ _. Some 9)\<rparr>"

definition paused_start :: kstate where
  "paused_start = kernel_start\<lparr>pauses := (pauses kernel_start)
     (\<lparr>pk_tgid = 7, pk_pad = 0, pk_generation_token = 9\<rparr> := Some PAUSE_REQUESTED)\<rparr>"

definition demo_ack :: kstate where
  "demo_ack = snd (run_state (run_probe pause_env demo_ctx DlDebugState) paused_start)"

lemma demo_ack_run: "probe_run demo_ack"
proof -
  have ok: "kernel_ok pause_env" using demo_kernel_ok by (simp add: kernel_ok_def pause_env_def)
  have "probe_run paused_start" unfolding paused_start_def by (rule probe_run.pause_cell[OF probe_run.boot])
  from fire_snd[OF this ok, of DlDebugState demo_ctx] show ?thesis
    by (simp only: demo_ack_def fires_in_def) simp
qed

lemma demo_ack_ring:
  "map (\<lambda>r. (kind r, status_flags r, send_signal_rc r, binding_id r)) (ring demo_ack)
    = [(3, 0x82, COALESCED_NO_HELPER_RC, 0x101)]"
  by (simp add: demo_ack_def dl_debug_state_def guarded_def stop_gate_enter_def dl_debug_state_impl_def
      stop_gate_admit_with_def gate_cell_read_def gate_cell_add_def scope_auth_def ask_def pause_env_def
      demo_env_def demo_ctx_def paused_start_def kernel_start_def valid_config_def Let_def scope_of_def
      probe_layout_def target_layout_from_cs_def bump_discovery_counter_def emit_loader_token_record_def
      valid_loader_token_def loader_runtime_ip_def reserve_discovery_def finish_discovery_record_def
      discovery_pause_enabled_def pause_cxchg_def discovery_pause_coalesced_def submit_record_def
      stop_gate_leave_def zero_record_def)

definition list_start :: kstate where
  "list_start = kernel_start\<lparr>starts := [continuation_key 0x700000007 \<mapsto>
     \<lparr>ss_arg0 = 0x1000, ss_arg1 = 0x0000070000000300, ss_arg2 = 0\<rparr>]\<rparr>"

text \<open>A target whose interfaces have no name and carry the low byte of their own address as
  their table.\<close>

definition list_env :: kenv where
  "list_env = demo_env\<lparr>user_mem := (\<lambda>_ a _. Some (\<lambda>k. if k = 8 then ucast a else 0))\<rparr>"

lemma list_scope:
  "run_state (scope_auth list_env demo_ctx) s = (Some (scope_of 0x44 7 0), s\<lparr>ticks := Suc (ticks s)\<rparr>)"
  by (simp add: scope_auth_def list_env_def demo_env_def demo_ctx_def ask_def valid_config_def)

lemma list_calm: "calm list_env demo_ctx Lp64"
  using list_scope
  by (simp add: calm_def list_env_def demo_env_def demo_ctx_def probe_layout_def target_layout_from_cs_def)

lemma list_fits: "interfaces_fit list_env Lp64 0x1000 3"
  by (simp add: interfaces_fit_def list_env_def demo_env_def interface_span_fits_def checked_add_def word_bytes_std_def
      target_word_end_def min_def)

lemma list_view:
  "a \<in> {0x1000, 0x1018, 0x1030} \<Longrightarrow> interface_view list_env Lp64 t a = Some (0, a AND 0xFF, 0)"
  by (auto simp: interface_view_def list_env_def demo_env_def checked_add_def word_bytes_std_def target_word_end_def words3_def le_at_def upt_rec)

section \<open>Properties\<close>

text \<open>C1: Every discovery record a probe submits, in any interleaving of probe
  firings with userspace writes of pause cells and of the stop word, against
  any target memory and any failing helper, passes the structural validator
  userspace runs on it. The only exceptions are loader records whose sole
  defect is a runtime state above 2 or a coalesced acknowledgement-pending
  status.\<close>

theorem probe_records_valid:
  assumes "probe_run s" "r \<in> set (ring s)"
  shows "valid_discovery_record r \<or> loader_drift r"
  using probe_run_inv[OF assms(1)] assms(2)
  by (auto simp: discovery_inv_def list_all_iff publishable_def)

theorem probe_records_valid_witness:
  "\<exists>r. ring demo_exec = [r] \<and> kind r = DISCOVERY_KIND_EXEC \<and> valid_discovery_record r"
proof -
  obtain r where r: "ring demo_exec = [r]" "kind r = 5"
    using demo_exec_ring by (cases "ring demo_exec") auto
  moreover from r have "valid_discovery_record r \<or> loader_drift r"
    by (intro probe_records_valid[OF demo_exec_run]) simp
  ultimately show ?thesis by (auto simp: loader_drift_def)
qed

text \<open>C3: While the kernel helpers succeed, the task is in scope (\<^const>\<open>calm\<close>) and the
  announced array lies in the address space (\<^const>\<open>interfaces_fit\<close>), discovering an
  interface list publishes exactly the announced elements, at most sixteen, in order and
  with their indices and the announced count, within the kernel's tail-call budget; it
  then releases the continuation row and its carried stop-gate admission. The record of
  element \<open>j\<close> shows what the target held at that element's own address: table, flags and
  class of the name, or that it was unreadable, and every function pointer it carries
  stood in its slot of that table. Target memory is arbitrary and may change.\<close>

theorem interface_list_published:
  assumes "calm env ctx l"
    and "starts s (continuation_key (cur_pid_tgid ctx)) = Some st" "ss_arg0 st \<noteq> 0"
    and "interface_continuation_pack count 0 symbol = Some (ss_arg1 st)" "count \<noteq> 0"
    and "interfaces_fit env l (ss_arg0 st) count"
    and "run_state (interface_list_worker env ctx (MAX_TAIL_CALL_CNT - 1)) s = ((), s')"
  shows "\<exists>rs. ring s' = ring s @ rs
      \<and> list_all2 (\<lambda>j. element_record env l (ss_arg0 st) (if count > 0xFFFFFFFF then 0xFFFFFFFF else ucast count) (of_nat j) symbol)
          [0..<min (unat count) 16] rs
      \<and> starts s' = (starts s)(continuation_key (cur_pid_tgid ctx) := None)
      \<and> stop_word s' = (if inventory_only (feat env) then stop_word s else stop_word s - 1)"
proof -
  have "unat (0 :: u8) < min (unat count) 16" using assms(5) by (simp add: unat_gt_0)
  from worker_visits[OF assms(1-4) this assms(6) _ assms(7)] show ?thesis by auto
qed

theorem interface_list_published_witness:
  "\<exists>s' rs. run_state (interface_list_worker list_env demo_ctx 32) list_start = ((), s')
     \<and> ring s' = rs \<and> map interface_index rs = [0, 1, 2] \<and> map table_ptr rs = [0, 0x18, 0x30] \<and> starts s' = (\<lambda>_. None)"
proof -
  obtain s' where run: "run_state (interface_list_worker list_env demo_ctx (MAX_TAIL_CALL_CNT - 1)) list_start = ((), s')"
    by (metis old.unit.exhaust prod.exhaust)
  have cur: "cur_pid_tgid demo_ctx = 0x700000007" by (simp add: demo_ctx_def)
  have row: "starts list_start (continuation_key (cur_pid_tgid demo_ctx)) =
      Some \<lparr>ss_arg0 = 0x1000, ss_arg1 = 0x0000070000000300, ss_arg2 = 0\<rparr>"
    by (simp add: list_start_def cur)
  have packed: "interface_continuation_pack 3 0 7 = Some 0x0000070000000300"
    by (simp add: interface_continuation_pack_def Let_def)
  obtain rs where rs: "ring s' = ring list_start @ rs"
    "list_all2 (\<lambda>j. element_record list_env Lp64 0x1000 (if (3 :: u64) > 0xFFFFFFFF then 0xFFFFFFFF else ucast (3 :: u64)) (of_nat j) 7)
       [0..<min (unat (3 :: u64)) 16] rs"
    "starts s' = (starts list_start)(continuation_key (cur_pid_tgid demo_ctx) := None)"
    using interface_list_published[OF list_calm row, where count = 3 and symbol = 7, OF _ _ _ _ run]
      packed list_fits by auto
  have "[0..<min (unat (3 :: u64)) 16] = [0, 1, 2]" by (simp add: upt_rec)
  moreover have "interface_stride list_env Lp64 = 24" by (simp add: list_env_def demo_env_def)
  ultimately have "map interface_index rs = [0, 1, 2] \<and> map table_ptr rs = [0, 0x18, 0x30]" using rs(2)
    by (auto simp: list_all2_Cons1 element_record_def shows_interface_def list_view)
  moreover have "starts s' = (\<lambda>_. None)" "ring s' = rs"
    using rs(1,3) by (simp_all add: list_start_def kernel_start_def cur fun_eq_iff)
  ultimately show ?thesis using run by auto
qed

text \<open>C7: Once the stop bit is set, a probe that has not been admitted does nothing
  at all: no read of the target, no row, no record, no counter.\<close>

theorem stopped_probe_inert:
  assumes "stop_word s AND STOP_GATE_STOP \<noteq> 0" "\<not> inventory_only (feat env)"
  shows "run_state (run_probe env ctx p) s = ((), s)"
  using enter_stopped[OF assms]
  by (cases p) (simp_all add: function_list_entry_def function_list_return_def interface_list_entry_def
      interface_entry_def interface_return_def dl_debug_state_def sched_process_exec_def
      sched_process_exit_def interface_list_return_def guarded_def)

theorem stopped_probe_inert_witness:
  "run_state (run_probe demo_env demo_ctx DlDebugState) (kernel_start\<lparr>stop_word := STOP_GATE_STOP\<rparr>)
     = ((), kernel_start\<lparr>stop_word := STOP_GATE_STOP\<rparr>)"
  by (rule stopped_probe_inert) (simp_all add: demo_env_def)

text \<open>C6: Every probe releases exactly the admission it took: across a whole firing,
  on every path and through the tail-call chain, the gate word is unchanged.\<close>

theorem probe_gate_balanced:
  assumes "probe_run s" "kernel_ok env" "fires_in p ctx" "run_state (run_probe env ctx p) s = ((), s')"
  shows "stop_word s' = stop_word s"
  by (rule probe_balance[OF assms(2,3) probe_run_inv[OF assms(1)] assms(4)])

theorem probe_gate_balanced_witness: "stop_word demo_exec = stop_word kernel_start"
proof (rule probe_gate_balanced[OF probe_run.boot demo_kernel_ok])
  show "fires_in SchedProcessExec demo_ctx" by (simp add: fires_in_def demo_ctx_def valid_exec_leader_def)
  show "run_state (run_probe demo_env demo_ctx SchedProcessExec) kernel_start = ((), demo_exec)"
    by (simp add: demo_exec_def prod_eq_iff)
qed

text \<open>C18: In a loader-gate build an acknowledgement-pending hit of a process whose
  pause is already requested publishes status 0x82, which the validator
  refuses: a reachable run submits a record userspace rejects.\<close>

theorem loader_ack_coalesced_rejected:
  "\<exists>s r. probe_run s \<and> r \<in> set (ring s) \<and> kind r = DISCOVERY_KIND_LOADER
     \<and> status_flags r = DISCOVERY_STATUS_LOADER_ACK_PENDING OR DISCOVERY_STATUS_COALESCED_NO_HELPER
     \<and> \<not> valid_discovery_record r"
proof -
  obtain r where r: "ring demo_ack = [r]" "kind r = 3" "status_flags r = 0x82"
    using demo_ack_ring by (cases "ring demo_ack") auto
  moreover from r have "\<not> valid_discovery_record r"
    by (simp add: valid_discovery_record_def valid_loader_record_def)
  ultimately show ?thesis using demo_ack_run by (intro exI[of _ demo_ack] exI[of _ r]) simp
qed

end
