(* ===== verification/P11_Policy.thy ===== *)
theory P11_Policy
  imports P11_Abi
begin

text \<open>
  The finite object policy (\<^verbatim>\<open>object_policy.rs\<close>): which attribute selectors may be
  read and classified, which arguments of which PKCS#11 function take part in
  object capture, and which derive mechanisms have a scalar result. Function
  names come from the catalog package \<^verbatim>\<open>pkcs11_module\<close>; its lookup is the
  parameter \<open>fname\<close> of every definition that consults it.
\<close>

section \<open>Attribute vocabulary\<close>

datatype SafeAttributeKind = Class | KeyType | Token | ValueLen | ModulusBits | EcParams

datatype SafeCurve = Secp256r1 | Secp384r1 | Secp521r1

definition safe_attribute_kind :: "u64 \<Rightarrow> SafeAttributeKind option" where
  "safe_attribute_kind raw =
     (if raw = 0x0000 then Some Class
      else if raw = 0x0001 then Some Token
      else if raw = 0x0100 then Some KeyType
      else if raw = 0x0121 then Some ModulusBits
      else if raw = 0x0161 then Some ValueLen
      else if raw = 0x0180 then Some EcParams
      else None)"

definition valid_safe_attribute_length ::
  "(LinuxLayout \<Rightarrow> u64) \<Rightarrow> SafeAttributeKind \<Rightarrow> u64 \<Rightarrow> LinuxLayout \<Rightarrow> bool" where
  "valid_safe_attribute_length wb kind len l =
     (case kind of
        Token \<Rightarrow> len = 1
      | EcParams \<Rightarrow> len = 7 \<or> len = 10
      | _ \<Rightarrow> len = wb l)"

definition classify_attribute_scalar :: "SafeAttributeKind \<Rightarrow> u64 \<Rightarrow> u16 option" where
  "classify_attribute_scalar kind value =
     (if (case kind of
            Class \<Rightarrow> value \<le> 4
          | KeyType \<Rightarrow> value \<le> 4 \<or> value = 0x10 \<or> value = 0x1f \<or> value = 0x40 \<or> value = 0x41
          | Token \<Rightarrow> value = 0 \<or> value = 1
          | ValueLen \<Rightarrow> value = 16 \<or> value = 24 \<or> value = 32
          | ModulusBits \<Rightarrow> value = 1024 \<or> value = 2048 \<or> value = 3072 \<or> value = 4096 \<or> value = 8192
          | EcParams \<Rightarrow> False)
      then Some (ucast value) else None)"

definition classify_ec_params :: "u8 list \<Rightarrow> SafeCurve option" where
  "classify_ec_params bytes =
     (if bytes = [0x06, 0x08, 0x2a, 0x86, 0x48, 0xce, 0x3d, 0x03, 0x01, 0x07] then Some Secp256r1
      else if bytes = [0x06, 0x05, 0x2b, 0x81, 0x04, 0x00, 0x22] then Some Secp384r1
      else if bytes = [0x06, 0x05, 0x2b, 0x81, 0x04, 0x00, 0x23] then Some Secp521r1
      else None)"

section \<open>Object capture descriptors\<close>

datatype ObjectAction =
    Create | Copy | Generate | GeneratePair | Derive | Unwrap | Destroy | Access
  | OperationImport | Find | GetAttributes | SetAttributes | Encapsulate | Decapsulate

datatype ResultProtocolGuard = NamedFunction | GuardScalarDerive

record ObjectCaptureDescriptor =
  input_args :: "u8 \<times> u8"
  result_pointer_args :: "u8 \<times> u8"
  template_args :: "(u8 \<times> u8) \<times> (u8 \<times> u8)"
  find_capacity_arg :: u8
  find_count_ptr_arg :: u8
  action :: ObjectAction
  result_protocol_guard :: ResultProtocolGuard

definition new_descriptor :: "ObjectAction \<Rightarrow> ObjectCaptureDescriptor" where
  "new_descriptor a =
     \<lparr>input_args = (ARG_NONE, ARG_NONE), result_pointer_args = (ARG_NONE, ARG_NONE),
      template_args = ((ARG_NONE, ARG_NONE), (ARG_NONE, ARG_NONE)),
      find_capacity_arg = ARG_NONE, find_count_ptr_arg = ARG_NONE,
      action = a, result_protocol_guard = NamedFunction\<rparr>"

definition descriptor_table :: "(string \<times> ObjectCaptureDescriptor) list" where
  "descriptor_table =
   [(''C_CreateObject'', (new_descriptor Create)
       \<lparr>result_pointer_args := (3, ARG_NONE), template_args := ((1, 2), (ARG_NONE, ARG_NONE))\<rparr>),
    (''C_CopyObject'', (new_descriptor Copy)
       \<lparr>input_args := (1, ARG_NONE), result_pointer_args := (4, ARG_NONE),
        template_args := ((2, 3), (ARG_NONE, ARG_NONE))\<rparr>),
    (''C_GenerateKey'', (new_descriptor Generate)
       \<lparr>result_pointer_args := (4, ARG_NONE), template_args := ((2, 3), (ARG_NONE, ARG_NONE))\<rparr>),
    (''C_GenerateKeyPair'', (new_descriptor GeneratePair)
       \<lparr>result_pointer_args := (6, 7), template_args := ((2, 3), (4, 5))\<rparr>),
    (''C_DeriveKey'', (new_descriptor Derive)
       \<lparr>input_args := (2, ARG_NONE), result_pointer_args := (5, ARG_NONE),
        template_args := ((3, 4), (ARG_NONE, ARG_NONE)), result_protocol_guard := GuardScalarDerive\<rparr>),
    (''C_UnwrapKey'', (new_descriptor Unwrap)
       \<lparr>input_args := (2, ARG_NONE), result_pointer_args := (7, ARG_NONE),
        template_args := ((5, 6), (ARG_NONE, ARG_NONE))\<rparr>),
    (''C_EncapsulateKey'', (new_descriptor Encapsulate)
       \<lparr>input_args := (2, ARG_NONE), result_pointer_args := (7, ARG_NONE)\<rparr>),
    (''C_DecapsulateKey'', (new_descriptor Decapsulate)
       \<lparr>input_args := (2, ARG_NONE), result_pointer_args := (7, ARG_NONE)\<rparr>),
    (''C_DestroyObject'', (new_descriptor Destroy)\<lparr>input_args := (1, ARG_NONE)\<rparr>),
    (''C_GetObjectSize'', (new_descriptor Access)\<lparr>input_args := (1, ARG_NONE)\<rparr>),
    (''C_DigestKey'', (new_descriptor Access)\<lparr>input_args := (1, ARG_NONE)\<rparr>),
    (''C_GetAttributeValue'', (new_descriptor GetAttributes)
       \<lparr>input_args := (1, ARG_NONE), template_args := ((2, 3), (ARG_NONE, ARG_NONE))\<rparr>),
    (''C_SetAttributeValue'', (new_descriptor SetAttributes)\<lparr>input_args := (1, ARG_NONE)\<rparr>),
    (''C_EncryptInit'', (new_descriptor Access)\<lparr>input_args := (2, ARG_NONE)\<rparr>),
    (''C_DecryptInit'', (new_descriptor Access)\<lparr>input_args := (2, ARG_NONE)\<rparr>),
    (''C_SignInit'', (new_descriptor Access)\<lparr>input_args := (2, ARG_NONE)\<rparr>),
    (''C_SignRecoverInit'', (new_descriptor Access)\<lparr>input_args := (2, ARG_NONE)\<rparr>),
    (''C_VerifyInit'', (new_descriptor Access)\<lparr>input_args := (2, ARG_NONE)\<rparr>),
    (''C_VerifyRecoverInit'', (new_descriptor Access)\<lparr>input_args := (2, ARG_NONE)\<rparr>),
    (''C_MessageEncryptInit'', (new_descriptor Access)\<lparr>input_args := (2, ARG_NONE)\<rparr>),
    (''C_MessageDecryptInit'', (new_descriptor Access)\<lparr>input_args := (2, ARG_NONE)\<rparr>),
    (''C_MessageSignInit'', (new_descriptor Access)\<lparr>input_args := (2, ARG_NONE)\<rparr>),
    (''C_MessageVerifyInit'', (new_descriptor Access)\<lparr>input_args := (2, ARG_NONE)\<rparr>),
    (''C_VerifySignatureInit'', (new_descriptor Access)\<lparr>input_args := (2, ARG_NONE)\<rparr>),
    (''C_WrapKey'', (new_descriptor Access)\<lparr>input_args := (2, 3)\<rparr>),
    (''C_SetOperationState'', (new_descriptor OperationImport)\<lparr>input_args := (3, 4)\<rparr>),
    (''C_FindObjects'', (new_descriptor Find)
       \<lparr>result_pointer_args := (1, ARG_NONE), find_capacity_arg := 2, find_count_ptr_arg := 3\<rparr>)]"

definition object_descriptor :: "(u32 \<Rightarrow> string option) \<Rightarrow> u32 \<Rightarrow> ObjectCaptureDescriptor option" where
  "object_descriptor fname function =
     (case fname function of None \<Rightarrow> None | Some name \<Rightarrow> map_of descriptor_table name)"

definition valid_object_descriptor ::
  "(u32 \<Rightarrow> string option) \<Rightarrow> u32 \<Rightarrow> ObjectCaptureDescriptor \<Rightarrow> bool" where
  "valid_object_descriptor fname function candidate \<longleftrightarrow> object_descriptor fname function = Some candidate"

section \<open>Derive mechanisms\<close>

datatype ScalarDeriveMechanism = DhPkcs | Sha256 | Ecdh1 | Ecdh1Cofactor

datatype DeriveResultProtocol = ProtocolUnavailable | ScalarHandle ScalarDeriveMechanism

definition derive_result_protocol :: "u64 \<Rightarrow> DeriveResultProtocol" where
  "derive_result_protocol mechanism =
     (if mechanism = 0x21 then ScalarHandle DhPkcs
      else if mechanism = 0x393 then ScalarHandle Sha256
      else if mechanism = 0x1050 then ScalarHandle Ecdh1
      else if mechanism = 0x1051 then ScalarHandle Ecdh1Cofactor
      else ProtocolUnavailable)"

definition authorized_result_pointer_args ::
  "(u32 \<Rightarrow> string option) \<Rightarrow> u32 \<Rightarrow> u64 option \<Rightarrow> u8 \<times> u8" where
  "authorized_result_pointer_args fname function mechanism =
     (case object_descriptor fname function of
        None \<Rightarrow> (ARG_NONE, ARG_NONE)
      | Some d \<Rightarrow>
          if result_protocol_guard d = GuardScalarDerive
          then (case mechanism of
                  None \<Rightarrow> (ARG_NONE, ARG_NONE)
                | Some m \<Rightarrow> if derive_result_protocol m = ProtocolUnavailable then (ARG_NONE, ARG_NONE)
                            else result_pointer_args d)
          else result_pointer_args d)"

section \<open>What the policy guarantees\<close>

lemma safe_attribute_kind_inj:
  "safe_attribute_kind a = Some k \<Longrightarrow> safe_attribute_kind b = Some k \<Longrightarrow> a = b"
  by (auto simp: safe_attribute_kind_def split: if_splits)

lemma classify_attribute_scalar_exact:
  "classify_attribute_scalar k v = Some c \<Longrightarrow> ucast c = v \<and> v \<le> 8192"
  by (cases k) (auto simp: classify_attribute_scalar_def word_le_nat_alt unat_arith_simps
      unsigned_ucast_eq take_bit_nat_eq_self split: if_splits intro!: word_unat_eq_iff[THEN iffD2])

lemma classify_ec_params_length:
  "classify_ec_params bs = Some c \<Longrightarrow> length bs = 10 \<or> length bs = 7"
  by (auto simp: classify_ec_params_def split: if_splits)

text \<open>A descriptor has the shape its action's protocol needs.\<close>

definition descriptor_ok :: "ObjectCaptureDescriptor \<Rightarrow> bool" where
  "descriptor_ok d \<longleftrightarrow>
     (fst (fst (template_args d)) = ARG_NONE \<longleftrightarrow> snd (fst (template_args d)) = ARG_NONE)
     \<and> (fst (snd (template_args d)) = ARG_NONE \<longleftrightarrow> snd (snd (template_args d)) = ARG_NONE)
     \<and> (result_protocol_guard d = GuardScalarDerive \<longleftrightarrow> action d = Derive)
     \<and> (find_capacity_arg d \<noteq> ARG_NONE \<longleftrightarrow> action d = Find)
     \<and> (find_count_ptr_arg d \<noteq> ARG_NONE \<longleftrightarrow> action d = Find)
     \<and> (action d = Derive \<longrightarrow> result_pointer_args d = (5, ARG_NONE) \<and> input_args d = (2, ARG_NONE))
     \<and> (action d = Find \<longrightarrow> result_pointer_args d = (1, ARG_NONE) \<and> input_args d = (ARG_NONE, ARG_NONE)
          \<and> template_args d = ((ARG_NONE, ARG_NONE), (ARG_NONE, ARG_NONE)))
     \<and> (action d = GetAttributes \<longrightarrow> result_pointer_args d = (ARG_NONE, ARG_NONE)
          \<and> template_args d = ((2, 3), (ARG_NONE, ARG_NONE)))
     \<and> (action d = Encapsulate \<or> action d = Decapsulate \<longrightarrow>
          input_args d = (2, ARG_NONE) \<and> result_pointer_args d = (7, ARG_NONE)
          \<and> template_args d = ((ARG_NONE, ARG_NONE), (ARG_NONE, ARG_NONE)))"

lemma descriptor_table_ok: "list_all (\<lambda>(_, d). descriptor_ok d) descriptor_table"
  unfolding descriptor_table_def list.pred_inject prod.case
  by (intro conjI TrueI; simp add: descriptor_ok_def new_descriptor_def)

lemma object_descriptor_ok: "object_descriptor fname f = Some d \<Longrightarrow> descriptor_ok d"
  using descriptor_table_ok
  by (auto simp: object_descriptor_def list_all_iff split: option.splits dest!: map_of_SomeD)

lemma authorized_result_pointer_args_refused:
  assumes "object_descriptor fname f = Some d" "action d = Derive"
    and "\<And>m. mechanism = Some m \<Longrightarrow> derive_result_protocol m = ProtocolUnavailable"
  shows "authorized_result_pointer_args fname f mechanism = (ARG_NONE, ARG_NONE)"
  using object_descriptor_ok[OF assms(1)] assms
  by (auto simp: authorized_result_pointer_args_def descriptor_ok_def split: option.splits)

end
