(* ===== verification/P11_Wire.thy ===== *)
theory P11_Wire
  imports P11_Policy
begin

text \<open>
  The object wire contracts (\<^verbatim>\<open>object_wire.rs\<close>): the frozen descriptor table, the
  240-byte object tail of a completed call, the side row that carries an object
  call from entry to return, and the validators userspace runs on raw ring
  bytes. Fixed-size arrays are lists; \<open>wire_wf\<close> predicates state their lengths.
  The byte image of a structure is its \<^verbatim>\<open>repr(C)\<close> layout.
\<close>

section \<open>Codes\<close>

abbreviation (input) MAX_DESCRIPTORS :: nat where "MAX_DESCRIPTORS \<equiv> 105"
abbreviation (input) OBJECT_CALL_VERSION :: u16 where "OBJECT_CALL_VERSION \<equiv> 1"
abbreviation (input) OBJECT_CALL_BYTES :: u16 where "OBJECT_CALL_BYTES \<equiv> 240"
abbreviation (input) OBJECT_RECORD_BYTES :: nat where "OBJECT_RECORD_BYTES \<equiv> 608"
abbreviation (input) OBJECT_TAIL_BYTES :: nat where "OBJECT_TAIL_BYTES \<equiv> 240"
abbreviation (input) EVENT_RECORD_BYTES :: nat where "EVENT_RECORD_BYTES \<equiv> 368"
abbreviation (input) START_MARKER_MAX :: u64 where "START_MARKER_MAX \<equiv> 105"

abbreviation (input) OBJECT_ACTION_NONE :: u8 where "OBJECT_ACTION_NONE \<equiv> 0"
abbreviation (input) OBJECT_ACTION_PAIR :: u8 where "OBJECT_ACTION_PAIR \<equiv> 4"
abbreviation (input) OBJECT_ACTION_DERIVE :: u8 where "OBJECT_ACTION_DERIVE \<equiv> 5"
abbreviation (input) OBJECT_ACTION_UNWRAP :: u8 where "OBJECT_ACTION_UNWRAP \<equiv> 6"
abbreviation (input) OBJECT_ACTION_IMPORT :: u8 where "OBJECT_ACTION_IMPORT \<equiv> 9"
abbreviation (input) OBJECT_ACTION_FIND :: u8 where "OBJECT_ACTION_FIND \<equiv> 10"
abbreviation (input) OBJECT_ACTION_GET :: u8 where "OBJECT_ACTION_GET \<equiv> 11"
abbreviation (input) OBJECT_ACTION_ENCAPSULATE :: u8 where "OBJECT_ACTION_ENCAPSULATE \<equiv> 13"
abbreviation (input) OBJECT_ACTION_DECAPSULATE :: u8 where "OBJECT_ACTION_DECAPSULATE \<equiv> 14"
abbreviation (input) OBJECT_ACTION_MAX :: u8 where "OBJECT_ACTION_MAX \<equiv> 14"

abbreviation (input) OBJECT_GUARD_NONE :: u8 where "OBJECT_GUARD_NONE \<equiv> 0"
abbreviation (input) OBJECT_GUARD_NAMED :: u8 where "OBJECT_GUARD_NAMED \<equiv> 1"
abbreviation (input) OBJECT_GUARD_SCALAR_DERIVE :: u8 where "OBJECT_GUARD_SCALAR_DERIVE \<equiv> 2"
abbreviation (input) OBJECT_LAYOUT_LP64 :: u8 where "OBJECT_LAYOUT_LP64 \<equiv> 1"
abbreviation (input) OBJECT_LAYOUT_ILP32 :: u8 where "OBJECT_LAYOUT_ILP32 \<equiv> 2"
abbreviation (input) OBJECT_DERIVE_UNAVAILABLE :: u8 where "OBJECT_DERIVE_UNAVAILABLE \<equiv> 0"
abbreviation (input) OBJECT_DERIVE_ECDH1_COFACTOR :: u8 where "OBJECT_DERIVE_ECDH1_COFACTOR \<equiv> 4"
abbreviation (input) OBJECT_ATTR_KIND_MAX :: u8 where "OBJECT_ATTR_KIND_MAX \<equiv> 6"
abbreviation (input) OBJECT_ATTR_STATUS_MAX :: u8 where "OBJECT_ATTR_STATUS_MAX \<equiv> 10"
abbreviation (input) OBJECT_HANDLE_STATUS_MAX :: u8 where "OBJECT_HANDLE_STATUS_MAX \<equiv> 9"
abbreviation (input) OBJECT_FLAGS_MASK :: u32 where "OBJECT_FLAGS_MASK \<equiv> 0xFF"
abbreviation (input) GET_ENTRY_FLAGS_MASK :: u16 where "GET_ENTRY_FLAGS_MASK \<equiv> 0x0F00"
abbreviation (input) GET_ENTRY_UNINSPECTED :: u16 where "GET_ENTRY_UNINSPECTED \<equiv> 0x100"
abbreviation (input) OBJECT_FIND_FLAGS_MASK :: u8 where "OBJECT_FIND_FLAGS_MASK \<equiv> 0x3F"
abbreviation (input) OBJECT_ATTR_LIST_FLAGS_MASK :: u8 where "OBJECT_ATTR_LIST_FLAGS_MASK \<equiv> 0x1F"
abbreviation (input) OBJECT_ATTR_LIST_UNINSPECTED :: u8 where "OBJECT_ATTR_LIST_UNINSPECTED \<equiv> 0x10"
abbreviation (input) OBJECT_FIND_HANDLES_MAX :: u8 where "OBJECT_FIND_HANDLES_MAX \<equiv> 8"

section \<open>Structures\<close>

record ObjectDescriptorWire =
  od_function :: u32
  od_input_args :: "u8 list"
  od_result_args :: "u8 list"
  od_template_args :: "u8 list"
  od_find_capacity_arg :: u8
  od_find_count_arg :: u8
  od_action :: u8
  od_guard :: u8

record ObjectAttributeWire =
  aw_kind :: u8
  aw_status :: u8
  aw_value :: u16

record ObjectAttributeListWire =
  al_cells :: "ObjectAttributeWire list"
  al_inspected :: u8
  al_flags :: u8
  al_reserved :: u16

record ObjectAttributeSlot =
  sl_value_ptr :: u64
  sl_entry_capacity :: u64
  sl_returned_len :: u64
  sl_kind :: u8
  sl_slot_index :: u8
  sl_status :: u8

record ObjectStart =
  os_image :: ImageIdentity
  os_entry_ns :: u64
  os_descriptor_index :: u32
  os_layout :: u8
  os_action :: u8
  os_derive :: u8
  os_phase :: u8
  os_inputs :: "u64 list"
  os_result_ptrs :: "u64 list"
  os_get_template_base :: u64
  os_inspected_header_end :: u64
  os_find_capacity :: u64
  os_find_count_ptr :: u64
  os_slots :: "ObjectAttributeSlot list"
  os_requested :: "ObjectAttributeListWire list"
  os_input_statuses :: "u8 list"
  os_result_statuses :: "u8 list"
  os_flags :: u16
  os_get_inspected :: u8

record ObjectCallWire =
  oc_version :: u16
  oc_bytes :: u16
  oc_descriptor_index :: u32
  oc_flags :: u32
  oc_layout :: u8
  oc_action :: u8
  oc_entry_derive :: u8
  oc_reserved0 :: u8
  oc_input_handles :: "u64 list"
  oc_result_handles :: "u64 list"
  oc_find_handles :: "u64 list"
  oc_input_status :: "u8 list"
  oc_result_status :: "u8 list"
  oc_find_status :: "u8 list"
  oc_find_len :: u8
  oc_find_flags :: u8
  oc_find_valid :: u8
  oc_reserved1 :: u8
  oc_requested :: "ObjectAttributeListWire list"
  oc_result_attributes :: ObjectAttributeListWire
  oc_reserved2 :: u32

definition none_object_wire :: ObjectDescriptorWire where
  "none_object_wire =
     \<lparr>od_function = FUNCTION_NONE, od_input_args = replicate 2 ARG_NONE,
      od_result_args = replicate 2 ARG_NONE, od_template_args = replicate 4 ARG_NONE,
      od_find_capacity_arg = ARG_NONE, od_find_count_arg = ARG_NONE,
      od_action = OBJECT_ACTION_NONE, od_guard = OBJECT_GUARD_NONE\<rparr>"

datatype ObjectRecordForm = Ordinary | ObjectForm

datatype StartMarkerVerdict = OrdinaryStart | Required u32 | InvalidStart

section \<open>The descriptor table\<close>

fun action_code :: "ObjectAction \<Rightarrow> u8" where
  "action_code Create = 1"
| "action_code Copy = 2"
| "action_code Generate = 3"
| "action_code GeneratePair = 4"
| "action_code Derive = 5"
| "action_code Unwrap = 6"
| "action_code Encapsulate = 13"
| "action_code Decapsulate = 14"
| "action_code Destroy = 7"
| "action_code Access = 8"
| "action_code OperationImport = 9"
| "action_code Find = 10"
| "action_code GetAttributes = 11"
| "action_code SetAttributes = 12"

fun guard_code :: "ResultProtocolGuard \<Rightarrow> u8" where
  "guard_code NamedFunction = OBJECT_GUARD_NAMED"
| "guard_code GuardScalarDerive = OBJECT_GUARD_SCALAR_DERIVE"

definition canonical_object_wire :: "(u32 \<Rightarrow> string option) \<Rightarrow> u32 \<Rightarrow> ObjectDescriptorWire" where
  "canonical_object_wire fname function =
     (case object_descriptor fname function of
        None \<Rightarrow> none_object_wire
      | Some policy \<Rightarrow>
          \<lparr>od_function = function,
           od_input_args = [fst (input_args policy), snd (input_args policy)],
           od_result_args = [fst (result_pointer_args policy), snd (result_pointer_args policy)],
           od_template_args =
             [fst (fst (template_args policy)), snd (fst (template_args policy)),
              fst (snd (template_args policy)), snd (snd (template_args policy))],
           od_find_capacity_arg = find_capacity_arg policy,
           od_find_count_arg = find_count_ptr_arg policy,
           od_action = action_code (action policy),
           od_guard = guard_code (result_protocol_guard policy)\<rparr>)"

definition publish_object_descriptors :: "(u32 \<Rightarrow> string option) \<Rightarrow> ObjectDescriptorWire list" where
  "publish_object_descriptors fname =
     fold (\<lambda>function rows. rows[function + 1 := canonical_object_wire fname (of_nat function)])
       [0..<MAX_DESCRIPTORS - 1] (replicate MAX_DESCRIPTORS none_object_wire)"

definition verify_object_descriptors ::
  "(u32 \<Rightarrow> string option) \<Rightarrow> ObjectDescriptorWire list \<Rightarrow> bool" where
  "verify_object_descriptors fname rows \<longleftrightarrow>
     rows ! 0 = none_object_wire
     \<and> (\<forall>function \<in> {0..<MAX_DESCRIPTORS - 1}.
          rows ! (function + 1) = canonical_object_wire fname (of_nat function))"

section \<open>Validation of raw bytes\<close>

abbreviation (input) tail_u16 :: "u8 list \<Rightarrow> nat \<Rightarrow> u16" where "tail_u16 \<equiv> le_at 2"
abbreviation (input) tail_u32 :: "u8 list \<Rightarrow> nat \<Rightarrow> u32" where "tail_u32 \<equiv> le_at 4"
abbreviation (input) tail_u64 :: "u8 list \<Rightarrow> nat \<Rightarrow> u64" where "tail_u64 \<equiv> le_at 8"

definition valid_handle_word :: "u8 \<Rightarrow> u64 \<Rightarrow> u8 \<Rightarrow> bool" where
  "valid_handle_word status word l =
     (if l = OBJECT_LAYOUT_ILP32 \<and> word > 0xFFFFFFFF then False
      else if status = 1 then word \<noteq> 0 else word = 0)"

definition valid_find_section :: "u8 list \<Rightarrow> u8 \<Rightarrow> u8 \<Rightarrow> bool" where
  "valid_find_section tail act l =
     (let find_len = tail ! 124; find_flags = tail ! 125; find_valid = tail ! 126 in
      if tail ! 127 \<noteq> 0 then False
      else if find_len > OBJECT_FIND_HANDLES_MAX \<or> find_flags AND NOT OBJECT_FIND_FLAGS_MASK \<noteq> 0
              \<or> find_valid > 1 then False
      else if act \<noteq> OBJECT_ACTION_FIND
      then find_len = 0 \<and> find_flags = 0 \<and> find_valid = 0
           \<and> (\<forall>i < 8. tail ! (116 + i) = 0 \<and> tail_u64 tail (48 + 8 * i) = 0)
      else if find_valid = 0 \<and> find_len \<noteq> 0 then False
      else if find_flags AND 1 \<noteq> 0 \<and> find_len \<noteq> OBJECT_FIND_HANDLES_MAX then False
      else \<forall>i < 8. let status = tail ! (116 + i) in
             status \<le> OBJECT_HANDLE_STATUS_MAX
             \<and> (if i < unat find_len then status \<noteq> 0 else status = 0)
             \<and> valid_handle_word status (tail_u64 tail (48 + 8 * i)) l)"

definition valid_attribute_list :: "u8 list \<Rightarrow> bool" where
  "valid_attribute_list list =
     (let inspected = list ! 32; flags = list ! 33 in
      if inspected > 8 \<or> list ! 34 \<noteq> 0 \<or> list ! 35 \<noteq> 0
         \<or> flags AND NOT OBJECT_ATTR_LIST_FLAGS_MASK \<noteq> 0 then False
      else if flags AND OBJECT_ATTR_LIST_UNINSPECTED \<noteq> 0
      then inspected = 0 \<and> flags = OBJECT_ATTR_LIST_UNINSPECTED \<and> list_all (\<lambda>b. b = 0) (take 32 list)
      else if inspected > 0 \<and> flags AND 1 = 0 then False
      else if flags AND 2 \<noteq> 0 \<and> inspected \<noteq> 8 then False
      else \<forall>i < 8.
        let kind = list ! (4 * i); status = list ! (4 * i + 1); value = tail_u16 list (4 * i + 2) in
        kind \<le> OBJECT_ATTR_KIND_MAX \<and> status \<le> OBJECT_ATTR_STATUS_MAX
        \<and> \<not> (status \<noteq> 1 \<and> value \<noteq> 0)
        \<and> \<not> (unat inspected \<le> i \<and> (kind \<noteq> 0 \<or> status \<noteq> 0 \<or> value \<noteq> 0)))"

definition row_codes_ok :: "ObjectDescriptorWire \<Rightarrow> bool" where
  "row_codes_ok row \<longleftrightarrow>
     od_action row \<noteq> OBJECT_ACTION_NONE \<and> od_action row \<le> OBJECT_ACTION_MAX
     \<and> od_guard row \<noteq> OBJECT_GUARD_NONE \<and> od_guard row \<le> OBJECT_GUARD_SCALAR_DERIVE"

definition validate_object_tail :: "u8 list \<Rightarrow> ObjectDescriptorWire \<Rightarrow> bool" where
  "validate_object_tail tail row =
     (if length tail \<noteq> OBJECT_TAIL_BYTES then False
      else if tail_u16 tail 0 \<noteq> OBJECT_CALL_VERSION \<or> tail_u16 tail 2 \<noteq> OBJECT_CALL_BYTES then False
      else let index = tail_u32 tail 4; l = tail ! 12; act = tail ! 13; entry_derive = tail ! 14 in
      if index = 0 \<or> index \<ge> of_nat MAX_DESCRIPTORS then False
      else if (ucast (od_function row) :: u64) \<noteq> ucast index - 1 then False
      else if \<not> row_codes_ok row then False
      else if act \<noteq> od_action row then False
      else if tail_u32 tail 8 AND NOT OBJECT_FLAGS_MASK \<noteq> 0 then False
      else if l \<noteq> OBJECT_LAYOUT_LP64 \<and> l \<noteq> OBJECT_LAYOUT_ILP32 then False
      else if act > OBJECT_ACTION_MAX then False
      else if entry_derive > OBJECT_DERIVE_ECDH1_COFACTOR then False
      else if act \<noteq> OBJECT_ACTION_DERIVE \<and> entry_derive \<noteq> OBJECT_DERIVE_UNAVAILABLE then False
      else if tail ! 15 \<noteq> 0 then False
      else
        (\<forall>i < 2. let status = tail ! (112 + i) in
           status \<le> OBJECT_HANDLE_STATUS_MAX
           \<and> (if od_input_args row ! i = ARG_NONE then status = 0
              else \<not> (act \<noteq> OBJECT_ACTION_IMPORT \<and> status = 0))
           \<and> valid_handle_word status (tail_u64 tail (16 + 8 * i)) l)
        \<and> (\<forall>i < 2. let status = tail ! (114 + i) in
           status \<le> OBJECT_HANDLE_STATUS_MAX
           \<and> (if od_result_args row ! i = ARG_NONE then status = 0 else status \<noteq> 0)
           \<and> valid_handle_word status (tail_u64 tail (32 + 8 * i)) l)
        \<and> valid_find_section tail act l
        \<and> (\<forall>i < 2. let p0 = od_template_args row ! (2 * i); p1 = od_template_args row ! (2 * i + 1);
                       list = slice_of (128 + 36 * i) (128 + 36 * (i + 1)) tail in
           ((p0 \<noteq> ARG_NONE) = (p1 \<noteq> ARG_NONE))
           \<and> (if \<not> (p0 \<noteq> ARG_NONE \<and> p1 \<noteq> ARG_NONE) then list_all (\<lambda>b. b = 0) list
              else valid_attribute_list list))
        \<and> (let results = slice_of 200 236 tail in
           if act \<noteq> OBJECT_ACTION_GET then list_all (\<lambda>b. b = 0) results else valid_attribute_list results)
        \<and> tail_u32 tail 236 = 0)"

definition object_record_form :: "u8 list \<Rightarrow> ObjectDescriptorWire list \<Rightarrow> ObjectRecordForm option" where
  "object_record_form bytes rows =
     (if length bytes = EVENT_RECORD_BYTES then Some Ordinary
      else if length bytes \<noteq> OBJECT_RECORD_BYTES then None
      else let index = tail_u32 bytes 372 in
        if index = 0 \<or> index \<ge> of_nat MAX_DESCRIPTORS then None
        else if validate_object_tail (drop 368 bytes) (rows ! unat index) then Some ObjectForm
        else None)"

definition validate_start_marker :: "u64 \<Rightarrow> ObjectDescriptorWire list \<Rightarrow> StartMarkerVerdict" where
  "validate_start_marker marker rows =
     (if marker = 0 then OrdinaryStart
      else if marker > START_MARKER_MAX then InvalidStart
      else let row = rows ! unat (marker - 1) in
        if marker \<ge> 2 \<and> ucast (od_function row) = marker - 2 \<and> row_codes_ok row
        then Required (ucast (marker - 1)) else InvalidStart)"

definition object_result_arg7_address ::
  "ObjectDescriptorWire \<Rightarrow> u64 \<Rightarrow> LinuxLayout \<Rightarrow> u64 option" where
  "object_result_arg7_address row stack_pointer l =
     (let named_seven = od_action row = OBJECT_ACTION_PAIR \<or> od_action row = OBJECT_ACTION_UNWRAP
            \<or> od_action row = OBJECT_ACTION_ENCAPSULATE \<or> od_action row = OBJECT_ACTION_DECAPSULATE in
      if \<not> named_seven \<or> 7 \<notin> set (od_result_args row) then None
      else case l of
        Lp64 \<Rightarrow> do { address \<leftarrow> checked_add stack_pointer 16; _ \<leftarrow> target_word_end address l; Some address }
      | Ilp32 \<Rightarrow> do { address \<leftarrow> checked_add (stack_pointer AND 0xFFFFFFFF) 32;
                      _ \<leftarrow> target_word_end address l; Some address })"

section \<open>Byte images and the contract on structures\<close>

definition words_image :: "u64 list \<Rightarrow> u8 list" where
  "words_image ws = concat (map (to_le 8) ws)"

definition cell_image :: "ObjectAttributeWire \<Rightarrow> u8 list" where
  "cell_image c = [aw_kind c, aw_status c] @ to_le 2 (aw_value c)"

definition list_image :: "ObjectAttributeListWire \<Rightarrow> u8 list" where
  "list_image l = concat (map cell_image (al_cells l)) @ [al_inspected l, al_flags l] @ to_le 2 (al_reserved l)"

definition tail_image :: "ObjectCallWire \<Rightarrow> u8 list" where
  "tail_image w =
     to_le 2 (oc_version w) @ to_le 2 (oc_bytes w) @ to_le 4 (oc_descriptor_index w) @ to_le 4 (oc_flags w)
     @ [oc_layout w, oc_action w, oc_entry_derive w, oc_reserved0 w]
     @ words_image (oc_input_handles w) @ words_image (oc_result_handles w) @ words_image (oc_find_handles w)
     @ oc_input_status w @ oc_result_status w @ oc_find_status w
     @ [oc_find_len w, oc_find_flags w, oc_find_valid w, oc_reserved1 w]
     @ list_image (oc_requested w ! 0) @ list_image (oc_requested w ! 1)
     @ list_image (oc_result_attributes w) @ to_le 4 (oc_reserved2 w)"

definition list_wf :: "ObjectAttributeListWire \<Rightarrow> bool" where
  "list_wf l \<longleftrightarrow> length (al_cells l) = 8"

definition tail_wf :: "ObjectCallWire \<Rightarrow> bool" where
  "tail_wf w \<longleftrightarrow>
     length (oc_input_handles w) = 2 \<and> length (oc_result_handles w) = 2 \<and> length (oc_find_handles w) = 8
     \<and> length (oc_input_status w) = 2 \<and> length (oc_result_status w) = 2 \<and> length (oc_find_status w) = 8
     \<and> length (oc_requested w) = 2 \<and> list_wf (oc_requested w ! 0) \<and> list_wf (oc_requested w ! 1)
     \<and> list_wf (oc_result_attributes w)"

definition zero_cell :: ObjectAttributeWire where
  "zero_cell = \<lparr>aw_kind = 0, aw_status = 0, aw_value = 0\<rparr>"

definition zero_list :: ObjectAttributeListWire where
  "zero_list = \<lparr>al_cells = replicate 8 zero_cell, al_inspected = 0, al_flags = 0, al_reserved = 0\<rparr>"

text \<open>What a consumer may rely on, stated on the fields.\<close>

definition cell_ok :: "ObjectAttributeWire \<Rightarrow> bool" where
  "cell_ok c \<longleftrightarrow> aw_kind c \<le> OBJECT_ATTR_KIND_MAX \<and> aw_status c \<le> OBJECT_ATTR_STATUS_MAX
     \<and> (aw_value c \<noteq> 0 \<longrightarrow> aw_status c = 1)"

definition list_ok :: "ObjectAttributeListWire \<Rightarrow> bool" where
  "list_ok l \<longleftrightarrow>
     list_wf l \<and> al_reserved l = 0 \<and> al_flags l AND NOT OBJECT_ATTR_LIST_FLAGS_MASK = 0
     \<and> (if al_flags l AND OBJECT_ATTR_LIST_UNINSPECTED \<noteq> 0
        then l = zero_list\<lparr>al_flags := OBJECT_ATTR_LIST_UNINSPECTED\<rparr>
        else al_inspected l \<le> 8 \<and> (al_inspected l > 0 \<longrightarrow> al_flags l AND 1 \<noteq> 0)
          \<and> (al_flags l AND 2 \<noteq> 0 \<longrightarrow> al_inspected l = 8)
          \<and> (\<forall>i < 8. cell_ok (al_cells l ! i) \<and> (unat (al_inspected l) \<le> i \<longrightarrow> al_cells l ! i = zero_cell)))"

definition find_ok :: "ObjectCallWire \<Rightarrow> bool" where
  "find_ok w \<longleftrightarrow>
     oc_find_len w \<le> 8 \<and> oc_find_flags w AND NOT OBJECT_FIND_FLAGS_MASK = 0 \<and> oc_find_valid w \<le> 1
     \<and> (oc_find_valid w = 0 \<longrightarrow> oc_find_len w = 0)
     \<and> (oc_find_flags w AND 1 \<noteq> 0 \<longrightarrow> oc_find_len w = 8)
     \<and> (\<forall>i < 8. oc_find_status w ! i \<le> OBJECT_HANDLE_STATUS_MAX
          \<and> (oc_find_status w ! i \<noteq> 0 \<longleftrightarrow> i < unat (oc_find_len w))
          \<and> valid_handle_word (oc_find_status w ! i) (oc_find_handles w ! i) (oc_layout w))"

definition no_find :: "ObjectCallWire \<Rightarrow> bool" where
  "no_find w \<longleftrightarrow> oc_find_len w = 0 \<and> oc_find_flags w = 0 \<and> oc_find_valid w = 0
     \<and> oc_find_status w = replicate 8 0 \<and> oc_find_handles w = replicate 8 0"

definition handles_ok :: "(nat \<Rightarrow> bool) \<Rightarrow> (nat \<Rightarrow> bool) \<Rightarrow> u8 list \<Rightarrow> u64 list \<Rightarrow> u8 \<Rightarrow> bool" where
  "handles_ok absent optional statuses ws l \<longleftrightarrow>
     (\<forall>i < 2. statuses ! i \<le> OBJECT_HANDLE_STATUS_MAX
        \<and> (absent i \<longrightarrow> statuses ! i = 0) \<and> (\<not> absent i \<and> \<not> optional i \<longrightarrow> statuses ! i \<noteq> 0)
        \<and> valid_handle_word (statuses ! i) (ws ! i) l)"

definition pair_present :: "ObjectDescriptorWire \<Rightarrow> nat \<Rightarrow> bool" where
  "pair_present row i \<longleftrightarrow>
     od_template_args row ! (2 * i) \<noteq> ARG_NONE \<and> od_template_args row ! (2 * i + 1) \<noteq> ARG_NONE"

definition row_names :: "ObjectDescriptorWire \<Rightarrow> u32 \<Rightarrow> bool" where
  "row_names row index \<longleftrightarrow> index \<noteq> 0 \<and> index < of_nat MAX_DESCRIPTORS \<and> od_function row = index - 1
     \<and> row_codes_ok row
     \<and> (\<forall>i < 2. (od_template_args row ! (2 * i) \<noteq> ARG_NONE) = (od_template_args row ! (2 * i + 1) \<noteq> ARG_NONE))"

definition object_call_ok :: "ObjectCallWire \<Rightarrow> ObjectDescriptorWire \<Rightarrow> bool" where
  "object_call_ok w row \<longleftrightarrow>
     oc_version w = OBJECT_CALL_VERSION \<and> oc_bytes w = OBJECT_CALL_BYTES
     \<and> row_names row (oc_descriptor_index w) \<and> oc_action w = od_action row
     \<and> oc_flags w AND NOT OBJECT_FLAGS_MASK = 0
     \<and> (oc_layout w = OBJECT_LAYOUT_LP64 \<or> oc_layout w = OBJECT_LAYOUT_ILP32)
     \<and> oc_entry_derive w \<le> OBJECT_DERIVE_ECDH1_COFACTOR
     \<and> (oc_action w \<noteq> OBJECT_ACTION_DERIVE \<longrightarrow> oc_entry_derive w = OBJECT_DERIVE_UNAVAILABLE)
     \<and> oc_reserved0 w = 0 \<and> oc_reserved1 w = 0 \<and> oc_reserved2 w = 0
     \<and> handles_ok (\<lambda>i. od_input_args row ! i = ARG_NONE) (\<lambda>_. oc_action w = OBJECT_ACTION_IMPORT)
         (oc_input_status w) (oc_input_handles w) (oc_layout w)
     \<and> handles_ok (\<lambda>i. od_result_args row ! i = ARG_NONE) (\<lambda>_. False)
         (oc_result_status w) (oc_result_handles w) (oc_layout w)
     \<and> (if oc_action w = OBJECT_ACTION_FIND then find_ok w else no_find w)
     \<and> (\<forall>i < 2. if pair_present row i then list_ok (oc_requested w ! i) else oc_requested w ! i = zero_list)
     \<and> (if oc_action w = OBJECT_ACTION_GET then list_ok (oc_result_attributes w)
        else oc_result_attributes w = zero_list)"

section \<open>The descriptor table is exact\<close>

lemma fold_update_length [simp]: "length (fold (\<lambda>i xs. xs[Suc i := f i]) is xs) = length xs"
  by (induction "is" arbitrary: xs) auto

lemma fold_update_nth:
  assumes "j < length xs"
  shows "fold (\<lambda>i xs. xs[Suc i := f i]) [0..<n] xs ! j = (if 0 < j \<and> j \<le> n then f (j - 1) else xs ! j)"
  using assms by (induction n) (auto simp: nth_list_update le_Suc_eq)

lemma publish_length [simp]: "length (publish_object_descriptors fname) = 105"
  by (simp add: publish_object_descriptors_def)

lemma publish_nth:
  "j < 105 \<Longrightarrow> publish_object_descriptors fname ! j =
     (if j = 0 then none_object_wire else canonical_object_wire fname (of_nat (j - 1)))"
  unfolding publish_object_descriptors_def Suc_eq_plus1[symmetric] by (subst fold_update_nth) auto

lemma verify_iff_published:
  assumes "length rows = 105"
  shows "verify_object_descriptors fname rows \<longleftrightarrow> rows = publish_object_descriptors fname"
proof
  assume v: "verify_object_descriptors fname rows"
  show "rows = publish_object_descriptors fname"
  proof (rule nth_equalityI)
    fix i assume "i < length rows"
    with assms v show "rows ! i = publish_object_descriptors fname ! i"
      by (cases i) (auto simp: publish_nth verify_object_descriptors_def simp del: upt_Suc)
  qed (simp add: assms)
next
  assume "rows = publish_object_descriptors fname"
  then show "verify_object_descriptors fname rows"
    by (auto simp: verify_object_descriptors_def publish_nth)
qed

lemma action_code_ok [simp]: "action_code a \<noteq> 0" "action_code a \<le> 14"
  by (cases a; simp)+

lemma action_code_inj [simp]: "action_code a = action_code b \<longleftrightarrow> a = b"
  by (cases a; cases b; simp)

lemma guard_code_ok [simp]: "guard_code g \<noteq> 0" "guard_code g \<le> 2"
  by (cases g; simp)+

lemma canonical_row_codes [simp]:
  "row_codes_ok (canonical_object_wire fname f) \<longleftrightarrow> object_descriptor fname f \<noteq> None"
  by (auto simp: row_codes_ok_def canonical_object_wire_def none_object_wire_def split: option.splits)

lemma canonical_function:
  "object_descriptor fname f \<noteq> None \<Longrightarrow> od_function (canonical_object_wire fname f) = f"
  by (auto simp: canonical_object_wire_def)

lemma canonical_row_names:
  assumes "object_descriptor fname (index - 1) \<noteq> None" "index \<noteq> 0" "index < 105"
  shows "row_names (canonical_object_wire fname (index - 1)) index"
proof -
  obtain d where d: "object_descriptor fname (index - 1) = Some d" using assms(1) by blast
  with object_descriptor_ok[OF d] show ?thesis
    using assms(2,3)
    by (auto simp: row_names_def canonical_object_wire_def descriptor_ok_def row_codes_ok_def less_2_cases_iff)
qed

section \<open>Byte validation is exactly the contract on fields\<close>

lemma length_words_image [simp]: "length (words_image ws) = 8 * length ws"
  by (induction ws) (auto simp: words_image_def)

lemma le_at_words_image: "i < length ws \<Longrightarrow> le_at 8 (words_image ws) (8 * i) = ws ! i"
proof (induction ws arbitrary: i)
  case (Cons w ws)
  show ?case
  proof (cases i)
    case 0
    then show ?thesis by (simp add: words_image_def byte_image)
  next
    case (Suc j)
    with Cons have "le_at 8 (words_image ws) (8 * j) = ws ! j" by simp
    with Suc show ?thesis by (simp add: words_image_def byte_image)
  qed
qed simp

lemma length_cell_image [simp]: "length (cell_image c) = 4"
  by (simp add: cell_image_def)

lemma length_cells_image [simp]: "length (concat (map cell_image cs)) = 4 * length cs"
  by (induction cs) auto

lemma cells_image_nth:
  assumes "i < length cs"
  shows "concat (map cell_image cs) ! (4 * i) = aw_kind (cs ! i)"
    and "concat (map cell_image cs) ! (4 * i + 1) = aw_status (cs ! i)"
    and "le_at 2 (concat (map cell_image cs)) (4 * i + 2) = aw_value (cs ! i)"
proof -
  have "concat (map cell_image cs) ! (4 * i) = aw_kind (cs ! i)
    \<and> concat (map cell_image cs) ! (4 * i + 1) = aw_status (cs ! i)
    \<and> le_at 2 (concat (map cell_image cs)) (4 * i + 2) = aw_value (cs ! i)"
    using assms
  proof (induction cs arbitrary: i)
    case (Cons c cs)
    show ?case
    proof (cases i)
      case 0
      have "le_at 2 (cell_image c @ concat (map cell_image cs)) 2 = le_at 2 (cell_image c) 2"
        by (rule le_at_append1) simp
      with 0 show ?thesis by (simp add: cell_image_def nth_append le_at_def from_le_to_le)
    next
      case (Suc j)
      have "4 * i = length (cell_image c) + 4 * j" "4 * i + 1 = length (cell_image c) + (4 * j + 1)"
        "4 * i + 2 = length (cell_image c) + (4 * j + 2)"
        using Suc by simp_all
      with Cons.IH[of j] Cons.prems Suc show ?thesis
        by (simp only: list.map concat.simps nth_append_length_plus le_at_append2 le_add1 diff_add_inverse)
          simp
    qed
  qed simp
  then show "concat (map cell_image cs) ! (4 * i) = aw_kind (cs ! i)"
    "concat (map cell_image cs) ! (4 * i + 1) = aw_status (cs ! i)"
    "le_at 2 (concat (map cell_image cs)) (4 * i + 2) = aw_value (cs ! i)" by auto
qed

lemma length_list_image [simp]: "list_wf l \<Longrightarrow> length (list_image l) = 36"
  by (simp add: list_image_def list_wf_def)

lemma list_image_nth:
  assumes "list_wf l"
  shows "list_image l ! 32 = al_inspected l" "list_image l ! 33 = al_flags l"
    "list_image l ! 34 = ucast (al_reserved l)" "list_image l ! 35 = ucast (drop_bit 8 (al_reserved l))"
    "i < 8 \<Longrightarrow> list_image l ! (4 * i) = aw_kind (al_cells l ! i)"
    "i < 8 \<Longrightarrow> list_image l ! (4 * i + 1) = aw_status (al_cells l ! i)"
    "i < 8 \<Longrightarrow> le_at 2 (list_image l) (4 * i + 2) = aw_value (al_cells l ! i)"
  using assms cells_image_nth[of i "al_cells l"]
  by (simp_all add: list_image_def list_wf_def nth_append le_at_append1 numeral_2_eq_2)

lemma word16_halves_zero: "(ucast (w :: u16) :: u8) = 0 \<and> (ucast (drop_bit 8 w) :: u8) = 0 \<longleftrightarrow> w = 0"
proof
  assume z: "(ucast w :: u8) = 0 \<and> (ucast (drop_bit 8 w) :: u8) = 0"
  have "\<not> bit w n" for n
  proof (cases "n < 8")
    case True
    then have "bit (ucast w :: u8) n = bit w n" by (simp add: bit_simps)
    with z show ?thesis by simp
  next
    case False
    have "bit (ucast (drop_bit 8 w) :: u8) (n - 8) = (n - 8 < 8 \<and> bit w n)"
      using False by (simp add: bit_simps)
    with z show ?thesis using bit_imp_le_length[of w n] by auto
  qed
  then show "w = 0" by (intro bit_word_eqI) simp
qed simp

lemma cell_image_zero_iff: "list_all (\<lambda>b. b = 0) (cell_image c) \<longleftrightarrow> c = zero_cell"
  using word16_halves_zero[of "aw_value c"]
  by (cases c) (auto simp: cell_image_def zero_cell_def numeral_2_eq_2)

lemma cells_image_zero_iff:
  "list_all (\<lambda>b. b = 0) (concat (map cell_image cs)) \<longleftrightarrow> cs = replicate (length cs) zero_cell"
  by (induction cs) (auto simp: cell_image_zero_iff)

lemma list_image_zero_iff: "list_wf l \<Longrightarrow> list_all (\<lambda>b. b = 0) (list_image l) \<longleftrightarrow> l = zero_list"
  using word16_halves_zero[of "al_reserved l"]
  by (cases l) (auto simp: list_image_def list_wf_def cells_image_zero_iff zero_list_def numeral_2_eq_2)

lemma valid_attribute_list_iff:
  assumes "list_wf l"
  shows "valid_attribute_list (list_image l) \<longleftrightarrow> list_ok l"
proof -
  note f = list_image_nth[OF assms]
  have wf: "length (al_cells l) = 8" using assms by (simp add: list_wf_def)
  have res: "(list_image l ! 34 \<noteq> 0 \<or> list_image l ! 35 \<noteq> 0) \<longleftrightarrow> al_reserved l \<noteq> 0"
    using word16_halves_zero[of "al_reserved l"] by (simp add: f) blast
  have "take 32 (list_image l) = concat (map cell_image (al_cells l))"
    by (simp add: list_image_def wf)
  then have pre: "list_all (\<lambda>b. b = 0) (take 32 (list_image l)) \<longleftrightarrow> al_cells l = replicate 8 zero_cell"
    by (simp add: cells_image_zero_iff wf)
  have unins: "al_inspected l = 0 \<and> al_flags l = 0x10 \<and> al_cells l = replicate 8 zero_cell
      \<longleftrightarrow> l = zero_list\<lparr>al_flags := 0x10\<rparr>" if "al_reserved l = 0"
    using that by (cases l) (auto simp: zero_list_def)
  have ins: "zero_list\<lparr>al_flags := 0x10\<rparr> = l \<Longrightarrow> al_inspected l = 0" by (auto simp: zero_list_def)
  have cell: "(al_cells l ! i = zero_cell) \<longleftrightarrow>
      aw_kind (al_cells l ! i) = 0 \<and> aw_status (al_cells l ! i) = 0 \<and> aw_value (al_cells l ! i) = 0" for i
    by (cases "al_cells l ! i") (auto simp: zero_cell_def)
  show ?thesis
  proof (cases "al_reserved l = 0 \<and> al_flags l AND NOT 0x1F = 0")
    case False
    then show ?thesis using res by (auto simp: valid_attribute_list_def Let_def list_ok_def f)
  next
    case True
    note t = True
    show ?thesis
    proof (cases "al_flags l AND 0x10 = 0")
      case True
      have "(\<forall>i < 8. let kind = list_image l ! (4 * i); status = list_image l ! (4 * i + 1);
              value = le_at 2 (list_image l) (4 * i + 2) :: u16 in
            kind \<le> 6 \<and> status \<le> 10 \<and> \<not> (status \<noteq> 1 \<and> value \<noteq> 0)
            \<and> \<not> (unat (al_inspected l) \<le> i \<and> (kind \<noteq> 0 \<or> status \<noteq> 0 \<or> value \<noteq> 0)))
          \<longleftrightarrow> (\<forall>i < 8. cell_ok (al_cells l ! i) \<and> (unat (al_inspected l) \<le> i \<longrightarrow> al_cells l ! i = zero_cell))"
        by (intro all_cong) (simp only: f(5-7) cell cell_ok_def Let_def, blast)
      with t True res show ?thesis
        by (auto simp: valid_attribute_list_def list_ok_def assms f(1,2) Let_def not_less)
    next
      case False
      with t res pre unins ins show ?thesis
        by (auto simp: valid_attribute_list_def list_ok_def assms f(1,2) Let_def)
    qed
  qed
qed

lemma tail_wfD [simp]:
  assumes "tail_wf w"
  shows "length (oc_input_handles w) = 2" "length (oc_result_handles w) = 2" "length (oc_find_handles w) = 8"
    "length (oc_input_status w) = 2" "length (oc_result_status w) = 2" "length (oc_find_status w) = 8"
    "length (oc_requested w) = 2" "list_wf (oc_requested w ! 0)" "list_wf (oc_requested w ! Suc 0)"
    "list_wf (oc_result_attributes w)"
  using assms by (simp_all add: tail_wf_def)

lemma length_tail_image [simp]: "tail_wf w \<Longrightarrow> length (tail_image w) = 240"
  by (simp add: tail_image_def)

lemma tail_image_scalars:
  assumes "tail_wf w"
  shows "le_at 2 (tail_image w) 0 = oc_version w" "le_at 2 (tail_image w) 2 = oc_bytes w"
    "le_at 4 (tail_image w) 4 = oc_descriptor_index w" "le_at 4 (tail_image w) 8 = oc_flags w"
    "tail_image w ! 12 = oc_layout w" "tail_image w ! 13 = oc_action w"
    "tail_image w ! 14 = oc_entry_derive w" "tail_image w ! 15 = oc_reserved0 w"
    "tail_image w ! 124 = oc_find_len w" "tail_image w ! 125 = oc_find_flags w"
    "tail_image w ! 126 = oc_find_valid w" "tail_image w ! 127 = oc_reserved1 w"
    "le_at 4 (tail_image w) 236 = oc_reserved2 w"
  using assms by (simp_all add: tail_image_def byte_image nth_append le_at_def from_le_to_le)

lemma tail_image_arrays:
  assumes "tail_wf w"
  shows "i < 2 \<Longrightarrow> le_at 8 (tail_image w) (16 + 8 * i) = oc_input_handles w ! i"
    "i < 2 \<Longrightarrow> le_at 8 (tail_image w) (32 + 8 * i) = oc_result_handles w ! i"
    "i < 8 \<Longrightarrow> le_at 8 (tail_image w) (48 + 8 * i) = oc_find_handles w ! i"
    "i < 2 \<Longrightarrow> tail_image w ! (112 + i) = oc_input_status w ! i"
    "i < 2 \<Longrightarrow> tail_image w ! (114 + i) = oc_result_status w ! i"
    "i < 8 \<Longrightarrow> tail_image w ! (116 + i) = oc_find_status w ! i"
  using assms by (simp_all add: tail_image_def byte_image le_at_words_image nth_append)

lemma tail_image_lists:
  assumes "tail_wf w"
  shows "i < 2 \<Longrightarrow> slice_of (128 + 36 * i) (128 + 36 * (i + 1)) (tail_image w) = list_image (oc_requested w ! i)"
    "slice_of 200 236 (tail_image w) = list_image (oc_result_attributes w)"
  using assms by (auto simp: tail_image_def slice_of_def less_2_cases_iff)

lemma requested_wf: "tail_wf w \<Longrightarrow> i < 2 \<Longrightarrow> list_wf (oc_requested w ! i)"
  by (auto simp: less_2_cases_iff)

lemma all_zero_rep: "length xs = n \<Longrightarrow> (\<forall>i < n. xs ! i = z) \<longleftrightarrow> xs = replicate n z"
  by (auto intro: nth_equalityI) (metis nth_replicate)

lemma valid_find_section_iff:
  assumes "tail_wf w"
  shows "valid_find_section (tail_image w) (oc_action w) (oc_layout w) \<and> tail_image w ! 127 = 0 \<longleftrightarrow>
     oc_reserved1 w = 0 \<and> (if oc_action w = OBJECT_ACTION_FIND then find_ok w else no_find w)"
proof -
  note sc = tail_image_scalars[OF assms] and ar = tail_image_arrays[OF assms]
  have none: "(\<forall>i < 8. tail_image w ! (116 + i) = 0 \<and> le_at 8 (tail_image w) (48 + 8 * i) = (0 :: u64))
      \<longleftrightarrow> oc_find_status w = replicate 8 0 \<and> oc_find_handles w = replicate 8 0"
    using assms by (simp add: ar all_conj_distrib imp_conjR all_zero_rep cong: conj_cong imp_cong)
  have some: "(\<forall>i < 8. let status = tail_image w ! (116 + i) in
         status \<le> 9 \<and> (if i < unat (oc_find_len w) then status \<noteq> 0 else status = 0)
         \<and> valid_handle_word status (le_at 8 (tail_image w) (48 + 8 * i)) (oc_layout w))
      \<longleftrightarrow> (\<forall>i < 8. oc_find_status w ! i \<le> 9 \<and> (oc_find_status w ! i \<noteq> 0 \<longleftrightarrow> i < unat (oc_find_len w))
          \<and> valid_handle_word (oc_find_status w ! i) (oc_find_handles w ! i) (oc_layout w))"
    by (intro all_cong) (auto simp: ar Let_def)
  show ?thesis
    unfolding valid_find_section_def sc Let_def none some[unfolded Let_def] find_ok_def no_find_def
    by (auto simp: not_less)
qed

lemma valid_find_section_reserved: "valid_find_section t a l \<Longrightarrow> t ! 127 = 0"
  by (simp add: valid_find_section_def Let_def split: if_splits)

lemma descriptor_index_minus:
  fixes index :: u32
  assumes "index \<noteq> 0"
  shows "(ucast (f :: u32) :: u64) = ucast index - 1 \<longleftrightarrow> f = index - 1"
proof -
  have "1 \<le> index" using assms by (simp add: word_le_nat_alt unat_gt_0 Suc_le_eq)
  then have "(ucast index :: u64) - 1 = ucast (index - 1)"
    by (intro word_unat_eq_iff[THEN iffD2])
      (simp add: unat_sub word_le_nat_alt unat_ucast_up)
  then show ?thesis by (auto dest!: arg_cong[where f = unat] simp: unat_ucast_up word_unat_eq_iff)
qed

lemma validate_object_tail_iff:
  assumes "tail_wf w"
  shows "validate_object_tail (tail_image w) row \<longleftrightarrow> object_call_ok w row"
proof -
  note sc = tail_image_scalars[OF assms] and ar = tail_image_arrays[OF assms]
  have len: "length (tail_image w) = 240" using assms by simp
  have handles: "(\<forall>i < 2. let status = tail_image w ! (112 + i) in status \<le> 9
         \<and> (if od_input_args row ! i = ARG_NONE then status = 0 else \<not> (oc_action w \<noteq> 9 \<and> status = 0))
         \<and> valid_handle_word status (le_at 8 (tail_image w) (16 + 8 * i)) (oc_layout w))
     \<longleftrightarrow> handles_ok (\<lambda>i. od_input_args row ! i = ARG_NONE) (\<lambda>_. oc_action w = 9)
         (oc_input_status w) (oc_input_handles w) (oc_layout w)"
    "(\<forall>i < 2. let status = tail_image w ! (114 + i) in status \<le> 9
         \<and> (if od_result_args row ! i = ARG_NONE then status = 0 else status \<noteq> 0)
         \<and> valid_handle_word status (le_at 8 (tail_image w) (32 + 8 * i)) (oc_layout w))
     \<longleftrightarrow> handles_ok (\<lambda>i. od_result_args row ! i = ARG_NONE) (\<lambda>_. False)
         (oc_result_status w) (oc_result_handles w) (oc_layout w)"
    unfolding handles_ok_def by (intro all_cong; auto simp: ar Let_def)+
  have lists: "(\<forall>i < 2. let p0 = od_template_args row ! (2 * i); p1 = od_template_args row ! (2 * i + 1);
           list = slice_of (128 + 36 * i) (128 + 36 * (i + 1)) (tail_image w) in
         ((p0 \<noteq> ARG_NONE) = (p1 \<noteq> ARG_NONE))
         \<and> (if \<not> (p0 \<noteq> ARG_NONE \<and> p1 \<noteq> ARG_NONE) then list_all (\<lambda>b. b = 0) list
            else valid_attribute_list list))
     \<longleftrightarrow> (\<forall>i < 2. (od_template_args row ! (2 * i) \<noteq> ARG_NONE) = (od_template_args row ! (2 * i + 1) \<noteq> ARG_NONE))
       \<and> (\<forall>i < 2. if pair_present row i then list_ok (oc_requested w ! i) else oc_requested w ! i = zero_list)"
    unfolding all_conj_distrib[symmetric] imp_conjR[symmetric]
    by (intro all_cong)
      (simp only: tail_image_lists(1)[OF assms] list_image_zero_iff[OF requested_wf[OF assms]]
        valid_attribute_list_iff[OF requested_wf[OF assms]] pair_present_def Let_def, auto)
  have results: "(let results = slice_of 200 236 (tail_image w) in
        if oc_action w \<noteq> 11 then list_all (\<lambda>b. b = 0) results else valid_attribute_list results)
     \<longleftrightarrow> (if oc_action w = 11 then list_ok (oc_result_attributes w) else oc_result_attributes w = zero_list)"
    using assms by (auto simp: tail_image_lists list_image_zero_iff valid_attribute_list_iff)
  note find = valid_find_section_iff[OF assms]
  have find': "valid_find_section (tail_image w) (oc_action w) (oc_layout w) \<longleftrightarrow>
      oc_reserved1 w = 0 \<and> (if oc_action w = 10 then find_ok w else no_find w)"
    using find valid_find_section_reserved by (metis sc(12))
  define H1 H2 L1 L2 FF RR where
    "H1 \<longleftrightarrow> handles_ok (\<lambda>i. od_input_args row ! i = ARG_NONE) (\<lambda>_. oc_action w = 9)
         (oc_input_status w) (oc_input_handles w) (oc_layout w)"
    and "H2 \<longleftrightarrow> handles_ok (\<lambda>i. od_result_args row ! i = ARG_NONE) (\<lambda>_. False)
         (oc_result_status w) (oc_result_handles w) (oc_layout w)"
    and "L1 \<longleftrightarrow> (\<forall>i < 2. (od_template_args row ! (2 * i) \<noteq> ARG_NONE) = (od_template_args row ! (2 * i + 1) \<noteq> ARG_NONE))"
    and "L2 \<longleftrightarrow> (\<forall>i < 2. if pair_present row i then list_ok (oc_requested w ! i) else oc_requested w ! i = zero_list)"
    and "FF \<longleftrightarrow> (if oc_action w = 10 then find_ok w else no_find w)"
    and "RR \<longleftrightarrow> (if oc_action w = 11 then list_ok (oc_result_attributes w) else oc_result_attributes w = zero_list)"
  note parts = handles[folded H1_def H2_def] lists[folded L1_def L2_def] find'[folded FF_def] results[folded RR_def]
  have ifF: "(if c then False else X) \<longleftrightarrow> \<not> c \<and> X" for c X by simp
  have spec: "object_call_ok w row \<longleftrightarrow>
      oc_version w = 1 \<and> oc_bytes w = 240 \<and> row_names row (oc_descriptor_index w) \<and> oc_action w = od_action row
      \<and> oc_flags w AND NOT 0xFF = 0 \<and> (oc_layout w = 1 \<or> oc_layout w = 2) \<and> oc_entry_derive w \<le> 4
      \<and> (oc_action w \<noteq> 5 \<longrightarrow> oc_entry_derive w = 0) \<and> oc_reserved0 w = 0 \<and> oc_reserved1 w = 0 \<and> oc_reserved2 w = 0
      \<and> H1 \<and> H2 \<and> FF \<and> L2 \<and> RR"
    unfolding object_call_ok_def H1_def H2_def FF_def L2_def RR_def by (rule refl)
  have names: "row_names row (oc_descriptor_index w) \<longleftrightarrow> oc_descriptor_index w \<noteq> 0
      \<and> oc_descriptor_index w < of_nat 105 \<and> od_function row = oc_descriptor_index w - 1 \<and> row_codes_ok row \<and> L1"
    unfolding row_names_def L1_def by (rule refl)
  have act: "row_codes_ok row \<Longrightarrow> od_action row \<le> 14" by (simp add: row_codes_ok_def)
  show ?thesis
    unfolding validate_object_tail_def sc len Let_def parts[unfolded Let_def] ifF spec names
    using descriptor_index_minus[of "oc_descriptor_index w" "od_function row"] act
    by (simp only: not_less not_le de_Morgan_disj de_Morgan_conj not_not) metis
qed

lemma published_row:
  assumes "index \<noteq> 0" "index < 105"
  shows "publish_object_descriptors fname ! unat index = canonical_object_wire fname (index - 1)"
proof -
  have "unat index < 105" using assms(2) by (simp add: word_less_nat_alt)
  moreover have "of_nat (unat index - 1) = index - 1" using assms(1) by (simp add: of_nat_diff Suc_leI unat_gt_0)
  moreover have "unat index \<noteq> 0" using assms(1) by (simp add: unat_eq_0)
  ultimately show ?thesis by (simp add: publish_nth)
qed

lemma start_marker_iff:
  "validate_start_marker marker (publish_object_descriptors fname) = Required index \<longleftrightarrow>
     marker = ucast index + 1 \<and> index \<noteq> 0 \<and> index < 105 \<and> object_descriptor fname (index - 1) \<noteq> None"
proof (cases "2 \<le> marker \<and> marker \<le> 105")
  case False
  have "marker \<noteq> ucast index + 1 \<or> index = 0 \<or> \<not> index < 105"
  proof (rule ccontr)
    assume c: "\<not> ?thesis"
    then have "unat index < 105" "unat index \<noteq> 0" by (simp_all add: word_less_nat_alt unat_eq_0)
    moreover have "unat marker = unat index + 1" using c calculation
      by (simp add: unat_add_exact unat_ucast_up)
    ultimately show False using False by (simp add: word_le_nat_alt)
  qed
  with False show ?thesis by (auto simp: validate_start_marker_def Let_def not_le)
next
  case True
  define i :: u32 where "i = ucast (marker - 1)"
  have m: "unat marker \<le> 105" "2 \<le> unat marker" using True by (simp_all add: word_le_nat_alt)
  have m1: "unat (marker - 1) = unat marker - 1" using m by (simp add: unat_sub word_le_nat_alt)
  have "unat i = unat marker - 1" using m by (simp add: i_def unsigned_ucast_eq m1 take_bit_nat_eq_self)
  then have i: "unat i = unat (marker - 1)" "i \<noteq> 0" "i < 105"
    using m m1 by (auto simp: word_less_nat_alt)
  have row: "publish_object_descriptors fname ! unat (marker - 1) = canonical_object_wire fname (i - 1)"
    using published_row[OF i(2,3)] i(1) by simp
  have mi: "marker = ucast j + 1 \<longleftrightarrow> j = i" if "j < 105" for j :: u32
  proof
    have j: "unat j < 105" using that by (simp add: word_less_nat_alt)
    assume "marker = ucast j + 1"
    then have "unat marker = unat j + 1" using j by (simp add: unat_add_exact unat_ucast_up)
    then show "j = i" using i(1) m1 by (simp add: word_unat_eq_iff)
  next
    assume "j = i"
    then show "marker = ucast j + 1" using i(1) m m1
      by (intro word_unat_eq_iff[THEN iffD2]) (simp add: unat_add_exact unat_ucast_up)
  qed
  have f: "(ucast (i - 1) :: u64) = marker - 2"
    using i m m1 by (intro word_unat_eq_iff[THEN iffD2])
      (simp add: unat_ucast_up unat_sub word_le_nat_alt)
  have "validate_start_marker marker (publish_object_descriptors fname) =
      (if object_descriptor fname (i - 1) \<noteq> None then Required i else InvalidStart)"
    using True row f canonical_function[of fname "i - 1"]
    by (auto simp: validate_start_marker_def Let_def i_def not_le)
  then show ?thesis using mi[of index] i by auto
qed

lemma object_record_form_iff:
  assumes "length base = 368" "tail_wf w"
  shows "object_record_form (base @ tail_image w) (publish_object_descriptors fname) = Some ObjectForm
    \<longleftrightarrow> object_call_ok w (canonical_object_wire fname (oc_descriptor_index w - 1))"
proof -
  let ?i = "oc_descriptor_index w"
  have idx: "le_at 4 (base @ tail_image w) 372 = ?i"
    using assms by (simp add: le_at_append2 tail_image_scalars)
  have len: "length (base @ tail_image w) = 608" and tail: "drop 368 (base @ tail_image w) = tail_image w"
    using assms by simp_all
  have form: "object_record_form (base @ tail_image w) rows = Some ObjectForm \<longleftrightarrow>
      ?i \<noteq> 0 \<and> ?i < 105 \<and> object_call_ok w (rows ! unat ?i)" for rows
    unfolding object_record_form_def Let_def idx len tail validate_object_tail_iff[OF assms(2)]
    by (simp add: not_less[symmetric])
  have "object_call_ok w row \<Longrightarrow> ?i \<noteq> 0 \<and> ?i < 105" for row
    by (simp add: object_call_ok_def row_names_def)
  with form published_row[of ?i fname] show ?thesis by metis
qed

lemma ucast_low_half: "(ucast (ucast (w :: u64) :: u32) :: u64) = w AND 0xFFFFFFFF"
proof -
  have "(ucast (ucast w :: u32) :: u64) = take_bit 32 w" by (rule bit_word_eqI) (auto simp: bit_simps)
  then show ?thesis by (simp add: take_bit_eq_mask mask_eq_exp_minus_1)
qed

lemma arg7_address_fits:
  assumes "object_result_arg7_address row sp l = Some a"
  shows "unat (normalize_target_word sp l) < unat a \<and> unat a + word_last l < space_size l
    \<and> 7 \<in> set (od_result_args row)"
  using assms
  by (cases l) (auto simp: object_result_arg7_address_def Let_def normalize_target_word_def ucast_low_half
      checked_add_Some_iff target_word_end_Some_iff bind_eq_Some_conv split: if_splits)

section \<open>Properties\<close>

text \<open>C20: A descriptor table is accepted exactly when it is the published one: every
  row is the canonical encoding of the policy of its function, row zero is the
  empty row, and any disagreement refuses.\<close>

theorem descriptor_table_exact:
  assumes "length rows = MAX_DESCRIPTORS"
  shows "verify_object_descriptors fname rows \<longleftrightarrow> rows = publish_object_descriptors fname"
  by (rule verify_iff_published[OF assms])

theorem descriptor_table_exact_witness:
  "verify_object_descriptors (\<lambda>f. if f = 3 then Some ''C_FindObjects'' else None)
     (publish_object_descriptors (\<lambda>f. if f = 3 then Some ''C_FindObjects'' else None))"
  by (simp add: descriptor_table_exact)

text \<open>C19: A raw 608-byte ring record is an object record exactly when the fields of its
  tail satisfy the object-call contract for the row its descriptor index names:
  finite codes, zero padding, handle words only with value statuses, a Find
  section only for Find, and request and result lists only where the row allows
  them.\<close>

theorem object_record_exact:
  assumes "length base = EVENT_RECORD_BYTES" "tail_wf w"
  shows "object_record_form (base @ tail_image w) (publish_object_descriptors fname) = Some ObjectForm
    \<longleftrightarrow> object_call_ok w (canonical_object_wire fname (oc_descriptor_index w - 1))"
  by (rule object_record_form_iff[OF assms])

definition demo_destroy :: ObjectCallWire where
  "demo_destroy =
     \<lparr>oc_version = 1, oc_bytes = 240, oc_descriptor_index = 4, oc_flags = 0, oc_layout = 1, oc_action = 7,
      oc_entry_derive = 0, oc_reserved0 = 0, oc_input_handles = [9, 0], oc_result_handles = [0, 0],
      oc_find_handles = replicate 8 0, oc_input_status = [1, 0], oc_result_status = [0, 0],
      oc_find_status = replicate 8 0, oc_find_len = 0, oc_find_flags = 0, oc_find_valid = 0,
      oc_reserved1 = 0, oc_requested = [zero_list, zero_list], oc_result_attributes = zero_list,
      oc_reserved2 = 0\<rparr>"

theorem object_record_exact_witness:
  "object_record_form (replicate 368 0 @ tail_image demo_destroy)
     (publish_object_descriptors (\<lambda>f. if f = 3 then Some ''C_DestroyObject'' else None)) = Some ObjectForm"
proof -
  have wf: "tail_wf demo_destroy"
    by (simp add: tail_wf_def demo_destroy_def list_wf_def zero_list_def)
  have "object_call_ok demo_destroy
      (canonical_object_wire (\<lambda>f. if f = 3 then Some ''C_DestroyObject'' else None) 3)"
    by (simp add: object_call_ok_def demo_destroy_def canonical_object_wire_def object_descriptor_def
        descriptor_table_def new_descriptor_def row_names_def row_codes_ok_def handles_ok_def no_find_def
        pair_present_def valid_handle_word_def less_2_cases_iff all_conj_distrib)
  moreover have "oc_descriptor_index demo_destroy - 1 = 3" by (simp add: demo_destroy_def)
  ultimately show ?thesis using object_record_exact[OF _ wf] by simp
qed

text \<open>C21: Every START marker is decided against the published table: zero is an ordinary
  call; one more than the index of a row the policy knows names that object call; every
  other marker, past the table, at its empty row or at a row without a policy, is
  refused.\<close>

theorem start_marker_exact:
  "validate_start_marker marker (publish_object_descriptors fname) =
     (if marker = 0 then OrdinaryStart
      else if \<exists>index. marker = ucast index + 1 \<and> index \<noteq> 0 \<and> index < of_nat MAX_DESCRIPTORS
                \<and> object_descriptor fname (index - 1) \<noteq> None
      then Required (ucast (marker - 1)) else InvalidStart)"
proof (cases "validate_start_marker marker (publish_object_descriptors fname)")
  case OrdinaryStart
  then show ?thesis by (auto simp: validate_start_marker_def Let_def split: if_splits)
next
  case (Required index)
  then have i: "marker = ucast index + 1" "index \<noteq> 0" "index < 105" "object_descriptor fname (index - 1) \<noteq> None"
    using start_marker_iff[of marker fname index] by auto
  moreover have "marker \<noteq> 0" using Required by (auto simp: validate_start_marker_def)
  moreover have "index = ucast (marker - 1)" unfolding i(1) by (rule bit_word_eqI) (simp add: bit_simps)
  ultimately show ?thesis using Required by auto
next
  case InvalidStart
  then have "marker \<noteq> 0" by (auto simp: validate_start_marker_def)
  moreover have "validate_start_marker marker (publish_object_descriptors fname) \<noteq> Required index" for index
    using InvalidStart by simp
  ultimately show ?thesis using InvalidStart start_marker_iff[of marker fname] by auto
qed

end
