(* ===== verification/P11_Capture.thy ===== *)
theory P11_Capture
  imports P11_Wire
begin

text \<open>
  The bounded object read protocols in their array form
  (\<^verbatim>\<open>object_capture.rs\<close>, first half): span arithmetic, entry inputs, derive
  membership, result handles, Find, creation templates and
  \<^verbatim>\<open>C_GetAttributeValue\<close>. Every access to the observed process is an event of
  the reader monad of the prelude, so what a protocol reads, and in which
  order, is part of its meaning.
\<close>

section \<open>Codes\<close>

abbreviation (input) CKR_OK :: u64 where "CKR_OK \<equiv> 0"
abbreviation (input) CKR_ATTRIBUTE_SENSITIVE :: u64 where "CKR_ATTRIBUTE_SENSITIVE \<equiv> 17"
abbreviation (input) CKR_ATTRIBUTE_TYPE_INVALID :: u64 where "CKR_ATTRIBUTE_TYPE_INVALID \<equiv> 18"
abbreviation (input) CKR_BUFFER_TOO_SMALL :: u64 where "CKR_BUFFER_TOO_SMALL \<equiv> 336"
abbreviation (input) MAX_ATTRIBUTE_SLOTS :: u64 where "MAX_ATTRIBUTE_SLOTS \<equiv> 8"
abbreviation (input) MAX_FIND_HANDLES :: u64 where "MAX_FIND_HANDLES \<equiv> 8"
abbreviation (input) MECHANISM_VALUE :: u32 where "MECHANISM_VALUE \<equiv> 3"

abbreviation (input) ATTR_VALUE :: u8 where "ATTR_VALUE \<equiv> 1"
abbreviation (input) ATTR_UNSUPPORTED :: u8 where "ATTR_UNSUPPORTED \<equiv> 2"
abbreviation (input) ATTR_UNREADABLE :: u8 where "ATTR_UNREADABLE \<equiv> 3"
abbreviation (input) ATTR_SIZE_ONLY :: u8 where "ATTR_SIZE_ONLY \<equiv> 4"
abbreviation (input) ATTR_UNAVAILABLE :: u8 where "ATTR_UNAVAILABLE \<equiv> 5"
abbreviation (input) ATTR_INVALID_LENGTH :: u8 where "ATTR_INVALID_LENGTH \<equiv> 6"
abbreviation (input) ATTR_CHANGED :: u8 where "ATTR_CHANGED \<equiv> 7"
abbreviation (input) ATTR_ALIAS :: u8 where "ATTR_ALIAS \<equiv> 8"
abbreviation (input) ATTR_INVALID_SPAN :: u8 where "ATTR_INVALID_SPAN \<equiv> 9"
abbreviation (input) ATTR_INSUFFICIENT_CAPACITY :: u8 where "ATTR_INSUFFICIENT_CAPACITY \<equiv> 10"

abbreviation (input) HANDLE_ABSENT :: u8 where "HANDLE_ABSENT \<equiv> 0"
abbreviation (input) HANDLE_VALUE :: u8 where "HANDLE_VALUE \<equiv> 1"
abbreviation (input) HANDLE_UNREADABLE :: u8 where "HANDLE_UNREADABLE \<equiv> 2"
abbreviation (input) HANDLE_INVALID_ZERO :: u8 where "HANDLE_INVALID_ZERO \<equiv> 3"
abbreviation (input) HANDLE_INVALID_SPAN :: u8 where "HANDLE_INVALID_SPAN \<equiv> 4"
abbreviation (input) HANDLE_ALIAS :: u8 where "HANDLE_ALIAS \<equiv> 5"
abbreviation (input) HANDLE_DUPLICATE :: u8 where "HANDLE_DUPLICATE \<equiv> 6"
abbreviation (input) HANDLE_PROTOCOL_UNAVAILABLE :: u8 where "HANDLE_PROTOCOL_UNAVAILABLE \<equiv> 7"
abbreviation (input) HANDLE_SUPPRESSED :: u8 where "HANDLE_SUPPRESSED \<equiv> 8"

abbreviation (input) OBJ_ARG_READ_FAILURE :: u32 where "OBJ_ARG_READ_FAILURE \<equiv> 1"
abbreviation (input) OBJ_UNAVAILABLE_RESULT :: u32 where "OBJ_UNAVAILABLE_RESULT \<equiv> 2"
abbreviation (input) OBJ_ALIAS :: u32 where "OBJ_ALIAS \<equiv> 4"
abbreviation (input) OBJ_DUPLICATE_RESULT :: u32 where "OBJ_DUPLICATE_RESULT \<equiv> 8"
abbreviation (input) OBJ_CHANGED_METADATA :: u32 where "OBJ_CHANGED_METADATA \<equiv> 16"
abbreviation (input) OBJ_PARTIAL_RESULT :: u32 where "OBJ_PARTIAL_RESULT \<equiv> 32"
abbreviation (input) OBJ_NULL_MECHANISM_CANCEL :: u32 where "OBJ_NULL_MECHANISM_CANCEL \<equiv> 64"

abbreviation (input) FIND_TRUNCATED :: u8 where "FIND_TRUNCATED \<equiv> 1"
abbreviation (input) FIND_CHANGED_COUNT :: u8 where "FIND_CHANGED_COUNT \<equiv> 2"
abbreviation (input) FIND_INVALID_COUNT :: u8 where "FIND_INVALID_COUNT \<equiv> 4"
abbreviation (input) FIND_INVALID_SPAN :: u8 where "FIND_INVALID_SPAN \<equiv> 8"
abbreviation (input) FIND_COUNT_ALIAS :: u8 where "FIND_COUNT_ALIAS \<equiv> 16"
abbreviation (input) FIND_UNREADABLE_ELEMENT :: u8 where "FIND_UNREADABLE_ELEMENT \<equiv> 32"

abbreviation (input) LIST_PRESENT :: u8 where "LIST_PRESENT \<equiv> 1"
abbreviation (input) LIST_TRUNCATED :: u8 where "LIST_TRUNCATED \<equiv> 2"
abbreviation (input) LIST_HEADER_READ_FAILURE :: u8 where "LIST_HEADER_READ_FAILURE \<equiv> 4"
abbreviation (input) LIST_INVALID_SPAN :: u8 where "LIST_INVALID_SPAN \<equiv> 8"
abbreviation (input) LIST_UNINSPECTED :: u8 where "LIST_UNINSPECTED \<equiv> 16"

section \<open>Protocol data\<close>

record AttrCell =
  ac_kind :: u8
  ac_status :: u8
  ac_value :: u16

definition attr_cell_to_wire :: "AttrCell \<Rightarrow> ObjectAttributeWire" where
  "attr_cell_to_wire c = \<lparr>aw_kind = ac_kind c, aw_status = ac_status c, aw_value = ac_value c\<rparr>"

record AttributeListOutcome =
  ao_cells :: "AttrCell list"
  ao_inspected :: u8
  ao_flags :: u8
  ao_object_flags :: u32

definition outcome_to_wire :: "AttributeListOutcome \<Rightarrow> ObjectAttributeListWire" where
  "outcome_to_wire o' =
     \<lparr>al_cells = map (\<lambda>i. attr_cell_to_wire (ao_cells o' ! i)) [0..<8],
      al_inspected = ao_inspected o', al_flags = ao_flags o', al_reserved = 0\<rparr>"

definition empty_outcome :: AttributeListOutcome where
  "empty_outcome =
     \<lparr>ao_cells = replicate 8 \<lparr>ac_kind = 0, ac_status = 0, ac_value = 0\<rparr>, ao_inspected = 0,
      ao_flags = 0, ao_object_flags = 0\<rparr>"

datatype DeriveEntry = Accepted ScalarDeriveMechanism | DeriveUnavailable

fun derive_code :: "DeriveEntry \<Rightarrow> u8" where
  "derive_code (Accepted DhPkcs) = 1"
| "derive_code (Accepted Sha256) = 2"
| "derive_code (Accepted Ecdh1) = 3"
| "derive_code (Accepted Ecdh1Cofactor) = 4"
| "derive_code DeriveUnavailable = OBJECT_DERIVE_UNAVAILABLE"

fun derive_mechanism_code :: "ScalarDeriveMechanism \<Rightarrow> u64" where
  "derive_mechanism_code DhPkcs = 0x21"
| "derive_mechanism_code Sha256 = 0x393"
| "derive_mechanism_code Ecdh1 = 0x1050"
| "derive_mechanism_code Ecdh1Cofactor = 0x1051"

record ReturnAuthority =
  owner_live :: bool
  phase_ready :: bool
  continuity_joined :: bool

definition AUTHORIZED :: ReturnAuthority where
  "AUTHORIZED = \<lparr>owner_live = True, phase_ready = True, continuity_joined = True\<rparr>"

definition is_authorized :: "ReturnAuthority \<Rightarrow> bool" where
  "is_authorized a \<longleftrightarrow> owner_live a \<and> phase_ready a \<and> continuity_joined a"

definition authority_for_return :: "bool \<Rightarrow> bool \<Rightarrow> InstanceStamp \<Rightarrow> InstanceStamp \<Rightarrow> ReturnAuthority" where
  "authority_for_return live ready entry ret =
     \<lparr>owner_live = live, phase_ready = ready, continuity_joined = stamp_joinable entry ret\<rparr>"

record EntryInputVerdict =
  ei_supported :: bool
  ei_statuses :: "u8 list"
  ei_object_flags :: u32

record ReturnHandlesVerdict =
  rh_statuses :: "u8 list"
  rh_object_flags :: u32

record FindVerdict =
  fv_statuses :: "u8 list"
  fv_len :: u8
  fv_valid :: bool
  fv_flags :: u8
  fv_result_cell :: "u8 \<times> u64"

record GetSlot =
  gs_value_ptr :: u64
  gs_entry_capacity :: u64
  gs_kind :: u8
  gs_slot_index :: u8

record GetEntryState =
  ge_template_base :: u64
  ge_header_end :: u64
  ge_slots :: "GetSlot list"
  ge_slot_count :: u8
  ge_inspected :: u8
  ge_entry_flags :: u8

record GetEntryVerdict =
  gv_inspected :: u8
  gv_slot_count :: u8
  gv_entry_flags :: u8

section \<open>Spans\<close>

definition attribute_table_span :: "u64 \<Rightarrow> LinuxLayout \<Rightarrow> u64 option" where
  "attribute_table_span count l =
     (case l of
        Lp64 \<Rightarrow> if count \<le> (- 1) div 24 then Some (push_bit 4 count + push_bit 3 count) else None
      | Ilp32 \<Rightarrow> if count \<le> (- 1) div 12 then Some (push_bit 3 count + push_bit 2 count) else None)"

definition validate_target_span :: "u64 \<Rightarrow> u64 \<Rightarrow> LinuxLayout \<Rightarrow> u64 option" where
  "validate_target_span base len l =
     (if len = 0 then Some base
      else if base = 0 then None
      else case l of
        Lp64 \<Rightarrow> do { _ \<leftarrow> checked_add base (len - 1); Some (saturating_add base len) }
      | Ilp32 \<Rightarrow> do {
          stop \<leftarrow> checked_add base len;
          if base > 0xFFFFFFFF \<or> stop > 0x100000000 then None else Some stop })"

definition spans_overlap :: "u64 \<Rightarrow> u64 \<Rightarrow> u64 \<Rightarrow> u64 \<Rightarrow> bool" where
  "spans_overlap a_base a_len b_base b_len =
     (if a_len = 0 \<or> b_len = 0 then False
      else let a_end = saturating_add a_base a_len; b_end = saturating_add b_base b_len in
        a_base < b_end \<and> b_base < a_end)"

definition attribute_header_addresses ::
  "(LinuxLayout \<Rightarrow> u64) \<Rightarrow> u64 \<Rightarrow> u64 \<Rightarrow> LinuxLayout \<Rightarrow> (u64 \<times> u64 \<times> u64) option" where
  "attribute_header_addresses wb base index l =
     (let w = wb l in do {
        span \<leftarrow> attribute_table_span index l;
        slot \<leftarrow> checked_add base span;
        _ \<leftarrow> validate_target_span slot (3 * w) l;
        ptr_addr \<leftarrow> checked_add slot w;
        len_addr \<leftarrow> checked_add slot (2 * w);
        Some (slot, ptr_addr, len_addr) })"

definition unavailable_len :: "LinuxLayout \<Rightarrow> u64" where
  "unavailable_len l = (case l of Lp64 \<Rightarrow> - 1 | Ilp32 \<Rightarrow> 0xFFFFFFFF)"

definition return_accepts_get_results :: "u64 \<Rightarrow> bool" where
  "return_accepts_get_results rv \<longleftrightarrow>
     rv = CKR_OK \<or> rv = CKR_ATTRIBUTE_SENSITIVE \<or> rv = CKR_ATTRIBUTE_TYPE_INVALID \<or> rv = CKR_BUFFER_TOO_SMALL"

fun safe_kind_code :: "SafeAttributeKind \<Rightarrow> u8" where
  "safe_kind_code Class = 1"
| "safe_kind_code KeyType = 2"
| "safe_kind_code Token = 3"
| "safe_kind_code ValueLen = 4"
| "safe_kind_code ModulusBits = 5"
| "safe_kind_code EcParams = 6"

definition kind_from_code :: "u8 \<Rightarrow> SafeAttributeKind option" where
  "kind_from_code code =
     (if code = 1 then Some Class else if code = 2 then Some KeyType else if code = 3 then Some Token
      else if code = 4 then Some ValueLen else if code = 5 then Some ModulusBits
      else if code = 6 then Some EcParams else None)"

definition slot_kind_selected :: "u8 \<Rightarrow> bool" where
  "slot_kind_selected code \<longleftrightarrow> code - 1 < 6"

fun selector_for_kind :: "SafeAttributeKind \<Rightarrow> u64" where
  "selector_for_kind Class = 0x0000"
| "selector_for_kind KeyType = 0x0100"
| "selector_for_kind Token = 0x0001"
| "selector_for_kind ValueLen = 0x0161"
| "selector_for_kind ModulusBits = 0x0121"
| "selector_for_kind EcParams = 0x0180"

fun safe_curve_code :: "SafeCurve \<Rightarrow> u16" where
  "safe_curve_code Secp256r1 = 1"
| "safe_curve_code Secp384r1 = 2"
| "safe_curve_code Secp521r1 = 3"

definition min_exact_len :: "(LinuxLayout \<Rightarrow> u64) \<Rightarrow> SafeAttributeKind \<Rightarrow> LinuxLayout \<Rightarrow> u64" where
  "min_exact_len wb kind l = (case kind of Token \<Rightarrow> 1 | EcParams \<Rightarrow> 7 | _ \<Rightarrow> wb l)"

definition classified :: "u16 option \<Rightarrow> u8 + u16" where
  "classified c = (case c of None \<Rightarrow> Inl ATTR_UNSUPPORTED | Some v \<Rightarrow> Inr v)"

definition read_classified_value ::
  "target \<Rightarrow> SafeAttributeKind \<Rightarrow> u64 \<Rightarrow> u64 \<Rightarrow> LinuxLayout \<Rightarrow> (u8 + u16) rd" where
  "read_classified_value t kind ptr len l =
     (case kind of
        Token \<Rightarrow> do {
          bytes \<leftarrow> read_bytes t ptr 1;
          State_Monad.return (case bytes of
            None \<Rightarrow> Inl ATTR_UNREADABLE
          | Some bs \<Rightarrow> classified (classify_attribute_scalar kind (ucast (bs ! 0)))) }
      | EcParams \<Rightarrow>
          if len \<noteq> 7 \<and> len \<noteq> 10 then State_Monad.return (Inl ATTR_INVALID_LENGTH)
          else do {
            bytes \<leftarrow> read_bytes t ptr (unat len);
            State_Monad.return (case bytes of
              None \<Rightarrow> Inl ATTR_UNREADABLE
            | Some bs \<Rightarrow> classified (map_option safe_curve_code (classify_ec_params bs))) }
      | _ \<Rightarrow> do {
          word \<leftarrow> read_word t ptr l;
          State_Monad.return (case word of
            None \<Rightarrow> Inl ATTR_UNREADABLE
          | Some w \<Rightarrow> if l = Ilp32 \<and> w > 0xFFFFFFFF then Inl ATTR_UNSUPPORTED
                      else classified (classify_attribute_scalar kind w)) })"

section \<open>Entry\<close>

definition entry_input :: "bool \<Rightarrow> LinuxLayout \<Rightarrow> u8 \<Rightarrow> u64 option \<Rightarrow> u8 \<times> u64 \<times> u32" where
  "entry_input import l arg input =
     (if arg = ARG_NONE then (HANDLE_ABSENT, 0, 0)
      else case input of
        None \<Rightarrow> (HANDLE_UNREADABLE, 0, OBJ_ARG_READ_FAILURE)
      | Some word \<Rightarrow>
          if word = 0 then (if import then HANDLE_ABSENT else HANDLE_INVALID_ZERO, 0, 0)
          else if l = Ilp32 \<and> word > 0xFFFFFFFF then (HANDLE_INVALID_SPAN, 0, 0)
          else (HANDLE_VALUE, word, 0))"

definition capture_entry_inputs ::
  "(u32 \<Rightarrow> string option) \<Rightarrow> u32 \<Rightarrow> u64 option list \<Rightarrow> LinuxLayout \<Rightarrow> EntryInputVerdict \<times> u64 list" where
  "capture_entry_inputs fname function inputs l =
     (case object_descriptor fname function of
        None \<Rightarrow> (\<lparr>ei_supported = False, ei_statuses = [HANDLE_ABSENT, HANDLE_ABSENT], ei_object_flags = 0\<rparr>, [0, 0])
      | Some d \<Rightarrow>
          let import = action d = OperationImport;
              (s0, w0, f0) = entry_input import l (fst (input_args d)) (inputs ! 0);
              (s1, w1, f1) = entry_input import l (snd (input_args d)) (inputs ! 1)
          in (\<lparr>ei_supported = True, ei_statuses = [s0, s1], ei_object_flags = f0 OR f1\<rparr>, [w0, w1]))"

definition apply_null_mechanism_cancel ::
  "bool \<Rightarrow> bool \<Rightarrow> EntryInputVerdict \<Rightarrow> u64 list \<Rightarrow> EntryInputVerdict \<times> u64 list" where
  "apply_null_mechanism_cancel null_cancel_eligible cancel_observed verdict words =
     (if \<not> (null_cancel_eligible \<and> cancel_observed) then (verdict, words)
      else let hit = (\<lambda>i. ei_statuses verdict ! i = HANDLE_VALUE) in
        (verdict\<lparr>ei_statuses := map (\<lambda>i. if hit i then HANDLE_SUPPRESSED else ei_statuses verdict ! i) [0..<2],
                 ei_object_flags := ei_object_flags verdict OR OBJ_NULL_MECHANISM_CANCEL\<rparr>,
         map (\<lambda>i. if hit i then 0 else words ! i) [0..<2]))"

definition classify_derive_mechanism :: "target \<Rightarrow> u64 \<Rightarrow> LinuxLayout \<Rightarrow> DeriveEntry rd" where
  "classify_derive_mechanism t mechanism_ptr l =
     (if mechanism_ptr = 0 then State_Monad.return DeriveUnavailable
      else if target_word_end mechanism_ptr l = None then State_Monad.return DeriveUnavailable
      else do {
        word \<leftarrow> read_word t mechanism_ptr l;
        State_Monad.return (case word of
          None \<Rightarrow> DeriveUnavailable
        | Some mechanism \<Rightarrow>
            (case derive_result_protocol mechanism of
               ScalarHandle accepted \<Rightarrow> Accepted accepted
             | ProtocolUnavailable \<Rightarrow> DeriveUnavailable)) })"

definition capture_derive_entry :: "target \<Rightarrow> u64 \<Rightarrow> u64 \<Rightarrow> LinuxLayout \<Rightarrow> (DeriveEntry \<times> u64 option) rd" where
  "capture_derive_entry t mechanism_ptr out5_ptr l = do {
     entry \<leftarrow> classify_derive_mechanism t mechanism_ptr l;
     State_Monad.return (case entry of
       Accepted _ \<Rightarrow> (entry, Some out5_ptr)
     | DeriveUnavailable \<Rightarrow> (entry, None)) }"

definition authorize_derive_return :: "DeriveEntry \<Rightarrow> u64 \<Rightarrow> u32 \<Rightarrow> u64 \<Rightarrow> bool" where
  "authorize_derive_return entry rv return_mechanism_status return_mechanism =
     (case entry of
        Accepted accepted \<Rightarrow>
          rv = CKR_OK \<and> return_mechanism_status = MECHANISM_VALUE
          \<and> return_mechanism = derive_mechanism_code accepted
      | DeriveUnavailable \<Rightarrow> False)"

definition authorize_entry_templates ::
  "(u32 \<Rightarrow> string option) \<Rightarrow> u32 \<Rightarrow> (u64 \<times> u64) list \<Rightarrow> DeriveEntry \<Rightarrow> (u64 \<times> u64) option list" where
  "authorize_entry_templates fname function template_scalars derive =
     (case object_descriptor fname function of
        None \<Rightarrow> [None, None]
      | Some d \<Rightarrow>
          if action d = Derive \<and> derive = DeriveUnavailable then [None, None]
          else
            [if fst (fst (template_args d)) \<noteq> ARG_NONE \<and> snd (fst (template_args d)) \<noteq> ARG_NONE
             then Some (template_scalars ! 0) else None,
             if fst (snd (template_args d)) \<noteq> ARG_NONE \<and> snd (snd (template_args d)) \<noteq> ARG_NONE
             then Some (template_scalars ! 1) else None])"

section \<open>Result handles\<close>

definition result_gate :: "bool \<Rightarrow> bool \<Rightarrow> bool \<times> u8 \<times> u32" where
  "result_gate present authorized =
     (if \<not> present then (False, HANDLE_ABSENT, 0)
      else if \<not> authorized then (False, HANDLE_PROTOCOL_UNAVAILABLE, OBJ_UNAVAILABLE_RESULT)
      else (True, HANDLE_ABSENT, 0))"

definition result_span :: "bool \<Rightarrow> u64 \<Rightarrow> LinuxLayout \<Rightarrow> u8 \<Rightarrow> bool \<times> u8" where
  "result_span gated ptr l status =
     (if gated
      then if ptr = 0 then (False, HANDLE_UNREADABLE)
           else if target_word_end ptr l = None then (False, HANDLE_INVALID_SPAN)
           else (True, status)
      else (False, status))"

definition handle_of_word :: "LinuxLayout \<Rightarrow> u64 option \<Rightarrow> u8 \<times> u64" where
  "handle_of_word l word =
     (case word of
        None \<Rightarrow> (HANDLE_UNREADABLE, 0)
      | Some w \<Rightarrow>
          if w = 0 then (HANDLE_INVALID_ZERO, 0)
          else if l = Ilp32 \<and> w > 0xFFFFFFFF then (HANDLE_INVALID_SPAN, 0)
          else (HANDLE_VALUE, w))"

definition result_word :: "target \<Rightarrow> bool \<Rightarrow> u64 \<Rightarrow> LinuxLayout \<Rightarrow> u8 \<Rightarrow> (u8 \<times> u64) rd" where
  "result_word t readable ptr l status =
     (if readable then do { word \<leftarrow> read_word t ptr l; State_Monad.return (handle_of_word l word) }
      else State_Monad.return (status, 0))"

definition capture_return_handles ::
  "(LinuxLayout \<Rightarrow> u64) \<Rightarrow> target \<Rightarrow> bool list \<Rightarrow> bool list \<Rightarrow> u64 list \<Rightarrow> u64 \<Rightarrow> ReturnAuthority \<Rightarrow>
    LinuxLayout \<Rightarrow> (ReturnHandlesVerdict \<times> u64 list) rd" where
  "capture_return_handles wb t present authorized result_ptrs rv authority l =
     (let (gated0, s0, f0) = result_gate (present ! 0) (authorized ! 0);
          (gated1, s1, f1) = result_gate (present ! 1) (authorized ! 1);
          flags = f0 OR f1;
          out = (\<lambda>st fl ws. State_Monad.return (\<lparr>rh_statuses = st, rh_object_flags = fl\<rparr>, ws))
      in if \<not> (gated0 \<or> gated1) then out [s0, s1] flags [0, 0]
      else if rv \<noteq> CKR_OK \<or> \<not> is_authorized authority
      then out [if gated0 then HANDLE_PROTOCOL_UNAVAILABLE else s0,
                if gated1 then HANDLE_PROTOCOL_UNAVAILABLE else s1] flags [0, 0]
      else let (readable0, s0) = result_span gated0 (result_ptrs ! 0) l s0;
               (readable1, s1) = result_span gated1 (result_ptrs ! 1) l s1;
               w = wb l
      in if readable0 \<and> readable1 \<and> spans_overlap (result_ptrs ! 0) w (result_ptrs ! 1) w
      then out [HANDLE_ALIAS, HANDLE_ALIAS] (flags OR OBJ_ALIAS) [0, 0]
      else do {
        (s0, w0) \<leftarrow> result_word t readable0 (result_ptrs ! 0) l s0;
        (s1, w1) \<leftarrow> result_word t readable1 (result_ptrs ! 1) l s1;
        let duplicate = s0 = HANDLE_VALUE \<and> s1 = HANDLE_VALUE \<and> w0 = w1;
        let (s0, s1, w0, w1) =
              (if duplicate then (HANDLE_DUPLICATE, HANDLE_DUPLICATE, 0, 0) else (s0, s1, w0, w1));
        let flags = (if duplicate then flags OR OBJ_DUPLICATE_RESULT else flags);
        let flags = (if gated0 \<and> gated1 \<and> ((s0 = HANDLE_VALUE) \<noteq> (s1 = HANDLE_VALUE))
                     then flags OR OBJ_PARTIAL_RESULT else flags);
        out [s0, s1] flags [w0, w1] })"

section \<open>Find\<close>

definition find_refused :: "u8 \<Rightarrow> FindVerdict \<times> u64 list" where
  "find_refused flags =
     (\<lparr>fv_statuses = replicate 8 HANDLE_ABSENT, fv_len = 0, fv_valid = False, fv_flags = flags,
       fv_result_cell = (HANDLE_PROTOCOL_UNAVAILABLE, 0)\<rparr>, replicate 8 0)"

fun find_elements ::
  "target \<Rightarrow> u64 \<Rightarrow> u64 \<Rightarrow> LinuxLayout \<Rightarrow> nat \<Rightarrow> nat \<Rightarrow> u8 list \<times> u64 list \<times> u8 \<Rightarrow>
    (u8 list \<times> u64 list \<times> u8) option rd" where
  "find_elements t array_ptr w l 0 i acc = State_Monad.return (Some acc)"
| "find_elements t array_ptr w l (Suc n) i (statuses, words, flags) =
     (case checked_add array_ptr (of_nat i * w) of
        None \<Rightarrow> State_Monad.return None
      | Some addr \<Rightarrow> do {
          word \<leftarrow> read_word t addr l;
          let (status, handle) = handle_of_word l word;
          find_elements t array_ptr w l n (Suc i)
            (statuses[i := status], words[i := handle],
             if word = None then flags OR FIND_UNREADABLE_ELEMENT else flags) })"

definition find_confirmed ::
  "target \<Rightarrow> u64 \<Rightarrow> LinuxLayout \<Rightarrow> u64 \<Rightarrow> (u8 list \<times> u64 list \<times> u8) option \<Rightarrow> (FindVerdict \<times> u64 list) rd" where
  "find_confirmed t count_ptr l count elements =
     (case elements of
        None \<Rightarrow> State_Monad.return (find_refused FIND_INVALID_SPAN)
      | Some (statuses, words, flags) \<Rightarrow> do {
          again \<leftarrow> read_word t count_ptr l;
          State_Monad.return
            (if again = Some count
             then (\<lparr>fv_statuses = statuses, fv_len = ucast (min count MAX_FIND_HANDLES), fv_valid = True,
                    fv_flags = flags, fv_result_cell = (HANDLE_PROTOCOL_UNAVAILABLE, 0)\<rparr>, words)
             else find_refused FIND_CHANGED_COUNT) })"

definition find_counted ::
  "(LinuxLayout \<Rightarrow> u64) \<Rightarrow> target \<Rightarrow> u64 \<Rightarrow> u64 \<Rightarrow> u64 \<Rightarrow> LinuxLayout \<Rightarrow> u64 \<Rightarrow> (FindVerdict \<times> u64 list) rd" where
  "find_counted wb t array_ptr capacity count_ptr l count =
     (if l = Ilp32 \<and> count > 0xFFFFFFFF then State_Monad.return (find_refused FIND_INVALID_COUNT)
      else if count > capacity then State_Monad.return (find_refused FIND_INVALID_COUNT)
      else case checked_mul count (wb l) of
        None \<Rightarrow> State_Monad.return (find_refused FIND_INVALID_SPAN)
      | Some array_len \<Rightarrow>
          if validate_target_span array_ptr array_len l = None
          then State_Monad.return (find_refused FIND_INVALID_SPAN)
          else if spans_overlap array_ptr array_len count_ptr (wb l)
          then State_Monad.return (find_refused FIND_COUNT_ALIAS)
          else do {
            elements \<leftarrow> find_elements t array_ptr (wb l) l (unat (min count MAX_FIND_HANDLES)) 0
              (replicate 8 HANDLE_ABSENT, replicate 8 0, if count > MAX_FIND_HANDLES then FIND_TRUNCATED else 0);
            find_confirmed t count_ptr l count elements })"

definition capture_find_return ::
  "(LinuxLayout \<Rightarrow> u64) \<Rightarrow> target \<Rightarrow> u64 \<Rightarrow> u64 \<Rightarrow> u64 \<Rightarrow> u64 \<Rightarrow> ReturnAuthority \<Rightarrow> LinuxLayout \<Rightarrow>
    (FindVerdict \<times> u64 list) rd" where
  "capture_find_return wb t array_ptr capacity count_ptr rv authority l =
     (if rv \<noteq> CKR_OK \<or> \<not> is_authorized authority then State_Monad.return (find_refused 0)
      else if count_ptr = 0 \<or> target_word_end count_ptr l = None
      then State_Monad.return (find_refused FIND_INVALID_COUNT)
      else do {
        first \<leftarrow> read_word t count_ptr l;
        case first of
          None \<Rightarrow> State_Monad.return (find_refused FIND_INVALID_COUNT)
        | Some count \<Rightarrow> find_counted wb t array_ptr capacity count_ptr l count })"

section \<open>Creation templates\<close>

record RequestScratch =
  rq_kinds :: "SafeAttributeKind option list"
  rq_selectors :: "u64 list"
  rq_ptrs :: "u64 list"
  rq_lens :: "u64 list"
  rq_outcome :: AttributeListOutcome

definition request_scratch :: "AttributeListOutcome \<Rightarrow> RequestScratch" where
  "request_scratch o' =
     \<lparr>rq_kinds = replicate 8 None, rq_selectors = replicate 8 0, rq_ptrs = replicate 8 0,
      rq_lens = replicate 8 0, rq_outcome = o'\<rparr>"

definition list_flag :: "u8 \<Rightarrow> AttributeListOutcome \<Rightarrow> AttributeListOutcome" where
  "list_flag f o' = o'\<lparr>ao_flags := ao_flags o' OR f\<rparr>"

definition put_cell :: "nat \<Rightarrow> u8 \<Rightarrow> u8 \<Rightarrow> u16 \<Rightarrow> AttributeListOutcome \<Rightarrow> AttributeListOutcome" where
  "put_cell i kind status value o' =
     o'\<lparr>ao_cells := (ao_cells o')[i := \<lparr>ac_kind = kind, ac_status = status, ac_value = value\<rparr>]\<rparr>"

text \<open>Phase A: selector-first own headers.\<close>

definition request_header ::
  "(LinuxLayout \<Rightarrow> u64) \<Rightarrow> target \<Rightarrow> u64 \<Rightarrow> LinuxLayout \<Rightarrow> nat \<Rightarrow> RequestScratch \<Rightarrow> RequestScratch rd" where
  "request_header wb t template_ptr l i s =
     (case attribute_header_addresses wb template_ptr (of_nat i) l of
        None \<Rightarrow> State_Monad.return (s\<lparr>rq_outcome := list_flag LIST_HEADER_READ_FAILURE (rq_outcome s)\<rparr>)
      | Some (sel_addr, ptr_addr, len_addr) \<Rightarrow> do {
          sel \<leftarrow> read_word t sel_addr l;
          case sel of
            None \<Rightarrow> State_Monad.return (s\<lparr>rq_outcome := list_flag LIST_HEADER_READ_FAILURE (rq_outcome s)\<rparr>)
          | Some selector \<Rightarrow>
              (case safe_attribute_kind selector of
                 None \<Rightarrow> State_Monad.return s
               | Some kind \<Rightarrow> do {
                   let unreadable = s\<lparr>rq_outcome := list_flag LIST_HEADER_READ_FAILURE
                         (put_cell i (safe_kind_code kind) ATTR_UNREADABLE 0 (rq_outcome s))\<rparr>;
                   p \<leftarrow> read_word t ptr_addr l;
                   case p of
                     None \<Rightarrow> State_Monad.return unreadable
                   | Some ptr \<Rightarrow> do {
                       n \<leftarrow> read_word t len_addr l;
                       State_Monad.return (case n of
                         None \<Rightarrow> unreadable
                       | Some len \<Rightarrow>
                           s\<lparr>rq_kinds := (rq_kinds s)[i := Some kind],
                             rq_selectors := (rq_selectors s)[i := selector],
                             rq_ptrs := (rq_ptrs s)[i := ptr],
                             rq_lens := (rq_lens s)[i := len]\<rparr>) } }) })"

text \<open>Phase B: bounded peer header re-reads; the state is the list of stated peer
  spans and the outcome whose flags they may raise.\<close>

definition peer_header ::
  "(LinuxLayout \<Rightarrow> u64) \<Rightarrow> target \<Rightarrow> u64 \<Rightarrow> LinuxLayout \<Rightarrow> nat \<Rightarrow> (u64 \<times> u64) list \<times> AttributeListOutcome \<Rightarrow>
    ((u64 \<times> u64) list \<times> AttributeListOutcome) rd" where
  "peer_header wb t peer_ptr l j = (\<lambda>(spans, o').
     case attribute_header_addresses wb peer_ptr (of_nat j) l of
       None \<Rightarrow> State_Monad.return (spans, list_flag LIST_HEADER_READ_FAILURE o')
     | Some (sel_addr, ptr_addr, len_addr) \<Rightarrow> do {
         sel \<leftarrow> read_word t sel_addr l;
         case sel of
           None \<Rightarrow> State_Monad.return (spans, list_flag LIST_HEADER_READ_FAILURE o')
         | Some selector \<Rightarrow>
             if safe_attribute_kind selector = None then State_Monad.return (spans, o')
             else do {
               p \<leftarrow> read_word t ptr_addr l;
               n \<leftarrow> read_word t len_addr l;
               State_Monad.return (case (p, n) of
                 (Some ptr, Some len) \<Rightarrow>
                   (if ptr \<noteq> 0 \<and> len \<noteq> 0 \<and> validate_target_span ptr len l \<noteq> None
                    then (spans @ [(ptr, len)], o') else (spans, o'))
               | _ \<Rightarrow> (spans, list_flag LIST_HEADER_READ_FAILURE o')) } })"

definition peer_headers ::
  "(LinuxLayout \<Rightarrow> u64) \<Rightarrow> target \<Rightarrow> (u64 \<times> u64) option \<Rightarrow> LinuxLayout \<Rightarrow> AttributeListOutcome \<Rightarrow>
    ((u64 \<times> u64) \<times> (u64 \<times> u64) list \<times> AttributeListOutcome) rd" where
  "peer_headers wb t peer l o' =
     (case peer of
        None \<Rightarrow> State_Monad.return ((0, 0), [], o')
      | Some (peer_ptr, peer_count) \<Rightarrow>
          (case attribute_table_span peer_count l of
             None \<Rightarrow> State_Monad.return ((0, 0), [], o')
           | Some peer_table \<Rightarrow>
               if validate_target_span peer_ptr peer_table l = None
               then State_Monad.return ((0, 0), [], o')
               else do {
                 let m = min peer_count MAX_ATTRIBUTE_SLOTS;
                 (spans, o'') \<leftarrow> for_each (peer_header wb t peer_ptr l) [0..<unat m] ([], o');
                 State_Monad.return ((peer_ptr, m * 3 * wb l), spans, o'') }))"

text \<open>Phase C: length, span and alias validation without value reads.\<close>

definition request_verdict ::
  "(LinuxLayout \<Rightarrow> u64) \<Rightarrow> LinuxLayout \<Rightarrow> SafeAttributeKind \<Rightarrow> u64 \<Rightarrow> u64 \<Rightarrow> u8 option" where
  "request_verdict wb l kind ptr len =
     (if ptr = 0 then Some ATTR_UNAVAILABLE
      else if \<not> valid_safe_attribute_length wb kind len l then Some ATTR_INVALID_LENGTH
      else if validate_target_span ptr len l = None then Some ATTR_INVALID_SPAN
      else None)"

definition request_validate ::
  "(LinuxLayout \<Rightarrow> u64) \<Rightarrow> LinuxLayout \<Rightarrow> RequestScratch \<Rightarrow> nat \<Rightarrow> AttributeListOutcome \<times> bool list \<Rightarrow>
    AttributeListOutcome \<times> bool list" where
  "request_validate wb l s i = (\<lambda>(o', viable).
     case rq_kinds s ! i of
       None \<Rightarrow> (o', viable)
     | Some kind \<Rightarrow>
         (case request_verdict wb l kind (rq_ptrs s ! i) (rq_lens s ! i) of
            Some status \<Rightarrow> (put_cell i (safe_kind_code kind) status 0 o', viable)
          | None \<Rightarrow> (o', viable[i := True])))"

definition request_aliased ::
  "LinuxLayout \<Rightarrow> u64 \<Rightarrow> u64 \<Rightarrow> u64 \<times> u64 \<Rightarrow> (u64 \<times> u64) list \<Rightarrow> nat \<Rightarrow> RequestScratch \<Rightarrow> nat \<Rightarrow> bool" where
  "request_aliased l template_ptr header_end peer_hdr peer_spans n s i =
     (let ptr = rq_ptrs s ! i; len = rq_lens s ! i in
      spans_overlap ptr len template_ptr (header_end - template_ptr)
      \<or> spans_overlap ptr len (fst peer_hdr) (snd peer_hdr)
      \<or> list_ex (\<lambda>(b, n). spans_overlap ptr len b n) peer_spans
      \<or> list_ex (\<lambda>j. j \<noteq> i \<and> rq_kinds s ! j \<noteq> None \<and> rq_ptrs s ! j \<noteq> 0 \<and> rq_lens s ! j \<noteq> 0
             \<and> validate_target_span (rq_ptrs s ! j) (rq_lens s ! j) l \<noteq> None
             \<and> spans_overlap ptr len (rq_ptrs s ! j) (rq_lens s ! j)) [0..<n])"

definition request_mark_alias ::
  "(nat \<Rightarrow> bool) \<Rightarrow> RequestScratch \<Rightarrow> nat \<Rightarrow> AttributeListOutcome \<times> bool list \<Rightarrow> AttributeListOutcome \<times> bool list" where
  "request_mark_alias aliased s i = (\<lambda>(o', viable).
     if aliased i
     then (case rq_kinds s ! i of
             None \<Rightarrow> o'
           | Some kind \<Rightarrow> (put_cell i (safe_kind_code kind) ATTR_ALIAS 0 o')
               \<lparr>ao_object_flags := ao_object_flags o' OR OBJ_ALIAS\<rparr>, viable[i := False])
     else (o', viable))"

text \<open>Phase D: one value read, then the header recheck.\<close>

definition recheck_cell ::
  "nat \<Rightarrow> u8 \<Rightarrow> u16 option \<Rightarrow> (u64 \<Rightarrow> bool) \<Rightarrow> u64 \<Rightarrow> u64 \<Rightarrow> u64 option \<Rightarrow> u64 option \<Rightarrow> u64 option \<Rightarrow>
    AttributeListOutcome \<Rightarrow> AttributeListOutcome" where
  "recheck_cell i kind value same_selector ptr len sel p n o' =
     (case (sel, p, n) of
        (Some sel', Some ptr', Some len') \<Rightarrow>
          if same_selector sel' \<and> ptr' = ptr \<and> len' = len
          then (case value of
                  Some v \<Rightarrow> put_cell i kind ATTR_VALUE v o'
                | None \<Rightarrow> put_cell i kind ATTR_UNSUPPORTED 0 o')
          else (put_cell i kind ATTR_CHANGED 0 o')
                 \<lparr>ao_object_flags := ao_object_flags o' OR OBJ_CHANGED_METADATA\<rparr>
      | _ \<Rightarrow> put_cell i kind ATTR_UNREADABLE 0 o')"

definition value_cell ::
  "(LinuxLayout \<Rightarrow> u64) \<Rightarrow> target \<Rightarrow> u64 \<Rightarrow> LinuxLayout \<Rightarrow> nat \<Rightarrow> SafeAttributeKind \<Rightarrow> (u64 \<Rightarrow> bool) \<Rightarrow>
    u64 \<Rightarrow> u64 \<Rightarrow> AttributeListOutcome \<Rightarrow> AttributeListOutcome rd" where
  "value_cell wb t template_ptr l i kind same_selector ptr len o' =
     (case attribute_header_addresses wb template_ptr (of_nat i) l of
        None \<Rightarrow> State_Monad.return (put_cell i (safe_kind_code kind) ATTR_INVALID_SPAN 0 o')
      | Some (sel_addr, ptr_addr, len_addr) \<Rightarrow> do {
          read \<leftarrow> read_classified_value t kind ptr len l;
          let keep = (\<lambda>status. State_Monad.return (put_cell i (safe_kind_code kind) status 0 o'));
          let recheck = (\<lambda>value. do {
                sel \<leftarrow> read_word t sel_addr l;
                p \<leftarrow> read_word t ptr_addr l;
                n \<leftarrow> read_word t len_addr l;
                State_Monad.return
                  (recheck_cell i (safe_kind_code kind) value same_selector ptr len sel p n o') });
          case read of
            Inr value \<Rightarrow> recheck (Some value)
          | Inl status \<Rightarrow>
              if status = ATTR_UNREADABLE then keep ATTR_UNREADABLE
              else if status \<noteq> ATTR_UNSUPPORTED then keep status
              else recheck None })"

definition request_value ::
  "(LinuxLayout \<Rightarrow> u64) \<Rightarrow> target \<Rightarrow> u64 \<Rightarrow> LinuxLayout \<Rightarrow> RequestScratch \<Rightarrow> bool list \<Rightarrow> nat \<Rightarrow>
    AttributeListOutcome \<Rightarrow> AttributeListOutcome rd" where
  "request_value wb t template_ptr l s viable i o' =
     (if \<not> viable ! i then State_Monad.return o'
      else case rq_kinds s ! i of
        None \<Rightarrow> State_Monad.return o'
      | Some kind \<Rightarrow>
          value_cell wb t template_ptr l i kind (\<lambda>sel. sel = rq_selectors s ! i) (rq_ptrs s ! i) (rq_lens s ! i) o')"

definition inspect_request_template ::
  "(LinuxLayout \<Rightarrow> u64) \<Rightarrow> target \<Rightarrow> u64 \<Rightarrow> u64 \<Rightarrow> (u64 \<times> u64) option \<Rightarrow> LinuxLayout \<Rightarrow>
    AttributeListOutcome rd" where
  "inspect_request_template wb t template_ptr count peer l =
     (let refused = empty_outcome\<lparr>ao_flags := LIST_INVALID_SPAN\<rparr> in
      case attribute_table_span count l of
        None \<Rightarrow> State_Monad.return refused
      | Some table_len \<Rightarrow>
          if validate_target_span template_ptr table_len l = None then State_Monad.return refused
          else do {
            let n = unat (min count MAX_ATTRIBUTE_SLOTS);
            let outcome = empty_outcome\<lparr>ao_inspected := of_nat n,
                  ao_flags := (if 0 < n then LIST_PRESENT else 0)
                              OR (if count > MAX_ATTRIBUTE_SLOTS then LIST_TRUNCATED else 0)\<rparr>;
            if n = 0 then State_Monad.return outcome
            else case checked_add template_ptr (of_nat n * 3 * wb l) of
              None \<Rightarrow> State_Monad.return refused
            | Some header_end \<Rightarrow> do {
                s \<leftarrow> for_each (request_header wb t template_ptr l) [0..<n] (request_scratch outcome);
                (peer_hdr, peer_spans, o') \<leftarrow> peer_headers wb t peer l (rq_outcome s);
                let (o', viable) = fold (request_validate wb l s) [0..<n] (o', replicate 8 False);
                let aliased = (\<lambda>i. viable ! i
                      \<and> request_aliased l template_ptr header_end peer_hdr peer_spans n s i);
                let (o', viable) = fold (request_mark_alias aliased s) [0..<n] (o', viable);
                for_each (request_value wb t template_ptr l s viable) [0..<n] o' } })"

section \<open>\<^verbatim>\<open>C_GetAttributeValue\<close>\<close>

definition empty_get_state :: GetEntryState where
  "empty_get_state =
     \<lparr>ge_template_base = 0, ge_header_end = 0,
      ge_slots = replicate 8 \<lparr>gs_value_ptr = 0, gs_entry_capacity = 0, gs_kind = 0, gs_slot_index = 0\<rparr>,
      ge_slot_count = 0, ge_inspected = 0, ge_entry_flags = 0\<rparr>"

definition get_header ::
  "(LinuxLayout \<Rightarrow> u64) \<Rightarrow> target \<Rightarrow> u64 \<Rightarrow> LinuxLayout \<Rightarrow> nat \<Rightarrow> GetSlot list \<times> u8 \<times> u8 \<Rightarrow>
    (GetSlot list \<times> u8 \<times> u8) rd" where
  "get_header wb t template_ptr l i = (\<lambda>(slots, retained, flags).
     let failed = State_Monad.return (slots, retained, flags OR LIST_HEADER_READ_FAILURE) in
     case attribute_header_addresses wb template_ptr (of_nat i) l of
       None \<Rightarrow> failed
     | Some (sel_addr, ptr_addr, len_addr) \<Rightarrow> do {
         sel \<leftarrow> read_word t sel_addr l;
         case sel of
           None \<Rightarrow> failed
         | Some selector \<Rightarrow>
             (case safe_attribute_kind selector of
                None \<Rightarrow> State_Monad.return (slots, retained, flags)
              | Some kind \<Rightarrow> do {
                  p \<leftarrow> read_word t ptr_addr l;
                  case p of
                    None \<Rightarrow> failed
                  | Some ptr \<Rightarrow> do {
                      n \<leftarrow> read_word t len_addr l;
                      case n of
                        None \<Rightarrow> failed
                      | Some len \<Rightarrow>
                          State_Monad.return
                            (slots[unat retained := \<lparr>gs_value_ptr = ptr, gs_entry_capacity = len,
                               gs_kind = safe_kind_code kind, gs_slot_index = of_nat i\<rparr>],
                             retained + 1, flags) } }) })"

definition capture_get_entry ::
  "(LinuxLayout \<Rightarrow> u64) \<Rightarrow> target \<Rightarrow> u64 \<Rightarrow> u64 \<Rightarrow> LinuxLayout \<Rightarrow> (GetEntryState \<times> GetEntryVerdict) rd" where
  "capture_get_entry wb t template_ptr count l =
     (let refused = (\<lambda>flags. State_Monad.return
            (empty_get_state\<lparr>ge_entry_flags := flags\<rparr>,
             \<lparr>gv_inspected = 0, gv_slot_count = 0, gv_entry_flags = flags\<rparr>)) in
      case attribute_table_span count l of
        None \<Rightarrow> refused LIST_INVALID_SPAN
      | Some table_len \<Rightarrow>
          if validate_target_span template_ptr table_len l = None then refused LIST_INVALID_SPAN
          else
            let n = min count MAX_ATTRIBUTE_SLOTS;
                flags = (if count > MAX_ATTRIBUTE_SLOTS then LIST_TRUNCATED else 0)
            in case checked_add template_ptr (n * 3 * wb l) of
                 None \<Rightarrow> refused (flags OR LIST_INVALID_SPAN)
               | Some header_end \<Rightarrow> do {
                   (slots, retained, flags) \<leftarrow>
                     for_each (get_header wb t template_ptr l) [0..<unat n] (ge_slots empty_get_state, 0, flags);
                   State_Monad.return
                     (\<lparr>ge_template_base = template_ptr, ge_header_end = header_end, ge_slots = slots,
                       ge_slot_count = retained, ge_inspected = ucast n, ge_entry_flags = flags\<rparr>,
                      \<lparr>gv_inspected = ucast n, gv_slot_count = retained, gv_entry_flags = flags\<rparr>) })"

definition retained_slot :: "GetEntryState \<Rightarrow> nat \<Rightarrow> nat \<Rightarrow> nat option list \<Rightarrow> nat option list" where
  "retained_slot entry n k retained_for =
     (let index = unat (gs_slot_index (ge_slots entry ! k)) in
      if index < n \<and> retained_for ! index = None then retained_for[index := Some k] else retained_for)"

definition get_verdict ::
  "(LinuxLayout \<Rightarrow> u64) \<Rightarrow> LinuxLayout \<Rightarrow> GetSlot \<Rightarrow> SafeAttributeKind \<Rightarrow> u64 \<Rightarrow> u64 \<Rightarrow> u64 \<Rightarrow> (u8 \<times> u32) option" where
  "get_verdict wb l slot kind sel ptr len =
     (if safe_attribute_kind sel \<noteq> Some kind then Some (ATTR_CHANGED, OBJ_CHANGED_METADATA)
      else if gs_value_ptr slot = 0 then Some (ATTR_SIZE_ONLY, 0)
      else if ptr \<noteq> gs_value_ptr slot then Some (ATTR_CHANGED, OBJ_CHANGED_METADATA)
      else if len = unavailable_len l then Some (ATTR_UNAVAILABLE, 0)
      else if gs_entry_capacity slot < min_exact_len wb kind l then Some (ATTR_INSUFFICIENT_CAPACITY, 0)
      else if len > gs_entry_capacity slot \<or> \<not> valid_safe_attribute_length wb kind len l
      then Some (ATTR_INVALID_LENGTH, 0)
      else if validate_target_span (gs_value_ptr slot) len l = None then Some (ATTR_INVALID_SPAN, 0)
      else None)"

text \<open>Phase 1 state: the kinds, returned lengths and viability per template slot,
  and the outcome.\<close>

type_synonym get_phase = "SafeAttributeKind option list \<times> u64 list \<times> bool list \<times> AttributeListOutcome"

definition get_reread ::
  "(LinuxLayout \<Rightarrow> u64) \<Rightarrow> target \<Rightarrow> GetEntryState \<Rightarrow> LinuxLayout \<Rightarrow> nat option list \<Rightarrow> nat \<Rightarrow> get_phase \<Rightarrow>
    get_phase rd" where
  "get_reread wb t entry l retained_for i = (\<lambda>(kinds, returned, viable, o').
     case retained_for ! i of
       None \<Rightarrow> State_Monad.return (kinds, returned, viable, o')
     | Some k \<Rightarrow>
         let slot = ge_slots entry ! k in
         (case kind_from_code (gs_kind slot) of
            None \<Rightarrow> State_Monad.return (kinds, returned, viable, o')
          | Some kind \<Rightarrow>
              (case attribute_header_addresses wb (ge_template_base entry) (of_nat i) l of
                 None \<Rightarrow> State_Monad.return
                   (kinds, returned, viable, put_cell i (gs_kind slot) ATTR_INVALID_SPAN 0 o')
               | Some (sel_addr, ptr_addr, len_addr) \<Rightarrow> do {
                   sel \<leftarrow> read_word t sel_addr l;
                   p \<leftarrow> read_word t ptr_addr l;
                   n \<leftarrow> read_word t len_addr l;
                   State_Monad.return (case (sel, p, n) of
                     (Some sel', Some ptr, Some len) \<Rightarrow>
                       (case get_verdict wb l slot kind sel' ptr len of
                          Some (status, flags) \<Rightarrow>
                            (kinds, returned, viable,
                             (put_cell i (gs_kind slot) status 0 o')\<lparr>ao_object_flags := ao_object_flags o' OR flags\<rparr>)
                        | None \<Rightarrow> (kinds[i := Some kind], returned[i := len], viable[i := True], o'))
                   | _ \<Rightarrow> (kinds, returned, viable, put_cell i (gs_kind slot) ATTR_UNREADABLE 0 o')) })))"

definition get_aliased ::
  "GetEntryState \<Rightarrow> LinuxLayout \<Rightarrow> nat \<Rightarrow> nat \<Rightarrow> u64 \<Rightarrow> bool" where
  "get_aliased entry l slot_count k len =
     (let ptr = gs_value_ptr (ge_slots entry ! k) in
      spans_overlap ptr len (ge_template_base entry)
        (saturating_sub (ge_header_end entry) (ge_template_base entry))
      \<or> list_ex (\<lambda>j. let other = ge_slots entry ! j in
          j \<noteq> k \<and> gs_value_ptr other \<noteq> 0 \<and> gs_entry_capacity other \<noteq> 0
          \<and> validate_target_span (gs_value_ptr other) (gs_entry_capacity other) l \<noteq> None
          \<and> spans_overlap ptr len (gs_value_ptr other) (gs_entry_capacity other)) [0..<slot_count])"

definition get_mark_alias ::
  "(nat \<Rightarrow> bool) \<Rightarrow> SafeAttributeKind option list \<Rightarrow> nat \<Rightarrow> AttributeListOutcome \<times> bool list \<Rightarrow>
    AttributeListOutcome \<times> bool list" where
  "get_mark_alias aliased kinds i = (\<lambda>(o', viable).
     if aliased i
     then (case kinds ! i of
             None \<Rightarrow> o'
           | Some kind \<Rightarrow> (put_cell i (safe_kind_code kind) ATTR_ALIAS 0 o')
               \<lparr>ao_object_flags := ao_object_flags o' OR OBJ_ALIAS\<rparr>, viable[i := False])
     else (o', viable))"

definition get_value ::
  "(LinuxLayout \<Rightarrow> u64) \<Rightarrow> target \<Rightarrow> GetEntryState \<Rightarrow> LinuxLayout \<Rightarrow> nat option list \<Rightarrow>
    SafeAttributeKind option list \<Rightarrow> u64 list \<Rightarrow> bool list \<Rightarrow> nat \<Rightarrow> AttributeListOutcome \<Rightarrow>
    AttributeListOutcome rd" where
  "get_value wb t entry l retained_for kinds returned viable i o' =
     (if \<not> viable ! i then State_Monad.return o'
      else case kinds ! i of
        None \<Rightarrow> State_Monad.return o'
      | Some kind \<Rightarrow>
          (case retained_for ! i of
             None \<Rightarrow> State_Monad.return o'
           | Some k \<Rightarrow>
               value_cell wb t (ge_template_base entry) l i kind
                 (\<lambda>sel. safe_attribute_kind sel = Some kind)
                 (gs_value_ptr (ge_slots entry ! k)) (returned ! i) o'))"

definition capture_get_return ::
  "(LinuxLayout \<Rightarrow> u64) \<Rightarrow> target \<Rightarrow> GetEntryState \<Rightarrow> u64 \<Rightarrow> ReturnAuthority \<Rightarrow> LinuxLayout \<Rightarrow>
    AttributeListOutcome rd" where
  "capture_get_return wb t entry rv authority l =
     (if \<not> return_accepts_get_results rv \<or> \<not> is_authorized authority
      then State_Monad.return empty_outcome
      else do {
        let n = unat (min (ge_inspected entry) 8);
        let slot_count = unat (min (ge_slot_count entry) 8);
        let outcome = empty_outcome\<lparr>ao_inspected := min (ge_inspected entry) 8,
              ao_flags := (ge_entry_flags entry AND 0x0F) OR (if 0 < n then LIST_PRESENT else 0)\<rparr>;
        let retained_for = fold (retained_slot entry n) [0..<slot_count] (replicate 8 None);
        (kinds, returned, viable, o') \<leftarrow> for_each (get_reread wb t entry l retained_for) [0..<n]
          (replicate 8 None, replicate 8 0, replicate 8 False, outcome);
        let aliased = (\<lambda>i. viable ! i \<and> (case retained_for ! i of
              None \<Rightarrow> False | Some k \<Rightarrow> get_aliased entry l slot_count k (returned ! i)));
        let (o', viable) = fold (get_mark_alias aliased kinds) [0..<n] (o', viable);
        for_each (get_value wb t entry l retained_for kinds returned viable) [0..<n] o' })"

section \<open>What the span arithmetic decides\<close>

definition span_bytes :: "u64 \<Rightarrow> u64 \<Rightarrow> nat set" where
  "span_bytes base len = {unat base ..< unat base + unat len}"

definition span_valid :: "u64 \<Rightarrow> u64 \<Rightarrow> LinuxLayout \<Rightarrow> bool" where
  "span_valid base len l \<longleftrightarrow> len = 0 \<or> (base \<noteq> 0 \<and> unat base + unat len \<le> space_size l)"

lemma unat_pred: "len \<noteq> 0 \<Longrightarrow> unat (len - 1) = unat len - 1" for len :: "'a::len word"
  by (simp add: unat_sub word_le_nat_alt Suc_leI unat_gt_0 unat_1)

lemma validate_target_span_iff: "validate_target_span base len l \<noteq> None \<longleftrightarrow> span_valid base len l"
proof (cases "len = 0 \<or> base = 0")
  case True
  then show ?thesis by (auto simp: validate_target_span_def span_valid_def)
next
  case False
  then have pos: "0 < unat len" "0 < unat base" by (simp_all add: unat_gt_0)
  show ?thesis
  proof (cases l)
    case Lp64
    have "checked_add base (len - 1) \<noteq> None \<longleftrightarrow> unat base + unat len \<le> 2 ^ 64"
      using False pos by (simp add: checked_add_def unat_pred) linarith
    then show ?thesis using False Lp64
      by (auto simp: validate_target_span_def span_valid_def space_size_def bind_eq_None_conv
          split: option.splits)
  next
    case Ilp32
    have "checked_add base len = Some (base + len) \<Longrightarrow> unat (base + len) = unat base + unat len"
      by (simp add: checked_add_Some_iff)
    then show ?thesis using False Ilp32 pos
      by (auto simp: validate_target_span_def span_valid_def space_size_def checked_add_def
          word_less_nat_alt not_less)
  qed
qed

lemma validate_target_span_None_iff: "validate_target_span base len l = None \<longleftrightarrow> \<not> span_valid base len l"
  using validate_target_span_iff by blast

lemma validate_target_span_end:
  assumes "validate_target_span base len l = Some e"
  shows "unat e = min (unat base + unat len) (2 ^ 64 - 1)"
proof (cases "len = 0")
  case True
  then show ?thesis using assms unsigned_less[of base, where 'a = nat]
    by (auto simp: validate_target_span_def min_def)
next
  case False
  then show ?thesis using assms
    by (cases l) (auto simp: validate_target_span_def unat_saturating_add checked_add_Some_iff bind_eq_Some_conv
        word_less_nat_alt not_less min_def split: if_splits)
qed

text \<open>The overlap test is exact below the last address. A shared byte at the last
  address itself is not seen.\<close>

lemma spans_overlap_iff:
  "spans_overlap a m b n \<longleftrightarrow> (\<exists>x \<in> span_bytes a m \<inter> span_bytes b n. x < 2 ^ 64 - 1)"
proof -
  let ?M = "2 ^ 64 - 1 :: nat"
  have bound: "unat a \<le> ?M" "unat b \<le> ?M"
    using unsigned_less[of a, where 'a = nat] unsigned_less[of b, where 'a = nat] by simp_all
  have "spans_overlap a m b n \<longleftrightarrow> 0 < unat m \<and> 0 < unat n
      \<and> unat a < min (unat b + unat n) ?M \<and> unat b < min (unat a + unat m) ?M"
    by (auto simp: spans_overlap_def Let_def word_less_nat_alt unat_saturating_add unat_gt_0)
  also have "\<dots> \<longleftrightarrow> (\<exists>x \<in> span_bytes a m \<inter> span_bytes b n. x < ?M)"
  proof
    assume c: "0 < unat m \<and> 0 < unat n \<and> unat a < min (unat b + unat n) ?M \<and> unat b < min (unat a + unat m) ?M"
    then have "max (unat a) (unat b) \<in> span_bytes a m \<inter> span_bytes b n" "max (unat a) (unat b) < ?M"
      by (auto simp: span_bytes_def)
    then show "\<exists>x \<in> span_bytes a m \<inter> span_bytes b n. x < ?M" by blast
  qed (auto simp: span_bytes_def)
  finally show ?thesis .
qed

lemma spans_overlap_sound: "spans_overlap a m b n \<Longrightarrow> span_bytes a m \<inter> span_bytes b n \<noteq> {}"
  by (auto simp: spans_overlap_iff)

lemma spans_disjoint:
  assumes "\<not> spans_overlap a m b n" "unat a + unat m < 2 ^ 64"
  shows "span_bytes a m \<inter> span_bytes b n = {}"
proof (rule ccontr)
  assume "span_bytes a m \<inter> span_bytes b n \<noteq> {}"
  then obtain x where "x \<in> span_bytes a m \<inter> span_bytes b n" by blast
  moreover from this assms(2) have "x < 2 ^ 64 - 1" by (auto simp: span_bytes_def)
  ultimately show False using assms(1) spans_overlap_iff by blast
qed

lemma spans_disjoint_ilp32:
  assumes "\<not> spans_overlap a m b n" "span_valid a m Ilp32"
  shows "span_bytes a m \<inter> span_bytes b n = {}"
proof (cases "m = 0")
  case False
  then show ?thesis using assms
    by (intro spans_disjoint) (auto simp: span_valid_def space_size_def)
qed (simp add: span_bytes_def)

lemma spans_overlap_empty [simp]: "\<not> spans_overlap a m b 0" "\<not> spans_overlap a 0 b n"
  by (simp_all add: spans_overlap_def)

text \<open>The table span is the checked product of the count and the header size.\<close>

lemma attribute_table_span_checked:
  assumes "word_bytes_ok wb"
  shows "attribute_table_span count l = checked_mul count (3 * wb l)"
proof (cases l)
  case Lp64
  have "count \<le> (- 1) div 24 \<longleftrightarrow> unat count * 24 < 2 ^ 64"
    by (simp add: word_le_nat_alt unat_div unat_minus_one_max) linarith
  moreover have "push_bit 4 count + push_bit 3 count = count * 24"
    by (simp add: push_bit_eq_mult)
  ultimately show ?thesis using Lp64 assms by (simp add: attribute_table_span_def checked_mul_def)
next
  case Ilp32
  have "count \<le> (- 1) div 12 \<longleftrightarrow> unat count * 12 < 2 ^ 64"
    by (simp add: word_le_nat_alt unat_div unat_minus_one_max) linarith
  moreover have "push_bit 3 count + push_bit 2 count = count * 12"
    by (simp add: push_bit_eq_mult)
  ultimately show ?thesis using Ilp32 assms by (simp add: attribute_table_span_def checked_mul_def)
qed

text \<open>A valid table places every header it announces inside the table and the
  address space, so the header address computation never refuses one.\<close>

lemma header_addresses:
  assumes wb: "word_bytes_ok wb" and table: "attribute_table_span count l = Some table"
    and valid: "validate_target_span base table l \<noteq> None" and i: "i < unat count" "i < 8"
  obtains slot where "attribute_header_addresses wb base (of_nat i) l = Some (slot, slot + wb l, slot + 2 * wb l)"
    and "unat slot = unat base + i * (3 * unat (wb l))"
    and "unat base + i * (3 * unat (wb l)) + 3 * unat (wb l) \<le> unat base + unat table"
    and "unat base + unat table \<le> space_size l" "base \<noteq> 0"
proof -
  let ?h = "3 * unat (wb l)"
  have h: "unat (3 * wb l) = ?h" "unat (2 * wb l) = 2 * unat (wb l)" "0 < unat (wb l)" "?h \<le> 24"
    using wb by (cases l; simp)+
  have iu: "unat (of_nat i :: u64) = i" using i(2) by (simp add: unat_of_nat)
  from table have tab: "unat table = unat count * ?h"
    using h(1) by (auto simp: attribute_table_span_checked[OF wb] checked_mul_def unat_word_ariths split: if_splits)
  have step: "i * ?h + ?h \<le> unat table"
    using i(1) mult_le_mono1[of "Suc i" "unat count" ?h] by (simp add: tab)
  then have tpos: "table \<noteq> 0" using h(3) by (auto simp: word_unat_eq_iff)
  with valid[unfolded validate_target_span_iff] have space: "base \<noteq> 0" "unat base + unat table \<le> space_size l"
    by (auto simp: span_valid_def)
  have cap: "space_size l \<le> 2 ^ 64" by (cases l) (simp_all add: space_size_def)
  let ?slot = "base + of_nat i * (3 * wb l)"
  have prod: "unat (of_nat i * (3 * wb l)) = i * ?h"
    using step space(2) cap h(1,3) iu by (simp add: unat_word_ariths)
  have slot: "unat ?slot = unat base + i * ?h"
    using step space(2) cap h(3) prod by (simp add: unat_word_ariths)
  have "attribute_table_span (of_nat i) l = Some (of_nat i * (3 * wb l))"
    using iu prod step space(2) cap h(1,3)
    by (simp add: attribute_table_span_checked[OF wb] checked_mul_def)
  moreover have "checked_add base (of_nat i * (3 * wb l)) = Some ?slot"
    using prod step space(2) cap h(3) by (simp add: checked_add_def)
  moreover have "?slot \<noteq> 0" using slot space(1) by (auto simp: word_unat_eq_iff)
  then have "validate_target_span ?slot (3 * wb l) l \<noteq> None"
    unfolding validate_target_span_iff using slot step space(2) h(1) by (simp add: span_valid_def)
  moreover have "checked_add ?slot (wb l) = Some (?slot + wb l)" "checked_add ?slot (2 * wb l) = Some (?slot + 2 * wb l)"
    using slot step space(2) cap h by (simp_all add: checked_add_def)
  ultimately have "attribute_header_addresses wb base (of_nat i) l = Some (?slot, ?slot + wb l, ?slot + 2 * wb l)"
    by (auto simp: attribute_header_addresses_def Let_def)
  moreover have "unat base + i * ?h + ?h \<le> unat base + unat table" using step by simp
  ultimately show thesis using that slot space by blast
qed

section \<open>Properties of the span checks\<close>

text \<open>C22: A target span is accepted exactly when it is empty, or starts above the
  null page word and ends inside the address space of its layout; and the alias
  test reports exactly the pairs of spans that share a byte below the last
  64-bit address.\<close>

theorem span_checks_exact:
  "(validate_target_span base len l \<noteq> None \<longleftrightarrow> span_valid base len l) \<and>
   (spans_overlap a m b n \<longleftrightarrow> (\<exists>x < 2 ^ 64 - 1. x \<in> span_bytes a m \<and> x \<in> span_bytes b n))"
  using validate_target_span_iff spans_overlap_iff[of a m b n] by auto

end
