(* ===== verification/P11_Stream.thy ===== *)
theory P11_Stream
  imports P11_Capture
begin

text \<open>
  The streamed production protocols (\<^verbatim>\<open>object_capture.rs\<close>, second half): scalar
  boundaries of the separately verified BPF subprograms, the alias rescan, the
  stable cell, the request-cell body, and the in-place template and
  \<^verbatim>\<open>C_GetAttributeValue\<close> walkers. Functions that dispatch to a BPF global on the
  BPF target and to the shared core on the host take the flag \<open>bpf\<close>.
\<close>

section \<open>Scalar boundaries\<close>

definition pack_alias_scan :: "bool \<Rightarrow> u8 \<Rightarrow> u64" where
  "pack_alias_scan alias flags = of_bool alias OR push_bit 8 (ucast flags)"

definition unpack_alias_scan :: "u64 \<Rightarrow> bool \<times> u8" where
  "unpack_alias_scan packed = (packed AND 1 \<noteq> 0, ucast (drop_bit 8 packed))"

abbreviation (input) ALIAS_SKIP_TAG_BIT :: u64 where "ALIAS_SKIP_TAG_BIT \<equiv> 0x8000000000000000"
abbreviation (input) ALIAS_SKIP_VALUE_MASK :: u64 where "ALIAS_SKIP_VALUE_MASK \<equiv> 0x7FFFFFFFFFFFFFFF"

definition encode_alias_skip_layout :: "u64 \<Rightarrow> LinuxLayout \<Rightarrow> u64" where
  "encode_alias_skip_layout skip l =
     (skip AND ALIAS_SKIP_VALUE_MASK) OR (case l of Lp64 \<Rightarrow> 0 | Ilp32 \<Rightarrow> ALIAS_SKIP_TAG_BIT)"

definition decode_alias_skip_layout :: "u64 \<Rightarrow> u64 \<times> LinuxLayout" where
  "decode_alias_skip_layout code =
     (code AND ALIAS_SKIP_VALUE_MASK, if code AND ALIAS_SKIP_TAG_BIT = 0 then Lp64 else Ilp32)"

definition pack_stable_cell :: "u8 \<Rightarrow> u16 \<Rightarrow> bool \<Rightarrow> u32 \<Rightarrow> u64" where
  "pack_stable_cell status value write_value contrib =
     ucast status OR push_bit 8 (ucast value) OR push_bit 24 (of_bool write_value) OR push_bit 32 (ucast contrib)"

definition unpack_stable_cell :: "u64 \<Rightarrow> u8 \<times> u16 \<times> bool \<times> u32" where
  "unpack_stable_cell packed =
     (ucast packed, ucast (drop_bit 8 packed), drop_bit 24 packed AND 1 \<noteq> 0, ucast (drop_bit 32 packed))"

definition encode_stable_kind_layout :: "SafeAttributeKind \<Rightarrow> LinuxLayout \<Rightarrow> u64" where
  "encode_stable_kind_layout kind l =
     push_bit 8 (case l of Lp64 \<Rightarrow> 0 | Ilp32 \<Rightarrow> 1) OR ucast (safe_kind_code kind)"

definition decode_stable_kind_layout :: "u64 \<Rightarrow> (SafeAttributeKind \<times> LinuxLayout) option" where
  "decode_stable_kind_layout code =
     (if drop_bit 8 code > 1 then None
      else case kind_from_code (ucast code) of
        None \<Rightarrow> None
      | Some kind \<Rightarrow> Some (kind, if drop_bit 8 code = 1 then Ilp32 else Lp64))"

definition stable_cell_poison :: u64 where
  "stable_cell_poison = pack_stable_cell ATTR_UNREADABLE 0 False 0"

definition decode_alias_capacity_layout :: "u64 \<Rightarrow> LinuxLayout option" where
  "decode_alias_capacity_layout w = (if w = 4 then Some Ilp32 else if w = 8 then Some Lp64 else None)"

record RequestCellFacts =
  rc_kind :: u8
  rc_status :: u8
  rc_value :: u16
  rc_list_flags :: u8
  rc_object_flags :: u32

definition default_cell_facts :: RequestCellFacts where
  "default_cell_facts = \<lparr>rc_kind = 0, rc_status = 0, rc_value = 0, rc_list_flags = 0, rc_object_flags = 0\<rparr>"

definition request_cell_facts_valid :: "RequestCellFacts \<Rightarrow> bool" where
  "request_cell_facts_valid f \<longleftrightarrow>
     (rc_kind f = 0 \<or> kind_from_code (rc_kind f) \<noteq> None)
     \<and> rc_status f \<le> ATTR_INSUFFICIENT_CAPACITY
     \<and> (rc_value f = 0 \<or> (rc_kind f \<noteq> 0 \<and> rc_status f = ATTR_VALUE))
     \<and> rc_list_flags f AND NOT LIST_HEADER_READ_FAILURE = 0
     \<and> rc_object_flags f AND NOT (OBJ_ALIAS OR OBJ_CHANGED_METADATA) = 0"

definition pack_request_cell :: "RequestCellFacts \<Rightarrow> u64 option" where
  "pack_request_cell f =
     (if \<not> request_cell_facts_valid f then None
      else Some (ucast (rc_kind f) OR push_bit 8 (ucast (rc_status f)) OR push_bit 16 (ucast (rc_value f))
        OR push_bit 32 (ucast (rc_list_flags f)) OR push_bit 40 (ucast (rc_object_flags f))))"

definition unpack_request_cell :: "u64 \<Rightarrow> RequestCellFacts option" where
  "unpack_request_cell packed =
     (if drop_bit 48 packed \<noteq> 0 then None
      else let f = \<lparr>rc_kind = ucast packed, rc_status = ucast (drop_bit 8 packed),
                    rc_value = ucast (drop_bit 16 packed), rc_list_flags = ucast (drop_bit 32 packed),
                    rc_object_flags = ucast (ucast (drop_bit 40 packed) :: u8)\<rparr>
        in if request_cell_facts_valid f then Some f else None)"

definition request_cell_poison :: u64 where
  "request_cell_poison = push_bit 32 (ucast LIST_HEADER_READ_FAILURE)"

definition encode_request_cell_tag :: "u64 \<Rightarrow> LinuxLayout \<Rightarrow> bool \<Rightarrow> u64 option" where
  "encode_request_cell_tag index l peer =
     (if index \<ge> MAX_ATTRIBUTE_SLOTS then None
      else Some (index OR push_bit 8 (of_bool (l = Ilp32)) OR push_bit 9 (of_bool peer)))"

definition decode_request_cell_tag :: "u64 \<Rightarrow> (u64 \<times> LinuxLayout \<times> bool) option" where
  "decode_request_cell_tag tag =
     (if tag AND NOT 0x307 \<noteq> 0 then None
      else Some (tag AND 7, if tag AND 0x100 = 0 then Lp64 else Ilp32, tag AND 0x200 \<noteq> 0))"

datatype GetSlotFlow = Break | Continue | Done

definition encode_get_slot_layout :: "nat \<Rightarrow> LinuxLayout \<Rightarrow> u64" where
  "encode_get_slot_layout slot_index l =
     (of_nat slot_index AND 7) OR (case l of Lp64 \<Rightarrow> 0 | Ilp32 \<Rightarrow> 0x100)"

definition decode_get_slot_layout :: "u64 \<Rightarrow> nat \<times> LinuxLayout" where
  "decode_get_slot_layout code = (unat (code AND 7), if code AND 0x100 = 0 then Lp64 else Ilp32)"

definition encode_get_slot_result :: "GetSlotFlow \<Rightarrow> u32 \<Rightarrow> u64" where
  "encode_get_slot_result flow contributed =
     push_bit 2 (ucast contributed) OR (case flow of Break \<Rightarrow> 0 | Continue \<Rightarrow> 1 | Done \<Rightarrow> 2)"

definition decode_get_slot_result :: "u64 \<Rightarrow> GetSlotFlow \<times> u32" where
  "decode_get_slot_result code =
     (let tag = code AND 3 in
      (if tag = 0 then Break else if tag = 1 then Continue else if tag = 2 then Done else Break,
       ucast (drop_bit 2 code)))"

section \<open>Alias scans\<close>

definition alias_neighbor ::
  "(LinuxLayout \<Rightarrow> u64) \<Rightarrow> target \<Rightarrow> u64 \<Rightarrow> u64 \<Rightarrow> u64 \<Rightarrow> u64 \<Rightarrow> LinuxLayout \<Rightarrow> nat \<Rightarrow> bool \<times> u8 \<Rightarrow> (bool \<times> u8) rd" where
  "alias_neighbor wb t base skip ptr len l j = (\<lambda>(alias, flags).
     let failed = State_Monad.return (alias, flags OR LIST_HEADER_READ_FAILURE) in
     if of_nat j = skip then State_Monad.return (alias, flags)
     else case attribute_header_addresses wb base (of_nat j) l of
       None \<Rightarrow> failed
     | Some (sel_addr, ptr_addr, len_addr) \<Rightarrow> do {
         sel \<leftarrow> read_word t sel_addr l;
         case sel of
           None \<Rightarrow> failed
         | Some selector \<Rightarrow>
             if safe_attribute_kind selector = None then State_Monad.return (alias, flags)
             else do {
               p \<leftarrow> read_word t ptr_addr l;
               n \<leftarrow> read_word t len_addr l;
               case p of
                 None \<Rightarrow> failed
               | Some other_ptr \<Rightarrow>
                   (case n of
                      None \<Rightarrow> failed
                    | Some other_len \<Rightarrow>
                        State_Monad.return
                          (alias \<or> ((other_ptr OR other_len) \<noteq> 0
                             \<and> validate_target_span other_ptr other_len l \<noteq> None
                             \<and> spans_overlap ptr len other_ptr other_len), flags)) } })"

definition alias_scan_core ::
  "(LinuxLayout \<Rightarrow> u64) \<Rightarrow> target \<Rightarrow> u64 \<Rightarrow> u64 \<Rightarrow> u64 \<Rightarrow> u64 \<Rightarrow> u64 \<Rightarrow> LinuxLayout \<Rightarrow> (bool \<times> u8) rd" where
  "alias_scan_core wb t base count skip ptr len l =
     (case attribute_table_span count l of
        None \<Rightarrow> State_Monad.return (False, 0)
      | Some table \<Rightarrow>
          if validate_target_span base table l = None then State_Monad.return (False, 0)
          else let n = min count MAX_ATTRIBUTE_SLOTS in
            for_each (alias_neighbor wb t base skip ptr len l) [0..<unat n]
              (spans_overlap ptr len base (n * 3 * wb l), 0))"

definition alias_scan_packed ::
  "(LinuxLayout \<Rightarrow> u64) \<Rightarrow> target \<Rightarrow> u64 \<Rightarrow> u64 \<Rightarrow> u64 \<Rightarrow> u64 \<Rightarrow> u64 \<Rightarrow> u64 rd" where
  "alias_scan_packed wb t base count skip_tag ptr len =
     (let (skip, l) = decode_alias_skip_layout skip_tag in do {
        (alias, flags) \<leftarrow> alias_scan_core wb t base count skip ptr len l;
        State_Monad.return (pack_alias_scan alias flags) })"

definition request_alias_scan ::
  "bool \<Rightarrow> (LinuxLayout \<Rightarrow> u64) \<Rightarrow> target \<Rightarrow> u64 \<Rightarrow> u64 \<Rightarrow> u64 \<Rightarrow> u64 \<Rightarrow> u64 \<Rightarrow> LinuxLayout \<Rightarrow> (bool \<times> u8) rd" where
  "request_alias_scan bpf wb t base count skip ptr len l =
     (if bpf then do {
        packed \<leftarrow> alias_scan_packed wb t base count (encode_alias_skip_layout skip l) ptr len;
        State_Monad.return (unpack_alias_scan packed) }
      else alias_scan_core wb t base count skip ptr len l)"

definition alias_capacity_core :: "u64 \<Rightarrow> u64 \<Rightarrow> u64 \<Rightarrow> u64 \<Rightarrow> LinuxLayout \<Rightarrow> bool" where
  "alias_capacity_core ptr len other_ptr other_cap l \<longleftrightarrow>
     (other_ptr OR other_cap) \<noteq> 0 \<and> validate_target_span other_ptr other_cap l \<noteq> None
     \<and> spans_overlap ptr len other_ptr other_cap"

definition alias_capacity_packed :: "u64 \<Rightarrow> u64 \<Rightarrow> u64 \<Rightarrow> u64 \<Rightarrow> u64 \<Rightarrow> u64" where
  "alias_capacity_packed ptr len other_ptr other_cap w =
     (case decode_alias_capacity_layout w of
        None \<Rightarrow> 0
      | Some l \<Rightarrow> of_bool (alias_capacity_core ptr len other_ptr other_cap l))"

definition alias_capacity_hit ::
  "bool \<Rightarrow> (LinuxLayout \<Rightarrow> u64) \<Rightarrow> u64 \<Rightarrow> u64 \<Rightarrow> u64 \<Rightarrow> u64 \<Rightarrow> LinuxLayout \<Rightarrow> bool" where
  "alias_capacity_hit bpf wb ptr len other_ptr other_cap l =
     (if bpf then alias_capacity_packed ptr len other_ptr other_cap (wb l) \<noteq> 0
      else alias_capacity_core ptr len other_ptr other_cap l)"

section \<open>Stable cells\<close>

definition stable_cell_core ::
  "(LinuxLayout \<Rightarrow> u64) \<Rightarrow> target \<Rightarrow> u64 \<Rightarrow> u64 \<Rightarrow> SafeAttributeKind \<Rightarrow> u64 \<Rightarrow> u64 \<Rightarrow> LinuxLayout \<Rightarrow>
    (u8 \<times> u16 \<times> bool \<times> u32) rd" where
  "stable_cell_core wb t base index kind ptr len l = do {
     read \<leftarrow> read_classified_value t kind ptr len l;
     let recheck = (\<lambda>value. case attribute_header_addresses wb base index l of
           None \<Rightarrow> State_Monad.return (ATTR_INVALID_SPAN, 0, False, 0)
         | Some (sel_addr, ptr_addr, len_addr) \<Rightarrow> do {
             sel \<leftarrow> read_word t sel_addr l;
             p \<leftarrow> read_word t ptr_addr l;
             n \<leftarrow> read_word t len_addr l;
             State_Monad.return (case (sel, p, n) of
               (Some sel', Some ptr2, Some len2) \<Rightarrow>
                 if safe_attribute_kind sel' \<noteq> Some kind \<or> ptr2 \<noteq> ptr \<or> len2 \<noteq> len
                 then (ATTR_CHANGED, 0, False, OBJ_CHANGED_METADATA)
                 else (case value of
                         Some v \<Rightarrow> (ATTR_VALUE, v, True, 0)
                       | None \<Rightarrow> (ATTR_UNSUPPORTED, 0, True, 0))
             | _ \<Rightarrow> (ATTR_UNREADABLE, 0, False, 0)) });
     case read of
       Inr value \<Rightarrow> recheck (Some value)
     | Inl status \<Rightarrow>
         if status = ATTR_UNSUPPORTED then recheck None
         else State_Monad.return (status, 0, False, 0) }"

definition stable_cell_packed ::
  "(LinuxLayout \<Rightarrow> u64) \<Rightarrow> target \<Rightarrow> u64 \<Rightarrow> u64 \<Rightarrow> u64 \<Rightarrow> u64 \<Rightarrow> u64 \<Rightarrow> u64 rd" where
  "stable_cell_packed wb t base index kind_layout ptr len =
     (case decode_stable_kind_layout kind_layout of
        None \<Rightarrow> State_Monad.return stable_cell_poison
      | Some (kind, l) \<Rightarrow> do {
          (status, value, write_value, contrib) \<leftarrow> stable_cell_core wb t base index kind ptr len l;
          State_Monad.return (pack_stable_cell status value write_value contrib) })"

definition stable_cell_facts ::
  "bool \<Rightarrow> (LinuxLayout \<Rightarrow> u64) \<Rightarrow> target \<Rightarrow> u64 \<Rightarrow> u64 \<Rightarrow> SafeAttributeKind \<Rightarrow> u64 \<Rightarrow> u64 \<Rightarrow> LinuxLayout \<Rightarrow>
    (u8 \<times> u16 \<times> bool \<times> u32) rd" where
  "stable_cell_facts bpf wb t base index kind ptr len l =
     (if bpf then do {
        packed \<leftarrow> stable_cell_packed wb t base index (encode_stable_kind_layout kind l) ptr len;
        State_Monad.return (unpack_stable_cell packed) }
      else stable_cell_core wb t base index kind ptr len l)"

definition stable_attribute_cell ::
  "bool \<Rightarrow> (LinuxLayout \<Rightarrow> u64) \<Rightarrow> target \<Rightarrow> u64 \<Rightarrow> u64 \<Rightarrow> SafeAttributeKind \<Rightarrow> u64 \<Rightarrow> u64 \<Rightarrow> LinuxLayout \<Rightarrow>
    ObjectAttributeWire \<Rightarrow> (ObjectAttributeWire \<times> u32) rd" where
  "stable_attribute_cell bpf wb t base index kind ptr len l out = do {
     (status, value, write_value, contrib) \<leftarrow> stable_cell_facts bpf wb t base index kind ptr len l;
     let out = out\<lparr>aw_status := status\<rparr>;
     State_Monad.return (if write_value then out\<lparr>aw_value := value\<rparr> else out, contrib) }"

definition clear_attribute_list :: "ObjectAttributeListWire \<Rightarrow> ObjectAttributeListWire" where
  "clear_attribute_list out =
     out\<lparr>al_cells := replicate 8 zero_cell, al_inspected := 0, al_flags := 0, al_reserved := 0\<rparr>"

section \<open>Streamed creation templates\<close>

definition request_cell_core ::
  "bool \<Rightarrow> (LinuxLayout \<Rightarrow> u64) \<Rightarrow> target \<Rightarrow> u64 \<Rightarrow> u64 \<Rightarrow> u64 \<Rightarrow> (u64 \<times> u64) option \<Rightarrow> LinuxLayout \<Rightarrow>
    RequestCellFacts rd" where
  "request_cell_core bpf wb t base count index peer l =
     (let facts = default_cell_facts;
          header_failed = facts\<lparr>rc_list_flags := LIST_HEADER_READ_FAILURE\<rparr> in
      case attribute_header_addresses wb base index l of
        None \<Rightarrow> State_Monad.return header_failed
      | Some (sel_addr, ptr_addr, len_addr) \<Rightarrow> do {
          sel \<leftarrow> read_word t sel_addr l;
          case sel of
            None \<Rightarrow> State_Monad.return header_failed
          | Some selector \<Rightarrow>
              (case safe_attribute_kind selector of
                 None \<Rightarrow> State_Monad.return facts
               | Some kind \<Rightarrow> do {
                   let facts = facts\<lparr>rc_kind := safe_kind_code kind\<rparr>;
                   let unreadable = facts\<lparr>rc_status := ATTR_UNREADABLE, rc_list_flags := LIST_HEADER_READ_FAILURE\<rparr>;
                   p \<leftarrow> read_word t ptr_addr l;
                   case p of
                     None \<Rightarrow> State_Monad.return unreadable
                   | Some ptr \<Rightarrow> do {
                       n \<leftarrow> read_word t len_addr l;
                       case n of
                         None \<Rightarrow> State_Monad.return unreadable
                       | Some len \<Rightarrow>
                           (case request_verdict wb l kind ptr len of
                              Some status \<Rightarrow> State_Monad.return (facts\<lparr>rc_status := status\<rparr>)
                            | None \<Rightarrow> do {
                                (alias, flags) \<leftarrow> request_alias_scan bpf wb t base count index ptr len l;
                                (alias', flags') \<leftarrow>
                                  (case peer of
                                     None \<Rightarrow> State_Monad.return (False, 0)
                                   | Some (peer_base, peer_count) \<Rightarrow>
                                       request_alias_scan bpf wb t peer_base peer_count (- 1) ptr len l);
                                let facts = facts\<lparr>rc_list_flags := flags OR flags'\<rparr>;
                                if alias \<or> alias'
                                then State_Monad.return
                                       (facts\<lparr>rc_status := ATTR_ALIAS, rc_object_flags := OBJ_ALIAS\<rparr>)
                                else do {
                                  (status, value, write_value, contrib) \<leftarrow>
                                    stable_cell_facts bpf wb t base index kind ptr len l;
                                  State_Monad.return
                                    (facts\<lparr>rc_status := status,
                                           rc_value := (if write_value then value else rc_value facts),
                                           rc_object_flags := contrib\<rparr>) } }) } }) })"

definition request_cell_packed ::
  "bool \<Rightarrow> (LinuxLayout \<Rightarrow> u64) \<Rightarrow> target \<Rightarrow> u64 \<Rightarrow> u64 \<Rightarrow> u64 \<Rightarrow> u64 \<Rightarrow> u64 \<Rightarrow> u64 rd" where
  "request_cell_packed bpf wb t base count tag peer_base peer_count =
     (case decode_request_cell_tag tag of
        None \<Rightarrow> State_Monad.return request_cell_poison
      | Some (index, l, has_peer) \<Rightarrow>
          (case attribute_table_span count l of
             None \<Rightarrow> State_Monad.return request_cell_poison
           | Some table \<Rightarrow>
               if validate_target_span base table l = None
                  \<or> index \<ge> min count MAX_ATTRIBUTE_SLOTS
                  \<or> checked_add base (min count MAX_ATTRIBUTE_SLOTS * 3 * wb l) = None
               then State_Monad.return request_cell_poison
               else do {
                 facts \<leftarrow> request_cell_core bpf wb t base count index
                            (if has_peer then Some (peer_base, peer_count) else None) l;
                 State_Monad.return (case pack_request_cell facts of
                   None \<Rightarrow> request_cell_poison | Some packed \<Rightarrow> packed) }))"

definition request_cell ::
  "bool \<Rightarrow> (LinuxLayout \<Rightarrow> u64) \<Rightarrow> target \<Rightarrow> u64 \<Rightarrow> u64 \<Rightarrow> u64 \<Rightarrow> (u64 \<times> u64) option \<Rightarrow> LinuxLayout \<Rightarrow>
    RequestCellFacts rd" where
  "request_cell bpf wb t base count index peer l =
     (let failed = default_cell_facts\<lparr>rc_list_flags := LIST_HEADER_READ_FAILURE\<rparr> in
      case encode_request_cell_tag index l (peer \<noteq> None) of
        None \<Rightarrow> State_Monad.return failed
      | Some tag \<Rightarrow>
          let (peer_base, peer_count) = (case peer of None \<Rightarrow> (0, 0) | Some p \<Rightarrow> p) in do {
            packed \<leftarrow> request_cell_packed bpf wb t base count tag peer_base peer_count;
            State_Monad.return (case unpack_request_cell packed of None \<Rightarrow> failed | Some f \<Rightarrow> f) })"

definition request_cell_into ::
  "bool \<Rightarrow> (LinuxLayout \<Rightarrow> u64) \<Rightarrow> target \<Rightarrow> u64 \<Rightarrow> u64 \<Rightarrow> (u64 \<times> u64) option \<Rightarrow> LinuxLayout \<Rightarrow> nat \<Rightarrow>
    ObjectAttributeListWire \<times> u32 \<Rightarrow> (ObjectAttributeListWire \<times> u32) rd" where
  "request_cell_into bpf wb t template_ptr count peer l i = (\<lambda>(out, contributed). do {
     facts \<leftarrow> request_cell bpf wb t template_ptr count (of_nat i) peer l;
     State_Monad.return
       (out\<lparr>al_cells := (al_cells out)[i :=
              \<lparr>aw_kind = rc_kind facts, aw_status = rc_status facts, aw_value = rc_value facts\<rparr>],
            al_flags := al_flags out OR rc_list_flags facts\<rparr>,
        contributed OR rc_object_flags facts) })"

definition inspect_request_template_into ::
  "bool \<Rightarrow> (LinuxLayout \<Rightarrow> u64) \<Rightarrow> target \<Rightarrow> u64 \<Rightarrow> u64 \<Rightarrow> (u64 \<times> u64) option \<Rightarrow> LinuxLayout \<Rightarrow>
    ObjectAttributeListWire \<Rightarrow> (ObjectAttributeListWire \<times> u32) rd" where
  "inspect_request_template_into bpf wb t template_ptr count peer l out =
     (let out = clear_attribute_list out;
          refused = State_Monad.return (out\<lparr>al_flags := LIST_INVALID_SPAN\<rparr>, 0) in
      case attribute_table_span count l of
        None \<Rightarrow> refused
      | Some table \<Rightarrow>
          if validate_target_span template_ptr table l = None then refused
          else let n = min count MAX_ATTRIBUTE_SLOTS in
            if checked_add template_ptr (n * 3 * wb l) = None then refused
            else let out = out\<lparr>al_inspected := ucast n,
                   al_flags := (if n > 0 then LIST_PRESENT else 0)
                               OR (if count > MAX_ATTRIBUTE_SLOTS then LIST_TRUNCATED else 0)\<rparr>
            in if n = 0 then State_Monad.return (out, 0)
            else do {
              (_, flags) \<leftarrow> (case peer of
                 None \<Rightarrow> State_Monad.return (False, 0)
               | Some (peer_base, peer_count) \<Rightarrow> request_alias_scan bpf wb t peer_base peer_count (- 1) 0 0 l);
              for_each (request_cell_into bpf wb t template_ptr count peer l) [0..<unat n]
                (out\<lparr>al_flags := al_flags out OR flags\<rparr>, 0) })"

section \<open>Streamed \<^verbatim>\<open>C_GetAttributeValue\<close>\<close>

definition default_slot :: ObjectAttributeSlot where
  "default_slot = \<lparr>sl_value_ptr = 0, sl_entry_capacity = 0, sl_returned_len = 0, sl_kind = 0,
     sl_slot_index = 0, sl_status = 0\<rparr>"

text \<open>The header loop's state: the slots, the retained count, the entry flags, and
  whether the loop has broken out.\<close>

definition get_header_into ::
  "(LinuxLayout \<Rightarrow> u64) \<Rightarrow> target \<Rightarrow> u64 \<Rightarrow> LinuxLayout \<Rightarrow> nat \<Rightarrow> ObjectAttributeSlot list \<times> u8 \<times> u8 \<times> bool \<Rightarrow>
    (ObjectAttributeSlot list \<times> u8 \<times> u8 \<times> bool) rd" where
  "get_header_into wb t template_ptr l i = (\<lambda>(slots, slot_count, flags, broken).
     let failed = State_Monad.return (slots, slot_count, flags OR LIST_HEADER_READ_FAILURE, broken) in
     if broken then State_Monad.return (slots, slot_count, flags, broken)
     else case attribute_header_addresses wb template_ptr (of_nat i) l of
       None \<Rightarrow> failed
     | Some (sel_addr, ptr_addr, len_addr) \<Rightarrow> do {
         sel \<leftarrow> read_word t sel_addr l;
         case sel of
           None \<Rightarrow> failed
         | Some selector \<Rightarrow>
             (case safe_attribute_kind selector of
                None \<Rightarrow> State_Monad.return (slots, slot_count, flags, broken)
              | Some kind \<Rightarrow> do {
                  p \<leftarrow> read_word t ptr_addr l;
                  case p of
                    None \<Rightarrow> failed
                  | Some ptr \<Rightarrow> do {
                      n \<leftarrow> read_word t len_addr l;
                      case n of
                        None \<Rightarrow> failed
                      | Some len \<Rightarrow>
                          State_Monad.return
                            (if length slots \<le> unat slot_count
                             then (slots, slot_count, flags OR LIST_HEADER_READ_FAILURE, True)
                             else (slots[unat slot_count := (slots ! unat slot_count)
                                     \<lparr>sl_value_ptr := ptr, sl_entry_capacity := len,
                                      sl_kind := safe_kind_code kind, sl_slot_index := of_nat i\<rparr>],
                                   slot_count + 1, flags, broken)) } }) })"

definition capture_get_entry_into ::
  "(LinuxLayout \<Rightarrow> u64) \<Rightarrow> target \<Rightarrow> u64 \<Rightarrow> u64 \<Rightarrow> LinuxLayout \<Rightarrow> ObjectStart \<Rightarrow> (ObjectStart \<times> GetEntryVerdict) rd" where
  "capture_get_entry_into wb t template_ptr count l side =
     (let side = side\<lparr>os_get_template_base := 0, os_inspected_header_end := 0, os_get_inspected := 0,
            os_flags := os_flags side AND NOT GET_ENTRY_FLAGS_MASK, os_slots := replicate 8 default_slot\<rparr>;
          finish = (\<lambda>side verdict. State_Monad.return
            (side\<lparr>os_flags := os_flags side OR push_bit 8 (ucast (gv_entry_flags verdict))\<rparr>, verdict));
          refused = finish side \<lparr>gv_inspected = 0, gv_slot_count = 0, gv_entry_flags = LIST_INVALID_SPAN\<rparr>
      in case (do { len \<leftarrow> attribute_table_span count l; validate_target_span template_ptr len l }) of
        None \<Rightarrow> refused
      | Some _ \<Rightarrow>
          let n = min count MAX_ATTRIBUTE_SLOTS in
          (case checked_add template_ptr (n * 3 * wb l) of
             None \<Rightarrow> refused
           | Some header_end \<Rightarrow> do {
               (slots, slot_count, flags, _) \<leftarrow> for_each (get_header_into wb t template_ptr l) [0..<unat n]
                 (os_slots side, 0, if count > MAX_ATTRIBUTE_SLOTS then LIST_TRUNCATED else 0, False);
               finish (side\<lparr>os_get_template_base := template_ptr, os_inspected_header_end := header_end,
                            os_get_inspected := ucast n, os_slots := slots\<rparr>)
                 \<lparr>gv_inspected = ucast n, gv_slot_count = slot_count, gv_entry_flags = flags\<rparr> }))"

fun alias_capacities ::
  "bool \<Rightarrow> (LinuxLayout \<Rightarrow> u64) \<Rightarrow> nat \<Rightarrow> u64 \<Rightarrow> u64 \<Rightarrow> LinuxLayout \<Rightarrow> nat \<Rightarrow> ObjectAttributeSlot list \<Rightarrow> bool \<Rightarrow> bool" where
  "alias_capacities bpf wb slot_index ptr len l j [] alias = alias"
| "alias_capacities bpf wb slot_index ptr len l j (other # rest) alias =
     (if \<not> slot_kind_selected (sl_kind other) then alias
      else alias_capacities bpf wb slot_index ptr len l (Suc j) rest
        (alias \<or> (j \<noteq> slot_index
           \<and> alias_capacity_hit bpf wb ptr len (sl_value_ptr other) (sl_entry_capacity other) l)))"

definition slot_verdict ::
  "(LinuxLayout \<Rightarrow> u64) \<Rightarrow> LinuxLayout \<Rightarrow> ObjectAttributeSlot \<Rightarrow> SafeAttributeKind \<Rightarrow> u64 \<Rightarrow> u64 \<Rightarrow> u64 \<Rightarrow>
    (u8 \<times> u32) option" where
  "slot_verdict wb l slot kind sel ptr len =
     (if sel \<noteq> selector_for_kind kind then Some (ATTR_CHANGED, OBJ_CHANGED_METADATA)
      else if sl_value_ptr slot = 0 then Some (ATTR_SIZE_ONLY, 0)
      else if ptr \<noteq> sl_value_ptr slot then Some (ATTR_CHANGED, OBJ_CHANGED_METADATA)
      else if len = unavailable_len l then Some (ATTR_UNAVAILABLE, 0)
      else if sl_entry_capacity slot < min_exact_len wb kind l then Some (ATTR_INSUFFICIENT_CAPACITY, 0)
      else if len > sl_entry_capacity slot \<or> \<not> valid_safe_attribute_length wb kind len l
      then Some (ATTR_INVALID_LENGTH, 0)
      else if validate_target_span ptr len l = None then Some (ATTR_INVALID_SPAN, 0)
      else None)"

definition put_wire_cell :: "nat \<Rightarrow> ObjectAttributeWire \<Rightarrow> ObjectAttributeListWire \<Rightarrow> ObjectAttributeListWire" where
  "put_wire_cell i cell out = out\<lparr>al_cells := (al_cells out)[i := cell]\<rparr>"

definition classify_get_slot ::
  "bool \<Rightarrow> (LinuxLayout \<Rightarrow> u64) \<Rightarrow> target \<Rightarrow> ObjectStart \<Rightarrow> u64 \<Rightarrow> ObjectAttributeListWire \<Rightarrow>
    (ObjectAttributeListWire \<times> u64) rd" where
  "classify_get_slot bpf wb t side slot_layout out =
     (let (slot_index, l) = decode_get_slot_layout slot_layout;
          slot = os_slots side ! slot_index;
          result = (\<lambda>out flow contributed. State_Monad.return (out, encode_get_slot_result flow contributed)) in
      case kind_from_code (sl_kind slot) of
        None \<Rightarrow> result out Break 0
      | Some kind \<Rightarrow>
          let n = min (os_get_inspected side) 8; i = sl_slot_index slot in
          if i \<ge> n then result out Continue 0
          else
            let j = unat (i AND 7); cell = al_cells out ! j in
            if aw_kind cell \<noteq> 0 then result out Continue 0
            else
              let cell = cell\<lparr>aw_kind := sl_kind slot\<rparr>;
                  put = (\<lambda>status. put_wire_cell j (cell\<lparr>aw_status := status\<rparr>) out) in
              (case attribute_header_addresses wb (os_get_template_base side) (ucast i) l of
                 None \<Rightarrow> result (put ATTR_INVALID_SPAN) Continue 0
               | Some (sel_addr, ptr_addr, len_addr) \<Rightarrow> do {
                   sel \<leftarrow> read_word t sel_addr l;
                   p \<leftarrow> read_word t ptr_addr l;
                   n \<leftarrow> read_word t len_addr l;
                   case (sel, p, n) of
                     (Some sel', Some ptr, Some len) \<Rightarrow>
                       (case slot_verdict wb l slot kind sel' ptr len of
                          Some (status, flags) \<Rightarrow> result (put status) Done flags
                        | None \<Rightarrow>
                            if alias_capacities bpf wb slot_index ptr len l 0 (os_slots side)
                                 (spans_overlap ptr len (os_get_template_base side)
                                   (saturating_sub (os_inspected_header_end side) (os_get_template_base side)))
                            then result (put ATTR_ALIAS) Done OBJ_ALIAS
                            else do {
                              (cell, contributed) \<leftarrow> stable_attribute_cell bpf wb t
                                (os_get_template_base side) (ucast i) kind ptr len l cell;
                              result (put_wire_cell j cell out) Done contributed })
                   | _ \<Rightarrow> result (put ATTR_UNREADABLE) Continue 0 }))"

fun get_slots_into ::
  "bool \<Rightarrow> (LinuxLayout \<Rightarrow> u64) \<Rightarrow> target \<Rightarrow> ObjectStart \<Rightarrow> LinuxLayout \<Rightarrow> nat \<Rightarrow> nat \<Rightarrow>
    ObjectAttributeListWire \<times> u32 \<Rightarrow> (ObjectAttributeListWire \<times> u32) rd" where
  "get_slots_into bpf wb t side l 0 k acc = State_Monad.return acc"
| "get_slots_into bpf wb t side l (Suc left) k (out, contributed) = do {
     (out, code) \<leftarrow> classify_get_slot bpf wb t side (encode_get_slot_layout k l) out;
     let (flow, contrib) = decode_get_slot_result code;
     let contributed = contributed OR contrib;
     if flow = Break then State_Monad.return (out, contributed)
     else get_slots_into bpf wb t side l left (Suc k) (out, contributed) }"

definition capture_get_return_into ::
  "bool \<Rightarrow> (LinuxLayout \<Rightarrow> u64) \<Rightarrow> target \<Rightarrow> ObjectStart \<Rightarrow> u64 \<Rightarrow> ReturnAuthority \<Rightarrow> LinuxLayout \<Rightarrow>
    ObjectAttributeListWire \<Rightarrow> (ObjectAttributeListWire \<times> u32) rd" where
  "capture_get_return_into bpf wb t side rv authority l out =
     (let out = clear_attribute_list out in
      if \<not> return_accepts_get_results rv \<or> \<not> is_authorized authority then State_Monad.return (out, 0)
      else if os_flags side AND GET_ENTRY_UNINSPECTED \<noteq> 0
      then State_Monad.return (out\<lparr>al_flags := LIST_UNINSPECTED\<rparr>, 0)
      else let n = min (os_get_inspected side) 8 in
        get_slots_into bpf wb t side l 8 0
          (out\<lparr>al_inspected := n,
               al_flags := ucast (drop_bit 8 (os_flags side AND GET_ENTRY_FLAGS_MASK))
                           OR (if n > 0 then LIST_PRESENT else 0)\<rparr>, 0))"

section \<open>The scalar boundaries are exact codecs\<close>

lemma and_one_bit: "w AND 1 \<noteq> 0 \<longleftrightarrow> bit w 0" for w :: u64
  by (simp add: and_one_eq bit_0 odd_iff_mod_2_eq_one[symmetric])

lemma unpack_pack_alias_scan: "unpack_alias_scan (pack_alias_scan hit flags) = (hit, flags)"
proof -
  have "(ucast (drop_bit 8 (of_bool hit OR push_bit 8 (ucast flags :: u64))) :: u8) = flags"
    by (rule bit_word_eqI) (auto simp: bit_simps bit_1_iff)
  moreover have "(of_bool hit OR push_bit 8 (ucast flags :: u64)) AND 1 \<noteq> 0 \<longleftrightarrow> hit"
    unfolding and_one_bit by (simp add: bit_or_iff bit_push_bit_iff del: push_bit_numeral)
  ultimately show ?thesis by (simp add: unpack_alias_scan_def pack_alias_scan_def)
qed

interpretation alias_scan_code: codec "\<lambda>(a, f). Some (pack_alias_scan a f)" "\<lambda>w. Some (unpack_alias_scan w)"
  by unfold_locales (auto simp: unpack_pack_alias_scan)

lemma decode_encode_alias_skip:
  "decode_alias_skip_layout (encode_alias_skip_layout skip l) = (skip AND ALIAS_SKIP_VALUE_MASK, l)"
proof -
  have top: "(0x8000000000000000 :: u64) = 2 ^ 63" and low: "(0x7FFFFFFFFFFFFFFF :: u64) = mask 63"
    by (simp_all add: mask_eq_exp_minus_1)
  have "(((skip AND mask 63) OR (2 ^ 63)) AND mask 63 :: u64) = skip AND mask 63"
    "((skip AND mask 63) AND 2 ^ 63 :: u64) = 0"
    "(((skip AND mask 63) OR (2 ^ 63)) AND 2 ^ 63 :: u64) = 2 ^ 63"
    by (rule bit_word_eqI, auto simp only: bit_simps bit_0_eq bot_apply bot_bool_def simp_thms)+
  then show ?thesis
    unfolding decode_alias_skip_layout_def encode_alias_skip_layout_def top low
    by (cases l) (simp_all add: and.assoc del: mask_numeral)
qed

lemma skip_preserved: "j < 8 \<Longrightarrow> (of_nat j = skip AND ALIAS_SKIP_VALUE_MASK) = (of_nat j = skip)"
  if "skip < 8 \<or> skip = - 1" for skip :: u64
proof -
  assume j: "j < 8"
  have low: "(0x7FFFFFFFFFFFFFFF :: u64) = mask 63" by (simp add: mask_eq_exp_minus_1)
  have jj: "unat (of_nat j :: u64) = j" using j by (simp add: unat_of_nat)
  show ?thesis
  proof (cases "skip = - 1")
    case True
    have "unat (mask 63 :: u64) = 2 ^ 63 - 1" by (simp add: mask_eq_exp_minus_1)
    with True j jj show ?thesis unfolding low
      by (auto dest!: arg_cong[where f = unat] simp: unat_minus_one_max simp del: mask_numeral)
  next
    case False
    with that have "unat skip < 8" by (simp add: word_less_nat_alt)
    then have "take_bit 63 skip = skip"
      by (intro word_unat_eq_iff[THEN iffD2])
        (simp add: unsigned_take_bit_eq take_bit_nat_eq_self)
    then show ?thesis unfolding low by (simp add: take_bit_eq_mask[symmetric] del: mask_numeral)
  qed
qed

lemma unpack_pack_stable_cell:
  "unpack_stable_cell (pack_stable_cell status v write_value contrib) = (status, v, write_value, contrib)"
proof -
  let ?w = "ucast status OR push_bit 8 (ucast v) OR push_bit 24 (of_bool write_value) OR push_bit 32 (ucast contrib) :: u64"
  have b: "\<not> bit status n" if "8 \<le> n" for n using bit_beyond[of n status] that by simp
  have c: "\<not> bit v n" if "16 \<le> n" for n using bit_beyond[of n v] that by simp
  have "ucast ?w = status" by (rule bit_word_eqI) (auto simp: bit_simps)
  moreover have "ucast (drop_bit 8 ?w) = v"
    by (rule bit_word_eqI) (auto simp: bit_simps b bit_1_iff)
  moreover have "ucast (drop_bit 32 ?w) = contrib"
    by (rule bit_word_eqI) (auto simp: bit_simps b c bit_1_iff)
  moreover have "drop_bit 24 ?w AND 1 \<noteq> 0 \<longleftrightarrow> write_value"
    unfolding and_one_bit by (simp add: bit_or_iff bit_push_bit_iff bit_drop_bit_eq bit_ucast_iff b c)
  ultimately show ?thesis by (simp add: unpack_stable_cell_def pack_stable_cell_def)
qed

interpretation stable_cell_code:
  codec "\<lambda>(s, v, w, c). Some (pack_stable_cell s v w c)" "\<lambda>w. Some (unpack_stable_cell w)"
  by unfold_locales (auto simp: unpack_pack_stable_cell)

lemma kind_code_iff: "kind_from_code c = Some k \<longleftrightarrow> c = safe_kind_code k"
  by (cases k) (auto simp: kind_from_code_def split: if_splits)

lemma kind_from_safe_code [simp]: "kind_from_code (safe_kind_code k) = Some k"
  by (simp add: kind_code_iff)

interpretation kind_code: exact_codec "\<lambda>k. Some (safe_kind_code k)" kind_from_code
  by unfold_locales (simp_all add: kind_code_iff)

lemma safe_kind_code_bounds [simp]: "safe_kind_code k \<noteq> 0" "safe_kind_code k \<le> 6"
  by (cases k; simp)+

lemma slot_kind_selected_iff: "slot_kind_selected c \<longleftrightarrow> kind_from_code c \<noteq> None"
proof -
  have "c - 1 < 6 \<longleftrightarrow> c \<in> {1, 2, 3, 4, 5, 6}"
  proof (cases "c = 0")
    case False
    then have "unat (c - 1) = unat c - 1" by (rule unat_pred)
    moreover have "0 < unat c" using False by (simp add: unat_gt_0)
    ultimately show ?thesis by (auto simp: word_less_nat_alt word_unat_eq_iff)
  qed simp
  then show ?thesis by (auto simp: slot_kind_selected_def kind_from_code_def)
qed

lemma selector_for_kind_iff: "sel = selector_for_kind k \<longleftrightarrow> safe_attribute_kind sel = Some k"
  by (cases k) (auto simp: safe_attribute_kind_def split: if_splits)

lemma decode_encode_stable_kind:
  "decode_stable_kind_layout (encode_stable_kind_layout kind l) = Some (kind, l)"
  by (cases kind; cases l) (simp_all add: decode_stable_kind_layout_def encode_stable_kind_layout_def kind_from_code_def)

interpretation stable_kind_code:
  codec "\<lambda>(k, l). Some (encode_stable_kind_layout k l)" decode_stable_kind_layout
  by unfold_locales (auto simp: decode_encode_stable_kind)

lemma decode_encode_alias_capacity:
  "word_bytes_ok wb \<Longrightarrow> decode_alias_capacity_layout (wb l) = Some l"
  by (cases l) (simp_all add: decode_alias_capacity_layout_def)

lemma and_not_imp_bit: "w AND NOT m = 0 \<Longrightarrow> bit w n \<Longrightarrow> bit m n" for w :: "'a::len word"
  by (metis bit_and_iff bit_not_iff bit_0_eq bot_apply bot_bool_def bit_imp_possible_bit)

lemma cell_facts_obj_small:
  assumes "request_cell_facts_valid f"
  shows "ucast (ucast (rc_object_flags f) :: u8) = rc_object_flags f"
proof -
  have "bit (0x14 :: u32) n \<Longrightarrow> n < 8" for n
    using bit_take_bit_iff[of 8 "0x14 :: u32" n] by simp
  then have "bit (rc_object_flags f) n \<Longrightarrow> n < 8" for n
    using assms and_not_imp_bit[of "rc_object_flags f" "0x14" n] by (simp add: request_cell_facts_valid_def)
  then show ?thesis by (intro bit_word_eqI) (auto simp: bit_simps)
qed

lemma unpack_pack_request_cell:
  assumes "pack_request_cell f = Some w"
  shows "unpack_request_cell w = Some f"
proof -
  have v: "request_cell_facts_valid f" using assms by (auto simp: pack_request_cell_def split: if_splits)
  let ?o = "ucast (rc_object_flags f) :: u8"
  have o: "(ucast (rc_object_flags f) :: u64) = ucast ?o"
    by (subst cell_facts_obj_small[OF v, symmetric], rule bit_word_eqI) (auto simp: bit_simps)
  have w: "w = ucast (rc_kind f) OR push_bit 8 (ucast (rc_status f)) OR push_bit 16 (ucast (rc_value f))
      OR push_bit 32 (ucast (rc_list_flags f)) OR push_bit 40 (ucast ?o)"
    using assms v o by (simp add: pack_request_cell_def)
  have b8: "\<not> bit x n" if "8 \<le> n" for x :: u8 and n using bit_beyond[of n x] that by simp
  have b16: "\<not> bit x n" if "16 \<le> n" for x :: u16 and n using bit_beyond[of n x] that by simp
  have parts: "drop_bit 48 w = 0" "ucast w = rc_kind f" "ucast (drop_bit 8 w) = rc_status f"
    "ucast (drop_bit 16 w) = rc_value f" "ucast (drop_bit 32 w) = rc_list_flags f" "ucast (drop_bit 40 w) = ?o"
    unfolding w by (rule bit_word_eqI, auto simp: bit_simps b8 b16)+
  show ?thesis using v cell_facts_obj_small[OF v]
    by (cases f) (simp add: unpack_request_cell_def parts Let_def)
qed

lemma pack_unpack_request_cell:
  assumes "unpack_request_cell w = Some f"
  shows "pack_request_cell f = Some w"
proof -
  have hi: "drop_bit 48 w = 0" and v: "request_cell_facts_valid f"
    and f: "f = \<lparr>rc_kind = ucast w, rc_status = ucast (drop_bit 8 w),
        rc_value = ucast (drop_bit 16 w), rc_list_flags = ucast (drop_bit 32 w),
        rc_object_flags = ucast (ucast (drop_bit 40 w) :: u8)\<rparr>"
    using assms by (auto simp: unpack_request_cell_def Let_def split: if_splits)
  have top: "\<not> bit w n" if "48 \<le> n" for n
    using arg_cong[OF hi, of "\<lambda>x. bit x (n - 48)"] that by (simp add: bit_simps)
  have "w = ucast (ucast w :: u8) OR push_bit 8 (ucast (ucast (drop_bit 8 w) :: u8))
      OR push_bit 16 (ucast (ucast (drop_bit 16 w) :: u16)) OR push_bit 32 (ucast (ucast (drop_bit 32 w) :: u8))
      OR push_bit 40 (ucast (ucast (ucast (drop_bit 40 w) :: u8) :: u32))"
  proof (rule bit_word_eqI)
    fix n assume "n < LENGTH(64)"
    then consider "n < 8" | "8 \<le> n" "n < 16" | "16 \<le> n" "n < 32" | "32 \<le> n" "n < 40" | "40 \<le> n" "n < 48" | "48 \<le> n"
      by linarith
    then show "bit w n \<longleftrightarrow> bit (ucast (ucast w :: u8) OR push_bit 8 (ucast (ucast (drop_bit 8 w) :: u8))
      OR push_bit 16 (ucast (ucast (drop_bit 16 w) :: u16)) OR push_bit 32 (ucast (ucast (drop_bit 32 w) :: u8))
      OR push_bit 40 (ucast (ucast (ucast (drop_bit 40 w) :: u8) :: u32)) :: u64) n"
      by cases (auto simp: bit_simps top)
  qed
  with v show ?thesis unfolding f pack_request_cell_def by simp
qed

interpretation request_cell_code: exact_codec pack_request_cell unpack_request_cell
  by unfold_locales (erule unpack_pack_request_cell pack_unpack_request_cell)+

lemma tag_bits:
  fixes i :: u64 and ia32 peer :: bool
  assumes "i < 8"
  defines "w \<equiv> i OR push_bit 8 (of_bool ia32) OR push_bit 9 (of_bool peer)"
  shows "w AND NOT 0x307 = 0" "w AND 7 = i" "w AND 0x100 = 0 \<longleftrightarrow> \<not> ia32" "w AND 0x200 = 0 \<longleftrightarrow> \<not> peer"
proof -
  have "unat i < 8" using assms(1) by (simp add: word_less_nat_alt)
  then have "unat i \<in> {0, 1, 2, 3, 4, 5, 6, 7}" by auto
  then have "i \<in> {0, 1, 2, 3, 4, 5, 6, 7}" by (auto simp: word_unat_eq_iff)
  then show "w AND NOT 0x307 = 0" "w AND 7 = i" "w AND 0x100 = 0 \<longleftrightarrow> \<not> ia32" "w AND 0x200 = 0 \<longleftrightarrow> \<not> peer"
    unfolding w_def by (cases ia32; cases peer; auto)+
qed

lemma decode_encode_request_cell_tag:
  assumes "encode_request_cell_tag i l peer = Some tag"
  shows "decode_request_cell_tag tag = Some (i, l, peer)"
proof -
  have i: "i < 8" and tag: "tag = i OR push_bit 8 (of_bool (l = Ilp32)) OR push_bit 9 (of_bool peer)"
    using assms by (auto simp: encode_request_cell_tag_def split: if_splits)
  show ?thesis unfolding tag decode_request_cell_tag_def tag_bits[OF i]
    by (cases l) simp_all
qed

interpretation request_tag_code:
  codec "\<lambda>(i, l, peer). encode_request_cell_tag i l peer" decode_request_cell_tag
  by unfold_locales (auto simp: decode_encode_request_cell_tag)

lemma decode_encode_get_slot_layout:
  assumes "k < 8"
  shows "decode_get_slot_layout (encode_get_slot_layout k l) = (k, l)"
proof -
  from assms have "k \<in> {0, 1, 2, 3, 4, 5, 6, 7}" by auto
  then show ?thesis
    by (cases l) (auto simp: decode_get_slot_layout_def encode_get_slot_layout_def)
qed

lemma decode_encode_get_slot_result:
  "decode_get_slot_result (encode_get_slot_result flow contributed) = (flow, contributed)"
proof -
  define c :: u64 where "c = (case flow of Break \<Rightarrow> 0 | Continue \<Rightarrow> 1 | Done \<Rightarrow> 2)"
  have m: "(3 :: u64) = mask 2" by (simp add: mask_eq_exp_minus_1)
  have c: "take_bit 2 c = c" by (cases flow) (simp_all add: c_def take_bit_eq_mask m[symmetric])
  have "take_bit 2 (push_bit 2 (ucast contributed) OR c) = c"
    by (simp add: take_bit_or c take_bit_push_bit del: push_bit_numeral)
  moreover have "\<not> bit c n" if "2 \<le> n" for n
    using arg_cong[OF c, of "\<lambda>x. bit x n"] that by (simp add: bit_take_bit_iff)
  then have "ucast (drop_bit 2 (push_bit 2 (ucast contributed) OR c)) = contributed"
    by (intro bit_word_eqI) (auto simp: bit_simps)
  ultimately show ?thesis
    unfolding decode_get_slot_result_def encode_get_slot_result_def c_def[symmetric] m
    by (cases flow) (simp_all add: c_def take_bit_eq_mask[symmetric] Let_def del: mask_numeral push_bit_numeral)
qed

interpretation get_slot_code:
  codec "\<lambda>(flow, c). Some (encode_get_slot_result flow c)" "\<lambda>w. Some (decode_get_slot_result w)"
  by unfold_locales (auto simp: decode_encode_get_slot_result)

section \<open>The scalar boundaries lose nothing\<close>

lemma alias_scan_core_masked:
  assumes "skip < 8 \<or> skip = - 1"
  shows "alias_scan_core wb t base count (skip AND ALIAS_SKIP_VALUE_MASK) ptr len l
    = alias_scan_core wb t base count skip ptr len l"
proof -
  have "alias_neighbor wb t base (skip AND ALIAS_SKIP_VALUE_MASK) ptr len l j =
      alias_neighbor wb t base skip ptr len l j" if "j < unat (min count 8)" for j
  proof -
    have "min count 8 \<le> (8 :: u64)" by simp
    then have "j < 8" using that by (simp add: word_le_nat_alt)
    then show ?thesis unfolding alias_neighbor_def by (simp only: skip_preserved[OF assms])
  qed
  then show ?thesis unfolding alias_scan_core_def Let_def
    by (auto split: option.split intro!: for_each_cong)
qed

lemma request_alias_scan_core:
  assumes "skip < 8 \<or> skip = - 1"
  shows "request_alias_scan bpf wb t base count skip ptr len l = alias_scan_core wb t base count skip ptr len l"
  by (simp add: request_alias_scan_def alias_scan_packed_def decode_encode_alias_skip
      alias_scan_core_masked[OF assms] case_prod_unfold unpack_pack_alias_scan)

lemma stable_cell_facts_core:
  "stable_cell_facts bpf wb t base index kind ptr len l = stable_cell_core wb t base index kind ptr len l"
  by (simp add: stable_cell_facts_def stable_cell_packed_def decode_encode_stable_kind
      case_prod_unfold unpack_pack_stable_cell)

lemma alias_capacity_hit_core:
  "word_bytes_ok wb \<Longrightarrow> alias_capacity_hit bpf wb ptr len p c l = alias_capacity_core ptr len p c l"
  by (simp add: alias_capacity_hit_def alias_capacity_packed_def decode_encode_alias_capacity)

lemma gives_classified: "gives (read_classified_value t kind ptr len l) (\<lambda>r. \<forall>s. r = Inl s \<longrightarrow> s \<in> {2, 3, 6})"
  by (cases kind)
    (auto simp: read_classified_value_def classified_def split: option.splits if_splits
      intro!: keeps_then keeps_return)

lemma gives_stable_cell:
  "gives (stable_cell_core wb t base index kind ptr len l)
     (\<lambda>(s, v, w, c). s \<le> 10 \<and> (w \<longrightarrow> s = 1 \<or> v = 0) \<and> c \<in> {0, 16})"
  unfolding stable_cell_core_def
  by (rule keeps_bind[OF gives_classified])
    (auto simp: Let_def split: sum.splits option.splits prod.splits if_splits intro!: keeps_then keeps_return)

lemma gives_alias_scan: "gives (alias_scan_core wb t base count skip ptr len l) (\<lambda>(a, f). f \<in> {0, 4})"
proof -
  have "gives (alias_neighbor wb t base skip ptr len l j acc) (\<lambda>(a, f). f \<in> {0, 4})"
    if "case acc of (a, f) \<Rightarrow> f \<in> {0, 4}" for j acc
    using that unfolding alias_neighbor_def
    by (auto simp: Let_def split: option.split prod.split intro!: keeps_then keeps_return)
  then show ?thesis unfolding alias_scan_core_def Let_def
    by (auto split: option.split intro!: keeps_return keeps_for_each)
qed

lemma request_verdict_range: "request_verdict wb l kind ptr len = Some s \<Longrightarrow> s \<in> {5, 6, 9}"
  by (auto simp: request_verdict_def split: if_splits)

lemma gives_request_cell:
  assumes "index < 8"
  shows "gives (request_cell_core bpf wb t base count index peer l) request_cell_facts_valid"
proof -
  have or4: "f \<in> {0, 4} \<Longrightarrow> f' \<in> {0, 4} \<Longrightarrow> f OR f' \<in> {0, 4}" for f f' :: u8 by auto
  have valid: "request_cell_facts_valid \<lparr>rc_kind = safe_kind_code k, rc_status = s, rc_value = v,
      rc_list_flags = f, rc_object_flags = c\<rparr>"
    if "s \<le> 10" "v = 0 \<or> s = 1" "f \<in> {0, 4}" "c \<in> {0, 4, 16}" for k s v f c
    using that by (auto simp: request_cell_facts_valid_def)
  have zero: "request_cell_facts_valid default_cell_facts"
    "request_cell_facts_valid (default_cell_facts\<lparr>rc_list_flags := 4\<rparr>)"
    by (simp_all add: request_cell_facts_valid_def default_cell_facts_def)
  have scan: "gives (request_alias_scan bpf wb t b c index p n l) (\<lambda>(a, f). f \<in> {0, 4})"
    "gives (request_alias_scan bpf wb t b c (- 1) p n l) (\<lambda>(a, f). f \<in> {0, 4})" for b c p n
    using assms gives_alias_scan by (simp_all add: request_alias_scan_core)
  have peer: "gives (case peer of None \<Rightarrow> State_Monad.return (False, 0)
      | Some (pb, pc) \<Rightarrow> request_alias_scan bpf wb t pb pc (- 1) p n l) (\<lambda>(a, f). f \<in> {0, 4})" for p n
    using scan(2) by (auto split: option.split intro!: keeps_return)
  show ?thesis
    unfolding request_cell_core_def Let_def stable_cell_facts_core
    by (rule keeps_option keeps_prod keeps_if
        | rule keeps_bind[OF scan(1)] | rule keeps_bind[OF peer] | rule keeps_bind[OF gives_stable_cell]
        | rule keeps_bind[OF gives_True] | rule keeps_return | rule zero
        | (fastforce simp: default_cell_facts_def intro!: valid or4 dest: request_verdict_range))+
qed

text \<open>Inside the walker's outer checks the request-cell boundary is the core.\<close>

lemma request_cell_eq_core:
  assumes "attribute_table_span count l = Some table" "validate_target_span base table l \<noteq> None"
    "index < min count 8" "checked_add base (min count 8 * 3 * wb l) \<noteq> None"
  shows "request_cell bpf wb t base count index peer l = request_cell_core bpf wb t base count index peer l"
proof -
  have i: "index < 8" using assms(3) by simp
  let ?core = "request_cell_core bpf wb t base count index peer l"
  obtain tag where tag: "encode_request_cell_tag index l (peer \<noteq> None) = Some tag"
    using i by (auto simp: encode_request_cell_tag_def not_le)
  have round: "(case unpack_request_cell (case pack_request_cell f of None \<Rightarrow> request_cell_poison | Some w \<Rightarrow> w) of
      None \<Rightarrow> g | Some f' \<Rightarrow> f') = f" if "request_cell_facts_valid f" for f g
  proof -
    from that obtain w where "pack_request_cell f = Some w" by (auto simp: pack_request_cell_def)
    then show ?thesis by (simp add: unpack_pack_request_cell)
  qed
  obtain pb pc where p: "(case peer of None \<Rightarrow> (0, 0) | Some p \<Rightarrow> p) = (pb, pc)"
    "(if peer \<noteq> None then Some (pb, pc) else None) = peer"
    by (cases peer) auto
  have ok: "(validate_target_span base table l = None \<or> min count 8 \<le> index
      \<or> checked_add base (min count 8 * 3 * wb l) = None) = False"
    using assms by (simp add: not_le)
  have "request_cell bpf wb t base count index peer l = do {
      facts \<leftarrow> ?core;
      State_Monad.return (case unpack_request_cell (case pack_request_cell facts of
          None \<Rightarrow> request_cell_poison | Some w \<Rightarrow> w) of
        None \<Rightarrow> default_cell_facts\<lparr>rc_list_flags := LIST_HEADER_READ_FAILURE\<rparr> | Some f' \<Rightarrow> f') }"
    by (simp only: request_cell_def request_cell_packed_def Let_def tag p decode_encode_request_cell_tag[OF tag]
        assms(1) ok option.case prod.case if_False State_Monad.bind_assoc State_Monad.bind_left_identity)
  also have "\<dots> = do { facts \<leftarrow> ?core; State_Monad.return facts }"
    by (rule bind_cong_gives[OF gives_request_cell[OF i]]) (simp add: round)
  finally show ?thesis by simp
qed

end
