(* ===== verification/P11_Flow.thy ===== *)
theory P11_Flow
  imports P11_Stream
begin

text \<open>
  The object adapters (\<^verbatim>\<open>object_flow.rs\<close>): the bodies that the BPF entry and return
  chains run on one side row. A side row or a descriptor row that the map lookup
  did not find is \<open>None\<close>, and so is a null tail. The build switch
  \<^verbatim>\<open>ATTRIBUTE_CAPTURE_WIRED\<close> (off in the \<^verbatim>\<open>stub-object-attributes\<close> build) is the flag
  \<open>wired\<close>; \<^verbatim>\<open>core::ptr\<close> stores are record updates of the row or tail the adapter owns.
\<close>

section \<open>The ordinary call event\<close>

record CallStart =
  cs_ts_ns :: u64
  cs_session :: u64
  cs_slot_id :: u64
  cs_mechanism :: u64
  cs_mechanism_ptr :: u64
  cs_flags :: u64
  cs_out_ptr :: u64
  cs_user_type :: u32
  cs_shape :: u32
  cs_p0 :: u64
  cs_p1 :: u64
  cs_p2 :: u64
  cs_async_value :: u64
  cs_attr_types :: "u64 list"
  cs_attr_count :: u32
  cs_attr_total :: u32
  cs_attr_bools :: u32
  cs_attr_bools_seen :: u32
  cs_attr_types1 :: "u64 list"
  cs_attr_count1 :: u32
  cs_attr_total1 :: u32
  cs_attr_bools1 :: u32
  cs_attr_bools_seen1 :: u32
  cs_capture :: u32
  cs_target_function :: u32
  cs_object_required :: u64
  cs_image :: ImageIdentity

record Event =
  ev_ts_ns :: u64
  ev_duration_ns :: u64
  ev_pid_tgid :: u64
  ev_cgroup_id :: u64
  ev_session :: u64
  ev_slot_id :: u64
  ev_mechanism :: u64
  ev_flags :: u64
  ev_rv :: u64
  ev_p0 :: u64
  ev_p1 :: u64
  ev_p2 :: u64
  ev_async_value :: u64
  ev_slot :: u32
  ev_target_function :: u32
  ev_user_type :: u32
  ev_shape :: u32
  ev_attr_types :: "u64 list"
  ev_attr_count :: u32
  ev_attr_total :: u32
  ev_attr_bools :: u32
  ev_attr_bools_seen :: u32
  ev_attr_types1 :: "u64 list"
  ev_attr_count1 :: u32
  ev_attr_total1 :: u32
  ev_attr_bools1 :: u32
  ev_attr_bools_seen1 :: u32
  ev_capture :: u32
  ev_event_type :: u32
  ev_image :: ImageIdentity
  ev_child_image :: ImageIdentity
  ev_root_affiliation :: u64

record ReturnEventFacts =
  rf_ts_ns :: u64
  rf_duration_ns :: u64
  rf_rv :: u64
  rf_mechanism :: u64
  rf_session :: u64
  rf_async_value :: u64
  rf_capture_flags :: u32
  rf_pid_tgid :: u64
  rf_cgroup_id :: u64
  rf_root_affiliation :: u64

abbreviation (input) event_type_CALL :: u32 where "event_type_CALL \<equiv> 0"

definition fill_call_event :: "Event \<Rightarrow> CallStart \<Rightarrow> u32 \<Rightarrow> ReturnEventFacts \<Rightarrow> Event" where
  "fill_call_event out start slot facts =
     out\<lparr>ev_ts_ns := rf_ts_ns facts, ev_duration_ns := rf_duration_ns facts, ev_pid_tgid := rf_pid_tgid facts,
         ev_cgroup_id := rf_cgroup_id facts, ev_session := rf_session facts, ev_slot_id := cs_slot_id start,
         ev_mechanism := rf_mechanism facts, ev_flags := cs_flags start, ev_rv := rf_rv facts,
         ev_p0 := cs_p0 start, ev_p1 := cs_p1 start, ev_p2 := cs_p2 start, ev_async_value := rf_async_value facts,
         ev_slot := slot, ev_target_function := cs_target_function start, ev_user_type := cs_user_type start,
         ev_shape := cs_shape start, ev_attr_types := cs_attr_types start, ev_attr_count := cs_attr_count start,
         ev_attr_total := cs_attr_total start, ev_attr_bools := cs_attr_bools start,
         ev_attr_bools_seen := cs_attr_bools_seen start, ev_attr_types1 := cs_attr_types1 start,
         ev_attr_count1 := cs_attr_count1 start, ev_attr_total1 := cs_attr_total1 start,
         ev_attr_bools1 := cs_attr_bools1 start, ev_attr_bools_seen1 := cs_attr_bools_seen1 start,
         ev_capture := rf_capture_flags facts, ev_event_type := event_type_CALL, ev_image := cs_image start,
         ev_child_image := \<lparr>task_cookie = 0, exec_id = 0\<rparr>, ev_root_affiliation := rf_root_affiliation facts\<rparr>"

section \<open>Gates\<close>

abbreviation (input) RETURN_GATE_LAYOUT_MASK :: u32 where "RETURN_GATE_LAYOUT_MASK \<equiv> 3"
abbreviation (input) RETURN_GATE_JOINED :: u32 where "RETURN_GATE_JOINED \<equiv> 4"
abbreviation (input) RETURN_GATE_MASK :: u32 where "RETURN_GATE_MASK \<equiv> 7"

definition encode_return_gate :: "LinuxLayout \<Rightarrow> bool \<Rightarrow> u32" where
  "encode_return_gate l joined =
     (case l of Lp64 \<Rightarrow> 1 | Ilp32 \<Rightarrow> 2) OR (if joined then RETURN_GATE_JOINED else 0)"

definition decode_return_gate :: "u32 \<Rightarrow> (LinuxLayout \<times> bool) option" where
  "decode_return_gate gate =
     (if gate AND NOT RETURN_GATE_MASK \<noteq> 0 then None
      else if gate AND RETURN_GATE_LAYOUT_MASK = 1 then Some (Lp64, gate AND RETURN_GATE_JOINED \<noteq> 0)
      else if gate AND RETURN_GATE_LAYOUT_MASK = 2 then Some (Ilp32, gate AND RETURN_GATE_JOINED \<noteq> 0)
      else None)"

definition continuity_joins :: "InstanceContinuity \<Rightarrow> bool" where
  "continuity_joins c = stamp_joinable (entry_stamp c) (return_stamp c)"

text \<open>The custody test every adapter repeats: the row is the descriptor's, with codes in
  range.\<close>

definition row_admits :: "ObjectDescriptorWire \<Rightarrow> u32 \<Rightarrow> bool" where
  "row_admits row descriptor \<longleftrightarrow> od_function row = descriptor - 1 \<and> row_codes_ok row"

section \<open>Entry adapters\<close>

definition adapter_derive_entry ::
  "target \<Rightarrow> ObjectStart option \<Rightarrow> u32 \<Rightarrow> ObjectDescriptorWire option \<Rightarrow> LinuxLayout \<Rightarrow>
    (ObjectStart option \<times> bool) rd" where
  "adapter_derive_entry t side descriptor row l =
     (case (side, row) of
        (Some s, Some r) \<Rightarrow>
          if \<not> row_admits r descriptor then State_Monad.return (side, False)
          else if od_action r \<noteq> OBJECT_ACTION_DERIVE then State_Monad.return (side, True)
          else if od_result_args r \<noteq> [5, ARG_NONE] then State_Monad.return (side, False)
          else do {
            arg1 \<leftarrow> fetch_arg t 1;
            derive \<leftarrow> classify_derive_mechanism t (case arg1 of None \<Rightarrow> 0 | Some p \<Rightarrow> p) l;
            retained \<leftarrow> (case derive of Accepted _ \<Rightarrow> fetch_arg t 5 | DeriveUnavailable \<Rightarrow> State_Monad.return None);
            State_Monad.return
              (Some (s\<lparr>os_derive := derive_code derive,
                       os_result_ptrs := [case retained of None \<Rightarrow> 0 | Some p \<Rightarrow> p, 0]\<rparr>), True) }
      | _ \<Rightarrow> State_Monad.return (side, False))"

definition capture_get_template ::
  "(LinuxLayout \<Rightarrow> u64) \<Rightarrow> target \<Rightarrow> ObjectStart \<Rightarrow> ObjectDescriptorWire \<Rightarrow> LinuxLayout \<Rightarrow> ObjectStart rd" where
  "capture_get_template wb t side row l =
     (let ptr_arg = od_template_args row ! 0; count_arg = od_template_args row ! 1 in
      if ptr_arg = ARG_NONE \<or> count_arg = ARG_NONE then State_Monad.return side
      else do {
        ptr \<leftarrow> fetch_arg t ptr_arg;
        count \<leftarrow> fetch_arg t count_arg;
        case (ptr, count) of
          (Some ptr, Some count) \<Rightarrow> do {
            (side, _) \<leftarrow> capture_get_entry_into wb t ptr count l side;
            State_Monad.return side }
        | _ \<Rightarrow> do {
            (side, _) \<leftarrow> capture_get_entry_into wb t 0 0 l side;
            State_Monad.return
              (side\<lparr>os_flags := os_flags side OR ucast OBJ_ARG_READ_FAILURE OR GET_ENTRY_UNINSPECTED\<rparr>) } })"

definition mark_uninspected :: "bool \<Rightarrow> bool \<Rightarrow> ObjectStart \<Rightarrow> ObjectStart" where
  "mark_uninspected present0 present1 side =
     side\<lparr>os_requested :=
       [if present0 then (os_requested side ! 0)\<lparr>al_flags := OBJECT_ATTR_LIST_UNINSPECTED\<rparr> else os_requested side ! 0,
        if present1 then (os_requested side ! 1)\<lparr>al_flags := OBJECT_ATTR_LIST_UNINSPECTED\<rparr> else os_requested side ! 1]\<rparr>"

definition fetch_pair :: "target \<Rightarrow> bool \<Rightarrow> u8 \<Rightarrow> u8 \<Rightarrow> (u64 \<times> u64) option rd" where
  "fetch_pair t present ptr_arg count_arg =
     (if present then do {
        ptr \<leftarrow> fetch_arg t ptr_arg;
        count \<leftarrow> fetch_arg t count_arg;
        State_Monad.return (case (ptr, count) of (Some p, Some c) \<Rightarrow> Some (p, c) | _ \<Rightarrow> None) }
      else State_Monad.return None)"

definition inspect_pair ::
  "bool \<Rightarrow> (LinuxLayout \<Rightarrow> u64) \<Rightarrow> target \<Rightarrow> nat \<Rightarrow> (u64 \<times> u64) option \<Rightarrow> (u64 \<times> u64) option \<Rightarrow> LinuxLayout \<Rightarrow>
    ObjectStart \<times> u32 \<Rightarrow> (ObjectStart \<times> u32) rd" where
  "inspect_pair bpf wb t p pair peer l = (\<lambda>(side, accumulated).
     case pair of
       None \<Rightarrow> State_Monad.return (side, accumulated)
     | Some (ptr, count) \<Rightarrow> do {
         (out, contributed) \<leftarrow> inspect_request_template_into bpf wb t ptr count peer l (os_requested side ! p);
         State_Monad.return
           (side\<lparr>os_requested := (os_requested side)[p := out]\<rparr>, accumulated OR contributed) })"

definition capture_request_pairs ::
  "bool \<Rightarrow> (LinuxLayout \<Rightarrow> u64) \<Rightarrow> target \<Rightarrow> ObjectStart \<Rightarrow> ObjectDescriptorWire \<Rightarrow> LinuxLayout \<Rightarrow> ObjectStart rd" where
  "capture_request_pairs bpf wb t side row l =
     (let args = od_template_args row;
          present0 = (args ! 0 \<noteq> ARG_NONE \<and> args ! 1 \<noteq> ARG_NONE);
          present1 = (args ! 2 \<noteq> ARG_NONE \<and> args ! 3 \<noteq> ARG_NONE) in
      if od_action row = OBJECT_ACTION_DERIVE \<and> os_derive side = OBJECT_DERIVE_UNAVAILABLE
      then State_Monad.return (mark_uninspected present0 present1 side)
      else do {
        pair0 \<leftarrow> fetch_pair t present0 (args ! 0) (args ! 1);
        pair1 \<leftarrow> fetch_pair t present1 (args ! 2) (args ! 3);
        if (present0 \<and> pair0 = None) \<or> (present1 \<and> pair1 = None)
        then let side = mark_uninspected present0 present1 side in
          State_Monad.return (side\<lparr>os_flags := os_flags side OR ucast OBJ_ARG_READ_FAILURE\<rparr>)
        else do {
          (side, accumulated) \<leftarrow> inspect_pair bpf wb t 0 pair0 pair1 l (side, 0);
          (side, accumulated) \<leftarrow> inspect_pair bpf wb t 1 pair1 pair0 l (side, accumulated);
          State_Monad.return (side\<lparr>os_flags := os_flags side OR ucast accumulated\<rparr>) } })"

definition adapter_attributes_entry ::
  "bool \<Rightarrow> (LinuxLayout \<Rightarrow> u64) \<Rightarrow> bool \<Rightarrow> target \<Rightarrow> ObjectStart option \<Rightarrow> u32 \<Rightarrow> ObjectDescriptorWire option \<Rightarrow>
    LinuxLayout \<Rightarrow> (ObjectStart option \<times> bool) rd" where
  "adapter_attributes_entry bpf wb wired t side descriptor row l =
     (case (side, row) of
        (Some s, Some r) \<Rightarrow>
          if \<not> row_admits r descriptor then State_Monad.return (side, False)
          else if \<not> wired then State_Monad.return (side, True)
          else do {
            s \<leftarrow> (if od_action r = OBJECT_ACTION_GET then capture_get_template wb t s r l
                   else capture_request_pairs bpf wb t s r l);
            State_Monad.return (Some s, True) }
      | _ \<Rightarrow> State_Monad.return (side, False))"

text \<open>KEM entry. Every accepted call moves the row to READY; what differs is whether the
  result pointer of argument 7 is retained. Of the target only the stack word that
  holds the pointer is read; arguments 3 to 6 only bound the guards.\<close>

definition kem_row :: "ObjectDescriptorWire \<Rightarrow> bool" where
  "kem_row row \<longleftrightarrow>
     od_input_args row = [2, ARG_NONE] \<and> od_result_args row = [7, ARG_NONE]
     \<and> od_template_args row = [ARG_NONE, ARG_NONE, ARG_NONE, ARG_NONE]
     \<and> od_find_capacity_arg row = ARG_NONE \<and> od_find_count_arg row = ARG_NONE"

definition kem_ready :: "u64 \<Rightarrow> ObjectStart \<Rightarrow> ObjectStart" where
  "kem_ready ptr side = side\<lparr>os_result_ptrs := [ptr, 0], os_phase := 2\<rparr>"

definition kem_input :: "LinuxLayout \<Rightarrow> bool \<Rightarrow> u64 option \<Rightarrow> u8 \<times> u64 \<times> u32" where
  "kem_input l null_cancel arg =
     (let (status, word, flags) =
        (case arg of
           None \<Rightarrow> (HANDLE_UNREADABLE, 0, OBJ_ARG_READ_FAILURE)
         | Some candidate \<Rightarrow>
             if candidate = 0 then (HANDLE_INVALID_ZERO, 0, 0)
             else if l = Ilp32 \<and> candidate > 0xFFFFFFFF then (HANDLE_INVALID_SPAN, 0, 0)
             else (HANDLE_VALUE, candidate, 0))
      in if null_cancel \<and> status = HANDLE_VALUE
         then (HANDLE_SUPPRESSED, 0, flags OR OBJ_NULL_MECHANISM_CANCEL)
         else (status, word, flags))"

definition kem_template_clear :: "(LinuxLayout \<Rightarrow> u64) \<Rightarrow> LinuxLayout \<Rightarrow> u64 \<Rightarrow> u64 \<Rightarrow> u64 \<Rightarrow> bool" where
  "kem_template_clear wb l cell template_ptr template_count \<longleftrightarrow>
     (let template_len = (case attribute_table_span template_count l of None \<Rightarrow> 0 | Some n \<Rightarrow> n) in
      template_count = 0
      \<or> template_len \<noteq> 0 \<and> validate_target_span template_ptr template_len l \<noteq> None
        \<and> \<not> spans_overlap cell (wb l) template_ptr template_len)"

definition kem_length_clear :: "(LinuxLayout \<Rightarrow> u64) \<Rightarrow> LinuxLayout \<Rightarrow> u64 \<Rightarrow> u64 option \<Rightarrow> bool" where
  "kem_length_clear wb l cell length_arg =
     (case length_arg of
        None \<Rightarrow> False
      | Some length_cell \<Rightarrow>
          \<not> (length_cell \<noteq> 0
             \<and> (target_word_end length_cell l = None \<or> spans_overlap cell (wb l) length_cell (wb l))))"

definition kem_ciphertext_clear :: "(LinuxLayout \<Rightarrow> u64) \<Rightarrow> LinuxLayout \<Rightarrow> bool \<Rightarrow> u64 \<Rightarrow> u64 option \<Rightarrow> bool" where
  "kem_ciphertext_clear wb l encapsulate cell ciphertext_arg =
     (case ciphertext_arg of
        None \<Rightarrow> False
      | Some ciphertext \<Rightarrow>
          if ciphertext = 0 then \<not> encapsulate
          else (case checked_add cell (wb l) of None \<Rightarrow> False | Some e \<Rightarrow> \<not> e > ciphertext))"

definition kem_guards :: "(LinuxLayout \<Rightarrow> u64) \<Rightarrow> target \<Rightarrow> LinuxLayout \<Rightarrow> bool \<Rightarrow> u64 \<Rightarrow> bool rd" where
  "kem_guards wb t l encapsulate cell = do {
     template_ptr \<leftarrow> fetch_arg t 3;
     template_count \<leftarrow> fetch_arg t 4;
     case (template_ptr, template_count) of
       (Some ptr, Some count) \<Rightarrow>
         if \<not> kem_template_clear wb l cell ptr count then State_Monad.return False
         else do {
           clear \<leftarrow> (if encapsulate
                    then do { length_arg \<leftarrow> fetch_arg t 6; State_Monad.return (kem_length_clear wb l cell length_arg) }
                    else State_Monad.return True);
           if \<not> clear then State_Monad.return False
           else do {
             ciphertext_arg \<leftarrow> fetch_arg t 5;
             State_Monad.return (kem_ciphertext_clear wb l encapsulate cell ciphertext_arg) } }
     | _ \<Rightarrow> State_Monad.return False }"

definition adapter_kem_entry ::
  "(LinuxLayout \<Rightarrow> u64) \<Rightarrow> target \<Rightarrow> ObjectStart option \<Rightarrow> u32 \<Rightarrow> ObjectDescriptorWire option \<Rightarrow> LinuxLayout \<Rightarrow>
    u64 \<Rightarrow> bool \<Rightarrow> bool \<Rightarrow> bool \<Rightarrow> (ObjectStart option \<times> bool) rd" where
  "adapter_kem_entry wb t side descriptor row l stack_pointer kem_wired output_non_null null_cancel =
     (case (side, row) of
        (Some s, Some r) \<Rightarrow>
          let encapsulate = od_action r = OBJECT_ACTION_ENCAPSULATE;
              ready = (\<lambda>s ptr. State_Monad.return (Some (kem_ready ptr s), True)) in
          if \<not> row_admits r descriptor then State_Monad.return (side, False)
          else if \<not> encapsulate \<and> od_action r \<noteq> OBJECT_ACTION_DECAPSULATE then State_Monad.return (side, True)
          else if \<not> kem_row r then State_Monad.return (side, False)
          else if \<not> kem_wired
          then ready (s\<lparr>os_inputs := [0, 0],
                        os_input_statuses := [HANDLE_PROTOCOL_UNAVAILABLE, HANDLE_ABSENT]\<rparr>) 0
          else do {
            arg2 \<leftarrow> fetch_arg t 2;
            let (status, word, flags) = kem_input l null_cancel arg2;
            let s = s\<lparr>os_inputs := [word, 0], os_input_statuses := [status, HANDLE_ABSENT], os_flags := ucast flags\<rparr>;
            if encapsulate \<and> \<not> output_non_null then ready s 0
            else case object_result_arg7_address r stack_pointer l of
              None \<Rightarrow> State_Monad.return (Some s, False)
            | Some arg7 \<Rightarrow> do {
                word \<leftarrow> read_word t arg7 l;
                case word of
                  None \<Rightarrow> ready s 0
                | Some cell \<Rightarrow>
                    if target_word_end cell l = None then ready s cell
                    else do {
                      clear \<leftarrow> kem_guards wb t l encapsulate cell;
                      ready s (if clear then cell else 0) } } }
      | _ \<Rightarrow> State_Monad.return (side, False))"

section \<open>Return fill\<close>

definition slot_gate :: "u8 \<Rightarrow> u8 \<Rightarrow> bool \<Rightarrow> bool \<times> u8" where
  "slot_gate arg act derive_ok =
     (if arg = ARG_NONE then (False, HANDLE_ABSENT)
      else if act = OBJECT_ACTION_DERIVE \<and> \<not> derive_ok then (False, HANDLE_PROTOCOL_UNAVAILABLE)
      else (True, HANDLE_ABSENT))"

definition slot_span :: "u64 \<Rightarrow> LinuxLayout \<Rightarrow> bool \<times> u8" where
  "slot_span ptr l =
     (if ptr = 0 then (False, HANDLE_UNREADABLE)
      else if target_word_end ptr l = None then (False, HANDLE_INVALID_SPAN)
      else (True, HANDLE_ABSENT))"

definition slot_word :: "target \<Rightarrow> u64 \<Rightarrow> LinuxLayout \<Rightarrow> (u8 \<times> u64) rd" where
  "slot_word t ptr l = do {
     word \<leftarrow> read_word t ptr l;
     State_Monad.return (case word of
       None \<Rightarrow> (HANDLE_UNREADABLE, 0)
     | Some observed \<Rightarrow>
         if observed = 0 then (HANDLE_INVALID_ZERO, 0)
         else if l = Ilp32 \<and> observed > 0xFFFFFFFF then (HANDLE_INVALID_SPAN, 0)
         else (HANDLE_VALUE, observed)) }"

definition derive_entry_of :: "u8 \<Rightarrow> DeriveEntry" where
  "derive_entry_of code =
     (if code = 1 then Accepted DhPkcs else if code = 2 then Accepted Sha256
      else if code = 3 then Accepted Ecdh1 else if code = 4 then Accepted Ecdh1Cofactor
      else DeriveUnavailable)"

definition fill_words ::
  "(LinuxLayout \<Rightarrow> u64) \<Rightarrow> target \<Rightarrow> bool \<Rightarrow> bool \<Rightarrow> u64 \<Rightarrow> u64 \<Rightarrow> LinuxLayout \<Rightarrow> u8 \<Rightarrow> u8 \<Rightarrow> u32 \<Rightarrow>
    (u8 list \<times> u64 list \<times> u32) rd" where
  "fill_words wb t gated0 gated1 ptr0 ptr1 l status0 status1 flags =
     (let (readable0, status0) =
            (if gated0 then (let (ok, span) = slot_span ptr0 l in (ok, if ok then status0 else span))
             else (False, status0));
          (readable1, status1) =
            (if gated1 then (let (ok, span) = slot_span ptr1 l in (ok, if ok then status1 else span))
             else (False, status1));
          w = wb l in
      if readable0 \<and> readable1 \<and> spans_overlap ptr0 w ptr1 w
      then State_Monad.return ([HANDLE_ALIAS, HANDLE_ALIAS], [0, 0], flags OR OBJ_ALIAS)
      else do {
        (status0, word0) \<leftarrow> (if readable0 then slot_word t ptr0 l else State_Monad.return (status0, 0));
        (status1, word1) \<leftarrow> (if readable1 then slot_word t ptr1 l else State_Monad.return (status1, 0));
        let duplicate = status0 = HANDLE_VALUE \<and> status1 = HANDLE_VALUE \<and> word0 = word1;
        let (status0, status1, word0, word1, flags) =
              (if duplicate then (HANDLE_DUPLICATE, HANDLE_DUPLICATE, 0, 0, flags OR OBJ_DUPLICATE_RESULT)
               else (status0, status1, word0, word1, flags));
        let flags = (if gated0 \<and> gated1
                        \<and> (if status0 = HANDLE_VALUE then 1 else 0) + (if status1 = HANDLE_VALUE then 1 else 0) = (1 :: u32)
                     then flags OR OBJ_PARTIAL_RESULT else flags);
        State_Monad.return ([status0, status1], [word0, word1], flags) })"

definition fill_handles ::
  "(LinuxLayout \<Rightarrow> u64) \<Rightarrow> target \<Rightarrow> ObjectDescriptorWire \<Rightarrow> bool \<Rightarrow> u64 list \<Rightarrow> u64 \<Rightarrow> LinuxLayout \<Rightarrow>
    (u8 list \<times> u64 list \<times> u32) rd" where
  "fill_handles wb t row derive_ok ptrs rv l =
     (let arg0 = od_result_args row ! 0; arg1 = od_result_args row ! 1;
          refused = od_action row = OBJECT_ACTION_DERIVE \<and> \<not> derive_ok;
          (gated0, status0) = slot_gate arg0 (od_action row) derive_ok;
          flags = (if refused \<and> arg0 \<noteq> ARG_NONE then OBJ_UNAVAILABLE_RESULT else 0);
          (gated1, status1) = slot_gate arg1 (od_action row) derive_ok;
          flags = (if refused \<and> arg1 \<noteq> ARG_NONE then flags OR OBJ_UNAVAILABLE_RESULT else flags) in
      if gated0 \<or> gated1
      then if rv \<noteq> 0
           then State_Monad.return
             ([if gated0 then HANDLE_PROTOCOL_UNAVAILABLE else status0,
               if gated1 then HANDLE_PROTOCOL_UNAVAILABLE else status1], [0, 0], flags)
           else fill_words wb t gated0 gated1 (ptrs ! 0) (ptrs ! 1) l status0 status1 flags
      else State_Monad.return ([status0, status1], [0, 0], flags))"

definition adapter_fill_return ::
  "(LinuxLayout \<Rightarrow> u64) \<Rightarrow> target \<Rightarrow> ObjectStart option \<Rightarrow> u32 \<Rightarrow> ObjectDescriptorWire option \<Rightarrow> u64 \<Rightarrow>
    LinuxLayout \<Rightarrow> u32 \<Rightarrow> u64 \<Rightarrow> bool \<Rightarrow> (ObjectStart option \<times> bool) rd" where
  "adapter_fill_return wb t side descriptor row rv l mech_status mech joined =
     (if \<not> joined then State_Monad.return (side, False)
      else case side of
        None \<Rightarrow> State_Monad.return (side, False)
      | Some s \<Rightarrow>
          if os_phase s \<noteq> 2 then State_Monad.return (side, False)
          else case row of
            None \<Rightarrow> State_Monad.return (side, False)
          | Some r \<Rightarrow>
              if \<not> row_admits r descriptor then State_Monad.return (side, False)
              else if od_action r \<noteq> OBJECT_ACTION_FIND
              then do {
                let derive_ok = (od_action r \<noteq> OBJECT_ACTION_DERIVE
                     \<or> authorize_derive_return (derive_entry_of (os_derive s)) rv mech_status mech);
                (statuses, words, flags) \<leftarrow> fill_handles wb t r derive_ok (os_result_ptrs s) rv l;
                State_Monad.return
                  (Some (s\<lparr>os_result_ptrs := words, os_result_statuses := statuses,
                           os_flags := os_flags s OR ucast flags, os_phase := 3\<rparr>), True) }
              else State_Monad.return (Some (s\<lparr>os_phase := 3\<rparr>), True))"

definition adapter_fill_return_control ::
  "(LinuxLayout \<Rightarrow> u64) \<Rightarrow> target \<Rightarrow> ObjectStart option \<Rightarrow> u32 \<Rightarrow> ObjectDescriptorWire option \<Rightarrow> u64 \<Rightarrow>
    u32 \<Rightarrow> u64 \<Rightarrow> u32 \<Rightarrow> (ObjectStart option \<times> bool) rd" where
  "adapter_fill_return_control wb t side descriptor row rv mech_status mech gate =
     (case decode_return_gate gate of
        None \<Rightarrow> State_Monad.return (side, False)
      | Some (l, joined) \<Rightarrow> adapter_fill_return wb t side descriptor row rv l mech_status mech joined)"

section \<open>Emission\<close>

definition zero_call :: ObjectCallWire where
  "zero_call =
     \<lparr>oc_version = 0, oc_bytes = 0, oc_descriptor_index = 0, oc_flags = 0, oc_layout = 0, oc_action = 0,
      oc_entry_derive = 0, oc_reserved0 = 0, oc_input_handles = [0, 0], oc_result_handles = [0, 0],
      oc_find_handles = replicate 8 0, oc_input_status = [0, 0], oc_result_status = [0, 0],
      oc_find_status = replicate 8 0, oc_find_len = 0, oc_find_flags = 0, oc_find_valid = 0, oc_reserved1 = 0,
      oc_requested = [zero_list, zero_list], oc_result_attributes = zero_list, oc_reserved2 = 0\<rparr>"

definition tail_request :: "bool \<Rightarrow> ObjectDescriptorWire \<Rightarrow> ObjectStart \<Rightarrow> nat \<Rightarrow> ObjectAttributeListWire" where
  "tail_request wired row side p =
     (if od_template_args row ! (2 * p) \<noteq> ARG_NONE \<and> od_template_args row ! (2 * p + 1) \<noteq> ARG_NONE
      then if wired then os_requested side ! p
           else (os_requested side ! p)\<lparr>al_flags := OBJECT_ATTR_LIST_UNINSPECTED\<rparr>
      else zero_list)"

definition adapter_tail_fill ::
  "bool \<Rightarrow> ObjectCallWire option \<Rightarrow> ObjectStart option \<Rightarrow> u32 \<Rightarrow> ObjectDescriptorWire option \<Rightarrow>
    ObjectCallWire option \<times> bool" where
  "adapter_tail_fill wired tail side descriptor row =
     (case (tail, side) of
        (Some _, Some s) \<Rightarrow>
          if os_phase s \<noteq> 3 \<or> os_descriptor_index s \<noteq> descriptor then (tail, False)
          else (case row of
            None \<Rightarrow> (tail, False)
          | Some r \<Rightarrow>
              if \<not> row_admits r descriptor then (tail, False)
              else
                (Some (zero_call\<lparr>oc_version := 1, oc_bytes := 240, oc_descriptor_index := descriptor,
                   oc_flags := ucast (os_flags s) AND OBJECT_FLAGS_MASK, oc_layout := os_layout s,
                   oc_action := od_action r, oc_entry_derive := os_derive s, oc_input_handles := os_inputs s,
                   oc_input_status := os_input_statuses s,
                   oc_result_handles := (if od_action r = OBJECT_ACTION_FIND then [0, 0] else os_result_ptrs s),
                   oc_result_status := (if od_action r = OBJECT_ACTION_FIND
                     then [HANDLE_PROTOCOL_UNAVAILABLE, HANDLE_ABSENT] else os_result_statuses s),
                   oc_requested := [tail_request wired r s 0, tail_request wired r s 1],
                   oc_result_attributes := (if od_action r = OBJECT_ACTION_GET
                     then zero_list\<lparr>al_flags := OBJECT_ATTR_LIST_UNINSPECTED\<rparr> else zero_list)\<rparr>), True))
      | _ \<Rightarrow> (tail, False))"

definition zero_find_cells :: "ObjectCallWire \<Rightarrow> ObjectCallWire" where
  "zero_find_cells tail =
     tail\<lparr>oc_find_handles := replicate 8 0, oc_find_status := replicate 8 0, oc_find_len := 0, oc_find_valid := 0\<rparr>"

fun find_stream ::
  "target \<Rightarrow> u64 \<Rightarrow> nat \<Rightarrow> LinuxLayout \<Rightarrow> nat \<Rightarrow> nat \<Rightarrow> ObjectCallWire \<times> u8 \<Rightarrow> ((ObjectCallWire \<times> u8) \<times> bool) rd" where
  "find_stream t array_ptr shift l 0 i acc = State_Monad.return (acc, True)"
| "find_stream t array_ptr shift l (Suc n) i (tail, flags) =
     (case checked_add array_ptr (push_bit shift (of_nat i)) of
        None \<Rightarrow> State_Monad.return ((tail, flags), False)
      | Some addr \<Rightarrow> do {
          word \<leftarrow> read_word t addr l;
          let status = (\<lambda>s. tail\<lparr>oc_find_status := (oc_find_status tail)[i := s]\<rparr>);
          find_stream t array_ptr shift l n (Suc i)
            (case word of
               None \<Rightarrow> (status HANDLE_UNREADABLE, flags OR FIND_UNREADABLE_ELEMENT)
             | Some word \<Rightarrow>
                 if word = 0 then (status HANDLE_INVALID_ZERO, flags)
                 else if l = Ilp32 \<and> word > 0xFFFFFFFF then (status HANDLE_INVALID_SPAN, flags)
                 else ((status HANDLE_VALUE)\<lparr>oc_find_handles := (oc_find_handles tail)[i := word]\<rparr>, flags)) })"

definition emit_find_section ::
  "target \<Rightarrow> ObjectStart \<Rightarrow> LinuxLayout \<Rightarrow> u64 \<Rightarrow> ObjectCallWire \<Rightarrow> ObjectCallWire rd" where
  "emit_find_section t side l count tail =
     (let flagged = (\<lambda>f tail. State_Monad.return (tail\<lparr>oc_find_flags := f\<rparr>));
          shift = (case l of Lp64 \<Rightarrow> 3 | Ilp32 \<Rightarrow> 2);
          count_ptr = os_find_count_ptr side;
          array_ptr = os_result_ptrs side ! 0 in
      if l = Ilp32 \<and> count > 0xFFFFFFFF then flagged FIND_INVALID_COUNT tail
      else if count > os_find_capacity side then flagged FIND_INVALID_COUNT tail
      else if count > drop_bit shift (- 1) then flagged FIND_INVALID_SPAN tail
      else let array_len = push_bit shift count in
        if validate_target_span array_ptr array_len l = None then flagged FIND_INVALID_SPAN tail
        else if spans_overlap array_ptr array_len count_ptr (push_bit shift 1) then flagged FIND_COUNT_ALIAS tail
        else do {
          let n = (if count > 8 then 8 else count);
          ((tail, flags), complete) \<leftarrow>
            find_stream t array_ptr shift l (unat n) 0 (tail, if count > 8 then FIND_TRUNCATED else 0);
          if \<not> complete then flagged FIND_INVALID_SPAN (zero_find_cells tail)
          else do {
            again \<leftarrow> read_word t count_ptr l;
            if again = Some count
            then State_Monad.return (tail\<lparr>oc_find_len := ucast n, oc_find_flags := flags, oc_find_valid := 1\<rparr>)
            else flagged FIND_CHANGED_COUNT (zero_find_cells tail) } })"

definition adapter_emit_find ::
  "target \<Rightarrow> ObjectCallWire option \<Rightarrow> ObjectStart option \<Rightarrow> u32 \<Rightarrow> ObjectDescriptorWire option \<Rightarrow> LinuxLayout \<Rightarrow>
    u64 \<Rightarrow> bool \<Rightarrow> (ObjectCallWire option \<times> bool) rd" where
  "adapter_emit_find t tail side descriptor row l rv joined =
     (if \<not> joined then State_Monad.return (tail, False)
      else case (tail, side) of
        (Some w, Some s) \<Rightarrow>
          if os_phase s \<noteq> 3 \<or> os_descriptor_index s \<noteq> descriptor then State_Monad.return (tail, False)
          else (case row of
            None \<Rightarrow> State_Monad.return (tail, False)
          | Some r \<Rightarrow>
              if od_function r \<noteq> descriptor - 1 then State_Monad.return (tail, False)
              else if od_action r \<noteq> OBJECT_ACTION_FIND then State_Monad.return (tail, True)
              else if rv \<noteq> 0 then State_Monad.return (tail, True)
              else if os_find_count_ptr s = 0 \<or> target_word_end (os_find_count_ptr s) l = None
              then State_Monad.return (Some (w\<lparr>oc_find_flags := FIND_INVALID_COUNT\<rparr>), True)
              else do {
                first \<leftarrow> read_word t (os_find_count_ptr s) l;
                w \<leftarrow> (case first of
                        None \<Rightarrow> State_Monad.return (w\<lparr>oc_find_flags := FIND_INVALID_COUNT\<rparr>)
                      | Some count \<Rightarrow> emit_find_section t s l count w);
                State_Monad.return (Some w, True) })
      | _ \<Rightarrow> State_Monad.return (tail, False))"

definition adapter_emit_find_control ::
  "target \<Rightarrow> ObjectCallWire option \<Rightarrow> ObjectStart option \<Rightarrow> u32 \<Rightarrow> ObjectDescriptorWire option \<Rightarrow> u64 \<Rightarrow> u32 \<Rightarrow>
    (ObjectCallWire option \<times> bool) rd" where
  "adapter_emit_find_control t tail side descriptor row rv gate =
     (case decode_return_gate gate of
        None \<Rightarrow> State_Monad.return (tail, False)
      | Some (l, joined) \<Rightarrow> adapter_emit_find t tail side descriptor row l rv joined)"

definition adapter_emit_get_attributes ::
  "bool \<Rightarrow> (LinuxLayout \<Rightarrow> u64) \<Rightarrow> bool \<Rightarrow> target \<Rightarrow> ObjectCallWire option \<Rightarrow> ObjectStart option \<Rightarrow> u32 \<Rightarrow>
    ObjectDescriptorWire option \<Rightarrow> LinuxLayout \<Rightarrow> u64 \<Rightarrow> bool \<Rightarrow> (ObjectCallWire option \<times> bool) rd" where
  "adapter_emit_get_attributes bpf wb wired t tail side descriptor row l rv joined =
     (if \<not> joined then State_Monad.return (tail, False)
      else case (tail, side) of
        (Some w, Some s) \<Rightarrow>
          if os_phase s \<noteq> 3 \<or> os_descriptor_index s \<noteq> descriptor then State_Monad.return (tail, False)
          else (case row of
            None \<Rightarrow> State_Monad.return (tail, False)
          | Some r \<Rightarrow>
              if \<not> row_admits r descriptor then State_Monad.return (tail, False)
              else if od_action r \<noteq> OBJECT_ACTION_GET then State_Monad.return (tail, True)
              else if \<not> return_accepts_get_results rv then State_Monad.return (tail, True)
              else if \<not> wired
              then State_Monad.return
                (Some (w\<lparr>oc_result_attributes := (oc_result_attributes w)\<lparr>al_flags := OBJECT_ATTR_LIST_UNINSPECTED\<rparr>\<rparr>), True)
              else do {
                (results, contributed) \<leftarrow>
                  capture_get_return_into bpf wb t s rv AUTHORIZED l (oc_result_attributes w);
                let w = w\<lparr>oc_result_attributes := results\<rparr>;
                State_Monad.return
                  (Some (if contributed \<noteq> 0 then w\<lparr>oc_flags := oc_flags w OR contributed\<rparr> else w), True) })
      | _ \<Rightarrow> State_Monad.return (tail, False))"

definition adapter_emit_get_control ::
  "bool \<Rightarrow> (LinuxLayout \<Rightarrow> u64) \<Rightarrow> bool \<Rightarrow> target \<Rightarrow> ObjectCallWire option \<Rightarrow> ObjectStart option \<Rightarrow> u32 \<Rightarrow>
    ObjectDescriptorWire option \<Rightarrow> u64 \<Rightarrow> u32 \<Rightarrow> (ObjectCallWire option \<times> bool) rd" where
  "adapter_emit_get_control bpf wb wired t tail side descriptor row rv gate =
     (case decode_return_gate gate of
        None \<Rightarrow> State_Monad.return (tail, False)
      | Some (l, joined) \<Rightarrow> adapter_emit_get_attributes bpf wb wired t tail side descriptor row l rv joined)"

section \<open>Closing decisions\<close>

text \<open>The closures of the source act on the kernel state; here they are actions of the
  state monad over any state.\<close>

record EmissionOutcome =
  submitted :: bool
  faulted :: bool

definition emission_finalize :: "bool \<Rightarrow> ('k, bool) state \<Rightarrow> ('k, EmissionOutcome) state" where
  "emission_finalize emitted remove = do {
     retired \<leftarrow> remove;
     State_Monad.return
       (if \<not> emitted \<or> \<not> retired then \<lparr>submitted = False, faulted = True\<rparr>
        else \<lparr>submitted = True, faulted = False\<rparr>) }"

datatype RefusedBaseOutcome = RetirementFailed | OutputFailed | Emitted

definition preserve_refused_base ::
  "('k, bool) state \<Rightarrow> ('k, unit) state \<Rightarrow> ('k, bool) state \<Rightarrow> ('k, RefusedBaseOutcome) state" where
  "preserve_refused_base remove raise_fault output_base = do {
     retired \<leftarrow> remove;
     _ \<leftarrow> raise_fault;
     if \<not> retired then State_Monad.return RetirementFailed
     else do {
       ok \<leftarrow> output_base;
       State_Monad.return (if ok then Emitted else OutputFailed) } }"

end
