(* ===== verification/P11_Object.thy ===== *)
theory P11_Object
  imports P11_Flow
begin

text \<open>
  The object wrappers of \<^verbatim>\<open>crates/ebpf/src/main.rs\<close>: they look the descriptor row up
  in the frozen table \<open>rows\<close> and run one adapter on the side row that the native
  owner handed out (\<open>None\<close> where it handed out none). Probe registers, the stack
  and target memory are the \<open>target\<close>; \<open>stack_pointer\<close> is the saved \<^verbatim>\<open>rsp\<close>.
\<close>

definition descriptor_row :: "ObjectDescriptorWire list \<Rightarrow> u32 \<Rightarrow> ObjectDescriptorWire option" where
  "descriptor_row rows d = (if unat d < length rows then Some (rows ! unat d) else None)"

definition side_descriptor :: "ObjectStart option \<Rightarrow> u32" where
  "side_descriptor side = (case side of None \<Rightarrow> 0 | Some s \<Rightarrow> os_descriptor_index s)"

definition object_marker_for :: "ObjectDescriptorWire list \<Rightarrow> u64 \<Rightarrow> u64" where
  "object_marker_for rows cookie =
     (let descriptor = cookie_descriptor cookie in
      if descriptor = 0 \<or> descriptor \<ge> of_nat MAX_DESCRIPTORS then 0
      else case descriptor_row rows descriptor of
        None \<Rightarrow> 0
      | Some row \<Rightarrow>
          if od_function row \<noteq> descriptor - 1 \<or> \<not> row_codes_ok row then 0
          else ucast descriptor + 1)"

definition layout_code :: "LinuxLayout \<Rightarrow> u8" where
  "layout_code l = (case l of Lp64 \<Rightarrow> OBJECT_LAYOUT_LP64 | Ilp32 \<Rightarrow> OBJECT_LAYOUT_ILP32)"

definition object_record_entry_abi :: "ObjectStart option \<Rightarrow> LinuxLayout \<Rightarrow> ObjectStart option \<times> bool" where
  "object_record_entry_abi side l =
     (case side of
        Some s \<Rightarrow> (Some (s\<lparr>os_layout := layout_code l\<rparr>), True)
      | None \<Rightarrow> (None, False))"

section \<open>Entry\<close>

definition fill_input :: "target \<Rightarrow> LinuxLayout \<Rightarrow> bool \<Rightarrow> u8 \<Rightarrow> (u8 \<times> u64 \<times> u32) rd" where
  "fill_input t l import arg =
     (if arg = ARG_NONE then State_Monad.return (HANDLE_ABSENT, 0, 0)
      else do {
        input \<leftarrow> fetch_arg t arg;
        State_Monad.return (case input of
          None \<Rightarrow> (HANDLE_UNREADABLE, 0, OBJ_ARG_READ_FAILURE)
        | Some word \<Rightarrow>
            if word = 0 then (if import then HANDLE_ABSENT else HANDLE_INVALID_ZERO, 0, 0)
            else if l = Ilp32 \<and> word > 0xFFFFFFFF then (HANDLE_INVALID_SPAN, 0, 0)
            else (HANDLE_VALUE, word, 0)) })"

definition suppress_inputs :: "ObjectStart \<Rightarrow> ObjectStart" where
  "suppress_inputs s =
     s\<lparr>os_inputs := map (\<lambda>j. if os_input_statuses s ! j = HANDLE_VALUE then 0 else os_inputs s ! j) [0, 1],
       os_input_statuses := map (\<lambda>j. if os_input_statuses s ! j = HANDLE_VALUE then HANDLE_SUPPRESSED
                                     else os_input_statuses s ! j) [0, 1]\<rparr>"

abbreviation "kem_action a \<equiv> a = OBJECT_ACTION_ENCAPSULATE \<or> a = OBJECT_ACTION_DECAPSULATE"

definition object_fill_entry ::
  "ObjectDescriptorWire list \<Rightarrow> target \<Rightarrow> ObjectStart option \<Rightarrow> LinuxLayout \<Rightarrow> bool \<Rightarrow> (ObjectStart option \<times> bool) rd" where
  "object_fill_entry rows t side l null_cancel =
     (case side of
        None \<Rightarrow> State_Monad.return (side, False)
      | Some s \<Rightarrow>
          (case descriptor_row rows (os_descriptor_index s) of
             None \<Rightarrow> State_Monad.return (side, False)
           | Some row \<Rightarrow>
               if \<not> row_admits row (os_descriptor_index s) then State_Monad.return (side, False)
               else if kem_action (od_action row) then State_Monad.return (side, True)
               else do {
                 let import = od_action row = OBJECT_ACTION_IMPORT;
                 (status0, word0, flags0) \<leftarrow> fill_input t l import (od_input_args row ! 0);
                 (status1, word1, flags1) \<leftarrow> fill_input t l import (od_input_args row ! 1);
                 let s = s\<lparr>os_inputs := [word0, word1], os_input_statuses := [status0, status1]\<rparr>;
                 let s = (if null_cancel then suppress_inputs s else s);
                 let flags = flags0 OR flags1 OR (if null_cancel then OBJ_NULL_MECHANISM_CANCEL else 0);
                 State_Monad.return (Some (s\<lparr>os_flags := os_flags s OR ucast flags, os_phase := 2\<rparr>), True) }))"

definition object_entry_derive ::
  "ObjectDescriptorWire list \<Rightarrow> target \<Rightarrow> ObjectStart option \<Rightarrow> LinuxLayout \<Rightarrow> (ObjectStart option \<times> bool) rd" where
  "object_entry_derive rows t side l =
     (let descriptor = side_descriptor side in
      adapter_derive_entry t side descriptor (descriptor_row rows descriptor) l)"

abbreviation (input) OUTPUT_MASK :: u32 where "OUTPUT_MASK \<equiv> 0xC"
abbreviation (input) OUTPUT_NON_NULL :: u32 where "OUTPUT_NON_NULL \<equiv> 8"

definition object_entry_kem ::
  "ObjectDescriptorWire list \<Rightarrow> (LinuxLayout \<Rightarrow> u64) \<Rightarrow> bool \<Rightarrow> target \<Rightarrow> ObjectStart option \<Rightarrow> LinuxLayout \<Rightarrow> u64 \<Rightarrow>
    u32 \<Rightarrow> bool \<Rightarrow> (ObjectStart option \<times> bool) rd" where
  "object_entry_kem rows wb wired t side l stack_pointer entry_capture null_cancel =
     (let descriptor = side_descriptor side in
      adapter_kem_entry wb t side descriptor (descriptor_row rows descriptor) l stack_pointer wired
        (entry_capture AND OUTPUT_MASK = OUTPUT_NON_NULL) null_cancel)"

definition result_pointer ::
  "target \<Rightarrow> ObjectDescriptorWire \<Rightarrow> LinuxLayout \<Rightarrow> u64 \<Rightarrow> u8 \<Rightarrow> u64 option rd" where
  "result_pointer t row l stack_pointer arg =
     (if arg = ARG_NONE then State_Monad.return (Some 0)
      else if arg = 7 then
        (case object_result_arg7_address row stack_pointer l of
           None \<Rightarrow> State_Monad.return None
         | Some addr \<Rightarrow> do {
             word \<leftarrow> read_word t addr l;
             State_Monad.return (Some (case word of None \<Rightarrow> 0 | Some p \<Rightarrow> p)) })
      else do {
        word \<leftarrow> fetch_arg t arg;
        State_Monad.return (Some (case word of None \<Rightarrow> 0 | Some p \<Rightarrow> p)) })"

definition object_entry_results ::
  "ObjectDescriptorWire list \<Rightarrow> target \<Rightarrow> ObjectStart option \<Rightarrow> LinuxLayout \<Rightarrow> u64 \<Rightarrow> (ObjectStart option \<times> bool) rd" where
  "object_entry_results rows t side l stack_pointer =
     (case side of
        None \<Rightarrow> State_Monad.return (side, False)
      | Some s \<Rightarrow>
          (case descriptor_row rows (os_descriptor_index s) of
             None \<Rightarrow> State_Monad.return (side, False)
           | Some row \<Rightarrow>
               if \<not> row_admits row (os_descriptor_index s) then State_Monad.return (side, False)
               else if od_action row = OBJECT_ACTION_DERIVE then State_Monad.return (side, True)
               else if kem_action (od_action row) then State_Monad.return (side, True)
               else do {
                 ptr0 \<leftarrow> result_pointer t row l stack_pointer (od_result_args row ! 0);
                 case ptr0 of
                   None \<Rightarrow> State_Monad.return (side, False)
                 | Some ptr0 \<Rightarrow> do {
                     let s = s\<lparr>os_result_ptrs := (os_result_ptrs s)[0 := ptr0]\<rparr>;
                     ptr1 \<leftarrow> result_pointer t row l stack_pointer (od_result_args row ! 1);
                     case ptr1 of
                       None \<Rightarrow> State_Monad.return (Some s, False)
                     | Some ptr1 \<Rightarrow>
                         State_Monad.return (Some (s\<lparr>os_result_ptrs := (os_result_ptrs s)[1 := ptr1]\<rparr>), True) } }))"

definition find_scalar :: "target \<Rightarrow> u8 \<Rightarrow> u64 rd" where
  "find_scalar t arg =
     (if arg = ARG_NONE then State_Monad.return 0
      else do { word \<leftarrow> fetch_arg t arg; State_Monad.return (case word of None \<Rightarrow> 0 | Some w \<Rightarrow> w) })"

definition object_entry_find ::
  "ObjectDescriptorWire list \<Rightarrow> target \<Rightarrow> ObjectStart option \<Rightarrow> (ObjectStart option \<times> bool) rd" where
  "object_entry_find rows t side =
     (case side of
        None \<Rightarrow> State_Monad.return (side, False)
      | Some s \<Rightarrow>
          (case descriptor_row rows (os_descriptor_index s) of
             None \<Rightarrow> State_Monad.return (side, False)
           | Some row \<Rightarrow>
               if \<not> row_admits row (os_descriptor_index s) then State_Monad.return (side, False)
               else if od_action row \<noteq> OBJECT_ACTION_FIND then State_Monad.return (side, True)
               else do {
                 capacity \<leftarrow> find_scalar t (od_find_capacity_arg row);
                 count_ptr \<leftarrow> find_scalar t (od_find_count_arg row);
                 State_Monad.return (Some (s\<lparr>os_find_capacity := capacity, os_find_count_ptr := count_ptr\<rparr>), True) }))"

definition object_entry_attributes ::
  "ObjectDescriptorWire list \<Rightarrow> bool \<Rightarrow> (LinuxLayout \<Rightarrow> u64) \<Rightarrow> bool \<Rightarrow> target \<Rightarrow> ObjectStart option \<Rightarrow> LinuxLayout \<Rightarrow>
    (ObjectStart option \<times> bool) rd" where
  "object_entry_attributes rows bpf wb wired t side l =
     (let descriptor = side_descriptor side in
      adapter_attributes_entry bpf wb wired t side descriptor (descriptor_row rows descriptor) l)"

section \<open>Return\<close>

definition object_fill_return ::
  "ObjectDescriptorWire list \<Rightarrow> (LinuxLayout \<Rightarrow> u64) \<Rightarrow> target \<Rightarrow> ObjectStart option \<Rightarrow> u64 \<Rightarrow> u32 \<Rightarrow> u64 \<Rightarrow> u32 \<Rightarrow>
    (ObjectStart option \<times> bool) rd" where
  "object_fill_return rows wb t side rv mech_status mech gate =
     (if decode_return_gate gate = None then State_Monad.return (side, False)
      else let descriptor = side_descriptor side in
        adapter_fill_return_control wb t side descriptor (descriptor_row rows descriptor) rv mech_status mech gate)"

definition object_tail_fill ::
  "ObjectDescriptorWire list \<Rightarrow> bool \<Rightarrow> ObjectCallWire option \<Rightarrow> ObjectStart option \<Rightarrow> u32 \<Rightarrow> ObjectCallWire option \<times> bool" where
  "object_tail_fill rows wired tail side descriptor =
     adapter_tail_fill wired tail side descriptor (descriptor_row rows descriptor)"

definition object_emit_find ::
  "ObjectDescriptorWire list \<Rightarrow> target \<Rightarrow> ObjectCallWire option \<Rightarrow> ObjectStart option \<Rightarrow> u32 \<Rightarrow> u64 \<Rightarrow> u32 \<Rightarrow>
    (ObjectCallWire option \<times> bool) rd" where
  "object_emit_find rows t tail side descriptor rv gate =
     (if decode_return_gate gate = None then State_Monad.return (tail, False)
      else adapter_emit_find_control t tail side descriptor (descriptor_row rows descriptor) rv gate)"

definition object_emit_get_attributes ::
  "ObjectDescriptorWire list \<Rightarrow> bool \<Rightarrow> (LinuxLayout \<Rightarrow> u64) \<Rightarrow> bool \<Rightarrow> target \<Rightarrow> ObjectCallWire option \<Rightarrow>
    ObjectStart option \<Rightarrow> u32 \<Rightarrow> u64 \<Rightarrow> u32 \<Rightarrow> (ObjectCallWire option \<times> bool) rd" where
  "object_emit_get_attributes rows bpf wb wired t tail side descriptor rv gate =
     (if decode_return_gate gate = None then State_Monad.return (tail, False)
      else adapter_emit_get_control bpf wb wired t tail side descriptor (descriptor_row rows descriptor) rv gate)"

end
