(* ===== verification/P11_Stream_Refine.thy ===== *)
theory P11_Stream_Refine
  imports P11_Stream
begin

text \<open>
  The streamed walkers of the BPF target against the array forms. On a target
  whose memory does not change during the call, the one-slot-at-a-time template
  walker (which re-reads every neighbour header for each slot) publishes the
  same attribute list and the same object flags as the array form (which reads
  each header once). The proof runs both programs on a view of the table: what
  each header states.
\<close>

section \<open>Arrays of eight\<close>

definition tab :: "(nat \<Rightarrow> 'a) \<Rightarrow> 'a list" where
  "tab f = map f [0..<8]"

lemma tab_nth [simp]: "i < 8 \<Longrightarrow> tab f ! i = f i"
  by (simp add: tab_def)

lemma tab_length [simp]: "length (tab f) = 8"
  by (simp add: tab_def)

lemma tab_update [simp]: "i < 8 \<Longrightarrow> (tab f)[i := x] = tab (f(i := x))"
  by (rule nth_equalityI) (auto simp: tab_def nth_list_update)

lemma tab_replicate: "replicate 8 x = tab (\<lambda>_. x)"
  by (rule nth_equalityI) simp_all

lemma tab_cong: "(\<And>i. i < 8 \<Longrightarrow> f i = g i) \<Longrightarrow> tab f = tab g"
  by (simp add: tab_def)

lemma map_tab: "map h (tab f) = tab (\<lambda>i. h (f i))"
  by (simp add: tab_def)

section \<open>What a header states\<close>

datatype hview = NoHeader | Unselected | Torn SafeAttributeKind | Stated SafeAttributeKind u64 u64

definition header_view :: "(LinuxLayout \<Rightarrow> u64) \<Rightarrow> target \<Rightarrow> u64 \<Rightarrow> LinuxLayout \<Rightarrow> nat \<Rightarrow> hview" where
  "header_view wb t base l i =
     (case attribute_header_addresses wb base (of_nat i) l of
        None \<Rightarrow> NoHeader
      | Some (sel_addr, ptr_addr, len_addr) \<Rightarrow>
          (case word_at t [] sel_addr l of
             None \<Rightarrow> NoHeader
           | Some sel \<Rightarrow>
               (case safe_attribute_kind sel of
                  None \<Rightarrow> Unselected
                | Some kind \<Rightarrow>
                    (case (word_at t [] ptr_addr l, word_at t [] len_addr l) of
                       (Some ptr, Some len) \<Rightarrow> Stated kind ptr len
                     | _ \<Rightarrow> Torn kind))))"

fun header_fails :: "hview \<Rightarrow> bool" where
  "header_fails NoHeader = True"
| "header_fails Unselected = False"
| "header_fails (Torn k) = True"
| "header_fails (Stated k p n) = False"

fun header_hit :: "LinuxLayout \<Rightarrow> u64 \<Rightarrow> u64 \<Rightarrow> hview \<Rightarrow> bool" where
  "header_hit l ptr len (Stated k p n) \<longleftrightarrow> validate_target_span p n l \<noteq> None \<and> spans_overlap ptr len p n"
| "header_hit l ptr len _ \<longleftrightarrow> False"

definition table_ok :: "u64 \<Rightarrow> u64 \<Rightarrow> LinuxLayout \<Rightarrow> bool" where
  "table_ok base count l \<longleftrightarrow>
     (case attribute_table_span count l of None \<Rightarrow> False | Some n \<Rightarrow> validate_target_span base n l \<noteq> None)"

definition slots_of :: "u64 \<Rightarrow> nat" where
  "slots_of count = unat (min count MAX_ATTRIBUTE_SLOTS)"

lemma slots_of_le: "slots_of count \<le> 8" "i < slots_of count \<Longrightarrow> i < 8"
proof -
  have "min count 8 \<le> (8 :: u64)" by simp
  then have "unat (min count 8) \<le> 8" by (simp add: word_le_nat_alt)
  then show "slots_of count \<le> 8" "i < slots_of count \<Longrightarrow> i < 8" by (simp_all add: slots_of_def)
qed

definition table_hit ::
  "(LinuxLayout \<Rightarrow> u64) \<Rightarrow> target \<Rightarrow> u64 \<Rightarrow> u64 \<Rightarrow> u64 \<Rightarrow> LinuxLayout \<Rightarrow> u64 \<Rightarrow> u64 \<Rightarrow> bool" where
  "table_hit wb t base count skip l ptr len \<longleftrightarrow> table_ok base count l \<and>
     (spans_overlap ptr len base (min count MAX_ATTRIBUTE_SLOTS * 3 * wb l)
      \<or> (\<exists>j < slots_of count. of_nat j \<noteq> skip \<and> header_hit l ptr len (header_view wb t base l j)))"

definition table_fails :: "(LinuxLayout \<Rightarrow> u64) \<Rightarrow> target \<Rightarrow> u64 \<Rightarrow> u64 \<Rightarrow> u64 \<Rightarrow> LinuxLayout \<Rightarrow> bool" where
  "table_fails wb t base count skip l \<longleftrightarrow> table_ok base count l \<and>
     (\<exists>j < slots_of count. of_nat j \<noteq> skip \<and> header_fails (header_view wb t base l j))"

definition fail_flag :: "bool \<Rightarrow> u8" where
  "fail_flag b = (if b then LIST_HEADER_READ_FAILURE else 0)"

lemma fail_flag_or [simp]: "fail_flag a OR fail_flag b = fail_flag (a \<or> b)" "(x OR fail_flag a) OR fail_flag b = x OR fail_flag (a \<or> b)"
  by (simp_all add: fail_flag_def or.assoc)

lemma fail_flag_False [simp]: "fail_flag False = 0"
  by (simp add: fail_flag_def)

lemma overlap_nonzero: "spans_overlap p n a m \<Longrightarrow> validate_target_span a m l \<noteq> None \<Longrightarrow> a \<noteq> 0 \<and> m \<noteq> 0"
  by (auto simp: spans_overlap_def validate_target_span_def split: if_splits)

lemma overlap_or: "spans_overlap p n a m \<Longrightarrow> a OR m \<noteq> 0"
  by (auto simp: spans_overlap_def or_eq_0_iff)

lemma overlap_or_absorb [simp]: "a OR m \<noteq> 0 \<and> V \<and> spans_overlap p n a m \<longleftrightarrow> V \<and> spans_overlap p n a m"
  using overlap_or by blast

lemma yields_neighbor:
  assumes "static_target t"
  shows "yields (alias_neighbor wb t base skip ptr len l j (hit, flags))
     (hit \<or> (of_nat j \<noteq> skip \<and> header_hit l ptr len (header_view wb t base l j)),
      flags OR fail_flag (of_nat j \<noteq> skip \<and> header_fails (header_view wb t base l j)))"
proof (cases "of_nat j = skip \<or> attribute_header_addresses wb base (of_nat j) l = None")
  case True
  then show ?thesis
    by (auto simp: alias_neighbor_def header_view_def fail_flag_def Let_def intro: yields_return)
next
  case False
  then obtain sa pa la where a: "attribute_header_addresses wb base (of_nat j) l = Some (sa, pa, la)"
    and j: "of_nat j \<noteq> skip" by (cases "attribute_header_addresses wb base (of_nat j) l") auto
  note W = yields_word[OF assms]
  show ?thesis
    unfolding alias_neighbor_def header_view_def
    by (cases "word_at t [] sa l"; cases "word_at t [] pa l"; cases "word_at t [] la l")
      (auto simp: a j fail_flag_def Let_def split: option.split intro!: yields_bind[OF W])
qed

lemma fold_scan:
  "fold (\<lambda>j (hit, flags). (hit \<or> P j, flags OR fail_flag (Q j))) [0..<n] (h, f) =
     (h \<or> (\<exists>j < n. P j), f OR fail_flag (\<exists>j < n. Q j))"
  by (induction n) (auto simp: less_Suc_eq intro: arg_cong[where f = "\<lambda>b. f OR fail_flag b"])

lemma yields_scan:
  assumes "static_target t"
  shows "yields (alias_scan_core wb t base count skip ptr len l)
     (table_hit wb t base count skip l ptr len, fail_flag (table_fails wb t base count skip l))"
proof (cases "table_ok base count l")
  case False
  then show ?thesis
    by (auto simp: alias_scan_core_def table_hit_def table_fails_def table_ok_def
        split: option.splits intro: yields_return)
next
  case True
  let ?P = "\<lambda>j. of_nat j \<noteq> skip \<and> header_hit l ptr len (header_view wb t base l j)"
  let ?Q = "\<lambda>j. of_nat j \<noteq> skip \<and> header_fails (header_view wb t base l j)"
  have "yields (alias_neighbor wb t base skip ptr len l j s)
      ((\<lambda>j (hit, flags). (hit \<or> ?P j, flags OR fail_flag (?Q j))) j s)" for j s
    using yields_neighbor[OF assms] by (cases s) simp
  then have "yields (for_each (alias_neighbor wb t base skip ptr len l) [0..<slots_of count] (h, 0))
      (h \<or> (\<exists>j < slots_of count. ?P j), fail_flag (\<exists>j < slots_of count. ?Q j))" for h
    using yields_for_each[of "[0..<slots_of count]" "alias_neighbor wb t base skip ptr len l"
        "\<lambda>j (hit, flags). (hit \<or> ?P j, flags OR fail_flag (?Q j))" "(h, 0)"]
    by (simp add: fold_scan)
  with True show ?thesis
    by (auto simp: alias_scan_core_def table_hit_def table_fails_def table_ok_def slots_of_def Let_def
        split: option.splits)
qed

section \<open>Values\<close>

definition classified_view :: "target \<Rightarrow> SafeAttributeKind \<Rightarrow> u64 \<Rightarrow> u64 \<Rightarrow> LinuxLayout \<Rightarrow> u8 + u16" where
  "classified_view t kind ptr len l = fst (run_state (read_classified_value t kind ptr len l) [])"

lemma yields_classified:
  assumes "static_target t"
  shows "yields (read_classified_value t kind ptr len l) (classified_view t kind ptr len l)"
proof -
  note W = yields_bind[OF yields_word[OF assms]] yields_bind[OF yields_bytes[OF assms]]
  have "\<exists>v. yields (read_classified_value t kind ptr len l) v"
    unfolding read_classified_value_def by (cases kind) (auto intro!: W exI)
  then show ?thesis unfolding classified_view_def by (auto simp: yields_def)
qed

fun value_view :: "u8 + u16 \<Rightarrow> u8 \<times> u16" where
  "value_view (Inl status) = (status, 0)"
| "value_view (Inr v) = (ATTR_VALUE, v)"

text \<open>In an unchanging target the header recheck after a value read agrees.\<close>

lemma stated_words:
  assumes "header_view wb t base l i = Stated k p n"
  obtains sa pa la sel where "attribute_header_addresses wb base (of_nat i) l = Some (sa, pa, la)"
    "word_at t [] sa l = Some sel" "safe_attribute_kind sel = Some k"
    "word_at t [] pa l = Some p" "word_at t [] la l = Some n"
  using assms by (auto simp: header_view_def split: option.splits)

lemma yields_stable:
  assumes "static_target t" "header_view wb t base l i = Stated k p n"
  shows "\<exists>w. yields (stable_cell_core wb t base (of_nat i) k p n l)
      (let (s, v) = value_view (classified_view t k p n l) in (s, v, w, 0)) \<and>
      (w \<or> snd (value_view (classified_view t k p n l)) = 0)"
proof -
  obtain sa pa la sel where h: "attribute_header_addresses wb base (of_nat i) l = Some (sa, pa, la)"
    "word_at t [] sa l = Some sel" "safe_attribute_kind sel = Some k"
    "word_at t [] pa l = Some p" "word_at t [] la l = Some n"
    using assms(2) by (rule stated_words)
  note W = yields_bind[OF yields_word[OF assms(1)]]
  show ?thesis
  proof (cases "classified_view t k p n l")
    case (Inl s)
    show ?thesis unfolding stable_cell_core_def
      by (rule exI[where x = "s = 2"], rule conjI, rule yields_bind[OF yields_classified[OF assms(1)]])
        (auto simp: Inl h intro!: W)
  next
    case (Inr v)
    show ?thesis unfolding stable_cell_core_def
      by (rule exI[where x = True], rule conjI, rule yields_bind[OF yields_classified[OF assms(1)]])
        (auto simp: Inr h intro!: W)
  qed
qed

lemma yields_value_cell:
  assumes "static_target t" "header_view wb t base l i = Stated k p n"
    and same: "\<And>sel. same sel \<longleftrightarrow> safe_attribute_kind sel = Some k"
  shows "yields (value_cell wb t base l i k same p n o')
      (let (s, v) = value_view (classified_view t k p n l) in put_cell i (safe_kind_code k) s v o')"
proof -
  obtain sa pa la sel where h: "attribute_header_addresses wb base (of_nat i) l = Some (sa, pa, la)"
    "word_at t [] sa l = Some sel" "safe_attribute_kind sel = Some k"
    "word_at t [] pa l = Some p" "word_at t [] la l = Some n"
    using assms(2) by (rule stated_words)
  note W = yields_bind[OF yields_word[OF assms(1)]]
  show ?thesis
    unfolding value_cell_def h option.case prod.case
    by (rule yields_bind[OF yields_classified[OF assms(1)]], cases "classified_view t k p n l")
      (auto simp: h recheck_cell_def same intro!: W)
qed

section \<open>The published template\<close>

text \<open>What both forms publish for a template, read off the view of its table and of
  the peer table.\<close>

definition peer_hit ::
  "(LinuxLayout \<Rightarrow> u64) \<Rightarrow> target \<Rightarrow> (u64 \<times> u64) option \<Rightarrow> LinuxLayout \<Rightarrow> u64 \<Rightarrow> u64 \<Rightarrow> bool" where
  "peer_hit wb t peer l ptr len \<longleftrightarrow>
     (case peer of None \<Rightarrow> False | Some (pb, pc) \<Rightarrow> table_hit wb t pb pc (- 1) l ptr len)"

definition peer_fails :: "(LinuxLayout \<Rightarrow> u64) \<Rightarrow> target \<Rightarrow> (u64 \<times> u64) option \<Rightarrow> LinuxLayout \<Rightarrow> bool" where
  "peer_fails wb t peer l \<longleftrightarrow>
     (case peer of None \<Rightarrow> False | Some (pb, pc) \<Rightarrow> table_fails wb t pb pc (- 1) l)"

definition slot_hit ::
  "(LinuxLayout \<Rightarrow> u64) \<Rightarrow> target \<Rightarrow> u64 \<Rightarrow> u64 \<Rightarrow> (u64 \<times> u64) option \<Rightarrow> LinuxLayout \<Rightarrow> nat \<Rightarrow> u64 \<Rightarrow> u64 \<Rightarrow> bool" where
  "slot_hit wb t base count peer l i ptr len \<longleftrightarrow>
     table_hit wb t base count (of_nat i) l ptr len \<or> peer_hit wb t peer l ptr len"

fun slot_cell ::
  "(LinuxLayout \<Rightarrow> u64) \<Rightarrow> target \<Rightarrow> (u64 \<Rightarrow> u64 \<Rightarrow> bool) \<Rightarrow> LinuxLayout \<Rightarrow> hview \<Rightarrow> u8 \<times> u8 \<times> u16" where
  "slot_cell wb t hit l NoHeader = (0, 0, 0)"
| "slot_cell wb t hit l Unselected = (0, 0, 0)"
| "slot_cell wb t hit l (Torn k) = (safe_kind_code k, ATTR_UNREADABLE, 0)"
| "slot_cell wb t hit l (Stated k p n) =
     (safe_kind_code k,
      case request_verdict wb l k p n of
        Some status \<Rightarrow> (status, 0)
      | None \<Rightarrow> if hit p n then (ATTR_ALIAS, 0) else value_view (classified_view t k p n l))"

fun slot_aliased :: "(LinuxLayout \<Rightarrow> u64) \<Rightarrow> (u64 \<Rightarrow> u64 \<Rightarrow> bool) \<Rightarrow> LinuxLayout \<Rightarrow> hview \<Rightarrow> bool" where
  "slot_aliased wb hit l (Stated k p n) \<longleftrightarrow> request_verdict wb l k p n = None \<and> hit p n"
| "slot_aliased wb hit l _ \<longleftrightarrow> False"

fun slot_viable :: "(LinuxLayout \<Rightarrow> u64) \<Rightarrow> LinuxLayout \<Rightarrow> hview \<Rightarrow> bool" where
  "slot_viable wb l (Stated k p n) \<longleftrightarrow> request_verdict wb l k p n = None"
| "slot_viable wb l _ \<longleftrightarrow> False"

definition alias_flag :: "bool \<Rightarrow> u32" where
  "alias_flag b = (if b then OBJ_ALIAS else 0)"

lemma alias_flag_or [simp]: "alias_flag a OR alias_flag b = alias_flag (a \<or> b)"
  by (simp add: alias_flag_def)

lemma alias_flag_False [simp]: "alias_flag False = 0"
  by (simp add: alias_flag_def)

definition cell_facts ::
  "(LinuxLayout \<Rightarrow> u64) \<Rightarrow> target \<Rightarrow> u64 \<Rightarrow> u64 \<Rightarrow> (u64 \<times> u64) option \<Rightarrow> LinuxLayout \<Rightarrow> nat \<Rightarrow> RequestCellFacts" where
  "cell_facts wb t base count peer l i =
     (let v = header_view wb t base l i; hit = slot_hit wb t base count peer l i;
          (kind, status, val) = slot_cell wb t hit l v in
      \<lparr>rc_kind = kind, rc_status = status, rc_value = val,
       rc_list_flags = fail_flag (header_fails v \<or> (slot_viable wb l v
         \<and> (table_fails wb t base count (of_nat i) l \<or> peer_fails wb t peer l))),
       rc_object_flags = alias_flag (slot_aliased wb hit l v)\<rparr>)"

lemma yields_request_cell:
  assumes st: "static_target t" and i: "i < 8"
  shows "yields (request_cell_core bpf wb t base count (of_nat i) peer l) (cell_facts wb t base count peer l i)"
proof -
  have i': "(of_nat i :: u64) < 8 \<or> of_nat i = (- 1 :: u64)"
    using i by (simp add: word_less_nat_alt unat_of_nat)
  note W = yields_bind[OF yields_word[OF st]]
  have scan: "yields (request_alias_scan bpf wb t base count (of_nat i) p n l)
      (table_hit wb t base count (of_nat i) l p n, fail_flag (table_fails wb t base count (of_nat i) l))" for p n
    unfolding request_alias_scan_core[OF i'] by (rule yields_scan[OF st])
  have peer: "yields (case peer of None \<Rightarrow> State_Monad.return (False, 0)
      | Some (pb, pc) \<Rightarrow> request_alias_scan bpf wb t pb pc (- 1) p n l)
      (peer_hit wb t peer l p n, fail_flag (peer_fails wb t peer l))" for p n
    using yields_scan[OF st] by (auto simp: request_alias_scan_core peer_hit_def peer_fails_def split: option.split)
  show ?thesis
  proof (cases "header_view wb t base l i")
    case (Stated k p n)
    obtain sa pa la sel where h: "attribute_header_addresses wb base (of_nat i) l = Some (sa, pa, la)"
      "word_at t [] sa l = Some sel" "safe_attribute_kind sel = Some k"
      "word_at t [] pa l = Some p" "word_at t [] la l = Some n"
      using Stated by (rule stated_words)
    obtain w where w: "yields (stable_cell_core wb t base (of_nat i) k p n l)
        (let (s, v) = value_view (classified_view t k p n l) in (s, v, w, 0))"
      "w \<or> snd (value_view (classified_view t k p n l)) = 0"
      using yields_stable[OF st Stated] by blast
    obtain s v where sv: "value_view (classified_view t k p n l) = (s, v)" by fastforce
    note w = w[unfolded sv prod.case Let_def snd_conv]
    show ?thesis
      unfolding request_cell_core_def stable_cell_facts_core
      by (cases "request_verdict wb l k p n"; cases "slot_hit wb t base count peer l i p n")
        (use w(2) in \<open>auto simp: h Let_def cell_facts_def Stated default_cell_facts_def sv slot_hit_def alias_flag_def
          intro!: W yields_bind[OF scan] yields_bind[OF peer] yields_bind[OF w(1)]\<close>)
  qed (auto simp: request_cell_core_def cell_facts_def header_view_def default_cell_facts_def fail_flag_def Let_def
      split: option.splits intro!: W)
qed

definition template_refused :: "(LinuxLayout \<Rightarrow> u64) \<Rightarrow> u64 \<Rightarrow> u64 \<Rightarrow> LinuxLayout \<Rightarrow> bool" where
  "template_refused wb base count l \<longleftrightarrow>
     \<not> table_ok base count l \<or> checked_add base (min count MAX_ATTRIBUTE_SLOTS * 3 * wb l) = None"

definition template_flags :: "u64 \<Rightarrow> u8" where
  "template_flags count = (if min count MAX_ATTRIBUTE_SLOTS > 0 then LIST_PRESENT else 0)
     OR (if count > MAX_ATTRIBUTE_SLOTS then LIST_TRUNCATED else 0)"

definition template_view ::
  "(LinuxLayout \<Rightarrow> u64) \<Rightarrow> target \<Rightarrow> u64 \<Rightarrow> u64 \<Rightarrow> (u64 \<times> u64) option \<Rightarrow> LinuxLayout \<Rightarrow>
    (nat \<Rightarrow> u8 \<times> u8 \<times> u16) \<times> u8 \<times> u8 \<times> u32" where
  "template_view wb t base count peer l =
     (if template_refused wb base count l then (\<lambda>i. (0, 0, 0), 0, LIST_INVALID_SPAN, 0)
      else let n = slots_of count; view = header_view wb t base l; hit = slot_hit wb t base count peer l in
        (\<lambda>i. if i < n then slot_cell wb t (hit i) l (view i) else (0, 0, 0),
         ucast (min count MAX_ATTRIBUTE_SLOTS),
         template_flags count OR fail_flag (0 < n \<and> ((\<exists>i < n. header_fails (view i)) \<or> peer_fails wb t peer l)),
         alias_flag (\<exists>i < n. slot_aliased wb (hit i) l (view i))))"

definition wire_cell :: "u8 \<times> u8 \<times> u16 \<Rightarrow> ObjectAttributeWire" where
  "wire_cell c = \<lparr>aw_kind = fst c, aw_status = fst (snd c), aw_value = snd (snd c)\<rparr>"

definition view_wire :: "(nat \<Rightarrow> u8 \<times> u8 \<times> u16) \<times> u8 \<times> u8 \<times> u32 \<Rightarrow> ObjectAttributeListWire" where
  "view_wire = (\<lambda>(cells, inspected, flags, _).
     \<lparr>al_cells = tab (\<lambda>i. wire_cell (cells i)), al_inspected = inspected, al_flags = flags, al_reserved = 0\<rparr>)"

lemma wire_cell_zero [simp]: "wire_cell (0, 0, 0) = zero_cell"
  by (simp add: wire_cell_def zero_cell_def)

lemma fold_cells:
  assumes "n \<le> 8"
  shows "fold (\<lambda>i (out, c). (out\<lparr>al_cells := (al_cells out)[i := f i], al_flags := al_flags out OR fail_flag (P i)\<rparr>,
            c OR alias_flag (Q i))) [0..<n]
      (\<lparr>al_cells = tab g, al_inspected = m, al_flags = x, al_reserved = r\<rparr>, 0) =
    (\<lparr>al_cells = tab (\<lambda>i. if i < n then f i else g i), al_inspected = m,
      al_flags = x OR fail_flag (\<exists>i < n. P i), al_reserved = r\<rparr>, alias_flag (\<exists>i < n. Q i))"
  using assms
proof (induction n)
  case (Suc n)
  have "(\<lambda>i. if i < n then f i else g i)(n := f n) = (\<lambda>i. if i < Suc n then f i else g i)"
    by (auto simp: fun_eq_iff less_Suc_eq)
  moreover have "(\<exists>i < n. P i) \<or> P n \<longleftrightarrow> (\<exists>i < Suc n. P i)" "(\<exists>i < n. Q i) \<or> Q n \<longleftrightarrow> (\<exists>i < Suc n. Q i)"
    by (auto simp: less_Suc_eq)
  ultimately show ?case using Suc by simp
qed simp

lemma slots_of_less: "i < slots_of count \<Longrightarrow> of_nat i < min count 8"
proof -
  assume i: "i < slots_of count"
  then have "unat (of_nat i :: u64) = i" using slots_of_le(2)[OF i] by (simp add: unat_of_nat)
  then show ?thesis using i by (simp add: slots_of_def word_less_nat_alt del: min_less_iff_conj)
qed

lemma clear_attribute_list_zero:
  "clear_attribute_list out =
     \<lparr>al_cells = tab (\<lambda>_. zero_cell), al_inspected = 0, al_flags = 0, al_reserved = 0\<rparr>"
  by (cases out) (simp add: clear_attribute_list_def tab_replicate)

lemma yields_template_into:
  assumes st: "static_target t"
  shows "yields (inspect_request_template_into bpf wb t base count peer l out)
    (let v = template_view wb t base count peer l in (view_wire v, snd (snd (snd v))))"
proof (cases "template_refused wb base count l")
  case True
  then show ?thesis
    by (auto simp: inspect_request_template_into_def template_view_def template_refused_def table_ok_def view_wire_def
        clear_attribute_list_zero Let_def split: option.splits)
next
  case False
  then obtain table e h where tab: "attribute_table_span count l = Some table" "validate_target_span base table l = Some e"
    "checked_add base (min count 8 * 3 * wb l) = Some h" "table_ok base count l"
    by (auto simp: template_refused_def table_ok_def split: option.splits)
  have zero: "min count 8 = 0 \<longleftrightarrow> slots_of count = 0"
    by (simp add: slots_of_def unat_eq_0)
  have peer: "yields (case peer of None \<Rightarrow> State_Monad.return (False, 0)
      | Some (pb, pc) \<Rightarrow> request_alias_scan bpf wb t pb pc (- 1) 0 0 l)
      (peer_hit wb t peer l 0 0, fail_flag (peer_fails wb t peer l))"
    using yields_scan[OF st] by (auto simp: request_alias_scan_core peer_hit_def peer_fails_def split: option.split)
  let ?facts = "cell_facts wb t base count peer l"
  have step: "yields (request_cell_into bpf wb t base count peer l i s)
      ((\<lambda>i (out, c). (out\<lparr>al_cells := (al_cells out)[i := wire_cell (slot_cell wb t (slot_hit wb t base count peer l i) l
            (header_view wb t base l i))], al_flags := al_flags out OR rc_list_flags (?facts i)\<rparr>,
          c OR rc_object_flags (?facts i))) i s)" if "i \<in> set [0..<slots_of count]" for i s
  proof -
    from that have i: "i < slots_of count" by simp
    have core: "request_cell bpf wb t base count (of_nat i) peer l = request_cell_core bpf wb t base count (of_nat i) peer l"
      by (rule request_cell_eq_core[OF tab(1)])
        (simp_all only: tab slots_of_less[OF i] option.distinct not_False_eq_True)
    have "\<lparr>aw_kind = rc_kind (?facts i), aw_status = rc_status (?facts i), aw_value = rc_value (?facts i)\<rparr>
        = wire_cell (slot_cell wb t (slot_hit wb t base count peer l i) l (header_view wb t base l i))"
      by (simp add: cell_facts_def wire_cell_def Let_def split: prod.split)
    then show ?thesis unfolding request_cell_into_def core
      by (cases s) (auto intro!: yields_bind[OF yields_request_cell[OF st slots_of_le(2)[OF i]]])
  qed
  let ?Q = "\<lambda>i. slot_aliased wb (slot_hit wb t base count peer l i) l (header_view wb t base l i)"
  let ?P = "\<lambda>i. header_fails (header_view wb t base l i) \<or> (slot_viable wb l (header_view wb t base l i)
         \<and> (table_fails wb t base count (of_nat i) l \<or> peer_fails wb t peer l))"
  have flags: "rc_list_flags (?facts i) = fail_flag (?P i)" "rc_object_flags (?facts i) = alias_flag (?Q i)" for i
    by (simp_all add: cell_facts_def Let_def split: prod.split)
  have all: "peer_fails wb t peer l \<or> (\<exists>i < slots_of count. ?P i)
      \<longleftrightarrow> (\<exists>i < slots_of count. header_fails (header_view wb t base l i)) \<or> peer_fails wb t peer l"
    by (auto simp: table_fails_def)
  show ?thesis
  proof (cases "slots_of count = 0")
    case True
    then show ?thesis using False tab zero
      by (auto simp: inspect_request_template_into_def template_view_def view_wire_def clear_attribute_list_zero
          template_flags_def Let_def)
  next
    case nz: False
    have "fold (\<lambda>i (out, c). (out\<lparr>al_cells := (al_cells out)[i := wire_cell (slot_cell wb t (slot_hit wb t base count peer l i) l
            (header_view wb t base l i))], al_flags := al_flags out OR rc_list_flags (?facts i)\<rparr>,
          c OR rc_object_flags (?facts i))) [0..<slots_of count]
        (\<lparr>al_cells = tab (\<lambda>_. zero_cell), al_inspected = ucast (min count 8),
          al_flags = template_flags count OR fail_flag (peer_fails wb t peer l), al_reserved = 0\<rparr>, 0)
      = (let v = template_view wb t base count peer l in (view_wire v, snd (snd (snd v))))"
      unfolding flags fold_cells[OF slots_of_le(1)] using False nz all
      by (simp add: template_view_def view_wire_def Let_def if_distrib[of wire_cell] cong: if_cong)
    note fold = this
    have "inspect_request_template_into bpf wb t base count peer l out = do {
        (_, flags) \<leftarrow> (case peer of None \<Rightarrow> State_Monad.return (False, 0)
          | Some (pb, pc) \<Rightarrow> request_alias_scan bpf wb t pb pc (- 1) 0 0 l);
        for_each (request_cell_into bpf wb t base count peer l) [0..<slots_of count]
          (\<lparr>al_cells = tab (\<lambda>_. zero_cell), al_inspected = ucast (min count 8),
            al_flags = template_flags count OR flags, al_reserved = 0\<rparr>, 0) }"
      using tab zero nz
      by (simp add: inspect_request_template_into_def clear_attribute_list_zero template_flags_def slots_of_def
          Let_def del: min_less_iff_conj)
    then show ?thesis
      by (simp del: Let_def) (rule yields_bind[OF peer], simp only: prod.case fold[symmetric],
        rule yields_for_each, rule step)
  qed
qed

section \<open>The array form publishes the same view\<close>

definition array_cell :: "u8 \<times> u8 \<times> u16 \<Rightarrow> AttrCell" where
  "array_cell c = \<lparr>ac_kind = fst c, ac_status = fst (snd c), ac_value = snd (snd c)\<rparr>"

definition view_outcome :: "(nat \<Rightarrow> u8 \<times> u8 \<times> u16) \<times> u8 \<times> u8 \<times> u32 \<Rightarrow> AttributeListOutcome" where
  "view_outcome = (\<lambda>(cells, inspected, flags, obj).
     \<lparr>ao_cells = tab (\<lambda>i. array_cell (cells i)), ao_inspected = inspected, ao_flags = flags, ao_object_flags = obj\<rparr>)"

lemma view_outcome_wire: "outcome_to_wire (view_outcome v) = view_wire v"
  by (cases v) (simp add: view_outcome_def view_wire_def outcome_to_wire_def attr_cell_to_wire_def array_cell_def
      wire_cell_def tab_def)

lemma put_cell_view [simp]:
  "i < 8 \<Longrightarrow> put_cell i k s v (view_outcome (c, n, f, ob)) = view_outcome (c(i := (k, s, v)), n, f, ob)"
  by (auto simp: put_cell_def view_outcome_def array_cell_def intro!: tab_cong)

lemma list_flag_view [simp]: "list_flag b (view_outcome (c, n, f, ob)) = view_outcome (c, n, f OR b, ob)"
  by (simp add: list_flag_def view_outcome_def)

lemma obj_flag_view [simp]: "(view_outcome (c, n, f, ob))\<lparr>ao_object_flags := x\<rparr> = view_outcome (c, n, f, x)"
  "ao_object_flags (view_outcome (c, n, f, ob)) = ob"
  by (simp_all add: view_outcome_def)

text \<open>Phase A.\<close>

fun stated_kind :: "hview \<Rightarrow> SafeAttributeKind option" where
  "stated_kind (Stated k p n) = Some k"
| "stated_kind _ = None"

fun stated_sel :: "hview \<Rightarrow> u64" where
  "stated_sel (Stated k p n) = selector_for_kind k"
| "stated_sel _ = 0"

fun stated_ptr :: "hview \<Rightarrow> u64" where
  "stated_ptr (Stated k p n) = p"
| "stated_ptr _ = 0"

fun stated_len :: "hview \<Rightarrow> u64" where
  "stated_len (Stated k p n) = n"
| "stated_len _ = 0"

fun torn_cell :: "hview \<Rightarrow> u8 \<times> u8 \<times> u16" where
  "torn_cell (Torn k) = (safe_kind_code k, ATTR_UNREADABLE, 0)"
| "torn_cell _ = (0, 0, 0)"

definition scratch_view ::
  "(nat \<Rightarrow> hview) \<Rightarrow> u8 \<Rightarrow> u8 \<Rightarrow> nat \<Rightarrow> RequestScratch" where
  "scratch_view view insp flags n =
     \<lparr>rq_kinds = tab (\<lambda>i. if i < n then stated_kind (view i) else None),
      rq_selectors = tab (\<lambda>i. if i < n then stated_sel (view i) else 0),
      rq_ptrs = tab (\<lambda>i. if i < n then stated_ptr (view i) else 0),
      rq_lens = tab (\<lambda>i. if i < n then stated_len (view i) else 0),
      rq_outcome = view_outcome (\<lambda>i. if i < n then torn_cell (view i) else (0, 0, 0), insp,
        flags OR fail_flag (\<exists>i < n. header_fails (view i)), 0)\<rparr>"

fun header_step :: "hview \<Rightarrow> nat \<Rightarrow> RequestScratch \<Rightarrow> RequestScratch" where
  "header_step NoHeader i s = s\<lparr>rq_outcome := list_flag LIST_HEADER_READ_FAILURE (rq_outcome s)\<rparr>"
| "header_step Unselected i s = s"
| "header_step (Torn k) i s = s\<lparr>rq_outcome := list_flag LIST_HEADER_READ_FAILURE
     (put_cell i (safe_kind_code k) ATTR_UNREADABLE 0 (rq_outcome s))\<rparr>"
| "header_step (Stated k p n) i s =
     s\<lparr>rq_kinds := (rq_kinds s)[i := Some k], rq_selectors := (rq_selectors s)[i := selector_for_kind k],
       rq_ptrs := (rq_ptrs s)[i := p], rq_lens := (rq_lens s)[i := n]\<rparr>"

lemma yields_header:
  assumes st: "static_target t"
  shows "yields (request_header wb t base l i s) (header_step (header_view wb t base l i) i s)"
proof -
  note W = yields_bind[OF yields_word[OF st]]
  have sel: "safe_attribute_kind x = Some k \<Longrightarrow> selector_for_kind k = x" for x k
    by (metis selector_for_kind_iff)
  show ?thesis unfolding request_header_def header_view_def
    by (auto simp: sel Let_def split: option.split intro!: W)
qed

lemma scratch_step:
  assumes n: "n < 8"
  shows "header_step (view n) n (scratch_view view insp flags n) = scratch_view view insp flags (Suc n)"
proof -
  have fails: "(\<exists>i < Suc n. header_fails (view i)) \<longleftrightarrow> (\<exists>i < n. header_fails (view i)) \<or> header_fails (view n)"
    by (auto simp: less_Suc_eq)
  have four: "x OR 4 = x OR fail_flag True" for x by (simp add: fail_flag_def)
  have ext: "(\<lambda>i. if i < n then f i else d)(n := e) = (\<lambda>i. if i < Suc n then f i else d)" if "f n = e"
    for f :: "nat \<Rightarrow> 'b" and d e using that by (auto simp: fun_eq_iff less_Suc_eq)
  have same: "(\<lambda>i. if i < Suc n then f i else d) = (\<lambda>i. if i < n then f i else d)" if "f n = d"
    for f :: "nat \<Rightarrow> 'b" and d using that by (auto simp: fun_eq_iff less_Suc_eq)
  show ?thesis
    by (cases "view n") (simp_all add: scratch_view_def n fails four ext same)
qed

lemma fold_header:
  "n \<le> 8 \<Longrightarrow> fold (\<lambda>i. header_step (view i) i) [0..<n] (scratch_view view insp flags 0) = scratch_view view insp flags n"
  by (induction n) (simp_all add: scratch_step)

text \<open>Phase B.\<close>

fun peer_span :: "LinuxLayout \<Rightarrow> hview \<Rightarrow> (u64 \<times> u64) list" where
  "peer_span l (Stated k p n) = (if p \<noteq> 0 \<and> n \<noteq> 0 \<and> validate_target_span p n l \<noteq> None then [(p, n)] else [])"
| "peer_span l _ = []"

lemma peer_span_hit: "list_ex (\<lambda>(b, m). spans_overlap p n b m) (peer_span l v) \<longleftrightarrow> header_hit l p n v"
  by (cases v) (auto dest: overlap_nonzero)

lemma list_flag_zero [simp]: "list_flag 0 o' = o'"
  by (simp add: list_flag_def)

lemma yields_peer_header:
  assumes st: "static_target t"
  shows "yields (peer_header wb t base l j s)
     ((\<lambda>j (spans, o'). (spans @ peer_span l (header_view wb t base l j),
       list_flag (fail_flag (header_fails (header_view wb t base l j))) o')) j s)"
proof -
  note W = yields_bind[OF yields_word[OF st]]
  show ?thesis unfolding peer_header_def header_view_def
    by (cases s) (auto simp: fail_flag_def split: option.split intro!: W)
qed

lemma fold_peer:
  "fold (\<lambda>j (spans, o'). (spans @ peer_span l (view j), list_flag (fail_flag (header_fails (view j))) o')) [0..<m]
      (spans, view_outcome (c, n, f, ob)) =
    (spans @ concat (map (\<lambda>j. peer_span l (view j)) [0..<m]),
     view_outcome (c, n, f OR fail_flag (\<exists>j < m. header_fails (view j)), ob))"
  by (induction m) (simp_all add: Ex_less_Suc disj_commute)

lemma yields_peer:
  assumes st: "static_target t"
  obtains hdr spans where
    "yields (peer_headers wb t peer l (view_outcome (c, n, f, ob)))
       (hdr, spans, view_outcome (c, n, f OR fail_flag (peer_fails wb t peer l), ob))"
    "\<And>p n. spans_overlap p n (fst hdr) (snd hdr) \<or> list_ex (\<lambda>(b, m). spans_overlap p n b m) spans
       \<longleftrightarrow> peer_hit wb t peer l p n"
proof (cases "\<exists>pb pc. peer = Some (pb, pc) \<and> table_ok pb pc l")
  case False
  then have "yields (peer_headers wb t peer l (view_outcome (c, n, f, ob)))
       ((0, 0), [], view_outcome (c, n, f OR fail_flag (peer_fails wb t peer l), ob))"
    "\<And>p n. \<not> peer_hit wb t peer l p n"
    by (auto simp: peer_headers_def peer_fails_def peer_hit_def table_ok_def table_fails_def table_hit_def
        split: option.splits prod.splits)
  then show thesis by (intro that[of "(0, 0)" "[]"]) simp_all
next
  case True
  then obtain pb pc table e where p: "peer = Some (pb, pc)" "table_ok pb pc l"
    "attribute_table_span pc l = Some table" "validate_target_span pb table l = Some e"
    by (auto simp: table_ok_def split: option.splits)
  let ?v = "header_view wb t pb l"
  let ?g = "\<lambda>j (spans, o'). (spans @ peer_span l (?v j), list_flag (fail_flag (header_fails (?v j))) o')"
  let ?spans = "concat (map (\<lambda>j. peer_span l (?v j)) [0..<slots_of pc])"
  have minus1: "(of_nat j :: u64) \<noteq> - 1" if "j < slots_of pc" for j
    using slots_of_le(2)[OF that] by (auto simp: word_unat_eq_iff unat_of_nat unat_minus_one_max)
  have flags: "(\<exists>j < slots_of pc. header_fails (?v j)) \<longleftrightarrow> peer_fails wb t peer l"
    using minus1 p by (auto simp: peer_fails_def table_fails_def)
  have ran: "yields (for_each (peer_header wb t pb l) [0..<slots_of pc] ([], view_outcome (c, n, f, ob)))
      (?spans, view_outcome (c, n, f OR fail_flag (peer_fails wb t peer l), ob))"
    using yields_for_each[of "[0..<slots_of pc]" "peer_header wb t pb l" ?g "([], view_outcome (c, n, f, ob))",
        OF yields_peer_header[OF st]]
    unfolding fold_peer flags by simp
  then have "yields (peer_headers wb t peer l (view_outcome (c, n, f, ob)))
      ((pb, min pc 8 * 3 * wb l), ?spans, view_outcome (c, n, f OR fail_flag (peer_fails wb t peer l), ob))"
    by (simp add: peer_headers_def p slots_of_def[symmetric] Let_def)
      (rule yields_bind, assumption, simp)
  moreover have "list_ex (\<lambda>(b, m). spans_overlap q m' b m) ?spans \<longleftrightarrow> (\<exists>j < slots_of pc. header_hit l q m' (?v j))" for q m'
    by (fastforce simp: list_ex_iff peer_span_hit[symmetric])
  then have "spans_overlap q m' pb (min pc 8 * 3 * wb l) \<or> list_ex (\<lambda>(b, m). spans_overlap q m' b m) ?spans
      \<longleftrightarrow> peer_hit wb t peer l q m'" for q m'
    using minus1 p by (auto simp: peer_hit_def table_hit_def)
  ultimately show thesis by (intro that[of "(pb, min pc 8 * 3 * wb l)" ?spans]) simp_all
qed

text \<open>Phase C.\<close>

fun judged :: "(LinuxLayout \<Rightarrow> u64) \<Rightarrow> LinuxLayout \<Rightarrow> hview \<Rightarrow> u8 \<times> u8 \<times> u16 \<Rightarrow> u8 \<times> u8 \<times> u16" where
  "judged wb l (Stated k p n) c =
     (case request_verdict wb l k p n of Some status \<Rightarrow> (safe_kind_code k, status, 0) | None \<Rightarrow> c)"
| "judged wb l _ c = c"

lemma scratch_nth:
  assumes "i < n" "n \<le> 8"
  shows "rq_kinds (scratch_view view insp flags n) ! i = stated_kind (view i)"
    "rq_ptrs (scratch_view view insp flags n) ! i = stated_ptr (view i)"
    "rq_lens (scratch_view view insp flags n) ! i = stated_len (view i)"
    "rq_selectors (scratch_view view insp flags n) ! i = stated_sel (view i)"
  using assms by (simp_all add: scratch_view_def)

lemma fold_validate:
  assumes "m \<le> n" "n \<le> 8"
  shows "fold (request_validate wb l (scratch_view view insp flags n)) [0..<m]
      (view_outcome (c, x, f, ob), tab (\<lambda>_. False)) =
    (view_outcome (\<lambda>i. if i < m then judged wb l (view i) (c i) else c i, x, f, ob),
     tab (\<lambda>i. i < m \<and> slot_viable wb l (view i)))"
  using assms
proof (induction m)
  case (Suc m)
  then have m: "m < n" "m < 8" by simp_all
  show ?case using Suc m
    by (cases "view m")
      (auto simp: request_validate_def scratch_nth less_Suc_eq fun_eq_iff split: option.split if_splits
        intro!: tab_cong arg_cong[where f = "\<lambda>c. view_outcome (c, x, f, ob)"])
qed simp

lemma fold_get_mark:
  assumes "m \<le> 8" "\<And>i. i < m \<Longrightarrow> hit i \<Longrightarrow> kinds ! i = Some (kd i)"
  shows "fold (get_mark_alias hit kinds) [0..<m] (view_outcome (c, x, f, ob), tab V) =
    (view_outcome (\<lambda>i. if i < m \<and> hit i then (safe_kind_code (kd i), ATTR_ALIAS, 0) else c i, x, f,
       ob OR alias_flag (\<exists>i < m. hit i)), tab (\<lambda>i. V i \<and> \<not> (i < m \<and> hit i)))"
  using assms
proof (induction m)
  case (Suc m)
  then have m: "m < 8" by simp
  have four: "(y OR alias_flag a) OR 4 = y OR alias_flag True" for y a
    by (simp add: alias_flag_def or.assoc)
  show ?case
  proof (cases "hit m")
    case True
    have "(\<exists>i < Suc m. hit i) = True" using True by blast
    with Suc m True Suc.prems(2)[OF lessI True] show ?thesis
      by (auto simp: get_mark_alias_def four less_Suc_eq fun_eq_iff split: if_splits
        intro!: tab_cong arg_cong[where f = "\<lambda>c. view_outcome (c, x, f, ob OR alias_flag True)"])
  next
    case False
    then have "(\<exists>i < Suc m. hit i) \<longleftrightarrow> (\<exists>i < m. hit i)" by (auto simp: less_Suc_eq)
    with Suc m False show ?thesis
      by (auto simp: get_mark_alias_def less_Suc_eq fun_eq_iff split: if_splits intro!: tab_cong
          arg_cong[where f = "\<lambda>c. view_outcome (c, x, f, ob OR alias_flag (\<exists>i < m. hit i))"])
  qed
qed simp

lemma request_mark_alias_get: "request_mark_alias hit s = get_mark_alias hit (rq_kinds s)"
  by (simp add: fun_eq_iff request_mark_alias_def get_mark_alias_def)

lemma fold_mark_alias:
  assumes "n \<le> 8" "\<And>i. i < n \<Longrightarrow> hit i \<Longrightarrow> stated_kind (view i) = Some (kd i)"
  shows "fold (request_mark_alias hit (scratch_view view insp flags n)) [0..<n]
      (view_outcome (c, x, f, ob), tab V) =
    (view_outcome (\<lambda>i. if i < n \<and> hit i then (safe_kind_code (kd i), ATTR_ALIAS, 0) else c i, x, f,
       ob OR alias_flag (\<exists>i < n. hit i)), tab (\<lambda>i. V i \<and> \<not> (i < n \<and> hit i)))"
  unfolding request_mark_alias_get using assms by (intro fold_get_mark) (simp_all add: scratch_nth)

text \<open>Phase D.\<close>

fun valued :: "target \<Rightarrow> LinuxLayout \<Rightarrow> hview \<Rightarrow> u8 \<times> u8 \<times> u16" where
  "valued t l (Stated k p n) = (safe_kind_code k, value_view (classified_view t k p n l))"
| "valued t l _ = (0, 0, 0)"

lemma yields_request_value:
  assumes st: "static_target t" and i: "i < n" "n \<le> 8" and V: "V i \<Longrightarrow> stated_kind (header_view wb t base l i) \<noteq> None"
  shows "yields (request_value wb t base l (scratch_view (header_view wb t base l) insp flags n) (tab V) i
      (view_outcome (c, x, f, ob)))
    (view_outcome (if V i then c(i := valued t l (header_view wb t base l i)) else c, x, f, ob))"
proof (cases "V i")
  case True
  then obtain k p m where v: "header_view wb t base l i = Stated k p m"
    using V by (cases "header_view wb t base l i") auto
  have same: "sel = selector_for_kind k \<longleftrightarrow> safe_attribute_kind sel = Some k" for sel
    by (rule selector_for_kind_iff)
  obtain s w where sw: "value_view (classified_view t k p m l) = (s, w)" by fastforce
  show ?thesis
    using True i yields_value_cell[OF st v, of "\<lambda>sel. sel = selector_for_kind k" "view_outcome (c, x, f, ob)"] same
    by (simp add: request_value_def scratch_nth[OF i] v sw)
qed (use i in \<open>simp add: request_value_def\<close>)

lemma yields_values:
  assumes st: "static_target t" and n: "n \<le> 8"
    and V: "\<And>i. i < n \<Longrightarrow> V i \<Longrightarrow> stated_kind (header_view wb t base l i) \<noteq> None"
  shows "yields (for_each (request_value wb t base l (scratch_view (header_view wb t base l) insp flags n) (tab V)) [0..<n]
      (view_outcome (c, x, f, ob)))
    (view_outcome (\<lambda>i. if i < n \<and> V i then valued t l (header_view wb t base l i) else c i, x, f, ob))"
proof -
  let ?S = "\<lambda>m. view_outcome (\<lambda>i. if i < m \<and> V i then valued t l (header_view wb t base l i) else c i, x, f, ob)"
  let ?f = "request_value wb t base l (scratch_view (header_view wb t base l) insp flags n) (tab V)"
  have "yields (?f i (?S i)) (?S (Suc i))" if i: "i < n" for i
  proof -
    let ?c = "\<lambda>j. if j < i \<and> V j then valued t l (header_view wb t base l j) else c j"
    have eq: "(if V i then ?c(i := valued t l (header_view wb t base l i)) else ?c)
        = (\<lambda>j. if j < Suc i \<and> V j then valued t l (header_view wb t base l j) else c j)"
      by (auto simp: fun_eq_iff less_Suc_eq)
    from yields_request_value[where c = ?c and V = V, OF st i n V[OF i]] show ?thesis unfolding eq by simp
  qed
  from yields_upto[of n ?f ?S, OF this] show ?thesis by simp
qed

lemma request_aliased_view:
  assumes i: "i < slots_of count" and ok: "table_ok base count l"
    and peer: "\<And>p n. spans_overlap p n (fst hdr) (snd hdr) \<or> list_ex (\<lambda>(b, m). spans_overlap p n b m) spans
       \<longleftrightarrow> peer_hit wb t peer l p n"
    and v: "header_view wb t base l i = Stated k p n"
  shows "request_aliased l base (base + of_nat (slots_of count) * 3 * wb l) hdr spans (slots_of count)
      (scratch_view (header_view wb t base l) insp flags (slots_of count)) i
    \<longleftrightarrow> slot_hit wb t base count peer l i p n"
proof -
  let ?v = "header_view wb t base l" and ?n = "slots_of count"
  have small: "j < 8" if "j < ?n" for j using slots_of_le(2)[OF that] .
  have cnt: "of_nat ?n = min count 8" by (simp add: slots_of_def)
  have ne: "of_nat j \<noteq> (of_nat i :: u64) \<longleftrightarrow> j \<noteq> i" if "j < ?n" for j
    using small[OF that] small[OF i] by (auto simp: word_unat_eq_iff unat_of_nat)
  have nb: "j \<noteq> i \<and> stated_kind (?v j) \<noteq> None \<and> stated_ptr (?v j) \<noteq> 0 \<and> stated_len (?v j) \<noteq> 0
      \<and> validate_target_span (stated_ptr (?v j)) (stated_len (?v j)) l \<noteq> None
      \<and> spans_overlap p n (stated_ptr (?v j)) (stated_len (?v j))
      \<longleftrightarrow> j \<noteq> i \<and> header_hit l p n (?v j)" for j
    by (cases "?v j") (auto dest: overlap_nonzero)
  have "list_ex (\<lambda>j. j \<noteq> i \<and> rq_kinds (scratch_view ?v insp flags ?n) ! j \<noteq> None
      \<and> rq_ptrs (scratch_view ?v insp flags ?n) ! j \<noteq> 0 \<and> rq_lens (scratch_view ?v insp flags ?n) ! j \<noteq> 0
      \<and> validate_target_span (rq_ptrs (scratch_view ?v insp flags ?n) ! j) (rq_lens (scratch_view ?v insp flags ?n) ! j) l \<noteq> None
      \<and> spans_overlap p n (rq_ptrs (scratch_view ?v insp flags ?n) ! j) (rq_lens (scratch_view ?v insp flags ?n) ! j)) [0..<?n]
    \<longleftrightarrow> (\<exists>j < ?n. j \<noteq> i \<and> header_hit l p n (?v j))"
    unfolding list_ex_iff nb[symmetric] using scratch_nth[OF _ slots_of_le(1), of _ count ?v insp flags] by auto
  then show ?thesis
    using scratch_nth[OF i slots_of_le(1), of ?v insp flags] v peer[of p n] ok ne
    by (auto simp: request_aliased_def slot_hit_def table_hit_def cnt)
qed

lemma scratch_start:
  "request_scratch (view_outcome (\<lambda>i. (0, 0, 0), insp, flags, 0)) = scratch_view view insp flags 0"
  by (simp add: request_scratch_def scratch_view_def tab_replicate)

lemma empty_outcome_view: "empty_outcome = view_outcome (\<lambda>i. (0, 0, 0), 0, 0, 0)"
  by (simp add: empty_outcome_def view_outcome_def array_cell_def tab_replicate)

lemma outcome_update_view:
  "(view_outcome (c, n, f, ob))\<lparr>ao_flags := g\<rparr> = view_outcome (c, n, g, ob)"
  "(view_outcome (c, n, f, ob))\<lparr>ao_inspected := m\<rparr> = view_outcome (c, m, f, ob)"
  by (simp_all add: view_outcome_def)

lemma cells_view:
  assumes "hit \<longleftrightarrow> slot_viable wb l v \<and> (\<forall>k p m. v = Stated k p m \<longrightarrow> al p m)"
  shows "(if slot_viable wb l v \<and> \<not> hit then valued t l v
      else if hit then (safe_kind_code (the (stated_kind v)), ATTR_ALIAS, 0) else judged wb l v (torn_cell v))
    = slot_cell wb t al l v"
    and "hit \<longleftrightarrow> slot_aliased wb al l v"
  using assms by (cases v; auto split: option.splits)+

lemma yields_template:
  assumes st: "static_target t"
  shows "yields (inspect_request_template wb t base count peer l) (view_outcome (template_view wb t base count peer l))"
proof (cases "template_refused wb base count l")
  case True
  then show ?thesis
    using checked_add_Some_iff[of base 0 base] unfolding inspect_request_template_def empty_outcome_view
    by (auto simp: template_view_def template_refused_def table_ok_def outcome_update_view unat_eq_0 Let_def
        split: option.splits)
next
  case False
  let ?v = "header_view wb t base l" and ?n = "slots_of count"
  have cnt: "of_nat ?n = min count 8" by (simp add: slots_of_def)
  from False obtain table e h where tab: "attribute_table_span count l = Some table" "validate_target_span base table l = Some e"
    "checked_add base (of_nat ?n * 3 * wb l) = Some h" and ok: "table_ok base count l"
    by (auto simp: template_refused_def table_ok_def cnt split: option.splits)
  from tab(3) have h: "h = base + of_nat ?n * 3 * wb l" by (auto simp: checked_add_def split: if_splits)
  show ?thesis
  proof (cases "?n = 0")
    case True
    then show ?thesis using False tab ok
      by (simp add: inspect_request_template_def template_view_def empty_outcome_view outcome_update_view
          template_flags_def slots_of_def[symmetric] Let_def)
        (auto simp: slots_of_def unat_eq_0)
  next
    case nz: False
    let ?insp = "of_nat ?n :: u8" and ?flags = "template_flags count"
    let ?S = "scratch_view ?v ?insp ?flags ?n"
    let ?c = "\<lambda>i. if i < ?n then torn_cell (?v i) else (0, 0, 0)"
    let ?f = "?flags OR fail_flag (\<exists>i < ?n. header_fails (?v i))"
    let ?f' = "?f OR fail_flag (peer_fails wb t peer l)"
    have A: "yields (for_each (request_header wb t base l) [0..<?n] (scratch_view ?v ?insp ?flags 0)) ?S"
      by (rule yields_upto) (metis scratch_step yields_header[OF st] slots_of_le(2))
    obtain hdr spans where B: "yields (peer_headers wb t peer l (view_outcome (?c, ?insp, ?f, 0)))
        (hdr, spans, view_outcome (?c, ?insp, ?f', 0))"
      and hit: "\<And>p n. spans_overlap p n (fst hdr) (snd hdr) \<or> list_ex (\<lambda>(b, m). spans_overlap p n b m) spans
        \<longleftrightarrow> peer_hit wb t peer l p n"
      using yields_peer[OF st, of wb peer l ?c ?insp ?f 0] by blast
    let ?V = "\<lambda>i. i < ?n \<and> slot_viable wb l (?v i)"
    let ?al = "\<lambda>i. tab ?V ! i \<and> request_aliased l base h hdr spans ?n ?S i"
    have al: "?al i \<longleftrightarrow> slot_viable wb l (?v i) \<and> (\<forall>k p m. ?v i = Stated k p m \<longrightarrow> slot_hit wb t base count peer l i p m)"
      if i: "i < ?n" for i
      using request_aliased_view[OF i ok hit] slots_of_le(2)[OF i] i unfolding h by (cases "?v i") auto
    have kd: "stated_kind (?v i) = Some (the (stated_kind (?v i)))" if "i < ?n" "?al i" for i
      using al[OF that(1)] that(2) by (cases "?v i") auto
    let ?c2 = "\<lambda>i. if i < ?n then judged wb l (?v i) (?c i) else ?c i"
    let ?c3 = "\<lambda>i. if i < ?n \<and> ?al i then (safe_kind_code (the (stated_kind (?v i))), ATTR_ALIAS, 0) else ?c2 i"
    let ?V3 = "\<lambda>i. ?V i \<and> \<not> (i < ?n \<and> ?al i)"
    have D: "yields (for_each (request_value wb t base l ?S (tab ?V3)) [0..<?n]
        (view_outcome (?c3, ?insp, ?f', alias_flag (\<exists>i < ?n. ?al i))))
      (view_outcome (\<lambda>i. if i < ?n \<and> ?V3 i then valued t l (?v i) else ?c3 i, ?insp, ?f', alias_flag (\<exists>i < ?n. ?al i)))"
      by (rule yields_values[OF st slots_of_le(1)]) (use kd in \<open>auto elim!: slot_viable.elims\<close>)
    have cells: "(\<lambda>i. if i < ?n \<and> ?V3 i then valued t l (?v i) else ?c3 i)
        = (\<lambda>i. if i < ?n then slot_cell wb t (slot_hit wb t base count peer l i) l (?v i) else (0, 0, 0))"
    proof
      fix i
      show "(if i < ?n \<and> ?V3 i then valued t l (?v i) else ?c3 i)
        = (if i < ?n then slot_cell wb t (slot_hit wb t base count peer l i) l (?v i) else (0, 0, 0))"
      proof (cases "i < ?n")
        case True
        show ?thesis unfolding cells_view(1)[OF al[OF True], of t, symmetric]
          using True by (cases "?al i"; cases "slot_viable wb l (?v i)") (simp_all only: simp_thms if_True if_False)
      qed simp
    qed
    have aliased: "(\<exists>i < ?n. ?al i) \<longleftrightarrow> (\<exists>i < ?n. slot_aliased wb (slot_hit wb t base count peer l i) l (?v i))"
      using cells_view(2)[OF al] by blast
    have insp: "?insp = ucast (min count 8)" by (simp add: slots_of_def)
    have out: "rq_outcome ?S = view_outcome (?c, ?insp, ?f, 0)" by (simp add: scratch_view_def)
    have fl: "(if 0 < ?n then LIST_PRESENT else 0) OR (if count > 8 then LIST_TRUNCATED else 0) = template_flags count"
      using unat_gt_0[of "min count 8"] unfolding template_flags_def slots_of_def by (simp only: word_neq_0_conv)
    have run: "inspect_request_template wb t base count peer l = do {
        s \<leftarrow> for_each (request_header wb t base l) [0..<?n] (scratch_view ?v ?insp ?flags 0);
        (peer_hdr, peer_spans, o') \<leftarrow> peer_headers wb t peer l (rq_outcome s);
        let (o', viable) = fold (request_validate wb l s) [0..<?n] (o', tab (\<lambda>_. False));
        let aliased = (\<lambda>i. viable ! i \<and> request_aliased l base h peer_hdr peer_spans ?n s i);
        let (o', viable) = fold (request_mark_alias aliased s) [0..<?n] (o', viable);
        for_each (request_value wb t base l s viable) [0..<?n] o' }"
      using tab nz unfolding inspect_request_template_def slots_of_def[symmetric] scratch_start[symmetric] Let_def fl
      by (simp add: empty_outcome_view outcome_update_view tab_replicate)
    have C: "fold (request_mark_alias ?al ?S) [0..<?n] (view_outcome (?c2, ?insp, ?f', 0), tab ?V) =
        (view_outcome (?c3, ?insp, ?f', alias_flag (\<exists>i < ?n. ?al i)), tab ?V3)"
      by (subst fold_mark_alias[OF slots_of_le(1) kd]) (assumption | simp only: or.left_neutral)+
    have T: "template_view wb t base count peer l
        = (\<lambda>i. if i < ?n \<and> ?V3 i then valued t l (?v i) else ?c3 i, ?insp, ?f', alias_flag (\<exists>i < ?n. ?al i))"
      unfolding cells aliased template_view_def using False nz insp by (simp add: Let_def)
    show ?thesis unfolding run T
      by (rule yields_bind[OF A], simp only: out, rule yields_bind[OF B])
        (simp only: prod.case Let_def fold_validate[OF order_refl slots_of_le(1)] C D)
  qed
qed

section \<open>\<^verbatim>\<open>C_GetAttributeValue\<close> entry\<close>

text \<open>The in-place entry capture makes the same accesses as the array form and
  leaves the array form's state in the side row.\<close>

definition slot_of :: "GetSlot \<Rightarrow> ObjectAttributeSlot" where
  "slot_of s = \<lparr>sl_value_ptr = gs_value_ptr s, sl_entry_capacity = gs_entry_capacity s, sl_returned_len = 0,
     sl_kind = gs_kind s, sl_slot_index = gs_slot_index s, sl_status = 0\<rparr>"

definition store_get :: "GetEntryState \<Rightarrow> ObjectStart \<Rightarrow> ObjectStart" where
  "store_get st side = side\<lparr>os_get_template_base := ge_template_base st, os_inspected_header_end := ge_header_end st,
     os_get_inspected := ge_inspected st, os_slots := map slot_of (ge_slots st),
     os_flags := (os_flags side AND NOT GET_ENTRY_FLAGS_MASK) OR push_bit 8 (ucast (ge_entry_flags st))\<rparr>"

text \<open>The retained slots are an initial segment, with selected kinds and increasing
  indices; the rest is empty.\<close>

definition slots_ok :: "GetSlot list \<Rightarrow> nat \<Rightarrow> nat \<Rightarrow> bool" where
  "slots_ok slots c n \<longleftrightarrow> length slots = 8 \<and> c \<le> n \<and> n \<le> 8 \<and>
     (\<forall>k < c. kind_from_code (gs_kind (slots ! k)) \<noteq> None \<and> unat (gs_slot_index (slots ! k)) < n
        \<and> (\<forall>j < k. gs_slot_index (slots ! j) < gs_slot_index (slots ! k))) \<and>
     (\<forall>k < 8. c \<le> k \<longrightarrow> gs_kind (slots ! k) = 0)"

fun get_header_rel :: "nat \<Rightarrow> ObjectAttributeSlot list \<times> u8 \<times> u8 \<times> bool \<Rightarrow> GetSlot list \<times> u8 \<times> u8 \<Rightarrow> bool" where
  "get_header_rel i (slots', c', flags', broken) (slots, c, flags) \<longleftrightarrow>
     slots' = map slot_of slots \<and> c' = c \<and> flags' = flags \<and> \<not> broken \<and> slots_ok slots (unat c) i
     \<and> flags AND 0xF0 = 0 \<and> flags AND 1 = 0"

lemma slots_ok_skip: "slots_ok slots c i \<Longrightarrow> i < 8 \<Longrightarrow> slots_ok slots c (Suc i)"
  by (auto simp: slots_ok_def less_Suc_eq)

lemma slots_ok_put:
  assumes ok: "slots_ok slots c i" and i: "i < 8" and k: "kind_from_code (gs_kind s) \<noteq> None"
    and s: "gs_slot_index s = of_nat i"
  shows "slots_ok (slots[c := s]) (Suc c) (Suc i)"
proof -
  have "unat (gs_slot_index s) = i" using s i by (simp add: unat_of_nat)
  then show ?thesis
    using ok i k unfolding slots_ok_def
    by (auto simp: nth_list_update less_Suc_eq word_less_nat_alt)
qed

lemma u8_small: "x < 8 \<Longrightarrow> unat (of_nat x :: u8) = x"
  by (simp add: unat_of_nat)

lemma flags_or4: "f AND 0xF0 = 0 \<Longrightarrow> f AND 1 = 0 \<Longrightarrow> (f OR 4) AND 0xF0 = 0 \<and> (f OR 4) AND 1 = 0" for f :: u8
  by (simp add: bit.conj_disj_distrib2)

lemma get_header_agree:
  assumes "i < 8" "get_header_rel i x y"
  shows "agree (get_header_rel (Suc i)) (get_header_into wb t base l i x) (get_header wb t base l i y)"
proof -
  obtain slots c flags where y: "y = (slots, c, flags)" by (metis prod.exhaust)
  with assms(2) have x: "x = (map slot_of slots, c, flags, False)" and ok: "slots_ok slots (unat c) i"
    and f: "flags AND 0xF0 = 0" "flags AND 1 = 0"
    by (cases x; auto)+
  have c: "unat c < 8" "\<not> 8 \<le> unat c" "length slots = 8" using ok assms(1) by (auto simp: slots_ok_def)
  have c1: "unat (c + 1) = Suc (unat c)" using c by (simp add: unat_word_ariths)
  have empty: "slot_of (slots ! unat c)\<lparr>sl_value_ptr := p, sl_entry_capacity := n, sl_kind := k, sl_slot_index := j\<rparr> =
      slot_of \<lparr>gs_value_ptr = p, gs_entry_capacity = n, gs_kind = k, gs_slot_index = j\<rparr>" for p n k j
    by (simp add: slot_of_def)
  have put: "slots_ok (slots[unat c := \<lparr>gs_value_ptr = p, gs_entry_capacity = n, gs_kind = safe_kind_code k,
      gs_slot_index = of_nat i\<rparr>]) (unat (c + 1)) (Suc i)" for p n k
    unfolding c1 by (rule slots_ok_put[OF ok assms(1)]) simp_all
  note skip = slots_ok_skip[OF ok assms(1)]
  show ?thesis
    unfolding x y get_header_into_def get_header_def
    by (auto simp: c map_update empty put skip f flags_or4[OF f] Let_def split: option.split
        intro!: agree_bind_same agree_return)
qed

lemma get_start_rel:
  "get_header_rel 0 (replicate 8 default_slot, 0, if b then LIST_TRUNCATED else 0, False)
     (ge_slots empty_get_state, 0, if b then LIST_TRUNCATED else 0)"
  by (simp add: empty_get_state_def default_slot_def slot_of_def slots_ok_def)

text \<open>Truncation and a header end beyond the address space exclude each other.\<close>

lemma truncated_header_end:
  assumes wb: "word_bytes_ok wb" and "table_ok base count l" "count > 8"
  shows "checked_add base (min count 8 * 3 * wb l) \<noteq> None"
proof -
  from assms(2) obtain table where "attribute_table_span count l = Some table" "validate_target_span base table l \<noteq> None"
    by (auto simp: table_ok_def split: option.splits)
  note t = this(1) this(2)[unfolded validate_target_span_iff]
  have h: "unat (3 * wb l) = 3 * unat (wb l)" "0 < unat (wb l)" "unat (wb l) \<le> 8" using wb by (cases l; simp)+
  from t(1) have tab: "unat table = unat count * (3 * unat (wb l))"
    using h(1) by (auto simp: attribute_table_span_checked[OF wb] checked_mul_def unat_word_ariths split: if_splits)
  have c: "8 < unat count" using assms(3) by (simp add: word_less_nat_alt)
  then have "9 * (3 * unat (wb l)) \<le> unat table" unfolding tab by (intro mult_le_mono1) simp
  moreover from this h have "table \<noteq> 0" by auto
  then have "unat base + unat table \<le> 2 ^ 64"
    using t(2) by (cases l) (auto simp: span_valid_def space_size_def)
  moreover have "min count 8 = 8" using assms(3) by (simp add: min_absorb2 less_imp_le)
  moreover have "unat (8 * 3 * wb l) = 8 * (3 * unat (wb l))"
    using wb by (cases l) simp_all
  ultimately show ?thesis using h(2) by (simp add: checked_add_def)
qed

fun get_entry_rel :: "ObjectStart \<Rightarrow> ObjectStart \<times> GetEntryVerdict \<Rightarrow> GetEntryState \<times> GetEntryVerdict \<Rightarrow> bool" where
  "get_entry_rel side (side', v') (st, v) \<longleftrightarrow> side' = store_get st side \<and> v' = v
     \<and> slots_ok (ge_slots st) (unat (ge_slot_count st)) (unat (ge_inspected st))
     \<and> ge_entry_flags st AND 0xF0 = 0 \<and> ge_entry_flags st AND 1 = 0"

lemma get_entry_agree:
  assumes wb: "word_bytes_ok wb"
  shows "agree (get_entry_rel side) (capture_get_entry_into wb t base count l side) (capture_get_entry wb t base count l)"
proof (cases "template_refused wb base count l")
  case True
  have "get_entry_rel side
     (side\<lparr>os_get_template_base := 0, os_inspected_header_end := 0, os_get_inspected := 0,
        os_slots := replicate 8 default_slot, os_flags := (os_flags side AND NOT GET_ENTRY_FLAGS_MASK) OR 0x800\<rparr>,
      \<lparr>gv_inspected = 0, gv_slot_count = 0, gv_entry_flags = 8\<rparr>)
     (empty_get_state\<lparr>ge_entry_flags := 8\<rparr>, \<lparr>gv_inspected = 0, gv_slot_count = 0, gv_entry_flags = 8\<rparr>)"
    by (simp add: store_get_def empty_get_state_def slot_of_def default_slot_def slots_ok_def)
  moreover have "\<not> 8 < count" if "table_ok base count l"
    using truncated_header_end[OF wb that] True that by (auto simp: template_refused_def)
  ultimately show ?thesis using True
    by (auto simp: capture_get_entry_into_def capture_get_entry_def template_refused_def table_ok_def Let_def
        split: option.splits intro!: agree_return)
next
  case False
  then obtain table e h where tab: "attribute_table_span count l = Some table" "validate_target_span base table l = Some e"
    "checked_add base (min count 8 * 3 * wb l) = Some h"
    by (auto simp: template_refused_def table_ok_def split: option.splits)
  have n: "unat (ucast (min count 8) :: u8) = slots_of count"
    using slots_of_le(1)[of count] by (simp add: slots_of_def unsigned_ucast_eq take_bit_nat_eq_self)
  have loop: "agree (get_header_rel (slots_of count))
      (for_each (get_header_into wb t base l) [0..<slots_of count] (replicate 8 default_slot, 0, if count > 8 then 2 else 0, False))
      (for_each (get_header wb t base l) [0..<slots_of count] (ge_slots empty_get_state, 0, if count > 8 then 2 else 0))"
    by (rule agree_upto) (use get_header_agree slots_of_le(2) get_start_rel in blast)+
  define f0 :: u8 where "f0 = (if count > 8 then 2 else 0)"
  show ?thesis
    unfolding capture_get_entry_into_def capture_get_entry_def Let_def f0_def[symmetric]
    by (simp add: tab slots_of_def[symmetric])
      (rule agree_bind[OF loop[folded f0_def]], auto simp: store_get_def n intro!: agree_return)
qed

end
