(* ===== verification/P11_Stream_Get.thy ===== *)
theory P11_Stream_Get
  imports P11_Stream_Refine
begin

text \<open>
  The return half of \<^verbatim>\<open>C_GetAttributeValue\<close>: on an unchanging target the streamed
  classifier, which walks the retained slots of the side row, publishes what the
  array form publishes, which walks the template indices. Both are run on the
  verdict each retained slot gets.
\<close>

section \<open>What a retained slot states at return\<close>

definition slot_index :: "GetEntryState \<Rightarrow> nat \<Rightarrow> nat" where
  "slot_index st k = unat (gs_slot_index (ge_slots st ! k))"

definition slot_kind :: "GetEntryState \<Rightarrow> nat \<Rightarrow> SafeAttributeKind" where
  "slot_kind st k = the (kind_from_code (gs_kind (ge_slots st ! k)))"

text \<open>The status and flags that close the slot, or the returned length of a slot that
  stays viable.\<close>

definition reread :: "(LinuxLayout \<Rightarrow> u64) \<Rightarrow> target \<Rightarrow> GetEntryState \<Rightarrow> LinuxLayout \<Rightarrow> nat \<Rightarrow> (u8 \<times> u32) + u64" where
  "reread wb t st l k =
     (case attribute_header_addresses wb (ge_template_base st) (of_nat (slot_index st k)) l of
        None \<Rightarrow> Inl (ATTR_INVALID_SPAN, 0)
      | Some (sel_addr, ptr_addr, len_addr) \<Rightarrow>
          (case (word_at t [] sel_addr l, word_at t [] ptr_addr l, word_at t [] len_addr l) of
             (Some sel, Some ptr, Some len) \<Rightarrow>
               (case get_verdict wb l (ge_slots st ! k) (slot_kind st k) sel ptr len of
                  Some v \<Rightarrow> Inl v
                | None \<Rightarrow> Inr len)
           | _ \<Rightarrow> Inl (ATTR_UNREADABLE, 0)))"

definition slot_spec ::
  "(LinuxLayout \<Rightarrow> u64) \<Rightarrow> target \<Rightarrow> GetEntryState \<Rightarrow> LinuxLayout \<Rightarrow> nat \<Rightarrow> nat \<Rightarrow> (u8 \<times> u8 \<times> u16) \<times> u32" where
  "slot_spec wb t st l c k =
     (let kind = safe_kind_code (slot_kind st k) in
      case reread wb t st l k of
        Inl (status, flags) \<Rightarrow> ((kind, status, 0), flags)
      | Inr len \<Rightarrow>
          if get_aliased st l c k len then ((kind, ATTR_ALIAS, 0), OBJ_ALIAS)
          else ((kind, value_view (classified_view t (slot_kind st k) (gs_value_ptr (ge_slots st ! k)) len l)), 0))"

lemma get_verdict_flags: "get_verdict wb l slot kind sel ptr len = Some (s, f) \<Longrightarrow> f = 0 \<or> f = 16"
  by (auto simp: get_verdict_def split: if_splits)

lemma get_verdict_viable:
  "get_verdict wb l slot kind sel ptr len = None \<Longrightarrow> safe_attribute_kind sel = Some kind \<and> ptr = gs_value_ptr slot"
  by (auto simp: get_verdict_def split: if_splits)

lemma reread_flags: "reread wb t st l k = Inl (s, f) \<Longrightarrow> f = 0 \<or> f = 16"
  by (auto simp: reread_def split: option.splits prod.splits dest: get_verdict_flags)

lemma slot_verdict_eq:
  assumes "sl_value_ptr slot = gs_value_ptr s" "sl_entry_capacity slot = gs_entry_capacity s"
  shows "slot_verdict wb l slot kind sel ptr len = get_verdict wb l s kind sel ptr len"
  using assms by (auto simp: slot_verdict_def get_verdict_def selector_for_kind_iff)

lemma reread_viable:
  assumes "reread wb t st l k = Inr len"
  shows "header_view wb t (ge_template_base st) l (slot_index st k)
    = Stated (slot_kind st k) (gs_value_ptr (ge_slots st ! k)) len"
  using assms
  by (auto simp: reread_def header_view_def split: option.splits prod.splits dest: get_verdict_viable)

section \<open>The streamed classifier\<close>

lemma alias_capacities_iff:
  assumes wb: "word_bytes_ok wb"
  shows "alias_capacities bpf wb k p n l i xs hit \<longleftrightarrow> hit \<or>
     (\<exists>j < length (takeWhile (\<lambda>s. slot_kind_selected (sl_kind s)) xs). i + j \<noteq> k
        \<and> alias_capacity_core p n (sl_value_ptr (xs ! j)) (sl_entry_capacity (xs ! j)) l)"
proof (induction xs arbitrary: i hit)
  case (Cons x xs)
  show ?case
  proof (cases "slot_kind_selected (sl_kind x)")
    case True
    have "(\<exists>j < Suc m. P j) \<longleftrightarrow> P 0 \<or> (\<exists>j < m. P (Suc j))" for m P
      using less_Suc_eq_0_disj by auto
    with True Cons.IH[of "Suc i"] show ?thesis by (auto simp: alias_capacity_hit_core[OF wb])
  qed simp
qed simp

definition get_state_ok :: "GetEntryState \<Rightarrow> bool" where
  "get_state_ok st \<longleftrightarrow> slots_ok (ge_slots st) (unat (ge_slot_count st)) (unat (ge_inspected st))
     \<and> ge_entry_flags st AND 0xF0 = 0 \<and> ge_entry_flags st AND 1 = 0"

lemma get_state_slot:
  assumes "get_state_ok st" "k < unat (ge_slot_count st)"
  shows "k < 8" "slot_index st k < unat (ge_inspected st)" "slot_index st k < 8"
    "kind_from_code (gs_kind (ge_slots st ! k)) = Some (slot_kind st k)"
    "gs_kind (ge_slots st ! k) = safe_kind_code (slot_kind st k)" "length (ge_slots st) = 8"
    and "j < k \<Longrightarrow> slot_index st j < slot_index st k"
  using assms by (auto simp: get_state_ok_def slots_ok_def slot_index_def slot_kind_def word_less_nat_alt kind_code_iff)

lemma get_state_bounds:
  assumes "get_state_ok st"
  shows "unat (ge_slot_count st) \<le> 8" "unat (ge_inspected st) \<le> 8" "length (ge_slots st) = 8"
    "min (ge_inspected st) 8 = ge_inspected st" "min (ge_slot_count st) 8 = ge_slot_count st"
  using assms by (auto simp: get_state_ok_def slots_ok_def min_def word_le_nat_alt)

lemma retained_prefix:
  assumes "get_state_ok st"
  shows "length (takeWhile (\<lambda>s. slot_kind_selected (sl_kind s)) (map slot_of (ge_slots st))) = unat (ge_slot_count st)"
proof -
  let ?xs = "map slot_of (ge_slots st)" and ?P = "\<lambda>s. slot_kind_selected (sl_kind s)" and ?c = "unat (ge_slot_count st)"
  have sel: "?P (?xs ! j) \<longleftrightarrow> kind_from_code (gs_kind (ge_slots st ! j)) \<noteq> None" if "j < 8" for j
    using that get_state_bounds[OF assms] by (simp add: slot_kind_selected_iff slot_of_def)
  have "takeWhile ?P ?xs = take ?c ?xs"
  proof (rule takeWhile_eq_take_P_nth)
    show "?P (?xs ! i)" if "i < ?c" for i
      using that sel[of i] get_state_slot[OF assms that] by simp
    show "\<not> ?P (?xs ! ?c)" if "?c < length ?xs"
      using that sel[of ?c] get_state_bounds[OF assms] assms
      by (auto simp: get_state_ok_def slots_ok_def kind_from_code_def)
  qed
  then show ?thesis using get_state_bounds[OF assms] by simp
qed

lemma alias_capacities_view:
  assumes wb: "word_bytes_ok wb" and ok: "get_state_ok st"
  shows "alias_capacities bpf wb k (gs_value_ptr (ge_slots st ! k)) n l 0 (map slot_of (ge_slots st))
      (spans_overlap (gs_value_ptr (ge_slots st ! k)) n (ge_template_base st)
        (saturating_sub (ge_header_end st) (ge_template_base st)))
    \<longleftrightarrow> get_aliased st l (unat (ge_slot_count st)) k n"
proof -
  have nth: "map slot_of (ge_slots st) ! j = slot_of (ge_slots st ! j)" if "j < unat (ge_slot_count st)" for j
    using get_state_slot(1)[OF ok that] get_state_bounds[OF ok] by simp
  have core: "alias_capacity_core p n a m l \<longleftrightarrow>
      a \<noteq> 0 \<and> m \<noteq> 0 \<and> validate_target_span a m l \<noteq> None \<and> spans_overlap p n a m" for p a m
    using overlap_nonzero[of p n a m l] overlap_or[of p n a m] by (simp only: alias_capacity_core_def) blast
  show ?thesis
    unfolding alias_capacities_iff[OF wb] retained_prefix[OF ok] get_aliased_def Let_def list_ex_iff
    using nth by (auto simp: core slot_of_def)
qed

lemma get_slot_done:
  fixes l :: LinuxLayout
  assumes st: "static_target t" and wb: "word_bytes_ok wb" and ok: "get_state_ok st"
    and k: "k < unat (ge_slot_count st)" and zero: "al_cells out ! slot_index st k = zero_cell"
  defines "spec \<equiv> slot_spec wb t st l (unat (ge_slot_count st)) k"
  shows "\<exists>flow. flow \<noteq> Break \<and>
    yields (classify_get_slot bpf wb t (store_get st side) (encode_get_slot_layout k l) out)
      (put_wire_cell (slot_index st k) (wire_cell (fst spec)) out, encode_get_slot_result flow (snd spec))"
proof -
  note W = yields_bind[OF yields_word[OF st]]
  note slot = get_state_slot[OF ok k]
  let ?slot = "ge_slots st ! k" and ?i = "slot_index st k"
  have side: "map slot_of (ge_slots st) ! k = slot_of ?slot" "os_slots (store_get st side) = map slot_of (ge_slots st)"
    "os_get_inspected (store_get st side) = ge_inspected st" "os_get_template_base (store_get st side) = ge_template_base st"
    "os_inspected_header_end (store_get st side) = ge_header_end st"
    using slot by (simp_all add: store_get_def)
  have "(7 :: u8) = mask 3" by (simp add: mask_eq_exp_minus_1)
  then have "unat (gs_slot_index ?slot AND 7) = ?i mod 8"
    by (simp only: take_bit_eq_mask[symmetric] unsigned_take_bit_eq slot_index_def)
      (simp add: take_bit_eq_mod)
  then have idx: "\<not> ge_inspected st \<le> gs_slot_index ?slot" "unat (gs_slot_index ?slot AND 7) = ?i"
    "ucast (gs_slot_index ?slot) = (of_nat ?i :: u64)" "min (ge_inspected st) 8 = ge_inspected st"
    using slot get_state_bounds[OF ok] by (simp_all add: slot_index_def word_le_nat_alt)
  have v: "slot_verdict wb l (slot_of ?slot) kd sel p n = get_verdict wb l ?slot kd sel p n" for kd sel p n
    by (rule slot_verdict_eq) (simp_all add: slot_of_def)
  have fields: "sl_kind (slot_of ?slot) = safe_kind_code (slot_kind st k)" "sl_slot_index (slot_of ?slot) = gs_slot_index ?slot"
    using slot by (simp_all add: slot_of_def)
  note unf = classify_get_slot_def decode_encode_get_slot_layout[OF slot(1)] Let_def prod.case side idx fields
    kind_from_safe_code option.case v
  have zk: "aw_kind zero_cell = 0" by (simp add: zero_cell_def)
  show ?thesis
  proof (cases "attribute_header_addresses wb (ge_template_base st) (of_nat ?i) l")
    case None
    have "spec = ((safe_kind_code (slot_kind st k), 9, 0), 0)"
      by (simp add: spec_def slot_spec_def reread_def None)
    then show ?thesis unfolding unf None
      by (intro exI[where x = Continue]) (simp add: wire_cell_def zero zero_cell_def idx(1))
  next
    case (Some a)
    then obtain sa pa la where A: "attribute_header_addresses wb (ge_template_base st) (of_nat ?i) l = Some (sa, pa, la)"
      by (cases a) auto
    let ?w = "\<lambda>a. word_at t [] a l"
    show ?thesis
    proof (cases "?w sa = None \<or> ?w pa = None \<or> ?w la = None")
      case True
      have "spec = ((safe_kind_code (slot_kind st k), 3, 0), 0)"
        using True by (auto simp: spec_def slot_spec_def reread_def A split: option.splits)
      then show ?thesis unfolding unf A using True
        by (intro exI[where x = Continue]) (auto simp: wire_cell_def zero zero_cell_def idx(1) split: option.splits intro!: W)
    next
      case False
      then obtain sel p n where w: "?w sa = Some sel" "?w pa = Some p" "?w la = Some n"
        by (cases "?w sa"; cases "?w pa"; cases "?w la") auto
      show ?thesis
      proof (cases "get_verdict wb l ?slot (slot_kind st k) sel p n")
        case (Some x)
        then obtain s f where g: "get_verdict wb l ?slot (slot_kind st k) sel p n = Some (s, f)" by (cases x) auto
        have "spec = ((safe_kind_code (slot_kind st k), s, 0), f)"
          by (simp add: spec_def slot_spec_def reread_def A w g)
        then show ?thesis unfolding unf A
          by (intro exI[where x = Done]) (auto simp: w g wire_cell_def zero zero_cell_def idx(1) intro!: W)
      next
        case None
        have re: "reread wb t st l k = Inr n" by (simp add: reread_def A w None)
        have p: "p = gs_value_ptr ?slot" using get_verdict_viable[OF None] by simp
        show ?thesis
        proof (cases "get_aliased st l (unat (ge_slot_count st)) k n")
          case True
          have "spec = ((safe_kind_code (slot_kind st k), 8, 0), 4)"
            by (simp add: spec_def slot_spec_def re True)
          then show ?thesis unfolding unf A
            by (intro exI[where x = Done])
              (auto simp: w None None[unfolded p] p alias_capacities_view[OF wb ok] True wire_cell_def zero zero_cell_def idx(1) intro!: W)
        next
          case False
          let ?cv = "value_view (classified_view t (slot_kind st k) (gs_value_ptr ?slot) n l)"
          obtain wv where wv: "yields (stable_cell_core wb t (ge_template_base st) (of_nat ?i) (slot_kind st k)
              (gs_value_ptr ?slot) n l) (let (s, v) = ?cv in (s, v, wv, 0))" "wv \<or> snd ?cv = 0"
            using yields_stable[OF st reread_viable[OF re]] by blast
          obtain s v where sv: "?cv = (s, v)" by fastforce
          note wv = wv[unfolded sv Let_def prod.case snd_conv]
          have "spec = ((safe_kind_code (slot_kind st k), s, v), 0)"
            by (simp add: spec_def slot_spec_def re False sv)
          then show ?thesis unfolding unf A stable_attribute_cell_def stable_cell_facts_core
            using wv(2)
            by (intro exI[where x = Done])
              (auto simp: w None None[unfolded p] p alias_capacities_view[OF wb ok] False wire_cell_def zero zero_cell_def idx(1)
                intro!: W yields_bind[OF wv(1)])
        qed
      qed
    qed
  qed
qed

definition get_cells :: "GetEntryState \<Rightarrow> (nat \<Rightarrow> (u8 \<times> u8 \<times> u16) \<times> u32) \<Rightarrow> nat \<Rightarrow> nat \<Rightarrow> u8 \<times> u8 \<times> u16" where
  "get_cells st spec m = fold (\<lambda>k f. f(slot_index st k := fst (spec k))) [0..<m] (\<lambda>_. (0, 0, 0))"

definition get_flags :: "(nat \<Rightarrow> (u8 \<times> u8 \<times> u16) \<times> u32) \<Rightarrow> nat \<Rightarrow> u32" where
  "get_flags spec m = fold (\<lambda>k a. a OR snd (spec k)) [0..<m] 0"

lemma get_cells_Suc: "get_cells st spec (Suc m) = (get_cells st spec m)(slot_index st m := fst (spec m))"
  by (simp add: get_cells_def)

lemma get_flags_Suc: "get_flags spec (Suc m) = get_flags spec m OR snd (spec m)"
  by (simp add: get_flags_def)

lemma get_cells_none: "(\<And>k. k < m \<Longrightarrow> slot_index st k \<noteq> i) \<Longrightarrow> get_cells st spec m i = (0, 0, 0)"
proof (induction m)
  case (Suc m)
  then show ?case using Suc.prems[of m] by (auto simp: get_cells_Suc)
qed (simp add: get_cells_def)

lemma get_cells_some:
  "k < m \<Longrightarrow> (\<And>j. j < m \<Longrightarrow> slot_index st j = slot_index st k \<Longrightarrow> j = k) \<Longrightarrow>
     get_cells st spec m (slot_index st k) = fst (spec k)"
proof (induction m)
  case (Suc m)
  show ?case
  proof (cases "k = m")
    case False
    then have "slot_index st m \<noteq> slot_index st k" using Suc.prems(2)[of m] by auto
    then show ?thesis using Suc False by (simp add: get_cells_Suc less_Suc_eq)
  qed (simp add: get_cells_Suc)
qed simp

lemma put_wire_view: "i < 8 \<Longrightarrow> put_wire_cell i (wire_cell c) (view_wire (f, n, fl, x)) = view_wire (f(i := c), n, fl, x)"
  by (auto simp: put_wire_cell_def view_wire_def intro!: tab_cong)

lemma slot_index_inj:
  assumes "get_state_ok st" "j < unat (ge_slot_count st)" "k < unat (ge_slot_count st)" "slot_index st j = slot_index st k"
  shows "j = k"
  using assms get_state_slot(7)[OF assms(1,2), of k] get_state_slot(7)[OF assms(1,3), of j]
  by (metis linorder_neqE_nat less_irrefl_nat)

lemma get_slots_loop:
  fixes l :: LinuxLayout
  assumes st: "static_target t" and wb: "word_bytes_ok wb" and ok: "get_state_ok st"
  defines "c \<equiv> unat (ge_slot_count st)"
  defines "spec \<equiv> slot_spec wb t st l c"
  shows "left + k = 8 \<Longrightarrow> k \<le> c \<Longrightarrow>
    yields (get_slots_into bpf wb t (store_get st side) l left k (view_wire (get_cells st spec k, n, fl, 0), get_flags spec k))
      (view_wire (get_cells st spec c, n, fl, 0), get_flags spec c)"
proof (induction left arbitrary: k)
  case 0
  then have "k = c" using get_state_bounds(1)[OF ok] by (simp add: c_def)
  then show ?case by simp
next
  case (Suc left)
  show ?case
  proof (cases "k < c")
    case True
    note slot = get_state_slot[OF ok True[unfolded c_def]]
    have z: "get_cells st spec k (slot_index st k) = (0, 0, 0)"
      by (rule get_cells_none) (use slot(7) in fastforce)
    have "al_cells (view_wire (get_cells st spec k, n, fl, 0)) ! slot_index st k = zero_cell"
      using slot(3) by (simp add: view_wire_def z)
    from get_slot_done[where l = l and bpf = bpf and side = side, OF st wb ok True[unfolded c_def] this] obtain flow
      where flow: "flow \<noteq> Break" and y: "yields (classify_get_slot bpf wb t (store_get st side) (encode_get_slot_layout k l)
          (view_wire (get_cells st spec k, n, fl, 0)))
        (view_wire (get_cells st spec (Suc k), n, fl, 0), encode_get_slot_result flow (snd (spec k)))"
      by (auto simp: put_wire_view[OF slot(3)] get_cells_Suc spec_def c_def)
    have "yields (get_slots_into bpf wb t (store_get st side) l left (Suc k)
        (view_wire (get_cells st spec (Suc k), n, fl, 0), get_flags spec (Suc k)))
      (view_wire (get_cells st spec c, n, fl, 0), get_flags spec c)"
      using Suc.IH[of "Suc k"] Suc.prems True by simp
    then show ?thesis unfolding get_slots_into.simps
      by (intro yields_bind[OF y]) (simp add: decode_encode_get_slot_result flow get_flags_Suc)
  next
    case False
    then have k: "k = c" "k < 8" using Suc.prems by simp_all
    have "gs_kind (ge_slots st ! k) = 0" using ok k by (auto simp: get_state_ok_def slots_ok_def c_def)
    then have "kind_from_code (sl_kind (os_slots (store_get st side) ! k)) = None"
      using k get_state_bounds[OF ok] by (simp add: store_get_def slot_of_def kind_from_code_def)
    then have y: "yields (classify_get_slot bpf wb t (store_get st side) (encode_get_slot_layout k l) out)
        (out, encode_get_slot_result Break 0)" for out
      by (simp add: classify_get_slot_def decode_encode_get_slot_layout[OF k(2)])
    show ?thesis unfolding get_slots_into.simps
      by (rule yields_bind[OF y]) (simp add: decode_encode_get_slot_result k)
  qed
qed

section \<open>The array form\<close>

definition ret_for :: "GetEntryState \<Rightarrow> nat \<Rightarrow> nat \<Rightarrow> nat option" where
  "ret_for st m i = find (\<lambda>k. slot_index st k = i) [0..<m]"

lemma find_snoc: "find P (xs @ [x]) = (case find P xs of None \<Rightarrow> if P x then Some x else None | Some y \<Rightarrow> Some y)"
  by (induction xs) auto

lemma fold_retained:
  assumes "\<And>k. k < m \<Longrightarrow> slot_index st k < n" "n \<le> 8"
  shows "fold (retained_slot st n) [0..<m] (tab (\<lambda>_. None)) = tab (ret_for st m)"
  using assms(1)
proof (induction m)
  case 0
  then show ?case by (simp add: ret_for_def tab_def)
next
  case (Suc m)
  then have idx: "slot_index st m < n" "slot_index st m < 8" using assms(2) by (simp, metis lessI less_le_trans)
  then show ?case using Suc
    by (auto simp: retained_slot_def Let_def slot_index_def[symmetric] ret_for_def find_snoc split: option.splits
        intro!: tab_cong)
qed

lemma ret_for_None:
  "ret_for st m i = None \<longleftrightarrow> (\<forall>k < m. slot_index st k \<noteq> i)"
  by (auto simp: ret_for_def find_None_iff)

lemma ret_for_imp: "ret_for st m i = Some k \<Longrightarrow> k < m \<and> slot_index st k = i"
  by (auto simp: ret_for_def find_Some_iff)

lemma ret_for_Some:
  assumes "get_state_ok st"
  shows "ret_for st (unat (ge_slot_count st)) i = Some k \<longleftrightarrow> k < unat (ge_slot_count st) \<and> slot_index st k = i"
proof
  assume k: "k < unat (ge_slot_count st) \<and> slot_index st k = i"
  then obtain j where j: "ret_for st (unat (ge_slot_count st)) i = Some j"
    using ret_for_None[of st "unat (ge_slot_count st)" i] by blast
  from ret_for_imp[OF j] k slot_index_inj[OF assms, of j k] j
  show "ret_for st (unat (ge_slot_count st)) i = Some k" by simp
qed (rule ret_for_imp)

definition changed_flag :: "bool \<Rightarrow> u32" where
  "changed_flag b = (if b then OBJ_CHANGED_METADATA else 0)"

lemma changed_flag_or [simp]: "changed_flag a OR changed_flag b = changed_flag (a \<or> b)"
  by (simp add: changed_flag_def)

lemma changed_flag_False [simp]: "changed_flag False = 0"
  by (simp add: changed_flag_def)

definition slot_changed :: "(LinuxLayout \<Rightarrow> u64) \<Rightarrow> target \<Rightarrow> GetEntryState \<Rightarrow> LinuxLayout \<Rightarrow> nat \<Rightarrow> bool" where
  "slot_changed wb t st l k \<longleftrightarrow> (\<exists>s. reread wb t st l k = Inl (s, 16))"

definition slot_alias :: "(LinuxLayout \<Rightarrow> u64) \<Rightarrow> target \<Rightarrow> GetEntryState \<Rightarrow> LinuxLayout \<Rightarrow> nat \<Rightarrow> nat \<Rightarrow> bool" where
  "slot_alias wb t st l c k \<longleftrightarrow> (\<exists>n. reread wb t st l k = Inr n \<and> get_aliased st l c k n)"

lemma spec_flags: "snd (slot_spec wb t st l c k) = changed_flag (slot_changed wb t st l k) OR alias_flag (slot_alias wb t st l c k)"
  by (auto simp: slot_spec_def slot_changed_def slot_alias_def changed_flag_def alias_flag_def Let_def
      split: sum.split dest: reread_flags)

lemma get_flags_ex:
  "get_flags (slot_spec wb t st l c) m = changed_flag (\<exists>k < m. slot_changed wb t st l k) OR alias_flag (\<exists>k < m. slot_alias wb t st l c k)"
proof (induction m)
  case (Suc m)
  then show ?case
    by (simp add: get_flags_Suc spec_flags Ex_less_Suc)
      (simp add: changed_flag_def alias_flag_def)
qed (simp add: get_flags_def)

text \<open>Phase 1: the re-read headers.\<close>

definition phase_cell :: "(LinuxLayout \<Rightarrow> u64) \<Rightarrow> target \<Rightarrow> GetEntryState \<Rightarrow> LinuxLayout \<Rightarrow> nat option \<Rightarrow> u8 \<times> u8 \<times> u16" where
  "phase_cell wb t st l r = (case r of None \<Rightarrow> (0, 0, 0)
     | Some k \<Rightarrow> (case reread wb t st l k of Inl (s, f) \<Rightarrow> (safe_kind_code (slot_kind st k), s, 0) | Inr n \<Rightarrow> (0, 0, 0)))"

definition phase_len :: "(LinuxLayout \<Rightarrow> u64) \<Rightarrow> target \<Rightarrow> GetEntryState \<Rightarrow> LinuxLayout \<Rightarrow> nat option \<Rightarrow> (SafeAttributeKind \<times> u64) option" where
  "phase_len wb t st l r = (case r of None \<Rightarrow> None
     | Some k \<Rightarrow> (case reread wb t st l k of Inl v \<Rightarrow> None | Inr n \<Rightarrow> Some (slot_kind st k, n)))"

definition phase_changed :: "(LinuxLayout \<Rightarrow> u64) \<Rightarrow> target \<Rightarrow> GetEntryState \<Rightarrow> LinuxLayout \<Rightarrow> nat option \<Rightarrow> bool" where
  "phase_changed wb t st l r = (case r of None \<Rightarrow> False | Some k \<Rightarrow> slot_changed wb t st l k)"

definition phase1 ::
  "(LinuxLayout \<Rightarrow> u64) \<Rightarrow> target \<Rightarrow> GetEntryState \<Rightarrow> LinuxLayout \<Rightarrow> (nat \<Rightarrow> nat option) \<Rightarrow> u8 \<Rightarrow> u8 \<Rightarrow> nat \<Rightarrow> get_phase" where
  "phase1 wb t st l R insp flags m =
     (tab (\<lambda>i. if i < m then map_option fst (phase_len wb t st l (R i)) else None),
      tab (\<lambda>i. if i < m then (case phase_len wb t st l (R i) of None \<Rightarrow> 0 | Some (k, n) \<Rightarrow> n) else 0),
      tab (\<lambda>i. i < m \<and> phase_len wb t st l (R i) \<noteq> None),
      view_outcome (\<lambda>i. if i < m then phase_cell wb t st l (R i) else (0, 0, 0), insp, flags,
        changed_flag (\<exists>i < m. phase_changed wb t st l (R i))))"

lemma yields_reread:
  assumes st: "static_target t" and ok: "get_state_ok st" and k: "k < unat (ge_slot_count st)" "slot_index st k = i"
    and R: "R ! i = Some k"
  shows "yields (get_reread wb t st l R i (kinds, returned, viable, o'))
    (case reread wb t st l k of
       Inl (s, f) \<Rightarrow> (kinds, returned, viable,
         (put_cell i (safe_kind_code (slot_kind st k)) s 0 o')\<lparr>ao_object_flags := ao_object_flags o' OR f\<rparr>)
     | Inr n \<Rightarrow> (kinds[i := Some (slot_kind st k)], returned[i := n], viable[i := True], o'))"
proof -
  note W = yields_bind[OF yields_word[OF st]]
  have id: "(put_cell i x y z o')\<lparr>ao_object_flags := ao_object_flags o'\<rparr> = put_cell i x y z o'" for x y z
    by (simp add: put_cell_def)
  note slot = get_state_slot(4,5)[OF ok k(1)]
  show ?thesis unfolding get_reread_def reread_def k(2)
    by (auto simp: R slot id Let_def split: option.split prod.split intro!: W)
qed

lemma phase_step:
  assumes st: "static_target t" and ok: "get_state_ok st" and i: "i < 8"
  defines "R \<equiv> ret_for st (unat (ge_slot_count st))"
  shows "yields (get_reread wb t st l (tab R) i (phase1 wb t st l R insp flags i)) (phase1 wb t st l R insp flags (Suc i))"
proof -
  have ext: "(\<lambda>j. if j < i then f j else d)(i := e) = (\<lambda>j. if j < Suc i then f j else d)" if "f i = e"
    for f :: "nat \<Rightarrow> 'b" and d e using that by (auto simp: fun_eq_iff less_Suc_eq)
  have same: "(\<lambda>j. if j < Suc i then f j else d) = (\<lambda>j. if j < i then f j else d)" if "f i = d"
    for f :: "nat \<Rightarrow> 'b" and d using that by (auto simp: fun_eq_iff less_Suc_eq)
  have viable: "(\<lambda>j. j < i \<and> P j)(i := True) = (\<lambda>j. j < Suc i \<and> P j)" if "P i" for P
    using that by (auto simp: fun_eq_iff less_Suc_eq)
  have unviable: "(\<lambda>j. j < Suc i \<and> P j) = (\<lambda>j. j < i \<and> P j)" if "\<not> P i" for P
    using that by (auto simp: fun_eq_iff less_Suc_eq)
  show ?thesis
  proof (cases "R i")
    case None
    then have "get_reread wb t st l (tab R) i (phase1 wb t st l R insp flags i)
        = State_Monad.return (phase1 wb t st l R insp flags i)"
      using i by (simp add: get_reread_def split: prod.split)
    moreover have "phase1 wb t st l R insp flags (Suc i) = phase1 wb t st l R insp flags i"
      unfolding phase1_def using None
      by (simp add: phase_len_def phase_cell_def phase_changed_def same unviable Ex_less_Suc)
    ultimately show ?thesis by simp
  next
    case (Some k)
    then have k: "k < unat (ge_slot_count st)" "slot_index st k = i"
      using ret_for_Some[OF ok] by (auto simp: R_def)
    have y: "yields (get_reread wb t st l (tab R) i (phase1 wb t st l R insp flags i))
      (case phase1 wb t st l R insp flags i of (kinds, returned, viable, o') \<Rightarrow> (case reread wb t st l k of
       Inl (s, f) \<Rightarrow> (kinds, returned, viable,
         (put_cell i (safe_kind_code (slot_kind st k)) s 0 o')\<lparr>ao_object_flags := ao_object_flags o' OR f\<rparr>)
     | Inr n \<Rightarrow> (kinds[i := Some (slot_kind st k)], returned[i := n], viable[i := True], o')))"
      unfolding phase1_def prod.case by (rule yields_reread[OF st ok k]) (simp add: i Some)
    also have "(case phase1 wb t st l R insp flags i of (kinds, returned, viable, o') \<Rightarrow> (case reread wb t st l k of
       Inl (s, f) \<Rightarrow> (kinds, returned, viable,
         (put_cell i (safe_kind_code (slot_kind st k)) s 0 o')\<lparr>ao_object_flags := ao_object_flags o' OR f\<rparr>)
     | Inr n \<Rightarrow> (kinds[i := Some (slot_kind st k)], returned[i := n], viable[i := True], o')))
      = phase1 wb t st l R insp flags (Suc i)"
    proof (cases "reread wb t st l k")
      case (Inl v)
      then obtain s f where v: "reread wb t st l k = Inl (s, f)" by (cases v) auto
      have f: "slot_changed wb t st l k \<longleftrightarrow> f = 16" "f = 0 \<or> f = 16"
        using reread_flags[OF v] by (auto simp: slot_changed_def v)
      then have "changed_flag a OR f = changed_flag (slot_changed wb t st l k \<or> a)" for a
        by (auto simp: changed_flag_def)
      then show ?thesis unfolding phase1_def
        by (simp add: Some v phase_len_def phase_cell_def phase_changed_def same unviable ext i Ex_less_Suc
            del: changed_flag_or)
    next
      case (Inr n)
      then show ?thesis unfolding phase1_def
        by (simp add: Some phase_len_def phase_cell_def phase_changed_def slot_changed_def same viable ext i Ex_less_Suc)
    qed
    finally show ?thesis .
  qed
qed

text \<open>Phases 2 and 3, and the whole array form.\<close>

lemma yields_get_values:
  assumes st: "static_target t" and n: "n \<le> 8"
    and V: "\<And>i. i < n \<Longrightarrow> V i \<Longrightarrow> \<exists>k m. R ! i = Some k \<and> kinds ! i = Some (kd i) \<and> returned ! i = m
      \<and> header_view wb t (ge_template_base st') l i = Stated (kd i) (gs_value_ptr (ge_slots st' ! k)) m
      \<and> vals i = (safe_kind_code (kd i), value_view (classified_view t (kd i) (gs_value_ptr (ge_slots st' ! k)) m l))"
  shows "yields (for_each (get_value wb t st' l R kinds returned (tab V)) [0..<n] (view_outcome (c, x, f, ob)))
    (view_outcome (\<lambda>i. if i < n \<and> V i then vals i else c i, x, f, ob))"
proof -
  let ?S = "\<lambda>m. view_outcome (\<lambda>i. if i < m \<and> V i then vals i else c i, x, f, ob)"
  let ?f = "get_value wb t st' l R kinds returned (tab V)"
  have "yields (?f i (?S i)) (?S (Suc i))" if i: "i < n" for i
  proof (cases "V i")
    case True
    obtain k m where h: "R ! i = Some k" "kinds ! i = Some (kd i)" "returned ! i = m"
      "header_view wb t (ge_template_base st') l i = Stated (kd i) (gs_value_ptr (ge_slots st' ! k)) m"
      "vals i = (safe_kind_code (kd i), value_view (classified_view t (kd i) (gs_value_ptr (ge_slots st' ! k)) m l))"
      using V[OF i True] by blast
    have i8: "i < 8" using i n by simp
    obtain s v where sv: "value_view (classified_view t (kd i) (gs_value_ptr (ge_slots st' ! k)) m l) = (s, v)" by fastforce
    have "(\<lambda>j. if j < i \<and> V j then vals j else c j)(i := vals i) = (\<lambda>j. if j < Suc i \<and> V j then vals j else c j)"
      using True by (auto simp: fun_eq_iff less_Suc_eq)
    with yields_value_cell[OF st h(4), of "\<lambda>sel. safe_attribute_kind sel = Some (kd i)" "?S i"] show ?thesis
      by (simp add: get_value_def True i8 h sv)
  next
    case False
    have "(\<lambda>j. if j < i \<and> V j then vals j else c j) = (\<lambda>j. if j < Suc i \<and> V j then vals j else c j)"
      using False by (auto simp: fun_eq_iff less_Suc_eq)
    then show ?thesis using False i n by (simp add: get_value_def)
  qed
  from yields_upto[of n ?f ?S, OF this] show ?thesis by simp
qed

lemma yields_get_return:
  fixes l :: LinuxLayout and wb :: "LinuxLayout \<Rightarrow> u64"
  assumes st: "static_target t" and ok: "get_state_ok st" and go: "return_accepts_get_results rv" "is_authorized authority"
  defines "c \<equiv> unat (ge_slot_count st)"
  defines "spec \<equiv> slot_spec wb t st l c"
  shows "yields (capture_get_return wb t st rv authority l)
    (view_outcome (get_cells st spec c, ge_inspected st,
       (ge_entry_flags st AND 0x0F) OR (if 0 < unat (ge_inspected st) then LIST_PRESENT else 0), get_flags spec c))"
proof -
  let ?n = "unat (ge_inspected st)" and ?insp = "ge_inspected st"
  let ?fl = "(ge_entry_flags st AND 0x0F) OR (if 0 < ?n then LIST_PRESENT else 0)"
  note b = get_state_bounds[OF ok]
  define R where "R = ret_for st c"
  have R: "R i = Some k \<longleftrightarrow> k < c \<and> slot_index st k = i" for i k
    unfolding R_def c_def by (rule ret_for_Some[OF ok])
  have idx: "slot_index st k < ?n" if "k < c" for k
    using get_state_slot(2)[OF ok] that by (simp add: c_def)
  have ret: "fold (retained_slot st ?n) [0..<c] (replicate 8 None) = tab R"
    unfolding tab_replicate R_def by (rule fold_retained) (simp_all add: idx b)
  have A: "yields (for_each (get_reread wb t st l (tab R)) [0..<?n] (phase1 wb t st l R ?insp ?fl 0)) (phase1 wb t st l R ?insp ?fl ?n)"
    unfolding R_def c_def by (rule yields_upto) (use phase_step[OF st ok] b in fastforce)
  have start: "(replicate 8 None, replicate 8 0, replicate 8 False, view_outcome (\<lambda>_. (0, 0, 0), ?insp, ?fl, 0))
      = phase1 wb t st l R ?insp ?fl 0"
    by (simp add: phase1_def tab_replicate)
  define V where "V = (\<lambda>i. i < ?n \<and> phase_len wb t st l (R i) \<noteq> None)"
  define kinds where "kinds = tab (\<lambda>i. if i < ?n then map_option fst (phase_len wb t st l (R i)) else None)"
  define lens where "lens = tab (\<lambda>i. if i < ?n then (case phase_len wb t st l (R i) of None \<Rightarrow> 0 | Some (k, n) \<Rightarrow> n) else 0)"
  define al where "al = (\<lambda>i. tab V ! i \<and> (case tab R ! i of None \<Rightarrow> False | Some k \<Rightarrow> get_aliased st l c k (lens ! i)))"
  define ch where "ch = (\<exists>i < ?n. phase_changed wb t st l (R i))"
  let ?c1 = "\<lambda>i. if i < ?n then phase_cell wb t st l (R i) else (0, 0, 0)"
  have P: "phase1 wb t st l R ?insp ?fl ?n = (kinds, lens, tab V, view_outcome (?c1, ?insp, ?fl, changed_flag ch))"
    by (simp add: phase1_def kinds_def lens_def V_def ch_def)
  define kd where "kd = (\<lambda>i. slot_kind st (the (R i)))"
  have at: "\<exists>k m. R i = Some k \<and> reread wb t st l k = Inr m \<and> kinds ! i = Some (kd i) \<and> lens ! i = m \<and> tab R ! i = Some k"
    if "i < ?n" "V i" for i
    using that b by (auto simp: V_def kinds_def lens_def kd_def phase_len_def split: option.splits sum.splits)
  have al: "al i \<longleftrightarrow> (\<exists>k. R i = Some k \<and> slot_alias wb t st l c k)" if i: "i < ?n" for i
    using at[OF i] i b by (auto simp: al_def slot_alias_def V_def phase_len_def split: option.splits sum.splits)
  let ?c2 = "\<lambda>i. if i < ?n \<and> al i then (safe_kind_code (kd i), ATTR_ALIAS, 0) else ?c1 i"
  let ?V2 = "\<lambda>i. V i \<and> \<not> (i < ?n \<and> al i)"
  have B: "fold (get_mark_alias al kinds) [0..<?n] (view_outcome (?c1, ?insp, ?fl, changed_flag ch), tab V) =
      (view_outcome (?c2, ?insp, ?fl, changed_flag ch OR alias_flag (\<exists>i < ?n. al i)), tab ?V2)"
    by (rule fold_get_mark) (use at b al_def in auto)
  define vals where "vals = (\<lambda>i. let k = the (R i) in (safe_kind_code (kd i),
      value_view (classified_view t (kd i) (gs_value_ptr (ge_slots st ! k)) (lens ! i) l)))"
  have C: "yields (for_each (get_value wb t st l (tab R) kinds lens (tab ?V2)) [0..<?n]
      (view_outcome (?c2, ?insp, ?fl, changed_flag ch OR alias_flag (\<exists>i < ?n. al i))))
    (view_outcome (\<lambda>i. if i < ?n \<and> ?V2 i then vals i else ?c2 i, ?insp, ?fl, changed_flag ch OR alias_flag (\<exists>i < ?n. al i)))"
  proof (rule yields_get_values[OF st b(2), where kd = kd])
    fix i assume i: "i < ?n" "?V2 i"
    then obtain k m where h: "R i = Some k" "reread wb t st l k = Inr m" "kinds ! i = Some (kd i)" "lens ! i = m" "tab R ! i = Some k"
      using at by blast
    then show "\<exists>k m. tab R ! i = Some k \<and> kinds ! i = Some (kd i) \<and> lens ! i = m
      \<and> header_view wb t (ge_template_base st) l i = Stated (kd i) (gs_value_ptr (ge_slots st ! k)) m
      \<and> vals i = (safe_kind_code (kd i), value_view (classified_view t (kd i) (gs_value_ptr (ge_slots st ! k)) m l))"
      using reread_viable[OF h(2)] R[of i k] by (auto simp: kd_def vals_def)
  qed
  have cells: "(\<lambda>i. if i < ?n \<and> ?V2 i then vals i else ?c2 i) = get_cells st spec c"
  proof
    fix i
    show "(if i < ?n \<and> ?V2 i then vals i else ?c2 i) = get_cells st spec c i"
    proof (cases "R i")
      case None
      have "get_cells st spec c i = (0, 0, 0)"
        by (rule get_cells_none) (use R[of i] None in auto)
      moreover have "\<not> V i" by (simp add: V_def phase_len_def None)
      ultimately show ?thesis using al[of i] None by (auto simp: phase_cell_def)
    next
      case (Some k)
      then have k: "k < c" "slot_index st k = i" using R by auto
      have i: "i < ?n" using idx[OF k(1)] k(2) by simp
      have "get_cells st spec c i = fst (spec k)"
        using get_cells_some[of k c st spec] k slot_index_inj[OF ok] by (auto simp: c_def)
      moreover have "al i \<longleftrightarrow> slot_alias wb t st l c k" using al[OF i] Some by simp
      ultimately show ?thesis using i Some at[OF i]
        by (auto simp: spec_def slot_spec_def slot_alias_def V_def phase_len_def phase_cell_def vals_def kd_def Let_def
            split: sum.splits)
    qed
  qed
  have flags: "changed_flag ch OR alias_flag (\<exists>i < ?n. al i) = get_flags spec c"
  proof -
    have "ch \<longleftrightarrow> (\<exists>k < c. slot_changed wb t st l k)"
      unfolding ch_def phase_changed_def using R idx by (auto split: option.splits) (metis option.inject)+
    moreover have "(\<exists>i < ?n. al i) \<longleftrightarrow> (\<exists>k < c. slot_alias wb t st l c k)"
      using al R idx by metis
    ultimately show ?thesis unfolding spec_def get_flags_ex by simp
  qed
  have out: "empty_outcome\<lparr>ao_inspected := ?insp, ao_flags := ?fl\<rparr> = view_outcome (\<lambda>_. (0, 0, 0), ?insp, ?fl, 0)"
    by (simp add: empty_outcome_view outcome_update_view)
  have run: "capture_get_return wb t st rv authority l = do {
      (kinds, returned, viable, o') \<leftarrow> for_each (get_reread wb t st l (tab R)) [0..<?n] (phase1 wb t st l R ?insp ?fl 0);
      let aliased = (\<lambda>i. viable ! i \<and> (case tab R ! i of
            None \<Rightarrow> False | Some k \<Rightarrow> get_aliased st l c k (returned ! i)));
      let (o', viable) = fold (get_mark_alias aliased kinds) [0..<?n] (o', viable);
      for_each (get_value wb t st l (tab R) kinds returned viable) [0..<?n] o' }"
    unfolding capture_get_return_def b Let_def c_def[symmetric] ret out start using go by simp
  show ?thesis unfolding run
    by (rule yields_bind[OF A], simp only: P prod.case Let_def al_def[symmetric] B cells[symmetric] flags[symmetric] C)
qed

section \<open>The streamed form refines the array form\<close>

lemma bit_0xF00: "bit (0xF00 :: u16) n \<longleftrightarrow> 8 \<le> n \<and> n < 12"
proof -
  have e: "(0xF00 :: u16) = push_bit 8 (mask 4)" by (simp add: mask_eq_exp_minus_1)
  show ?thesis unfolding e by (auto simp: bit_push_bit_iff bit_mask_iff simp del: mask_numeral push_bit_numeral)
qed

lemma bit_not_0xF00: "8 \<le> n \<Longrightarrow> n < 12 \<Longrightarrow> \<not> bit (- 3841 :: u16) n"
proof -
  assume n: "8 \<le> n" "n < 12"
  have e: "(- 3841 :: u16) = NOT 0xF00" by simp
  show ?thesis unfolding e by (simp only: bit_not_iff bit_0xF00 n simp_thms)
qed

lemma bit_0x0F: "bit (0x0F :: u8) n \<longleftrightarrow> n < 4"
proof -
  have e: "(0x0F :: u8) = mask 4" by (simp add: mask_eq_exp_minus_1)
  show ?thesis unfolding e by (auto simp: bit_mask_iff simp del: mask_numeral)
qed

lemma store_get_flags:
  assumes "get_state_ok st"
  shows "os_flags (store_get st side) AND GET_ENTRY_UNINSPECTED = 0"
    "(ucast (drop_bit 8 (os_flags (store_get st side) AND GET_ENTRY_FLAGS_MASK)) :: u8) = ge_entry_flags st AND 0x0F"
proof -
  let ?f = "ge_entry_flags st"
  have "?f AND 1 = 0" using assms by (simp add: get_state_ok_def)
  then have "\<not> bit ?f 0" by (simp add: and_one_eq bit_0 even_iff_mod_2_eq_zero)
  then have "\<not> bit (os_flags (store_get st side)) 8"
    by (simp add: store_get_def bit_and_iff bit_or_iff bit_not_iff bit_push_bit_iff bit_ucast_iff bit_0xF00
        del: push_bit_numeral)
  moreover have "(0x100 :: u16) = 2 ^ 8" by simp
  ultimately show "os_flags (store_get st side) AND GET_ENTRY_UNINSPECTED = 0"
    by (simp only: and_exp_eq_0_iff_not_bit not_False_eq_True)
  show "(ucast (drop_bit 8 (os_flags (store_get st side) AND GET_ENTRY_FLAGS_MASK)) :: u8) = ?f AND 0x0F"
  proof (rule bit_word_eqI)
    fix n assume n: "n < LENGTH(8)"
    have a: "bit (ucast (drop_bit 8 (X AND GET_ENTRY_FLAGS_MASK)) :: u8) n \<longleftrightarrow> n < 4 \<and> bit X (8 + n)" for X :: u16
      using n by (simp only: bit_ucast_iff bit_drop_bit_eq o_def bit_and_iff bit_0xF00) auto
    have b: "bit (os_flags (store_get st side)) (8 + n) \<longleftrightarrow> bit ?f n" if "n < 4"
      using that bit_not_0xF00[of "8 + n"]
      by (simp add: store_get_def bit_and_iff bit_or_iff bit_push_bit_iff bit_ucast_iff
        del: push_bit_numeral)
    show "bit (ucast (drop_bit 8 (os_flags (store_get st side) AND GET_ENTRY_FLAGS_MASK)) :: u8) n
        \<longleftrightarrow> bit (?f AND 0x0F) n"
      unfolding a bit_and_iff bit_0x0F using b by blast
  qed
qed

lemma get_return_refines:
  assumes st: "static_target t" and wb: "word_bytes_ok wb" and ok: "get_state_ok st"
  shows "fst (run_state (capture_get_return_into bpf wb t (store_get st side) rv authority l out) log) =
    (let o' = fst (run_state (capture_get_return wb t st rv authority l) log') in (outcome_to_wire o', ao_object_flags o'))"
proof (cases "return_accepts_get_results rv \<and> is_authorized authority")
  case False
  then show ?thesis
    by (auto simp: capture_get_return_into_def capture_get_return_def clear_attribute_list_zero empty_outcome_view
        view_outcome_wire view_wire_def Let_def)
next
  case True
  let ?c = "unat (ge_slot_count st)" and ?n = "ge_inspected st"
  let ?spec = "slot_spec wb t st l ?c"
  let ?fl = "(ge_entry_flags st AND 0x0F) OR (if 0 < unat ?n then LIST_PRESENT else 0)"
  let ?v = "(get_cells st ?spec ?c, ?n, ?fl, get_flags ?spec ?c)"
  have arr: "fst (run_state (capture_get_return wb t st rv authority l) log') = view_outcome ?v"
    by (rule yields_run, rule yields_get_return[OF st ok]) (use True in simp_all)
  have pos: "0 < unat ?n \<longleftrightarrow> ?n > 0" by (simp add: unat_gt_0 word_gt_0)
  have start: "(view_wire (get_cells st ?spec 0, ?n, ?fl, 0), get_flags ?spec 0) =
     (\<lparr>al_cells = tab (\<lambda>_. zero_cell), al_inspected = ?n, al_flags = ?fl, al_reserved = 0\<rparr>, 0)"
    by (simp add: view_wire_def get_cells_def get_flags_def)
  have "capture_get_return_into bpf wb t (store_get st side) rv authority l out =
     get_slots_into bpf wb t (store_get st side) l 8 0 (view_wire (get_cells st ?spec 0, ?n, ?fl, 0), get_flags ?spec 0)"
    unfolding capture_get_return_into_def clear_attribute_list_zero Let_def pos start[unfolded pos]
    using True store_get_flags[OF ok, of side] get_state_bounds[OF ok] by (simp add: store_get_def)
  then have "yields (capture_get_return_into bpf wb t (store_get st side) rv authority l out)
      (view_wire (get_cells st ?spec ?c, ?n, ?fl, 0), get_flags ?spec ?c)"
    using get_slots_loop[OF st wb ok, of 8 0 bpf side l ?n ?fl] by simp
  then show ?thesis unfolding arr Let_def view_outcome_wire
    by (simp add: yields_run view_wire_def view_outcome_def)
qed

section \<open>Properties of the streamed walkers\<close>

text \<open>C23: On a target whose memory does not change during the walk, the streamed
  creation-template walker of the BPF target, through all its packed subprogram
  boundaries, publishes exactly the attribute list and the object flags of the
  array form, whatever the template, its count, its peer and the row it overwrites.\<close>

theorem streamed_template_refines:
  assumes "static_target t"
  shows "fst (run_state (inspect_request_template_into bpf wb t base count peer l out) log) =
    (let o' = fst (run_state (inspect_request_template wb t base count peer l) log') in
     (outcome_to_wire o', ao_object_flags o'))"
proof -
  have "ao_object_flags (view_outcome v) = snd (snd (snd v))" for v by (cases v) (simp add: view_outcome_def)
  then show ?thesis
    using yields_run[OF yields_template_into[OF assms]] yields_run[OF yields_template[OF assms]]
    by (simp add: view_outcome_wire Let_def)
qed

text \<open>C24: The streamed \<^verbatim>\<open>C_GetAttributeValue\<close> protocol refines the array protocol: the
  entry capture makes the same accesses on any target, moving or not, and the
  return classification of the side row it leaves publishes, on memory that does
  not change during the return, the list and the flags the array form publishes
  from its own entry state.\<close>

theorem streamed_get_refines:
  assumes "word_bytes_ok wb" "static_target t'"
    and "run_state (capture_get_entry_into wb t base count l side) log = ((side', verdict'), log1)"
    and "run_state (capture_get_entry wb t base count l) log = ((st, verdict), log2)"
  shows "log1 = log2 \<and> verdict' = verdict \<and>
    fst (run_state (capture_get_return_into bpf wb t' side' rv authority l out) log3) =
      (let o' = fst (run_state (capture_get_return wb t' st rv authority l) log4) in
       (outcome_to_wire o', ao_object_flags o'))"
proof -
  have r: "log1 = log2" "get_entry_rel side (side', verdict') (st, verdict)"
    using agreeD[OF get_entry_agree[OF assms(1)] assms(3,4)] by auto
  then have "side' = store_get st side" "verdict' = verdict" "get_state_ok st"
    by (auto simp: get_state_ok_def)
  with r(1) get_return_refines[OF assms(2,1)] show ?thesis by simp
qed

text \<open>A process whose template at \<^verbatim>\<open>0x1000\<close> asks for one \<^verbatim>\<open>CKA_TOKEN\<close> byte at
  \<^verbatim>\<open>0x2000\<close>.\<close>

definition token_target :: target where
  "token_target =
     \<lparr>word_at = (\<lambda>log a l. if a = 0x1000 then Some 1 else if a = 0x1008 then Some 0x2000
        else if a = 0x1010 then Some 1 else None),
      byte_at = (\<lambda>log a n. Some (\<lambda>_. 1)), arg_at = (\<lambda>log i. None)\<rparr>"

lemma token_target_static: "static_target token_target"
  by (simp add: static_target_def token_target_def)

theorem streamed_template_refines_witness:
  "static_target token_target \<and>
   fst (run_state (inspect_request_template_into True word_bytes_std token_target 0x1000 1 None Lp64 zero_list) []) =
    (let o' = fst (run_state (inspect_request_template word_bytes_std token_target 0x1000 1 None Lp64) []) in
     (outcome_to_wire o', ao_object_flags o'))"
  using streamed_template_refines[OF token_target_static] token_target_static by simp

definition empty_row :: ObjectStart where
  "empty_row =
     \<lparr>os_image = \<lparr>task_cookie = 0, exec_id = 0\<rparr>, os_entry_ns = 0, os_descriptor_index = 0, os_layout = 0, os_action = 0,
      os_derive = 0, os_phase = 0, os_inputs = [0, 0], os_result_ptrs = [0, 0], os_get_template_base = 0,
      os_inspected_header_end = 0, os_find_capacity = 0, os_find_count_ptr = 0, os_slots = replicate 8 default_slot,
      os_requested = [zero_list, zero_list], os_input_statuses = [0, 0], os_result_statuses = [0, 0], os_flags = 0,
      os_get_inspected = 0\<rparr>"

theorem streamed_get_refines_witness:
  "\<exists>side' verdict' log1 st verdict log2.
     run_state (capture_get_entry_into word_bytes_std token_target 0x1000 1 Lp64 empty_row) [] = ((side', verdict'), log1) \<and>
     run_state (capture_get_entry word_bytes_std token_target 0x1000 1 Lp64) [] = ((st, verdict), log2) \<and>
     verdict' = verdict \<and>
     fst (run_state (capture_get_return_into True word_bytes_std token_target side' CKR_OK AUTHORIZED Lp64 zero_list) []) =
      (let o' = fst (run_state (capture_get_return word_bytes_std token_target st CKR_OK AUTHORIZED Lp64) []) in
       (outcome_to_wire o', ao_object_flags o'))"
proof -
  obtain side' verdict' log1 st verdict log2 where r:
    "run_state (capture_get_entry_into word_bytes_std token_target 0x1000 1 Lp64 empty_row) [] = ((side', verdict'), log1)"
    "run_state (capture_get_entry word_bytes_std token_target 0x1000 1 Lp64) [] = ((st, verdict), log2)"
    by (metis prod.exhaust)
  show ?thesis
    using streamed_get_refines[OF word_bytes_std_ok token_target_static r] r by blast
qed

end
