(* ===== verification/P11_Flow_Safety.thy ===== *)
theory P11_Flow_Safety
  imports P11_Flow P11_Stream_Get
begin

text \<open>
  What the object adapters guarantee. The return gate is an exact code; the
  unrolled fill and the streamed Find emission are the capture cores of
  \<^verbatim>\<open>object_capture.rs\<close>; every list and handle an adapter stores satisfies the
  consumer's contract, so the tail of a completed chain is accepted by
  \<^verbatim>\<open>validate_object_tail\<close>.
\<close>

section \<open>The return gate\<close>

lemma decode_encode_return_gate: "decode_return_gate (encode_return_gate l j) = Some (l, j)"
  by (cases l; cases j) (simp_all add: decode_return_gate_def encode_return_gate_def)

lemma masked: "a AND NOT m = 0 \<longleftrightarrow> a AND m = a" for a m :: "'a::len word"
  unfolding bit_eq_iff by (auto simp: bit_and_iff bit_not_iff)

lemma encode_decode_return_gate:
  assumes "decode_return_gate g = Some (l, j)"
  shows "encode_return_gate l j = g"
proof -
  have "g AND NOT 7 = 0" using assms unfolding decode_return_gate_def by (metis option.distinct(1))
  then have m: "g AND 7 = g" by (simp only: masked)
  have "g AND 7 \<le> 7" by (rule word_and_le1)
  then have "unat g \<le> 7" unfolding m by (simp add: word_le_nat_alt)
  moreover have "g = of_nat (unat g)" by simp
  ultimately obtain n :: nat where n: "g = of_nat n" "n \<le> 7" by metis
  then have "n \<in> {0, 1, 2, 3, 4, 5, 6, 7}" by auto
  then have "g \<in> {0, 1, 2, 3, 4, 5, 6, 7}" unfolding n(1) by auto
  then show ?thesis using assms by (auto simp: decode_return_gate_def encode_return_gate_def split: if_splits)
qed

interpretation return_gate_code: exact_codec "\<lambda>(l, j). Some (encode_return_gate l j)" decode_return_gate
  by unfold_locales (auto simp: decode_encode_return_gate dest: encode_decode_return_gate)

section \<open>The unrolled bodies are the capture cores\<close>

lemma slot_word_eq: "slot_word t ptr l = do { word \<leftarrow> read_word t ptr l; State_Monad.return (handle_of_word l word) }"
  by (simp add: slot_word_def handle_of_word_def)

lemma fill_words_eq:
  "fill_words wb t g0 g1 p0 p1 l s0 s1 flags =
     (let (readable0, s0) = result_span g0 p0 l s0; (readable1, s1) = result_span g1 p1 l s1; w = wb l in
      if readable0 \<and> readable1 \<and> spans_overlap p0 w p1 w
      then State_Monad.return ([HANDLE_ALIAS, HANDLE_ALIAS], [0, 0], flags OR OBJ_ALIAS)
      else do {
        (s0, w0) \<leftarrow> result_word t readable0 p0 l s0;
        (s1, w1) \<leftarrow> result_word t readable1 p1 l s1;
        let duplicate = s0 = HANDLE_VALUE \<and> s1 = HANDLE_VALUE \<and> w0 = w1;
        let (s0, s1, w0, w1) = (if duplicate then (HANDLE_DUPLICATE, HANDLE_DUPLICATE, 0, 0) else (s0, s1, w0, w1));
        let flags = (if duplicate then flags OR OBJ_DUPLICATE_RESULT else flags);
        let flags = (if g0 \<and> g1 \<and> ((s0 = HANDLE_VALUE) \<noteq> (s1 = HANDLE_VALUE))
                     then flags OR OBJ_PARTIAL_RESULT else flags);
        State_Monad.return ([s0, s1], [w0, w1], flags) })"
proof -
  have one: "((if a then 1 else 0) + (if b then 1 else 0) = (1 :: u32)) = (a \<noteq> b)" for a b by (cases a; cases b) simp_all
  have span: "(if g then (let (ok, span) = slot_span p l in (ok, if ok then s else span)) else (False, s)) = result_span g p l s"
    for g p s by (simp add: slot_span_def result_span_def Let_def)
  have word: "(if r then slot_word t p l else State_Monad.return (s, 0)) = result_word t r p l s" for r p s
    by (simp add: slot_word_eq result_word_def)
  obtain r0 z0 r1 z1 where r: "result_span g0 p0 l s0 = (r0, z0)" "result_span g1 p1 l s1 = (r1, z1)"
    by (metis prod.exhaust)
  show ?thesis unfolding fill_words_def one span word r unfolding Let_def prod.case
    by (auto intro!: arg_cong2[where f = State_Monad.bind] ext split: prod.split)
qed

lemma fill_handles_eq:
  "fill_handles wb t row derive_ok ptrs rv l = do {
     (v, words) \<leftarrow> capture_return_handles wb t
        (map (\<lambda>i. od_result_args row ! i \<noteq> ARG_NONE) [0, 1])
        (replicate 2 (od_action row = OBJECT_ACTION_DERIVE \<longrightarrow> derive_ok)) ptrs rv AUTHORIZED l;
     State_Monad.return (rh_statuses v, words, rh_object_flags v) }"
proof -
  let ?ok = "od_action row = OBJECT_ACTION_DERIVE \<longrightarrow> derive_ok"
  show ?thesis
    unfolding fill_handles_def capture_return_handles_def fill_words_eq
    by (cases ?ok; cases "od_result_args row ! 0 = ARG_NONE"; cases "od_result_args row ! 1 = ARG_NONE")
      (auto simp: slot_gate_def result_gate_def Let_def AUTHORIZED_def is_authorized_def
        intro!: arg_cong2[where f = State_Monad.bind] ext split: prod.split if_split)
qed

definition put_find :: "FindVerdict \<Rightarrow> u64 list \<Rightarrow> ObjectCallWire \<Rightarrow> ObjectCallWire" where
  "put_find v words w = w\<lparr>oc_find_handles := words, oc_find_status := fv_statuses v, oc_find_len := fv_len v,
     oc_find_flags := fv_flags v, oc_find_valid := (if fv_valid v then 1 else 0)\<rparr>"

fun find_rel :: "ObjectCallWire \<Rightarrow> (ObjectCallWire \<times> u8) \<times> bool \<Rightarrow> (u8 list \<times> u64 list \<times> u8) option \<Rightarrow> bool" where
  "find_rel w ((w', f), complete) None \<longleftrightarrow> \<not> complete \<and> zero_find_cells w' = zero_find_cells w"
| "find_rel w ((w', f), complete) (Some (ss, ws, f')) \<longleftrightarrow>
     complete \<and> f = f' \<and> w' = w\<lparr>oc_find_handles := ws, oc_find_status := ss\<rparr>"

abbreviation word_shift :: "LinuxLayout \<Rightarrow> nat" where
  "word_shift l \<equiv> (case l of Lp64 \<Rightarrow> 3 | Ilp32 \<Rightarrow> 2)"

lemma push_word_shift: "word_bytes_ok wb \<Longrightarrow> push_bit (word_shift l) w = w * wb l"
  by (cases l) (simp_all add: push_bit_eq_mult)

lemma find_stream_agree:
  assumes wb: "word_bytes_ok wb"
  shows "length ws = 8 \<Longrightarrow> (\<And>k. i \<le> k \<Longrightarrow> k < 8 \<Longrightarrow> ws ! k = 0) \<Longrightarrow>
    agree (find_rel w) (find_stream t a (word_shift l) l n i (w\<lparr>oc_find_handles := ws, oc_find_status := ss\<rparr>, f))
      (find_elements t a (wb l) l n i (ss, ws, f))"
proof (induction n arbitrary: i ss ws f)
  case 0
  then show ?case by (auto intro!: agree_return)
next
  case (Suc n)
  have same: "ws[i := 0] = ws"
    using Suc.prems by (cases "i < 8") (auto simp: list_update_same_conv list_update_beyond)
  let ?w = "w\<lparr>oc_find_handles := ws, oc_find_status := ss\<rparr>"
  have swap: "w\<lparr>oc_find_status := x, oc_find_handles := y\<rparr> = w\<lparr>oc_find_handles := y, oc_find_status := x\<rparr>" for x y
    by simp
  have step: "agree (find_rel w)
      (find_stream t a (word_shift l) l n (Suc i) (w\<lparr>oc_find_handles := ws', oc_find_status := ss'\<rparr>, f'))
      (find_elements t a (wb l) l n (Suc i) (ss', ws', f'))"
    if "ws' = ws \<or> (\<exists>x. ws' = ws[i := x])" for ss' ws' f'
    by (rule Suc.IH) (use that Suc.prems in \<open>auto simp: nth_list_update\<close>)
  show ?case
  proof (cases "checked_add a (of_nat i * wb l)")
    case None
    then show ?thesis by (auto simp: push_word_shift[OF wb] zero_find_cells_def intro!: agree_return)
  next
    case (Some addr)
    show ?thesis
      unfolding find_stream.simps find_elements.simps push_word_shift[OF wb] Some option.case Let_def
    proof (rule agree_bind_same)
      fix word
      show "agree (find_rel w)
        (find_stream t a (word_shift l) l n (Suc i)
          (case word of
             None \<Rightarrow> (?w\<lparr>oc_find_status := (oc_find_status ?w)[i := HANDLE_UNREADABLE]\<rparr>, f OR FIND_UNREADABLE_ELEMENT)
           | Some word \<Rightarrow>
               if word = 0 then (?w\<lparr>oc_find_status := (oc_find_status ?w)[i := HANDLE_INVALID_ZERO]\<rparr>, f)
               else if l = Ilp32 \<and> word > 0xFFFFFFFF
                    then (?w\<lparr>oc_find_status := (oc_find_status ?w)[i := HANDLE_INVALID_SPAN]\<rparr>, f)
               else (?w\<lparr>oc_find_status := (oc_find_status ?w)[i := HANDLE_VALUE],
                        oc_find_handles := (oc_find_handles ?w)[i := word]\<rparr>, f)))
        (case handle_of_word l word of (status, handle) \<Rightarrow>
           find_elements t a (wb l) l n (Suc i) (ss[i := status], ws[i := handle],
             if word = None then f OR FIND_UNREADABLE_ELEMENT else f))"
        using step by (auto simp: handle_of_word_def same swap split: option.split)
    qed
  qed
qed

lemma fresh_update:
  "no_find w \<Longrightarrow> put_find (fst (find_refused f)) (snd (find_refused f)) w = w\<lparr>oc_find_flags := f\<rparr>"
  "no_find w \<Longrightarrow> zero_find_cells w = w"
  "no_find w \<Longrightarrow> w\<lparr>oc_find_handles := replicate 8 0, oc_find_status := replicate 8 HANDLE_ABSENT\<rparr> = w"
  by (simp_all add: no_find_def put_find_def find_refused_def zero_find_cells_def)

lemma checked_mul_word_shift:
  assumes "word_bytes_ok wb"
  shows "checked_mul count (wb l) =
    (if count > drop_bit (word_shift l) (- 1) then None else Some (push_bit (word_shift l) count))"
proof -
  let ?s = "word_shift l"
  have w: "unat (wb l) = 2 ^ ?s" using assms by (cases l) simp_all
  have d: "unat (drop_bit ?s (- 1 :: u64)) = (2 ^ 64 - 1) div 2 ^ ?s"
    by (cases l) (simp_all add: drop_bit_eq_div unat_div_distrib)
  have "unat count * 2 ^ ?s < 2 ^ 64 \<longleftrightarrow> unat count \<le> (2 ^ 64 - 1) div 2 ^ ?s"
    by (cases l) (simp_all, linarith+)
  then show ?thesis
    unfolding checked_mul_def push_word_shift[OF assms] w word_less_nat_alt d by auto
qed

lemma put_refused:
  assumes "no_find w"
  shows "(case find_refused f of (v, words) \<Rightarrow> State_Monad.return (put_find v words w))
    = State_Monad.return (w\<lparr>oc_find_flags := f\<rparr>)"
  using fresh_update(1)[OF assms] by (simp add: case_prod_beta)

lemma find_confirmed_eq:
  assumes w: "no_find w" and xy: "find_rel w ((tail, flags), complete) y"
  shows "(if \<not> complete then State_Monad.return ((zero_find_cells tail)\<lparr>oc_find_flags := FIND_INVALID_SPAN\<rparr>)
      else do {
        again \<leftarrow> read_word t count_ptr l;
        if again = Some count
        then State_Monad.return (tail\<lparr>oc_find_len := ucast (min count 8), oc_find_flags := flags, oc_find_valid := 1\<rparr>)
        else State_Monad.return ((zero_find_cells tail)\<lparr>oc_find_flags := FIND_CHANGED_COUNT\<rparr>) })
    = do { (v, words) \<leftarrow> find_confirmed t count_ptr l count y; State_Monad.return (put_find v words w) }"
proof (cases y)
  case None
  with xy show ?thesis by (simp add: find_confirmed_def case_prod_beta fresh_update[OF w])
next
  case (Some r)
  obtain ss ws f where r: "r = (ss, ws, f)" by (metis prod.exhaust)
  have tail: "complete" "flags = f" "tail = w\<lparr>oc_find_handles := ws, oc_find_status := ss\<rparr>"
    using xy unfolding Some r by auto
  then have z: "zero_find_cells tail = w" using w by (simp add: zero_find_cells_def no_find_def)
  show ?thesis unfolding Some r find_confirmed_def option.case prod.case State_Monad.bind_assoc State_Monad.bind_left_identity
  proof (simp add: tail(1), intro arg_cong2[where f = State_Monad.bind] ext refl)
    fix again
    show "(if again = Some count
        then State_Monad.return (tail\<lparr>oc_find_len := ucast (min count 8), oc_find_flags := flags, oc_find_valid := 1\<rparr>)
        else State_Monad.return ((zero_find_cells tail)\<lparr>oc_find_flags := FIND_CHANGED_COUNT\<rparr>))
      = (case if again = Some count
          then (\<lparr>fv_statuses = ss, fv_len = ucast (min count 8), fv_valid = True, fv_flags = f, fv_result_cell = (7, 0)\<rparr>, ws)
          else find_refused 2 of (v, words) \<Rightarrow> State_Monad.return (put_find v words w))"
      by (simp add: z fresh_update(1)[OF w] case_prod_beta) (simp add: put_find_def tail)
  qed
qed

lemma emit_find_section_eq:
  assumes wb: "word_bytes_ok wb" and w: "no_find w"
  shows "emit_find_section t s l count w = do {
     (v, words) \<leftarrow> find_counted wb t (os_result_ptrs s ! 0) (os_find_capacity s) (os_find_count_ptr s) l count;
     State_Monad.return (put_find v words w) }"
proof -
  have n: "(if count > 8 then 8 else count) = min count 8" by (auto simp: min_def)
  have one: "push_bit (word_shift l) 1 = wb l" by (simp only: push_word_shift[OF wb] mult_1)
  let ?f = "if count > 8 then FIND_TRUNCATED else 0" and ?a = "os_result_ptrs s ! 0"
  have stream: "agree (find_rel w) (find_stream t ?a (word_shift l) l (unat (min count 8)) 0 (w, ?f))
      (find_elements t ?a (wb l) l (unat (min count 8)) 0 (replicate 8 0, replicate 8 0, ?f))"
    using find_stream_agree[OF wb, of "replicate 8 0" 0 w t ?a l "unat (min count 8)" "replicate 8 0" ?f]
    by (simp add: fresh_update(3)[OF w])
  have body: "State_Monad.bind (find_stream t ?a (word_shift l) l (unat (min count 8)) 0 (w, ?f))
      (\<lambda>((tail, flags), complete).
        if \<not> complete then State_Monad.return ((zero_find_cells tail)\<lparr>oc_find_flags := FIND_INVALID_SPAN\<rparr>)
        else do {
          again \<leftarrow> read_word t (os_find_count_ptr s) l;
          if again = Some count
          then State_Monad.return (tail\<lparr>oc_find_len := ucast (min count 8), oc_find_flags := flags, oc_find_valid := 1\<rparr>)
          else State_Monad.return ((zero_find_cells tail)\<lparr>oc_find_flags := FIND_CHANGED_COUNT\<rparr>) })
     = State_Monad.bind (find_elements t ?a (wb l) l (unat (min count 8)) 0 (replicate 8 0, replicate 8 0, ?f))
        (\<lambda>y. do { (v, words) \<leftarrow> find_confirmed t (os_find_count_ptr s) l count y; State_Monad.return (put_find v words w) })"
    unfolding agree_eq[symmetric]
  proof (rule agree_bind[OF stream], goal_cases)
    case (1 x y)
    obtain tail flags complete where x: "x = ((tail, flags), complete)" by (metis prod.exhaust)
    show ?case using find_confirmed_eq[OF w 1[unfolded x]] unfolding x agree_eq prod.case .
  qed
  show ?thesis
    unfolding emit_find_section_def find_counted_def checked_mul_word_shift[OF wb] Let_def n one
    using body by (auto simp: put_refused[OF w])
qed

lemma adapter_emit_find_eq:
  assumes wb: "word_bytes_ok wb" and w: "no_find w"
    and s: "os_phase s = 3" "os_descriptor_index s = d" "od_function r = d - 1" "od_action r = OBJECT_ACTION_FIND"
  shows "adapter_emit_find t (Some w) (Some s) d (Some r) l rv True = do {
     (v, words) \<leftarrow> capture_find_return wb t (os_result_ptrs s ! 0) (os_find_capacity s) (os_find_count_ptr s) rv AUTHORIZED l;
     State_Monad.return (Some (put_find v words w), True) }"
proof -
  have "w\<lparr>oc_find_flags := 0\<rparr> = w" using w by (simp add: no_find_def)
  then show ?thesis
    by (auto simp: adapter_emit_find_def capture_find_return_def s AUTHORIZED_def is_authorized_def
        emit_find_section_eq[OF wb w] case_prod_beta fresh_update(1)[OF w]
        intro!: arg_cong2[where f = State_Monad.bind] ext split: option.split)
qed

section \<open>Every list the walkers leave satisfies the contract\<close>

lemma or_masked: "a AND m = a \<Longrightarrow> b AND m = b \<Longrightarrow> (a OR b) AND m = a OR b" for a b m :: "'a::len word"
  by (simp add: bit.conj_disj_distrib2)

lemma masked_mono: "a AND m = a \<Longrightarrow> m AND m' = m \<Longrightarrow> a AND m' = a" for a m m' :: "'a::len word"
  by (metis and.assoc)

lemma masked_disjoint: "a AND m = a \<Longrightarrow> m AND m' = 0 \<Longrightarrow> a AND m' = 0" for a m m' :: "'a::len word"
  by (metis and.assoc and_zero_eq)

text \<open>A list under construction: \<open>n\<close> headers inspected, of which any may be filled.\<close>

definition list_inv :: "u8 \<Rightarrow> ObjectAttributeListWire \<Rightarrow> bool" where
  "list_inv n out \<longleftrightarrow>
     length (al_cells out) = 8 \<and> al_reserved out = 0 \<and> al_inspected out = n \<and> n \<le> 8
     \<and> al_flags out AND 0x0F = al_flags out \<and> (n > 0 \<longrightarrow> al_flags out AND 1 \<noteq> 0) \<and> (al_flags out AND 2 \<noteq> 0 \<longrightarrow> n = 8)
     \<and> (\<forall>i < 8. cell_ok (al_cells out ! i) \<and> (unat n \<le> i \<longrightarrow> al_cells out ! i = zero_cell))"

lemma list_inv_ok: "list_inv n out \<Longrightarrow> list_ok out"
proof -
  assume inv: "list_inv n out"
  then have m: "al_flags out AND 0x0F = al_flags out" by (simp add: list_inv_def)
  have "al_flags out AND 0x1F = al_flags out" by (rule masked_mono[OF m]) simp
  moreover have "al_flags out AND 0x10 = 0" by (rule masked_disjoint[OF m]) simp
  ultimately show ?thesis using inv by (simp only: list_ok_def masked list_inv_def list_wf_def) auto
qed

lemma list_inv_put:
  assumes "list_inv n out" "i < unat n" "cell_ok c" "f AND 4 = f"
  shows "list_inv n (out\<lparr>al_cells := (al_cells out)[i := c], al_flags := al_flags out OR f\<rparr>)"
proof -
  have "f AND 0x0F = f" by (rule masked_mono[OF assms(4)]) simp
  moreover have "f AND 2 = 0" "f AND 1 = 0" by (rule masked_disjoint[OF assms(4)], simp)+
  moreover have "i < 8" using assms(1,2) by (auto simp: list_inv_def word_le_nat_alt)
  ultimately show ?thesis using assms(1,2,3)
    by (auto simp: list_inv_def nth_list_update or_masked bit.conj_disj_distrib2)
qed

lemma list_inv_start:
  assumes "n \<le> 8" "f AND 0x0F = f" "n > 0 \<longrightarrow> f AND 1 \<noteq> 0" "f AND 2 \<noteq> 0 \<longrightarrow> n = 8"
  shows "list_inv n \<lparr>al_cells = replicate 8 zero_cell, al_inspected = n, al_flags = f, al_reserved = 0\<rparr>"
  using assms by (simp add: list_inv_def cell_ok_def zero_cell_def)

lemma list_ok_flags:
  "f = 0 \<or> f = LIST_INVALID_SPAN \<or> f = LIST_UNINSPECTED \<Longrightarrow>
   list_ok \<lparr>al_cells = replicate 8 zero_cell, al_inspected = 0, al_flags = f, al_reserved = 0\<rparr>"
  by (auto simp: list_ok_def list_wf_def cell_ok_def zero_cell_def zero_list_def)

abbreviation "capture_flags_ok f \<equiv> f AND 0x14 = (f :: u32)"

lemma facts_cell_ok:
  assumes "request_cell_facts_valid f"
  shows "cell_ok \<lparr>aw_kind = rc_kind f, aw_status = rc_status f, aw_value = rc_value f\<rparr>"
    "rc_list_flags f AND 4 = rc_list_flags f" "capture_flags_ok (rc_object_flags f)"
  using assms unfolding request_cell_facts_valid_def masked
  by (auto simp: cell_ok_def kind_code_iff)

lemma cleared_list:
  "clear_attribute_list out = \<lparr>al_cells = replicate 8 zero_cell, al_inspected = 0, al_flags = 0, al_reserved = 0\<rparr>"
  by (cases out) (simp add: clear_attribute_list_def)

lemma gives_request_scan: "gives (request_alias_scan bpf wb t b c (- 1) p n l) (\<lambda>(a, f). f AND 4 = f)"
  using gives_alias_scan[of wb t b c "- 1" p n l] by (auto simp: request_alias_scan_core elim!: keeps_weaken)

lemma request_cell_keeps_list:
  assumes "attribute_table_span count l = Some table" "validate_target_span base table l \<noteq> None"
    "checked_add base (min count 8 * 3 * wb l) \<noteq> None"
    and i: "i < unat (min count 8)" and n: "unat n = unat (min count 8)"
    and acc: "list_inv n (fst acc) \<and> capture_flags_ok (snd acc)"
  shows "gives (request_cell_into bpf wb t base count peer l i acc) (\<lambda>(out, f). list_inv n out \<and> capture_flags_ok f)"
proof -
  have "(of_nat i :: u64) < min count 8" using i by (simp add: word_less_nat_alt unat_of_nat)
  moreover have "min count 8 \<le> 8" by simp
  ultimately have i8: "(of_nat i :: u64) < min count 8" "(of_nat i :: u64) < 8" by (auto elim: less_le_trans)
  show ?thesis
    unfolding request_cell_into_def request_cell_eq_core[where wb = wb, OF assms(1,2) i8(1) assms(3)]
    using acc i n
    by (cases acc) (auto intro!: keeps_bind[OF gives_request_cell[OF i8(2)]] keeps_return list_inv_put or_masked
        dest: facts_cell_ok)
qed

lemma gives_request_template:
  "gives (inspect_request_template_into bpf wb t base count peer l out) (\<lambda>(out, f). list_ok out \<and> capture_flags_ok f)"
proof (cases "attribute_table_span count l")
  case None
  then show ?thesis by (auto simp: inspect_request_template_into_def cleared_list Let_def list_ok_flags intro!: keeps_return)
next
  case (Some table)
  let ?n = "min count 8" and ?u = "ucast (min count 8) :: u8"
  have n8: "unat ?u = unat ?n" "?u \<le> 8" "?u > 0 \<longleftrightarrow> ?n > 0"
  proof -
    have "unat ?n \<le> 8" by (simp add: min_def word_le_nat_alt)
    then show u: "unat ?u = unat ?n" by (simp add: unsigned_ucast_eq take_bit_nat_eq_self)
    with \<open>unat ?n \<le> 8\<close> show "?u \<le> 8" by (simp add: word_le_nat_alt)
    show "?u > 0 \<longleftrightarrow> ?n > 0" by (simp add: word_less_nat_alt u)
  qed
  show ?thesis
  proof (cases "validate_target_span base table l = None \<or> checked_add base (?n * 3 * wb l) = None")
    case True
    then show ?thesis using Some
      by (auto simp: inspect_request_template_into_def cleared_list Let_def list_ok_flags intro!: keeps_return)
  next
    case False
    have loop: "gives (for_each (request_cell_into bpf wb t base count peer l) [0..<unat ?n] acc)
        (\<lambda>(out, f). list_ok out \<and> capture_flags_ok f)" if "list_inv ?u (fst acc) \<and> capture_flags_ok (snd acc)" for acc
    proof (rule keeps_weaken[where R = "\<lambda>(out, f). list_inv ?u out \<and> capture_flags_ok f"])
      show "gives (for_each (request_cell_into bpf wb t base count peer l) [0..<unat ?n] acc)
          (\<lambda>(out, f). list_inv ?u out \<and> capture_flags_ok f)"
        by (rule keeps_for_each) (use request_cell_keeps_list[OF Some _ _ _ n8(1)] False that in \<open>auto simp: case_prod_beta\<close>)
    qed (auto intro: list_inv_ok)
    let ?f = "(if ?n > 0 then LIST_PRESENT else 0) OR (if count > 8 then LIST_TRUNCATED else 0)"
    have start: "list_inv ?u \<lparr>al_cells = replicate 8 zero_cell, al_inspected = ?u, al_flags = ?f OR f, al_reserved = 0\<rparr>"
      if "f AND 4 = f" for f
    proof (rule list_inv_start)
      have f: "f AND 0x0F = f" "f AND 2 = 0" using masked_mono[OF that, of "0x0F"] masked_disjoint[OF that, of 2] by simp_all
      show "(?f OR f) AND 0x0F = ?f OR f" by (intro or_masked f) simp_all
      show "?u > 0 \<longrightarrow> (?f OR f) AND 1 \<noteq> 0" by (simp add: n8(3) bit.conj_disj_distrib2 or_eq_0_iff)
      show "(?f OR f) AND 2 \<noteq> 0 \<longrightarrow> ?u = 8"
        by (auto simp: bit.conj_disj_distrib2 f min_def split: if_splits)
    qed (rule n8(2))
    have peer: "gives (case peer of None \<Rightarrow> State_Monad.return (False, 0)
      | Some (b, c) \<Rightarrow> request_alias_scan bpf wb t b c (- 1) 0 0 l) (\<lambda>(a, f). f AND 4 = f)"
      using gives_request_scan by (auto split: option.split intro!: keeps_return)
    have eq: "inspect_request_template_into bpf wb t base count peer l out =
      (if ?n = 0 then State_Monad.return (\<lparr>al_cells = replicate 8 zero_cell, al_inspected = ?u, al_flags = ?f OR 0, al_reserved = 0\<rparr>, 0)
       else do {
         (_, flags) \<leftarrow> (case peer of None \<Rightarrow> State_Monad.return (False, 0)
            | Some (b, c) \<Rightarrow> request_alias_scan bpf wb t b c (- 1) 0 0 l);
         for_each (request_cell_into bpf wb t base count peer l) [0..<unat ?n]
           (\<lparr>al_cells = replicate 8 zero_cell, al_inspected = ?u, al_flags = ?f OR flags, al_reserved = 0\<rparr>, 0) })"
      using False Some by (auto simp: inspect_request_template_into_def cleared_list Let_def)
    show ?thesis unfolding eq
    proof (rule keeps_if, goal_cases)
      case 1
      then show ?case using list_inv_ok[OF start[of 0]] by (auto intro!: keeps_return)
    next
      case 2
      show ?case
      proof (rule keeps_bind[OF peer], rule keeps_prod, goal_cases)
        case (1 x a f)
        then show ?case using start[of f] loop by simp
      qed
    qed
  qed
qed

text \<open>The Get list: a cell is filled at most once, from an empty one.\<close>

definition get_list_inv :: "u8 \<Rightarrow> ObjectAttributeListWire \<Rightarrow> bool" where
  "get_list_inv n out \<longleftrightarrow>
     list_inv n out \<and> (\<forall>i < 8. aw_kind (al_cells out ! i) = 0 \<longrightarrow> al_cells out ! i = zero_cell)"

lemma and_7: "unat i < 8 \<Longrightarrow> i AND 7 = i" for i :: u8
proof -
  assume "unat i < 8"
  then have "unat (take_bit 3 i) = unat i" by (simp add: unsigned_take_bit_eq take_bit_nat_eq_self)
  moreover have "(7 :: u8) = mask 3" by (simp add: mask_eq_exp_minus_1)
  ultimately show ?thesis by (simp add: take_bit_eq_mask unsigned_word_eqI)
qed

lemma get_list_put:
  assumes "get_list_inv n out" "i < unat n" "cell_ok c" "aw_kind c \<noteq> 0"
  shows "get_list_inv n (put_wire_cell i c out)"
proof -
  have "list_inv n (put_wire_cell i c out)"
    using list_inv_put[of n out i c 0] assms by (simp add: get_list_inv_def put_wire_cell_def)
  moreover have "length (al_cells out) = 8" "i < 8"
    using assms(1,2) by (auto simp: get_list_inv_def list_inv_def word_le_nat_alt)
  ultimately show ?thesis using assms by (auto simp: get_list_inv_def put_wire_cell_def nth_list_update)
qed

lemma slot_verdict_range: "slot_verdict wb l slot kind sel ptr len = Some (s, f) \<Longrightarrow> s \<le> 10 \<and> capture_flags_ok f"
  by (auto simp: slot_verdict_def split: if_splits)

lemma gives_stable_attribute_cell:
  assumes "aw_value c = 0" "aw_kind c \<noteq> 0" "aw_kind c \<le> 6"
  shows "gives (stable_attribute_cell bpf wb t base i kind ptr len l c)
    (\<lambda>(c, f). cell_ok c \<and> aw_kind c \<noteq> 0 \<and> capture_flags_ok f)"
  unfolding stable_attribute_cell_def stable_cell_facts_core Let_def
  by (rule keeps_bind[OF gives_stable_cell]) (use assms in \<open>auto simp: cell_ok_def intro!: keeps_return split: if_splits\<close>)

lemma classify_keeps_list:
  assumes inv: "get_list_inv (min (os_get_inspected s) 8) out" and k: "k < 8"
  shows "gives (classify_get_slot bpf wb t s (encode_get_slot_layout k l) out)
    (\<lambda>(out, code). get_list_inv (min (os_get_inspected s) 8) out \<and> capture_flags_ok (snd (decode_get_slot_result code)))"
proof (cases "kind_from_code (sl_kind (os_slots s ! k))")
  case None
  then show ?thesis using inv
    by (simp add: classify_get_slot_def decode_encode_get_slot_layout[OF k] decode_encode_get_slot_result keeps_return)
next
  case (Some kind)
  let ?n = "min (os_get_inspected s) 8" and ?i = "sl_slot_index (os_slots s ! k)"
  let ?j = "unat (?i AND 7)" and ?c = "al_cells out ! unat (sl_slot_index (os_slots s ! k) AND 7)"
  have kind: "sl_kind (os_slots s ! k) \<noteq> 0" "sl_kind (os_slots s ! k) \<le> 6"
    using Some by (auto simp: kind_code_iff)
  show ?thesis
  proof (cases "?i \<ge> ?n \<or> aw_kind ?c \<noteq> 0")
    case True
    then show ?thesis using inv Some
      by (auto simp: classify_get_slot_def decode_encode_get_slot_layout[OF k] decode_encode_get_slot_result Let_def
          intro!: keeps_return)
  next
    case False
    then have "?i < ?n" by (meson linorder_not_le)
    have "?n \<le> 8" by simp
    then have "unat ?n \<le> 8" unfolding word_le_nat_alt by simp
    with \<open>?i < ?n\<close> have "unat ?i < 8" unfolding word_less_nat_alt by linarith
    then have "?i AND 7 = ?i" by (rule and_7)
    then have j: "?j < unat ?n" using \<open>?i < ?n\<close> by (simp add: word_less_nat_alt)
    then have "?j < 8" using \<open>?n \<le> 8\<close> by (simp add: word_le_nat_alt)
    then have c: "?c = zero_cell" using inv False by (simp add: get_list_inv_def)
    have nf: "(?n \<le> ?i) = False" "(aw_kind zero_cell \<noteq> 0) = False" using False by (auto simp: zero_cell_def)
    have put: "get_list_inv ?n (put_wire_cell ?j (zero_cell\<lparr>aw_kind := sl_kind (os_slots s ! k), aw_status := st\<rparr>) out)"
      if "st \<le> 10" for st
      by (rule get_list_put[OF inv j]) (use that kind in \<open>simp_all add: cell_ok_def zero_cell_def\<close>)
    have stable: "gives (stable_attribute_cell bpf wb t base i kd ptr len l (zero_cell\<lparr>aw_kind := sl_kind (os_slots s ! k)\<rparr>))
        (\<lambda>(c, f). get_list_inv ?n (put_wire_cell ?j c out) \<and> capture_flags_ok f)" for base i kd ptr len
      by (rule keeps_weaken[OF gives_stable_attribute_cell])
        (use kind get_list_put[OF inv j] in \<open>auto simp: zero_cell_def\<close>)
    show ?thesis
      unfolding classify_get_slot_def decode_encode_get_slot_layout[OF k] Let_def prod.case Some option.case c nf if_False
      by (rule keeps_if keeps_option keeps_prod keeps_bind[OF stable] keeps_bind[OF gives_True] keeps_return
          | (use put slot_verdict_range in \<open>fastforce simp: decode_encode_get_slot_result\<close>))+
  qed
qed

lemma gives_get_slots:
  assumes "k + m \<le> 8" "get_list_inv (min (os_get_inspected s) 8) out" "capture_flags_ok f"
  shows "gives (get_slots_into bpf wb t s l m k (out, f)) (\<lambda>(out, f). list_ok out \<and> capture_flags_ok f)"
  using assms
proof (induction m arbitrary: k out f)
  case 0
  then show ?case by (auto simp: get_list_inv_def intro!: keeps_return list_inv_ok)
next
  case (Suc m)
  show ?case unfolding get_slots_into.simps
  proof (rule keeps_bind[OF classify_keeps_list[OF Suc.prems(2)]], goal_cases)
    case (2 x)
    then show ?case using Suc.prems Suc.IH[of "Suc k"]
      by (auto simp: Let_def case_prod_beta or_masked get_list_inv_def intro!: keeps_return list_inv_ok)
  qed (use Suc.prems in simp)
qed

lemma entry_nibble_bit: "bit (ucast (drop_bit 8 (x AND GET_ENTRY_FLAGS_MASK)) :: u8) n \<longleftrightarrow> n < 4 \<and> bit x (8 + n)" for x :: u16
proof (cases "n < 8")
  case True
  then show ?thesis by (simp only: bit_ucast_iff bit_drop_bit_eq o_def bit_and_iff bit_0xF00) auto
qed (simp add: bit_beyond)

text \<open>The truncation bit of the retained entry flags is set only for a full walk.\<close>

definition get_row_ok :: "ObjectStart \<Rightarrow> bool" where
  "get_row_ok s \<longleftrightarrow> (os_flags s AND 0x200 \<noteq> 0 \<longrightarrow> os_get_inspected s \<ge> 8)"

lemma gives_get_return:
  assumes ok: "get_row_ok s"
  shows "gives (capture_get_return_into bpf wb t s rv authority l out) (\<lambda>(out, f). list_ok out \<and> capture_flags_ok f)"
proof -
  let ?g = "ucast (drop_bit 8 (os_flags s AND GET_ENTRY_FLAGS_MASK)) :: u8" and ?n = "min (os_get_inspected s) 8"
  let ?f = "?g OR (if ?n > 0 then LIST_PRESENT else 0)"
  have two: "?g AND 2 \<noteq> 0 \<longleftrightarrow> bit ?g 1" "os_flags s AND 0x200 \<noteq> 0 \<longleftrightarrow> bit (os_flags s) 9"
    using and_exp_eq_0_iff_not_bit[of ?g 1] and_exp_eq_0_iff_not_bit[of "os_flags s" 9] by simp_all
  have g: "?g AND 0x0F = ?g" by (rule bit_word_eqI) (auto simp only: bit_and_iff entry_nibble_bit bit_0x0F)
  have t: "?g AND 2 \<noteq> 0 \<longrightarrow> ?n = 8"
    using ok unfolding get_row_ok_def two entry_nibble_bit by (auto simp: min_def)
  have "list_inv ?n \<lparr>al_cells = replicate 8 zero_cell, al_inspected = ?n, al_flags = ?f, al_reserved = 0\<rparr>"
  proof (rule list_inv_start)
    show "?f AND 0x0F = ?f" by (intro or_masked g) simp
    show "?n > 0 \<longrightarrow> ?f AND 1 \<noteq> 0" by (simp add: bit.conj_disj_distrib2 or_eq_0_iff)
    show "?f AND 2 \<noteq> 0 \<longrightarrow> ?n = 8" using t by (simp add: bit.conj_disj_distrib2 or_eq_0_iff)
  qed simp
  then have start: "get_list_inv ?n \<lparr>al_cells = replicate 8 zero_cell, al_inspected = ?n, al_flags = ?f, al_reserved = 0\<rparr>"
    by (simp add: get_list_inv_def)
  have upd: "\<lparr>al_cells = c, al_inspected = 0, al_flags = 0, al_reserved = 0\<rparr>\<lparr>al_inspected := a, al_flags := b\<rparr>
      = \<lparr>al_cells = c, al_inspected = a, al_flags = b, al_reserved = 0\<rparr>"
    "\<lparr>al_cells = c, al_inspected = 0, al_flags = 0, al_reserved = 0\<rparr>\<lparr>al_flags := b\<rparr>
      = \<lparr>al_cells = c, al_inspected = 0, al_flags = b, al_reserved = 0\<rparr>" for c a b by simp_all
  show ?thesis
    unfolding capture_get_return_into_def cleared_list Let_def upd
    by (intro keeps_if keeps_return gives_get_slots start) (simp_all add: list_ok_flags)
qed

end
