(* ===== verification/P11_Object_Safety.thy ===== *)
theory P11_Object_Safety
  imports P11_Object P11_Flow_Safety
begin

text \<open>
  The side row through an object call. One invariant holds of the row from the
  moment the entry ABI is recorded to its emission: whatever the target answers,
  every adapter keeps it, and a tail filled from such a row satisfies the contract
  that \<^verbatim>\<open>validate_object_tail\<close> decides.
\<close>

section \<open>Rows of the published table\<close>

definition row_wf :: "ObjectDescriptorWire \<Rightarrow> u32 \<Rightarrow> bool" where
  "row_wf r d \<longleftrightarrow> row_names r d
     \<and> (od_action r = OBJECT_ACTION_FIND \<longrightarrow> od_result_args r ! 0 \<noteq> ARG_NONE \<and> od_result_args r ! 1 = ARG_NONE)"

lemma published_row_wf:
  assumes "descriptor_row (publish_object_descriptors fname) d = Some r" "row_admits r d"
  shows "row_wf r d"
proof -
  have d: "unat d < 105" "publish_object_descriptors fname ! unat d = r"
    using assms(1) by (auto simp: descriptor_row_def split: if_splits)
  have d0: "d \<noteq> 0"
    using assms(2) d by (auto simp: publish_nth row_admits_def row_codes_ok_def none_object_wire_def)
  moreover have "of_nat (unat (d - 1)) = d - 1" by simp
  then have "of_nat (unat d - 1) = d - 1" unfolding unat_minus_one[OF d0] .
  ultimately have r: "r = canonical_object_wire fname (d - 1)"
    using d by (simp add: publish_nth unat_eq_0)
  have some: "object_descriptor fname (d - 1) \<noteq> None" using assms(2) by (simp add: r row_admits_def)
  then obtain p where p: "object_descriptor fname (d - 1) = Some p" by blast
  have "d < 105" using d(1) by (simp add: word_less_nat_alt)
  then have "row_names r d" unfolding r by (rule canonical_row_names[OF some d0])
  moreover have "od_action r = OBJECT_ACTION_FIND \<longleftrightarrow> action p = Find"
    by (cases "action p") (simp_all add: r canonical_object_wire_def p)
  ultimately show ?thesis using object_descriptor_ok[OF p]
    by (auto simp: row_wf_def descriptor_ok_def r canonical_object_wire_def p)
qed

section \<open>The row invariant\<close>

definition inputs_ok :: "ObjectDescriptorWire \<Rightarrow> LinuxLayout \<Rightarrow> ObjectStart \<Rightarrow> bool" where
  "inputs_ok r l s \<longleftrightarrow> length (os_inputs s) = 2 \<and> length (os_input_statuses s) = 2
     \<and> handles_ok (\<lambda>i. od_input_args r ! i = ARG_NONE) (\<lambda>_. od_action r = OBJECT_ACTION_IMPORT)
         (os_input_statuses s) (os_inputs s) (layout_code l)"

definition results_ok :: "ObjectDescriptorWire \<Rightarrow> LinuxLayout \<Rightarrow> ObjectStart \<Rightarrow> bool" where
  "results_ok r l s \<longleftrightarrow> length (os_result_ptrs s) = 2 \<and> length (os_result_statuses s) = 2
     \<and> handles_ok (\<lambda>i. od_result_args r ! i = ARG_NONE) (\<lambda>_. False)
         (os_result_statuses s) (os_result_ptrs s) (layout_code l)"

definition side_inv :: "ObjectDescriptorWire \<Rightarrow> u32 \<Rightarrow> LinuxLayout \<Rightarrow> ObjectStart \<Rightarrow> bool" where
  "side_inv r d l s \<longleftrightarrow>
     os_descriptor_index s = d \<and> os_layout s = layout_code l \<and> os_derive s \<le> 4
     \<and> (od_action r \<noteq> OBJECT_ACTION_DERIVE \<longrightarrow> os_derive s = 0)
     \<and> length (os_result_ptrs s) = 2 \<and> get_row_ok s
     \<and> length (os_requested s) = 2 \<and> (\<forall>i < 2. list_ok (os_requested s ! i))
     \<and> (os_phase s = 2 \<or> os_phase s = 3 \<longrightarrow> inputs_ok r l s)
     \<and> (os_phase s = 3 \<and> od_action r \<noteq> OBJECT_ACTION_FIND \<longrightarrow> results_ok r l s)"

abbreviation lists_fresh :: "ObjectStart \<Rightarrow> bool" where
  "lists_fresh s \<equiv> os_requested s = [zero_list, zero_list]"

abbreviation "object_flags_ok f \<equiv> f AND 0xFF = (f :: u32)"

lemma capture_flags_object: "capture_flags_ok f \<Longrightarrow> object_flags_ok f"
  by (erule masked_mono) simp

lemma small_flags_bit9:
  assumes "object_flags_ok f"
  shows "(ucast f :: u16) AND 0x200 = 0"
proof -
  have "\<not> bit (f AND 0xFF) 9" by (simp add: bit_and_iff)
  then have "\<not> bit (ucast f :: u16) 9" unfolding assms by (simp add: bit_ucast_iff)
  then show ?thesis using and_exp_eq_0_iff_not_bit[of "ucast f :: u16" 9] by simp
qed

lemma get_row_or:
  "object_flags_ok f \<Longrightarrow> get_row_ok s \<Longrightarrow> os_get_inspected s' = os_get_inspected s \<Longrightarrow>
    os_flags s' = os_flags s OR ucast f \<Longrightarrow> get_row_ok s'"
  by (simp add: get_row_ok_def bit.conj_disj_distrib2 small_flags_bit9)

lemma zero_list_ok [simp]: "list_ok zero_list" "list_ok (zero_list\<lparr>al_flags := OBJECT_ATTR_LIST_UNINSPECTED\<rparr>)"
  using list_ok_flags[of 0] list_ok_flags[of LIST_UNINSPECTED] by (simp_all add: zero_list_def)

lemma layout_code_simps [simp]:
  "layout_code l = 2 \<longleftrightarrow> l = Ilp32" "layout_code l = 1 \<longleftrightarrow> l = Lp64" "layout_code l \<noteq> 0"
  by (cases l; simp add: layout_code_def)+

text \<open>A status and word pair fit for the wire.\<close>

definition handle_ok :: "bool \<Rightarrow> bool \<Rightarrow> LinuxLayout \<Rightarrow> u8 \<Rightarrow> u64 \<Rightarrow> bool" where
  "handle_ok absent optional l status word \<longleftrightarrow>
     status \<le> OBJECT_HANDLE_STATUS_MAX \<and> (absent \<longrightarrow> status = 0) \<and> (\<not> absent \<and> \<not> optional \<longrightarrow> status \<noteq> 0)
     \<and> (l = Ilp32 \<longrightarrow> word \<le> 0xFFFFFFFF) \<and> (status = 1 \<longleftrightarrow> word \<noteq> 0)"

lemma all_2: "(\<forall>i < 2. P i) \<longleftrightarrow> P 0 \<and> P (1 :: nat)"
  by (auto simp: less_2_cases_iff)

lemma valid_word_iff:
  "valid_handle_word s w (layout_code l) \<longleftrightarrow> (l = Ilp32 \<longrightarrow> w \<le> 0xFFFFFFFF) \<and> (s = 1 \<longleftrightarrow> w \<noteq> 0)"
  unfolding valid_handle_word_def layout_code_simps not_less[symmetric] by (cases "s = 1") simp_all

lemma handles_ok_pair:
  "handles_ok absent optional [s0, s1] [w0, w1] (layout_code l) \<longleftrightarrow>
     handle_ok (absent 0) (optional 0) l s0 w0 \<and> handle_ok (absent 1) (optional 1) l s1 w1"
  unfolding handles_ok_def handle_ok_def all_2 valid_word_iff by simp

section \<open>Entry adapters keep the row\<close>

text \<open>What an entry adapter may leave: the same row, still satisfying the invariant,
  its request lists still empty.\<close>

abbreviation entry_row :: "ObjectDescriptorWire \<Rightarrow> u32 \<Rightarrow> LinuxLayout \<Rightarrow> ObjectStart \<Rightarrow> bool" where
  "entry_row r d l s \<equiv> side_inv r d l s \<and> lists_fresh s \<and> os_phase s \<noteq> 3"

abbreviation entry_kept :: "ObjectDescriptorWire \<Rightarrow> u32 \<Rightarrow> LinuxLayout \<Rightarrow> ObjectStart option \<times> bool \<Rightarrow> bool" where
  "entry_kept r d l \<equiv> \<lambda>(side, ok). \<exists>s. side = Some s \<and> entry_row r d l s"

lemma gives_fill_input:
  "gives (fill_input t l import arg)
     (\<lambda>(s, w, f). handle_ok (arg = ARG_NONE) import l s w \<and> object_flags_ok f)"
  unfolding fill_input_def
  by (auto simp: handle_ok_def not_less split: option.splits if_splits intro!: keeps_return keeps_then)

lemma suppress_handle:
  "handle_ok a opt l s w \<Longrightarrow> handle_ok a opt l (if s = 1 then HANDLE_SUPPRESSED else s) (if s = 1 then 0 else w)"
  by (cases "s = 1") (simp_all add: handle_ok_def)

lemma suppress_inputs_eq:
  "suppress_inputs (s\<lparr>os_inputs := [w0, w1], os_input_statuses := [s0, s1]\<rparr>) =
     s\<lparr>os_inputs := [if s0 = 1 then 0 else w0, if s1 = 1 then 0 else w1],
       os_input_statuses := [if s0 = 1 then HANDLE_SUPPRESSED else s0, if s1 = 1 then HANDLE_SUPPRESSED else s1]\<rparr>"
  by (simp add: suppress_inputs_def)

lemma filled_row:
  assumes inv: "side_inv r d l s" "os_phase s = 1" and h: "handle_ok (od_input_args r ! 0 = ARG_NONE) im l s0 w0"
    "handle_ok (od_input_args r ! 1 = ARG_NONE) im l s1 w1" and im: "im = (od_action r = OBJECT_ACTION_IMPORT)"
    and f: "object_flags_ok f"
  shows "side_inv r d l (s\<lparr>os_inputs := [w0, w1], os_input_statuses := [s0, s1],
           os_flags := os_flags s OR ucast f, os_phase := 2\<rparr>)"
  using inv h get_row_or[OF f, of s "s\<lparr>os_inputs := [w0, w1], os_input_statuses := [s0, s1],
           os_flags := os_flags s OR ucast f, os_phase := 2\<rparr>"] unfolding im
  by (simp add: side_inv_def inputs_ok_def handles_ok_pair)

lemma object_fill_entry_keeps:
  assumes r: "descriptor_row rows d = Some r" and inv: "side_inv r d l s" "lists_fresh s" "os_phase s = 1"
  shows "gives (object_fill_entry rows t (Some s) l null_cancel) (entry_kept r d l)"
proof -
  have d: "os_descriptor_index s = d" using inv by (simp add: side_inv_def)
  let ?im = "od_action r = OBJECT_ACTION_IMPORT"
  have fin: "entry_kept r d l (Some ((if null_cancel then suppress_inputs s' else s')
        \<lparr>os_flags := os_flags (if null_cancel then suppress_inputs s' else s') OR
           ucast (f0 OR f1 OR (if null_cancel then OBJ_NULL_MECHANISM_CANCEL else 0)), os_phase := 2\<rparr>), True)"
    if h: "handle_ok (od_input_args r ! 0 = ARG_NONE) ?im l s0 w0" "handle_ok (od_input_args r ! 1 = ARG_NONE) ?im l s1 w1"
      and f: "object_flags_ok f0" "object_flags_ok f1" and s': "s' = s\<lparr>os_inputs := [w0, w1], os_input_statuses := [s0, s1]\<rparr>"
    for s0 w0 s1 w1 f0 f1 s'
  proof -
    have f': "object_flags_ok (f0 OR f1 OR (if null_cancel then OBJ_NULL_MECHANISM_CANCEL else 0))"
      by (intro or_masked f) simp
    show ?thesis
    proof (cases null_cancel)
      case True
      then show ?thesis using filled_row[OF inv(1,3) h[THEN suppress_handle] refl f'] inv(2)
        by (simp add: s' suppress_inputs_eq split del: if_split)
    next
      case False
      then show ?thesis using filled_row[OF inv(1,3) h refl f'] inv(2) by (simp add: s')
    qed
  qed
  show ?thesis
    unfolding object_fill_entry_def option.case d r Let_def
    by (rule keeps_if keeps_bind[OF gives_fill_input] keeps_prod keeps_return fin | (use inv in \<open>auto; fail\<close>))+
qed

lemma derive_code_range: "derive_code e \<le> 4"
  by (cases e rule: derive_code.cases) simp_all

lemma object_entry_derive_keeps:
  assumes r: "descriptor_row rows d = Some r" and inv: "entry_row r d l s"
  shows "gives (object_entry_derive rows t (Some s) l) (entry_kept r d l)"
proof -
  have d: "os_descriptor_index s = d" using inv by (simp add: side_inv_def)
  have fin: "entry_kept r d l (Some (s\<lparr>os_derive := derive_code e, os_result_ptrs := [p, 0]\<rparr>), True)"
    if "\<not> od_action r \<noteq> OBJECT_ACTION_DERIVE" for e p
    using inv that derive_code_range[of e] by (auto simp: side_inv_def inputs_ok_def get_row_ok_def)
  show ?thesis
    unfolding object_entry_derive_def side_descriptor_def option.case d r adapter_derive_entry_def prod.case Let_def
    by (rule keeps_if keeps_bind[OF gives_True] keeps_return fin | (use inv in \<open>auto; fail\<close>))+
qed

lemma object_entry_results_keeps:
  assumes r: "descriptor_row rows d = Some r" and inv: "entry_row r d l s"
  shows "gives (object_entry_results rows t (Some s) l sp) (entry_kept r d l)"
proof -
  have d: "os_descriptor_index s = d" using inv by (simp add: side_inv_def)
  have fin: "entry_kept r d l (Some (s\<lparr>os_result_ptrs := ps\<rparr>), ok)" if "length ps = 2" for ps ok
    using inv that by (auto simp: side_inv_def inputs_ok_def get_row_ok_def)
  have len: "length (os_result_ptrs s) = 2" using inv by (simp add: side_inv_def)
  show ?thesis
    unfolding object_entry_results_def option.case d r Let_def
    by (rule keeps_if keeps_option keeps_bind[OF gives_True] keeps_return | (use inv fin len in \<open>auto; fail\<close>))+
qed

lemma object_entry_find_keeps:
  assumes r: "descriptor_row rows d = Some r" and inv: "entry_row r d l s"
  shows "gives (object_entry_find rows t (Some s)) (entry_kept r d l)"
proof -
  have d: "os_descriptor_index s = d" using inv by (simp add: side_inv_def)
  have fin: "entry_kept r d l (Some (s\<lparr>os_find_capacity := c, os_find_count_ptr := p\<rparr>), True)" for c p
    using inv by (auto simp: side_inv_def inputs_ok_def get_row_ok_def)
  show ?thesis
    unfolding object_entry_find_def option.case d r Let_def
    by (rule keeps_if keeps_bind[OF gives_True] keeps_return fin | (use inv in \<open>auto; fail\<close>))+
qed

lemma kem_input_ok:
  "kem_input l cancel arg = (s, w, f) \<Longrightarrow> handle_ok False opt l s w \<and> object_flags_ok f"
  by (auto simp: kem_input_def handle_ok_def Let_def not_less split: option.splits if_splits)

lemma kem_set_row:
  assumes inv: "entry_row r d l s" and k: "kem_row r" "handle_ok False (od_action r = OBJECT_ACTION_IMPORT) l st w"
    and f: "object_flags_ok f" and s': "s' = s\<lparr>os_inputs := [w, 0], os_input_statuses := [st, HANDLE_ABSENT], os_flags := ucast f\<rparr>"
  shows "entry_row r d l s'" "entry_row r d l (kem_ready p s')"
proof -
  have "handle_ok True (od_action r = OBJECT_ACTION_IMPORT) l HANDLE_ABSENT 0" by (simp add: handle_ok_def)
  then have "inputs_ok r l s'" "inputs_ok r l (kem_ready p s')"
    using k by (simp_all add: inputs_ok_def s' kem_ready_def handles_ok_pair kem_row_def)
  then show "entry_row r d l s'" "entry_row r d l (kem_ready p s')"
    using inv small_flags_bit9[OF f] by (simp_all add: side_inv_def get_row_ok_def all_2 s' kem_ready_def)
qed

lemma kem_unwired_row:
  assumes "entry_row r d l s" "kem_row r"
  shows "entry_row r d l (kem_ready 0 (s\<lparr>os_inputs := [0, 0],
           os_input_statuses := [HANDLE_PROTOCOL_UNAVAILABLE, HANDLE_ABSENT]\<rparr>))"
  using assms by (simp add: side_inv_def inputs_ok_def get_row_ok_def all_2 kem_ready_def handles_ok_pair handle_ok_def kem_row_def)

lemma object_entry_kem_keeps:
  assumes r: "descriptor_row rows d = Some r" and inv: "entry_row r d l s"
  shows "gives (object_entry_kem rows wb wired t (Some s) l sp capture cancel) (entry_kept r d l)"
proof -
  have d: "os_descriptor_index s = d" using inv by (simp add: side_inv_def)
  have fin: "entry_kept r d l (Some s', ok)" "entry_kept r d l (Some (kem_ready p s'), ok)"
    if "\<not> \<not> kem_row r" "kem_input l cancel arg = (st, b)" "b = (w, f)"
      "s' = s\<lparr>os_inputs := [w, 0], os_input_statuses := [st, HANDLE_ABSENT], os_flags := ucast f\<rparr>" for p s' w st f arg ok b
    using kem_set_row[OF inv _ _ _ that(4)] that(1) kem_input_ok[OF that(2)[unfolded that(3)]] by simp_all
  show ?thesis
    unfolding object_entry_kem_def side_descriptor_def option.case d r adapter_kem_entry_def prod.case Let_def
    by (rule keeps_if keeps_bind[OF gives_True] keeps_return keeps_prod keeps_option
      | (rule fin, assumption+, rule refl) | (use inv kem_unwired_row[OF inv] in \<open>auto; fail\<close>))+
qed


section \<open>Entry templates\<close>

text \<open>The Get templates: the truncation bit is set only when the visited headers are
  the full eight.\<close>

lemma get_header_keeps_flags:
  "flags AND 2 = c \<Longrightarrow> gives (get_header_into wb t base l i (slots, n, flags, b)) (\<lambda>(slots, n, flags, b). flags AND 2 = c)"
  unfolding get_header_into_def prod.case Let_def
  by (rule keeps_if keeps_bind[OF gives_True] keeps_return keeps_prod keeps_option
    | (auto simp: bit.conj_disj_distrib2; fail))+

lemma entry_flags_bit9:
  "((x AND NOT GET_ENTRY_FLAGS_MASK) OR push_bit 8 (ucast (f :: u8))) AND 0x200 \<noteq> (0 :: u16) \<longleftrightarrow> f AND 2 \<noteq> 0"
proof -
  have m: "bit (GET_ENTRY_FLAGS_MASK :: u16) 9" by simp
  have "bit ((x AND NOT GET_ENTRY_FLAGS_MASK) OR push_bit 8 (ucast f)) 9 \<longleftrightarrow> bit f 1"
    unfolding bit_or_iff bit_and_iff bit_not_iff using m by (simp add: bit_push_bit_iff bit_ucast_iff)
  then show ?thesis
    using and_exp_eq_0_iff_not_bit[of f 1]
      and_exp_eq_0_iff_not_bit[of "(x AND NOT GET_ENTRY_FLAGS_MASK) OR push_bit 8 (ucast f)" 9] by simp
qed


text \<open>An update that keeps the fields the invariant reads, apart from those of the Get
  entry, keeps the row as long as it keeps \<^const>\<open>get_row_ok\<close>.\<close>

definition get_part :: "ObjectStart \<Rightarrow> ObjectStart \<Rightarrow> bool" where
  "get_part s s' \<longleftrightarrow> os_descriptor_index s' = os_descriptor_index s \<and> os_layout s' = os_layout s \<and> os_derive s' = os_derive s
     \<and> os_phase s' = os_phase s \<and> os_inputs s' = os_inputs s \<and> os_result_ptrs s' = os_result_ptrs s
     \<and> os_requested s' = os_requested s \<and> os_input_statuses s' = os_input_statuses s"

lemma get_part_row:
  "get_part s s' \<Longrightarrow> get_row_ok s' \<Longrightarrow> entry_row r d l s \<Longrightarrow> entry_row r d l s'"
  by (simp add: get_part_def side_inv_def inputs_ok_def all_2)

lemma gives_get_entry:
  "gives (capture_get_entry_into wb t base count l s) (\<lambda>(s', v). get_part s s' \<and> get_row_ok s')"
proof -
  have row: "get_row_ok s'"
    if "os_flags s' = (x AND NOT GET_ENTRY_FLAGS_MASK) OR push_bit 8 (ucast (f :: u8))" "f AND 2 \<noteq> 0 \<longrightarrow> os_get_inspected s' = 8" for s' x f
    using that entry_flags_bit9[of x f] unfolding get_row_ok_def by simp
  have loop: "gives (for_each (get_header_into wb t base l) is (sl, 0, if count > 8 then LIST_TRUNCATED else 0, False))
      (\<lambda>(sl, c, f, b). f AND 2 = (if count > 8 then 2 else 0))" for sl "is"
    by (rule keeps_for_each) (auto intro!: get_header_keeps_flags)
  have n: "f AND 2 = (if count > 8 then 2 else 0) \<Longrightarrow> f AND 2 \<noteq> 0 \<longrightarrow> (ucast (min count 8) :: u8) = 8" for f :: u8
    by (cases "count > 8") (simp_all add: min_absorb2)
  show ?thesis
    unfolding capture_get_entry_into_def Let_def
    by (rule keeps_if keeps_bind[OF loop] keeps_return keeps_prod keeps_option
      | (unfold prod.case, rule conjI, (simp add: get_part_def; fail),
          rule row[where x = "os_flags s" and f = 8] row[where x = "os_flags s"], (simp; fail), (use n in \<open>auto; fail\<close>)))+
qed


lemma capture_get_template_keeps:
  assumes inv: "entry_row r d l s"
  shows "gives (capture_get_template wb t s r l) (entry_row r d l)"
proof -
  note row = get_part_row[OF _ _ inv]
  have fail: "entry_row r d l (s'\<lparr>os_flags := os_flags s' OR ucast OBJ_ARG_READ_FAILURE OR GET_ENTRY_UNINSPECTED\<rparr>)"
    if "get_part s s'" "get_row_ok s'" for s'
    by (rule row) (use that in \<open>simp_all add: get_part_def get_row_ok_def bit.conj_disj_distrib2\<close>)
  show ?thesis
    unfolding capture_get_template_def Let_def
    by (rule keeps_if keeps_bind[OF gives_get_entry] keeps_bind[OF gives_True] keeps_return keeps_prod keeps_option
      | (use inv row fail in \<open>auto; fail\<close>))+
qed

abbreviation ready_row :: "ObjectDescriptorWire \<Rightarrow> u32 \<Rightarrow> LinuxLayout \<Rightarrow> ObjectStart \<Rightarrow> bool" where
  "ready_row r d l s \<equiv> side_inv r d l s \<and> os_phase s \<noteq> 3"

lemma set_requested_row:
  assumes "ready_row r d l s" "length ls = 2" "list_ok (ls ! 0)" "list_ok (ls ! 1)" "object_flags_ok f"
  shows "ready_row r d l (s\<lparr>os_requested := ls, os_flags := os_flags s OR ucast f\<rparr>)"
  using assms get_row_or[of f s "s\<lparr>os_requested := ls, os_flags := os_flags s OR ucast f\<rparr>"]
  by (simp add: side_inv_def inputs_ok_def all_2)

lemma inspect_pair_keeps:
  assumes "side_inv r d l s" "p < 2" "os_phase s \<noteq> 3" "object_flags_ok acc"
  shows "gives (inspect_pair bpf wb t p pair peer l (s, acc)) (\<lambda>(s', acc'). ready_row r d l s' \<and> object_flags_ok acc')"
proof -
  have row: "ready_row r d l (s\<lparr>os_requested := (os_requested s)[p := out]\<rparr>)" if "list_ok out" for out
    using assms(1,2,3) that by (simp add: side_inv_def inputs_ok_def get_row_ok_def nth_list_update)
  have flags: "object_flags_ok (acc OR f)" if "capture_flags_ok f" for f
    by (rule or_masked[OF assms(4) capture_flags_object[OF that]])
  show ?thesis
    unfolding inspect_pair_def prod.case
    by (rule keeps_bind[OF gives_request_template] keeps_return keeps_prod keeps_option
      | (use assms in \<open>simp; fail\<close>) | (unfold prod.case, rule conjI, rule row, simp, rule flags, simp))+
qed

lemma capture_request_pairs_keeps:
  assumes inv: "entry_row r d l s"
  shows "gives (capture_request_pairs bpf wb t s r l) (ready_row r d l)"
proof -
  have mark: "ready_row r d l (mark_uninspected a b s)" for a b
    using inv by (auto simp: mark_uninspected_def side_inv_def inputs_ok_def get_row_ok_def all_2)
  have flag: "ready_row r d l (s'\<lparr>os_flags := os_flags s' OR ucast f\<rparr>)" if "ready_row r d l s'" "object_flags_ok f" for s' f
    using that get_row_or[of f s' "s'\<lparr>os_flags := os_flags s' OR ucast f\<rparr>"] by (simp add: side_inv_def inputs_ok_def)
  show ?thesis
    unfolding capture_request_pairs_def Let_def
    by (rule keeps_if keeps_bind[OF inspect_pair_keeps] keeps_bind[OF gives_True] keeps_return keeps_prod
      | (rule mark flag; (simp; fail)) | (rule flag, rule mark, simp) | (use inv in \<open>auto; fail\<close>))+
qed

lemma object_entry_attributes_keeps:
  assumes r: "descriptor_row rows d = Some r" and inv: "entry_row r d l s"
  shows "gives (object_entry_attributes rows bpf wb wired t (Some s) l) 
     (\<lambda>(side, ok). \<exists>s. side = Some s \<and> ready_row r d l s \<and> (wired \<or> lists_fresh s))"
proof -
  have d: "os_descriptor_index s = d" using inv by (simp add: side_inv_def)
  have get: "gives (capture_get_template wb t s r l) (ready_row r d l)"
    by (rule keeps_weaken[OF capture_get_template_keeps[OF inv]]) simp
  show ?thesis
    unfolding object_entry_attributes_def side_descriptor_def option.case d r adapter_attributes_entry_def prod.case Let_def
    by (rule keeps_if keeps_bind[OF keeps_if[OF get capture_request_pairs_keeps[OF inv]]] keeps_return
      | (use inv in \<open>auto; fail\<close>))+
qed


section \<open>The return\<close>

lemma handle_of_word_ok: "handle_of_word l word = (s, w) \<Longrightarrow> handle_ok False False l s w"
  by (auto simp: handle_of_word_def handle_ok_def not_less split: option.splits if_splits)

lemma result_gate_ok:
  assumes "result_gate p a = (g, s, f)"
  shows "object_flags_ok f" "g \<Longrightarrow> p" "\<not> g \<Longrightarrow> handle_ok (\<not> p) False l s 0"
  using assms by (auto simp: result_gate_def handle_ok_def split: if_splits)

lemma gives_result_word:
  assumes g: "result_gate p a = (g, s, f)" and r: "result_span g ptr l s = (rd, s')"
  shows "gives (result_word t rd ptr l s') (\<lambda>(s, w). handle_ok (\<not> p) False l s w)"
proof (cases rd)
  case True
  then have p: "p" using r result_gate_ok(2)[OF g] by (auto simp: result_span_def split: if_splits)
  show ?thesis unfolding result_word_def using True p
    by (auto intro!: keeps_bind[OF gives_True] keeps_return dest: handle_of_word_ok)
next
  case False
  have "handle_ok (\<not> p) False l s' 0"
  proof (cases g)
    case True
    with r False result_gate_ok(2)[OF g True] show ?thesis
      by (auto simp: result_span_def handle_ok_def split: if_splits)
  next
    case False
    with r have "s' = s" by (simp add: result_span_def)
    with result_gate_ok(3)[OF g False] show ?thesis by simp
  qed
  then show ?thesis unfolding result_word_def using False by (auto intro: keeps_return)
qed

definition handle_pair :: "bool \<Rightarrow> bool \<Rightarrow> LinuxLayout \<Rightarrow> u8 list \<Rightarrow> u64 list \<Rightarrow> bool" where
  "handle_pair p0 p1 l st ws \<longleftrightarrow> (\<exists>s0 s1 w0 w1. st = [s0, s1] \<and> ws = [w0, w1]
     \<and> handle_ok (\<not> p0) False l s0 w0 \<and> handle_ok (\<not> p1) False l s1 w1)"

lemma handle_pairI: "handle_ok (\<not> p0) False l s0 w0 \<Longrightarrow> handle_ok (\<not> p1) False l s1 w1 \<Longrightarrow> handle_pair p0 p1 l [s0, s1] [w0, w1]"
  by (auto simp: handle_pair_def)

lemma gives_return_handles:
  assumes "length present = 2" "length authorized = 2"
  shows "gives (capture_return_handles wb t present authorized ptrs rv auth l)
     (\<lambda>(v, ws). handle_pair (present ! 0) (present ! 1) l (rh_statuses v) ws \<and> object_flags_ok (rh_object_flags v))"
proof -
  obtain g0 s0 f0 g1 s1 f1 where g: "result_gate (present ! 0) (authorized ! 0) = (g0, s0, f0)"
    "result_gate (present ! 1) (authorized ! 1) = (g1, s1, f1)" by (metis prod.exhaust)
  obtain r0 z0 r1 z1 where r: "result_span g0 (ptrs ! 0) l s0 = (r0, z0)" "result_span g1 (ptrs ! 1) l s1 = (r1, z1)"
    by (metis prod.exhaust)
  note gate0 = result_gate_ok[OF g(1)] and gate1 = result_gate_ok[OF g(2)]
  have f: "object_flags_ok (f0 OR f1)" "object_flags_ok x \<Longrightarrow> y \<in> {OBJ_ALIAS, OBJ_DUPLICATE_RESULT, OBJ_PARTIAL_RESULT} \<Longrightarrow> object_flags_ok (x OR y)"
    for x y by (auto intro!: or_masked gate0(1) gate1(1))
  have un: "handle_ok (\<not> p) False l (if g then HANDLE_PROTOCOL_UNAVAILABLE else s) 0"
    if "g \<Longrightarrow> p" "\<not> g \<Longrightarrow> handle_ok (\<not> p) False l s 0" for g p s
    using that by (cases g) (simp_all add: handle_ok_def)
  have al: "handle_ok (\<not> present ! 0) False l HANDLE_ALIAS 0" "handle_ok (\<not> present ! 1) False l HANDLE_ALIAS 0" if "r0" "r1"
    using that r gate0(2) gate1(2) by (auto simp: result_span_def handle_ok_def split: if_splits)
  have dup: "handle_ok (\<not> p) False l HANDLE_DUPLICATE 0" if "handle_ok (\<not> p) False l HANDLE_VALUE w" for p w
    using that by (simp add: handle_ok_def)
  have flags: "object_flags_ok (if a then (if b then (f0 OR f1) OR OBJ_DUPLICATE_RESULT else f0 OR f1) OR OBJ_PARTIAL_RESULT
      else if b then (f0 OR f1) OR OBJ_DUPLICATE_RESULT else f0 OR f1)" for a b
    by (cases a; cases b) (simp_all only: if_True if_False, auto intro!: f(1) f(2))
  have fin: "handle_pair (present ! 0) (present ! 1) l [s0', s1'] [w0', w1']"
    if "case x of (s, w) \<Rightarrow> handle_ok (\<not> present ! 0) False l s w" "case y of (s, w) \<Rightarrow> handle_ok (\<not> present ! 1) False l s w"
      "x = (s0, w0)" "y = (s1, w1)"
      "(if s0 = HANDLE_VALUE \<and> s1 = HANDLE_VALUE \<and> w0 = w1 then (HANDLE_DUPLICATE, HANDLE_DUPLICATE, 0, 0) else (s0, s1, w0, w1)) = (s0', b)"
      "b = (s1', c)" "c = (w0', w1')" for x y s0 w0 s1 w1 s0' s1' w0' w1' b c
    using that by (auto intro!: handle_pairI dest: dup split: if_splits)
  show ?thesis
    unfolding capture_return_handles_def g r prod.case Let_def
    by (rule keeps_if keeps_return keeps_bind[OF gives_result_word[OF g(1) r(1)]]
       keeps_bind[OF gives_result_word[OF g(2) r(2)]] keeps_prod
      | (unfold prod.case ReturnHandlesVerdict.select_convs, rule conjI,
          ((rule fin; assumption) | (rule handle_pairI; (use gate0 gate1 al un in \<open>simp; fail\<close>))),
          (rule f(1) flags | (rule f(2)[OF f(1)], simp))))+
qed


lemma object_fill_return_keeps:
  assumes r: "descriptor_row rows d = Some r" and inv: "ready_row r d l s" and g: "decode_return_gate gate = Some (l, joined)"
  shows "gives (object_fill_return rows wb t (Some s) rv mech_status mech gate)
     (\<lambda>(side, ok). \<exists>s'. side = Some s' \<and> side_inv r d l s' \<and> os_requested s' = os_requested s)"
proof -
  have d: "os_descriptor_index s = d" using inv by (simp add: side_inv_def)
  have fin: "side_inv r d l (s\<lparr>os_result_ptrs := ws, os_result_statuses := st, os_flags := os_flags s OR ucast f, os_phase := 3\<rparr>)"
    if "handle_pair (od_result_args r ! 0 \<noteq> ARG_NONE) (od_result_args r ! 1 \<noteq> ARG_NONE) l st ws" "object_flags_ok f" "os_phase s = 2" for st ws f
    using inv that(1,3)
      get_row_or[OF that(2), of s "s\<lparr>os_result_ptrs := ws, os_result_statuses := st, os_flags := os_flags s OR ucast f, os_phase := 3\<rparr>"]
    by (auto simp: side_inv_def inputs_ok_def results_ok_def handle_pair_def handles_ok_pair)
  have fnd: "side_inv r d l (s\<lparr>os_phase := 3\<rparr>)" if "od_action r = OBJECT_ACTION_FIND" "os_phase s = 2"
    using inv that by (simp add: side_inv_def inputs_ok_def get_row_ok_def)
  have h: "gives (fill_handles wb t r dok ptrs rv l)
     (\<lambda>(st, ws, f). handle_pair (od_result_args r ! 0 \<noteq> ARG_NONE) (od_result_args r ! 1 \<noteq> ARG_NONE) l st ws \<and> object_flags_ok f)" for dok ptrs
    unfolding fill_handles_eq
    by (rule keeps_bind[OF gives_return_handles] keeps_prod keeps_return | (simp; fail) | (auto; fail))+
  show ?thesis
    unfolding object_fill_return_def adapter_fill_return_control_def adapter_fill_return_def g option.case prod.case Let_def
      side_descriptor_def d r
    by (rule keeps_if keeps_return keeps_bind[OF h] keeps_prod | (use inv fin fnd in \<open>auto; fail\<close>))+
qed

section \<open>The tail\<close>

definition find_part :: "LinuxLayout \<Rightarrow> nat \<Rightarrow> u8 list \<Rightarrow> u64 list \<Rightarrow> bool" where
  "find_part l n st ws \<longleftrightarrow> length st = 8 \<and> length ws = 8 \<and> (\<forall>j < 8. handle_ok (n \<le> j) False l (st ! j) (ws ! j))"

lemma find_part_start: "find_part l 0 (replicate 8 HANDLE_ABSENT) (replicate 8 0)"
  by (simp add: find_part_def handle_ok_def)

lemma find_part_put:
  assumes "find_part l i st ws" "handle_ok False False l s w"
  shows "find_part l (Suc i) (st[i := s]) (ws[i := w])"
proof -
  have "handle_ok (Suc i \<le> j) False l (st[i := s] ! j) (ws[i := w] ! j)" if "j < 8" for j
  proof (cases "j = i")
    case False
    then have "Suc i \<le> j \<longleftrightarrow> i \<le> j" by auto
    then show ?thesis using assms(1) that False by (simp add: find_part_def)
  qed (use assms that in \<open>simp add: find_part_def\<close>)
  then show ?thesis using assms(1) by (simp add: find_part_def)
qed

lemma gives_find_elements:
  "find_part l i st ws \<Longrightarrow> f AND 0x3F = f \<Longrightarrow> f AND 1 = c \<Longrightarrow>
    gives (find_elements t a w l n i (st, ws, f))
      (\<lambda>res. case res of None \<Rightarrow> True | Some (st, ws, f) \<Rightarrow> find_part l (i + n) st ws \<and> f AND 0x3F = f \<and> f AND 1 = c)"
proof (induction n arbitrary: i st ws f)
  case 0
  then show ?case by (auto intro: keeps_return)
next
  case (Suc n)
  have step: "gives (find_elements t a w l n (Suc i) (st[i := s], ws[i := h], if x = None then f OR FIND_UNREADABLE_ELEMENT else f))
      (\<lambda>res. case res of None \<Rightarrow> True | Some (st, ws, f) \<Rightarrow> find_part l (Suc i + n) st ws \<and> f AND 0x3F = f \<and> f AND 1 = c)"
    if "handle_of_word l x = (s, h)" for s h x
    using Suc.prems by (intro Suc.IH find_part_put[OF _ handle_of_word_ok[OF that]]) (auto simp: bit.conj_disj_distrib2)
  show ?case
    unfolding find_elements.simps Let_def
    by (rule keeps_return keeps_option keeps_bind[OF gives_True] keeps_prod | (use step in \<open>simp; fail\<close>))+
qed


definition find_verdict_ok :: "LinuxLayout \<Rightarrow> FindVerdict \<Rightarrow> u64 list \<Rightarrow> bool" where
  "find_verdict_ok l v ws \<longleftrightarrow> fv_len v \<le> 8 \<and> fv_flags v AND 0x3F = fv_flags v \<and> (\<not> fv_valid v \<longrightarrow> fv_len v = 0)
     \<and> (fv_flags v AND 1 \<noteq> 0 \<longrightarrow> fv_len v = 8) \<and> find_part l (unat (fv_len v)) (fv_statuses v) ws"

lemma find_refused_ok:
  "f AND 0x3E = f \<Longrightarrow> case find_refused f of (v, ws) \<Rightarrow> find_verdict_ok l v ws"
  using masked_disjoint[of f "0x3E" 1] masked_mono[of f "0x3E" "0x3F"]
  by (simp add: find_refused_def find_verdict_ok_def find_part_start)

lemma gives_find_counted:
  "gives (find_counted wb t a capacity p l count) (\<lambda>(v, ws). find_verdict_ok l v ws)"
proof -
  let ?n = "min count 8"
  have n: "unat (ucast ?n :: u8) = unat ?n" "(ucast ?n :: u8) \<le> 8" "count > 8 \<Longrightarrow> (ucast ?n :: u8) = 8"
  proof -
    have b: "unat ?n \<le> 8" by (simp add: min_def word_le_nat_alt)
    then show u: "unat (ucast ?n :: u8) = unat ?n" by (simp add: unsigned_ucast_eq take_bit_nat_eq_self)
    with b show "(ucast ?n :: u8) \<le> 8" by (simp add: word_le_nat_alt)
    show "count > 8 \<Longrightarrow> (ucast ?n :: u8) = 8" by (simp add: min_absorb2)
  qed
  have el: "gives (find_elements t a (wb l) l (unat ?n) 0 (replicate 8 0, replicate 8 0, if count > 8 then FIND_TRUNCATED else 0))
      (\<lambda>res. case res of None \<Rightarrow> True | Some (st, ws, f) \<Rightarrow>
        find_part l (0 + unat ?n) st ws \<and> f AND 0x3F = f \<and> f AND 1 = (if count > 8 then 1 else 0))"
    by (rule gives_find_elements) (simp_all add: find_part_start)
  have fin: "case (if x = Some count then (\<lparr>fv_statuses = st, fv_len = ucast ?n, fv_valid = True, fv_flags = f, fv_result_cell = c\<rparr>, ws)
      else find_refused FIND_CHANGED_COUNT) of (v, ws) \<Rightarrow> find_verdict_ok l v ws"
    if "find_part l (unat ?n) st ws" "f AND 0x3F = f" "f AND 1 = (if count > 8 then 1 else 0)" for x st ws f c
    using that n find_refused_ok[of 2 l] by (cases "x = Some count") (auto simp: find_verdict_ok_def)
  have conf: "gives (find_confirmed t p l count res) (\<lambda>(v, ws). find_verdict_ok l v ws)"
    if "case res of None \<Rightarrow> True | Some (st, ws, f) \<Rightarrow>
        find_part l (0 + unat ?n) st ws \<and> f AND 0x3F = f \<and> f AND 1 = (if count > 8 then 1 else 0)" for res
    unfolding find_confirmed_def
    by (rule keeps_option keeps_prod keeps_return keeps_bind[OF gives_True] fin | (rule find_refused_ok, simp)
      | (use that in \<open>simp; fail\<close>))+
  show ?thesis
    unfolding find_counted_def
    by (rule keeps_if keeps_option keeps_return keeps_bind[OF el] | (rule find_refused_ok, simp) | (rule conf, assumption))+
qed

lemma gives_find_return:
  "gives (capture_find_return wb t a capacity p rv auth l) (\<lambda>(v, ws). find_verdict_ok l v ws)"
  unfolding capture_find_return_def
  by (rule keeps_if keeps_option keeps_return keeps_bind[OF gives_True] gives_find_counted find_refused_ok | simp)+

lemma put_find_ok:
  assumes v: "find_verdict_ok l v ws" and w: "oc_layout w = layout_code l"
  shows "find_ok (put_find v ws w)"
proof -
  have "valid_handle_word (fv_statuses v ! i) (ws ! i) (layout_code l) \<and> fv_statuses v ! i \<le> OBJECT_HANDLE_STATUS_MAX
      \<and> (fv_statuses v ! i \<noteq> 0 \<longleftrightarrow> i < unat (fv_len v))" if "i < 8" for i
    using v that by (auto simp: find_verdict_ok_def find_part_def valid_word_iff handle_ok_def not_le)
  then show ?thesis using v w
    unfolding find_ok_def put_find_def find_verdict_ok_def masked by simp
qed


text \<open>The tail filled from a captured row satisfies the wire contract, its Find section
  empty; the two emitters keep the contract.\<close>

lemma tail_request_ok:
  assumes "side_inv r d l s" "wired \<or> lists_fresh s" "p < 2"
  shows "if pair_present r p then list_ok (tail_request wired r s p) else tail_request wired r s p = zero_list"
proof -
  have "list_ok (os_requested s ! p)" using assms(1,3) by (simp add: side_inv_def)
  moreover have "lists_fresh s \<Longrightarrow> os_requested s ! p = zero_list" using assms(3) by (auto simp: less_2_cases_iff)
  ultimately show ?thesis using assms(2) by (auto simp: tail_request_def pair_present_def)
qed

lemma list_ok_wf: "list_ok x \<Longrightarrow> list_wf x"
  by (simp add: list_ok_def)

lemma zero_list_wf [simp]: "list_wf zero_list"
  by (simp add: list_ok_wf)

lemma object_tail_fill_ok:
  assumes r: "descriptor_row rows d = Some r" "row_wf r d" and inv: "side_inv r d l s" "wired \<or> lists_fresh s"
    and w: "object_tail_fill rows wired (Some w0) (Some s) d = (Some w, True)"
  shows "object_call_ok w r" "tail_wf w" "no_find w" "oc_layout w = layout_code l"
proof -
  have ph: "os_phase s = 3" using w by (auto simp: object_tail_fill_def adapter_tail_fill_def split: if_splits)
  have d: "os_descriptor_index s = d" using inv by (simp add: side_inv_def)
  have lay: "os_layout s = layout_code l" using inv by (simp add: side_inv_def)
  have w': "w = zero_call\<lparr>oc_version := 1, oc_bytes := 240, oc_descriptor_index := d,
                   oc_flags := ucast (os_flags s) AND OBJECT_FLAGS_MASK, oc_layout := os_layout s,
                   oc_action := od_action r, oc_entry_derive := os_derive s, oc_input_handles := os_inputs s,
                   oc_input_status := os_input_statuses s,
                   oc_result_handles := (if od_action r = OBJECT_ACTION_FIND then [0, 0] else os_result_ptrs s),
                   oc_result_status := (if od_action r = OBJECT_ACTION_FIND
                     then [HANDLE_PROTOCOL_UNAVAILABLE, HANDLE_ABSENT] else os_result_statuses s),
                   oc_requested := [tail_request wired r s 0, tail_request wired r s 1],
                   oc_result_attributes := (if od_action r = OBJECT_ACTION_GET
                     then zero_list\<lparr>al_flags := OBJECT_ATTR_LIST_UNINSPECTED\<rparr> else zero_list)\<rparr>"
    using w r(1) ph d by (auto simp: object_tail_fill_def adapter_tail_fill_def split: if_splits)
  show "no_find w" by (simp add: w' no_find_def zero_call_def)
  show "oc_layout w = layout_code l" by (simp add: w' lay)
  have act: "od_action r = OBJECT_ACTION_FIND \<Longrightarrow> od_result_args r ! 0 \<noteq> ARG_NONE \<and> od_result_args r ! 1 = ARG_NONE"
    "row_names r d" using r(2) by (simp_all add: row_wf_def)
  have inp: "length (os_inputs s) = 2" "length (os_input_statuses s) = 2"
    "handles_ok (\<lambda>i. od_input_args r ! i = ARG_NONE) (\<lambda>_. od_action r = OBJECT_ACTION_IMPORT)
       (oc_input_status w) (oc_input_handles w) (oc_layout w)"
    using inv(1) ph by (simp_all add: side_inv_def inputs_ok_def w')
  have res: "length (oc_result_handles w) = 2" "length (oc_result_status w) = 2"
    "handles_ok (\<lambda>i. od_result_args r ! i = ARG_NONE) (\<lambda>_. False) (oc_result_status w) (oc_result_handles w) (oc_layout w)"
  proof -
    have "handles_ok (\<lambda>i. od_result_args r ! i = ARG_NONE) (\<lambda>_. False) [HANDLE_PROTOCOL_UNAVAILABLE, HANDLE_ABSENT] [0, 0] (layout_code l)"
      if "od_action r = OBJECT_ACTION_FIND" using act(1)[OF that] by (simp add: handles_ok_pair handle_ok_def)
    then show "handles_ok (\<lambda>i. od_result_args r ! i = ARG_NONE) (\<lambda>_. False) (oc_result_status w) (oc_result_handles w) (oc_layout w)"
      "length (oc_result_handles w) = 2" "length (oc_result_status w) = 2"
      using inv(1) ph by (simp_all add: side_inv_def results_ok_def w')
  qed
  note req = tail_request_ok[OF inv(1,2), of 0] tail_request_ok[OF inv(1,2), of 1]
  have flags: "oc_flags w AND NOT OBJECT_FLAGS_MASK = 0"
    unfolding masked by (simp add: w' and.assoc)
  have find: "if oc_action w = OBJECT_ACTION_FIND then find_ok w else no_find w"
    using \<open>no_find w\<close> by (simp add: find_ok_def no_find_def valid_handle_word_def)
  have misc: "os_derive s \<le> 4" "od_action r \<noteq> OBJECT_ACTION_DERIVE \<longrightarrow> os_derive s = 0" using inv by (simp_all add: side_inv_def)
  have sel: "oc_version w = 1" "oc_bytes w = 240" "oc_descriptor_index w = d" "oc_action w = od_action r"
    "oc_entry_derive w = os_derive s" "oc_reserved0 w = 0" "oc_reserved1 w = 0" "oc_reserved2 w = 0"
    "oc_requested w ! 0 = tail_request wired r s 0" "oc_requested w ! 1 = tail_request wired r s 1"
    "if oc_action w = OBJECT_ACTION_GET then list_ok (oc_result_attributes w) else oc_result_attributes w = zero_list"
    by (simp_all add: w' zero_call_def)
  have "oc_layout w = OBJECT_LAYOUT_LP64 \<or> oc_layout w = OBJECT_LAYOUT_ILP32" by (cases l) (simp_all add: w' lay)
  then show "object_call_ok w r"
    unfolding object_call_ok_def all_2 using inp(3) res(3) find flags act(2) misc req sel
    by (simp add: One_nat_def[symmetric] del: One_nat_def)
  have "list_wf (tail_request wired r s p)" if "p < 2" for p
    using tail_request_ok[OF inv that] by (auto dest: list_ok_wf split: if_splits)
  then show "tail_wf w" using inp(1,2) res(1,2) by (simp add: tail_wf_def w' zero_call_def list_ok_wf)
qed


abbreviation tail_good :: "ObjectDescriptorWire \<Rightarrow> LinuxLayout \<Rightarrow> ObjectCallWire \<Rightarrow> bool" where
  "tail_good r l w \<equiv> object_call_ok w r \<and> tail_wf w \<and> oc_layout w = layout_code l"

text \<open>The contract reads the sections of the tail separately, so an update of one
  section leaves the verdict on the others alone.\<close>

lemma put_find_good:
  assumes w: "tail_good r l w" "oc_action w = OBJECT_ACTION_FIND" and v: "find_verdict_ok l v ws"
  shows "tail_good r l (put_find v ws w)"
proof -
  have "find_ok (put_find v ws w)" by (rule put_find_ok[OF v]) (use w in simp)
  moreover have "length (fv_statuses v) = 8" "length ws = 8" using v by (simp_all add: find_verdict_ok_def find_part_def)
  ultimately show ?thesis
    by (insert w, unfold object_call_ok_def tail_wf_def, elim conjE, cases l; simp add: put_find_def cong: if_cong split del: if_split)
qed

lemma section_update [simp]:
  "find_ok (w\<lparr>oc_result_attributes := x\<rparr>) = find_ok w" "no_find (w\<lparr>oc_result_attributes := x\<rparr>) = no_find w"
  "find_ok (w\<lparr>oc_flags := f\<rparr>) = find_ok w" "no_find (w\<lparr>oc_flags := f\<rparr>) = no_find w"
  by (simp_all add: find_ok_def no_find_def)

lemma object_emit_find_keeps:
  assumes wb: "word_bytes_ok wb" and w: "tail_good r l w" "no_find w" and r: "descriptor_row rows d = Some r"
    and g: "decode_return_gate gate = Some (l, joined)"
  shows "gives (object_emit_find rows t (Some w) (Some s) d rv gate) (\<lambda>(tail, ok). \<exists>w. tail = Some w \<and> tail_good r l w)"
proof (cases "joined \<and> os_phase s = 3 \<and> os_descriptor_index s = d \<and> od_function r = d - 1 \<and> od_action r = OBJECT_ACTION_FIND")
  case True
  then have act: "oc_action w = OBJECT_ACTION_FIND" using w by (simp add: object_call_ok_def)
  have eq: "adapter_emit_find t (Some w) (Some s) d (Some r) l rv True = do {
     (v, words) \<leftarrow> capture_find_return wb t (os_result_ptrs s ! 0) (os_find_capacity s) (os_find_count_ptr s) rv AUTHORIZED l;
     State_Monad.return (Some (put_find v words w), True) }"
    using True by (intro adapter_emit_find_eq[OF wb w(2)]) simp_all
  show ?thesis
    unfolding object_emit_find_def adapter_emit_find_control_def g option.case prod.case r option.simps if_False eq
    using True put_find_good[OF w(1) act] by (auto simp: eq intro!: keeps_bind[OF gives_find_return] keeps_return)
next
  case False
  then show ?thesis using w
    unfolding object_emit_find_def adapter_emit_find_control_def g option.case prod.case r adapter_emit_find_def
    by (auto intro!: keeps_return)
qed

lemma object_emit_get_keeps:
  assumes w: "tail_good r l w" and r: "descriptor_row rows d = Some r" and inv: "side_inv r d l s"
    and fresh: "od_action r = OBJECT_ACTION_GET \<Longrightarrow> \<not> wired \<Longrightarrow> oc_result_attributes w = zero_list\<lparr>al_flags := OBJECT_ATTR_LIST_UNINSPECTED\<rparr>"
    and g: "decode_return_gate gate = Some (l, joined)"
  shows "gives (object_emit_get_attributes rows bpf wb wired t (Some w) (Some s) d rv gate)
     (\<lambda>(tail, ok). \<exists>w. tail = Some w \<and> tail_good r l w)"
proof -
  have row: "get_row_ok s" using inv by (simp add: side_inv_def)
  have put: "tail_good r l (w\<lparr>oc_result_attributes := x\<rparr>)" if "od_action r = OBJECT_ACTION_GET" "list_ok x" for x
    by (insert w that, unfold object_call_ok_def tail_wf_def, elim conjE, cases l; simp add: list_ok_wf cong: if_cong split del: if_split)
  have flag: "tail_good r l (w'\<lparr>oc_flags := oc_flags w' OR f\<rparr>)" if w': "tail_good r l w'" and f: "capture_flags_ok f" for w' f
  proof -
    have "(oc_flags w' OR f) AND 0xFF = oc_flags w' OR f"
      by (rule or_masked[OF _ capture_flags_object[OF f]]) (use w' in \<open>simp only: object_call_ok_def masked[symmetric]\<close>)
    then have "(oc_flags w' OR f) AND NOT OBJECT_FLAGS_MASK = 0" unfolding masked .
    then show ?thesis
      by (insert w', unfold object_call_ok_def tail_wf_def, elim conjE, cases l; simp cong: if_cong split del: if_split)
  qed
  have fin: "tail_good r l (if f \<noteq> 0 then w\<lparr>oc_result_attributes := x, oc_flags := oc_flags (w\<lparr>oc_result_attributes := x\<rparr>) OR f\<rparr>
      else w\<lparr>oc_result_attributes := x\<rparr>)" if "od_action r = OBJECT_ACTION_GET" "list_ok x" "capture_flags_ok f" for x f
    by (rule if_split[THEN iffD2]) (use flag[OF put[OF that(1,2)] that(3)] put[OF that(1,2)] in blast)
  have z: "zero_list\<lparr>al_flags := OBJECT_ATTR_LIST_UNINSPECTED, al_flags := OBJECT_ATTR_LIST_UNINSPECTED\<rparr>
      = zero_list\<lparr>al_flags := OBJECT_ATTR_LIST_UNINSPECTED\<rparr>" by simp
  show ?thesis
    unfolding object_emit_get_attributes_def adapter_emit_get_control_def g option.case prod.case r adapter_emit_get_attributes_def Let_def
    by (rule keeps_if keeps_return keeps_prod keeps_bind[OF gives_get_return[OF row]]
      | (unfold prod.case, rule exI, rule conjI[OF refl], rule fin; use w in \<open>simp; fail\<close>)
      | (use w put fresh in \<open>auto simp: z; fail\<close>))+
qed

end
