(* ===== verification/P11_Owner.thy ===== *)
theory P11_Owner
  imports P11_Object P11_Discovery
begin

text \<open>
  The native custody object \<^verbatim>\<open>crates/ebpf/native/task_owner.c\<close>, in its default build:
  the lease accounting, the per-task owner rows, and the transactions on the
  START, OBJECT and DISCOVERY rows that an owner holds. One native call runs over
  the custody state \<open>ostate\<close>; whatever the kernel helpers answer comes from the
  environment \<open>oenv\<close>, which may answer differently at every tick. Owner rows live in
  task storage and are keyed by the physical task. Keys, values and seeds are passed by
  non-null pointers; a START value without a seed is the aggregate form. The optional
  journal and loader-gate builds of the file are not part of this theory.
\<close>

section \<open>State\<close>

abbreviation (input) OWNER_LEASED :: u32 where "OWNER_LEASED \<equiv> 1"
abbreviation (input) OWNER_SLOT_BOUND :: u32 where "OWNER_SLOT_BOUND \<equiv> 512"
abbreviation (input) OWNER_LIMIT :: u64 where "OWNER_LIMIT \<equiv> 16448"
abbreviation (input) OWNER_TRANSIENT_CLAIMS :: u64 where "OWNER_TRANSIENT_CLAIMS \<equiv> 0x400000"
abbreviation (input) OWNER_CONTROL_BOUND :: u64 where "OWNER_CONTROL_BOUND \<equiv> OWNER_LIMIT + OWNER_TRANSIENT_CLAIMS"
abbreviation (input) OWNER_BAD_CONTROL :: u64 where "OWNER_BAD_CONTROL \<equiv> 1"
abbreviation (input) OWNER_LOOKUP_UNKNOWN :: u64 where "OWNER_LOOKUP_UNKNOWN \<equiv> 2"
abbreviation (input) OWNER_BAD_RECORD :: u64 where "OWNER_BAD_RECORD \<equiv> 4"
abbreviation (input) OWNER_BOOKKEEPING_FAILED :: u64 where "OWNER_BOOKKEEPING_FAILED \<equiv> 16"
abbreviation (input) OWNER_REFUND_FAILED :: u64 where "OWNER_REFUND_FAILED \<equiv> 32"
abbreviation (input) OWNER_CLASSIFIER_FAILED :: u64 where "OWNER_CLASSIFIER_FAILED \<equiv> 64"
abbreviation (input) OWNER_STATE_DELETE_FAILED :: u64 where "OWNER_STATE_DELETE_FAILED \<equiv> 128"
abbreviation (input) OWNER_START_KEY_MISMATCH :: u64 where "OWNER_START_KEY_MISMATCH \<equiv> 256"
abbreviation (input) OWNER_START_COUNT_MISMATCH :: u64 where "OWNER_START_COUNT_MISMATCH \<equiv> 512"
abbreviation (input) OWNER_START_ROW_MISSING :: u64 where "OWNER_START_ROW_MISSING \<equiv> 1024"
abbreviation (input) OWNER_DIRECTORY_MISMATCH :: u64 where "OWNER_DIRECTORY_MISMATCH \<equiv> 2048"
abbreviation (input) OWNER_OBJECT_MISMATCH :: u64 where "OWNER_OBJECT_MISMATCH \<equiv> 4096"
abbreviation (input) P11_OWNER_CLEANUP_ABANDONED_START :: u32 where "P11_OWNER_CLEANUP_ABANDONED_START \<equiv> 2"
abbreviation (input) OBJECT_DESCRIPTORS_COUNT :: u64 where "OBJECT_DESCRIPTORS_COUNT \<equiv> 105"
abbreviation (input) OBJECT_PHASE_ENTRY :: u8 where "OBJECT_PHASE_ENTRY \<equiv> 1"
abbreviation (input) OBJECT_PHASE_READY :: u8 where "OBJECT_PHASE_READY \<equiv> 2"
abbreviation (input) OBJECT_PHASE_RETURNING :: u8 where "OBJECT_PHASE_RETURNING \<equiv> 3"
abbreviation (input) ENOENT :: int where "ENOENT \<equiv> - 2"
abbreviation (input) EEXIST :: int where "EEXIST \<equiv> - 17"

record thread_owner =
  original_pid_tgid :: u64
  discovery_cookies :: "u64 list"
  occupied :: u64
  selection_domains :: u64
  start_count :: u32
  ow_flags :: u32
  journal_thread :: u64
  journal_sequence :: u64

record owner_control =
  ct_limit :: u64
  ct_outstanding :: u64
  ct_poison :: u64
  ct_admission_failures :: u64
  ct_reclamation_failures :: u64
  ct_abandoned_start :: u64
  ct_abandoned_discovery :: u64

record owner_start_key =
  sk_pid :: u64
  sk_slot :: u32
  sk_pad :: u32

record call_start_seed =
  seed_ts_ns :: u64
  seed_image :: ImageIdentity
  seed_object_required :: u64

record ostate =
  o_ticks :: nat
  o_ctl :: owner_control
  o_owners :: "nat \<Rightarrow> thread_owner option"
  o_start :: "owner_start_key \<Rightarrow> CallStart option"
  o_object :: "owner_start_key \<Rightarrow> ObjectStart option"
  o_discovery :: "StateKey \<Rightarrow> StartState option"

type_synonym 'a own = "(ostate, 'a) state"

text \<open>Array lookups are answered once and for all; task storage, hash rows and
  \<^verbatim>\<open>bpf_loop\<close> tick by tick. A row that exists may still be missed by a lookup, and
  an update or a deletion may fail with any code.\<close>

record oenv =
  ctl_present :: bool
  zero_row :: "u64 list option"
  object_rows :: "ObjectDescriptorWire list"
  o_task :: nat
  o_pid_tgid :: u64
  task_found :: "nat \<Rightarrow> bool"
  storage_found :: "nat \<Rightarrow> bool"
  storage_made :: "nat \<Rightarrow> bool"
  storage_delete_rc :: "nat \<Rightarrow> int"
  row_found :: "nat \<Rightarrow> bool"
  update_rc :: "nat \<Rightarrow> int"
  delete_rc :: "nat \<Rightarrow> int"
  loop_cut :: "nat \<Rightarrow> nat"

definition oask :: "(nat \<Rightarrow> 'a) \<Rightarrow> 'a own" where
  "oask f = State (\<lambda>s. (f (o_ticks s), s\<lparr>o_ticks := Suc (o_ticks s)\<rparr>))"

definition oget :: "(ostate \<Rightarrow> 'a) \<Rightarrow> 'a own" where
  "oget f = State (\<lambda>s. (f s, s))"

definition oput :: "(ostate \<Rightarrow> ostate) \<Rightarrow> unit own" where
  "oput f = State (\<lambda>s. ((), f s))"

definition row_lookup :: "oenv \<Rightarrow> (ostate \<Rightarrow> 'k \<Rightarrow> 'v option) \<Rightarrow> 'k \<Rightarrow> 'v option own" where
  "row_lookup env rows key = do {
     found \<leftarrow> oask (row_found env);
     oget (\<lambda>s. if found then rows s key else None) }"

definition row_update ::
  "oenv \<Rightarrow> (ostate \<Rightarrow> 'k \<Rightarrow> 'v option) \<Rightarrow> ((('k \<Rightarrow> 'v option) \<Rightarrow> 'k \<Rightarrow> 'v option) \<Rightarrow> ostate \<Rightarrow> ostate) \<Rightarrow>
    'k \<Rightarrow> 'v \<Rightarrow> u64 \<Rightarrow> int own" where
  "row_update env rows store key v flags = do {
     failure \<leftarrow> oask (update_rc env);
     present \<leftarrow> oget (\<lambda>s. rows s key \<noteq> None);
     let rc = (if flags = 1 \<and> present then EEXIST else if flags = 2 \<and> \<not> present then ENOENT else failure);
     _ \<leftarrow> (if rc = 0 then oput (store (\<lambda>m. m(key := Some v))) else State_Monad.return ());
     State_Monad.return rc }"

text \<open>A deletion answers \<^verbatim>\<open>ENOENT\<close> exactly when there was nothing to delete.\<close>

definition delete_verdict :: "bool \<Rightarrow> int \<Rightarrow> int" where
  "delete_verdict present failure = (if \<not> present then ENOENT else if failure = ENOENT then 0 else failure)"

definition row_delete ::
  "oenv \<Rightarrow> (ostate \<Rightarrow> 'k \<Rightarrow> 'v option) \<Rightarrow> ((('k \<Rightarrow> 'v option) \<Rightarrow> 'k \<Rightarrow> 'v option) \<Rightarrow> ostate \<Rightarrow> ostate) \<Rightarrow> 'k \<Rightarrow> int own" where
  "row_delete env rows store key = do {
     failure \<leftarrow> oask (delete_rc env);
     present \<leftarrow> oget (\<lambda>s. rows s key \<noteq> None);
     let rc = delete_verdict present failure;
     _ \<leftarrow> (if rc = 0 then oput (store (\<lambda>m. m(key := None))) else State_Monad.return ());
     State_Monad.return rc }"

definition zero_owner :: thread_owner where
  "zero_owner = \<lparr>original_pid_tgid = 0, discovery_cookies = replicate 64 0, occupied = 0, selection_domains = 0,
     start_count = 0, ow_flags = 0, journal_thread = 0, journal_sequence = 0\<rparr>"

text \<open>The owner row behind the pointer a storage lookup returned.\<close>

definition owner_at :: "oenv \<Rightarrow> ostate \<Rightarrow> thread_owner" where
  "owner_at env s = (case o_owners s (o_task env) of None \<Rightarrow> zero_owner | Some w \<Rightarrow> w)"

definition owner_set :: "oenv \<Rightarrow> (thread_owner \<Rightarrow> thread_owner) \<Rightarrow> unit own" where
  "owner_set env f = oput (\<lambda>s. s\<lparr>o_owners := (o_owners s)(o_task env := map_option f (o_owners s (o_task env)))\<rparr>)"

definition storage_get :: "oenv \<Rightarrow> bool \<Rightarrow> thread_owner option own" where
  "storage_get env create = do {
     found \<leftarrow> oask (storage_found env);
     made \<leftarrow> oask (storage_made env);
     present \<leftarrow> oget (\<lambda>s. o_owners s (o_task env));
     case present of
       Some w \<Rightarrow> State_Monad.return (if found then Some w else None)
     | None \<Rightarrow>
         if create \<and> made
         then do { oput (\<lambda>s. s\<lparr>o_owners := (o_owners s)(o_task env := Some zero_owner)\<rparr>);
                   State_Monad.return (Some zero_owner) }
         else State_Monad.return None }"

section \<open>Control\<close>

definition saturating_count :: "u64 \<Rightarrow> u64" where
  "saturating_count cell = (if cell \<noteq> - 1 then cell + 1 else cell)"

definition count_admission :: "unit own" where
  "count_admission = oput (\<lambda>s. s\<lparr>o_ctl := (o_ctl s)
     \<lparr>ct_admission_failures := saturating_count (ct_admission_failures (o_ctl s))\<rparr>\<rparr>)"

definition poison :: "u64 \<Rightarrow> unit own" where
  "poison reason = oput (\<lambda>s. s\<lparr>o_ctl := (o_ctl s)
     \<lparr>ct_poison := ct_poison (o_ctl s) OR reason,
      ct_reclamation_failures := saturating_count (ct_reclamation_failures (o_ctl s))\<rparr>\<rparr>)"

definition bookkeeping :: "u64 \<Rightarrow> unit own" where
  "bookkeeping detail = poison (OWNER_BOOKKEEPING_FAILED OR detail)"

definition control :: "oenv \<Rightarrow> bool own" where
  "control env =
     (if \<not> ctl_present env then State_Monad.return False
      else do {
        ctl \<leftarrow> oget o_ctl;
        if ct_limit ctl \<noteq> OWNER_LIMIT \<or> ct_outstanding ctl > OWNER_CONTROL_BOUND
        then do { poison OWNER_BAD_CONTROL; State_Monad.return False }
        else State_Monad.return True })"

definition healthy :: "bool \<Rightarrow> bool own" where
  "healthy ctl = oget (\<lambda>s. ctl \<and> ct_poison (o_ctl s) = 0)"

definition p11_owner_healthy :: "oenv \<Rightarrow> bool own" where
  "p11_owner_healthy env = do { ctl \<leftarrow> control env; healthy ctl }"

definition add_outstanding :: "u64 \<Rightarrow> unit own" where
  "add_outstanding n = oput (\<lambda>s. s\<lparr>o_ctl := (o_ctl s)\<lparr>ct_outstanding := ct_outstanding (o_ctl s) + n\<rparr>\<rparr>)"

text \<open>The two accounting functions over their accesses to the shared cell: each is one
  atomic step, between which other tasks may run.\<close>

definition reserve_with ::
  "('s, u64) state \<Rightarrow> (u64 \<Rightarrow> ('s, unit) state) \<Rightarrow> ('s, unit) state \<Rightarrow> ('s, bool) state" where
  "reserve_with read add refused = do {
     before \<leftarrow> read;
     if before \<ge> OWNER_LIMIT then do { refused; State_Monad.return False }
     else do {
       add 1;
       after \<leftarrow> read;
       if after > OWNER_LIMIT
       then do { add (- 1); refused; State_Monad.return False }
       else State_Monad.return True } }"

definition refund_with ::
  "('s, u64) state \<Rightarrow> (u64 \<Rightarrow> ('s, unit) state) \<Rightarrow> ('s, unit) state \<Rightarrow> ('s, bool) state" where
  "refund_with read add failed = do {
     old \<leftarrow> read;
     if old = 0 \<or> old > OWNER_CONTROL_BOUND
     then do { failed; State_Monad.return False }
     else do { add (- 1); State_Monad.return True } }"

definition reserve_local :: "bool own" where
  "reserve_local = reserve_with (oget (ct_outstanding \<circ> o_ctl)) add_outstanding count_admission"

definition refund_local :: "bool own" where
  "refund_local = refund_with (oget (ct_outstanding \<circ> o_ctl)) add_outstanding (poison OWNER_REFUND_FAILED)"

definition p11_owner_reserve :: "oenv \<Rightarrow> bool own" where
  "p11_owner_reserve env = do { ctl \<leftarrow> control env; if \<not> ctl then State_Monad.return False else reserve_local }"

definition p11_owner_refund :: "oenv \<Rightarrow> bool own" where
  "p11_owner_refund env = do { ctl \<leftarrow> control env; if \<not> ctl then State_Monad.return False else refund_local }"

section \<open>Leases\<close>

definition valid_owner :: "oenv \<Rightarrow> bool own" where
  "valid_owner env = do {
     outstanding \<leftarrow> oget (ct_outstanding \<circ> o_ctl);
     owner \<leftarrow> oget (owner_at env);
     if outstanding = 0 \<or> ow_flags owner \<noteq> OWNER_LEASED \<or> original_pid_tgid owner = 0
        \<or> start_count owner > OWNER_SLOT_BOUND \<or> selection_domains owner AND NOT (occupied owner) \<noteq> 0
     then do { poison OWNER_BAD_RECORD; State_Monad.return False }
     else State_Monad.return True }"

definition clear_fresh :: "oenv \<Rightarrow> unit own" where
  "clear_fresh env = owner_set env (\<lambda>w. zero_owner\<lparr>journal_thread := journal_thread w, journal_sequence := journal_sequence w\<rparr>)"

definition lease_idle :: "oenv \<Rightarrow> bool own" where
  "lease_idle env = do {
     w \<leftarrow> oget (owner_at env);
     if original_pid_tgid w \<noteq> 0 \<or> start_count w \<noteq> 0 \<or> occupied w \<noteq> 0 \<or> selection_domains w \<noteq> 0
     then do { poison OWNER_BAD_RECORD; _ \<leftarrow> refund_local; State_Monad.return False }
     else do {
       owner_set env (\<lambda>w. w\<lparr>original_pid_tgid := o_pid_tgid env, ow_flags := OWNER_LEASED\<rparr>);
       ok \<leftarrow> valid_owner env;
       if \<not> ok then State_Monad.return False else healthy True } }"

text \<open>The tail of the lease transaction, after the reservation.\<close>

definition lease_make :: "oenv \<Rightarrow> bool own" where
  "lease_make env = do {
     made \<leftarrow> storage_get env True;
     case made of
       None \<Rightarrow> do { count_admission; _ \<leftarrow> refund_local; State_Monad.return False }
     | Some w \<Rightarrow>
         if ow_flags w \<noteq> 0
         then do {
           refunded \<leftarrow> refund_local;
           if \<not> refunded then State_Monad.return False
           else do {
             ok \<leftarrow> valid_owner env;
             if \<not> ok then State_Monad.return False else healthy True } }
         else do { clear_fresh env; lease_idle env } }"

definition p11_owner_lease :: "oenv \<Rightarrow> bool own" where
  "p11_owner_lease env = do {
     ctl \<leftarrow> control env;
     ok \<leftarrow> healthy ctl;
     if \<not> ok then State_Monad.return False
     else do {
       task \<leftarrow> oask (task_found env);
       if \<not> task then do { poison OWNER_LOOKUP_UNKNOWN; State_Monad.return False }
       else do {
         owner \<leftarrow> storage_get env False;
         if (case owner of None \<Rightarrow> False | Some w \<Rightarrow> ow_flags w \<noteq> 0) then valid_owner env
         else do {
           reserved \<leftarrow> reserve_local;
           if \<not> reserved then State_Monad.return False
           else case owner of
             Some _ \<Rightarrow> lease_idle env
           | None \<Rightarrow> lease_make env } } } }"

text \<open>The owner row of the current task, once a lease is known or not asked for.\<close>

definition owner_here :: "oenv \<Rightarrow> bool \<Rightarrow> bool own" where
  "owner_here env create = do {
     task \<leftarrow> oask (task_found env);
     if \<not> task then do { poison OWNER_LOOKUP_UNKNOWN; State_Monad.return False }
     else do {
       owner \<leftarrow> storage_get env False;
       if (case owner of None \<Rightarrow> False | Some w \<Rightarrow> ow_flags w \<noteq> 0) then valid_owner env
       else if \<not> create then do { poison OWNER_LOOKUP_UNKNOWN; State_Monad.return False }
       else do { count_admission; State_Monad.return False } } }"

definition get_owner :: "oenv \<Rightarrow> bool \<Rightarrow> bool \<Rightarrow> bool own" where
  "get_owner env ctl create = do {
     ok \<leftarrow> healthy ctl;
     leased \<leftarrow> (if \<not> ok then State_Monad.return False
                else if create then p11_owner_lease env else State_Monad.return True);
     if \<not> leased then State_Monad.return False else owner_here env create }"

definition release_empty :: "oenv \<Rightarrow> bool own" where
  "release_empty env = do {
     w \<leftarrow> oget (owner_at env);
     if start_count w \<noteq> 0 \<or> occupied w \<noteq> 0 then State_Monad.return True
     else do {
       owner_set env (\<lambda>w. w\<lparr>original_pid_tgid := 0, selection_domains := 0, ow_flags := 0\<rparr>);
       p11_owner_refund env } }"


section \<open>Subordinate object rows\<close>

abbreviation start_lookup :: "oenv \<Rightarrow> owner_start_key \<Rightarrow> CallStart option own" where
  "start_lookup env \<equiv> row_lookup env o_start"

abbreviation start_update :: "oenv \<Rightarrow> owner_start_key \<Rightarrow> CallStart \<Rightarrow> u64 \<Rightarrow> int own" where
  "start_update env \<equiv> row_update env o_start o_start_update"

abbreviation start_delete :: "oenv \<Rightarrow> owner_start_key \<Rightarrow> int own" where
  "start_delete env \<equiv> row_delete env o_start o_start_update"

abbreviation object_lookup :: "oenv \<Rightarrow> owner_start_key \<Rightarrow> ObjectStart option own" where
  "object_lookup env \<equiv> row_lookup env o_object"

abbreviation object_update :: "oenv \<Rightarrow> owner_start_key \<Rightarrow> ObjectStart \<Rightarrow> u64 \<Rightarrow> int own" where
  "object_update env \<equiv> row_update env o_object o_object_update"

abbreviation object_delete :: "oenv \<Rightarrow> owner_start_key \<Rightarrow> int own" where
  "object_delete env \<equiv> row_delete env o_object o_object_update"

definition object_put :: "owner_start_key \<Rightarrow> ObjectStart \<Rightarrow> unit own" where
  "object_put key side = oput (\<lambda>s. s\<lparr>o_object := (o_object s)(key := Some side)\<rparr>)"

definition start_key_valid :: "oenv \<Rightarrow> owner_start_key \<Rightarrow> bool own" where
  "start_key_valid env key =
     oget (\<lambda>s. sk_slot key < OWNER_SLOT_BOUND \<and> sk_pad key = 0 \<and> sk_pid key = original_pid_tgid (owner_at env s))"

text \<open>A required marker gives the descriptor index and the action of its row.\<close>

datatype marker_verdict = MarkerOrdinary | MarkerRequired u32 u8 | MarkerInvalid

definition object_marker_verdict :: "ObjectDescriptorWire list \<Rightarrow> u64 \<Rightarrow> marker_verdict" where
  "object_marker_verdict rows marker =
     (if marker = 0 then MarkerOrdinary
      else if marker - 2 > OBJECT_DESCRIPTORS_COUNT - 2 then MarkerInvalid
      else let row_key = ucast (marker - 1) in
        case descriptor_row rows row_key of
          None \<Rightarrow> MarkerInvalid
        | Some row \<Rightarrow>
            if od_function row \<noteq> row_key - 1 then MarkerInvalid
            else if (ucast (od_action row) :: u32) - 1 > 13 then MarkerInvalid
            else if (ucast (od_guard row) :: u32) - 1 > 1 then MarkerInvalid
            else MarkerRequired row_key (od_action row))"

definition object_binding_matches :: "ObjectStart \<Rightarrow> CallStart \<Rightarrow> u32 \<Rightarrow> bool" where
  "object_binding_matches side start index =
     (let diff = ucast (os_descriptor_index side XOR index) :: u64;
          diff = diff OR (task_cookie (os_image side) XOR task_cookie (cs_image start));
          diff = diff OR (exec_id (os_image side) XOR exec_id (cs_image start));
          diff = diff OR (os_entry_ns side XOR cs_ts_ns start) in
      diff = 0)"

definition zero_side :: ObjectStart where
  "zero_side =
     \<lparr>os_image = \<lparr>task_cookie = 0, exec_id = 0\<rparr>, os_entry_ns = 0, os_descriptor_index = 0, os_layout = 0, os_action = 0,
      os_derive = 0, os_phase = 0, os_inputs = [0, 0], os_result_ptrs = [0, 0], os_get_template_base = 0,
      os_inspected_header_end = 0, os_find_capacity = 0, os_find_count_ptr = 0, os_slots = replicate 8 default_slot,
      os_requested = [zero_list, zero_list], os_input_statuses = [0, 0], os_result_statuses = [0, 0], os_flags = 0,
      os_get_inspected = 0\<rparr>"

definition object_scrub_side :: "owner_start_key \<Rightarrow> unit own" where
  "object_scrub_side key = object_put key zero_side"

definition object_side_delete :: "oenv \<Rightarrow> owner_start_key \<Rightarrow> bool own" where
  "object_side_delete env key = do {
     object_scrub_side key;
     rc \<leftarrow> object_delete env key;
     if rc \<noteq> 0 then do { poison OWNER_STATE_DELETE_FAILED; State_Monad.return False }
     else State_Monad.return True }"

text \<open>The verdict on the side row at START removal: settled, contradicted (START still
  goes), or kept because it could not be deleted.\<close>

datatype side_settlement = SideSettled | SideContradicted | SideKept

definition side_contradicted :: "oenv \<Rightarrow> owner_start_key \<Rightarrow> ObjectStart option \<Rightarrow> side_settlement own" where
  "side_contradicted env key side = do {
     gone \<leftarrow> (case side of None \<Rightarrow> State_Monad.return True | Some _ \<Rightarrow> object_side_delete env key);
     if \<not> gone then State_Monad.return SideKept
     else do { bookkeeping OWNER_OBJECT_MISMATCH; State_Monad.return SideContradicted } }"

abbreviation live_phase :: "u8 \<Rightarrow> bool" where
  "live_phase p \<equiv> p = OBJECT_PHASE_ENTRY \<or> p = OBJECT_PHASE_READY \<or> p = OBJECT_PHASE_RETURNING"

definition object_side_for_remove :: "oenv \<Rightarrow> CallStart \<Rightarrow> owner_start_key \<Rightarrow> side_settlement own" where
  "object_side_for_remove env start key = do {
     let verdict = object_marker_verdict (object_rows env) (cs_object_required start);
     side \<leftarrow> object_lookup env key;
     case verdict of
       MarkerInvalid \<Rightarrow> side_contradicted env key side
     | MarkerOrdinary \<Rightarrow>
         (case side of None \<Rightarrow> State_Monad.return SideSettled | Some _ \<Rightarrow> side_contradicted env key side)
     | MarkerRequired index _ \<Rightarrow>
         (case side of
            None \<Rightarrow> side_contradicted env key side
          | Some row \<Rightarrow>
              if \<not> object_binding_matches row start index then side_contradicted env key side
              else if \<not> live_phase (os_phase row) then side_contradicted env key side
              else do {
                gone \<leftarrow> object_side_delete env key;
                State_Monad.return (if gone then SideSettled else SideKept) }) }"

definition object_rollback_insert :: "oenv \<Rightarrow> owner_start_key \<Rightarrow> unit own" where
  "object_rollback_insert env key = do {
     rc \<leftarrow> start_delete env key;
     if rc \<noteq> 0 then poison OWNER_STATE_DELETE_FAILED
     else do {
       owner_set env (\<lambda>w. w\<lparr>start_count := start_count w - 1\<rparr>);
       _ \<leftarrow> release_empty env;
       State_Monad.return () } }"

definition rollback_mismatch :: "oenv \<Rightarrow> owner_start_key \<Rightarrow> int own" where
  "rollback_mismatch env key = do {
     object_rollback_insert env key;
     bookkeeping OWNER_OBJECT_MISMATCH;
     State_Monad.return (- 1) }"

definition zero_ready :: "oenv \<Rightarrow> bool" where
  "zero_ready env \<longleftrightarrow> (case zero_row env of None \<Rightarrow> False | Some ws \<Rightarrow> \<forall>w \<in> set ws. w = 0)"

definition bind_side :: "u32 \<Rightarrow> u8 \<Rightarrow> CallStart \<Rightarrow> ObjectStart \<Rightarrow> ObjectStart" where
  "bind_side index act start side =
     side\<lparr>os_image := cs_image start, os_entry_ns := cs_ts_ns start, os_descriptor_index := index, os_action := act,
          os_phase := OBJECT_PHASE_ENTRY\<rparr>"

definition object_side_alloc :: "oenv \<Rightarrow> owner_start_key \<Rightarrow> CallStart \<Rightarrow> int own" where
  "object_side_alloc env key start =
     (case object_marker_verdict (object_rows env) (cs_object_required start) of
        MarkerOrdinary \<Rightarrow> State_Monad.return 0
      | MarkerInvalid \<Rightarrow> rollback_mismatch env key
      | MarkerRequired index act \<Rightarrow>
          if \<not> zero_ready env then rollback_mismatch env key
          else do {
            rc \<leftarrow> object_update env key zero_side 1;
            if rc \<noteq> 0
            then do {
              object_rollback_insert env key;
              _ \<leftarrow> (if rc = EEXIST then bookkeeping OWNER_OBJECT_MISMATCH else count_admission);
              State_Monad.return rc }
            else do {
              side \<leftarrow> object_lookup env key;
              case side of
                None \<Rightarrow> do {
                  orphan \<leftarrow> object_delete env key;
                  if orphan \<noteq> 0 \<and> orphan \<noteq> ENOENT
                  then do {
                    poison OWNER_STATE_DELETE_FAILED;
                    bookkeeping OWNER_OBJECT_MISMATCH;
                    State_Monad.return (- 1) }
                  else rollback_mismatch env key }
              | Some side \<Rightarrow> do { object_put key (bind_side index act start side); State_Monad.return 0 } } })"

section \<open>START rows\<close>

definition peek_absent_owner :: "oenv \<Rightarrow> bool own" where
  "peek_absent_owner env = do {
     task \<leftarrow> oask (task_found env);
     if \<not> task then State_Monad.return False
     else do {
       owner \<leftarrow> storage_get env False;
       if (case owner of None \<Rightarrow> False | Some w \<Rightarrow> ow_flags w \<noteq> 0) then valid_owner env else State_Monad.return False } }"

text \<open>The prologue that the queries and removals share: a key out of range is refused,
  an absent optional row ends the call with \<open>absent\<close>, otherwise the owner is looked up
  and \<open>body\<close> runs under it.\<close>

definition with_owner :: "oenv \<Rightarrow> bool \<Rightarrow> bool own \<Rightarrow> 'a \<Rightarrow> 'a own \<Rightarrow> 'a own \<Rightarrow> 'a own" where
  "with_owner env in_range missing refused absent body = do {
     ctl \<leftarrow> control env;
     ok \<leftarrow> healthy ctl;
     if \<not> ok \<or> \<not> in_range then State_Monad.return refused
     else do {
       none \<leftarrow> missing;
       if none then absent
       else do {
         owner \<leftarrow> get_owner env ctl False;
         if \<not> owner then State_Monad.return refused else body } } }"

definition optional_missing :: "bool \<Rightarrow> 'v option own \<Rightarrow> bool own" where
  "optional_missing required lookup =
     (if required then State_Monad.return False
      else do { row \<leftarrow> lookup; State_Monad.return (case row of None \<Rightarrow> True | Some _ \<Rightarrow> False) })"

abbreviation start_in_range :: "owner_start_key \<Rightarrow> bool" where
  "start_in_range key \<equiv> sk_slot key < OWNER_SLOT_BOUND \<and> sk_pad key = 0"

definition p11_owner_start_get :: "oenv \<Rightarrow> owner_start_key \<Rightarrow> bool \<Rightarrow> CallStart option own" where
  "p11_owner_start_get env key required =
     with_owner env (start_in_range key) (optional_missing required (start_lookup env key)) None
       (do { _ \<leftarrow> peek_absent_owner env; State_Monad.return None })
       (do {
         valid \<leftarrow> start_key_valid env key;
         starts \<leftarrow> oget (start_count \<circ> owner_at env);
         if \<not> valid then do { bookkeeping OWNER_START_KEY_MISMATCH; State_Monad.return None }
         else if starts = 0 then do { bookkeeping OWNER_START_COUNT_MISMATCH; State_Monad.return None }
         else do {
           row \<leftarrow> start_lookup env key;
           _ \<leftarrow> (if row = None then bookkeeping OWNER_START_ROW_MISSING else State_Monad.return ());
           State_Monad.return row } })"

definition remove_start :: "oenv \<Rightarrow> owner_start_key \<Rightarrow> int own" where
  "remove_start env key = do {
     row \<leftarrow> start_lookup env key;
     starts \<leftarrow> oget (start_count \<circ> owner_at env);
     case row of
       None \<Rightarrow> do { bookkeeping OWNER_START_ROW_MISSING; State_Monad.return (- 1) }
     | Some start \<Rightarrow>
         if starts = 0 then do { bookkeeping OWNER_START_COUNT_MISMATCH; State_Monad.return (- 1) }
         else do {
           side \<leftarrow> object_side_for_remove env start key;
           if side = SideKept then State_Monad.return (- 1)
           else do {
             rc \<leftarrow> start_delete env key;
             if rc \<noteq> 0 then do { poison OWNER_STATE_DELETE_FAILED; State_Monad.return rc }
             else do {
               owner_set env (\<lambda>w. w\<lparr>start_count := start_count w - 1\<rparr>);
               State_Monad.return (if side = SideSettled then 0 else - 1) } } } }"

definition absent_verdict :: "int own" where
  "absent_verdict = do { ok \<leftarrow> healthy True; State_Monad.return (if ok then ENOENT else - 1) }"

definition p11_owner_start_remove :: "oenv \<Rightarrow> owner_start_key \<Rightarrow> bool \<Rightarrow> int own" where
  "p11_owner_start_remove env key required =
     with_owner env (start_in_range key) (optional_missing required (start_lookup env key)) (- 1)
       (do { _ \<leftarrow> peek_absent_owner env; absent_verdict })
       (do {
         valid \<leftarrow> start_key_valid env key;
         if \<not> valid then do { bookkeeping OWNER_START_KEY_MISMATCH; State_Monad.return (- 1) }
         else do {
           rc \<leftarrow> remove_start env key;
           released \<leftarrow> release_empty env;
           State_Monad.return (if rc \<noteq> 0 then rc else if \<not> released then - 1 else 0) } })"

text \<open>An existing row under the key of an insertion is retired, not replaced.\<close>

definition collision_remove :: "oenv \<Rightarrow> owner_start_key \<Rightarrow> unit own" where
  "collision_remove env key = do {
     row \<leftarrow> start_lookup env key;
     _ \<leftarrow> (if row = None then State_Monad.return 0 else remove_start env key);
     _ \<leftarrow> release_empty env;
     State_Monad.return () }"

definition insert_as_owner :: "oenv \<Rightarrow> owner_start_key \<Rightarrow> CallStart \<Rightarrow> int own" where
  "insert_as_owner env key start = do {
     valid \<leftarrow> start_key_valid env key;
     starts \<leftarrow> oget (start_count \<circ> owner_at env);
     if \<not> valid then do { count_admission; _ \<leftarrow> release_empty env; State_Monad.return (- 1) }
     else if starts \<ge> OWNER_SLOT_BOUND
     then do { count_admission; _ \<leftarrow> remove_start env key; State_Monad.return (- 1) }
     else do {
       owner_set env (\<lambda>w. w\<lparr>start_count := start_count w + 1\<rparr>);
       rc \<leftarrow> start_update env key start 1;
       if rc \<noteq> 0
       then do {
         owner_set env (\<lambda>w. w\<lparr>start_count := start_count w - 1\<rparr>);
         count_admission;
         collision_remove env key;
         State_Monad.return rc }
       else object_side_alloc env key start } }"

definition p11_owner_start_insert :: "oenv \<Rightarrow> owner_start_key \<Rightarrow> CallStart \<Rightarrow> int own" where
  "p11_owner_start_insert env key start = do {
     ctl \<leftarrow> control env;
     owner \<leftarrow> get_owner env ctl True;
     if \<not> owner then State_Monad.return (- 1) else insert_as_owner env key start }"

definition zero_start :: CallStart where
  "zero_start =
     \<lparr>cs_ts_ns = 0, cs_session = 0, cs_slot_id = 0, cs_mechanism = 0, cs_mechanism_ptr = 0, cs_flags = 0, cs_out_ptr = 0,
      cs_user_type = 0, cs_shape = 0, cs_p0 = 0, cs_p1 = 0, cs_p2 = 0, cs_async_value = 0, cs_attr_types = replicate 8 0,
      cs_attr_count = 0, cs_attr_total = 0, cs_attr_bools = 0, cs_attr_bools_seen = 0, cs_attr_types1 = replicate 8 0,
      cs_attr_count1 = 0, cs_attr_total1 = 0, cs_attr_bools1 = 0, cs_attr_bools_seen1 = 0, cs_capture = 0,
      cs_target_function = 0, cs_object_required = 0, cs_image = \<lparr>task_cookie = 0, exec_id = 0\<rparr>\<rparr>"

definition start_put :: "owner_start_key \<Rightarrow> CallStart \<Rightarrow> unit own" where
  "start_put key start = oput (\<lambda>s. s\<lparr>o_start := (o_start s)(key := Some start)\<rparr>)"

text \<open>What \<^verbatim>\<open>begin_owned_start\<close> writes into the fresh row: an aggregate call has no seed.\<close>

definition seeded_start :: "call_start_seed option \<Rightarrow> u64 \<Rightarrow> CallStart \<Rightarrow> CallStart" where
  "seeded_start seed aggregate_ts row =
     (case seed of
        None \<Rightarrow> row\<lparr>cs_ts_ns := aggregate_ts\<rparr>
      | Some d \<Rightarrow> row\<lparr>cs_ts_ns := seed_ts_ns d, cs_object_required := seed_object_required d, cs_image := seed_image d\<rparr>)"

definition begin_row :: "oenv \<Rightarrow> owner_start_key \<Rightarrow> call_start_seed option \<Rightarrow> u64 \<Rightarrow> CallStart option own" where
  "begin_row env key seed aggregate_ts = do {
     row \<leftarrow> start_lookup env key;
     case row of
       None \<Rightarrow> do {
         object_rollback_insert env key;
         bookkeeping OWNER_START_ROW_MISSING;
         State_Monad.return None }
     | Some row \<Rightarrow> do {
         let start = seeded_start seed aggregate_ts row;
         start_put key start;
         if seed = None then State_Monad.return (Some start)
         else do {
           rc \<leftarrow> object_side_alloc env key start;
           State_Monad.return (if rc \<noteq> 0 then None else Some start) } } }"

definition begin_as_owner :: "oenv \<Rightarrow> owner_start_key \<Rightarrow> call_start_seed option \<Rightarrow> u64 \<Rightarrow> CallStart option own" where
  "begin_as_owner env key seed aggregate_ts = do {
     valid \<leftarrow> start_key_valid env key;
     starts \<leftarrow> oget (start_count \<circ> owner_at env);
     if \<not> valid \<or> (case seed of None \<Rightarrow> False | Some d \<Rightarrow> task_cookie (seed_image d) = 0)
     then do { count_admission; _ \<leftarrow> release_empty env; State_Monad.return None }
     else if starts \<ge> OWNER_SLOT_BOUND
     then do { count_admission; _ \<leftarrow> remove_start env key; State_Monad.return None }
     else if \<not> zero_ready env
     then do { bookkeeping OWNER_OBJECT_MISMATCH; _ \<leftarrow> release_empty env; State_Monad.return None }
     else do {
       owner_set env (\<lambda>w. w\<lparr>start_count := start_count w + 1\<rparr>);
       rc \<leftarrow> start_update env key zero_start 1;
       if rc \<noteq> 0
       then do {
         owner_set env (\<lambda>w. w\<lparr>start_count := start_count w - 1\<rparr>);
         count_admission;
         collision_remove env key;
         State_Monad.return None }
       else begin_row env key seed aggregate_ts } }"

definition begin_owned_start :: "oenv \<Rightarrow> owner_start_key \<Rightarrow> call_start_seed option \<Rightarrow> u64 \<Rightarrow> CallStart option own" where
  "begin_owned_start env key seed aggregate_ts = do {
     ctl \<leftarrow> control env;
     owner \<leftarrow> get_owner env ctl True;
     if \<not> owner then State_Monad.return None else begin_as_owner env key seed aggregate_ts }"

definition p11_owner_start_begin :: "oenv \<Rightarrow> owner_start_key \<Rightarrow> call_start_seed \<Rightarrow> CallStart option own" where
  "p11_owner_start_begin env key seed = begin_owned_start env key (Some seed) 0"

definition p11_owner_start_aggregate :: "oenv \<Rightarrow> owner_start_key \<Rightarrow> u64 \<Rightarrow> bool own" where
  "p11_owner_start_aggregate env key timestamp = do {
     row \<leftarrow> begin_owned_start env key None timestamp;
     State_Monad.return (row \<noteq> None) }"

definition side_query :: "oenv \<Rightarrow> owner_start_key \<Rightarrow> u32 \<Rightarrow> bool \<Rightarrow> ObjectStart option own" where
  "side_query env key descriptor required = do {
     row \<leftarrow> start_lookup env key;
     case row of
       None \<Rightarrow> State_Monad.return None
     | Some start \<Rightarrow>
         (case object_marker_verdict (object_rows env) (cs_object_required start) of
            MarkerRequired index _ \<Rightarrow>
              if index \<noteq> descriptor then State_Monad.return None
              else do {
                side \<leftarrow> object_lookup env key;
                State_Monad.return (case side of
                  None \<Rightarrow> None
                | Some o' \<Rightarrow>
                    if \<not> object_binding_matches o' start index \<or> \<not> live_phase (os_phase o')
                       \<or> required \<and> os_phase o' \<noteq> OBJECT_PHASE_READY
                    then None else Some o') }
          | _ \<Rightarrow> State_Monad.return None) }"

definition p11_object_side_get :: "oenv \<Rightarrow> owner_start_key \<Rightarrow> u32 \<Rightarrow> bool \<Rightarrow> ObjectStart option own" where
  "p11_object_side_get env key descriptor required =
     with_owner env (start_in_range key) (optional_missing required (object_lookup env key)) None
       (do { _ \<leftarrow> peek_absent_owner env; State_Monad.return None })
       (do {
         valid \<leftarrow> start_key_valid env key;
         if \<not> valid then State_Monad.return None else side_query env key descriptor required })"

section \<open>Discovery rows\<close>

abbreviation discovery_lookup :: "oenv \<Rightarrow> StateKey \<Rightarrow> StartState option own" where
  "discovery_lookup env \<equiv> row_lookup env o_discovery"

abbreviation discovery_update :: "oenv \<Rightarrow> StateKey \<Rightarrow> StartState \<Rightarrow> u64 \<Rightarrow> int own" where
  "discovery_update env \<equiv> row_update env o_discovery o_discovery_update"

abbreviation discovery_delete :: "oenv \<Rightarrow> StateKey \<Rightarrow> int own" where
  "discovery_delete env \<equiv> row_delete env o_discovery o_discovery_update"

definition discovery_key_valid :: "oenv \<Rightarrow> StateKey \<Rightarrow> bool own" where
  "discovery_key_valid env key =
     oget (\<lambda>s. sk_pid_tgid key = original_pid_tgid (owner_at env s) \<and> (sk_domain key = 1 \<or> sk_domain key = 2))"

definition discovery_cell_matches :: "thread_owner \<Rightarrow> StateKey \<Rightarrow> nat \<Rightarrow> bool" where
  "discovery_cell_matches w key slot \<longleftrightarrow>
     bit (occupied w) slot \<and> discovery_cookies w ! slot = sk_attach_cookie key
     \<and> (bit (selection_domains w) slot \<longleftrightarrow> sk_domain key = 2)"

definition directory_find :: "thread_owner \<Rightarrow> StateKey \<Rightarrow> nat option" where
  "directory_find w key = List.find (discovery_cell_matches w key) [0..<64]"

definition directory_clear :: "nat \<Rightarrow> thread_owner \<Rightarrow> thread_owner" where
  "directory_clear index w =
     w\<lparr>discovery_cookies := (discovery_cookies w)[index := 0], occupied := unset_bit index (occupied w),
       selection_domains := unset_bit index (selection_domains w)\<rparr>"

definition directory_set :: "nat \<Rightarrow> StateKey \<Rightarrow> thread_owner \<Rightarrow> thread_owner" where
  "directory_set index key w =
     w\<lparr>discovery_cookies := (discovery_cookies w)[index := sk_attach_cookie key], occupied := set_bit index (occupied w),
       selection_domains := (if sk_domain key = 2 then set_bit index (selection_domains w) else selection_domains w)\<rparr>"

definition inspect_absent_discovery :: "oenv \<Rightarrow> StateKey \<Rightarrow> unit own" where
  "inspect_absent_discovery env key = do {
     owner \<leftarrow> peek_absent_owner env;
     valid \<leftarrow> discovery_key_valid env key;
     found \<leftarrow> oget (\<lambda>s. directory_find (owner_at env s) key \<noteq> None);
     if owner \<and> valid \<and> found then bookkeeping OWNER_DIRECTORY_MISMATCH else State_Monad.return () }"

abbreviation domain_ok :: "StateKey \<Rightarrow> bool" where
  "domain_ok key \<equiv> sk_domain key = 1 \<or> sk_domain key = 2"

definition p11_owner_discovery_get :: "oenv \<Rightarrow> StateKey \<Rightarrow> bool \<Rightarrow> StartState option own" where
  "p11_owner_discovery_get env key required =
     with_owner env (domain_ok key) (optional_missing required (discovery_lookup env key)) None
       (do { inspect_absent_discovery env key; State_Monad.return None })
       (do {
         valid \<leftarrow> discovery_key_valid env key;
         found \<leftarrow> oget (\<lambda>s. directory_find (owner_at env s) key \<noteq> None);
         if \<not> valid \<or> \<not> found then do { bookkeeping OWNER_DIRECTORY_MISMATCH; State_Monad.return None }
         else do {
           row \<leftarrow> discovery_lookup env key;
           _ \<leftarrow> (if row = None then bookkeeping OWNER_DIRECTORY_MISMATCH else State_Monad.return ());
           State_Monad.return row } })"

definition remove_discovery :: "oenv \<Rightarrow> StateKey \<Rightarrow> nat \<Rightarrow> int own" where
  "remove_discovery env key index = do {
     rc \<leftarrow> discovery_delete env key;
     if rc \<noteq> 0
     then do { poison OWNER_STATE_DELETE_FAILED; State_Monad.return (if rc = ENOENT then - 1 else rc) }
     else do { owner_set env (directory_clear index); State_Monad.return 0 } }"

definition p11_owner_discovery_remove :: "oenv \<Rightarrow> StateKey \<Rightarrow> bool \<Rightarrow> int own" where
  "p11_owner_discovery_remove env key required =
     with_owner env (domain_ok key) (optional_missing required (discovery_lookup env key)) (- 1)
       (do { inspect_absent_discovery env key; absent_verdict })
       (do {
         valid \<leftarrow> discovery_key_valid env key;
         index \<leftarrow> oget (\<lambda>s. directory_find (owner_at env s) key);
         case (if valid then index else None) of
           None \<Rightarrow> do { bookkeeping OWNER_DIRECTORY_MISMATCH; State_Monad.return (- 1) }
         | Some index \<Rightarrow> do {
             rc \<leftarrow> remove_discovery env key index;
             if rc \<noteq> 0 then State_Monad.return rc
             else do {
               released \<leftarrow> release_empty env;
               State_Monad.return (if released then 0 else - 1) } } })"

definition free_cell :: "thread_owner \<Rightarrow> nat option" where
  "free_cell w = List.find (\<lambda>i. \<not> bit (occupied w) i) [0..<64]"

definition insert_cell :: "oenv \<Rightarrow> StateKey \<Rightarrow> StartState \<Rightarrow> nat \<Rightarrow> int own" where
  "insert_cell env key v i = do {
     owner_set env (directory_set i key);
     rc \<leftarrow> discovery_update env key v 1;
     if rc = 0 then State_Monad.return 0
     else do {
       owner_set env (directory_clear i);
       count_admission;
       row \<leftarrow> discovery_lookup env key;
       _ \<leftarrow> (if row \<noteq> None then bookkeeping OWNER_DIRECTORY_MISMATCH else State_Monad.return ());
       _ \<leftarrow> release_empty env;
       State_Monad.return rc } }"

definition replace_cell :: "oenv \<Rightarrow> StateKey \<Rightarrow> StartState \<Rightarrow> nat \<Rightarrow> u64 \<Rightarrow> int own" where
  "replace_cell env key v index flags =
     (if flags = 2
      then do {
        rc \<leftarrow> discovery_update env key v 2;
        _ \<leftarrow> (if rc = 0 then State_Monad.return ()
              else do {
                count_admission;
                if rc = ENOENT then bookkeeping OWNER_DIRECTORY_MISMATCH else State_Monad.return () });
        State_Monad.return rc }
      else do {
        count_admission;
        _ \<leftarrow> remove_discovery env key index;
        _ \<leftarrow> release_empty env;
        State_Monad.return EEXIST })"

definition discovery_as_owner :: "oenv \<Rightarrow> StateKey \<Rightarrow> StartState \<Rightarrow> u64 \<Rightarrow> int own" where
  "discovery_as_owner env key v flags = do {
     valid \<leftarrow> discovery_key_valid env key;
     w \<leftarrow> oget (owner_at env);
     if \<not> valid \<or> (flags \<noteq> 1 \<and> flags \<noteq> 2)
     then do { count_admission; _ \<leftarrow> release_empty env; State_Monad.return (- 1) }
     else case directory_find w key of
       Some index \<Rightarrow> replace_cell env key v index flags
     | None \<Rightarrow>
         if flags = 2 then do { bookkeeping OWNER_DIRECTORY_MISMATCH; State_Monad.return (- 1) }
         else (case free_cell w of
           Some i \<Rightarrow> insert_cell env key v i
         | None \<Rightarrow> do { count_admission; State_Monad.return (- 1) }) }"

definition p11_owner_discovery_insert :: "oenv \<Rightarrow> StateKey \<Rightarrow> StartState \<Rightarrow> u64 \<Rightarrow> int own" where
  "p11_owner_discovery_insert env key v flags = do {
     ctl \<leftarrow> control env;
     owner \<leftarrow> get_owner env ctl (flags = 1);
     if \<not> owner then State_Monad.return (- 1) else discovery_as_owner env key v flags }"

section \<open>Cleanup\<close>

definition count_abandoned_start :: "unit own" where
  "count_abandoned_start = oput (\<lambda>s. s\<lparr>o_ctl := (o_ctl s)
     \<lparr>ct_abandoned_start := saturating_count (ct_abandoned_start (o_ctl s))\<rparr>\<rparr>)"

definition count_abandoned_discovery :: "unit own" where
  "count_abandoned_discovery = oput (\<lambda>s. s\<lparr>o_ctl := (o_ctl s)
     \<lparr>ct_abandoned_discovery := saturating_count (ct_abandoned_discovery (o_ctl s))\<rparr>\<rparr>)"

abbreviation slot_key :: "u64 \<Rightarrow> nat \<Rightarrow> owner_start_key" where
  "slot_key pid slot \<equiv> \<lparr>sk_pid = pid, sk_slot = of_nat slot, sk_pad = 0\<rparr>"

text \<open>The callbacks return whether the sweep failed on their slot, which also stops it.\<close>

definition owner_cleanup_start_callback :: "oenv \<Rightarrow> u64 \<Rightarrow> nat \<Rightarrow> bool own" where
  "owner_cleanup_start_callback env pid slot =
     (if slot \<ge> unat OWNER_SLOT_BOUND then do { bookkeeping OWNER_START_KEY_MISMATCH; State_Monad.return True }
      else do {
        let key = slot_key pid slot;
        row \<leftarrow> start_lookup env key;
        if row = None then State_Monad.return False
        else do {
          rc \<leftarrow> remove_start env key;
          again \<leftarrow> start_lookup env key;
          _ \<leftarrow> (if again = None
                then do {
                  count_abandoned_start;
                  if rc \<noteq> 0 then do { _ \<leftarrow> release_empty env; State_Monad.return () } else State_Monad.return () }
                else State_Monad.return ());
          State_Monad.return (rc \<noteq> 0) } })"

definition owner_cleanup_orphan_callback :: "oenv \<Rightarrow> u64 \<Rightarrow> nat \<Rightarrow> bool own" where
  "owner_cleanup_orphan_callback env pid slot =
     (if slot \<ge> unat OWNER_SLOT_BOUND then do { bookkeeping OWNER_START_KEY_MISMATCH; State_Monad.return True }
      else do {
        let key = slot_key pid slot;
        orphan \<leftarrow> object_lookup env key;
        if orphan = None then State_Monad.return False
        else do {
          object_scrub_side key;
          rc \<leftarrow> object_delete env key;
          if rc \<noteq> 0 then do { poison OWNER_STATE_DELETE_FAILED; State_Monad.return True }
          else do { count_abandoned_start; State_Monad.return False } } })"

text \<open>\<^verbatim>\<open>bpf_loop\<close>: the callback runs on slot after slot until it stops; the result is
  whether it failed and how often it ran. The helper itself may run fewer slots than
  asked for.\<close>

fun sweep :: "(nat \<Rightarrow> bool own) \<Rightarrow> nat \<Rightarrow> nat \<Rightarrow> (bool \<times> nat) own" where
  "sweep callback i 0 = State_Monad.return (False, i)"
| "sweep callback i (Suc n) = do {
     failed \<leftarrow> callback i;
     if failed then State_Monad.return (True, Suc i) else sweep callback (Suc i) n }"

definition owner_loop :: "oenv \<Rightarrow> (nat \<Rightarrow> bool own) \<Rightarrow> (bool \<times> nat) own" where
  "owner_loop env callback = do {
     cut \<leftarrow> oask (loop_cut env);
     sweep callback 0 (min cut (unat OWNER_SLOT_BOUND)) }"

fun cleanup_cells :: "oenv \<Rightarrow> u64 \<Rightarrow> nat list \<Rightarrow> bool own" where
  "cleanup_cells env pid [] = State_Monad.return True"
| "cleanup_cells env pid (i # is) = do {
     w \<leftarrow> oget (owner_at env);
     if \<not> bit (occupied w) i then cleanup_cells env pid is
     else do {
       rc \<leftarrow> remove_discovery env
         \<lparr>sk_pid_tgid = pid, sk_attach_cookie = discovery_cookies w ! i,
          sk_domain = (if bit (selection_domains w) i then 2 else 1)\<rparr> i;
       if rc \<noteq> 0 then State_Monad.return False
       else do { count_abandoned_discovery; cleanup_cells env pid is } } }"

definition cleanup_rows :: "oenv \<Rightarrow> u64 \<Rightarrow> bool own" where
  "cleanup_rows env pid = do {
     (failed, completed) \<leftarrow> owner_loop env (owner_cleanup_start_callback env pid);
     if failed then State_Monad.return False
     else if completed \<noteq> unat OWNER_SLOT_BOUND
     then do { poison OWNER_CLASSIFIER_FAILED; State_Monad.return False }
     else do {
       starts \<leftarrow> oget (start_count \<circ> owner_at env);
       if starts \<noteq> 0 then do { bookkeeping OWNER_START_COUNT_MISMATCH; State_Monad.return False }
       else do {
         (failed, completed) \<leftarrow> owner_loop env (owner_cleanup_orphan_callback env pid);
         if failed then State_Monad.return False
         else if completed \<noteq> unat OWNER_SLOT_BOUND
         then do { poison OWNER_CLASSIFIER_FAILED; State_Monad.return False }
         else State_Monad.return True } } }"

definition cleanup_verdict :: "u32 \<Rightarrow> u32 own" where
  "cleanup_verdict settled = do { ok \<leftarrow> healthy True; State_Monad.return (if ok then settled else 1) }"

definition cleanup_leased :: "oenv \<Rightarrow> u32 own" where
  "cleanup_leased env = do {
     live_starts \<leftarrow> oget (start_count \<circ> owner_at env);
     pid \<leftarrow> oget (original_pid_tgid \<circ> owner_at env);
     rows \<leftarrow> cleanup_rows env pid;
     if \<not> rows then State_Monad.return 1
     else do {
       cells \<leftarrow> cleanup_cells env pid [0..<64];
       if \<not> cells then State_Monad.return 1
       else do {
         released \<leftarrow> release_empty env;
         if \<not> released then State_Monad.return 1
         else cleanup_verdict (if live_starts \<noteq> 0 then P11_OWNER_CLEANUP_ABANDONED_START else 0) } } }"

text \<open>Storage that answered no lookup is deleted; anything but absence is a failed
  classification.\<close>

definition cleanup_unseen :: "oenv \<Rightarrow> u32 own" where
  "cleanup_unseen env = do {
     failure \<leftarrow> oask (storage_delete_rc env);
     present \<leftarrow> oget (\<lambda>s. o_owners s (o_task env) \<noteq> None);
     let rc = delete_verdict present failure;
     _ \<leftarrow> (if rc = 0 then oput (\<lambda>s. s\<lparr>o_owners := (o_owners s)(o_task env := None)\<rparr>) else State_Monad.return ());
     _ \<leftarrow> (if rc \<noteq> ENOENT then poison OWNER_CLASSIFIER_FAILED else State_Monad.return ());
     cleanup_verdict 0 }"

definition cleanup_task :: "oenv \<Rightarrow> u32 own" where
  "cleanup_task env = do {
     owner \<leftarrow> storage_get env False;
     case owner of
       None \<Rightarrow> cleanup_unseen env
     | Some w \<Rightarrow>
         if ow_flags w = 0 \<and> original_pid_tgid w = 0 \<and> start_count w = 0 \<and> occupied w = 0 \<and> selection_domains w = 0
         then cleanup_verdict 0
         else do {
           valid \<leftarrow> valid_owner env;
           if \<not> valid then State_Monad.return 1 else cleanup_leased env } }"

definition p11_owner_cleanup :: "oenv \<Rightarrow> u32 own" where
  "p11_owner_cleanup env = do {
     ctl \<leftarrow> control env;
     if \<not> ctl then State_Monad.return 1
     else do {
       outstanding \<leftarrow> oget (ct_outstanding \<circ> o_ctl);
       if outstanding = 0 then cleanup_verdict 0
       else do {
         task \<leftarrow> oask (task_found env);
         if \<not> task then do { poison OWNER_LOOKUP_UNKNOWN; State_Monad.return 1 }
         else cleanup_task env } } }"

end
