(* ===== verification/P11_Owner_Safety.thy ===== *)
theory P11_Owner_Safety
  imports P11_Owner
begin

text \<open>
  The custody invariant of \<^verbatim>\<open>native/task_owner.c\<close>. Whatever the helpers answer, every
  native call keeps the books: the leases are counted in the control row, the START
  rows of a task in its owner row, the discovery rows in its directory; and as long
  as nothing was poisoned every row has an owner and every side row is bound to a
  START row that requires it.
\<close>

section \<open>Weakest preconditions\<close>

definition wp :: "('s, 'a) state \<Rightarrow> ('a \<Rightarrow> 's \<Rightarrow> bool) \<Rightarrow> 's \<Rightarrow> bool" where
  "wp m Q s \<longleftrightarrow> (case run_state m s of (x, s') \<Rightarrow> Q x s')"

lemma wp_return [simp]: "wp (State_Monad.return x) Q = Q x"
  by (simp add: wp_def fun_eq_iff)

lemma wp_bind [simp]: "wp (State_Monad.bind m f) Q = wp m (\<lambda>x. wp (f x) Q)"
  by (simp add: wp_def fun_eq_iff split: prod.split)

lemma wp_oget [simp]: "wp (oget f) Q s \<longleftrightarrow> Q (f s) s"
  by (simp add: wp_def oget_def)

lemma wp_oput [simp]: "wp (oput f) Q s \<longleftrightarrow> Q () (f s)"
  by (simp add: wp_def oput_def)

lemma wp_oask [simp]: "wp (oask f) Q s \<longleftrightarrow> Q (f (o_ticks s)) (s\<lparr>o_ticks := Suc (o_ticks s)\<rparr>)"
  by (simp add: wp_def oask_def)

lemma wp_conseq: "wp m Q s \<Longrightarrow> (\<And>x s'. Q x s' \<Longrightarrow> Q' x s') \<Longrightarrow> wp m Q' s"
  by (auto simp: wp_def split: prod.splits)

lemma wp_run: "wp m Q s \<Longrightarrow> run_state m s = (x, s') \<Longrightarrow> Q x s'"
  by (simp add: wp_def)

lemma wpI: "(\<And>x s'. run_state m s = (x, s') \<Longrightarrow> Q x s') \<Longrightarrow> wp m Q s"
  by (auto simp: wp_def split: prod.splits)

lemma wp_conj: "wp m Q s \<Longrightarrow> wp m R s \<Longrightarrow> wp m (\<lambda>x s. Q x s \<and> R x s) s"
  by (auto simp: wp_def split: prod.splits)

section \<open>The invariant\<close>

definition leased :: "(nat \<Rightarrow> thread_owner option) \<Rightarrow> nat set" where
  "leased m = {t. \<exists>w. m t = Some w \<and> ow_flags w \<noteq> 0}"

definition has_owner :: "(nat \<Rightarrow> thread_owner option) \<Rightarrow> u64 \<Rightarrow> bool" where
  "has_owner m pid \<longleftrightarrow> (\<exists>t w. m t = Some w \<and> ow_flags w \<noteq> 0 \<and> original_pid_tgid w = pid)"

definition pids_apart :: "(nat \<Rightarrow> thread_owner option) \<Rightarrow> bool" where
  "pids_apart m \<longleftrightarrow> (\<forall>t w t' w'. m t = Some w \<longrightarrow> m t' = Some w' \<longrightarrow> ow_flags w \<noteq> 0 \<longrightarrow> ow_flags w' \<noteq> 0 \<longrightarrow>
     original_pid_tgid w = original_pid_tgid w' \<longrightarrow> t = t')"

definition rows_of :: "(owner_start_key \<Rightarrow> CallStart option) \<Rightarrow> u64 \<Rightarrow> owner_start_key set" where
  "rows_of m pid = {k. m k \<noteq> None \<and> sk_pid k = pid}"

abbreviation key_ok :: "owner_start_key \<Rightarrow> bool" where
  "key_ok k \<equiv> sk_slot k < OWNER_SLOT_BOUND \<and> sk_pad k = 0"

definition idle :: "thread_owner \<Rightarrow> bool" where
  "idle w \<longleftrightarrow> original_pid_tgid w = 0 \<and> start_count w = 0 \<and> occupied w = 0 \<and> selection_domains w = 0"

text \<open>The directory of an owner holds each of its discovery rows in exactly one cell.\<close>

definition directory_ok :: "thread_owner \<Rightarrow> (StateKey \<Rightarrow> StartState option) \<Rightarrow> bool" where
  "directory_ok w rows \<longleftrightarrow> (\<forall>k. sk_pid_tgid k = original_pid_tgid w \<longrightarrow>
     (rows k \<noteq> None \<longleftrightarrow> (sk_domain k = 1 \<or> sk_domain k = 2) \<and> (\<exists>i < 64. discovery_cell_matches w k i))
     \<and> (\<forall>i < 64. \<forall>j < 64. (sk_domain k = 1 \<or> sk_domain k = 2) \<and> discovery_cell_matches w k i \<and> discovery_cell_matches w k j \<longrightarrow> i = j))"

definition holds :: "ostate \<Rightarrow> thread_owner \<Rightarrow> bool" where
  "holds s w \<longleftrightarrow> ow_flags w = OWNER_LEASED \<and> original_pid_tgid w \<noteq> 0
     \<and> unat (start_count w) = card (rows_of (o_start s) (original_pid_tgid w))
     \<and> selection_domains w AND NOT (occupied w) = 0 \<and> directory_ok w (o_discovery s)"

definition owner_ok :: "ostate \<Rightarrow> thread_owner \<Rightarrow> bool" where
  "owner_ok s w \<longleftrightarrow> length (discovery_cookies w) = 64 \<and> (if ow_flags w = 0 then idle w else holds s w)"

definition core :: "nat \<Rightarrow> ostate \<Rightarrow> bool" where
  "core e s \<longleftrightarrow> ct_limit (o_ctl s) = OWNER_LIMIT \<and> ct_outstanding (o_ctl s) \<le> OWNER_LIMIT
     \<and> finite (leased (o_owners s)) \<and> card (leased (o_owners s)) + e \<le> unat (ct_outstanding (o_ctl s))
     \<and> (\<forall>t w. o_owners s t = Some w \<longrightarrow> owner_ok s w)
     \<and> pids_apart (o_owners s)
     \<and> (\<forall>k. o_start s k \<noteq> None \<longrightarrow> key_ok k)"

definition row_bound :: "ObjectDescriptorWire list \<Rightarrow> CallStart option \<Rightarrow> ObjectStart option \<Rightarrow> bool" where
  "row_bound rows start side =
     (case start of
        None \<Rightarrow> side = None
      | Some st \<Rightarrow>
          (case object_marker_verdict rows (cs_object_required st) of
             MarkerInvalid \<Rightarrow> False
           | MarkerOrdinary \<Rightarrow> side = None
           | MarkerRequired index _ \<Rightarrow>
               (case side of None \<Rightarrow> False | Some o' \<Rightarrow> object_binding_matches o' st index \<and> live_phase (os_phase o'))))"

definition sound :: "ObjectDescriptorWire list \<Rightarrow> nat \<Rightarrow> owner_start_key set \<Rightarrow> ostate \<Rightarrow> bool" where
  "sound rows e K s \<longleftrightarrow> unat (ct_outstanding (o_ctl s)) = card (leased (o_owners s)) + e
     \<and> (\<forall>k. o_start s k \<noteq> None \<longrightarrow> has_owner (o_owners s) (sk_pid k))
     \<and> (\<forall>k. o_discovery s k \<noteq> None \<longrightarrow> has_owner (o_owners s) (sk_pid_tgid k))
     \<and> (\<forall>k. k \<notin> K \<longrightarrow> row_bound rows (o_start s k) (o_object s k))"

definition custody :: "ObjectDescriptorWire list \<Rightarrow> nat \<Rightarrow> owner_start_key set \<Rightarrow> ostate \<Rightarrow> bool" where
  "custody rows e K s \<longleftrightarrow> core e s \<and> (ct_poison (o_ctl s) = 0 \<longrightarrow> sound rows e K s)"

abbreviation books :: "ObjectDescriptorWire list \<Rightarrow> ostate \<Rightarrow> bool" where
  "books rows \<equiv> custody rows 0 {}"


section \<open>State changes\<close>

definition same_rows :: "ostate \<Rightarrow> ostate \<Rightarrow> bool" where
  "same_rows s s' \<longleftrightarrow> o_start s' = o_start s \<and> o_object s' = o_object s \<and> o_discovery s' = o_discovery s"

text \<open>Only the accounts, the owners and the rows matter, and a poisoned state promises
  less.\<close>

definition same_books :: "ostate \<Rightarrow> ostate \<Rightarrow> bool" where
  "same_books s s' \<longleftrightarrow> same_rows s s' \<and> o_owners s' = o_owners s \<and> ct_limit (o_ctl s') = ct_limit (o_ctl s)
     \<and> ct_outstanding (o_ctl s') = ct_outstanding (o_ctl s) \<and> (ct_poison (o_ctl s') = 0 \<longrightarrow> ct_poison (o_ctl s) = 0)"

lemma same_books_refl [simp]: "same_books s s"
  by (simp add: same_books_def same_rows_def)

lemma same_books_trans: "same_books s s' \<Longrightarrow> same_books s' s'' \<Longrightarrow> same_books s s''"
  by (simp add: same_books_def same_rows_def)

lemma custody_frame: "same_books s s' \<Longrightarrow> custody rows e K s \<Longrightarrow> custody rows e K s'"
proof -
  assume s: "same_books s s'" and c: "custody rows e K s"
  then have eq: "o_start s' = o_start s" "o_object s' = o_object s" "o_discovery s' = o_discovery s" "o_owners s' = o_owners s"
    by (simp_all add: same_books_def same_rows_def)
  have "owner_ok s' w = owner_ok s w" for w by (simp add: owner_ok_def holds_def eq)
  with s c eq show ?thesis by (simp add: same_books_def custody_def core_def sound_def)
qed

lemma same_books_steps [simp]:
  "same_books s (s\<lparr>o_ticks := n\<rparr>)"
  "same_books s (s\<lparr>o_ctl := (o_ctl s)\<lparr>ct_admission_failures := a\<rparr>\<rparr>)"
  "same_books s (s\<lparr>o_ctl := (o_ctl s)\<lparr>ct_abandoned_start := a\<rparr>\<rparr>)"
  "same_books s (s\<lparr>o_ctl := (o_ctl s)\<lparr>ct_abandoned_discovery := a\<rparr>\<rparr>)"
  "same_books s (s\<lparr>o_ctl := (o_ctl s)\<lparr>ct_poison := ct_poison (o_ctl s) OR r, ct_reclamation_failures := a\<rparr>\<rparr>)"
  by (auto simp: same_books_def same_rows_def or_eq_0_iff)

text \<open>Accounting calls leave the books as they are; \<open>frame m\<close> says so of a program.\<close>

definition frame :: "'a own \<Rightarrow> bool" where
  "frame m \<longleftrightarrow> (\<forall>s. wp m (\<lambda>_. same_books s) s)"

lemma frameI: "(\<And>s. wp m (\<lambda>_. same_books s) s) \<Longrightarrow> frame m"
  by (simp add: frame_def)

lemma frame_wp: "frame m \<Longrightarrow> wp m (\<lambda>_. same_books s) s"
  by (simp add: frame_def)

lemma frame_return [simp]: "frame (State_Monad.return x)"
  by (simp add: frame_def)

lemma frame_bind: "frame m \<Longrightarrow> (\<And>x. frame (f x)) \<Longrightarrow> frame (State_Monad.bind m f)"
proof (rule frameI)
  fix s assume m: "frame m" and f: "\<And>x. frame (f x)"
  have "wp (f x) (\<lambda>_. same_books s) s'" if "same_books s s'" for x s'
    by (rule wp_conseq[OF frame_wp[OF f]]) (rule same_books_trans[OF that])
  then show "wp (State_Monad.bind m f) (\<lambda>_. same_books s) s" by (simp add: wp_conseq[OF frame_wp[OF m]])
qed

lemma frame_if: "frame a \<Longrightarrow> frame b \<Longrightarrow> frame (if c then a else b)"
  by simp

lemma frame_basic [simp]: "frame (oget f)" "frame (oask g)"
  by (simp_all add: frame_def)

lemma frame_account [simp]:
  "frame count_admission" "frame (poison r)" "frame (bookkeeping r)" "frame count_abandoned_start" "frame count_abandoned_discovery"
  by (simp_all add: frame_def count_admission_def poison_def bookkeeping_def count_abandoned_start_def count_abandoned_discovery_def)

lemma frame_lookup [simp]: "frame (row_lookup env get key)"
  unfolding row_lookup_def by (intro frame_bind) simp_all

lemma frame_checks [simp]:
  "frame (control env)" "frame (healthy c)" "frame (valid_owner env)" "frame (start_key_valid env key)"
  "frame (discovery_key_valid env dk)" "frame (storage_get env False)"
  unfolding control_def healthy_def valid_owner_def start_key_valid_def discovery_key_valid_def storage_get_def
  by (auto intro!: frame_bind simp: split: option.split)

lemma frame_peek [simp]: "frame (peek_absent_owner env)"
  unfolding peek_absent_owner_def by (auto intro!: frame_bind)


subsection \<open>Changes under one leased owner\<close>

lemma start_key_eq: "key_ok k \<Longrightarrow> k = slot_key (sk_pid k) (unat (sk_slot k))"
  by (cases k) simp

lemma finite_slots: "finite {k. key_ok k \<and> sk_pid k = pid}"
proof (rule finite_subset)
  show "{k. key_ok k \<and> sk_pid k = pid} \<subseteq> slot_key pid ` {..<512}"
  proof
    fix k assume k: "k \<in> {k. key_ok k \<and> sk_pid k = pid}"
    then have "unat (sk_slot k) < 512" by (simp add: word_less_nat_alt)
    with k show "k \<in> slot_key pid ` {..<512}" using start_key_eq[of k] by (auto intro!: image_eqI)
  qed
qed simp

lemma core_rows_finite: "core e s \<Longrightarrow> finite (rows_of (o_start s) pid)"
  by (rule finite_subset[OF _ finite_slots[of pid]]) (auto simp: core_def rows_of_def)

lemma rows_of_put: "rows_of (m(k := Some v)) pid = (if sk_pid k = pid then insert k (rows_of m pid) else rows_of m pid)"
  by (auto simp: rows_of_def)

lemma rows_of_drop: "rows_of (m(k := None)) pid = rows_of m pid - {k}"
  by (auto simp: rows_of_def)

lemma rows_of_cong: "(\<And>k. sk_pid k = pid \<Longrightarrow> m' k = m k) \<Longrightarrow> rows_of m' pid = rows_of m pid"
  by (auto simp: rows_of_def)

lemma directory_ok_cong: "(\<And>k. sk_pid_tgid k = original_pid_tgid w \<Longrightarrow> m' k = m k) \<Longrightarrow> directory_ok w m' = directory_ok w m"
  by (simp add: directory_ok_def)

definition owns :: "nat \<Rightarrow> ostate \<Rightarrow> bool" where
  "owns t s \<longleftrightarrow> (\<exists>w. o_owners s t = Some w \<and> ow_flags w \<noteq> 0)"

text \<open>\<open>s'\<close> differs from \<open>s\<close> in the owner row of task \<open>t\<close> and in rows under its pid.\<close>

definition local_change :: "nat \<Rightarrow> thread_owner \<Rightarrow> thread_owner \<Rightarrow> ostate \<Rightarrow> ostate \<Rightarrow> bool" where
  "local_change t w w' s s' \<longleftrightarrow> o_owners s t = Some w \<and> ow_flags w \<noteq> 0 \<and> o_owners s' = (o_owners s)(t := Some w')
     \<and> original_pid_tgid w' = original_pid_tgid w \<and> length (discovery_cookies w') = 64 \<and> holds s' w'
     \<and> (\<forall>k. sk_pid k \<noteq> original_pid_tgid w \<longrightarrow> o_start s' k = o_start s k)
     \<and> (\<forall>k. sk_pid_tgid k \<noteq> original_pid_tgid w \<longrightarrow> o_discovery s' k = o_discovery s k)
     \<and> (\<forall>k. o_start s' k \<noteq> None \<longrightarrow> key_ok k) \<and> o_ctl s' = o_ctl s"

lemma local_leased:
  assumes "local_change t w w' s s'"
  shows "leased (o_owners s') = leased (o_owners s)" "has_owner (o_owners s') = has_owner (o_owners s)"
    "has_owner (o_owners s) (original_pid_tgid w)"
proof -
  have w: "o_owners s t = Some w" "ow_flags w \<noteq> 0" "o_owners s' = (o_owners s)(t := Some w')"
    "original_pid_tgid w' = original_pid_tgid w" "ow_flags w' \<noteq> 0"
    using assms by (auto simp: local_change_def holds_def)
  then show "leased (o_owners s') = leased (o_owners s)" by (auto simp: leased_def)
  have "has_owner (o_owners s') pid = has_owner (o_owners s) pid" for pid
    using w unfolding has_owner_def by (metis fun_upd_apply option.inject)
  then show "has_owner (o_owners s') = has_owner (o_owners s)" by blast
  show "has_owner (o_owners s) (original_pid_tgid w)" using w by (auto simp: has_owner_def)
qed

lemma core_local:
  assumes l: "local_change t w w' s s'" and c: "core e s"
  shows "core e s'"
proof -
  have w: "o_owners s t = Some w" "ow_flags w \<noteq> 0" "o_owners s' = (o_owners s)(t := Some w')" "holds s' w'"
    "original_pid_tgid w' = original_pid_tgid w" "length (discovery_cookies w') = 64" "o_ctl s' = o_ctl s"
    using l by (auto simp: local_change_def)
  then have f: "ow_flags w' \<noteq> 0" by (simp add: holds_def)
  have apart: "pids_apart (o_owners s)" using c by (simp add: core_def)
  have ok: "owner_ok s' x" if x: "o_owners s' t' = Some x" for t' x
  proof (cases "t' = t")
    case True
    then show ?thesis using x w f by (simp add: owner_ok_def)
  next
    case False
    then have o: "o_owners s t' = Some x" using x w by simp
    then have k: "owner_ok s x" using c by (simp add: core_def)
    show ?thesis
    proof (cases "ow_flags x = 0")
      case True
      then show ?thesis using k by (simp add: owner_ok_def)
    next
      case xf: False
      then have "original_pid_tgid x \<noteq> original_pid_tgid w"
        using apart o w(1,2) False unfolding pids_apart_def by blast
      then have "rows_of (o_start s') (original_pid_tgid x) = rows_of (o_start s) (original_pid_tgid x)"
        "directory_ok x (o_discovery s') = directory_ok x (o_discovery s)"
        using l by (auto intro!: rows_of_cong directory_ok_cong simp: local_change_def)
      then show ?thesis using k xf by (simp add: owner_ok_def holds_def)
    qed
  qed
  have "pids_apart (o_owners s')"
    using apart w f unfolding pids_apart_def by (metis fun_upd_apply option.inject)
  then show ?thesis using c ok l local_leased[OF l] w(7) by (auto simp: core_def local_change_def)
qed

lemma custody_local:
  assumes l: "local_change t w w' s s'" and c: "custody rows e K s"
    and b: "\<And>k. ct_poison (o_ctl s) = 0 \<Longrightarrow> k \<notin> K' \<Longrightarrow> row_bound rows (o_start s' k) (o_object s' k)"
  shows "custody rows e K' s'"
proof -
  have ctl: "o_ctl s' = o_ctl s" using l by (simp add: local_change_def)
  have "sound rows e K' s'" if p: "ct_poison (o_ctl s) = 0"
  proof -
    have s: "sound rows e K s" using c p by (simp add: custody_def)
    have "has_owner (o_owners s') (sk_pid k)" if "o_start s' k \<noteq> None" for k
      using that s l local_leased[OF l] by (cases "sk_pid k = original_pid_tgid w") (auto simp: sound_def local_change_def)
    moreover have "has_owner (o_owners s') (sk_pid_tgid k)" if "o_discovery s' k \<noteq> None" for k
      using that s l local_leased[OF l] by (cases "sk_pid_tgid k = original_pid_tgid w") (auto simp: sound_def local_change_def)
    ultimately show ?thesis using s b[OF p] local_leased(1)[OF l] ctl by (simp add: sound_def)
  qed
  then show ?thesis using c core_local[OF l] ctl by (simp add: custody_def)
qed


subsection \<open>A transaction of the current task\<close>

text \<open>The current task holds a lease under \<open>pid\<close>; the side rows under the keys of \<open>K\<close>
  are in transaction.\<close>

definition inside :: "oenv \<Rightarrow> nat \<Rightarrow> owner_start_key set \<Rightarrow> u64 \<Rightarrow> ostate \<Rightarrow> bool" where
  "inside env e K pid s \<longleftrightarrow> custody (object_rows env) e K s
     \<and> (\<exists>w. o_owners s (o_task env) = Some w \<and> ow_flags w \<noteq> 0 \<and> original_pid_tgid w = pid)"

abbreviation poisoned :: "ostate \<Rightarrow> bool" where
  "poisoned s \<equiv> ct_poison (o_ctl s) \<noteq> 0"

lemma inside_frame: "same_books s s' \<Longrightarrow> inside env e K pid s \<Longrightarrow> inside env e K pid s'"
  by (auto simp: inside_def custody_frame) (auto simp: same_books_def)

lemma frame_rows:
  "same_books s s' \<Longrightarrow> o_start s' = o_start s" "same_books s s' \<Longrightarrow> o_object s' = o_object s"
  "same_books s s' \<Longrightarrow> o_discovery s' = o_discovery s" "same_books s s' \<Longrightarrow> o_owners s' = o_owners s"
  by (simp_all add: same_books_def same_rows_def)

lemma poisoned_frame: "same_books s s' \<Longrightarrow> poisoned s \<Longrightarrow> poisoned s'"
  by (auto simp: same_books_def)

lemma inside_shrink:
  assumes "inside env e K pid s" "\<And>k. ct_poison (o_ctl s) = 0 \<Longrightarrow> k \<in> K \<Longrightarrow> k \<notin> K' \<Longrightarrow> row_bound (object_rows env) (o_start s k) (o_object s k)"
  shows "inside env e K' pid s"
proof -
  have "row_bound (object_rows env) (o_start s k) (o_object s k)"
    if "ct_poison (o_ctl s) = 0" "k \<notin> K'" for k
    using assms that by (cases "k \<in> K") (auto simp: inside_def custody_def sound_def)
  then show ?thesis using assms(1) by (auto simp: inside_def custody_def sound_def)
qed

lemma inside_bound:
  "inside env e K pid s \<Longrightarrow> k \<notin> K \<Longrightarrow> \<not> poisoned s \<Longrightarrow> row_bound (object_rows env) (o_start s k) (o_object s k)"
  by (simp add: inside_def custody_def sound_def)

lemma inside_poisoned: "inside env e K pid s \<Longrightarrow> poisoned s \<Longrightarrow> inside env e K' pid s"
  by (simp add: inside_def custody_def)

lemma poison_sets [simp]: "r \<noteq> 0 \<Longrightarrow> wp (poison r) (\<lambda>_ s. poisoned s) s" "wp (bookkeeping r) (\<lambda>_ s. poisoned s) s"
  by (simp_all add: poison_def bookkeeping_def or_eq_0_iff)

lemma inside_object:
  assumes "inside env e K pid s" "o_object s' = (o_object s)(key := v)" "same_books s (s'\<lparr>o_object := o_object s\<rparr>)"
  shows "inside env e (insert key K) pid s'"
proof -
  let ?s = "s'\<lparr>o_object := o_object s\<rparr>"
  have i: "inside env e K pid ?s" by (rule inside_frame[OF assms(3,1)])
  have "owner_ok s' w = owner_ok ?s w" for w by (simp add: owner_ok_def holds_def)
  then have "core e s' = core e ?s" by (simp add: core_def)
  moreover have "sound (object_rows env) e (insert key K) s'" if "sound (object_rows env) e K ?s"
    using that assms(2) by (auto simp: sound_def)
  ultimately show ?thesis using i by (auto simp: inside_def custody_def)
qed

lemma wp_frame: "frame m \<Longrightarrow> (\<And>x s'. same_books s s' \<Longrightarrow> Q x s') \<Longrightarrow> wp m Q s"
  by (rule wp_conseq[OF frame_wp])

lemma wp_lookup:
  assumes "\<And>s'. same_books s s' \<Longrightarrow> o_ctl s' = o_ctl s \<Longrightarrow> Q None s'"
    "\<And>v s'. same_books s s' \<Longrightarrow> o_ctl s' = o_ctl s \<Longrightarrow> get s' key = Some v \<Longrightarrow> Q (Some v) s'"
  shows "wp (row_lookup env get key) Q s"
proof (cases "get (s\<lparr>o_ticks := Suc (o_ticks s)\<rparr>) key")
  case None
  then show ?thesis using assms(1)[of "s\<lparr>o_ticks := Suc (o_ticks s)\<rparr>"] by (simp add: row_lookup_def)
next
  case (Some v)
  then show ?thesis using assms(1)[of "s\<lparr>o_ticks := Suc (o_ticks s)\<rparr>"] assms(2)[of "s\<lparr>o_ticks := Suc (o_ticks s)\<rparr>" v]
    by (simp add: row_lookup_def)
qed

lemma wp_poison:
  assumes "\<And>s'. same_books s s' \<Longrightarrow> poisoned s' \<Longrightarrow> Q () s'" "r \<noteq> 0"
  shows "wp (poison r) Q s"
  using wp_conj[OF frame_wp[OF frame_account(2)] poison_sets(1)[OF assms(2)]] by (rule wp_conseq) (use assms(1) in auto)

lemma wp_bookkeeping:
  assumes "\<And>s'. same_books s s' \<Longrightarrow> poisoned s' \<Longrightarrow> Q () s'"
  shows "wp (bookkeeping r) Q s"
  unfolding bookkeeping_def by (rule wp_poison, rule assms) (simp_all add: or_eq_0_iff)

text \<open>The side row of a key may be rewritten or dropped; the key then is in transaction.\<close>

lemma wp_object_put:
  assumes "inside env e K pid s"
    "\<And>s'. inside env e (insert key K) pid s' \<Longrightarrow> o_start s' = o_start s \<Longrightarrow> o_object s' key = Some v \<Longrightarrow>
      (poisoned s' = poisoned s) \<Longrightarrow> Q () s'"
  shows "wp (object_put key v) Q s"
  unfolding object_put_def wp_oput
  by (rule assms(2)) (auto intro!: inside_object[OF assms(1)])

lemma wp_object_delete:
  assumes "inside env e K pid s"
    "\<And>rc s'. rc \<noteq> 0 \<Longrightarrow> same_books s s' \<Longrightarrow> o_object s' = o_object s \<Longrightarrow> o_start s' = o_start s \<Longrightarrow>
      (rc = ENOENT \<longrightarrow> o_object s' key = None) \<Longrightarrow> Q rc s'"
    "\<And>s'. inside env e (insert key K) pid s' \<Longrightarrow> o_start s' = o_start s \<Longrightarrow> o_object s' key = None \<Longrightarrow> Q 0 s'"
  shows "wp (object_delete env key) Q s"
proof -
  let ?t = "s\<lparr>o_ticks := Suc (o_ticks s)\<rparr>" and ?u = "o_object_update (\<lambda>m. m(key := None)) (s\<lparr>o_ticks := Suc (o_ticks s)\<rparr>)"
  have u: "inside env e (insert key K) pid ?u" by (rule inside_object[OF assms(1)]) (auto simp: same_books_def same_rows_def)
  show ?thesis
    using assms(2)[of _ ?t] assms(3)[OF u] by (auto simp: row_delete_def delete_verdict_def Let_def)
qed

lemma wp_object_side_delete:
  assumes i: "inside env e K pid s"
    and no: "\<And>s'. inside env e (insert key K) pid s' \<Longrightarrow> poisoned s' \<Longrightarrow> o_start s' = o_start s \<Longrightarrow> Q False s'"
    and yes: "\<And>s'. inside env e (insert key K) pid s' \<Longrightarrow> o_start s' = o_start s \<Longrightarrow> o_object s' key = None \<Longrightarrow> Q True s'"
  shows "wp (object_side_delete env key) Q s"
proof -
  have "wp (object_delete env key) (\<lambda>rc. wp (if rc \<noteq> 0 then do { poison OWNER_STATE_DELETE_FAILED; State_Monad.return False }
      else State_Monad.return True) Q) s1"
    if s1: "inside env e (insert key K) pid s1" "o_start s1 = o_start s" for s1
  proof (rule wp_object_delete[OF s1(1)])
    fix rc s2 assume s2: "(rc::int) \<noteq> 0" "same_books s1 s2" "o_start s2 = o_start s1"
    have "wp (poison OWNER_STATE_DELETE_FAILED) (\<lambda>_. Q False) s2"
    proof (rule wp_poison)
      fix s3 assume s3: "same_books s2 s3" "poisoned s3"
      then have "same_books s1 s3" using s2(2) same_books_trans by blast
      moreover have "o_start s3 = o_start s" using s3 s2(3) s1(2) by (simp add: same_books_def same_rows_def)
      ultimately show "Q False s3" using no inside_frame s1(1) s3 by blast
    qed simp
    with s2(1) show "wp (if rc \<noteq> 0 then do { poison OWNER_STATE_DELETE_FAILED; State_Monad.return False } else State_Monad.return True) Q s2"
      by simp
  next
    fix s2 assume "inside env e (insert key (insert key K)) pid s2" "o_start s2 = o_start s1" "o_object s2 key = None"
    then show "wp (if (0::int) \<noteq> 0 then do { poison OWNER_STATE_DELETE_FAILED; State_Monad.return False } else State_Monad.return True) Q s2"
      using yes s1(2) by simp
  qed
  then show ?thesis unfolding object_side_delete_def object_scrub_side_def
    by (simp add: wp_object_put[OF i])
qed


lemma wp_side_contradicted:
  assumes i: "inside env e K pid s"
    and q: "\<And>r s'. inside env e (insert key K) pid s' \<Longrightarrow> poisoned s' \<Longrightarrow> o_start s' = o_start s \<Longrightarrow> r \<noteq> SideSettled \<Longrightarrow> Q r s'"
  shows "wp (side_contradicted env key side) Q s"
proof -
  have book: "wp (bookkeeping OWNER_OBJECT_MISMATCH) (\<lambda>_. Q SideContradicted) s1"
    if "inside env e (insert key K) pid s1" "o_start s1 = o_start s" for s1
    by (rule wp_bookkeeping, rule q[OF inside_frame[OF _ that(1)]]) (simp_all add: frame_rows that(2))
  have start: "inside env e (insert key K) pid s" by (rule inside_shrink[OF i]) simp
  show ?thesis
  proof (cases side)
    case None
    then show ?thesis using book[OF start] by (simp add: side_contradicted_def)
  next
    case (Some o')
    then show ?thesis unfolding side_contradicted_def
      by (auto intro!: wp_object_side_delete[OF i] book q)
  qed
qed

lemma wp_object_side_for_remove:
  assumes i: "inside env e {} pid s" and st: "o_start s key = Some st"
    and settled: "\<And>s'. inside env e {key} pid s' \<Longrightarrow> o_start s' = o_start s \<Longrightarrow> (\<not> poisoned s' \<longrightarrow> o_object s' key = None) \<Longrightarrow> Q SideSettled s'"
    and bad: "\<And>r s'. inside env e {key} pid s' \<Longrightarrow> poisoned s' \<Longrightarrow> o_start s' = o_start s \<Longrightarrow> r \<noteq> SideSettled \<Longrightarrow> Q r s'"
  shows "wp (object_side_for_remove env st key) Q s"
  unfolding object_side_for_remove_def Let_def wp_bind
proof (rule wp_lookup)
  fix s1 assume s1: "same_books s s1"
  have i1: "inside env e {} pid s1" by (rule inside_frame[OF s1 i])
  then have k1: "inside env e {key} pid s1" by (rule inside_shrink) simp
  have eq: "o_start s1 = o_start s" using s1 by (simp add: same_books_def same_rows_def)
  have bound: "\<not> poisoned s1 \<Longrightarrow> row_bound (object_rows env) (Some st) (o_object s1 key)"
    using inside_bound[OF i1, of key] st eq by simp
  have con: "wp (side_contradicted env key x) Q s1" for x
    by (rule wp_side_contradicted[OF i1]) (auto intro!: bad simp: eq)
  show "wp (case object_marker_verdict (object_rows env) (cs_object_required st) of
      MarkerOrdinary \<Rightarrow> case None of None \<Rightarrow> State_Monad.return SideSettled | Some x \<Rightarrow> side_contradicted env key None
      | MarkerRequired index uu \<Rightarrow> case None of None \<Rightarrow> side_contradicted env key None
          | Some row \<Rightarrow> if \<not> object_binding_matches row st index then side_contradicted env key None
              else if \<not> live_phase (os_phase row) then side_contradicted env key None
              else do { gone \<leftarrow> object_side_delete env key; State_Monad.return (if gone then SideSettled else SideKept) }
      | MarkerInvalid \<Rightarrow> side_contradicted env key None) Q s1"
    using bound con settled[OF k1 eq] by (auto simp: row_bound_def split: marker_verdict.split)
next
  fix v s1 assume s1: "same_books s s1"
  have i1: "inside env e {} pid s1" by (rule inside_frame[OF s1 i])
  have eq: "o_start s1 = o_start s" using s1 by (simp add: same_books_def same_rows_def)
  have con: "wp (side_contradicted env key x) Q s1" for x
    by (rule wp_side_contradicted[OF i1]) (auto intro!: bad simp: eq)
  have "wp (object_side_delete env key) (\<lambda>gone. Q (if gone then SideSettled else SideKept)) s1"
    by (rule wp_object_side_delete[OF i1]) (auto intro!: bad settled simp: eq)
  then show "wp (case object_marker_verdict (object_rows env) (cs_object_required st) of
      MarkerOrdinary \<Rightarrow> case Some v of None \<Rightarrow> State_Monad.return SideSettled | Some x \<Rightarrow> side_contradicted env key (Some v)
      | MarkerRequired index uu \<Rightarrow> case Some v of None \<Rightarrow> side_contradicted env key (Some v)
          | Some row \<Rightarrow> if \<not> object_binding_matches row st index then side_contradicted env key (Some v)
              else if \<not> live_phase (os_phase row) then side_contradicted env key (Some v)
              else do { gone \<leftarrow> object_side_delete env key; State_Monad.return (if gone then SideSettled else SideKept) }
      | MarkerInvalid \<Rightarrow> side_contradicted env key (Some v)) Q s1"
    using con by (auto split: marker_verdict.split)
qed


lemma insideE:
  assumes "inside env e K pid s"
  obtains w where "o_owners s (o_task env) = Some w" "ow_flags w \<noteq> 0" "original_pid_tgid w = pid" "holds s w"
    "length (discovery_cookies w) = 64" "custody (object_rows env) e K s" "core e s" "owner_at env s = w"
proof -
  obtain w where w: "o_owners s (o_task env) = Some w" "ow_flags w \<noteq> 0" "original_pid_tgid w = pid" and c: "custody (object_rows env) e K s"
    using assms by (auto simp: inside_def)
  then have "owner_ok s w" by (auto simp: custody_def core_def)
  with w c that show ?thesis by (simp add: owner_ok_def custody_def owner_at_def)
qed

abbreviation fewer :: "thread_owner \<Rightarrow> thread_owner" where
  "fewer w \<equiv> w\<lparr>start_count := start_count w - 1\<rparr>"

abbreviation more :: "thread_owner \<Rightarrow> thread_owner" where
  "more w \<equiv> w\<lparr>start_count := start_count w + 1\<rparr>"

lemma directory_ok_counts [simp]:
  "directory_ok (w\<lparr>start_count := c\<rparr>) m = directory_ok w m"
  by (simp add: directory_ok_def discovery_cell_matches_def)

lemma wp_drop_start:
  assumes i: "inside env e K pid s" and key: "sk_pid key = pid"
    and no: "\<And>rc s'. rc \<noteq> 0 \<Longrightarrow> same_books s s' \<Longrightarrow> P rc s'"
    and yes: "\<And>s'. inside env e (insert key K) pid s' \<Longrightarrow> o_start s' = (o_start s)(key := None) \<Longrightarrow>
      o_object s' = o_object s \<Longrightarrow> (poisoned s' = poisoned s) \<Longrightarrow> P' s'"
    and link: "\<And>s'. wp (owner_set env fewer) (\<lambda>_. P') s' \<Longrightarrow> P 0 s'"
  shows "wp (start_delete env key) P s"
proof -
  let ?s = "s\<lparr>o_ticks := Suc (o_ticks s)\<rparr>"
  let ?u = "o_start_update (\<lambda>m. m(key := None)) ?s"
  have i1: "inside env e K pid ?s" by (rule inside_frame[OF _ i]) simp
  obtain w where w: "o_owners ?s (o_task env) = Some w" "ow_flags w \<noteq> 0" "original_pid_tgid w = pid" "holds ?s w"
    "length (discovery_cookies w) = 64" "custody (object_rows env) e K ?s" "core e ?s" by (rule insideE[OF i1])
  let ?v = "?u\<lparr>o_owners := (o_owners ?u)(o_task env := Some (fewer w))\<rparr>"
  have "P 0 ?u" if some: "o_start s key \<noteq> None"
  proof (rule link)
    have in_rows: "key \<in> rows_of (o_start s) pid" using some key by (simp add: rows_of_def)
    have fin: "finite (rows_of (o_start s) pid)" using core_rows_finite[OF w(7), of pid] by simp
    have c: "unat (start_count w) = card (rows_of (o_start s) pid)" using w(3,4) by (simp add: holds_def)
    have "card (rows_of (o_start s) pid) \<noteq> 0" using in_rows fin by (auto simp: card_eq_0_iff)
    then have "start_count w \<noteq> 0" using c by (metis unat_0)
    then have "unat (start_count w - 1) = card (rows_of (o_start s) pid - {key})"
      using c in_rows fin by (simp add: unat_minus_one card_Diff_singleton)
    then have h: "holds ?v (fewer w)" using w(3,4) by (simp add: holds_def rows_of_drop)
    have l: "local_change (o_task env) w (fewer w) ?s ?v"
      using w key h by (auto simp: local_change_def core_def)
    have "custody (object_rows env) e (insert key K) ?v"
      by (rule custody_local[OF l w(6)]) (use w(6) in \<open>auto simp: custody_def sound_def\<close>)
    then have "inside env e (insert key K) pid ?v" using w h by (auto simp: inside_def holds_def)
    then have "P' ?v" by (rule yes) simp_all
    then show "wp (owner_set env fewer) (\<lambda>_. P') ?u" using w(1) by (simp add: owner_set_def)
  qed
  then show ?thesis using no[of _ ?s] by (auto simp: row_delete_def delete_verdict_def Let_def)
qed


subsection \<open>Leases\<close>

lemma wp_control:
  assumes "core e s" "ctl_present env" "Q True s"
  shows "wp (control env) Q s"
proof -
  have "ct_limit (o_ctl s) = OWNER_LIMIT" "\<not> ct_outstanding (o_ctl s) > OWNER_CONTROL_BOUND"
    using assms(1) by (auto simp: core_def not_less elim: order_trans)
  then show ?thesis using assms(2,3) by (simp add: control_def)
qed

lemma wp_refund:
  assumes c: "core e s" "0 < card (leased (o_owners s)) + e"
    and q: "Q True (s\<lparr>o_ctl := (o_ctl s)\<lparr>ct_outstanding := ct_outstanding (o_ctl s) - 1\<rparr>\<rparr>)"
  shows "wp refund_local Q s"
proof -
  have o: "ct_outstanding (o_ctl s) \<noteq> 0" "\<not> ct_outstanding (o_ctl s) > OWNER_CONTROL_BOUND"
    using c by (auto simp: core_def not_less elim: order_trans)
  have "add_outstanding (- 1) = oput (\<lambda>s. s\<lparr>o_ctl := (o_ctl s)\<lparr>ct_outstanding := ct_outstanding (o_ctl s) - 1\<rparr>\<rparr>)"
    by (simp add: add_outstanding_def)
  then show ?thesis using o q by (simp add: refund_local_def refund_with_def)
qed

lemma refund_custody:
  assumes c: "custody rows (Suc e) K s"
  shows "custody rows e K (s\<lparr>o_ctl := (o_ctl s)\<lparr>ct_outstanding := ct_outstanding (o_ctl s) - 1\<rparr>\<rparr>)"
proof -
  let ?s = "s\<lparr>o_ctl := (o_ctl s)\<lparr>ct_outstanding := ct_outstanding (o_ctl s) - 1\<rparr>\<rparr>"
  have n: "card (leased (o_owners s)) + Suc e \<le> unat (ct_outstanding (o_ctl s))" "ct_outstanding (o_ctl s) \<le> OWNER_LIMIT"
    using c by (auto simp: custody_def core_def)
  then have "ct_outstanding (o_ctl s) \<noteq> 0" by auto
  then have u: "unat (ct_outstanding (o_ctl s) - 1) = unat (ct_outstanding (o_ctl s)) - 1" by (simp add: unat_minus_one)
  have "owner_ok ?s w = owner_ok s w" for w by (simp add: owner_ok_def holds_def)
  moreover have "ct_outstanding (o_ctl s) - 1 \<le> OWNER_LIMIT" using n(2) u by (simp add: word_le_nat_alt)
  ultimately show ?thesis using c n u by (auto simp: custody_def core_def sound_def)
qed

definition idle_row :: "thread_owner \<Rightarrow> thread_owner" where
  "idle_row w = w\<lparr>original_pid_tgid := 0, selection_domains := 0, ow_flags := 0\<rparr>"

lemma no_cells:
  assumes "directory_ok w m" "occupied w = 0" "sk_pid_tgid k = original_pid_tgid w"
  shows "m k = None"
  using assms by (auto simp: directory_ok_def discovery_cell_matches_def)

text \<open>An owner without rows and cells gives its lease back.\<close>

lemma idle_custody:
  assumes i: "inside env e {} pid s" and z: "start_count (owner_at env s) = 0" "occupied (owner_at env s) = 0"
  shows "custody (object_rows env) (Suc e) {} (s\<lparr>o_owners := (o_owners s)(o_task env := Some (idle_row (owner_at env s)))\<rparr>)"
    (is "custody _ _ _ ?s")
proof -
  obtain w where w: "o_owners s (o_task env) = Some w" "ow_flags w \<noteq> 0" "original_pid_tgid w = pid" "holds s w"
    "length (discovery_cookies w) = 64" "custody (object_rows env) e {} s" "core e s" "owner_at env s = w" by (rule insideE[OF i])
  let ?t = "o_task env" and ?m = "(o_owners s)(o_task env := Some (idle_row w))"
  have s': "?s = s\<lparr>o_owners := ?m\<rparr>" using w by simp
  have l: "leased ?m = leased (o_owners s) - {?t}" "?t \<in> leased (o_owners s)"
    using w by (auto simp: leased_def idle_row_def)
  have fin: "finite (leased (o_owners s))" using w(7) by (simp add: core_def)
  then have card: "card (leased (o_owners s)) = Suc (card (leased ?m))" using l card.remove by metis
  have none: "o_start s k = None" if "sk_pid k = pid" for k
  proof -
    have "card (rows_of (o_start s) pid) = 0" using w(3,4,8) z(1) by (simp add: holds_def)
    then have "rows_of (o_start s) pid = {}" using core_rows_finite[OF w(7)] by simp
    then show ?thesis using that by (auto simp: rows_of_def)
  qed
  have dnone: "o_discovery s k = None" if "sk_pid_tgid k = pid" for k
    using no_cells[of w "o_discovery s" k] w(3,4,8) z(2) that by (simp add: holds_def)
  have ok: "owner_ok s x" if "o_owners s t' = Some x" for t' x using w(7) that by (simp add: core_def)
  have ok': "owner_ok ?s x" if x: "?m t' = Some x" for t' x
  proof (cases "t' = ?t")
    case True
    then show ?thesis using x w z by (auto simp: owner_ok_def idle_def idle_row_def)
  next
    case False
    then have "owner_ok s x" using ok[of t' x] x by simp
    then show ?thesis by (cases "ow_flags x = 0") (simp_all add: owner_ok_def holds_def)
  qed
  have "pids_apart (o_owners s)" using w(7) by (simp add: core_def)
  then have "pids_apart ?m" unfolding pids_apart_def idle_row_def by (auto split: if_splits)
  then have c: "core (Suc e) ?s" unfolding s' using w(7) ok'[unfolded s'] card fin l(1) by (auto simp: core_def)
  have has: "has_owner ?m p" if "has_owner (o_owners s) p" "p \<noteq> pid" for p
    using that w(1,3) unfolding has_owner_def by (metis fun_upd_apply option.inject)
  have "sound (object_rows env) (Suc e) {} ?s" if so: "sound (object_rows env) e {} s"
  proof -
    have "has_owner ?m (sk_pid k)" if "o_start s k \<noteq> None" for k
      using has[of "sk_pid k"] none[of k] so that by (auto simp: sound_def)
    moreover have "has_owner ?m (sk_pid_tgid k)" if "o_discovery s k \<noteq> None" for k
      using has[of "sk_pid_tgid k"] dnone[of k] so that by (auto simp: sound_def)
    ultimately show ?thesis using so card unfolding s' by (simp add: sound_def)
  qed
  then show ?thesis using c w(6) by (auto simp: custody_def)
qed


lemma wp_release_empty:
  assumes i: "inside env 0 {} pid s" and ctl: "ctl_present env"
    and kept: "inside env 0 {} pid s \<Longrightarrow> start_count (owner_at env s) \<noteq> 0 \<or> occupied (owner_at env s) \<noteq> 0 \<Longrightarrow> Q True s"
    and out: "\<And>s'. books (object_rows env) s' \<Longrightarrow> same_rows s s' \<Longrightarrow> o_owners s' = (o_owners s)(o_task env := Some (idle_row (owner_at env s))) \<Longrightarrow>
      (poisoned s' = poisoned s) \<Longrightarrow> start_count (owner_at env s) = 0 \<Longrightarrow> occupied (owner_at env s) = 0 \<Longrightarrow> Q True s'"
  shows "wp (release_empty env) Q s"
proof (cases "start_count (owner_at env s) \<noteq> 0 \<or> occupied (owner_at env s) \<noteq> 0")
  case True
  then show ?thesis using kept[OF i] by (simp add: release_empty_def)
next
  case False
  let ?s = "s\<lparr>o_owners := (o_owners s)(o_task env := Some (idle_row (owner_at env s)))\<rparr>"
  have c: "custody (object_rows env) (Suc 0) {} ?s" using idle_custody[OF i] False by simp
  then have "core (Suc 0) ?s" by (simp add: custody_def)
  moreover have "Q True (?s\<lparr>o_ctl := (o_ctl ?s)\<lparr>ct_outstanding := ct_outstanding (o_ctl ?s) - 1\<rparr>\<rparr>)"
    by (rule out[OF refund_custody[OF c]]) (use False in \<open>simp_all add: same_rows_def\<close>)
  ultimately have "wp (p11_owner_refund env) Q ?s"
    unfolding p11_owner_refund_def by (auto intro!: wp_control[OF _ ctl] wp_refund)
  moreover obtain w where "o_owners s (o_task env) = Some w" "owner_at env s = w" by (rule insideE[OF i])
  ultimately show ?thesis using False by (simp add: release_empty_def owner_set_def idle_row_def)
qed

lemma wp_release_books:
  assumes i: "inside env 0 {} pid s" and ctl: "ctl_present env"
    and q: "\<And>s'. books (object_rows env) s' \<Longrightarrow> same_rows s s' \<Longrightarrow> poisoned s' = poisoned s \<Longrightarrow> Q True s'"
  shows "wp (release_empty env) Q s"
  by (rule wp_release_empty[OF i ctl]) (use i in \<open>auto intro!: q simp: inside_def same_rows_def\<close>)

text \<open>Removal of one START row with its side row.\<close>

lemma row_bound_none [simp]: "row_bound rows None None"
  by (simp add: row_bound_def)

lemma wp_remove_start:
  assumes i: "inside env 0 {} pid s" and key: "sk_pid key = pid"
    and q: "\<And>rc s'. inside env 0 {} pid s' \<Longrightarrow> (\<And>k. k \<noteq> key \<Longrightarrow> o_start s' k = o_start s k) \<Longrightarrow>
      (rc = 0 \<longrightarrow> o_start s' key = None) \<Longrightarrow> (rc \<noteq> 0 \<longrightarrow> poisoned s') \<Longrightarrow> Q rc s'"
  shows "wp (remove_start env key) Q s"
proof -
  have bad: "Q rc s'" if "inside env 0 K pid s'" "o_start s' = o_start s" "poisoned s'" "rc \<noteq> 0" for rc s' K
    by (rule q[OF inside_poisoned[OF that(1,3)]]) (use that in simp_all)
  have book: "wp (bookkeeping r) (\<lambda>_. Q (- 1)) s1" if s1: "same_books s s1" for r s1
    by (rule wp_bookkeeping, rule bad[OF inside_frame[OF same_books_trans[OF s1] i]]) (simp_all add: frame_rows frame_rows[OF s1])
  have drop: "wp (start_delete env key) (\<lambda>rc. wp (if rc \<noteq> 0 then do { poison OWNER_STATE_DELETE_FAILED; State_Monad.return rc }
        else do { owner_set env fewer; State_Monad.return (if side = SideSettled then 0 else - 1) }) Q) s2"
    if s2: "inside env 0 {key} pid s2" "o_start s2 = o_start s"
      and side: "\<not> poisoned s2 \<longrightarrow> o_object s2 key = None" "side \<noteq> SideSettled \<longrightarrow> poisoned s2" for side s2
  proof (rule wp_drop_start[OF s2(1) key, where P' = "Q (if side = SideSettled then 0 else - 1)"])
    fix rc s3 assume s3: "(rc::int) \<noteq> 0" "same_books s2 s3"
    have "wp (poison OWNER_STATE_DELETE_FAILED) (\<lambda>_. Q rc) s3"
      by (rule wp_poison, rule bad[OF inside_frame[OF same_books_trans[OF s3(2)] s2(1)]])
        (use s3 s2(2) in \<open>simp_all add: frame_rows\<close>)
    with s3(1) show "wp (if rc \<noteq> 0 then do { poison OWNER_STATE_DELETE_FAILED; State_Monad.return rc }
        else do { owner_set env fewer; State_Monad.return (if side = SideSettled then 0 else - 1) }) Q s3" by simp
  next
    fix s3 assume s3: "inside env 0 (insert key {key}) pid s3" "o_start s3 = (o_start s2)(key := None)"
      "o_object s3 = o_object s2" "poisoned s3 = poisoned s2"
    have "inside env 0 {} pid s3" by (rule inside_shrink[OF s3(1)]) (use s3 side in auto)
    then show "Q (if side = SideSettled then 0 else - 1) s3" by (rule q) (use s3 s2 side in auto)
  qed simp
  have some: "wp (object_side_for_remove env st key) (\<lambda>side. wp (if side = SideKept then State_Monad.return (- 1)
      else do { rc \<leftarrow> start_delete env key;
             if rc \<noteq> 0 then do { poison OWNER_STATE_DELETE_FAILED; State_Monad.return rc }
             else do { owner_set env fewer; State_Monad.return (if side = SideSettled then 0 else - 1) } }) Q) s1"
    if s1: "same_books s s1" "o_start s1 key = Some st" for st s1
  proof (rule wp_object_side_for_remove[OF inside_frame[OF s1(1) i] s1(2)])
    fix s2 assume "inside env 0 {key} pid s2" "o_start s2 = o_start s1" "\<not> poisoned s2 \<longrightarrow> o_object s2 key = None"
    then show "wp (if SideSettled = SideKept then State_Monad.return (- 1)
      else do { rc \<leftarrow> start_delete env key;
             if rc \<noteq> 0 then do { poison OWNER_STATE_DELETE_FAILED; State_Monad.return rc }
             else do { owner_set env fewer; State_Monad.return (if SideSettled = SideSettled then 0 else - 1) } }) Q s2"
      using drop[of s2 SideSettled] by (simp add: frame_rows[OF s1(1)])
  next
    fix r s2 assume "inside env 0 {key} pid s2" "poisoned s2" "o_start s2 = o_start s1" "r \<noteq> SideSettled"
    then show "wp (if r = SideKept then State_Monad.return (- 1)
      else do { rc \<leftarrow> start_delete env key;
             if rc \<noteq> 0 then do { poison OWNER_STATE_DELETE_FAILED; State_Monad.return rc }
             else do { owner_set env fewer; State_Monad.return (if r = SideSettled then 0 else - 1) } }) Q s2"
      using drop[of s2 r] bad[of "{key}" s2 "- 1"] by (simp add: frame_rows[OF s1(1)])
  qed
  show ?thesis unfolding remove_start_def wp_bind
    by (rule wp_lookup) (use book some in \<open>auto\<close>)
qed


subsection \<open>Acquiring an owner\<close>

text \<open>What the kernel guarantees of the current task: its identity is not zero and no
  other leased task carries it.\<close>

definition task_ok :: "oenv \<Rightarrow> ostate \<Rightarrow> bool" where
  "task_ok env s \<longleftrightarrow> o_pid_tgid env \<noteq> 0
     \<and> (\<forall>t w. o_owners s t = Some w \<and> ow_flags w \<noteq> 0 \<and> original_pid_tgid w = o_pid_tgid env \<longrightarrow> t = o_task env)"

lemma card_rows: "core e s \<Longrightarrow> card (rows_of (o_start s) pid) \<le> 512"
proof -
  assume "core e s"
  then have "rows_of (o_start s) pid \<subseteq> slot_key pid ` {..<512}"
  proof (intro subsetI)
    fix k assume c: "core e s" and "k \<in> rows_of (o_start s) pid"
    then have k: "key_ok k" "sk_pid k = pid" by (auto simp: core_def rows_of_def)
    then have "unat (sk_slot k) < 512" by (simp add: word_less_nat_alt)
    with k show "k \<in> slot_key pid ` {..<512}" using start_key_eq[of k] by (auto intro!: image_eqI)
  qed
  then have "card (rows_of (o_start s) pid) \<le> card (slot_key pid ` {..<512})" by (intro card_mono) simp_all
  also have "\<dots> \<le> 512" using card_image_le[of "{..<512::nat}" "slot_key pid"] by simp
  finally show ?thesis .
qed

lemma wp_valid_owner:
  assumes i: "inside env e K pid s" and q: "Q True s"
  shows "wp (valid_owner env) Q s"
proof -
  obtain w where w: "o_owners s (o_task env) = Some w" "ow_flags w \<noteq> 0" "original_pid_tgid w = pid" "holds s w"
    "length (discovery_cookies w) = 64" "custody (object_rows env) e K s" "core e s" "owner_at env s = w" by (rule insideE[OF i])
  have "o_task env \<in> leased (o_owners s)" using w by (auto simp: leased_def)
  then have "card (leased (o_owners s)) \<noteq> 0" using w(7) by (auto simp: core_def)
  then have "ct_outstanding (o_ctl s) \<noteq> 0" using w(7) by (auto simp: core_def)
  moreover have "\<not> start_count w > OWNER_SLOT_BOUND"
    using card_rows[OF w(7), of pid] w(3,4) by (simp add: holds_def word_less_nat_alt)
  ultimately show ?thesis using w q by (simp add: valid_owner_def holds_def)
qed

lemma custody_idle:
  assumes c: "custody rows e K s" and w: "o_owners s t = None \<or> (\<exists>x. o_owners s t = Some x \<and> ow_flags x = 0)"
    and w': "ow_flags w' = 0" "idle w'" "length (discovery_cookies w') = 64"
  shows "custody rows e K (s\<lparr>o_owners := (o_owners s)(t := Some w')\<rparr>)"
proof -
  let ?m = "(o_owners s)(t := Some w')"
  have "leased ?m = leased (o_owners s)" using w w' by (auto simp: leased_def)
  moreover have "has_owner ?m p = has_owner (o_owners s) p" for p
    using w w' unfolding has_owner_def by (metis fun_upd_apply option.distinct(1) option.inject)
  moreover have "pids_apart ?m" if "pids_apart (o_owners s)"
    using that w w'(1) unfolding pids_apart_def by (auto split: if_splits)
  moreover have "owner_ok (s\<lparr>o_owners := m\<rparr>) x = owner_ok s x" for m x by (simp add: owner_ok_def holds_def)
  ultimately show ?thesis using c w' by (auto simp: custody_def core_def sound_def owner_ok_def)
qed

lemma wp_reserve:
  assumes c: "custody rows e K s" "e = 0"
    and no: "\<And>s'. ct_outstanding (o_ctl s) \<ge> OWNER_LIMIT \<Longrightarrow> same_books s s' \<Longrightarrow> Q False s'"
    and yes: "\<And>s'. custody rows (Suc e) K s' \<Longrightarrow> same_rows s s' \<Longrightarrow> o_owners s' = o_owners s \<Longrightarrow> poisoned s' = poisoned s \<Longrightarrow> Q True s'"
  shows "wp reserve_local Q s"
proof (cases "ct_outstanding (o_ctl s) \<ge> OWNER_LIMIT")
  case True
  then show ?thesis using no by (simp add: reserve_local_def reserve_with_def count_admission_def)
next
  case False
  let ?o = "ct_outstanding (o_ctl s)"
  let ?s = "s\<lparr>o_ctl := (o_ctl s)\<lparr>ct_outstanding := ?o + 1\<rparr>\<rparr>"
  have lt: "unat ?o < 16448" using False by (simp add: word_le_nat_alt)
  then have u: "unat (?o + 1) = unat ?o + 1" by (simp add: unat_add_exact)
  then have le: "?o + 1 \<le> OWNER_LIMIT" using lt by (simp add: word_le_nat_alt)
  have "owner_ok ?s w = owner_ok s w" for w by (simp add: owner_ok_def holds_def)
  then have "custody rows (Suc e) K ?s" using c u le by (auto simp: custody_def core_def sound_def)
  then have "Q True ?s" by (rule yes) (simp_all add: same_rows_def)
  then show ?thesis using False le by (simp add: reserve_local_def reserve_with_def add_outstanding_def not_less[symmetric])
qed

lemma wp_lease_idle:
  assumes c: "custody (object_rows env) (Suc 0) {} s" "\<not> poisoned s" and t: "task_ok env s"
    and w: "o_owners s (o_task env) = Some w" "ow_flags w = 0" "length (discovery_cookies w) = 64"
    and q: "\<And>s'. inside env 0 {} (o_pid_tgid env) s' \<Longrightarrow> same_rows s s' \<Longrightarrow> \<not> poisoned s' \<Longrightarrow> Q True s'"
  shows "wp (lease_idle env) Q s"
proof -
  let ?p = "o_pid_tgid env" and ?w = "w\<lparr>original_pid_tgid := o_pid_tgid env, ow_flags := OWNER_LEASED\<rparr>"
  let ?m = "(o_owners s)(o_task env := Some ?w)"
  let ?s = "s\<lparr>o_owners := ?m\<rparr>"
  have core: "core (Suc 0) s" and so: "sound (object_rows env) (Suc 0) {} s" using c by (simp_all add: custody_def)
  have idle: "idle w" using core w by (auto simp: core_def owner_ok_def)
  have noown: "\<not> has_owner (o_owners s) ?p"
    using t w by (auto simp: task_ok_def has_owner_def)
  have rows: "rows_of (o_start s) ?p = {}" using so noown by (auto simp: sound_def rows_of_def)
  have cells: "o_discovery s k = None" if "sk_pid_tgid k = ?p" for k using so noown that by (auto simp: sound_def)
  have h: "holds ?s ?w"
    using idle rows cells t by (simp add: holds_def idle_def task_ok_def directory_ok_def discovery_cell_matches_def)
  have l: "leased ?m = insert (o_task env) (leased (o_owners s))" "o_task env \<notin> leased (o_owners s)"
    using w by (auto simp: leased_def)
  have fin: "finite (leased (o_owners s))" using core by (simp add: core_def)
  have card: "card (leased ?m) = Suc (card (leased (o_owners s)))" using l fin by simp
  have ok: "owner_ok ?s x" if "?m t' = Some x" for t' x
  proof (cases "t' = o_task env")
    case True
    then show ?thesis using that h w by (auto simp: owner_ok_def holds_def)
  next
    case False
    then have "owner_ok s x" using that core by (auto simp: core_def)
    then show ?thesis by (cases "ow_flags x = 0") (simp_all add: owner_ok_def holds_def)
  qed
  have "pids_apart (o_owners s)" using core by (simp add: core_def)
  then have "pids_apart ?m" using t w unfolding pids_apart_def task_ok_def by (auto split: if_splits)
  then have c': "core 0 ?s" using core card fin l ok by (auto simp: core_def)
  have has: "has_owner ?m p" if "has_owner (o_owners s) p" for p
    using that w unfolding has_owner_def by (metis fun_upd_apply option.inject)
  have "sound (object_rows env) 0 {} ?s" using so card has by (auto simp: sound_def)
  then have i: "inside env 0 {} ?p ?s" using c' w by (auto simp: inside_def custody_def)
  have "Q True ?s" by (rule q[OF i]) (use c in \<open>simp_all add: same_rows_def\<close>)
  then have "wp (valid_owner env) (\<lambda>ok. wp (if \<not> ok then State_Monad.return False else healthy True) Q) ?s"
    by (intro wp_valid_owner[OF i]) (use c in \<open>simp add: healthy_def\<close>)
  then show ?thesis using w idle by (simp add: lease_idle_def owner_at_def idle_def owner_set_def)
qed


text \<open>\<open>acquired\<close>: what an owner lookup leaves behind, with its verdict.\<close>

definition acquired :: "oenv \<Rightarrow> ostate \<Rightarrow> bool \<Rightarrow> ostate \<Rightarrow> bool" where
  "acquired env s ok s' \<longleftrightarrow> books (object_rows env) s' \<and> same_rows s s'
     \<and> (ok \<longrightarrow> (\<exists>pid. inside env 0 {} pid s') \<and> \<not> poisoned s')"

lemma acquired_refused: "books (object_rows env) s' \<Longrightarrow> same_rows s s' \<Longrightarrow> acquired env s False s'"
  by (simp add: acquired_def)

lemma acquired_inside: "inside env 0 {} pid s' \<Longrightarrow> same_rows s s' \<Longrightarrow> \<not> poisoned s' \<Longrightarrow> acquired env s ok s'"
  by (auto simp: acquired_def inside_def)

lemma same_rows_frame: "same_rows s s1 \<Longrightarrow> same_books s1 s2 \<Longrightarrow> same_rows s s2"
  by (simp add: same_rows_def frame_rows)

lemma books_poison:
  assumes "books (object_rows env) s1" "same_rows s s1" "frame m"
  shows "wp m (\<lambda>_. acquired env s False) s1"
  by (rule wp_frame[OF assms(3)], rule acquired_refused)
    (rule custody_frame[OF _ assms(1)], assumption, rule same_rows_frame[OF assms(2)])

lemma wp_storage_get:
  assumes "\<And>s'. same_books s s' \<Longrightarrow> poisoned s' = poisoned s \<Longrightarrow> Q None s'"
    "\<And>w s'. same_books s s' \<Longrightarrow> poisoned s' = poisoned s \<Longrightarrow> o_owners s (o_task env) = Some w \<Longrightarrow> Q (Some w) s'"
  shows "wp (storage_get env False) Q s"
  using assms(1)[of "s\<lparr>o_ticks := Suc (Suc (o_ticks s))\<rparr>"] assms(2)[of "s\<lparr>o_ticks := Suc (Suc (o_ticks s))\<rparr>"]
  by (auto simp: storage_get_def split: option.split)

lemma leased_inside:
  "custody (object_rows env) e K s \<Longrightarrow> o_owners s (o_task env) = Some w \<Longrightarrow> ow_flags w \<noteq> 0 \<Longrightarrow>
    inside env e K (original_pid_tgid w) s"
  by (auto simp: inside_def)

lemma task_ok_owners: "o_owners s' = o_owners s \<Longrightarrow> task_ok env s' = task_ok env s"
  by (simp add: task_ok_def)

lemma wp_storage_make:
  assumes c: "custody rows e K s" 
    and no: "\<And>s'. same_books s s' \<Longrightarrow> poisoned s' = poisoned s \<Longrightarrow> Q None s'"
    and yes: "\<And>w s'. custody rows e K s' \<Longrightarrow> same_rows s s' \<Longrightarrow> poisoned s' = poisoned s \<Longrightarrow> o_owners s' (o_task env) = Some w \<Longrightarrow>
      (\<And>t. t \<noteq> o_task env \<Longrightarrow> o_owners s' t = o_owners s t) \<Longrightarrow> (o_owners s (o_task env) = Some w \<or> w = zero_owner) \<Longrightarrow> Q (Some w) s'"
  shows "wp (storage_get env True) Q s"
proof -
  let ?s = "s\<lparr>o_ticks := Suc (Suc (o_ticks s))\<rparr>"
  have cs: "custody rows e K ?s" by (rule custody_frame[OF _ c]) simp
  show ?thesis
  proof (cases "o_owners s (o_task env)")
    case None
    have "custody rows e K (?s\<lparr>o_owners := (o_owners ?s)(o_task env := Some zero_owner)\<rparr>)"
      by (rule custody_idle[OF cs]) (use None in \<open>auto simp: zero_owner_def idle_def\<close>)
    then have "Q (Some zero_owner) (?s\<lparr>o_owners := (o_owners ?s)(o_task env := Some zero_owner)\<rparr>)"
      by (rule yes) (simp_all add: same_rows_def)
    then show ?thesis using None no[of ?s] by (simp add: storage_get_def)
  next
    case (Some w)
    then show ?thesis using yes[OF cs, of w] no[of ?s] by (simp add: storage_get_def same_rows_def)
  qed
qed


lemma wp_refund_books:
  assumes c: "custody (object_rows env) (Suc 0) {} s"
    and q: "\<And>s'. books (object_rows env) s' \<Longrightarrow> same_rows s s' \<Longrightarrow> o_owners s' = o_owners s \<Longrightarrow> poisoned s' = poisoned s \<Longrightarrow> Q True s'"
  shows "wp refund_local Q s"
proof (rule wp_refund)
  show "core (Suc 0) s" using c by (simp add: custody_def)
  show "Q True (s\<lparr>o_ctl := (o_ctl s)\<lparr>ct_outstanding := ct_outstanding (o_ctl s) - 1\<rparr>\<rparr>)"
    by (rule q[OF refund_custody[OF c]]) (simp_all add: same_rows_def)
qed simp

lemma same_rows_trans: "same_rows s s1 \<Longrightarrow> same_rows s1 s2 \<Longrightarrow> same_rows s s2"
  by (simp add: same_rows_def)

lemma same_books_rows: "same_books s s' \<Longrightarrow> same_rows s s'"
  by (simp add: same_books_def)

lemma wp_lease_make:
  assumes c: "custody (object_rows env) (Suc 0) {} s" "\<not> poisoned s" and t: "task_ok env s"
  shows "wp (lease_make env) (acquired env s) s"
  unfolding lease_make_def wp_bind
proof (rule wp_storage_make[OF c(1)])
  fix s1 assume s1: "same_books s s1" "poisoned s1 = poisoned s"
  have c1: "custody (object_rows env) (Suc 0) {} s1" by (rule custody_frame[OF s1(1) c(1)])
  have "wp count_admission (\<lambda>_. wp refund_local (\<lambda>_. acquired env s False)) s1"
  proof (rule wp_frame)
    fix s2 assume s2: "same_books s1 s2"
    have c2: "custody (object_rows env) (Suc 0) {} s2" by (rule custody_frame[OF s2 c1])
    show "wp refund_local (\<lambda>_. acquired env s False) s2"
      by (rule wp_refund_books[OF c2], rule acquired_refused)
        (assumption, rule same_rows_trans[OF same_books_rows[OF same_books_trans[OF s1(1) s2]]])
  qed simp
  then show "wp (case None of None \<Rightarrow> do { count_admission; _ \<leftarrow> refund_local; State_Monad.return False }
     | Some w \<Rightarrow> if ow_flags w \<noteq> 0
         then do {
           refunded \<leftarrow> refund_local;
           if \<not> refunded then State_Monad.return False
           else do { ok \<leftarrow> valid_owner env; if \<not> ok then State_Monad.return False else healthy True } }
         else do { clear_fresh env; lease_idle env }) (acquired env s) s1" by simp
next
  fix w s1 assume s1: "custody (object_rows env) (Suc 0) {} s1" "same_rows s s1" "poisoned s1 = poisoned s" "o_owners s1 (o_task env) = Some w"
    "\<And>t. t \<noteq> o_task env \<Longrightarrow> o_owners s1 t = o_owners s t" "o_owners s (o_task env) = Some w \<or> w = zero_owner"
  have busy: "wp refund_local (\<lambda>refunded. wp (if \<not> refunded then State_Monad.return False
           else do { ok \<leftarrow> valid_owner env; if \<not> ok then State_Monad.return False else healthy True }) (acquired env s)) s1" if f: "ow_flags w \<noteq> 0"
  proof (rule wp_refund_books[OF s1(1)])
    fix s2 assume s2: "books (object_rows env) s2" "same_rows s1 s2" "o_owners s2 = o_owners s1" "poisoned s2 = poisoned s1"
    have i: "inside env 0 {} (original_pid_tgid w) s2" by (rule leased_inside[OF s2(1) _ f]) (use s2 s1 in simp)
    have "acquired env s True s2" by (rule acquired_inside[OF i same_rows_trans[OF s1(2) s2(2)]]) (use s2 s1 c in simp)
    then show "wp (if \<not> True then State_Monad.return False
           else do { ok \<leftarrow> valid_owner env; if \<not> ok then State_Monad.return False else healthy True }) (acquired env s) s2"
      using s2 s1 c by (simp add: wp_valid_owner[OF i] healthy_def)
  qed
  have fresh: "wp (clear_fresh env) (\<lambda>_. wp (lease_idle env) (acquired env s)) s1" if f: "ow_flags w = 0"
  proof -
    let ?w = "zero_owner\<lparr>journal_thread := journal_thread w, journal_sequence := journal_sequence w\<rparr>"
    let ?s = "s1\<lparr>o_owners := (o_owners s1)(o_task env := Some ?w)\<rparr>"
    have i: "ow_flags ?w = 0" "idle ?w" "length (discovery_cookies ?w) = 64" by (simp_all add: zero_owner_def idle_def)
    have c2: "custody (object_rows env) (Suc 0) {} ?s" by (rule custody_idle[OF s1(1) _ i]) (use s1(4) f in simp)
    have t2: "task_ok env ?s" using t s1(5) i(1) by (auto simp: task_ok_def)
    have "wp (lease_idle env) (acquired env s) ?s"
    proof (rule wp_lease_idle[OF c2 _ t2 _ i(1,3)])
      fix s3 assume s3: "inside env 0 {} (o_pid_tgid env) s3" "same_rows ?s s3" "\<not> poisoned s3"
      show "acquired env s True s3"
        by (rule acquired_inside[OF s3(1) _ s3(3)]) (use s3(2) s1(2) in \<open>simp add: same_rows_def\<close>)
    qed (use c s1 in simp_all)
    then show ?thesis using s1(4) by (simp add: clear_fresh_def owner_set_def)
  qed
  show "wp (case Some w of None \<Rightarrow> do { count_admission; _ \<leftarrow> refund_local; State_Monad.return False }
     | Some w \<Rightarrow> if ow_flags w \<noteq> 0
         then do {
           refunded \<leftarrow> refund_local;
           if \<not> refunded then State_Monad.return False
           else do { ok \<leftarrow> valid_owner env; if \<not> ok then State_Monad.return False else healthy True } }
         else do { clear_fresh env; lease_idle env }) (acquired env s) s1"
    using busy fresh by (cases "ow_flags w = 0") simp_all
qed


lemma acquired_same_rows: "acquired env s1 ok s' \<Longrightarrow> same_rows s s1 \<Longrightarrow> acquired env s ok s'"
  by (auto simp: acquired_def same_rows_def)

lemma wp_p11_owner_lease:
  assumes c: "books (object_rows env) s" and t: "task_ok env s"
  shows "wp (p11_owner_lease env) (acquired env s) s"
proof (cases "ctl_present env \<and> \<not> poisoned s")
  case False
  have refuse: "acquired env s False s" by (rule acquired_refused[OF c]) (simp add: same_rows_def)
  show ?thesis
  proof (cases "ctl_present env")
    case True
    have "core 0 s" using c by (simp add: custody_def)
    then show ?thesis unfolding p11_owner_lease_def using True False refuse
      by (auto intro!: wp_control simp: healthy_def)
  qed (use refuse in \<open>simp add: p11_owner_lease_def control_def healthy_def\<close>)
next
  case True
  have core: "core 0 s" using c by (simp add: custody_def)
  let ?s = "s\<lparr>o_ticks := Suc (o_ticks s)\<rparr>"
  have b: "books (object_rows env) ?s" by (rule custody_frame[OF _ c]) simp
  have r: "same_rows s ?s" by (simp add: same_rows_def)
  have found: "wp (storage_get env False) (\<lambda>owner. wp (if (case owner of None \<Rightarrow> False | Some w \<Rightarrow> ow_flags w \<noteq> 0) then valid_owner env
         else do {
           reserved \<leftarrow> reserve_local;
           if \<not> reserved then State_Monad.return False
           else case owner of Some _ \<Rightarrow> lease_idle env | None \<Rightarrow> lease_make env }) (acquired env s)) ?s"
  proof (rule wp_storage_get)
    fix s1 assume s1: "same_books ?s s1" "poisoned s1 = poisoned ?s"
    have b1: "books (object_rows env) s1" by (rule custody_frame[OF s1(1) b])
    have r1: "same_rows s s1" by (rule same_rows_frame[OF r s1(1)])
    have "wp reserve_local (\<lambda>reserved. wp (if \<not> reserved then State_Monad.return False else lease_make env) (acquired env s)) s1"
    proof (rule wp_reserve[OF b1 refl])
      fix s2 assume s2: "same_books s1 s2"
      show "wp (if \<not> False then State_Monad.return False else lease_make env) (acquired env s) s2"
        using acquired_refused[OF custody_frame[OF s2 b1] same_rows_frame[OF r1 s2]] by simp
    next
      fix s2 assume s2: "custody (object_rows env) (Suc 0) {} s2" "same_rows s1 s2" "o_owners s2 = o_owners s1" "poisoned s2 = poisoned s1"
      have "wp (lease_make env) (acquired env s2) s2"
        by (rule wp_lease_make[OF s2(1)]) (use s2 s1 True t in \<open>simp_all add: frame_rows task_ok_def\<close>)
      then show "wp (if \<not> True then State_Monad.return False else lease_make env) (acquired env s) s2"
        by simp (rule wp_conseq, assumption, erule acquired_same_rows, rule same_rows_trans[OF r1 s2(2)])
    qed
    then show "wp (if (case None of None \<Rightarrow> False | Some w \<Rightarrow> ow_flags w \<noteq> 0) then valid_owner env
         else do {
           reserved \<leftarrow> reserve_local;
           if \<not> reserved then State_Monad.return False
           else case None of Some _ \<Rightarrow> lease_idle env | None \<Rightarrow> lease_make env }) (acquired env s) s1" by (simp cong: if_cong)
  next
    fix w s1 assume s1: "same_books ?s s1" "poisoned s1 = poisoned ?s" "o_owners ?s (o_task env) = Some w"
    have b1: "books (object_rows env) s1" by (rule custody_frame[OF s1(1) b])
    have r1: "same_rows s s1" by (rule same_rows_frame[OF r s1(1)])
    have w1: "o_owners s1 (o_task env) = Some w" using s1 by (simp add: frame_rows)
    have leased: "wp (valid_owner env) (acquired env s) s1" if f: "ow_flags w \<noteq> 0"
      by (rule wp_valid_owner[OF leased_inside[OF b1 w1 f]], rule acquired_inside[OF leased_inside[OF b1 w1 f] r1])
        (use s1 True in simp)
    have idle: "wp reserve_local (\<lambda>reserved. wp (if \<not> reserved then State_Monad.return False else lease_idle env) (acquired env s)) s1" if f: "ow_flags w = 0"
    proof (rule wp_reserve[OF b1 refl])
      fix s2 assume s2: "same_books s1 s2"
      show "wp (if \<not> False then State_Monad.return False else lease_idle env) (acquired env s) s2"
        using acquired_refused[OF custody_frame[OF s2 b1] same_rows_frame[OF r1 s2]] by simp
    next
      fix s2 assume s2: "custody (object_rows env) (Suc 0) {} s2" "same_rows s1 s2" "o_owners s2 = o_owners s1" "poisoned s2 = poisoned s1"
      have len: "length (discovery_cookies w) = 64" using b1 w1 by (auto simp: custody_def core_def owner_ok_def)
      have "wp (lease_idle env) (acquired env s) s2"
      proof (rule wp_lease_idle[OF s2(1) _ _ _ f len])
        fix s3 assume "inside env 0 {} (o_pid_tgid env) s3" "same_rows s2 s3" "\<not> poisoned s3"
        then show "acquired env s True s3" using acquired_inside same_rows_trans[OF r1 s2(2)] same_rows_trans by blast
      qed (use s2 s1 w1 True t in \<open>simp_all add: frame_rows task_ok_def\<close>)
      then show "wp (if \<not> True then State_Monad.return False else lease_idle env) (acquired env s) s2" by simp
    qed
    show "wp (if (case Some w of None \<Rightarrow> False | Some w \<Rightarrow> ow_flags w \<noteq> 0) then valid_owner env
         else do {
           reserved \<leftarrow> reserve_local;
           if \<not> reserved then State_Monad.return False
           else case Some w of Some _ \<Rightarrow> lease_idle env | None \<Rightarrow> lease_make env }) (acquired env s) s1"
      using leased idle by (cases "ow_flags w = 0") (simp_all cong: if_cong)
  qed
  have "wp (poison OWNER_LOOKUP_UNKNOWN) (\<lambda>_. acquired env s False) ?s" by (rule books_poison[OF b r]) simp
  then show ?thesis unfolding p11_owner_lease_def using True found
    by (auto intro!: wp_control[OF core] simp: healthy_def)
qed


lemma wp_owner_here:
  assumes c: "books (object_rows env) s1" and r1: "same_rows s s1" and p: "\<not> poisoned s1"
  shows "wp (owner_here env create) (acquired env s) s1"
proof -
  let ?s = "s1\<lparr>o_ticks := Suc (o_ticks s1)\<rparr>"
  have b: "books (object_rows env) ?s" by (rule custody_frame[OF _ c]) simp
  have r: "same_rows s ?s" using r1 by (simp add: same_rows_def)
  have no: "wp m (\<lambda>_. acquired env s False) s2" if "same_books ?s s2" "frame m" for s2 and m :: "unit own"
    by (rule books_poison[OF custody_frame[OF that(1) b] same_rows_frame[OF r that(1)] that(2)])
  have yes: "wp (valid_owner env) (acquired env s) s2"
    if s2: "same_books ?s s2" "poisoned s2 = poisoned ?s" "o_owners ?s (o_task env) = Some w" "ow_flags w \<noteq> 0" for s2 w
  proof -
    have w2: "o_owners s2 (o_task env) = Some w" using s2 by (simp add: frame_rows)
    have i: "inside env 0 {} (original_pid_tgid w) s2" by (rule leased_inside[OF custody_frame[OF s2(1) b] w2 s2(4)])
    show ?thesis
      by (rule wp_valid_owner[OF i], rule acquired_inside[OF i same_rows_frame[OF r s2(1)]]) (use s2 p in simp)
  qed
  have "wp (storage_get env False) (\<lambda>owner. wp (
         if (case owner of None \<Rightarrow> False | Some w \<Rightarrow> ow_flags w \<noteq> 0) then valid_owner env
         else if \<not> create then do { poison OWNER_LOOKUP_UNKNOWN; State_Monad.return False }
         else do { count_admission; State_Monad.return False }) (acquired env s)) ?s"
    by (rule wp_storage_get) (use no yes in simp_all)
  then show ?thesis using no[OF same_books_refl] by (simp add: owner_here_def)
qed

lemma wp_get_owner:
  assumes c: "books (object_rows env) s" and t: "create \<Longrightarrow> task_ok env s"
  shows "wp (get_owner env ctl create) (acquired env s) s"
proof (cases "ctl \<and> \<not> poisoned s")
  case False
  have "acquired env s False s" by (rule acquired_refused[OF c]) (simp add: same_rows_def)
  then show ?thesis using False by (simp add: get_owner_def healthy_def)
next
  case True
  have go: "wp (if \<not> leased then State_Monad.return False else owner_here env create) (acquired env s) s1"
    if "acquired env s leased s1" for leased s1
    using that wp_owner_here[of env s1 s create] by (cases leased) (auto simp: acquired_def)
  show ?thesis
  proof (cases create)
    case cr: True
    have "wp (p11_owner_lease env) (\<lambda>leased. wp (if \<not> leased then State_Monad.return False else owner_here env create) (acquired env s)) s"
      by (rule wp_conseq[OF wp_p11_owner_lease[OF c t[OF cr]] go])
    then show ?thesis using True cr unfolding get_owner_def by (simp add: healthy_def)
  next
    case False
    then show ?thesis using wp_owner_here[OF c, of s create] True unfolding get_owner_def by (simp add: healthy_def same_rows_def)
  qed
qed


section \<open>The START transactions\<close>

lemma wp_add_start:
  assumes i: "inside env e K pid s" and key: "sk_pid key = pid" "key_ok key" and n: "start_count (owner_at env s) < OWNER_SLOT_BOUND"
    and no: "\<And>rc s'. rc \<noteq> 0 \<Longrightarrow> (\<And>P. (\<And>s''. same_books s s'' \<Longrightarrow> P s'') \<Longrightarrow> wp (owner_set env fewer) (\<lambda>_. P) s') \<Longrightarrow> Q rc s'"
    and yes: "\<And>s'. inside env e (insert key K) pid s' \<Longrightarrow> o_start s' = (o_start s)(key := Some v) \<Longrightarrow> o_object s' = o_object s \<Longrightarrow>
      o_start s key = None \<Longrightarrow> poisoned s' = poisoned s \<Longrightarrow> Q 0 s'"
  shows "wp (owner_set env more) (\<lambda>_. wp (start_update env key v 1) Q) s"
proof -
  obtain w where w: "o_owners s (o_task env) = Some w" "ow_flags w \<noteq> 0" "original_pid_tgid w = pid" "holds s w"
    "length (discovery_cookies w) = 64" "custody (object_rows env) e K s" "core e s" "owner_at env s = w" by (rule insideE[OF i])
  let ?a = "s\<lparr>o_owners := (o_owners s)(o_task env := Some (more w))\<rparr>"
  let ?b = "?a\<lparr>o_ticks := Suc (o_ticks ?a)\<rparr>"
  let ?c = "o_start_update (\<lambda>m. m(key := Some v)) ?b"
  have undo: "wp (owner_set env fewer) (\<lambda>_. P) ?b" if "\<And>s''. same_books s s'' \<Longrightarrow> P s''" for P
    unfolding owner_set_def wp_oput by (rule that) (use w in \<open>simp add: same_books_def same_rows_def fun_upd_idem\<close>)
  have ins: "Q 0 ?c" if none: "o_start s key = None"
  proof -
    have "key \<notin> rows_of (o_start s) pid" using none by (simp add: rows_of_def)
    moreover have "finite (rows_of (o_start s) pid)" by (rule core_rows_finite[OF w(7)])
    moreover have "unat (start_count w + 1) = unat (start_count w) + 1"
      using n w(8) by (simp add: unat_add_exact word_less_nat_alt)
    ultimately have h: "holds ?c (more w)" using w(3,4) key by (simp add: holds_def rows_of_put)
    let ?s = "s\<lparr>o_ticks := Suc (o_ticks s)\<rparr>"
    have cs: "custody (object_rows env) e K ?s" by (rule custody_frame[OF _ w(6)]) simp
    have l: "local_change (o_task env) w (more w) ?s ?c"
      using w key h by (auto simp: local_change_def core_def)
    have "custody (object_rows env) e (insert key K) ?c"
      by (rule custody_local[OF l cs]) (use w(6) in \<open>auto simp: custody_def sound_def\<close>)
    then have "inside env e (insert key K) pid ?c" using w h by (auto simp: inside_def holds_def)
    then show ?thesis by (rule yes) (simp_all add: none)
  qed
  show ?thesis using w(1) ins no[OF _ undo] by (auto simp: owner_set_def row_update_def Let_def)
qed

lemma wp_object_rollback:
  assumes i: "inside env 0 {key} pid s" and key: "sk_pid key = pid" and ctl: "ctl_present env"
    and clean: "\<not> poisoned s \<longrightarrow> o_object s key = None"
    and q: "\<And>s'. books (object_rows env) s' \<Longrightarrow> (\<And>k. k \<noteq> key \<Longrightarrow> o_start s' k = o_start s k) \<Longrightarrow>
       o_start s' key = None \<or> poisoned s' \<Longrightarrow> Q () s'"
  shows "wp (object_rollback_insert env key) Q s"
  unfolding object_rollback_insert_def wp_bind
proof (rule wp_drop_start[OF i key, where P' = "wp (release_empty env) (\<lambda>_. Q ())"])
  fix rc s1 assume s1: "(rc::int) \<noteq> 0" "same_books s s1"
  have "wp (poison OWNER_STATE_DELETE_FAILED) Q s1"
  proof (rule wp_poison)
    fix s2 assume s2: "same_books s1 s2" "poisoned s2"
    have "inside env 0 {} pid s2"
      by (rule inside_poisoned[OF inside_frame[OF same_books_trans[OF s1(2) s2(1)] i] s2(2)])
    then show "Q () s2" by (intro q) (use s2 s1 in \<open>auto simp: inside_def frame_rows\<close>)
  qed simp
  with s1(1) show "wp (if rc \<noteq> 0 then poison OWNER_STATE_DELETE_FAILED
      else do { owner_set env fewer; _ \<leftarrow> release_empty env; State_Monad.return () }) Q s1" by simp
next
  fix s1 assume s1: "inside env 0 (insert key {key}) pid s1" "o_start s1 = (o_start s)(key := None)" "o_object s1 = o_object s"
    "poisoned s1 = poisoned s"
  have i1: "inside env 0 {} pid s1" by (rule inside_shrink[OF s1(1)]) (use s1 clean in auto)
  show "wp (release_empty env) (\<lambda>_. Q ()) s1"
  proof (rule wp_release_empty[OF i1 ctl])
    show "Q () s1" by (rule q) (use i1 s1 in \<open>auto simp: inside_def\<close>)
    show "\<And>s'. books (object_rows env) s' \<Longrightarrow> same_rows s1 s' \<Longrightarrow> Q () s'"
      by (rule q) (use s1 in \<open>auto simp: same_rows_def\<close>)
  qed
qed simp

definition begun :: "oenv \<Rightarrow> owner_start_key \<Rightarrow> CallStart \<Rightarrow> ostate \<Rightarrow> bool \<Rightarrow> ostate \<Rightarrow> bool" where
  "begun env key start s ok s' \<longleftrightarrow> books (object_rows env) s' \<and> (\<forall>k. k \<noteq> key \<longrightarrow> o_start s' k = o_start s k)
     \<and> (ok \<longrightarrow> inside env 0 {} (sk_pid key) s' \<and> o_start s' key = Some start \<and> (poisoned s' \<longrightarrow> poisoned s))"

lemma begun_refused:
  "books (object_rows env) s' \<Longrightarrow> (\<And>k. k \<noteq> key \<Longrightarrow> o_start s' k = o_start s k) \<Longrightarrow> begun env key start s False s'"
  by (simp add: begun_def)

lemma wp_rollback_then:
  assumes i: "inside env 0 {key} pid s1" and key: "sk_pid key = pid" and ctl: "ctl_present env"
    and clean: "\<not> poisoned s1 \<longrightarrow> o_object s1 key = None" and o: "\<And>k. k \<noteq> key \<Longrightarrow> o_start s1 k = o_start s k"
    and m: "frame m"
  shows "wp (do { object_rollback_insert env key; m }) (\<lambda>_. begun env key start s False) s1"
  unfolding wp_bind
proof (rule wp_object_rollback[OF i key ctl clean])
  fix s2 assume s2: "books (object_rows env) s2" "\<And>k. k \<noteq> key \<Longrightarrow> o_start s2 k = o_start s1 k"
  show "wp m (\<lambda>_. begun env key start s False) s2"
    by (rule wp_frame[OF m], rule begun_refused[OF custody_frame[OF _ s2(1)]]) (simp_all add: frame_rows s2 o)
qed

lemma bind_matches [simp]:
  "object_binding_matches (bind_side index act start side) start index" "os_phase (bind_side index act start side) = OBJECT_PHASE_ENTRY"
  by (simp_all add: object_binding_matches_def bind_side_def)

lemma wp_object_side_alloc:
  assumes i: "inside env 0 {key} pid s" and key: "sk_pid key = pid" and ctl: "ctl_present env"
    and clean: "\<not> poisoned s \<longrightarrow> o_object s key = None" and st: "o_start s key = Some start"
  shows "wp (object_side_alloc env key start) (\<lambda>rc. begun env key start s (rc = 0)) s"
proof (cases "object_marker_verdict (object_rows env) (cs_object_required start)")
  case MarkerOrdinary
  have "inside env 0 {} pid s" by (rule inside_shrink[OF i]) (use clean st MarkerOrdinary in \<open>auto simp: row_bound_def\<close>)
  then show ?thesis using st key MarkerOrdinary by (auto simp: object_side_alloc_def begun_def inside_def)
next
  case MarkerInvalid
  then show ?thesis
    using wp_rollback_then[OF i key ctl clean, of s "bookkeeping OWNER_OBJECT_MISMATCH" start]
    by (simp add: object_side_alloc_def rollback_mismatch_def)
next
  case (MarkerRequired index act)
  have mism: "wp (rollback_mismatch env key) (\<lambda>rc. begun env key start s (rc = 0)) s1"
    if "inside env 0 {key} pid s1" "\<not> poisoned s1 \<longrightarrow> o_object s1 key = None" "o_start s1 = o_start s" for s1
    using wp_rollback_then[OF that(1) key ctl that(2), of s "bookkeeping OWNER_OBJECT_MISMATCH" start] that(3)
    by (simp add: rollback_mismatch_def)
  let ?t = "s\<lparr>o_ticks := Suc (o_ticks s)\<rparr>" and ?u = "o_object_update (\<lambda>m. m(key := Some zero_side)) (s\<lparr>o_ticks := Suc (o_ticks s)\<rparr>)"
  have refused: "wp (do { object_rollback_insert env key;
         if rc = EEXIST then bookkeeping OWNER_OBJECT_MISMATCH else count_admission }) (\<lambda>_. begun env key start s False) ?t" for rc
    by (rule wp_rollback_then[OF inside_frame[OF _ i] key ctl]) (use clean in simp_all)
  have u: "inside env 0 {key} pid ?u" using inside_object[OF i, of ?u key "Some zero_side"] by (simp add: same_books_def same_rows_def)
  have found: "wp (object_lookup env key) (\<lambda>side. wp (case side of
        None \<Rightarrow> do {
          orphan \<leftarrow> object_delete env key;
          if orphan \<noteq> 0 \<and> orphan \<noteq> ENOENT
          then do { poison OWNER_STATE_DELETE_FAILED; bookkeeping OWNER_OBJECT_MISMATCH; State_Monad.return (- 1) }
          else rollback_mismatch env key }
      | Some side \<Rightarrow> do { object_put key (bind_side index act start side); State_Monad.return 0 })
      (\<lambda>rc. begun env key start s (rc = 0))) ?u"
  proof (rule wp_lookup)
    fix s1 assume s1: "same_books ?u s1"
    have i1: "inside env 0 {key} pid s1" by (rule inside_frame[OF s1 u])
    have st1: "o_start s1 = o_start s" using s1 by (simp add: frame_rows)
    have "wp (object_delete env key) (\<lambda>orphan. wp (if orphan \<noteq> 0 \<and> orphan \<noteq> ENOENT
          then do { poison OWNER_STATE_DELETE_FAILED; bookkeeping OWNER_OBJECT_MISMATCH; State_Monad.return (- 1) }
          else rollback_mismatch env key) (\<lambda>rc. begun env key start s (rc = 0))) s1"
    proof (rule wp_object_delete[OF i1])
      fix rc s2 assume s2: "(rc::int) \<noteq> 0" "same_books s1 s2" "rc = ENOENT \<longrightarrow> o_object s2 key = None"
      have i2: "inside env 0 {key} pid s2" by (rule inside_frame[OF s2(2) i1])
      have st2: "o_start s2 = o_start s" using s2(2) st1 by (simp add: frame_rows)
      have "wp (do { poison OWNER_STATE_DELETE_FAILED; bookkeeping OWNER_OBJECT_MISMATCH }) (\<lambda>_. begun env key start s False) s2"
      proof -
        have fr: "frame (do { poison OWNER_STATE_DELETE_FAILED; bookkeeping OWNER_OBJECT_MISMATCH })" by (intro frame_bind) simp_all
        have po: "wp (do { poison OWNER_STATE_DELETE_FAILED; bookkeeping OWNER_OBJECT_MISMATCH }) (\<lambda>_. poisoned) s2"
          unfolding wp_bind by (rule wp_conseq[OF poison_sets(1)]) simp_all
        show ?thesis
          by (rule wp_conseq[OF wp_conj[OF frame_wp[OF fr] po]], rule begun_refused)
            (use inside_poisoned[OF inside_frame[OF _ i2]] st2 in \<open>auto simp: inside_def frame_rows\<close>)
      qed
      then show "wp (if rc \<noteq> 0 \<and> rc \<noteq> ENOENT
          then do { poison OWNER_STATE_DELETE_FAILED; bookkeeping OWNER_OBJECT_MISMATCH; State_Monad.return (- 1) }
          else rollback_mismatch env key) (\<lambda>rc. begun env key start s (rc = 0)) s2"
        using mism[OF i2 _ st2] s2(1,3) by simp
    next
      fix s2 assume "inside env 0 (insert key {key}) pid s2" "o_start s2 = o_start s1" "o_object s2 key = None"
      then show "wp (if (0::int) \<noteq> 0 \<and> 0 \<noteq> ENOENT
          then do { poison OWNER_STATE_DELETE_FAILED; bookkeeping OWNER_OBJECT_MISMATCH; State_Monad.return (- 1) }
          else rollback_mismatch env key) (\<lambda>rc. begun env key start s (rc = 0)) s2"
        using mism[of s2] st1 by simp
    qed
    then show "wp (case None of
        None \<Rightarrow> do {
          orphan \<leftarrow> object_delete env key;
          if orphan \<noteq> 0 \<and> orphan \<noteq> ENOENT
          then do { poison OWNER_STATE_DELETE_FAILED; bookkeeping OWNER_OBJECT_MISMATCH; State_Monad.return (- 1) }
          else rollback_mismatch env key }
      | Some side \<Rightarrow> do { object_put key (bind_side index act start side); State_Monad.return 0 })
      (\<lambda>rc. begun env key start s (rc = 0)) s1" by simp
  next
    fix side s1 assume s1: "same_books ?u s1" "o_ctl s1 = o_ctl ?u"
    have i1: "inside env 0 {key} pid s1" by (rule inside_frame[OF s1(1) u])
    have st1: "o_start s1 = o_start s" using s1(1) by (simp add: frame_rows)
    have "wp (object_put key (bind_side index act start side)) (\<lambda>_. begun env key start s True) s1"
    proof (rule wp_object_put[OF i1])
      fix s2 assume s2: "inside env 0 (insert key {key}) pid s2" "o_start s2 = o_start s1" "poisoned s2 = poisoned s1"
        "o_object s2 key = Some (bind_side index act start side)"
      have "inside env 0 {} pid s2"
        by (rule inside_shrink[OF s2(1)]) (use s2 st1 st MarkerRequired in \<open>auto simp: row_bound_def\<close>)
      then show "begun env key start s True s2" using s2 st1 st s1(2) key by (auto simp: begun_def inside_def)
    qed
    then show "wp (case Some side of
        None \<Rightarrow> do {
          orphan \<leftarrow> object_delete env key;
          if orphan \<noteq> 0 \<and> orphan \<noteq> ENOENT
          then do { poison OWNER_STATE_DELETE_FAILED; bookkeeping OWNER_OBJECT_MISMATCH; State_Monad.return (- 1) }
          else rollback_mismatch env key }
      | Some side \<Rightarrow> do { object_put key (bind_side index act start side); State_Monad.return 0 })
      (\<lambda>rc. begun env key start s (rc = 0)) s1" by simp
  qed
  have "wp (object_update env key zero_side 1) (\<lambda>rc. wp (if rc \<noteq> 0
      then do { object_rollback_insert env key;
              _ \<leftarrow> (if rc = EEXIST then bookkeeping OWNER_OBJECT_MISMATCH else count_admission);
              State_Monad.return rc }
      else do { side \<leftarrow> object_lookup env key;
              case side of
                None \<Rightarrow> do {
                  orphan \<leftarrow> object_delete env key;
                  if orphan \<noteq> 0 \<and> orphan \<noteq> ENOENT
                  then do { poison OWNER_STATE_DELETE_FAILED; bookkeeping OWNER_OBJECT_MISMATCH; State_Monad.return (- 1) }
                  else rollback_mismatch env key }
              | Some side \<Rightarrow> do { object_put key (bind_side index act start side); State_Monad.return 0 } })
      (\<lambda>rc. begun env key start s (rc = 0))) s"
    using refused found by (simp add: row_update_def Let_def)
  then show ?thesis using mism[OF i clean refl] MarkerRequired by (simp add: object_side_alloc_def)
qed


lemma wp_collision_remove:
  assumes i: "inside env 0 {} pid s" and key: "sk_pid key = pid" and ctl: "ctl_present env"
    and q: "\<And>s'. books (object_rows env) s' \<Longrightarrow> (\<And>k. k \<noteq> key \<Longrightarrow> o_start s' k = o_start s k) \<Longrightarrow> Q () s'"
  shows "wp (collision_remove env key) Q s"
proof -
  have rel: "wp (release_empty env) (\<lambda>_. Q ()) s1" if "inside env 0 {} pid s1" "\<And>k. k \<noteq> key \<Longrightarrow> o_start s1 k = o_start s k" for s1
    by (rule wp_release_empty[OF that(1) ctl]) (use that in \<open>auto intro!: q simp: inside_def same_rows_def\<close>)
  have rem: "wp (remove_start env key) (\<lambda>_. wp (release_empty env) (\<lambda>_. Q ())) s1" if s1: "same_books s s1" for s1
    by (rule wp_remove_start[OF inside_frame[OF s1 i] key], rule rel) (simp_all add: frame_rows[OF s1])
  have none: "wp (release_empty env) (\<lambda>_. Q ()) s1" if s1: "same_books s s1" for s1
    by (rule rel[OF inside_frame[OF s1 i]]) (simp add: frame_rows[OF s1])
  show ?thesis unfolding collision_remove_def wp_bind by (rule wp_lookup) (simp_all add: rem none)
qed

lemma wp_start_put:
  assumes i: "inside env e K pid s" and key: "key \<in> K" "sk_pid key = pid" "o_start s key \<noteq> None"
    and q: "\<And>s'. inside env e K pid s' \<Longrightarrow> o_start s' = (o_start s)(key := Some v) \<Longrightarrow> o_object s' = o_object s \<Longrightarrow> o_ctl s' = o_ctl s \<Longrightarrow> Q () s'"
  shows "wp (start_put key v) Q s"
proof -
  obtain w where w: "o_owners s (o_task env) = Some w" "ow_flags w \<noteq> 0" "original_pid_tgid w = pid" "holds s w"
    "length (discovery_cookies w) = 64" "custody (object_rows env) e K s" "core e s" "owner_at env s = w" by (rule insideE[OF i])
  let ?s = "s\<lparr>o_start := (o_start s)(key := Some v)\<rparr>"
  have "rows_of (o_start ?s) pid = rows_of (o_start s) pid" using key by (auto simp: rows_of_def)
  then have h: "holds ?s w" using w(3,4) by (simp add: holds_def)
  have l: "local_change (o_task env) w w s ?s" using w key h by (auto simp: local_change_def core_def fun_upd_idem)
  have "custody (object_rows env) e K ?s"
    by (rule custody_local[OF l w(6)]) (use w(6) key in \<open>auto simp: custody_def sound_def\<close>)
  then have "inside env e K pid ?s" using w by (auto simp: inside_def)
  then show ?thesis unfolding start_put_def wp_oput by (rule q) simp_all
qed

text \<open>Every transaction that opens a START row: refused, it leaves the rows under other
  keys alone; granted, the row stands as asked for.\<close>

lemma if_None_eq: "((if c then None else Some x) \<noteq> None) = (\<not> c)"
  by simp

lemma wp_begin_row:
  assumes i: "inside env 0 {key} pid s" and key: "sk_pid key = pid" and ctl: "ctl_present env"
    and clean: "\<not> poisoned s \<longrightarrow> o_object s key = None" and st: "o_start s key = Some zero_start"
  shows "wp (begin_row env key seed ts) (\<lambda>row. begun env key (seeded_start seed ts zero_start) s (row \<noteq> None)) s"
  unfolding begin_row_def wp_bind
proof (rule wp_lookup)
  fix s1 assume s1: "same_books s s1" "o_ctl s1 = o_ctl s"
  have "wp (do { object_rollback_insert env key; bookkeeping OWNER_START_ROW_MISSING }) (\<lambda>_. begun env key (seeded_start seed ts zero_start) s False) s1"
    by (rule wp_rollback_then[OF inside_frame[OF s1(1) i] key ctl]) (use s1 clean in \<open>simp_all add: frame_rows\<close>)
  then show "wp (case None of
       None \<Rightarrow> do { object_rollback_insert env key; bookkeeping OWNER_START_ROW_MISSING; State_Monad.return None }
     | Some row \<Rightarrow> do {
         let start = seeded_start seed ts row;
         start_put key start;
         if seed = None then State_Monad.return (Some start)
         else do { rc \<leftarrow> object_side_alloc env key start; State_Monad.return (if rc \<noteq> 0 then None else Some start) } })
     (\<lambda>row. begun env key (seeded_start seed ts zero_start) s (row \<noteq> None)) s1" by simp
next
  fix v s1 assume s1: "same_books s s1" "o_ctl s1 = o_ctl s" "o_start s1 key = Some v"
  have v: "v = zero_start" using s1 st by (simp add: frame_rows)
  let ?v = "seeded_start seed ts zero_start"
  have "wp (start_put key ?v) (\<lambda>_. wp (if seed = None then State_Monad.return (Some ?v)
         else do { rc \<leftarrow> object_side_alloc env key ?v; State_Monad.return (if rc \<noteq> 0 then None else Some ?v) })
     (\<lambda>row. begun env key ?v s (row \<noteq> None))) s1"
  proof (rule wp_start_put[OF inside_frame[OF s1(1) i] _ key])
    fix s2 assume s2: "inside env 0 {key} pid s2" "o_start s2 = (o_start s1)(key := Some ?v)" "o_object s2 = o_object s1" "o_ctl s2 = o_ctl s1"
    have clean2: "\<not> poisoned s2 \<longrightarrow> o_object s2 key = None" using clean s1 s2 by (simp add: frame_rows)
    have o: "o_start s2 k = o_start s k" if "k \<noteq> key" for k using that s1 s2 by (simp add: frame_rows)
    have mono: "begun env key ?v s2 ok s3 \<Longrightarrow> begun env key ?v s ok s3" for ok s3
      using o s2(4) s1(2) by (auto simp: begun_def)
    have alloc: "wp (object_side_alloc env key ?v) (\<lambda>rc. begun env key ?v s (rc = 0)) s2"
      by (rule wp_conseq[OF wp_object_side_alloc[OF s2(1) key ctl clean2] mono]) (use s2 in simp_all)
    have agg: "begun env key ?v s True s2" if none: "seed = None"
    proof -
      have "cs_object_required ?v = 0" using none by (simp add: seeded_start_def zero_start_def)
      then have "inside env 0 {} pid s2"
        by (intro inside_shrink[OF s2(1)]) (use s2 clean2 in \<open>auto simp: row_bound_def object_marker_verdict_def\<close>)
      then show ?thesis using s2 s1 o key by (auto simp: begun_def inside_def)
    qed
    show "wp (if seed = None then State_Monad.return (Some ?v)
         else do { rc \<leftarrow> object_side_alloc env key ?v; State_Monad.return (if rc \<noteq> 0 then None else Some ?v) })
     (\<lambda>row. begun env key ?v s (row \<noteq> None)) s2"
      using alloc agg by (cases "seed = None") (simp_all add: if_None_eq del: not_None_eq)
  qed (use s1 in simp_all)
  then show "wp (case Some v of
       None \<Rightarrow> do { object_rollback_insert env key; bookkeeping OWNER_START_ROW_MISSING; State_Monad.return None }
     | Some row \<Rightarrow> do {
         let start = seeded_start seed ts row;
         start_put key start;
         if seed = None then State_Monad.return (Some start)
         else do { rc \<leftarrow> object_side_alloc env key start; State_Monad.return (if rc \<noteq> 0 then None else Some start) } })
     (\<lambda>row. begun env key ?v s (row \<noteq> None)) s1" by (simp add: v Let_def)
qed


lemma wp_control_cases:
  assumes c: "books (object_rows env) s" and no: "Q False s" and yes: "ctl_present env \<Longrightarrow> Q True s"
  shows "wp (control env) Q s"
proof (cases "ctl_present env")
  case True
  have "core 0 s" using c by (simp add: custody_def)
  then show ?thesis using wp_control[of 0 s env Q] yes True by simp
qed (use no in \<open>simp add: control_def\<close>)

lemma books_inside: "inside env 0 {} pid s \<Longrightarrow> books (object_rows env) s"
  by (simp add: inside_def)

text \<open>The owner acquired, the transaction runs inside.\<close>

lemma wp_owned:
  assumes c: "books (object_rows env) s" and t: "create \<Longrightarrow> task_ok env s" and ctl: "ctl \<Longrightarrow> ctl_present env"
    and no: "\<And>s1. books (object_rows env) s1 \<Longrightarrow> same_rows s s1 \<Longrightarrow> Q refused s1"
    and yes: "\<And>s1 pid. inside env 0 {} pid s1 \<Longrightarrow> ctl_present env \<Longrightarrow> same_rows s s1 \<Longrightarrow> \<not> poisoned s1 \<Longrightarrow> wp m Q s1"
  shows "wp (get_owner env ctl create) (\<lambda>owner. wp (if \<not> owner then State_Monad.return refused else m) Q) s"
proof (cases ctl)
  case True
  show ?thesis
  proof (rule wp_conseq[OF wp_get_owner[OF c t]])
    fix owner s1 assume "acquired env s owner s1"
    then show "wp (if \<not> owner then State_Monad.return refused else m) Q s1"
      using no yes ctl[OF True] by (cases owner) (auto simp: acquired_def)
  qed
next
  case False
  then show ?thesis using no[OF c] by (simp add: get_owner_def healthy_def same_rows_def)
qed

lemma wp_then_release:
  assumes i: "inside env 0 {} pid s" and ctl: "ctl_present env" and m: "frame m"
    and q: "\<And>s'. books (object_rows env) s' \<Longrightarrow> same_rows s s' \<Longrightarrow> Q s'"
  shows "wp m (\<lambda>_. wp (release_empty env) (\<lambda>_. Q)) s"
proof (rule wp_frame[OF m])
  fix s2 assume s2: "same_books s s2"
  show "wp (release_empty env) (\<lambda>_. Q) s2"
    by (rule wp_release_books[OF inside_frame[OF s2 i] ctl], rule q) (simp_all add: same_rows_def frame_rows[OF s2])
qed

lemma wp_then_remove:
  assumes i: "inside env 0 {} pid s" and key: "sk_pid key = pid" and m: "frame m"
    and q: "\<And>s'. books (object_rows env) s' \<Longrightarrow> (\<And>k. k \<noteq> key \<Longrightarrow> o_start s' k = o_start s k) \<Longrightarrow> Q s'"
  shows "wp m (\<lambda>_. wp (remove_start env key) (\<lambda>_. Q)) s"
proof (rule wp_frame[OF m])
  fix s2 assume s2: "same_books s s2"
  show "wp (remove_start env key) (\<lambda>_. Q) s2"
    by (rule wp_remove_start[OF inside_frame[OF s2 i] key]) (rule q, erule books_inside, simp add: frame_rows[OF s2])
qed

lemma wp_open_start:
  assumes i: "inside env 0 {} pid s" and ctl: "ctl_present env" and h: "\<not> poisoned s"
    and key: "sk_pid key = pid" "key_ok key" and n: "start_count (owner_at env s) < OWNER_SLOT_BOUND"
    and refuse: "\<And>rc s'. rc \<noteq> 0 \<Longrightarrow> books (object_rows env) s' \<Longrightarrow> (\<And>k. k \<noteq> key \<Longrightarrow> o_start s' k = o_start s k) \<Longrightarrow> Q (no rc) s'"
    and cont: "\<And>s'. inside env 0 {key} pid s' \<Longrightarrow> \<not> poisoned s' \<longrightarrow> o_object s' key = None \<Longrightarrow> o_start s' key = Some v \<Longrightarrow>
      (\<And>k. k \<noteq> key \<Longrightarrow> o_start s' k = o_start s k) \<Longrightarrow> \<not> poisoned s' \<Longrightarrow> wp m Q s'"
  shows "wp (owner_set env more) (\<lambda>_. wp (start_update env key v 1) (\<lambda>rc. wp (if rc \<noteq> 0
       then do { owner_set env fewer; count_admission; collision_remove env key; State_Monad.return (no rc) }
       else m) Q)) s"
proof (rule wp_add_start[OF i key n])
  fix rc s2 assume rc: "(rc::int) \<noteq> 0" and un: "\<And>P. (\<And>s''. same_books s s'' \<Longrightarrow> P s'') \<Longrightarrow> wp (owner_set env fewer) (\<lambda>_. P) s2"
  have "wp (owner_set env fewer) (\<lambda>_. wp count_admission (\<lambda>_. wp (collision_remove env key) (\<lambda>_. Q (no rc)))) s2"
  proof (rule un, rule wp_frame)
    fix s3 s4 assume s34: "same_books s s3" "same_books s3 s4"
    have "same_books s s4" by (rule same_books_trans[OF s34])
    then show "wp (collision_remove env key) (\<lambda>_. Q (no rc)) s4"
      by (intro wp_collision_remove[OF inside_frame[OF _ i] key(1) ctl] refuse[OF rc]) (simp_all add: frame_rows)
  qed simp
  with rc show "wp (if rc \<noteq> 0
       then do { owner_set env fewer; count_admission; collision_remove env key; State_Monad.return (no rc) }
       else m) Q s2" by simp
next
  fix s2 assume s2: "inside env 0 (insert key {}) pid s2" "o_start s2 = (o_start s)(key := Some v)" "o_object s2 = o_object s"
    "o_start s key = None" "poisoned s2 = poisoned s"
  have "\<not> poisoned s2 \<longrightarrow> o_object s2 key = None"
    using inside_bound[OF i, of key] s2 by (auto simp: row_bound_def)
  then have "wp m Q s2" using cont[OF s2(1)] s2(2,5) h by simp
  then show "wp (if (0::int) \<noteq> 0
       then do { owner_set env fewer; count_admission; collision_remove env key; State_Monad.return (no 0) }
       else m) Q s2" by simp
qed

lemma begun_later:
  "begun env key start s2 ok s' \<Longrightarrow> (\<And>k. k \<noteq> key \<Longrightarrow> o_start s2 k = o_start s k) \<Longrightarrow> \<not> poisoned s2 \<Longrightarrow> begun env key start s ok s'"
  by (auto simp: begun_def)

lemma begun_rows: "begun env key start s1 ok s' \<Longrightarrow> same_rows s s1 \<Longrightarrow> \<not> poisoned s1 \<Longrightarrow> begun env key start s ok s'"
  by (erule begun_later) (simp_all add: same_rows_def)

lemma wp_begin_as_owner:
  assumes i: "inside env 0 {} pid s" and ctl: "ctl_present env" and h: "\<not> poisoned s"
  shows "wp (begin_as_owner env key seed ts) (\<lambda>row. begun env key (seeded_start seed ts zero_start) s (row \<noteq> None)) s"
  (is "wp _ (\<lambda>row. ?Q (row \<noteq> None)) s")
proof -
  obtain w where w: "original_pid_tgid w = pid" "owner_at env s = w" by (rule insideE[OF i])
  have rel: "wp m (\<lambda>_. wp (release_empty env) (\<lambda>_. ?Q False)) s" if "frame m" for m :: "unit own"
    by (rule wp_then_release[OF i ctl that], rule begun_refused) (simp_all add: same_rows_def)
  have full: "wp count_admission (\<lambda>_. wp (remove_start env key) (\<lambda>_. ?Q False)) s" if "sk_pid key = pid"
    by (rule wp_then_remove[OF i that], simp, rule begun_refused)
  have add: "wp (owner_set env more) (\<lambda>_. wp (start_update env key zero_start 1) (\<lambda>rc. wp (if rc \<noteq> 0
       then do { owner_set env fewer; count_admission; collision_remove env key; State_Monad.return None }
       else begin_row env key seed ts) (\<lambda>row. ?Q (row \<noteq> None)))) s"
    if key: "sk_pid key = pid" "key_ok key" and n: "start_count (owner_at env s) < OWNER_SLOT_BOUND"
  proof (rule wp_open_start[OF i ctl h key n, where no = "\<lambda>_. None"])
    fix s2 assume s2: "inside env 0 {key} pid s2" "\<not> poisoned s2 \<longrightarrow> o_object s2 key = None" "o_start s2 key = Some zero_start"
      "\<And>k. k \<noteq> key \<Longrightarrow> o_start s2 k = o_start s k" "\<not> poisoned s2"
    show "wp (begin_row env key seed ts) (\<lambda>row. ?Q (row \<noteq> None)) s2"
      by (rule wp_conseq[OF wp_begin_row[OF s2(1) key(1) ctl s2(2,3)]], rule begun_later[OF _ s2(4,5)])
  qed (simp add: begun_refused)
  show ?thesis using rel full add w by (simp add: begin_as_owner_def start_key_valid_def not_le del: not_None_eq)
qed

lemma wp_insert_as_owner:
  assumes i: "inside env 0 {} pid s" and ctl: "ctl_present env" and h: "\<not> poisoned s"
  shows "wp (insert_as_owner env key start) (\<lambda>rc. begun env key start s (rc = 0)) s"
  (is "wp _ (\<lambda>rc. ?Q (rc = 0)) s")
proof -
  obtain w where w: "original_pid_tgid w = pid" "owner_at env s = w" by (rule insideE[OF i])
  have rel: "wp count_admission (\<lambda>_. wp (release_empty env) (\<lambda>_. ?Q False)) s"
    by (rule wp_then_release[OF i ctl], simp, rule begun_refused) (simp_all add: same_rows_def)
  have full: "wp count_admission (\<lambda>_. wp (remove_start env key) (\<lambda>_. ?Q False)) s" if "sk_pid key = pid"
    by (rule wp_then_remove[OF i that], simp, rule begun_refused)
  have add: "wp (owner_set env more) (\<lambda>_. wp (start_update env key start 1) (\<lambda>rc. wp (if rc \<noteq> 0
       then do { owner_set env fewer; count_admission; collision_remove env key; State_Monad.return rc }
       else object_side_alloc env key start) (\<lambda>rc. ?Q (rc = 0)))) s"
    if key: "sk_pid key = pid" "key_ok key" and n: "start_count (owner_at env s) < OWNER_SLOT_BOUND"
  proof (rule wp_open_start[OF i ctl h key n])
    fix s2 assume s2: "inside env 0 {key} pid s2" "\<not> poisoned s2 \<longrightarrow> o_object s2 key = None" "o_start s2 key = Some start"
      "\<And>k. k \<noteq> key \<Longrightarrow> o_start s2 k = o_start s k" "\<not> poisoned s2"
    show "wp (object_side_alloc env key start) (\<lambda>rc. ?Q (rc = 0)) s2"
      by (rule wp_conseq[OF wp_object_side_alloc[OF s2(1) key(1) ctl s2(2,3)]], rule begun_later[OF _ s2(4,5)])
  qed (simp add: begun_refused)
  show ?thesis using rel full add w by (simp add: insert_as_owner_def start_key_valid_def not_le)
qed

lemma wp_begin_owned_start:
  assumes c: "books (object_rows env) s" and t: "task_ok env s"
  shows "wp (begin_owned_start env key seed ts) (\<lambda>row. begun env key (seeded_start seed ts zero_start) s (row \<noteq> None)) s"
  unfolding begin_owned_start_def wp_bind
  by (rule wp_control_cases[OF c]; rule wp_owned[OF c t];
      (rule wp_conseq[OF wp_begin_as_owner], assumption, assumption, assumption, erule begun_rows, assumption, assumption)?)
    (auto intro!: begun_refused simp: same_rows_def)

lemma wp_start_insert:
  assumes c: "books (object_rows env) s" and t: "task_ok env s"
  shows "wp (p11_owner_start_insert env key start) (\<lambda>rc. begun env key start s (rc = 0)) s"
  unfolding p11_owner_start_insert_def wp_bind
  by (rule wp_control_cases[OF c]; rule wp_owned[OF c t];
      (rule wp_conseq[OF wp_insert_as_owner], assumption, assumption, assumption, erule begun_rows, assumption, assumption)?)
    (auto intro!: begun_refused simp: same_rows_def)


section \<open>Queries and removals\<close>

lemma wp_with_owner:
  assumes c: "books (object_rows env) s" and m: "frame missing"
    and no: "\<And>s1. books (object_rows env) s1 \<Longrightarrow> same_rows s s1 \<Longrightarrow> Q refused s1"
    and gone: "\<And>s1. books (object_rows env) s1 \<Longrightarrow> same_rows s s1 \<Longrightarrow> wp absent Q s1"
    and yes: "\<And>s1 pid. inside env 0 {} pid s1 \<Longrightarrow> ctl_present env \<Longrightarrow> same_rows s s1 \<Longrightarrow> \<not> poisoned s1 \<Longrightarrow> wp body Q s1"
  shows "wp (with_owner env in_range missing refused absent body) Q s"
proof -
  have refl: "same_rows s s" by (simp add: same_rows_def)
  have run: "wp missing (\<lambda>none. wp (if none then absent else do {
         owner \<leftarrow> get_owner env True False;
         if \<not> owner then State_Monad.return refused else body }) Q) s" if ctl: "ctl_present env"
  proof (rule wp_frame[OF m])
    fix none s1 assume s1: "same_books s s1"
    have b1: "books (object_rows env) s1" by (rule custody_frame[OF s1 c])
    have r1: "same_rows s s1" by (rule same_books_rows[OF s1])
    have "wp (get_owner env True False) (\<lambda>owner. wp (if \<not> owner then State_Monad.return refused else body) Q) s1"
      by (rule wp_owned[OF b1]) (use r1 ctl in \<open>auto intro!: no yes dest: same_rows_trans\<close>)
    then show "wp (if none then absent else do {
         owner \<leftarrow> get_owner env True False;
         if \<not> owner then State_Monad.return refused else body }) Q s1" using gone[OF b1 r1] by simp
  qed
  show ?thesis unfolding with_owner_def wp_bind
    by (rule wp_control_cases[OF c]) (use run no[OF c refl] in \<open>auto simp: healthy_def\<close>)
qed

lemma frame_missing [simp]: "frame lookup \<Longrightarrow> frame (optional_missing required lookup)"
  unfolding optional_missing_def by (auto intro!: frame_bind)

lemma wp_start_get:
  assumes c: "books (object_rows env) s"
  shows "wp (p11_owner_start_get env key required) (\<lambda>row s'. books (object_rows env) s' \<and> same_rows s s'
     \<and> (\<forall>v. row = Some v \<longrightarrow> o_start s' key = Some v)) s"
  (is "wp _ ?Q s")
  unfolding p11_owner_start_get_def
proof (rule wp_with_owner[OF c])
  show peek: "wp (do { _ \<leftarrow> peek_absent_owner env; State_Monad.return None }) ?Q s1"
    if "books (object_rows env) s1" "same_rows s s1" for s1
    unfolding wp_bind by (rule wp_frame) (use that in \<open>auto simp: custody_frame same_rows_frame\<close>)
  fix s1 pid assume i: "inside env 0 {} pid s1" and r: "same_rows s s1"
  have b1: "books (object_rows env) s1" by (rule books_inside[OF i])
  have fr: "wp m (\<lambda>_. ?Q None) s2" if "same_books s1 s2" "frame m" for s2 and m :: "unit own"
    by (rule wp_frame[OF that(2)])
      (use custody_frame[OF same_books_trans[OF that(1)] b1] same_rows_frame[OF r same_books_trans[OF that(1)]] in auto)
  have "wp (start_lookup env key) (\<lambda>row. wp (if row = None then bookkeeping OWNER_START_ROW_MISSING else State_Monad.return ()) (\<lambda>_. ?Q row)) s1"
    by (rule wp_lookup) (use fr custody_frame[OF _ b1] same_rows_frame[OF r] in auto)
  then show "wp (do {
         valid \<leftarrow> start_key_valid env key;
         starts \<leftarrow> oget (start_count \<circ> owner_at env);
         if \<not> valid then do { bookkeeping OWNER_START_KEY_MISMATCH; State_Monad.return None }
         else if starts = 0 then do { bookkeeping OWNER_START_COUNT_MISMATCH; State_Monad.return None }
         else do {
           row \<leftarrow> start_lookup env key;
           _ \<leftarrow> (if row = None then bookkeeping OWNER_START_ROW_MISSING else State_Monad.return ());
           State_Monad.return row } }) ?Q s1"
    using fr[OF same_books_refl] by (simp add: start_key_valid_def)
qed auto

definition retired :: "oenv \<Rightarrow> owner_start_key \<Rightarrow> ostate \<Rightarrow> int \<Rightarrow> ostate \<Rightarrow> bool" where
  "retired env key s rc s' \<longleftrightarrow> books (object_rows env) s' \<and> (\<forall>k. k \<noteq> key \<longrightarrow> o_start s' k = o_start s k)
     \<and> (rc = 0 \<longrightarrow> o_start s' key = None)"

lemma wp_start_remove:
  assumes c: "books (object_rows env) s"
  shows "wp (p11_owner_start_remove env key required) (retired env key s) s"
  unfolding p11_owner_start_remove_def
proof (rule wp_with_owner[OF c])
  have stay: "retired env key s rc s1" if "books (object_rows env) s1" "same_rows s s1" "rc \<noteq> 0" for rc s1
    using that by (simp add: retired_def same_rows_def)
  show "wp (do { _ \<leftarrow> peek_absent_owner env; absent_verdict }) (retired env key s) s1"
    if "books (object_rows env) s1" "same_rows s s1" for s1
    unfolding wp_bind by (rule wp_frame) (use that in \<open>auto intro!: stay simp: absent_verdict_def healthy_def custody_frame same_rows_frame\<close>)
  show "retired env key s (- 1) s1" if "books (object_rows env) s1" "same_rows s s1" for s1 using stay[OF that] by simp
  fix s1 pid assume i: "inside env 0 {} pid s1" and ctl: "ctl_present env" and r: "same_rows s s1"
  obtain w where w: "original_pid_tgid w = pid" "owner_at env s1 = w" by (rule insideE[OF i])
  have st: "o_start s1 = o_start s" using r by (simp add: same_rows_def)
  have bad: "wp (bookkeeping OWNER_START_KEY_MISMATCH) (\<lambda>_. retired env key s (- 1)) s1"
    by (rule wp_frame) (use books_inside[OF i] r in \<open>auto intro!: stay simp: custody_frame same_rows_frame\<close>)
  have rem: "wp (remove_start env key) (\<lambda>rc. wp (release_empty env)
      (\<lambda>released. retired env key s (if rc \<noteq> 0 then rc else if \<not> released then - 1 else 0))) s1" if key: "sk_pid key = pid"
  proof (rule wp_remove_start[OF i key])
    fix rc s2 assume s2: "inside env 0 {} pid s2" "\<And>k. k \<noteq> key \<Longrightarrow> o_start s2 k = o_start s1 k" "rc = (0 :: int) \<longrightarrow> o_start s2 key = None"
    show "wp (release_empty env) (\<lambda>released. retired env key s (if rc \<noteq> 0 then rc else if \<not> released then - 1 else 0)) s2"
      by (rule wp_release_books[OF s2(1) ctl]) (use s2 st in \<open>auto simp: retired_def same_rows_def\<close>)
  qed
  show "wp (do {
         valid \<leftarrow> start_key_valid env key;
         if \<not> valid then do { bookkeeping OWNER_START_KEY_MISMATCH; State_Monad.return (- 1) }
         else do {
           rc \<leftarrow> remove_start env key;
           released \<leftarrow> release_empty env;
           State_Monad.return (if rc \<noteq> 0 then rc else if \<not> released then - 1 else 0) } }) (retired env key s) s1"
    using bad rem w by (simp add: start_key_valid_def)
qed simp

end
