(* ===== verification/P11_Owner_Custody.thy ===== *)
theory P11_Owner_Custody
  imports P11_Owner_Safety
begin

text \<open>
  The remaining native calls under the custody invariant: the side-row query, the
  discovery directory and the exec and exit cleanup; then the invariant of whole runs
  of the native object, and what each call promises its caller.
\<close>

section \<open>The side-row query\<close>

definition bound_side :: "ObjectDescriptorWire list \<Rightarrow> ostate \<Rightarrow> owner_start_key \<Rightarrow> u32 \<Rightarrow> ObjectStart \<Rightarrow> bool" where
  "bound_side rows s key d side \<longleftrightarrow> o_object s key = Some side \<and> live_phase (os_phase side)
     \<and> (\<exists>st act. o_start s key = Some st \<and> object_marker_verdict rows (cs_object_required st) = MarkerRequired d act
          \<and> object_binding_matches side st d)"

lemma wp_side_get:
  assumes c: "books (object_rows env) s"
  shows "wp (p11_object_side_get env key d required) (\<lambda>side s'. books (object_rows env) s' \<and> same_rows s s'
     \<and> (\<forall>o'. side = Some o' \<longrightarrow> bound_side (object_rows env) s' key d o' \<and> (required \<longrightarrow> os_phase o' = OBJECT_PHASE_READY))) s"
  (is "wp _ ?Q s")
  unfolding p11_object_side_get_def
proof (rule wp_with_owner[OF c])
  show "wp (do { _ \<leftarrow> peek_absent_owner env; State_Monad.return None }) ?Q s1"
    if "books (object_rows env) s1" "same_rows s s1" for s1
    unfolding wp_bind by (rule wp_frame) (use that in \<open>auto simp: custody_frame same_rows_frame\<close>)
  fix s1 pid assume i: "inside env 0 {} pid s1" and r: "same_rows s s1"
  have none: "?Q None s2" if "same_books s1 s2" for s2
    using custody_frame[OF that books_inside[OF i]] same_rows_frame[OF r that] by simp
  have side: "wp (object_lookup env key) (\<lambda>side. ?Q (case side of
                  None \<Rightarrow> None
                | Some o' \<Rightarrow>
                    if \<not> object_binding_matches o' start d \<or> \<not> live_phase (os_phase o')
                       \<or> required \<and> os_phase o' \<noteq> OBJECT_PHASE_READY
                    then None else Some o')) s2"
    if s2: "same_books s1 s2" "o_start s2 key = Some start"
      and m: "object_marker_verdict (object_rows env) (cs_object_required start) = MarkerRequired d act" for start act s2
  proof (rule wp_lookup)
    fix v s3 assume s3: "same_books s2 s3" "o_object s3 key = Some v"
    have "o_start s3 key = Some start" using s2(2) s3(1) by (simp add: frame_rows)
    with s3 m none[OF same_books_trans[OF s2(1) s3(1)]]
    show "?Q (case Some v of None \<Rightarrow> None
                | Some o' \<Rightarrow>
                    if \<not> object_binding_matches o' start d \<or> \<not> live_phase (os_phase o')
                       \<or> required \<and> os_phase o' \<noteq> OBJECT_PHASE_READY
                    then None else Some o') s3"
      by (auto simp: bound_side_def)
  qed (use none same_books_trans[OF s2(1)] in auto)
  have "wp (side_query env key d required) ?Q s1"
    unfolding side_query_def wp_bind
    by (rule wp_lookup) (use none side in \<open>auto split: marker_verdict.split\<close>)
  then show "wp (do { valid \<leftarrow> start_key_valid env key;
       if \<not> valid then State_Monad.return None else side_query env key d required }) ?Q s1"
    using none[OF same_books_refl] by (simp add: start_key_valid_def)
qed auto

section \<open>The discovery directory\<close>

lemma directory_find_Some:
  assumes "directory_find w key = Some i"
  shows "i < 64" "discovery_cell_matches w key i"
  using assms by (auto simp: directory_find_def find_Some_iff)

lemma directory_find_None: "directory_find w key = None \<Longrightarrow> i < 64 \<Longrightarrow> \<not> discovery_cell_matches w key i"
  by (auto simp: directory_find_def find_None_iff)

lemma free_cell_Some: "free_cell w = Some i \<Longrightarrow> i < 64 \<and> \<not> bit (occupied w) i"
  by (auto simp: free_cell_def find_Some_iff)

lemma sub_bits: "a AND NOT b = 0 \<longleftrightarrow> (\<forall>n. bit a n \<longrightarrow> bit b n)" for a b :: "'a::len word"
proof
  assume z: "a AND NOT b = 0"
  show "\<forall>n. bit a n \<longrightarrow> bit b n"
  proof (intro allI impI)
    fix n assume n: "bit a n"
    have "\<not> bit (a AND NOT b) n" unfolding z by simp
    with n show "bit b n" by (simp add: bit_and_iff bit_not_iff bit_imp_le_length)
  qed
next
  assume "\<forall>n. bit a n \<longrightarrow> bit b n"
  then show "a AND NOT b = 0" by (intro bit_word_eqI) (auto simp: bit_and_iff bit_not_iff)
qed

lemma matches_clear:
  "i < 64 \<Longrightarrow> discovery_cell_matches (directory_clear i w) k j \<longleftrightarrow> j \<noteq> i \<and> discovery_cell_matches w k j"
  by (auto simp: discovery_cell_matches_def directory_clear_def bit_unset_bit_iff)

lemma domains_clear:
  "selection_domains w AND NOT (occupied w) = 0 \<Longrightarrow>
    selection_domains (directory_clear i w) AND NOT (occupied (directory_clear i w)) = 0"
  unfolding sub_bits by (simp add: directory_clear_def bit_unset_bit_iff)

lemma same_cell:
  assumes "discovery_cell_matches w k i" "discovery_cell_matches w key i" "domain_ok k" "domain_ok key"
    "sk_pid_tgid k = sk_pid_tgid key"
  shows "k = key"
  using assms by (cases k; cases key) (auto simp: discovery_cell_matches_def)

lemma directory_okI:
  assumes "\<And>k. sk_pid_tgid k = original_pid_tgid w \<Longrightarrow> \<not> domain_ok k \<Longrightarrow> m k = None"
    "\<And>k. sk_pid_tgid k = original_pid_tgid w \<Longrightarrow> domain_ok k \<Longrightarrow> m k \<noteq> None \<longleftrightarrow> (\<exists>i < 64. discovery_cell_matches w k i)"
    "\<And>k i j. sk_pid_tgid k = original_pid_tgid w \<Longrightarrow> domain_ok k \<Longrightarrow> i < 64 \<Longrightarrow> j < 64 \<Longrightarrow>
      discovery_cell_matches w k i \<Longrightarrow> discovery_cell_matches w k j \<Longrightarrow> i = j"
  shows "directory_ok w m"
  unfolding directory_ok_def
proof (intro allI impI conjI)
  fix k :: StateKey assume k: "sk_pid_tgid k = original_pid_tgid w"
  show "(m k \<noteq> None) = (domain_ok k \<and> (\<exists>i < 64. discovery_cell_matches w k i))"
    using assms(1,2)[OF k] by (cases "domain_ok k") simp_all
qed (use assms(3) in blast)

lemma directory_okD:
  assumes "directory_ok w m" "sk_pid_tgid k = original_pid_tgid w"
  shows "\<not> domain_ok k \<Longrightarrow> m k = None" "domain_ok k \<Longrightarrow> m k \<noteq> None \<longleftrightarrow> (\<exists>i < 64. discovery_cell_matches w k i)"
    "domain_ok k \<Longrightarrow> i < 64 \<Longrightarrow> j < 64 \<Longrightarrow> discovery_cell_matches w k i \<Longrightarrow> discovery_cell_matches w k j \<Longrightarrow> i = j"
  using assms unfolding directory_ok_def by blast+

lemma directory_ok_clear:
  assumes d: "directory_ok w m" and i: "i < 64" "discovery_cell_matches w key i" and key: "sk_pid_tgid key = original_pid_tgid w" "domain_ok key"
  shows "directory_ok (directory_clear i w) (m(key := None))"
proof -
  have pid: "original_pid_tgid (directory_clear i w) = original_pid_tgid w" by (simp add: directory_clear_def)
  have uniq: "j = i" if "j < 64" "discovery_cell_matches w key j" for j using directory_okD(3)[OF d key(1)] i key that by blast
  have cell: "(\<exists>j < 64. discovery_cell_matches (directory_clear i w) k j) \<longleftrightarrow> k \<noteq> key \<and> (\<exists>j < 64. discovery_cell_matches w k j)"
    if "sk_pid_tgid k = original_pid_tgid w" "domain_ok k" for k
    using that uniq i same_cell[of w k i key] key unfolding matches_clear[OF i(1)] by metis
  show ?thesis
  proof (rule directory_okI, unfold pid)
    fix k :: StateKey assume k: "sk_pid_tgid k = original_pid_tgid w"
    show "\<not> domain_ok k \<Longrightarrow> (m(key := None)) k = None" using directory_okD(1)[OF d k] by simp
    show "domain_ok k \<Longrightarrow> (m(key := None)) k \<noteq> None \<longleftrightarrow> (\<exists>i' < 64. discovery_cell_matches (directory_clear i w) k i')"
      using directory_okD(2)[OF d k] cell[OF k] by simp
    show "a = b" if "domain_ok k" "a < 64" "b < 64" "discovery_cell_matches (directory_clear i w) k a"
      "discovery_cell_matches (directory_clear i w) k b" for a b
      using directory_okD(3)[OF d k that(1,2,3)] that(4,5) unfolding matches_clear[OF i(1)] by blast
  qed
qed

lemma matches_set:
  assumes "i < 64" "\<not> bit (occupied w) i" "selection_domains w AND NOT (occupied w) = 0" "length (discovery_cookies w) = 64"
  shows "discovery_cell_matches (directory_set i key w) k j \<longleftrightarrow>
    (if j = i then sk_attach_cookie k = sk_attach_cookie key \<and> (sk_domain k = 2 \<longleftrightarrow> sk_domain key = 2) else discovery_cell_matches w k j)"
proof -
  have "\<not> bit (selection_domains w) i" using assms(2,3) unfolding sub_bits by blast
  then show ?thesis using assms by (auto simp: discovery_cell_matches_def directory_set_def bit_set_bit_iff)
qed

lemma domains_set:
  "selection_domains w AND NOT (occupied w) = 0 \<Longrightarrow>
    selection_domains (directory_set i key w) AND NOT (occupied (directory_set i key w)) = 0"
  unfolding sub_bits by (simp add: directory_set_def bit_set_bit_iff)

lemma directory_ok_set:
  assumes d: "directory_ok w m" and i: "i < 64" "\<not> bit (occupied w) i" "selection_domains w AND NOT (occupied w) = 0" "length (discovery_cookies w) = 64"
    and key: "sk_pid_tgid key = original_pid_tgid w" "domain_ok key" and none: "\<And>j. j < 64 \<Longrightarrow> \<not> discovery_cell_matches w key j"
  shows "directory_ok (directory_set i key w) (m(key := Some v))"
proof -
  have pid: "original_pid_tgid (directory_set i key w) = original_pid_tgid w" by (simp add: directory_set_def)
  note ms = matches_set[OF i]
  have same: "k = key" if "sk_pid_tgid k = original_pid_tgid w" "domain_ok k" "sk_attach_cookie k = sk_attach_cookie key"
      "sk_domain k = 2 \<longleftrightarrow> sk_domain key = 2" for k
    using that key by (cases k; cases key) auto
  have cell: "(\<exists>j < 64. discovery_cell_matches (directory_set i key w) k j) \<longleftrightarrow> k = key \<or> (\<exists>j < 64. discovery_cell_matches w k j)"
    if k: "sk_pid_tgid k = original_pid_tgid w" "domain_ok k" for k
  proof
    assume "\<exists>j < 64. discovery_cell_matches (directory_set i key w) k j"
    then obtain j where j: "j < 64" "discovery_cell_matches (directory_set i key w) k j" by blast
    show "k = key \<or> (\<exists>j < 64. discovery_cell_matches w k j)"
      using j same[OF k] unfolding ms by (cases "j = i") auto
  next
    assume "k = key \<or> (\<exists>j < 64. discovery_cell_matches w k j)"
    then show "\<exists>j < 64. discovery_cell_matches (directory_set i key w) k j"
    proof
      assume "k = key"
      then show ?thesis using i(1) ms[of key k i] by auto
    next
      assume "\<exists>j < 64. discovery_cell_matches w k j"
      then obtain j where j: "j < 64" "discovery_cell_matches w k j" by blast
      then have "j \<noteq> i" using i(2) by (auto simp: discovery_cell_matches_def)
      then show ?thesis using j ms[of key k j] by auto
    qed
  qed
  have uniq: "j = j'" if "sk_pid_tgid k = original_pid_tgid w" "domain_ok k" "j < 64" "j' < 64"
      "discovery_cell_matches (directory_set i key w) k j" "discovery_cell_matches (directory_set i key w) k j'" for k j j'
  proof (cases "k = key")
    case True
    then show ?thesis using that none unfolding ms by (metis (full_types))
  next
    case False
    then have "j \<noteq> i" "j' \<noteq> i" using that same[of k] unfolding ms by auto
    then show ?thesis using that d unfolding ms directory_ok_def by simp
  qed
  show ?thesis
  proof (rule directory_okI, unfold pid)
    fix k :: StateKey assume k: "sk_pid_tgid k = original_pid_tgid w"
    show "\<not> domain_ok k \<Longrightarrow> (m(key := Some v)) k = None" using directory_okD(1)[OF d k] key by auto
    show "domain_ok k \<Longrightarrow> (m(key := Some v)) k \<noteq> None \<longleftrightarrow> (\<exists>i' < 64. discovery_cell_matches (directory_set i key w) k i')"
      using directory_okD(2)[OF d k] cell[OF k] by simp
  qed (rule uniq)
qed


text \<open>A change of the directory and of the row behind it.\<close>

lemma inside_cell:
  assumes i: "inside env e K pid s" and key: "sk_pid_tgid key = pid" and w': "w' = f (owner_at env s)"
    and d: "directory_ok w' ((o_discovery s)(key := v))" "selection_domains w' AND NOT (occupied w') = 0"
    and keep: "original_pid_tgid w' = original_pid_tgid (owner_at env s)" "start_count w' = start_count (owner_at env s)"
      "ow_flags w' = ow_flags (owner_at env s)" "length (discovery_cookies w') = length (discovery_cookies (owner_at env s))"
    and s': "o_owners s' = (o_owners s)(o_task env := Some w')" "o_discovery s' = (o_discovery s)(key := v)"
      "o_start s' = o_start s" "o_object s' = o_object s" "o_ctl s' = o_ctl s"
  shows "inside env e K pid s'"
proof -
  obtain w where w: "o_owners s (o_task env) = Some w" "ow_flags w \<noteq> 0" "original_pid_tgid w = pid" "holds s w"
    "length (discovery_cookies w) = 64" "custody (object_rows env) e K s" "core e s" "owner_at env s = w" by (rule insideE[OF i])
  have h: "holds s' w'" using w d keep s' by (simp add: holds_def)
  have l: "local_change (o_task env) w w' s s'"
    using w h keep s' key by (auto simp: local_change_def core_def)
  have "custody (object_rows env) e K s'"
    by (rule custody_local[OF l w(6)]) (use w(6) s' in \<open>auto simp: custody_def sound_def\<close>)
  then show ?thesis using w keep s' by (auto simp: inside_def)
qed

lemma wp_remove_discovery:
  assumes i: "inside env 0 {} pid s" and key: "sk_pid_tgid key = pid" "domain_ok key"
    and c: "n < 64" "discovery_cell_matches (owner_at env s) key n"
    and no: "\<And>rc s'. inside env 0 {} pid s' \<Longrightarrow> poisoned s' \<Longrightarrow> same_rows s s' \<Longrightarrow> rc \<noteq> 0 \<Longrightarrow> Q rc s'"
    and yes: "\<And>s'. inside env 0 {} pid s' \<Longrightarrow> o_start s' = o_start s \<Longrightarrow> o_object s' = o_object s \<Longrightarrow>
      o_discovery s' = (o_discovery s)(key := None) \<Longrightarrow> owner_at env s' = directory_clear n (owner_at env s) \<Longrightarrow>
      poisoned s' = poisoned s \<Longrightarrow> Q 0 s'"
  shows "wp (remove_discovery env key n) Q s"
proof -
  let ?s = "s\<lparr>o_ticks := Suc (o_ticks s)\<rparr>"
  have i1: "inside env 0 {} pid ?s" by (rule inside_frame[OF _ i]) simp
  obtain w where w: "o_owners ?s (o_task env) = Some w" "ow_flags w \<noteq> 0" "original_pid_tgid w = pid" "holds ?s w"
    "length (discovery_cookies w) = 64" "custody (object_rows env) 0 {} ?s" "core 0 ?s" "owner_at env ?s = w" by (rule insideE[OF i1])
  have ws: "owner_at env s = w" using w(8) by (simp add: owner_at_def)
  have bad: "wp (poison OWNER_STATE_DELETE_FAILED) (\<lambda>_. Q rc) ?s" if "rc \<noteq> 0" for rc
  proof (rule wp_poison)
    fix s2 assume s2: "same_books ?s s2" "poisoned s2"
    show "Q rc s2" by (rule no[OF inside_frame[OF s2(1) i1] s2(2) _ that]) (use same_books_rows[OF s2(1)] in \<open>simp add: same_rows_def\<close>)
  qed simp
  let ?u = "o_discovery_update (\<lambda>m. m(key := None)) ?s"
  let ?v = "?u\<lparr>o_owners := (o_owners ?u)(o_task env := Some (directory_clear n w))\<rparr>"
  have "inside env 0 {} pid ?v"
  proof (rule inside_cell[OF i1 key(1) refl, where f = "directory_clear n" and v = None], unfold w(8))
    show "directory_ok (directory_clear n w) ((o_discovery ?s)(key := None))"
      by (rule directory_ok_clear) (use w(3,4) c ws key in \<open>simp_all add: holds_def\<close>)
    show "selection_domains (directory_clear n w) AND NOT (occupied (directory_clear n w)) = 0"
      using w(4) domains_clear by (simp add: holds_def)
  qed (simp_all add: directory_clear_def)
  then have "Q 0 ?v" by (rule yes) (simp_all add: owner_at_def ws[unfolded owner_at_def])
  then have "wp (owner_set env (directory_clear n)) (\<lambda>_. Q 0) ?u" using w(1) by (simp add: owner_set_def)
  then show ?thesis using bad by (simp add: remove_discovery_def row_delete_def Let_def)
qed

lemma unset_after_set: "\<not> bit x n \<Longrightarrow> unset_bit n (set_bit n x) = x" for x :: "'a::len word"
  by (rule bit_word_eqI) (auto simp: bit_unset_bit_iff bit_set_bit_iff)

lemma unset_absent: "\<not> bit x n \<Longrightarrow> unset_bit n x = x" for x :: "'a::len word"
  by (rule bit_word_eqI) (auto simp: bit_unset_bit_iff)

lemma wp_insert_cell:
  assumes i: "inside env 0 {} pid s" and ctl: "ctl_present env" and key: "sk_pid_tgid key = pid" "domain_ok key"
    and c: "n < 64" "\<not> bit (occupied (owner_at env s)) n" and none: "\<And>j. j < 64 \<Longrightarrow> \<not> discovery_cell_matches (owner_at env s) key j"
    and q: "\<And>rc s'. books (object_rows env) s' \<Longrightarrow> o_start s' = o_start s \<Longrightarrow> o_object s' = o_object s \<Longrightarrow>
      o_discovery s' = (if rc = 0 then (o_discovery s)(key := Some v) else o_discovery s) \<Longrightarrow> Q rc s'"
  shows "wp (insert_cell env key v n) Q s"
proof -
  obtain w where w: "o_owners s (o_task env) = Some w" "ow_flags w \<noteq> 0" "original_pid_tgid w = pid" "holds s w"
    "length (discovery_cookies w) = 64" "custody (object_rows env) 0 {} s" "core 0 s" "owner_at env s = w" by (rule insideE[OF i])
  let ?a = "s\<lparr>o_owners := (o_owners s)(o_task env := Some (directory_set n key w)), o_ticks := Suc (o_ticks s)\<rparr>"
  let ?b = "o_discovery_update (\<lambda>m. m(key := Some v)) ?a"
  have "inside env 0 {} pid ?b"
  proof (rule inside_cell[OF i key(1) refl, where f = "directory_set n key" and v = "Some v"], unfold w(8))
    show "directory_ok (directory_set n key w) ((o_discovery s)(key := Some v))"
      by (rule directory_ok_set) (use w(3,4,5) c none w(8) key in \<open>simp_all add: holds_def\<close>)
    show "selection_domains (directory_set n key w) AND NOT (occupied (directory_set n key w)) = 0"
      using w(4) domains_set by (simp add: holds_def)
  qed (simp_all add: directory_set_def)
  then have yes: "Q 0 ?b" by (intro q books_inside) simp_all
  have dom: "\<not> bit (selection_domains w) n" using c w(4,8) unfolding holds_def sub_bits by blast
  let ?w = "w\<lparr>discovery_cookies := (discovery_cookies w)[n := 0]\<rparr>"
  have undo: "directory_clear n (directory_set n key w) = ?w"
    using c(2) w(8) dom by (simp add: directory_clear_def directory_set_def unset_after_set unset_absent)
  have match: "discovery_cell_matches ?w k j \<longleftrightarrow> discovery_cell_matches w k j" for k j
    using c(2) w(8) by (cases "j = n") (auto simp: discovery_cell_matches_def)
  let ?c = "?a\<lparr>o_owners := (o_owners s)(o_task env := Some ?w)\<rparr>"
  have i3: "inside env 0 {} pid ?c"
  proof (rule inside_cell[OF i key(1) refl, where f = "\<lambda>w. w\<lparr>discovery_cookies := (discovery_cookies w)[n := 0]\<rparr>" and v = "o_discovery s key"], unfold w(8))
    show "directory_ok ?w ((o_discovery s)(key := o_discovery s key))"
      using w(4) match by (simp add: holds_def directory_ok_def)
  qed (use w(4) in \<open>simp_all add: holds_def\<close>)
  have no: "wp count_admission (\<lambda>_. wp (discovery_lookup env key) (\<lambda>row. wp (if row \<noteq> None then bookkeeping OWNER_DIRECTORY_MISMATCH else State_Monad.return ())
      (\<lambda>_. wp (release_empty env) (\<lambda>_. Q rc)))) ?c" if rc: "rc \<noteq> 0" for rc
  proof -
    have "frame (do { count_admission; row \<leftarrow> discovery_lookup env key;
        if row \<noteq> None then bookkeeping OWNER_DIRECTORY_MISMATCH else State_Monad.return () })"
      by (intro frame_bind frame_if) simp_all
    from wp_then_release[OF i3 ctl this, of "Q rc"] show ?thesis
      using q rc by (simp add: same_rows_def)
  qed
  show ?thesis using w(1) yes no undo
    by (auto simp: insert_cell_def owner_set_def row_update_def Let_def)
qed


definition moved :: "oenv \<Rightarrow> StateKey \<Rightarrow> StartState option \<Rightarrow> ostate \<Rightarrow> int \<Rightarrow> ostate \<Rightarrow> bool" where
  "moved env key goal s rc s' \<longleftrightarrow> books (object_rows env) s' \<and> o_start s' = o_start s \<and> o_object s' = o_object s
     \<and> (\<forall>k. k \<noteq> key \<longrightarrow> o_discovery s' k = o_discovery s k) \<and> (rc = 0 \<longrightarrow> o_discovery s' key = goal)"

lemma moved_stay: "books (object_rows env) s1 \<Longrightarrow> same_rows s s1 \<Longrightarrow> rc \<noteq> 0 \<Longrightarrow> moved env key goal s rc s1"
  by (simp add: moved_def same_rows_def)

lemma moved_rows: "moved env key goal s1 rc s2 \<Longrightarrow> same_rows s s1 \<Longrightarrow> moved env key goal s rc s2"
  by (simp add: moved_def same_rows_def)

lemma wp_frame_moved:
  assumes "books (object_rows env) s1" "same_rows s s1" "rc \<noteq> 0" "frame m"
  shows "wp m (\<lambda>_. moved env key goal s rc) s1"
  by (rule wp_frame[OF assms(4)], rule moved_stay[OF custody_frame[OF _ assms(1)] same_rows_frame[OF assms(2)] assms(3)])

lemma frame_inspect [simp]: "frame (inspect_absent_discovery env key)"
  unfolding inspect_absent_discovery_def by (intro frame_bind frame_if) simp_all

lemma frame_absent [simp]: "frame absent_verdict"
  unfolding absent_verdict_def by (intro frame_bind) simp_all

lemma wp_release_moved:
  assumes i: "inside env 0 {} pid s1" and ctl: "ctl_present env" and m: "moved env key goal s rc s1"
  shows "wp (release_empty env) (\<lambda>_. moved env key goal s rc) s1"
  by (rule wp_release_books[OF i ctl]) (use m in \<open>auto simp: moved_def same_rows_def\<close>)

lemma wp_remove_found:
  assumes i: "inside env 0 {} pid s" and ctl: "ctl_present env" and key: "sk_pid_tgid key = pid" "domain_ok key"
    and c: "directory_find (owner_at env s) key = Some n"
  shows "wp (remove_discovery env key n) (\<lambda>rc s'. inside env 0 {} pid s' \<and> moved env key None s rc s') s"
proof (rule wp_remove_discovery[OF i key directory_find_Some[OF c]])
  fix rc s' assume "inside env 0 {} pid s'" "same_rows s s'" "(rc :: int) \<noteq> 0"
  then show "inside env 0 {} pid s' \<and> moved env key None s rc s'" using moved_stay books_inside by blast
next
  fix s' assume "inside env 0 {} pid s'" "o_start s' = o_start s" "o_object s' = o_object s" "o_discovery s' = (o_discovery s)(key := None)"
  then show "inside env 0 {} pid s' \<and> moved env key None s 0 s'" using books_inside by (auto simp: moved_def)
qed

lemma wp_discovery_remove:
  assumes c: "books (object_rows env) s"
  shows "wp (p11_owner_discovery_remove env key required) (moved env key None s) s"
  unfolding p11_owner_discovery_remove_def
proof (cases "domain_ok key")
  case False
  then show "wp (with_owner env (domain_ok key) (optional_missing required (discovery_lookup env key)) (- 1) m b) (moved env key None s) s" for m b
    unfolding with_owner_def wp_bind
    by (intro wp_control_cases[OF c]) (use moved_stay[OF c] in \<open>simp_all add: healthy_def same_rows_def\<close>)
next
  case dom: True
  show "wp (with_owner env (domain_ok key) (optional_missing required (discovery_lookup env key)) (- 1)
       (do { inspect_absent_discovery env key; absent_verdict })
       (do {
         valid \<leftarrow> discovery_key_valid env key;
         index \<leftarrow> oget (\<lambda>s. directory_find (owner_at env s) key);
         case (if valid then index else None) of
           None \<Rightarrow> do { bookkeeping OWNER_DIRECTORY_MISMATCH; State_Monad.return (- 1) }
         | Some index \<Rightarrow> do {
             rc \<leftarrow> remove_discovery env key index;
             if rc \<noteq> 0 then State_Monad.return rc
             else do { released \<leftarrow> release_empty env; State_Monad.return (if released then 0 else - 1) } } })) (moved env key None s) s"
  proof (rule wp_with_owner[OF c])
    show "wp (do { inspect_absent_discovery env key; absent_verdict }) (moved env key None s) s1"
      if "books (object_rows env) s1" "same_rows s s1" for s1
      unfolding wp_bind by (rule wp_frame) (use that in \<open>auto intro!: moved_stay simp: absent_verdict_def healthy_def custody_frame same_rows_frame\<close>)
    fix s1 pid assume i: "inside env 0 {} pid s1" and ctl: "ctl_present env" and r: "same_rows s s1"
    obtain w where w: "original_pid_tgid w = pid" "owner_at env s1 = w" by (rule insideE[OF i])
    have bad: "wp (bookkeeping OWNER_DIRECTORY_MISMATCH) (\<lambda>_. moved env key None s (- 1)) s1"
      by (rule wp_frame_moved[OF books_inside[OF i] r]) simp_all
    have rem: "wp (remove_discovery env key n) (\<lambda>rc. wp (if rc \<noteq> 0 then State_Monad.return rc
             else do { released \<leftarrow> release_empty env; State_Monad.return (if released then 0 else - 1) }) (moved env key None s)) s1"
      if key: "sk_pid_tgid key = pid" and n: "directory_find (owner_at env s1) key = Some n" for n
    proof (rule wp_conseq[OF wp_remove_found[OF i ctl key dom n]])
      fix rc s2 assume s2: "inside env 0 {} pid s2 \<and> moved env key None s1 rc s2"
      then have m: "moved env key None s rc s2" using moved_rows[OF _ r] by blast
      have "wp (release_empty env) (\<lambda>released. moved env key None s (if released then 0 else - 1)) s2" if "rc = 0"
        by (rule wp_release_books[OF conjunct1[OF s2] ctl]) (use m that in \<open>auto simp: moved_def same_rows_def\<close>)
      with m show "wp (if rc \<noteq> 0 then State_Monad.return rc
             else do { released \<leftarrow> release_empty env; State_Monad.return (if released then 0 else - 1) }) (moved env key None s) s2"
        by simp
    qed
    show "wp (do {
         valid \<leftarrow> discovery_key_valid env key;
         index \<leftarrow> oget (\<lambda>s. directory_find (owner_at env s) key);
         case (if valid then index else None) of
           None \<Rightarrow> do { bookkeeping OWNER_DIRECTORY_MISMATCH; State_Monad.return (- 1) }
         | Some index \<Rightarrow> do {
             rc \<leftarrow> remove_discovery env key index;
             if rc \<noteq> 0 then State_Monad.return rc
             else do { released \<leftarrow> release_empty env; State_Monad.return (if released then 0 else - 1) } } }) (moved env key None s) s1"
      using bad rem w by (auto simp: discovery_key_valid_def split: option.split)
  qed (simp_all add: moved_stay)
qed

lemma wp_replace_cell:
  assumes i: "inside env 0 {} pid s" and ctl: "ctl_present env" and key: "sk_pid_tgid key = pid" "domain_ok key"
    and n: "directory_find (owner_at env s) key = Some n"
  shows "wp (replace_cell env key v n flags) (moved env key (Some v) s) s"
proof (cases "flags = 2")
  case True
  obtain w where w: "o_owners s (o_task env) = Some w" "ow_flags w \<noteq> 0" "original_pid_tgid w = pid" "holds s w"
    "length (discovery_cookies w) = 64" "custody (object_rows env) 0 {} s" "core 0 s" "owner_at env s = w" by (rule insideE[OF i])
  have d: "directory_ok w (o_discovery s)" using w(4) by (simp add: holds_def)
  have pres: "o_discovery s key \<noteq> None"
    using directory_okD(2)[OF d, of key] directory_find_Some[OF n] key w by auto
  let ?s = "s\<lparr>o_ticks := Suc (o_ticks s)\<rparr>"
  have bad: "wp (do { count_admission; if rc = ENOENT then bookkeeping OWNER_DIRECTORY_MISMATCH else State_Monad.return () })
      (\<lambda>_. moved env key (Some v) s rc) ?s" if "rc \<noteq> 0" for rc
    by (rule wp_frame_moved[OF custody_frame[OF _ books_inside[OF i]] _ that])
      (auto intro!: frame_bind simp: same_rows_def)
  let ?b = "o_discovery_update (\<lambda>m. m(key := Some v)) ?s"
  have "inside env 0 {} pid ?b"
  proof (rule inside_cell[OF i key(1) refl, where f = id and v = "Some v"])
    show "directory_ok (id (owner_at env s)) ((o_discovery s)(key := Some v))"
      using d pres w(8) unfolding directory_ok_def by auto
  qed (use w in \<open>simp_all add: holds_def fun_upd_idem\<close>)
  then have "moved env key (Some v) s 0 ?b" using books_inside by (auto simp: moved_def)
  then show ?thesis using bad True pres by (simp add: replace_cell_def row_update_def Let_def)
next
  case False
  have "wp count_admission (\<lambda>_. wp (remove_discovery env key n) (\<lambda>_. wp (release_empty env) (\<lambda>_. moved env key (Some v) s EEXIST))) s"
  proof (rule wp_frame)
    fix s1 assume s1: "same_books s s1"
    have i1: "inside env 0 {} pid s1" by (rule inside_frame[OF s1 i])
    have n1: "directory_find (owner_at env s1) key = Some n" using n frame_rows(4)[OF s1] by (simp add: owner_at_def)
    show "wp (remove_discovery env key n) (\<lambda>_. wp (release_empty env) (\<lambda>_. moved env key (Some v) s EEXIST)) s1"
    proof (rule wp_conseq[OF wp_remove_found[OF i1 ctl key n1]])
      fix rc s2 assume s2: "inside env 0 {} pid s2 \<and> moved env key None s1 rc s2"
      then have "moved env key (Some v) s EEXIST s2" using same_books_rows[OF s1] by (simp add: moved_def same_rows_def)
      then show "wp (release_empty env) (\<lambda>_. moved env key (Some v) s EEXIST) s2"
        using wp_release_moved[OF conjunct1[OF s2] ctl] by blast
    qed
  qed simp
  then show ?thesis using False by (simp add: replace_cell_def)
qed

lemma wp_discovery_insert:
  assumes c: "books (object_rows env) s" and t: "task_ok env s"
  shows "wp (p11_owner_discovery_insert env key v flags) (moved env key (Some v) s) s"
proof -
  have own: "wp (discovery_as_owner env key v flags) (moved env key (Some v) s) s1"
    if i: "inside env 0 {} pid s1" and ctl: "ctl_present env" and r: "same_rows s s1" for pid s1
  proof -
    obtain w where w: "original_pid_tgid w = pid" "owner_at env s1 = w" by (rule insideE[OF i])
    have fr: "wp m (\<lambda>_. moved env key (Some v) s rc) s1" if "frame m" "rc \<noteq> 0" for rc and m :: "unit own"
      by (rule wp_frame_moved[OF books_inside[OF i] r that(2,1)])
    have rel: "wp count_admission (\<lambda>_. wp (release_empty env) (\<lambda>_. moved env key (Some v) s (- 1))) s1"
      by (rule wp_then_release[OF i ctl]) (use r in \<open>auto intro!: moved_stay dest: same_rows_trans\<close>)
    have ins: "wp (insert_cell env key v n) (moved env key (Some v) s) s1"
      if "sk_pid_tgid key = pid" "domain_ok key" "directory_find w key = None" "free_cell w = Some n" for n
      by (rule wp_insert_cell[OF i ctl that(1,2)])
        (use free_cell_Some[OF that(4)] directory_find_None[OF that(3)] w r in \<open>auto simp: moved_def same_rows_def\<close>)
    have rep: "wp (replace_cell env key v n flags) (moved env key (Some v) s) s1"
      if "sk_pid_tgid key = pid" "domain_ok key" "directory_find w key = Some n" for n
      by (rule wp_conseq[OF wp_replace_cell[OF i ctl that(1,2)]], simp add: w that, erule moved_rows[OF _ r])
    show ?thesis using fr rel ins rep w
      by (auto simp: discovery_as_owner_def discovery_key_valid_def split: option.split)
  qed
  show ?thesis unfolding p11_owner_discovery_insert_def wp_bind
    by (rule wp_control_cases[OF c]; rule wp_owned[OF c t]; (rule own, assumption, assumption, assumption)?)
      (auto intro!: moved_stay)
qed


lemma wp_discovery_get:
  assumes c: "books (object_rows env) s"
  shows "wp (p11_owner_discovery_get env key required) (\<lambda>row s'. books (object_rows env) s' \<and> same_rows s s'
     \<and> (\<forall>v. row = Some v \<longrightarrow> o_discovery s' key = Some v)) s"
  (is "wp _ ?Q s")
  unfolding p11_owner_discovery_get_def
proof (rule wp_with_owner[OF c])
  show "wp (do { inspect_absent_discovery env key; State_Monad.return None }) ?Q s1"
    if "books (object_rows env) s1" "same_rows s s1" for s1
    unfolding wp_bind by (rule wp_frame) (use that in \<open>auto simp: custody_frame same_rows_frame\<close>)
  fix s1 pid assume i: "inside env 0 {} pid s1" and r: "same_rows s s1"
  have b1: "books (object_rows env) s1" by (rule books_inside[OF i])
  have fr: "wp m (\<lambda>_. ?Q None) s2" if "same_books s1 s2" "frame m" for s2 and m :: "unit own"
    by (rule wp_frame[OF that(2)])
      (use custody_frame[OF same_books_trans[OF that(1)] b1] same_rows_frame[OF r same_books_trans[OF that(1)]] in auto)
  have "wp (discovery_lookup env key) (\<lambda>row. wp (if row = None then bookkeeping OWNER_DIRECTORY_MISMATCH else State_Monad.return ()) (\<lambda>_. ?Q row)) s1"
    by (rule wp_lookup) (use fr custody_frame[OF _ b1] same_rows_frame[OF r] in auto)
  then show "wp (do {
         valid \<leftarrow> discovery_key_valid env key;
         found \<leftarrow> oget (\<lambda>s. directory_find (owner_at env s) key \<noteq> None);
         if \<not> valid \<or> \<not> found then do { bookkeeping OWNER_DIRECTORY_MISMATCH; State_Monad.return None }
         else do {
           row \<leftarrow> discovery_lookup env key;
           _ \<leftarrow> (if row = None then bookkeeping OWNER_DIRECTORY_MISMATCH else State_Monad.return ());
           State_Monad.return row } }) ?Q s1"
    using fr[OF same_books_refl] by (simp add: discovery_key_valid_def)
qed auto

section \<open>Cleanup\<close>

definition swept :: "oenv \<Rightarrow> u64 \<Rightarrow> bool \<Rightarrow> ostate \<Rightarrow> bool" where
  "swept env pid failed s \<longleftrightarrow> books (object_rows env) s \<and> (\<not> failed \<longrightarrow> inside env 0 {} pid s)"

lemma swept_inside: "inside env 0 {} pid s \<Longrightarrow> swept env pid failed s"
  by (simp add: swept_def inside_def)

lemma wp_frame_swept:
  "inside env 0 {} pid s \<Longrightarrow> frame m \<Longrightarrow> wp m (\<lambda>_. swept env pid failed) s"
  by (erule wp_frame) (simp add: swept_inside inside_frame)

lemma wp_start_callback:
  assumes i: "inside env 0 {} pid s" and ctl: "ctl_present env"
  shows "wp (owner_cleanup_start_callback env pid slot) (swept env pid) s"
proof (cases "slot < 512")
  case False
  then show ?thesis using wp_frame_swept[OF i, of "bookkeeping OWNER_START_KEY_MISMATCH" True]
    by (simp add: owner_cleanup_start_callback_def)
next
  case True
  let ?key = "slot_key pid slot"
  let ?tail = "\<lambda>rc again. (if again = (None :: CallStart option)
             then do {
               count_abandoned_start;
               if rc \<noteq> (0::int) then do { _ \<leftarrow> release_empty env; State_Monad.return () } else State_Monad.return () }
             else State_Monad.return ())"
  have rest: "wp (remove_start env ?key) (\<lambda>rc. wp (start_lookup env ?key) (\<lambda>again. wp (?tail rc again) (\<lambda>_. swept env pid (rc \<noteq> 0)))) s1"
    if s1: "same_books s s1" for s1
  proof (rule wp_remove_start[OF inside_frame[OF s1 i]])
    fix rc s2 assume s2: "inside env 0 {} pid s2"
    have rel: "wp count_abandoned_start (\<lambda>_. wp (release_empty env) (\<lambda>_. swept env pid True)) s3" if "same_books s2 s3" for s3
      by (rule wp_then_release[OF inside_frame[OF that s2] ctl]) (simp_all add: swept_def)
    have ok: "swept env pid f s3" if "same_books s2 s3" for f s3 by (rule swept_inside[OF inside_frame[OF that s2]])
    have cnt: "wp count_abandoned_start (\<lambda>_. swept env pid f) s3" if "same_books s2 s3" for f s3
      by (rule wp_frame_swept[OF inside_frame[OF that s2]]) simp
    show "wp (start_lookup env ?key) (\<lambda>again. wp (?tail rc again) (\<lambda>_. swept env pid ((rc::int) \<noteq> 0))) s2"
      by (rule wp_lookup) (use rel ok cnt in simp_all)
  qed simp
  have ok: "swept env pid False s1" if "same_books s s1" for s1 by (rule swept_inside[OF inside_frame[OF that i]])
  show ?thesis
    using True unfolding owner_cleanup_start_callback_def Let_def
    by simp (rule wp_lookup, use rest ok in simp_all)
qed

lemma wp_sweep:
  assumes i: "I k s"
    and step: "\<And>i s. I i s \<Longrightarrow> i < n + k \<Longrightarrow> wp (callback i) (\<lambda>failed s'. (\<not> failed \<longrightarrow> I (Suc i) s') \<and> (failed \<longrightarrow> J s')) s"
  shows "wp (sweep callback k n) (\<lambda>(failed, m) s'. if failed then J s' else I m s' \<and> m = k + n) s"
  using i step
proof (induction callback k n arbitrary: s rule: sweep.induct)
  case (1 callback i)
  then show ?case by simp
next
  case (2 callback i n)
  have rest: "wp (sweep callback (Suc i) n) (\<lambda>(failed, m) s'. if failed then J s' else I m s' \<and> m = Suc i + n) s1" if "I (Suc i) s1" for s1
    by (rule "2.IH"[OF _ that]) (use "2.prems"(2) in auto)
  have "wp (callback i) (\<lambda>failed. wp (if failed then State_Monad.return (True, Suc i) else sweep callback (Suc i) n)
      (\<lambda>(failed, m) s'. if failed then J s' else I m s' \<and> m = i + Suc n)) s"
  proof (rule wp_conseq[OF "2.prems"(2)[OF "2.prems"(1)]])
    fix failed s1 assume "(\<not> failed \<longrightarrow> I (Suc i) s1) \<and> (failed \<longrightarrow> J s1)"
    then show "wp (if failed then State_Monad.return (True, Suc i) else sweep callback (Suc i) n)
      (\<lambda>(failed, m) s'. if failed then J s' else I m s' \<and> m = i + Suc n) s1"
      using rest[of s1, unfolded add_Suc_shift] by (cases failed) (simp_all split del: if_split)
  qed simp
  then show ?case by simp
qed

lemma wp_owner_loop:
  assumes i: "I 0 s" and t: "\<And>n s s'. I n s \<Longrightarrow> same_books s s' \<Longrightarrow> o_ctl s' = o_ctl s \<Longrightarrow> I n s'"
    and step: "\<And>i s. I i s \<Longrightarrow> i < 512 \<Longrightarrow> wp (callback i) (\<lambda>failed s'. (\<not> failed \<longrightarrow> I (Suc i) s') \<and> (failed \<longrightarrow> J s')) s"
  shows "wp (owner_loop env callback) (\<lambda>(failed, m) s'. if failed then J s' else I m s' \<and> m = min (loop_cut env (o_ticks s)) 512) s"
proof -
  have "wp (sweep callback 0 (min cut 512)) (\<lambda>(failed, m) s'. if failed then J s' else I m s' \<and> m = 0 + min cut 512)
      (s\<lparr>o_ticks := Suc (o_ticks s)\<rparr>)" for cut
    by (rule wp_sweep[where I = I and J = J], rule t[OF i]) (auto intro!: step)
  from this[of "loop_cut env (o_ticks s)", unfolded add_0] show ?thesis by (simp add: owner_loop_def split del: if_split)
qed

text \<open>A task without START rows: its side rows are orphans, and may go.\<close>

definition startless :: "oenv \<Rightarrow> u64 \<Rightarrow> ostate \<Rightarrow> bool" where
  "startless env pid s \<longleftrightarrow> inside env 0 {} pid s \<and> (\<forall>k. sk_pid k = pid \<longrightarrow> o_start s k = None)"

lemma startless_iff:
  assumes i: "inside env 0 {} pid s"
  shows "startless env pid s \<longleftrightarrow> start_count (owner_at env s) = 0"
proof -
  obtain w where w: "o_owners s (o_task env) = Some w" "ow_flags w \<noteq> 0" "original_pid_tgid w = pid" "holds s w"
    "length (discovery_cookies w) = 64" "custody (object_rows env) 0 {} s" "core 0 s" "owner_at env s = w" by (rule insideE[OF i])
  have "start_count w = 0 \<longleftrightarrow> card (rows_of (o_start s) pid) = 0" using w(3,4) by (simp add: holds_def unat_eq_0 flip: unat_eq_0)
  also have "\<dots> \<longleftrightarrow> rows_of (o_start s) pid = {}" using core_rows_finite[OF w(7)] by simp
  finally show ?thesis using i w(8) by (auto simp: startless_def rows_of_def)
qed

lemma startless_frame: "startless env pid s \<Longrightarrow> same_books s s' \<Longrightarrow> startless env pid s'"
  by (auto simp: startless_def inside_frame frame_rows)

lemma wp_orphan_callback:
  assumes z: "startless env pid s" and n: "slot < 512"
  shows "wp (owner_cleanup_orphan_callback env pid slot)
    (\<lambda>failed s'. (\<not> failed \<longrightarrow> startless env pid s') \<and> (failed \<longrightarrow> books (object_rows env) s')) s"
proof -
  let ?key = "slot_key pid slot" and ?Q = "\<lambda>failed s'. (\<not> failed \<longrightarrow> startless env pid s') \<and> (failed \<longrightarrow> books (object_rows env) s')"
  have del: "wp (object_scrub_side ?key) (\<lambda>_. wp (object_delete env ?key) (\<lambda>rc. wp (if rc \<noteq> 0
      then do { poison OWNER_STATE_DELETE_FAILED; State_Monad.return True }
      else do { count_abandoned_start; State_Monad.return False }) ?Q)) s1" if s1: "same_books s s1" for s1
  proof -
    have i1: "inside env 0 {} pid s1" and n1: "\<And>k. sk_pid k = pid \<Longrightarrow> o_start s1 k = None"
      using startless_frame[OF z s1] by (auto simp: startless_def)
    show ?thesis unfolding object_scrub_side_def
    proof (rule wp_object_put[OF i1])
      fix s2 assume s2: "inside env 0 {?key} pid s2" "o_start s2 = o_start s1"
      show "wp (object_delete env ?key) (\<lambda>rc. wp (if rc \<noteq> 0
        then do { poison OWNER_STATE_DELETE_FAILED; State_Monad.return True }
        else do { count_abandoned_start; State_Monad.return False }) ?Q) s2"
      proof (rule wp_object_delete[OF s2(1)])
        fix rc s3 assume s3: "(rc::int) \<noteq> 0" "same_books s2 s3"
        have "wp (poison OWNER_STATE_DELETE_FAILED) (\<lambda>_. ?Q True) s3"
        proof (rule wp_poison)
          fix s4 assume s4: "same_books s3 s4" "poisoned s4"
          have "inside env 0 {?key} pid s4" by (rule inside_frame[OF s4(1)]) (rule inside_frame[OF s3(2) s2(1)])
          from inside_poisoned[OF this s4(2), of "{}"] show "?Q True s4" by (simp add: books_inside)
        qed simp
        then show "wp (if rc \<noteq> 0 then do { poison OWNER_STATE_DELETE_FAILED; State_Monad.return True }
            else do { count_abandoned_start; State_Monad.return False }) ?Q s3" using s3(1) by simp
      next
        fix s3 assume s3: "inside env 0 {?key, ?key} pid s3" "o_start s3 = o_start s2" "o_object s3 ?key = None"
        have "inside env 0 {} pid s3"
          by (rule inside_shrink[OF s3(1)]) (use s3 s2 n1 in simp)
        then have "startless env pid s3" using n1 s3(2) s2(2) by (simp add: startless_def)
        then have "wp count_abandoned_start (\<lambda>_. ?Q False) s3" by (intro wp_frame) (simp_all add: startless_frame)
        then show "wp (if (0::int) \<noteq> 0 then do { poison OWNER_STATE_DELETE_FAILED; State_Monad.return True }
            else do { count_abandoned_start; State_Monad.return False }) ?Q s3" by simp
      qed
    qed
  qed
  show ?thesis using n unfolding owner_cleanup_orphan_callback_def Let_def
    by simp (rule wp_lookup, use del startless_frame[OF z] in simp_all)
qed

definition rows_settled :: "oenv \<Rightarrow> u64 \<Rightarrow> bool \<Rightarrow> ostate \<Rightarrow> bool" where
  "rows_settled env pid ok s \<longleftrightarrow> books (object_rows env) s \<and> (ok \<longrightarrow> startless env pid s)"

lemma rows_settled_books: "books (object_rows env) s \<Longrightarrow> rows_settled env pid False s"
  by (simp add: rows_settled_def)

lemma startless_books: "startless env pid s \<Longrightarrow> books (object_rows env) s"
  by (auto simp: startless_def books_inside)

lemma rows_settled_startless: "startless env pid s \<Longrightarrow> rows_settled env pid ok s"
  by (simp add: rows_settled_def startless_books)

lemma wp_refused: "books (object_rows env) s \<Longrightarrow> frame m \<Longrightarrow> wp m (\<lambda>_. rows_settled env pid False) s"
  by (erule wp_frame) (simp add: rows_settled_books custody_frame)

lemma wp_cleanup_rows:
  assumes i: "inside env 0 {} pid s" and ctl: "ctl_present env"
  shows "wp (cleanup_rows env pid) (rows_settled env pid) s"
proof -
  let ?B = "books (object_rows env)"
  let ?orphans = "do {
         (failed, completed) \<leftarrow> owner_loop env (owner_cleanup_orphan_callback env pid);
         if failed then State_Monad.return False
         else if completed \<noteq> unat OWNER_SLOT_BOUND
         then do { poison OWNER_CLASSIFIER_FAILED; State_Monad.return False }
         else State_Monad.return True }"
  have orphans: "wp ?orphans (rows_settled env pid) s2" if z: "startless env pid s2" for s2
    unfolding wp_bind
  proof (rule wp_conseq[OF wp_owner_loop[where I = "\<lambda>_. startless env pid" and J = "?B"]], rule z, erule (1) startless_frame,
      erule (1) wp_orphan_callback, clarify)
    fix failed m s3 assume s3: "if failed then ?B s3 else startless env pid s3 \<and> m = min (loop_cut env (o_ticks s2)) 512"
    have "wp (poison OWNER_CLASSIFIER_FAILED) (\<lambda>_. rows_settled env pid False) s3" if "startless env pid s3"
      by (rule wp_refused[OF startless_books[OF that]]) simp
    then show "wp (if failed then State_Monad.return False
         else if m \<noteq> unat OWNER_SLOT_BOUND
         then do { poison OWNER_CLASSIFIER_FAILED; State_Monad.return False }
         else State_Monad.return True) (rows_settled env pid) s3"
      using s3 by (cases failed) (simp_all add: rows_settled_books rows_settled_startless)
  qed
  have starts: "wp (owner_loop env (owner_cleanup_start_callback env pid))
      (\<lambda>(failed, m) s'. if failed then ?B s' else inside env 0 {} pid s' \<and> m = min (loop_cut env (o_ticks s)) 512) s"
  proof (rule wp_owner_loop[where I = "\<lambda>_. inside env 0 {} pid"], rule i, erule (1) inside_frame[rotated])
    fix n s1 assume "inside env 0 {} pid s1"
    then show "wp (owner_cleanup_start_callback env pid n) (\<lambda>failed s'. (\<not> failed \<longrightarrow> inside env 0 {} pid s') \<and> (failed \<longrightarrow> ?B s')) s1"
      by (rule wp_conseq[OF wp_start_callback[OF _ ctl]]) (simp add: swept_def)
  qed
  have rest: "wp (do { starts \<leftarrow> oget (start_count \<circ> owner_at env);
       if starts \<noteq> 0 then do { bookkeeping OWNER_START_COUNT_MISMATCH; State_Monad.return False } else ?orphans })
       (rows_settled env pid) s1" if s1: "inside env 0 {} pid s1" for s1
    using orphans[of s1] startless_iff[OF s1] wp_refused[OF books_inside[OF s1], of "bookkeeping OWNER_START_COUNT_MISMATCH"]
    by simp
  show ?thesis unfolding cleanup_rows_def wp_bind
  proof (rule wp_conseq[OF starts], clarify)
    fix failed m s1 assume s1: "if failed then ?B s1 else inside env 0 {} pid s1 \<and> m = min (loop_cut env (o_ticks s)) 512"
    have cls: "wp (poison OWNER_CLASSIFIER_FAILED) (\<lambda>_. rows_settled env pid False) s1" if "\<not> failed"
      using s1 that by (intro wp_refused[OF books_inside[of env pid]]) simp_all
    show "wp (if failed then State_Monad.return False
     else if m \<noteq> unat OWNER_SLOT_BOUND
     then do { poison OWNER_CLASSIFIER_FAILED; State_Monad.return False }
     else do {
       starts \<leftarrow> oget (start_count \<circ> owner_at env);
       if starts \<noteq> 0 then do { bookkeeping OWNER_START_COUNT_MISMATCH; State_Monad.return False } else ?orphans })
       (rows_settled env pid) s1"
      using s1 cls rest[of s1] by (cases failed) (simp_all add: rows_settled_books del: wp_oget)
  qed
qed

lemma wp_cleanup_cells:
  assumes z: "startless env pid s" and cells: "set is \<subseteq> {..<64}"
  shows "wp (cleanup_cells env pid is)
    (\<lambda>ok s'. startless env pid s' \<and> (ok \<longrightarrow> (\<forall>n. bit (occupied (owner_at env s')) n \<longrightarrow> bit (occupied (owner_at env s)) n \<and> n \<notin> set is))) s"
  using z cells
proof (induction "is" arbitrary: s)
  case Nil
  then show ?case by simp
next
  case (Cons i "is")
  let ?w = "owner_at env s"
  let ?key = "\<lparr>sk_pid_tgid = pid, sk_attach_cookie = discovery_cookies ?w ! i,
          sk_domain = (if bit (selection_domains ?w) i then 2 else 1)\<rparr>"
  let ?Q = "\<lambda>s ok s'. startless env pid s' \<and> (ok \<longrightarrow> (\<forall>n. bit (occupied (owner_at env s')) n \<longrightarrow> bit (occupied (owner_at env s)) n \<and> n \<notin> set is))"
  let ?R = "\<lambda>ok s'. startless env pid s' \<and> (ok \<longrightarrow> (\<forall>n. bit (occupied (owner_at env s')) n \<longrightarrow> bit (occupied ?w) n \<and> n \<notin> set (i # is)))"
  have rest: "wp (cleanup_cells env pid is) (?Q s1) s1" if "startless env pid s1" for s1
    by (rule Cons.IH) (use that Cons.prems in auto)
  show ?case
  proof (cases "bit (occupied ?w) i")
    case False
    have "wp (cleanup_cells env pid is) ?R s"
      by (rule wp_conseq[OF rest[OF Cons.prems(1)]]) (use False in auto)
    then show ?thesis using False by simp
  next
    case True
    have i: "inside env 0 {} pid s" using Cons.prems by (simp add: startless_def)
    have "wp (remove_discovery env ?key i) (\<lambda>rc. wp (if rc \<noteq> 0 then State_Monad.return False
        else do { count_abandoned_discovery; cleanup_cells env pid is }) ?R) s"
    proof (rule wp_remove_discovery[OF i])
      show "discovery_cell_matches ?w ?key i" using True by (simp add: discovery_cell_matches_def)
    next
      fix rc s1 assume s1: "inside env 0 {} pid s1" "same_rows s s1" "(rc::int) \<noteq> 0"
      then have "startless env pid s1" using Cons.prems by (simp add: startless_def same_rows_def)
      then show "wp (if rc \<noteq> 0 then State_Monad.return False else do { count_abandoned_discovery; cleanup_cells env pid is }) ?R s1"
        using s1 by simp
    next
      fix s1 assume s1: "inside env 0 {} pid s1" "o_start s1 = o_start s" "owner_at env s1 = directory_clear i ?w"
      then have z1: "startless env pid s1" using Cons.prems by (simp add: startless_def)
      have "wp count_abandoned_discovery (\<lambda>_. wp (cleanup_cells env pid is) ?R) s1"
      proof (rule wp_frame)
        fix x s2 assume s2: "same_books s1 s2"
        then have "owner_at env s2 = directory_clear i ?w" using s1(3) by (simp add: owner_at_def frame_rows)
        then show "wp (cleanup_cells env pid is) ?R s2"
          by (intro wp_conseq[OF rest[OF startless_frame[OF z1 s2]]]) (auto simp: directory_clear_def bit_unset_bit_iff)
      qed simp
      then show "wp (if (0::int) \<noteq> 0 then State_Monad.return False else do { count_abandoned_discovery; cleanup_cells env pid is }) ?R s1"
        by simp
    qed (use Cons.prems in simp_all)
    then show ?thesis using True by simp
  qed
qed

text \<open>The verdict of a cleanup: anything but 1 is a settled task.\<close>

definition settled :: "oenv \<Rightarrow> ostate \<Rightarrow> u32 \<Rightarrow> ostate \<Rightarrow> bool" where
  "settled env s rc s' \<longleftrightarrow> books (object_rows env) s' \<and> (rc \<noteq> 1 \<longrightarrow> \<not> poisoned s' \<and> o_task env \<notin> leased (o_owners s')
     \<and> (\<forall>w. o_owners s (o_task env) = Some w \<longrightarrow> ow_flags w \<noteq> 0 \<longrightarrow> \<not> has_owner (o_owners s') (original_pid_tgid w)))"

lemma settled_failed: "books (object_rows env) s' \<Longrightarrow> settled env s 1 s'"
  by (simp add: settled_def)

lemma wp_failed: "books (object_rows env) s1 \<Longrightarrow> frame m \<Longrightarrow> wp m (\<lambda>_. settled env s 1) s1"
  by (erule wp_frame) (simp add: settled_failed custody_frame)

lemma wp_cleanup_verdict:
  assumes "books (object_rows env) s1" "o_task env \<notin> leased (o_owners s1)"
    "\<And>w. o_owners s (o_task env) = Some w \<Longrightarrow> ow_flags w \<noteq> 0 \<Longrightarrow> \<not> has_owner (o_owners s1) (original_pid_tgid w)"
  shows "wp (cleanup_verdict rc) (settled env s) s1"
  using assms by (simp add: cleanup_verdict_def healthy_def settled_def)

lemma all_cells_free: "(\<And>n. bit w n \<Longrightarrow> n \<notin> {..<64}) \<Longrightarrow> w = 0" for w :: u64
  by (rule bit_word_eqI) auto

lemma has_owner_released:
  assumes "pids_apart m" "m t = Some w" "ow_flags w \<noteq> 0" "ow_flags w' = 0"
  shows "\<not> has_owner (m(t := Some w')) (original_pid_tgid w)" "t \<notin> leased (m(t := Some w'))"
  using assms unfolding has_owner_def pids_apart_def leased_def by (auto split: if_splits)

lemma wp_cleanup_leased:
  assumes i: "inside env 0 {} pid s1" and ctl: "ctl_present env"
    and o: "\<And>w. o_owners s (o_task env) = Some w \<Longrightarrow> ow_flags w \<noteq> 0 \<Longrightarrow> original_pid_tgid w = pid"
  shows "wp (cleanup_leased env) (settled env s) s1"
proof -
  let ?verdict = "\<lambda>released. if \<not> released then State_Monad.return 1
         else cleanup_verdict (if start_count (owner_at env s1) \<noteq> 0 then P11_OWNER_CLEANUP_ABANDONED_START else 0)"
  have out: "wp (release_empty env) (\<lambda>released. wp (?verdict released) (settled env s)) s3"
    if z: "startless env pid s3" and cells: "occupied (owner_at env s3) = 0" for s3
  proof -
    have i3: "inside env 0 {} pid s3" using z by (simp add: startless_def)
    have n3: "start_count (owner_at env s3) = 0" using z startless_iff[OF i3] by simp
    obtain w where w: "o_owners s3 (o_task env) = Some w" "ow_flags w \<noteq> 0" "original_pid_tgid w = pid" "holds s3 w"
      "length (discovery_cookies w) = 64" "custody (object_rows env) 0 {} s3" "core 0 s3" "owner_at env s3 = w" by (rule insideE[OF i3])
    have apart: "pids_apart (o_owners s3)" using w(7) by (simp add: core_def)
    show ?thesis
    proof (rule wp_release_empty[OF i3 ctl])
      fix s4 assume s4: "books (object_rows env) s4" "o_owners s4 = (o_owners s3)(o_task env := Some (idle_row (owner_at env s3)))"
      have "ow_flags (idle_row w) = 0" by (simp add: idle_row_def)
      note gone = has_owner_released[OF apart w(1,2) this]
      show "wp (?verdict True) (settled env s) s4"
        using wp_cleanup_verdict[OF s4(1)] gone o s4(2) w(3,8) by simp
    qed (use n3 cells in simp)
  qed
  have cells: "wp (cleanup_cells env pid [0..<64]) (\<lambda>cells. wp (if \<not> cells then State_Monad.return 1
      else do { released \<leftarrow> release_empty env; ?verdict released }) (settled env s)) s2" if z: "startless env pid s2" for s2
  proof (rule wp_conseq[OF wp_cleanup_cells[OF z]])
    fix ok s3 assume s3: "startless env pid s3 \<and> (ok \<longrightarrow>
      (\<forall>n. bit (occupied (owner_at env s3)) n \<longrightarrow> bit (occupied (owner_at env s2)) n \<and> n \<notin> set [0..<64]))"
    then have "ok \<Longrightarrow> occupied (owner_at env s3) = 0" by (intro all_cells_free) (auto simp: atLeast0LessThan)
    then show "wp (if \<not> ok then State_Monad.return 1 else do { released \<leftarrow> release_empty env; ?verdict released }) (settled env s) s3"
      using s3 out[of s3] settled_failed[OF startless_books] by (cases ok) simp_all
  qed auto
  have "wp (cleanup_rows env pid) (\<lambda>rows. wp (if \<not> rows then State_Monad.return 1
      else do { cells \<leftarrow> cleanup_cells env pid [0..<64];
        if \<not> cells then State_Monad.return 1 else do { released \<leftarrow> release_empty env; ?verdict released } }) (settled env s)) s1"
  proof (rule wp_conseq[OF wp_cleanup_rows[OF i ctl]])
    fix ok s2 assume "rows_settled env pid ok s2"
    then show "wp (if \<not> ok then State_Monad.return 1
      else do { cells \<leftarrow> cleanup_cells env pid [0..<64];
        if \<not> cells then State_Monad.return 1 else do { released \<leftarrow> release_empty env; ?verdict released } }) (settled env s) s2"
      using cells[of s2] by (cases ok) (simp_all add: rows_settled_def settled_failed)
  qed
  moreover obtain w where "original_pid_tgid w = pid" "owner_at env s1 = w" by (rule insideE[OF i])
  ultimately show ?thesis unfolding cleanup_leased_def wp_bind wp_oget by (simp only: comp_def)
qed

text \<open>The storage of a task that answered no lookup is deleted unseen: that is recorded
  as a failed classification, and the books stay right.\<close>

lemma books_storage_gone:
  assumes c: "books rows s"
  shows "books rows (s\<lparr>o_owners := (o_owners s)(t := None),
     o_ctl := (o_ctl s)\<lparr>ct_poison := ct_poison (o_ctl s) OR OWNER_CLASSIFIER_FAILED, ct_reclamation_failures := a\<rparr>\<rparr>)"
proof -
  let ?m = "(o_owners s)(t := None)"
  have l: "leased ?m \<subseteq> leased (o_owners s)" by (auto simp: leased_def)
  have "finite (leased (o_owners s))" using c by (simp add: custody_def core_def)
  then have "card (leased ?m) \<le> card (leased (o_owners s))" "finite (leased ?m)"
    using l card_mono finite_subset by blast+
  moreover have "pids_apart ?m" if "pids_apart (o_owners s)" using that by (auto simp: pids_apart_def)
  moreover have "owner_ok (s\<lparr>o_owners := m, o_ctl := x\<rparr>) w = owner_ok s w" for m x w by (simp add: owner_ok_def holds_def)
  ultimately show ?thesis using c by (auto simp: custody_def core_def or_eq_0_iff)
qed

lemma wp_unseen_storage:
  assumes c: "books (object_rows env) s1"
    and o: "o_owners s (o_task env) = o_owners s1 (o_task env)"
  shows "wp (cleanup_unseen env) (settled env s) s1"
proof -
  let ?s = "s1\<lparr>o_ticks := Suc (o_ticks s1)\<rparr>"
  have c1: "books (object_rows env) ?s" by (rule custody_frame[OF _ c]) simp
  have bad: "wp (poison OWNER_CLASSIFIER_FAILED) (\<lambda>_. wp (cleanup_verdict 0) (settled env s)) ?s"
    by (rule wp_poison) (use custody_frame[OF _ c1] in \<open>simp_all add: cleanup_verdict_def healthy_def settled_def\<close>)
  have none: "wp (cleanup_verdict 0) (settled env s) ?s" if "o_owners s1 (o_task env) = None"
    by (rule wp_cleanup_verdict[OF c1]) (use that o in \<open>simp_all add: leased_def\<close>)
  have gone: "wp (poison OWNER_CLASSIFIER_FAILED) (\<lambda>_. wp (cleanup_verdict 0) (settled env s))
      (?s\<lparr>o_owners := (o_owners ?s)(o_task env := None)\<rparr>)"
    using settled_failed[OF books_storage_gone[OF c1, where t = "o_task env"]]
    by (simp add: poison_def cleanup_verdict_def healthy_def or_eq_0_iff)
  show ?thesis
    using bad none gone by (cases "o_owners s1 (o_task env)") (auto simp: cleanup_unseen_def delete_verdict_def Let_def)
qed

lemma wp_cleanup_task:
  assumes c: "books (object_rows env) s1" and ctl: "ctl_present env" and o: "o_owners s1 = o_owners s"
  shows "wp (cleanup_task env) (settled env s) s1"
  unfolding cleanup_task_def wp_bind
proof (rule wp_storage_get)
  fix s2 assume "same_books s1 s2"
  then have "books (object_rows env) s2" "o_owners s (o_task env) = o_owners s2 (o_task env)"
    using custody_frame[OF _ c] o by (simp_all add: frame_rows)
  then show "wp (case None of None \<Rightarrow> cleanup_unseen env | Some w \<Rightarrow> m w) (settled env s) s2" for m
    using wp_unseen_storage by simp
next
  fix w s2 assume s2: "same_books s1 s2" "o_owners s1 (o_task env) = Some w"
  have c2: "books (object_rows env) s2" by (rule custody_frame[OF s2(1) c])
  have w2: "o_owners s2 (o_task env) = Some w" "o_owners s (o_task env) = Some w" using s2 o by (simp_all add: frame_rows)
  have ok: "owner_ok s2 w" using c2 w2 by (auto simp: custody_def core_def)
  show "wp (case Some w of None \<Rightarrow> cleanup_unseen env | Some w \<Rightarrow>
      if ow_flags w = 0 \<and> original_pid_tgid w = 0 \<and> start_count w = 0 \<and> occupied w = 0 \<and> selection_domains w = 0
      then cleanup_verdict 0
      else do { valid \<leftarrow> valid_owner env; if \<not> valid then State_Monad.return 1 else cleanup_leased env }) (settled env s) s2"
  proof (cases "ow_flags w = 0")
    case True
    then have "wp (cleanup_verdict 0) (settled env s) s2"
      by (intro wp_cleanup_verdict[OF c2]) (use w2 in \<open>auto simp: leased_def\<close>)
    then show ?thesis using True ok by (simp add: owner_ok_def idle_def)
  next
    case False
    note i = leased_inside[OF c2 w2(1) False]
    have "wp (valid_owner env) (\<lambda>valid. wp (if \<not> valid then State_Monad.return 1 else cleanup_leased env) (settled env s)) s2"
      by (rule wp_valid_owner[OF i]) (use wp_cleanup_leased[OF i ctl, of s] w2 in simp)
    then show ?thesis using False by simp
  qed
qed

lemma wp_cleanup:
  assumes c: "books (object_rows env) s"
  shows "wp (p11_owner_cleanup env) (settled env s) s"
  unfolding p11_owner_cleanup_def wp_bind
proof (rule wp_control_cases[OF c])
  show "wp (if \<not> False then State_Monad.return 1 else m) (settled env s) s" for m
    using c by (simp add: settled_failed)
next
  assume ctl: "ctl_present env"
  have free: "leased (o_owners s) = {}" if "ct_outstanding (o_ctl s) = 0"
    using c that by (auto simp: custody_def core_def)
  have zero: "wp (cleanup_verdict 0) (settled env s) s" if "ct_outstanding (o_ctl s) = 0"
    by (rule wp_cleanup_verdict[OF c]) (use free[OF that] in \<open>auto simp: leased_def has_owner_def\<close>)
  let ?s = "s\<lparr>o_ticks := Suc (o_ticks s)\<rparr>"
  have c1: "books (object_rows env) ?s" by (rule custody_frame[OF _ c]) simp
  have lost: "wp (poison OWNER_LOOKUP_UNKNOWN) (\<lambda>_. settled env s 1) ?s" by (rule wp_failed[OF c1]) simp
  have task: "wp (cleanup_task env) (settled env s) ?s" by (rule wp_cleanup_task[OF c1 ctl]) simp
  show "wp (if \<not> True then State_Monad.return 1 else do {
       outstanding \<leftarrow> oget (ct_outstanding \<circ> o_ctl);
       if outstanding = 0 then cleanup_verdict 0
       else do {
         task \<leftarrow> oask (task_found env);
         if \<not> task then do { poison OWNER_LOOKUP_UNKNOWN; State_Monad.return 1 }
         else cleanup_task env } }) (settled env s) s"
    using zero lost task by simp
qed

end
