(* ===== verification/P11_Custody.thy ===== *)
theory P11_Custody
  imports P11_Owner_Custody
begin

text \<open>
  The custody object as its callers see it. With helpers that answer, a call that was
  begun is found again, removed, and an exiting task settles everything it holds; with
  helpers that do not, every run of native calls, probe writes and task exits still
  keeps the books, and what went wrong is on record in the poison word.
\<close>

section \<open>Answering helpers\<close>

definition answers :: "oenv \<Rightarrow> bool" where
  "answers env \<longleftrightarrow> ctl_present env \<and> zero_ready env \<and> (\<forall>n. task_found env n \<and> storage_found env n \<and> storage_made env n
     \<and> row_found env n \<and> update_rc env n = 0 \<and> delete_rc env n = 0 \<and> 512 \<le> loop_cut env n)"

abbreviation tick :: "ostate \<Rightarrow> ostate" where
  "tick s \<equiv> s\<lparr>o_ticks := Suc (o_ticks s)\<rparr>"

lemma answers_ctl: "answers env \<Longrightarrow> ctl_present env"
  by (simp add: answers_def)

lemma wp_lookup_answers: "answers env \<Longrightarrow> wp (row_lookup env get key) Q s = Q (get (tick s) key) (tick s)"
  by (simp add: row_lookup_def answers_def)

lemma wp_delete_answers:
  "answers env \<Longrightarrow> wp (row_delete env get store key) Q s =
    (if get (tick s) key = None then Q ENOENT (tick s) else Q 0 (store (\<lambda>m. m(key := None)) (tick s)))"
  by (simp add: row_delete_def answers_def delete_verdict_def Let_def)

lemma wp_update_answers:
  "answers env \<Longrightarrow> wp (row_update env get store key v 1) Q s =
    (if get (tick s) key = None then Q 0 (store (\<lambda>m. m(key := Some v)) (tick s)) else Q EEXIST (tick s))"
  by (simp add: row_update_def answers_def Let_def)

lemma wp_storage_answers:
  "answers env \<Longrightarrow> o_owners s (o_task env) = Some w \<Longrightarrow> wp (storage_get env False) Q s = Q (Some w) (tick (tick s))"
  by (simp add: storage_get_def answers_def)

lemmas answering = wp_lookup_answers wp_delete_answers wp_update_answers wp_storage_answers

text \<open>A bound side row is settled together with its START row.\<close>

definition same_accounts :: "ostate \<Rightarrow> ostate \<Rightarrow> bool" where
  "same_accounts s s' \<longleftrightarrow> o_ctl s' = o_ctl s \<and> o_owners s' = o_owners s \<and> o_discovery s' = o_discovery s"

lemma wp_settle_side:
  assumes a: "answers env" and b: "row_bound (object_rows env) (Some st) (o_object s key)"
  shows "wp (object_side_for_remove env st key)
    (\<lambda>v s'. v = SideSettled \<and> same_accounts s s' \<and> o_start s' = o_start s) s"
proof (cases "object_marker_verdict (object_rows env) (cs_object_required st)")
  case MarkerOrdinary
  then show ?thesis using b a by (simp add: object_side_for_remove_def row_bound_def answering same_accounts_def)
next
  case MarkerInvalid
  then show ?thesis using b by (simp add: row_bound_def)
next
  case (MarkerRequired index act)
  then obtain side where "o_object s key = Some side" "object_binding_matches side st index" "live_phase (os_phase side)"
    using b by (auto simp: row_bound_def split: option.splits)
  then show ?thesis using MarkerRequired a
    by (auto simp: object_side_for_remove_def answering object_side_delete_def object_scrub_side_def object_put_def same_accounts_def)
qed

lemma wp_settle_start:
  assumes a: "answers env" and b: "row_bound (object_rows env) (o_start s key) (o_object s key)"
    and st: "o_start s key = Some st" and w: "o_owners s (o_task env) = Some w" "start_count w \<noteq> 0"
  shows "wp (remove_start env key) (\<lambda>rc s'. rc = 0 \<and> o_ctl s' = o_ctl s \<and> o_start s' = (o_start s)(key := None)) s"
proof -
  let ?s = "tick s"
  have "wp (object_side_for_remove env st key) (\<lambda>side. wp (if side = SideKept then State_Monad.return (- 1)
        else do {
             rc \<leftarrow> start_delete env key;
             if rc \<noteq> 0 then do { poison OWNER_STATE_DELETE_FAILED; State_Monad.return rc }
             else do {
               owner_set env (\<lambda>w. w\<lparr>start_count := start_count w - 1\<rparr>);
               State_Monad.return (if side = SideSettled then 0 else - 1) } })
      (\<lambda>rc s'. rc = 0 \<and> o_ctl s' = o_ctl s \<and> o_start s' = (o_start s)(key := None))) ?s"
    by (rule wp_conseq[OF wp_settle_side[OF a]])
      (use b st a in \<open>auto simp: answering owner_set_def same_accounts_def\<close>)
  then show ?thesis using a st w by (simp add: remove_start_def answering owner_at_def)
qed

section \<open>Queries and removal\<close>

lemma owner_counts:
  assumes i: "inside env e K pid s" and k: "sk_pid key = pid"
  shows "o_start s key \<noteq> None \<Longrightarrow> start_count (owner_at env s) \<noteq> 0"
    "key_ok key \<Longrightarrow> o_start s key = None \<Longrightarrow> start_count (owner_at env s) < OWNER_SLOT_BOUND"
proof -
  obtain w where w: "o_owners s (o_task env) = Some w" "ow_flags w \<noteq> 0" "original_pid_tgid w = pid" "holds s w"
    "length (discovery_cookies w) = 64" "custody (object_rows env) e K s" "core e s" "owner_at env s = w" by (rule insideE[OF i])
  let ?R = "rows_of (o_start s) pid"
  have n: "unat (start_count w) = card ?R" using w(3,4) by (simp add: holds_def)
  have fin: "finite ?R" by (rule core_rows_finite[OF w(7)])
  show "start_count (owner_at env s) \<noteq> 0" if "o_start s key \<noteq> None"
  proof -
    have "key \<in> ?R" using that k by (simp add: rows_of_def)
    then have "card ?R \<noteq> 0" using fin by auto
    then show ?thesis using n w(8) by auto
  qed
  assume key: "key_ok key" "o_start s key = None"
  have "insert key ?R \<subseteq> slot_key pid ` {..<512}"
  proof
    fix x assume "x \<in> insert key ?R"
    then have x: "key_ok x" "sk_pid x = pid" using w(7) key k by (auto simp: core_def rows_of_def)
    then have "unat (sk_slot x) < 512" by (simp add: word_less_nat_alt)
    with x show "x \<in> slot_key pid ` {..<512}" using start_key_eq[of x] by (auto intro!: image_eqI)
  qed
  then have "card (insert key ?R) \<le> card (slot_key pid ` {..<512})" by (intro card_mono) simp_all
  also have "\<dots> \<le> 512" using card_image_le[of "{..<512::nat}" "slot_key pid"] by simp
  finally have "card ?R < 512" using fin key by (simp add: rows_of_def)
  then show "start_count (owner_at env s) < OWNER_SLOT_BOUND" using n w(8) by (simp add: word_less_nat_alt)
qed

definition at_ease :: "oenv \<Rightarrow> u64 \<Rightarrow> ostate \<Rightarrow> bool" where
  "at_ease env pid s \<longleftrightarrow> inside env 0 {} pid s \<and> \<not> poisoned s"

definition only_ticks :: "ostate \<Rightarrow> ostate \<Rightarrow> bool" where
  "only_ticks s s' \<longleftrightarrow> same_books s s' \<and> o_ctl s' = o_ctl s"

lemma only_ticks_steps [simp]: "only_ticks s s" "only_ticks s (s\<lparr>o_ticks := n\<rparr>)"
  by (simp_all add: only_ticks_def)

lemma only_ticks_trans: "only_ticks s s1 \<Longrightarrow> only_ticks s1 s2 \<Longrightarrow> only_ticks s s2"
  by (auto simp: only_ticks_def intro: same_books_trans)

lemma at_ease_ticks: "at_ease env pid s \<Longrightarrow> only_ticks s s' \<Longrightarrow> at_ease env pid s'"
  by (auto simp: at_ease_def only_ticks_def inside_frame)

lemma ticks_rows:
  "only_ticks s s' \<Longrightarrow> o_start s' = o_start s" "only_ticks s s' \<Longrightarrow> o_object s' = o_object s"
  "only_ticks s s' \<Longrightarrow> o_discovery s' = o_discovery s" "only_ticks s s' \<Longrightarrow> o_owners s' = o_owners s" "only_ticks s s' \<Longrightarrow> o_ctl s' = o_ctl s"
  by (simp_all add: only_ticks_def frame_rows)

lemma wp_owner_here_answers:
  assumes a: "answers env" and i: "at_ease env pid s" and q: "\<And>s'. only_ticks s s' \<Longrightarrow> Q True s'"
  shows "wp (owner_here env create) Q s"
proof -
  have i': "inside env 0 {} pid s" using i by (simp add: at_ease_def)
  obtain w where w: "o_owners s (o_task env) = Some w" "ow_flags w \<noteq> 0" by (rule insideE[OF i'])
  have "inside env 0 {} pid (tick (tick (tick s)))" using i' by (rule inside_frame[rotated]) simp
  then have "wp (valid_owner env) Q (tick (tick (tick s)))" by (rule wp_valid_owner) (rule q, simp)
  then show ?thesis using a w by (simp add: owner_here_def answering) (simp add: answers_def)
qed

lemma wp_get_owner_answers:
  assumes a: "answers env" and i: "at_ease env pid s" and q: "\<And>s'. only_ticks s s' \<Longrightarrow> Q True s'"
  shows "wp (get_owner env True False) Q s"
proof -
  have "wp (owner_here env False) Q s" by (rule wp_owner_here_answers[OF a i]) (rule q)
  then show ?thesis using i by (simp add: get_owner_def healthy_def at_ease_def)
qed

lemma wp_with_owner_answers:
  assumes a: "answers env" and i: "at_ease env pid s" and r: "in_range"
    and m: "\<And>s'. only_ticks s s' \<Longrightarrow> wp missing (\<lambda>m s''. \<not> m \<and> only_ticks s' s'') s'"
    and body: "\<And>s'. only_ticks s s' \<Longrightarrow> wp body Q s'"
  shows "wp (with_owner env in_range missing refused absent body) Q s"
proof -
  have core: "core 0 s" using i by (simp add: at_ease_def inside_def custody_def)
  have own: "wp (get_owner env True False) (\<lambda>ok. wp (if \<not> ok then State_Monad.return refused else body) Q) s1"
    if "only_ticks s s1" for s1
    by (rule wp_get_owner_answers[OF a at_ease_ticks[OF i that]]) (use body only_ticks_trans[OF that] in simp)
  have "wp missing (\<lambda>none. wp (if none then absent else do {
         owner \<leftarrow> get_owner env True False;
         if \<not> owner then State_Monad.return refused else body }) Q) s"
    by (rule wp_conseq[OF m]) (use own in auto)
  then show ?thesis unfolding with_owner_def wp_bind
    by (intro wp_control[OF core answers_ctl[OF a]]) (use i r in \<open>simp add: healthy_def at_ease_def\<close>)
qed

lemma present_not_missing:
  assumes "answers env" "get (tick s) key \<noteq> None"
  shows "wp (optional_missing required (row_lookup env get key)) (\<lambda>m s'. \<not> m \<and> only_ticks s s') s"
  using assms by (auto simp: optional_missing_def answering)

lemma at_ease_owner: "at_ease env pid s \<Longrightarrow> original_pid_tgid (owner_at env s) = pid"
  by (auto simp: at_ease_def inside_def owner_at_def)

lemma wp_start_get_answers:
  assumes a: "answers env" and i: "at_ease env pid s" and k: "sk_pid key = pid" "o_start s key = Some v"
  shows "wp (p11_owner_start_get env key required) (\<lambda>row s'. row = Some v \<and> only_ticks s s') s"
  unfolding p11_owner_start_get_def
proof (rule wp_with_owner_answers[OF a i])
  show range: "start_in_range key" using i k by (auto simp: at_ease_def inside_def custody_def core_def)
  fix s1 assume s1: "only_ticks s s1"
  show "wp (optional_missing required (start_lookup env key)) (\<lambda>m s2. \<not> m \<and> only_ticks s1 s2) s1"
    by (rule present_not_missing[OF a]) (use k ticks_rows[OF s1] in simp)
  have i1: "inside env 0 {} pid s1" using at_ease_ticks[OF i s1] by (simp add: at_ease_def)
  have "start_count (owner_at env s1) \<noteq> 0" by (rule owner_counts(1)[OF i1 k(1)]) (use k ticks_rows[OF s1] in simp)
  then show "wp (do {
         valid \<leftarrow> start_key_valid env key;
         starts \<leftarrow> oget (start_count \<circ> owner_at env);
         if \<not> valid then do { bookkeeping OWNER_START_KEY_MISMATCH; State_Monad.return None }
         else if starts = 0 then do { bookkeeping OWNER_START_COUNT_MISMATCH; State_Monad.return None }
         else do {
           row \<leftarrow> start_lookup env key;
           _ \<leftarrow> (if row = None then bookkeeping OWNER_START_ROW_MISSING else State_Monad.return ());
           State_Monad.return row } }) (\<lambda>row s'. row = Some v \<and> only_ticks s s') s1"
    using a k range ticks_rows[OF s1] at_ease_owner[OF at_ease_ticks[OF i s1]] only_ticks_trans[OF s1]
    by (simp add: start_key_valid_def answering)
qed

lemma at_ease_bound:
  "at_ease env pid s \<Longrightarrow> row_bound (object_rows env) (o_start s key) (o_object s key)"
  by (auto simp: at_ease_def intro: inside_bound)

text \<open>One row removed, with everything the general removal promises.\<close>

lemma wp_remove_answers:
  assumes a: "answers env" and i: "at_ease env pid s" and k: "sk_pid key = pid" "o_start s key = Some v"
  shows "wp (remove_start env key) (\<lambda>rc s'. rc = 0 \<and> at_ease env pid s' \<and> o_start s' = (o_start s)(key := None)) s"
proof -
  have i': "inside env 0 {} pid s" using i by (simp add: at_ease_def)
  obtain w where w: "o_owners s (o_task env) = Some w" "owner_at env s = w" by (rule insideE[OF i'])
  have n: "start_count w \<noteq> 0" using owner_counts(1)[OF i' k(1)] k(2) w by simp
  have "wp (remove_start env key) (\<lambda>rc s'. (rc = 0 \<and> o_ctl s' = o_ctl s \<and> o_start s' = (o_start s)(key := None))
      \<and> inside env 0 {} pid s') s"
    by (rule wp_conj[OF wp_settle_start[OF a at_ease_bound[OF i] k(2) w(1) n]], rule wp_remove_start[OF i' k(1)])
  then show ?thesis by (rule wp_conseq) (use i in \<open>auto simp: at_ease_def\<close>)
qed

lemma wp_start_remove_answers:
  assumes a: "answers env" and i: "at_ease env pid s" and k: "sk_pid key = pid" "o_start s key = Some v"
  shows "wp (p11_owner_start_remove env key required)
    (\<lambda>rc s'. rc = 0 \<and> \<not> poisoned s' \<and> o_start s' = (o_start s)(key := None)) s" (is "wp _ ?Q s")
  unfolding p11_owner_start_remove_def
proof (rule wp_with_owner_answers[OF a i])
  show range: "start_in_range key" using i k by (auto simp: at_ease_def inside_def custody_def core_def)
  fix s1 assume s1: "only_ticks s s1"
  note i1 = at_ease_ticks[OF i s1]
  show "wp (optional_missing required (start_lookup env key)) (\<lambda>m s2. \<not> m \<and> only_ticks s1 s2) s1"
    by (rule present_not_missing[OF a]) (use k ticks_rows[OF s1] in simp)
  have "wp (remove_start env key) (\<lambda>rc. wp (release_empty env) (\<lambda>released.
      ?Q (if rc \<noteq> 0 then rc else if \<not> released then - 1 else 0))) s1"
  proof (rule wp_conseq[OF wp_remove_answers[OF a i1 k(1)]])
    show "o_start s1 key = Some v" using k(2) ticks_rows[OF s1] by simp
    fix rc s2 assume s2: "rc = (0::int) \<and> at_ease env pid s2 \<and> o_start s2 = (o_start s1)(key := None)"
    then have i2: "inside env 0 {} pid s2" by (simp add: at_ease_def)
    show "wp (release_empty env) (\<lambda>released. ?Q (if rc \<noteq> 0 then rc else if \<not> released then - 1 else 0)) s2"
      by (rule wp_release_books[OF i2 answers_ctl[OF a]])
        (use s2 ticks_rows[OF s1] in \<open>auto simp: at_ease_def same_rows_def\<close>)
  qed
  then show "wp (do {
         valid \<leftarrow> start_key_valid env key;
         if \<not> valid then do { bookkeeping OWNER_START_KEY_MISMATCH; State_Monad.return (- 1) }
         else do {
           rc \<leftarrow> remove_start env key;
           released \<leftarrow> release_empty env;
           State_Monad.return (if rc \<noteq> 0 then rc else if \<not> released then - 1 else 0) } }) ?Q s1"
    using k range at_ease_owner[OF i1] by (simp add: start_key_valid_def)
qed

section \<open>Admission\<close>

text \<open>The current task holds a lease under its present identity, or there is one left.\<close>

definition may_lease :: "oenv \<Rightarrow> ostate \<Rightarrow> bool" where
  "may_lease env s \<longleftrightarrow> (if owns (o_task env) s then original_pid_tgid (owner_at env s) = o_pid_tgid env
     else ct_outstanding (o_ctl s) < OWNER_LIMIT)"

lemma wp_lease_answers:
  assumes a: "answers env" and c: "books (object_rows env) s" "\<not> poisoned s" and t: "task_ok env s" and m: "may_lease env s"
  shows "wp (p11_owner_lease env) (\<lambda>ok s'. ok \<and> at_ease env (o_pid_tgid env) s' \<and> same_rows s s') s" (is "wp _ ?Q s")
proof -
  let ?s = "tick (tick (tick s))"
  have tf: "task_found env n" for n using a by (simp add: answers_def)
  have core: "core 0 s" using c by (simp add: custody_def)
  have c1: "books (object_rows env) ?s" by (rule custody_frame[OF _ c(1)]) simp
  have idle: "wp (lease_idle env) ?Q s2"
    if "custody (object_rows env) (Suc 0) {} s2" "\<not> poisoned s2" "task_ok env s2" "same_rows s s2"
      and w: "o_owners s2 (o_task env) = Some w" "ow_flags w = 0" "length (discovery_cookies w) = 64" for s2 w
    by (rule wp_lease_idle[OF that(1-3) w]) (use that(4) in \<open>auto simp: at_ease_def same_rows_def\<close>)
  have "wp (do {
         owner \<leftarrow> storage_get env False;
         if (case owner of None \<Rightarrow> False | Some w \<Rightarrow> ow_flags w \<noteq> 0) then valid_owner env
         else do {
           reserved \<leftarrow> reserve_local;
           if \<not> reserved then State_Monad.return False
           else case owner of
             Some _ \<Rightarrow> lease_idle env
           | None \<Rightarrow> lease_make env } }) ?Q (tick s)"
  proof (cases "owns (o_task env) s")
    case True
    then obtain w where w: "o_owners s (o_task env) = Some w" "ow_flags w \<noteq> 0" by (auto simp: owns_def)
    have p: "original_pid_tgid w = o_pid_tgid env" using m True w by (simp add: may_lease_def owner_at_def)
    have i: "inside env 0 {} (o_pid_tgid env) ?s" using leased_inside[OF c1, of w] w p by simp
    have "wp (valid_owner env) ?Q ?s" by (rule wp_valid_owner[OF i]) (use i c in \<open>simp add: at_ease_def same_rows_def\<close>)
    then show ?thesis using w a by (simp add: answering)
  next
    case False
    then have room: "ct_outstanding (o_ctl s) < OWNER_LIMIT" using m by (simp add: may_lease_def)
    show ?thesis
    proof (cases "o_owners s (o_task env)")
      case (Some w)
      then have w: "ow_flags w = 0" "length (discovery_cookies w) = 64"
        using False core by (auto simp: owns_def core_def owner_ok_def)
      have "wp reserve_local (\<lambda>reserved. wp (if \<not> reserved then State_Monad.return False else lease_idle env) ?Q) ?s"
      proof (rule wp_reserve[OF c1 refl])
        fix s2 assume s2: "custody (object_rows env) (Suc 0) {} s2" "same_rows ?s s2" "o_owners s2 = o_owners ?s" "poisoned s2 = poisoned ?s"
        have "wp (lease_idle env) ?Q s2"
          by (rule idle[OF s2(1) _ _ _ _ w]) (use s2 c t Some task_ok_owners[of s2 s env] in \<open>simp_all add: same_rows_def\<close>)
        then show "wp (if \<not> True then State_Monad.return False else lease_idle env) ?Q s2" by simp
      qed (use room in simp)
      then show ?thesis using Some w a by (simp add: answering cong: if_cong)
    next
      case None
      have made: "wp (lease_make env) ?Q s2" if s2: "custody (object_rows env) (Suc 0) {} s2" "same_rows s s2"
          "o_owners s2 = o_owners s" "\<not> poisoned s2" for s2
      proof -
        let ?u = "(tick (tick s2))\<lparr>o_owners := (o_owners s2)(o_task env := Some zero_owner)\<rparr>"
        have u: "custody (object_rows env) (Suc 0) {} ?u"
          using custody_idle[OF custody_frame[OF _ s2(1)], of "tick (tick s2)" "o_task env" zero_owner] None s2(3)
          by (simp add: zero_owner_def idle_def)
        have "wp (lease_idle env) ?Q ?u"
          by (rule idle[OF u]) (use s2 t None in \<open>auto simp: same_rows_def task_ok_def zero_owner_def\<close>)
        then show ?thesis using a None s2(3)
          by (simp add: lease_make_def storage_get_def clear_fresh_def owner_set_def zero_owner_def answers_def)
      qed
      have "wp reserve_local (\<lambda>reserved. wp (if \<not> reserved then State_Monad.return False else lease_make env) ?Q) ?s"
      proof (rule wp_reserve[OF c1 refl])
        fix s2 assume s2: "custody (object_rows env) (Suc 0) {} s2" "same_rows ?s s2" "o_owners s2 = o_owners ?s" "poisoned s2 = poisoned ?s"
        have "wp (lease_make env) ?Q s2" by (rule made[OF s2(1)]) (use s2 c in \<open>simp_all add: same_rows_def\<close>)
        then show "wp (if \<not> True then State_Monad.return False else lease_make env) ?Q s2" by simp
      qed (use room in simp)
      then show ?thesis using None a by (simp add: storage_get_def cong: if_cong)
    qed
  qed
  then show ?thesis unfolding p11_owner_lease_def wp_bind
    by (intro wp_control[OF core answers_ctl[OF a]]) (use c tf in \<open>simp add: healthy_def\<close>)
qed

text \<open>A side row is allotted to every required marker, and to no other.\<close>

lemma wp_side_alloc_answers:
  assumes a: "answers env" and o: "o_object s key = None" and m: "object_marker_verdict (object_rows env) (cs_object_required st) \<noteq> MarkerInvalid"
  shows "wp (object_side_alloc env key st) (\<lambda>rc s'. rc = 0 \<and> o_ctl s' = o_ctl s
     \<and> (\<forall>index act. object_marker_verdict (object_rows env) (cs_object_required st) = MarkerRequired index act \<longrightarrow>
          o_object s' key = Some (bind_side index act st zero_side))) s"
  using a o m
  by (cases "object_marker_verdict (object_rows env) (cs_object_required st)")
    (auto simp: object_side_alloc_def answering object_put_def answers_def)

lemma wp_begin_answers:
  assumes a: "answers env" and i: "at_ease env pid s" and k: "sk_pid key = pid" "key_ok key" "o_start s key = None"
    and seed: "\<And>d. seed = Some d \<Longrightarrow> task_cookie (seed_image d) \<noteq> 0
      \<and> object_marker_verdict (object_rows env) (seed_object_required d) \<noteq> MarkerInvalid"
  shows "wp (begin_as_owner env key seed ts) (\<lambda>row s'. row = Some (seeded_start seed ts zero_start) \<and> o_ctl s' = o_ctl s) s"
proof -
  have i': "inside env 0 {} pid s" using i by (simp add: at_ease_def)
  obtain w where w: "o_owners s (o_task env) = Some w" "original_pid_tgid w = pid" "owner_at env s = w" by (rule insideE[OF i'])
  have n: "\<not> start_count w \<ge> OWNER_SLOT_BOUND" using owner_counts(2)[OF i' k(1,2,3)] w by simp
  have o: "o_object s key = None" using at_ease_bound[OF i, of key] k(3) by (simp add: row_bound_def)
  have z: "zero_ready env" using a by (simp add: answers_def)
  let ?v = "seeded_start seed ts zero_start"
  have alloc: "wp (object_side_alloc env key ?v) (\<lambda>rc s'. (if rc \<noteq> 0 then None else Some ?v) = Some ?v \<and> o_ctl s' = o_ctl s) s2"
    if "o_object s2 = o_object s" "o_ctl s2 = o_ctl s" "seed \<noteq> None" for s2
    by (rule wp_conseq[OF wp_side_alloc_answers[OF a]]) (use that o seed in \<open>auto simp: seeded_start_def\<close>)
  have row: "wp (begin_row env key seed ts) (\<lambda>row s'. row = Some ?v \<and> o_ctl s' = o_ctl s) s1"
    if "o_start s1 key = Some zero_start" "o_object s1 = o_object s" "o_ctl s1 = o_ctl s" for s1
    using that a alloc by (cases "seed = None") (simp_all add: begin_row_def answering start_put_def Let_def)
  show ?thesis
    using a n w k z seed row
    by (cases seed) (auto simp: begin_as_owner_def start_key_valid_def answering owner_set_def owner_at_def)
qed

lemma wp_begin_owned_answers:
  assumes a: "answers env" and c: "books (object_rows env) s" "\<not> poisoned s" and t: "task_ok env s" and m: "may_lease env s"
    and k: "sk_pid key = o_pid_tgid env" "key_ok key" "o_start s key = None"
    and seed: "\<And>d. seed = Some d \<Longrightarrow> task_cookie (seed_image d) \<noteq> 0
      \<and> object_marker_verdict (object_rows env) (seed_object_required d) \<noteq> MarkerInvalid"
  shows "wp (begin_owned_start env key seed ts) (\<lambda>row s'. row = Some (seeded_start seed ts zero_start) \<and> \<not> poisoned s') s"
proof -
  let ?Q = "\<lambda>row s'. row = Some (seeded_start seed ts zero_start) \<and> \<not> poisoned s'"
  have core: "core 0 s" using c by (simp add: custody_def)
  have open_row: "wp (begin_as_owner env key seed ts) ?Q s2" if "at_ease env (o_pid_tgid env) s2" "o_start s2 = o_start s" for s2
    by (rule wp_conseq[OF wp_begin_answers[OF a that(1) k(1,2) _ seed]]) (use k(3) that in \<open>auto simp: at_ease_def\<close>)
  have "wp (p11_owner_lease env) (\<lambda>leased. wp (if \<not> leased then State_Monad.return False else owner_here env True)
      (\<lambda>owner. wp (if \<not> owner then State_Monad.return None else begin_as_owner env key seed ts) ?Q)) s"
  proof (rule wp_conseq[OF wp_lease_answers[OF a c t m]])
    fix ok s1 assume s1: "ok \<and> at_ease env (o_pid_tgid env) s1 \<and> same_rows s s1"
    then have i1: "at_ease env (o_pid_tgid env) s1" by simp
    have "wp (owner_here env True) (\<lambda>owner. wp (if \<not> owner then State_Monad.return None else begin_as_owner env key seed ts) ?Q) s1"
      by (rule wp_owner_here_answers[OF a i1])
        (use open_row at_ease_ticks[OF i1] s1 in \<open>simp add: ticks_rows same_rows_def\<close>)
    then show "wp (if \<not> ok then State_Monad.return False else owner_here env True)
      (\<lambda>owner. wp (if \<not> owner then State_Monad.return None else begin_as_owner env key seed ts) ?Q) s1" using s1 by simp
  qed
  then show ?thesis unfolding begin_owned_start_def wp_bind
    by (intro wp_control[OF core answers_ctl[OF a]]) (use c in \<open>simp add: get_owner_def healthy_def\<close>)
qed

section \<open>Cleanup\<close>

definition swept_below :: "oenv \<Rightarrow> u64 \<Rightarrow> nat \<Rightarrow> ostate \<Rightarrow> bool" where
  "swept_below env pid n s \<longleftrightarrow> at_ease env pid s \<and> (\<forall>j < n. o_start s (slot_key pid j) = None)"

lemma swept_below_ticks: "swept_below env pid n s \<Longrightarrow> only_ticks s s' \<Longrightarrow> swept_below env pid n s'"
  by (auto simp: swept_below_def at_ease_ticks ticks_rows)

lemma at_ease_count:
  "at_ease env pid s \<Longrightarrow> at_ease env pid (s\<lparr>o_ctl := (o_ctl s)\<lparr>ct_abandoned_start := a\<rparr>\<rparr>)"
  "at_ease env pid s \<Longrightarrow> at_ease env pid (s\<lparr>o_ctl := (o_ctl s)\<lparr>ct_abandoned_discovery := a\<rparr>\<rparr>)"
  by (auto simp: at_ease_def intro!: inside_frame[where s = s])

lemma wp_start_callback_answers:
  assumes a: "answers env" and i: "swept_below env pid n s" and n: "n < 512"
  shows "wp (owner_cleanup_start_callback env pid n) (\<lambda>failed s'. \<not> failed \<and> swept_below env pid (Suc n) s') s"
proof (cases "o_start s (slot_key pid n)")
  case None
  then have "swept_below env pid (Suc n) (tick s)"
    using swept_below_ticks[OF i, of "tick s"] by (auto simp: swept_below_def less_Suc_eq)
  then show ?thesis using None a n by (simp add: owner_cleanup_start_callback_def Let_def answering)
next
  case (Some v)
  have e: "at_ease env pid (tick s)" using swept_below_ticks[OF i, of "tick s"] by (simp add: swept_below_def)
  have old: "\<forall>j < n. o_start s (slot_key pid j) = None" using i by (simp add: swept_below_def)
  have "wp (remove_start env (slot_key pid n)) (\<lambda>rc. wp (start_lookup env (slot_key pid n)) (\<lambda>again.
      wp (if again = None
          then do {
            count_abandoned_start;
            if rc \<noteq> 0 then do { _ \<leftarrow> release_empty env; State_Monad.return () } else State_Monad.return () }
          else State_Monad.return ()) (\<lambda>_ s'. \<not> rc \<noteq> 0 \<and> swept_below env pid (Suc n) s'))) (tick s)"
  proof (rule wp_conseq[OF wp_remove_answers[OF a e]])
    fix rc s2 assume s2: "rc = (0::int) \<and> at_ease env pid s2 \<and> o_start s2 = (o_start (tick s))(slot_key pid n := None)"
    then have "at_ease env pid (tick s2)" by (auto intro: at_ease_ticks)
    then show "wp (start_lookup env (slot_key pid n)) (\<lambda>again.
      wp (if again = None
          then do {
            count_abandoned_start;
            if rc \<noteq> 0 then do { _ \<leftarrow> release_empty env; State_Monad.return () } else State_Monad.return () }
          else State_Monad.return ()) (\<lambda>_ s'. \<not> rc \<noteq> 0 \<and> swept_below env pid (Suc n) s')) s2"
      using s2 old a at_ease_count(1)[of env pid "tick s2"]
      by (auto simp: answering count_abandoned_start_def swept_below_def less_Suc_eq)
  qed (use Some in simp_all)
  then show ?thesis using Some a n by (simp add: owner_cleanup_start_callback_def Let_def answering)
qed

lemma swept_startless:
  assumes "swept_below env pid 512 s"
  shows "startless env pid s \<and> \<not> poisoned s"
proof -
  have e: "at_ease env pid s" and none: "\<And>j. j < 512 \<Longrightarrow> o_start s (slot_key pid j) = None"
    using assms by (auto simp: swept_below_def)
  have "o_start s k = None" if "sk_pid k = pid" for k
  proof (rule ccontr)
    assume k: "o_start s k \<noteq> None"
    then have r: "key_ok k" using e by (auto simp: at_ease_def inside_def custody_def core_def)
    then have "k = slot_key pid (unat (sk_slot k))" using start_key_eq[of k] that by simp
    moreover have "unat (sk_slot k) < 512" using r by (simp add: word_less_nat_alt)
    ultimately show False using none[of "unat (sk_slot k)"] k by simp
  qed
  then show ?thesis using e by (simp add: startless_def at_ease_def)
qed

lemma wp_orphan_callback_answers:
  assumes a: "answers env" and z: "startless env pid s" "\<not> poisoned s" and n: "n < 512"
  shows "wp (owner_cleanup_orphan_callback env pid n) (\<lambda>failed s'. \<not> failed \<and> startless env pid s' \<and> \<not> poisoned s') s"
proof -
  have i: "inside env 0 {} pid s" using z by (simp add: startless_def)
  have "row_bound (object_rows env) (o_start s (slot_key pid n)) (o_object s (slot_key pid n))"
    by (rule inside_bound[OF i]) (use z in simp_all)
  moreover have "o_start s (slot_key pid n) = None" using z by (simp add: startless_def)
  ultimately have "o_object s (slot_key pid n) = None" by (simp add: row_bound_def)
  then show ?thesis using a n z startless_frame[OF z(1), of "tick s"]
    by (simp add: owner_cleanup_orphan_callback_def Let_def answering)
qed

lemma wp_cleanup_rows_answers:
  assumes a: "answers env" and i: "at_ease env pid s"
  shows "wp (cleanup_rows env pid) (\<lambda>ok s'. ok \<and> startless env pid s' \<and> \<not> poisoned s') s" (is "wp _ ?Q s")
proof -
  have cut: "min (loop_cut env n) 512 = 512" for n using a by (simp add: answers_def)
  let ?I = "\<lambda>s. startless env pid s \<and> \<not> poisoned s"
  have orphans: "wp (owner_loop env (owner_cleanup_orphan_callback env pid))
      (\<lambda>(failed, m) s'. if failed then False else ?I s' \<and> m = min (loop_cut env (o_ticks s2)) 512) s2" if "?I s2" for s2
    by (rule wp_owner_loop[where I = "\<lambda>_. ?I" and J = "\<lambda>_. False"], rule that)
      (auto intro: startless_frame wp_conseq[OF wp_orphan_callback_answers[OF a]])
  have starts: "wp (owner_loop env (owner_cleanup_start_callback env pid))
      (\<lambda>(failed, m) s'. if failed then False else swept_below env pid m s' \<and> m = min (loop_cut env (o_ticks s)) 512) s"
    by (rule wp_owner_loop[where I = "swept_below env pid" and J = "\<lambda>_. False"])
      (use i in \<open>auto simp: swept_below_def at_ease_def inside_frame frame_rows
        intro: wp_conseq[OF wp_start_callback_answers[OF a]] swept_below_ticks\<close>)
  have later: "wp (do { starts \<leftarrow> oget (start_count \<circ> owner_at env);
       if starts \<noteq> 0 then do { bookkeeping OWNER_START_COUNT_MISMATCH; State_Monad.return False }
       else do {
         (failed, completed) \<leftarrow> owner_loop env (owner_cleanup_orphan_callback env pid);
         if failed then State_Monad.return False
         else if completed \<noteq> unat OWNER_SLOT_BOUND
         then do { poison OWNER_CLASSIFIER_FAILED; State_Monad.return False }
         else State_Monad.return True } }) ?Q s1" if s1: "swept_below env pid 512 s1" for s1
  proof -
    have z: "?I s1" by (rule swept_startless[OF s1])
    then have n: "start_count (owner_at env s1) = 0" using startless_iff[of env pid s1] by (auto simp: startless_def)
    have "wp (owner_loop env (owner_cleanup_orphan_callback env pid)) (\<lambda>x. wp (case x of (failed, completed) \<Rightarrow>
         if failed then State_Monad.return False
         else if completed \<noteq> unat OWNER_SLOT_BOUND
         then do { poison OWNER_CLASSIFIER_FAILED; State_Monad.return False }
         else State_Monad.return True) ?Q) s1"
      by (rule wp_conseq[OF orphans[OF z]]) (auto simp: cut split: if_splits)
    then show ?thesis using n by simp
  qed
  show ?thesis unfolding cleanup_rows_def wp_bind
    by (rule wp_conseq[OF starts]) (use later in \<open>auto simp: cut split: if_splits simp del: wp_bind wp_oget\<close>)
qed

lemma wp_remove_discovery_answers:
  assumes "answers env" "o_discovery s key \<noteq> None" "o_owners s (o_task env) = Some w"
  shows "wp (remove_discovery env key i) (\<lambda>rc s'. rc = 0 \<and> o_ctl s' = o_ctl s) s"
  using assms by (auto simp: remove_discovery_def answering owner_set_def)

lemma wp_cleanup_cells_answers:
  assumes a: "answers env" and i: "at_ease env pid s" and cells: "set is \<subseteq> {..<64}"
  shows "wp (cleanup_cells env pid is) (\<lambda>ok s'. ok \<and> \<not> poisoned s') s"
  using i cells
proof (induction "is" arbitrary: s)
  case Nil
  then show ?case by (simp add: at_ease_def)
next
  case (Cons i "is")
  let ?w = "owner_at env s"
  let ?key = "\<lparr>sk_pid_tgid = pid, sk_attach_cookie = discovery_cookies ?w ! i,
          sk_domain = (if bit (selection_domains ?w) i then 2 else 1)\<rparr>"
  show ?case
  proof (cases "bit (occupied ?w) i")
    case False
    then show ?thesis using Cons by simp
  next
    case True
    have e: "inside env 0 {} pid s" using Cons.prems by (simp add: at_ease_def)
    obtain w where w: "o_owners s (o_task env) = Some w" "ow_flags w \<noteq> 0" "original_pid_tgid w = pid" "holds s w"
      "length (discovery_cookies w) = 64" "custody (object_rows env) 0 {} s" "core 0 s" "owner_at env s = w" by (rule insideE[OF e])
    have m: "discovery_cell_matches ?w ?key i" using True by (simp add: discovery_cell_matches_def)
    have "o_discovery s ?key \<noteq> None"
      using w(3,4,8) m Cons.prems(2) unfolding holds_def directory_ok_def by (auto simp del: not_None_eq)
    note ok = wp_remove_discovery_answers[OF a this w(1)]
    have "wp (remove_discovery env ?key i) (\<lambda>rc s'. inside env 0 {} pid s') s"
      by (rule wp_remove_discovery[OF e]) (use m Cons.prems in simp_all)
    from wp_conj[OF ok this] have "wp (remove_discovery env ?key i) (\<lambda>rc. wp (if rc \<noteq> 0 then State_Monad.return False
        else do { count_abandoned_discovery; cleanup_cells env pid is }) (\<lambda>ok s'. ok \<and> \<not> poisoned s')) s"
    proof (rule wp_conseq)
      fix rc s1 assume s1: "(rc = (0::int) \<and> o_ctl s1 = o_ctl s) \<and> inside env 0 {} pid s1"
      then have "at_ease env pid s1" using Cons.prems by (simp add: at_ease_def)
      from Cons.IH[OF at_ease_count(2)[OF this]] show "wp (if rc \<noteq> 0 then State_Monad.return False
        else do { count_abandoned_discovery; cleanup_cells env pid is }) (\<lambda>ok s'. ok \<and> \<not> poisoned s') s1"
        using s1 Cons.prems by (simp add: count_abandoned_discovery_def)
    qed
    then show ?thesis using True by simp
  qed
qed

lemma wp_cleanup_leased_answers:
  assumes a: "answers env" and i: "at_ease env pid s"
  shows "wp (cleanup_leased env) (\<lambda>rc s'. rc = (if start_count (owner_at env s) \<noteq> 0 then P11_OWNER_CLEANUP_ABANDONED_START else 0)) s"
    (is "wp _ ?Q s")
proof -
  let ?verdict = "\<lambda>released. if \<not> released then State_Monad.return 1
         else cleanup_verdict (if start_count (owner_at env s) \<noteq> 0 then P11_OWNER_CLEANUP_ABANDONED_START else 0)"
  have out: "wp (release_empty env) (\<lambda>released. wp (?verdict released) ?Q) s2" if "startless env pid s2" "\<not> poisoned s2" for s2
  proof -
    have "inside env 0 {} pid s2" using that by (simp add: startless_def)
    then show ?thesis
      by (rule wp_release_books[OF _ answers_ctl[OF a]]) (use that in \<open>simp add: cleanup_verdict_def healthy_def\<close>)
  qed
  have cells: "wp (cleanup_cells env pid [0..<64]) (\<lambda>cells. wp (if \<not> cells then State_Monad.return 1
      else do { released \<leftarrow> release_empty env; ?verdict released }) ?Q) s1" if z: "startless env pid s1" "\<not> poisoned s1" for s1
  proof -
    have e: "at_ease env pid s1" using z by (simp add: startless_def at_ease_def)
    have in64: "set [0..<64] \<subseteq> {..<64::nat}" by auto
    from wp_conj[OF wp_cleanup_cells_answers[OF a e in64] wp_cleanup_cells[OF z(1) in64]] show ?thesis
      by (rule wp_conseq) (use out in auto)
  qed
  have "wp (cleanup_rows env pid) (\<lambda>rows. wp (if \<not> rows then State_Monad.return 1
      else do { cells \<leftarrow> cleanup_cells env pid [0..<64];
        if \<not> cells then State_Monad.return 1 else do { released \<leftarrow> release_empty env; ?verdict released } }) ?Q) s"
    by (rule wp_conseq[OF wp_cleanup_rows_answers[OF a i]]) (use cells in auto)
  then show ?thesis using at_ease_owner[OF i] unfolding cleanup_leased_def wp_bind wp_oget by (simp only: comp_def)
qed

lemma wp_cleanup_answers:
  assumes a: "answers env" and c: "books (object_rows env) s" "\<not> poisoned s"
  shows "wp (p11_owner_cleanup env) (\<lambda>rc s'. rc = (if owns (o_task env) s \<and> start_count (owner_at env s) \<noteq> 0
     then P11_OWNER_CLEANUP_ABANDONED_START else 0)) s" (is "wp _ ?Q s")
proof -
  have core: "core 0 s" using c by (simp add: custody_def)
  have tf: "task_found env n" for n using a by (simp add: answers_def)
  let ?s = "tick (tick (tick s))"
  have idle: "wp (cleanup_verdict 0) ?Q s1" if "o_ctl s1 = o_ctl s" "\<not> owns (o_task env) s" for s1
    using that c by (simp add: cleanup_verdict_def healthy_def)
  have zero: "\<not> owns (o_task env) s" if "ct_outstanding (o_ctl s) = 0"
    using core that by (auto simp: core_def leased_def owns_def)
  have task: "wp (cleanup_task env) ?Q (tick s)"
  proof (cases "o_owners s (o_task env)")
    case None
    then have "\<not> owns (o_task env) s" by (simp add: owns_def)
    then show ?thesis using None idle[of "tick ?s"]
      by (simp add: cleanup_task_def storage_get_def cleanup_unseen_def delete_verdict_def Let_def)
  next
    case (Some w)
    show ?thesis
    proof (cases "ow_flags w = 0")
      case True
      then have "owner_ok s w" "\<not> owns (o_task env) s" using core Some by (auto simp: core_def owns_def)
      then show ?thesis using Some True idle[of ?s] a by (simp add: cleanup_task_def answering owner_ok_def idle_def)
    next
      case False
      have "books (object_rows env) ?s" by (rule custody_frame[OF _ c(1)]) simp
      then have i: "inside env 0 {} (original_pid_tgid w) ?s" by (rule leased_inside) (use Some False in simp_all)
      then have e: "at_ease env (original_pid_tgid w) ?s" using c by (simp add: at_ease_def)
      have "owns (o_task env) s" "owner_at env ?s = owner_at env s" using Some False by (auto simp: owns_def owner_at_def)
      then have "wp (cleanup_leased env) ?Q ?s" by (intro wp_conseq[OF wp_cleanup_leased_answers[OF a e]]) simp
      then have "wp (valid_owner env) (\<lambda>valid. wp (if \<not> valid then State_Monad.return 1 else cleanup_leased env) ?Q) ?s"
        by (intro wp_valid_owner[OF i]) simp
      then show ?thesis using Some False a by (simp add: cleanup_task_def answering)
    qed
  qed
  show ?thesis unfolding p11_owner_cleanup_def wp_bind
    by (intro wp_control[OF core answers_ctl[OF a]]) (use idle[of s] zero task tf in simp)
qed

section \<open>Failure is recorded\<close>

text \<open>A cleanup that reports failure has poisoned custody: each failing branch records its
  reason, and nothing clears the poison.\<close>

lemma loud_side_delete: "wp (object_side_delete env key) (\<lambda>gone s'. \<not> gone \<longrightarrow> poisoned s') s"
  by (simp add: object_side_delete_def object_scrub_side_def object_put_def row_delete_def poison_def Let_def or_eq_0_iff)

lemma loud_contradicted: "wp (side_contradicted env key side) (\<lambda>_. poisoned) s"
proof -
  have "wp (object_side_delete env key) (\<lambda>gone. wp (if \<not> gone then State_Monad.return SideKept
      else do { bookkeeping OWNER_OBJECT_MISMATCH; State_Monad.return SideContradicted }) (\<lambda>_. poisoned)) s"
    by (rule wp_conseq[OF loud_side_delete]) simp
  then show ?thesis by (simp add: side_contradicted_def split: option.split)
qed

lemma loud_side_for_remove: "wp (object_side_for_remove env st key) (\<lambda>r s'. r \<noteq> SideSettled \<longrightarrow> poisoned s') s"
proof -
  have c: "wp (side_contradicted env key side) (\<lambda>r s'. r \<noteq> SideSettled \<longrightarrow> poisoned s') s1" for side s1
    by (rule wp_conseq[OF loud_contradicted]) simp
  have d: "wp (object_side_delete env key) (\<lambda>gone s'. (if gone then SideSettled else SideKept) \<noteq> SideSettled \<longrightarrow> poisoned s') s1" for s1
    by (rule wp_conseq[OF loud_side_delete]) simp
  show ?thesis
    using c d by (simp add: object_side_for_remove_def row_lookup_def Let_def split: marker_verdict.split option.split)
qed

lemma loud_remove_start: "wp (remove_start env key) (\<lambda>rc s'. rc \<noteq> 0 \<longrightarrow> poisoned s') s"
proof -
  let ?Q = "\<lambda>rc s'. rc \<noteq> (0::int) \<longrightarrow> poisoned s'"
  have "wp (object_side_for_remove env st key) (\<lambda>side. wp (if side = SideKept then State_Monad.return (- 1)
           else do {
             rc \<leftarrow> start_delete env key;
             if rc \<noteq> 0 then do { poison OWNER_STATE_DELETE_FAILED; State_Monad.return rc }
             else do {
               owner_set env (\<lambda>w. w\<lparr>start_count := start_count w - 1\<rparr>);
               State_Monad.return (if side = SideSettled then 0 else - 1) } }) ?Q) s1" for st s1
    by (rule wp_conseq[OF loud_side_for_remove])
      (simp add: row_delete_def owner_set_def Let_def poison_def or_eq_0_iff)
  then show ?thesis by (simp add: remove_start_def row_lookup_def split: option.split)
qed

lemma loud_refund: "ctl_present env \<Longrightarrow> wp (p11_owner_refund env) (\<lambda>ok s'. (\<not> ok \<longrightarrow> poisoned s') \<and> (poisoned s \<longrightarrow> poisoned s')) s"
  by (simp add: p11_owner_refund_def control_def refund_local_def refund_with_def add_outstanding_def poison_def or_eq_0_iff)

lemma loud_release: "ctl_present env \<Longrightarrow> wp (release_empty env) (\<lambda>ok s'. (\<not> ok \<longrightarrow> poisoned s') \<and> (poisoned s \<longrightarrow> poisoned s')) s"
  using loud_refund[of env "s\<lparr>o_owners := (o_owners s)(o_task env := map_option
    (\<lambda>w. w\<lparr>original_pid_tgid := 0, selection_domains := 0, ow_flags := 0\<rparr>) (o_owners s (o_task env)))\<rparr>"]
  by (simp add: release_empty_def owner_set_def)

lemma loud_start_callback: "ctl_present env \<Longrightarrow> wp (owner_cleanup_start_callback env pid slot) (\<lambda>failed s'. failed \<longrightarrow> poisoned s') s"
proof -
  assume ctl: "ctl_present env"
  let ?Q = "\<lambda>failed s'. failed \<longrightarrow> poisoned s'"
  have again: "wp (release_empty env) (\<lambda>_. poisoned) s2" if "poisoned s2" for s2
    by (rule wp_conseq[OF loud_release[OF ctl]]) (use that in simp)
  have "wp (remove_start env key) (\<lambda>rc. wp (do {
          again \<leftarrow> start_lookup env key;
          _ \<leftarrow> (if again = None
                then do {
                  count_abandoned_start;
                  if rc \<noteq> 0 then do { _ \<leftarrow> release_empty env; State_Monad.return () } else State_Monad.return () }
                else State_Monad.return ());
          State_Monad.return (rc \<noteq> 0) }) ?Q) s1" for key s1
    by (rule wp_conseq[OF loud_remove_start]) (simp add: row_lookup_def count_abandoned_start_def again)
  then show ?thesis by (simp add: owner_cleanup_start_callback_def row_lookup_def Let_def)
qed

lemma loud_orphan_callback: "wp (owner_cleanup_orphan_callback env pid slot) (\<lambda>failed s'. failed \<longrightarrow> poisoned s') s"
  by (simp add: owner_cleanup_orphan_callback_def row_lookup_def row_delete_def object_scrub_side_def object_put_def
    count_abandoned_start_def poison_def Let_def or_eq_0_iff)

lemma loud_sweep:
  assumes "\<And>i s. wp (callback i) (\<lambda>failed s'. failed \<longrightarrow> poisoned s') s"
  shows "wp (sweep callback i n) (\<lambda>r s'. fst r \<longrightarrow> poisoned s') s"
proof (induction n arbitrary: i s)
  case (Suc n)
  show ?case unfolding sweep.simps wp_bind by (rule wp_conseq[OF assms]) (simp add: Suc.IH)
qed simp

lemma loud_loop:
  assumes "\<And>i s. wp (callback i) (\<lambda>failed s'. failed \<longrightarrow> poisoned s') s"
  shows "wp (owner_loop env callback) (\<lambda>r s'. fst r \<longrightarrow> poisoned s') s"
  using loud_sweep[OF assms] by (simp add: owner_loop_def)

lemma loud_rows:
  assumes ctl: "ctl_present env"
  shows "wp (cleanup_rows env pid) (\<lambda>ok s'. \<not> ok \<longrightarrow> poisoned s') s" (is "wp _ ?Q _")
proof -
  have orphans: "wp (owner_loop env (owner_cleanup_orphan_callback env pid)) (\<lambda>(failed, completed). wp (
       if failed then State_Monad.return False
       else if completed \<noteq> unat OWNER_SLOT_BOUND
       then do { poison OWNER_CLASSIFIER_FAILED; State_Monad.return False }
       else State_Monad.return True) ?Q) s1" for s1
    by (rule wp_conseq[OF loud_loop[OF loud_orphan_callback]]) auto
  show ?thesis unfolding cleanup_rows_def wp_bind
    by (rule wp_conseq[OF loud_loop[OF loud_start_callback[OF ctl]]]) (use orphans in \<open>auto simp: case_prod_unfold\<close>)
qed

lemma loud_cells: "wp (cleanup_cells env pid is) (\<lambda>ok s'. \<not> ok \<longrightarrow> poisoned s') s"
proof (induction "is" arbitrary: s)
  case (Cons i "is")
  have "wp (remove_discovery env key i) (\<lambda>rc. wp (if rc \<noteq> 0 then State_Monad.return False
      else do { count_abandoned_discovery; cleanup_cells env pid is }) (\<lambda>ok s'. \<not> ok \<longrightarrow> poisoned s')) s1" for key s1
    using Cons.IH by (simp add: remove_discovery_def row_delete_def owner_set_def count_abandoned_discovery_def poison_def Let_def or_eq_0_iff)
  then show ?case using Cons.IH by simp
qed simp

lemma loud_verdict: "r \<noteq> 1 \<Longrightarrow> wp (cleanup_verdict r) (\<lambda>rc s'. rc = 1 \<longrightarrow> poisoned s') s"
  by (simp add: cleanup_verdict_def healthy_def)

lemma loud_leased:
  assumes ctl: "ctl_present env"
  shows "wp (cleanup_leased env) (\<lambda>rc s'. rc = 1 \<longrightarrow> poisoned s') s" (is "wp _ ?Q _")
proof -
  have released: "wp (release_empty env) (\<lambda>released. wp (if \<not> released then State_Monad.return 1
         else cleanup_verdict (if n \<noteq> (0::u32) then P11_OWNER_CLEANUP_ABANDONED_START else 0)) ?Q) s1" for n s1
    by (rule wp_conseq[OF loud_release[OF ctl]]) (simp add: loud_verdict)
  have cells: "wp (cleanup_cells env pid [0..<64]) (\<lambda>cells. wp (if \<not> cells then State_Monad.return 1
      else do { released \<leftarrow> release_empty env; if \<not> released then State_Monad.return 1
         else cleanup_verdict (if n \<noteq> (0::u32) then P11_OWNER_CLEANUP_ABANDONED_START else 0) }) ?Q) s1" for n pid s1
    by (rule wp_conseq[OF loud_cells]) (use released in simp)
  show ?thesis unfolding cleanup_leased_def wp_bind wp_oget
    by (rule wp_conseq[OF loud_rows[OF ctl]]) (use cells in simp)
qed

lemma loud_cleanup:
  assumes ctl: "ctl_present env"
  shows "wp (p11_owner_cleanup env) (\<lambda>rc s'. rc = 1 \<longrightarrow> poisoned s') s" (is "wp _ ?Q _")
proof -
  have valid: "wp (valid_owner env) (\<lambda>valid. wp (if \<not> valid then State_Monad.return 1 else cleanup_leased env) ?Q) s1" for s1
    by (simp add: valid_owner_def loud_leased[OF ctl])
  have unseen: "wp (cleanup_unseen env) ?Q s1" for s1
    by (simp add: cleanup_unseen_def loud_verdict poison_def Let_def)
  have "wp (cleanup_task env) ?Q s1" for s1
    using valid unseen by (simp add: cleanup_task_def storage_get_def loud_verdict split: option.split)
  then show ?thesis using ctl by (simp add: p11_owner_cleanup_def control_def loud_verdict)
qed

section \<open>Runs\<close>

text \<open>The calls the probes make into the custody object.\<close>

datatype native_call =
    OwnerHealthy
  | OwnerLease
  | StartBegin owner_start_key call_start_seed
  | StartAggregate owner_start_key u64
  | StartInsert owner_start_key CallStart
  | StartGet owner_start_key bool
  | StartRemove owner_start_key bool
  | SideGet owner_start_key u32 bool
  | DiscoveryInsert StateKey StartState u64
  | DiscoveryGet StateKey bool
  | DiscoveryRemove StateKey bool
  | OwnerCleanup

definition ignore :: "'a own \<Rightarrow> unit own" where
  "ignore m = do { _ \<leftarrow> m; State_Monad.return () }"

primrec native_run :: "oenv \<Rightarrow> native_call \<Rightarrow> unit own" where
  "native_run env OwnerHealthy = ignore (p11_owner_healthy env)"
| "native_run env OwnerLease = ignore (p11_owner_lease env)"
| "native_run env (StartBegin key seed) = ignore (p11_owner_start_begin env key seed)"
| "native_run env (StartAggregate key ts) = ignore (p11_owner_start_aggregate env key ts)"
| "native_run env (StartInsert key start) = ignore (p11_owner_start_insert env key start)"
| "native_run env (StartGet key required) = ignore (p11_owner_start_get env key required)"
| "native_run env (StartRemove key required) = ignore (p11_owner_start_remove env key required)"
| "native_run env (SideGet key d required) = ignore (p11_object_side_get env key d required)"
| "native_run env (DiscoveryInsert key v flags) = ignore (p11_owner_discovery_insert env key v flags)"
| "native_run env (DiscoveryGet key required) = ignore (p11_owner_discovery_get env key required)"
| "native_run env (DiscoveryRemove key required) = ignore (p11_owner_discovery_remove env key required)"
| "native_run env OwnerCleanup = ignore (p11_owner_cleanup env)"

lemma wp_ignore: "wp m (\<lambda>_. P) s \<Longrightarrow> wp (ignore m) (\<lambda>_. P) s"
  by (simp add: ignore_def)

lemma native_run_books:
  assumes c: "books (object_rows env) s" and t: "task_ok env s"
  shows "wp (native_run env call) (\<lambda>_. books (object_rows env)) s"
proof (cases call)
  case OwnerHealthy
  have fr: "frame (p11_owner_healthy env)" unfolding p11_owner_healthy_def by (intro frame_bind) simp_all
  show ?thesis unfolding OwnerHealthy native_run.simps by (rule wp_ignore, rule wp_frame[OF fr], erule custody_frame[OF _ c])
next
  case OwnerLease
  show ?thesis unfolding OwnerLease native_run.simps
    by (rule wp_ignore, rule wp_conseq[OF wp_p11_owner_lease[OF c t]]) (simp add: acquired_def)
next
  case (StartBegin key seed)
  show ?thesis unfolding StartBegin native_run.simps p11_owner_start_begin_def
    by (rule wp_ignore, rule wp_conseq[OF wp_begin_owned_start[OF c t]]) (simp add: begun_def)
next
  case (StartAggregate key ts)
  have "wp (begin_owned_start env key None ts) (\<lambda>_. books (object_rows env)) s"
    by (rule wp_conseq[OF wp_begin_owned_start[OF c t]]) (simp add: begun_def)
  then show ?thesis by (simp add: StartAggregate p11_owner_start_aggregate_def ignore_def)
next
  case (StartInsert key start)
  show ?thesis unfolding StartInsert native_run.simps
    by (rule wp_ignore, rule wp_conseq[OF wp_start_insert[OF c t]]) (simp add: begun_def)
next
  case (StartGet key required)
  show ?thesis unfolding StartGet native_run.simps by (rule wp_ignore, rule wp_conseq[OF wp_start_get[OF c]]) simp
next
  case (StartRemove key required)
  show ?thesis unfolding StartRemove native_run.simps
    by (rule wp_ignore, rule wp_conseq[OF wp_start_remove[OF c]]) (simp add: retired_def)
next
  case (SideGet key d required)
  show ?thesis unfolding SideGet native_run.simps by (rule wp_ignore, rule wp_conseq[OF wp_side_get[OF c]]) simp
next
  case (DiscoveryInsert key v flags)
  show ?thesis unfolding DiscoveryInsert native_run.simps
    by (rule wp_ignore, rule wp_conseq[OF wp_discovery_insert[OF c t]]) (simp add: moved_def)
next
  case (DiscoveryGet key required)
  show ?thesis unfolding DiscoveryGet native_run.simps by (rule wp_ignore, rule wp_conseq[OF wp_discovery_get[OF c]]) simp
next
  case (DiscoveryRemove key required)
  show ?thesis unfolding DiscoveryRemove native_run.simps
    by (rule wp_ignore, rule wp_conseq[OF wp_discovery_remove[OF c]]) (simp add: moved_def)
next
  case OwnerCleanup
  show ?thesis unfolding OwnerCleanup native_run.simps
    by (rule wp_ignore, rule wp_conseq[OF wp_cleanup[OF c]]) (simp add: settled_def)
qed

text \<open>Between the calls the probes write into the rows whose pointers they were given,
  never into the binding of a row; and the kernel frees the storage of a task that is
  gone. The exit hook runs the cleanup first, whatever comes of it, until the stop gate is
  closed; from then on it returns at once, and a task may leave with its lease.\<close>

definition same_binding :: "CallStart \<Rightarrow> CallStart \<Rightarrow> bool" where
  "same_binding st st' \<longleftrightarrow> cs_ts_ns st' = cs_ts_ns st \<and> cs_object_required st' = cs_object_required st \<and> cs_image st' = cs_image st"

definition same_side_binding :: "ObjectStart \<Rightarrow> ObjectStart \<Rightarrow> bool" where
  "same_side_binding side side' \<longleftrightarrow> os_image side' = os_image side \<and> os_entry_ns side' = os_entry_ns side
     \<and> os_descriptor_index side' = os_descriptor_index side \<and> live_phase (os_phase side')"

definition fresh_custody :: ostate where
  "fresh_custody = \<lparr>o_ticks = 0, o_ctl = \<lparr>ct_limit = OWNER_LIMIT, ct_outstanding = 0, ct_poison = 0, ct_admission_failures = 0,
     ct_reclamation_failures = 0, ct_abandoned_start = 0, ct_abandoned_discovery = 0\<rparr>,
     o_owners = (\<lambda>_. None), o_start = (\<lambda>_. None), o_object = (\<lambda>_. None), o_discovery = (\<lambda>_. None)\<rparr>"

definition storage_freed :: "nat \<Rightarrow> ostate \<Rightarrow> ostate" where
  "storage_freed t s = s\<lparr>o_owners := (o_owners s)(t := None)\<rparr>"

inductive custody_step :: "ObjectDescriptorWire list \<Rightarrow> ostate \<Rightarrow> ostate \<Rightarrow> bool" for rows where
  call: "object_rows env = rows \<Longrightarrow> task_ok env s \<Longrightarrow> custody_step rows s (snd (run_state (native_run env c) s))"
| start_write: "o_start s key = Some st \<Longrightarrow> same_binding st st' \<Longrightarrow>
    custody_step rows s (s\<lparr>o_start := (o_start s)(key := Some st')\<rparr>)"
| side_write: "o_object s key = Some side \<Longrightarrow> same_side_binding side side' \<Longrightarrow>
    custody_step rows s (s\<lparr>o_object := (o_object s)(key := Some side')\<rparr>)"
| discovery_write: "o_discovery s dkey = Some v \<Longrightarrow> custody_step rows s (s\<lparr>o_discovery := (o_discovery s)(dkey := Some v')\<rparr>)"
| task_exit: "object_rows env = rows \<Longrightarrow> ctl_present env \<Longrightarrow>
    custody_step rows s (storage_freed (o_task env) (snd (run_state (p11_owner_cleanup env) s)))"

text \<open>The capture runs, is stopping, or is stopping and has lost a lease with its task.\<close>

datatype capture_phase = Running | Stopping | Abandoned

inductive custody_reachable :: "ObjectDescriptorWire list \<Rightarrow> capture_phase \<Rightarrow> ostate \<Rightarrow> bool" for rows where
  fresh: "custody_reachable rows Running fresh_custody"
| step: "custody_reachable rows phase s \<Longrightarrow> custody_step rows s s' \<Longrightarrow> custody_reachable rows phase s'"
| stop: "custody_reachable rows Running s \<Longrightarrow> custody_reachable rows Stopping s"
| late_exit: "custody_reachable rows phase s \<Longrightarrow> phase \<noteq> Running \<Longrightarrow>
    custody_reachable rows (if t \<in> leased (o_owners s) \<and> \<not> poisoned s then Abandoned else phase) (storage_freed t s)"

inductive_cases custody_stepE: "custody_step rows s s'"

lemma xor_zero_iff: "a XOR b = 0 \<longleftrightarrow> a = b" for a b :: "'a::len word"
  by (auto simp: bit_eq_iff bit_xor_iff)

lemma binding_matches_iff:
  "object_binding_matches side st d \<longleftrightarrow> os_descriptor_index side = d \<and> os_image side = cs_image st \<and> os_entry_ns side = cs_ts_ns st"
proof -
  obtain t e where i: "os_image side = \<lparr>task_cookie = t, exec_id = e\<rparr>" by (cases "os_image side")
  obtain t' e' where j: "cs_image st = \<lparr>task_cookie = t', exec_id = e'\<rparr>" by (cases "cs_image st")
  have "(ucast x :: u64) = 0 \<longleftrightarrow> x = 0" for x :: u32 using unat_ucast_up[where ?'a = 32 and ?'b = 64, of x] by (auto simp: unat_eq_0[symmetric])
  then show ?thesis unfolding object_binding_matches_def Let_def or_eq_0_iff xor_zero_iff i j by (auto simp: xor_zero_iff)
qed

lemma row_bound_edit:
  "same_binding st st' \<Longrightarrow> row_bound rows (Some st') side = row_bound rows (Some st) side"
  by (simp add: row_bound_def same_binding_def binding_matches_iff split: marker_verdict.split option.split)

lemma row_bound_side_edit:
  "same_side_binding side side' \<Longrightarrow> row_bound rows start (Some side) \<Longrightarrow> row_bound rows start (Some side')"
  by (auto simp: row_bound_def same_side_binding_def binding_matches_iff split: marker_verdict.splits option.splits)

lemma custody_rows:
  assumes c: "books rows s" and d: "\<And>k. (o_start s' k = None) = (o_start s k = None)" "\<And>k. (o_discovery s' k = None) = (o_discovery s k = None)"
    and o: "o_owners s' = o_owners s" "o_ctl s' = o_ctl s"
    and b: "\<And>k. row_bound rows (o_start s k) (o_object s k) \<Longrightarrow> row_bound rows (o_start s' k) (o_object s' k)"
  shows "books rows s'"
proof -
  have "rows_of (o_start s') pid = rows_of (o_start s) pid" for pid using d(1) by (simp add: rows_of_def)
  moreover have "directory_ok w (o_discovery s') = directory_ok w (o_discovery s)" for w using d(2) by (simp add: directory_ok_def)
  ultimately have "owner_ok s' w = owner_ok s w" for w by (simp add: owner_ok_def holds_def)
  then show ?thesis using c d o b by (auto simp: custody_def core_def sound_def simp del: not_None_eq)
qed

lemma books_exit:
  assumes c: "books rows s" and t: "t \<notin> leased (o_owners s) \<or> poisoned s"
  shows "books rows (storage_freed t s)"
proof -
  let ?m = "(o_owners s)(t := None)"
  have sub: "leased ?m \<subseteq> leased (o_owners s)" by (auto simp: leased_def)
  have "finite (leased (o_owners s))" using c by (simp add: custody_def core_def)
  then have "card (leased ?m) \<le> card (leased (o_owners s))" "finite (leased ?m)"
    using sub card_mono finite_subset by blast+
  moreover have "pids_apart ?m" if "pids_apart (o_owners s)" using that by (auto simp: pids_apart_def)
  moreover have "owner_ok (s\<lparr>o_owners := m\<rparr>) w = owner_ok s w" for m w by (simp add: owner_ok_def holds_def)
  moreover have "leased ?m = leased (o_owners s) \<and> has_owner ?m = has_owner (o_owners s)" if "t \<notin> leased (o_owners s)"
    using that by (auto simp: leased_def has_owner_def fun_eq_iff)
  ultimately show ?thesis unfolding storage_freed_def using c t by (auto simp: custody_def core_def sound_def)
qed

lemma exit_books:
  assumes c: "books (object_rows env) s" and ctl: "ctl_present env"
  shows "books (object_rows env) (storage_freed (o_task env) (snd (run_state (p11_owner_cleanup env) s)))"
proof -
  have "wp (p11_owner_cleanup env) (\<lambda>rc s'. settled env s rc s' \<and> (rc = 1 \<longrightarrow> poisoned s')) s"
    by (rule wp_conj[OF wp_cleanup[OF c] loud_cleanup[OF ctl]])
  then have "wp (p11_owner_cleanup env) (\<lambda>_ s'. books (object_rows env) (storage_freed (o_task env) s')) s"
    by (rule wp_conseq) (auto simp: settled_def intro!: books_exit)
  then show ?thesis by (simp add: wp_def split: prod.splits)
qed

lemma step_books:
  assumes "custody_step rows s s'" "books rows s"
  shows "books rows s'"
  using assms(1)
proof cases
  case (call env c)
  then show ?thesis using native_run_books[of env s c] assms(2) by (simp add: wp_def split: prod.splits)
next
  case (start_write key st st')
  show ?thesis unfolding start_write(1)
    by (rule custody_rows[OF assms(2)]) (use start_write row_bound_edit in auto)
next
  case (side_write key side side')
  show ?thesis unfolding side_write(1)
    by (rule custody_rows[OF assms(2)]) (use side_write row_bound_side_edit in auto)
next
  case (discovery_write dkey v v')
  show ?thesis unfolding discovery_write(1)
    by (rule custody_rows[OF assms(2)]) (use discovery_write in auto)
next
  case (task_exit env)
  then show ?thesis using exit_books[of env s] assms(2) by simp
qed

lemma fresh_books: "books rows fresh_custody"
  by (simp add: fresh_custody_def custody_def core_def sound_def leased_def pids_apart_def)

section \<open>Markers\<close>

definition verdict_of :: "marker_verdict \<Rightarrow> StartMarkerVerdict" where
  "verdict_of v = (case v of MarkerOrdinary \<Rightarrow> OrdinaryStart | MarkerRequired index _ \<Rightarrow> Required index | MarkerInvalid \<Rightarrow> InvalidStart)"

text \<open>The fused range checks of the C code, \<open>v - lo > hi - lo\<close> on unsigned words.\<close>

lemma fused_range:
  fixes v lo hi :: "'a::len word"
  assumes "lo \<le> hi"
  shows "(v - lo > hi - lo) \<longleftrightarrow> v < lo \<or> hi < v"
proof -
  have "unat hi < 2 ^ LENGTH('a)" "unat lo \<le> unat hi" using unsigned_less[of hi, where 'a = nat] assms by (simp_all add: word_le_nat_alt)
  moreover have "(unat hi - unat lo < unat v - unat lo) = (unat hi < unat v)" if "unat lo \<le> unat v"
    using that calculation by linarith
  moreover have "unat hi - unat lo < unat v + 2 ^ LENGTH('a) - unat lo" using calculation by linarith
  ultimately show ?thesis by (simp add: word_less_nat_alt unat_sub_if')
qed

lemma fused_byte:
  fixes v :: u8 and hi :: u8
  assumes "1 \<le> hi"
  shows "((ucast v :: u32) - 1 > ucast hi - 1) \<longleftrightarrow> v = 0 \<or> hi < v"
proof -
  have up: "unat (ucast x :: u32) = unat x" for x :: u8 by (rule unat_ucast_up) simp
  have "(1::u32) \<le> ucast hi" using assms by (simp add: word_le_nat_alt up)
  from fused_range[OF this, of "ucast v"] show ?thesis by (simp add: word_less_nat_alt up unat_eq_0 flip: unat_eq_0) 
qed

lemma marker_verdict_eq:
  assumes n: "length rows = 105"
  shows "verdict_of (object_marker_verdict rows marker) = validate_start_marker marker rows"
proof (cases "2 \<le> marker \<and> marker \<le> 105")
  case False
  have r: "marker - 2 > OBJECT_DESCRIPTORS_COUNT - 2 \<longleftrightarrow> marker < 2 \<or> 105 < marker" by (rule fused_range) simp
  have "marker < 2 \<or> 105 < marker" using False by (auto simp: not_le)
  then show ?thesis using r by (auto simp: verdict_of_def object_marker_verdict_def validate_start_marker_def Let_def)
next
  case True
  have r: "\<not> marker - 2 > OBJECT_DESCRIPTORS_COUNT - 2"
    using True fused_range[of 2 OBJECT_DESCRIPTORS_COUNT marker] by (auto simp: not_less)
  let ?i = "ucast (marker - 1) :: u32"
  have m: "2 \<le> unat marker" "unat marker \<le> 105" using True by (simp_all add: word_le_nat_alt)
  have u: "unat (marker - 1) = unat marker - 1" "unat (marker - 2) = unat marker - 2" using m by (simp_all add: unat_sub_if')
  have i: "unat ?i = unat marker - 1" using m u by (simp add: unsigned_ucast_eq take_bit_nat_eq_self_iff)
  have i1: "unat (?i - 1) = unat marker - 2" using m i unat_sub_if'[of ?i 1] by (auto split: if_splits)
  let ?row = "rows ! unat (marker - 1)"
  have row: "descriptor_row rows ?i = Some ?row" using m n i u by (simp add: descriptor_row_def)
  have f: "od_function ?row = ?i - 1 \<longleftrightarrow> (ucast (od_function ?row) :: u64) = marker - 2"
  proof -
    have "unat (ucast (od_function ?row) :: u64) = unat (od_function ?row)" by (rule unat_ucast_up) simp
    then show ?thesis using i1 u by (auto simp: word_unat_eq_iff)
  qed
  have c: "(ucast (od_action ?row) :: u32) - 1 > 13 \<or> (ucast (od_guard ?row) :: u32) - 1 > 1 \<longleftrightarrow> \<not> row_codes_ok ?row"
    using fused_byte[of 14 "od_action ?row"] fused_byte[of 2 "od_guard ?row"] by (auto simp: row_codes_ok_def not_less)
  have "\<not> marker > START_MARKER_MAX" "marker \<noteq> 0" "marker \<ge> 2" using True by (auto simp: not_less)
  then show ?thesis using r row f c
    by (auto simp: verdict_of_def object_marker_verdict_def validate_start_marker_def Let_def)
qed

section \<open>A concrete capture\<close>

definition demo_owner_env :: oenv where
  "demo_owner_env = \<lparr>ctl_present = True, zero_row = Some (replicate 54 0),
     object_rows = [none_object_wire, none_object_wire\<lparr>od_function := 0, od_action := OBJECT_ACTION_PAIR, od_guard := OBJECT_GUARD_NAMED\<rparr>],
     o_task = 1, o_pid_tgid = 77, task_found = (\<lambda>_. True), storage_found = (\<lambda>_. True), storage_made = (\<lambda>_. True),
     storage_delete_rc = (\<lambda>_. 0), row_found = (\<lambda>_. True), update_rc = (\<lambda>_. 0), delete_rc = (\<lambda>_. 0), loop_cut = (\<lambda>_. 512)\<rparr>"

definition demo_start_key :: owner_start_key where
  "demo_start_key = \<lparr>sk_pid = 77, sk_slot = 3, sk_pad = 0\<rparr>"

definition demo_seed :: call_start_seed where
  "demo_seed = \<lparr>seed_ts_ns = 5, seed_image = \<lparr>task_cookie = 9, exec_id = 1\<rparr>, seed_object_required = 2\<rparr>"

definition demo_begun :: ostate where
  "demo_begun = snd (run_state (p11_owner_start_begin demo_owner_env demo_start_key demo_seed) fresh_custody)"

lemma demo_answers: "answers demo_owner_env"
  by (simp add: answers_def demo_owner_env_def zero_ready_def)

lemma demo_task_ok: "task_ok demo_owner_env fresh_custody"
  by (simp add: task_ok_def demo_owner_env_def fresh_custody_def)

lemma demo_begin_row:
  "fst (run_state (p11_owner_start_begin demo_owner_env demo_start_key demo_seed) fresh_custody) = Some (seeded_start (Some demo_seed) 0 zero_start)"
  by code_simp

lemma demo_begun_state: "o_start demo_begun demo_start_key \<noteq> None" "o_object demo_begun demo_start_key \<noteq> None" "ct_poison (o_ctl demo_begun) = 0"
  by code_simp+

lemma snd_ignore: "snd (run_state (ignore m) s) = snd (run_state m s)"
  by (simp add: ignore_def split: prod.split)

lemma demo_reachable: "custody_reachable (object_rows demo_owner_env) Running demo_begun"
proof -
  have "custody_step (object_rows demo_owner_env) fresh_custody
      (snd (run_state (native_run demo_owner_env (StartBegin demo_start_key demo_seed)) fresh_custody))"
    by (rule custody_step.call[OF refl demo_task_ok])
  then show ?thesis by (auto simp: demo_begun_def snd_ignore intro: custody_reachable.intros)
qed

lemma inside_env: "o_task env' = o_task env \<Longrightarrow> object_rows env' = object_rows env \<Longrightarrow> inside env' e K pid s = inside env e K pid s"
  by (simp add: inside_def)

lemma run_wp: "wp m Q s \<Longrightarrow> run_state m s = (x, s') \<Longrightarrow> Q x s'"
  by (simp add: wp_def)

lemma wp_run_ex: "wp m (\<lambda>x s'. x = v \<and> P s') s \<Longrightarrow> \<exists>s'. run_state m s = (v, s') \<and> P s'"
  by (auto simp: wp_def split: prod.splits)

lemma wp_const [simp]: "wp m (\<lambda>_ _. P) = (\<lambda>_. P)"
  by (simp add: wp_def fun_eq_iff split: prod.split)

lemma wp_any: "(\<And>x s'. Q x s') \<Longrightarrow> wp m Q s"
  by (simp add: wp_def split: prod.split)

lemma wp_begin_result:
  "wp (begin_owned_start env key seed ts) (\<lambda>row _. row = None \<or> row = Some (seeded_start seed ts zero_start)) s" (is "wp _ ?Q s")
proof -
  have row: "wp (begin_row env key seed ts) ?Q s1" if "o_start s1 key = Some zero_start" for s1
    using that by (auto simp: begin_row_def row_lookup_def Let_def start_put_def intro!: wp_any)
  have "wp (begin_as_owner env key seed ts) ?Q s1" for s1
    using row by (simp add: begin_as_owner_def start_key_valid_def row_update_def owner_set_def Let_def)
  then show ?thesis unfolding begin_owned_start_def wp_bind by - (rule wp_any, rule wp_any, simp)
qed

lemma books_bound: "books rows s \<Longrightarrow> \<not> poisoned s \<Longrightarrow> row_bound rows (o_start s k) (o_object s k)"
  by (simp add: custody_def sound_def)

lemma begun_at_ease:
  assumes c: "books (object_rows env) s" "\<not> poisoned s" and t: "task_ok env s"
    and r: "run_state (p11_owner_start_begin env key seed) s = (Some row, s1)"
    and e: "o_task env' = o_task env" "object_rows env' = object_rows env"
  shows "at_ease env' (sk_pid key) s1 \<and> o_start s1 key = Some row \<and> row = seeded_start (Some seed) 0 zero_start"
  using run_wp[OF wp_begin_owned_start[OF c(1) t, of key "Some seed" 0]] run_wp[OF wp_begin_result[of env key "Some seed" 0 s]] r c(2)
  by (fastforce simp: p11_owner_start_begin_def begun_def at_ease_def inside_env[OF e])

lemma reachable_books: "custody_reachable rows phase s \<Longrightarrow> phase \<noteq> Abandoned \<Longrightarrow> books rows s"
proof (induction rule: custody_reachable.induct)
  case (late_exit phase s t)
  then show ?case using books_exit[of rows s t] by (auto split: if_splits)
qed (simp_all add: fresh_books step_books)

lemma demo_owner: "\<exists>w. o_owners demo_begun (o_task demo_owner_env) = Some w \<and> ow_flags w = OWNER_LEASED
    \<and> original_pid_tgid w = 77 \<and> start_count w = 1"
proof -
  have "(case o_owners demo_begun (o_task demo_owner_env) of None \<Rightarrow> False
      | Some w \<Rightarrow> ow_flags w = OWNER_LEASED \<and> original_pid_tgid w = 77 \<and> start_count w = 1)" by code_simp
  then show ?thesis by (simp split: option.splits)
qed

text \<open>The exits of a task with a call under way: cleaned up while the capture runs; while it is
  stopping a task without a lease leaves no trace, and one with a lease leaves its rows behind.\<close>

definition demo_exited :: ostate where
  "demo_exited = storage_freed 1 (snd (run_state (p11_owner_cleanup demo_owner_env) demo_begun))"

lemma demo_exit_reachable: "custody_reachable (object_rows demo_owner_env) Running demo_exited"
proof -
  have "custody_step (object_rows demo_owner_env) demo_begun (storage_freed (o_task demo_owner_env) (snd (run_state (p11_owner_cleanup demo_owner_env) demo_begun)))"
    by (rule custody_step.task_exit) (simp_all add: demo_owner_env_def)
  then have "custody_step (object_rows demo_owner_env) demo_begun demo_exited" by (simp add: demo_exited_def demo_owner_env_def)
  then show ?thesis by (rule custody_reachable.step[OF demo_reachable])
qed

lemma demo_others: "o_owners demo_begun 2 = None"
  by code_simp

lemma demo_stopping: "custody_reachable (object_rows demo_owner_env) Stopping (storage_freed 2 demo_begun)"
  using custody_reachable.late_exit[OF custody_reachable.stop[OF demo_reachable], of 2] demo_others by (simp add: leased_def)

lemma demo_abandoned:
  "custody_reachable (object_rows demo_owner_env) Abandoned (storage_freed 1 demo_begun)"
  "\<not> books (object_rows demo_owner_env) (storage_freed 1 demo_begun)"
proof -
  obtain w where w: "o_owners demo_begun 1 = Some w" "ow_flags w \<noteq> 0" "original_pid_tgid w = 77"
    using demo_owner by (auto simp: demo_owner_env_def)
  then show "custody_reachable (object_rows demo_owner_env) Abandoned (storage_freed 1 demo_begun)"
    using custody_reachable.late_exit[OF custody_reachable.stop[OF demo_reachable], of 1] demo_begun_state(3) by (simp add: leased_def)
  have "pids_apart (o_owners demo_begun)" using reachable_books[OF demo_reachable] by (simp add: custody_def core_def)
  then have "\<not> has_owner (o_owners (storage_freed 1 demo_begun)) 77"
    using w unfolding has_owner_def pids_apart_def storage_freed_def by (auto split: if_splits)
  then show "\<not> books (object_rows demo_owner_env) (storage_freed 1 demo_begun)"
    using demo_begun_state by (auto simp: custody_def sound_def storage_freed_def demo_start_key_def)
qed

lemma frame_owner_here: "frame (owner_here env create)"
  unfolding owner_here_def by (auto intro!: frame_bind)

lemma frame_get_owner: "frame (get_owner env ctl False)"
  unfolding get_owner_def by (auto intro!: frame_bind frame_owner_here)

text \<open>A removal leaves the side rows of all other keys alone.\<close>

abbreviation spares :: "owner_start_key \<Rightarrow> (owner_start_key \<Rightarrow> ObjectStart option) \<Rightarrow> 'a own \<Rightarrow> bool" where
  "spares key m0 m \<equiv> keeps (\<lambda>s. \<forall>k. k \<noteq> key \<longrightarrow> o_object s k = m0 k) m (\<lambda>_. True)"

lemma sparesI: "(\<And>s k. k \<noteq> key \<Longrightarrow> wp m (\<lambda>_ s'. o_object s' k = o_object s k) s) \<Longrightarrow> spares key m0 m"
  by (rule keepsI) (use run_wp in fastforce)

lemma spares_frame: "frame m \<Longrightarrow> spares key m0 m"
  by (rule sparesI, erule wp_frame) (simp add: frame_rows)

lemmas spares_atoms = frame_basic[THEN spares_frame] frame_account[THEN spares_frame] frame_lookup[THEN spares_frame]
  frame_checks[THEN spares_frame] frame_peek[THEN spares_frame] frame_get_owner[THEN spares_frame]

lemma spares_parts:
  "spares key m0 (object_side_delete env key)" "spares key m0 (start_delete env key)"
  "spares key m0 (owner_set env f)" "spares key m0 (p11_owner_refund env)"
  by (rule sparesI, simp add: object_side_delete_def object_scrub_side_def object_put_def row_delete_def poison_def Let_def owner_set_def
    p11_owner_refund_def control_def refund_local_def refund_with_def add_outstanding_def)+

lemmas spares_basic = keeps_then keeps_rules spares_atoms spares_parts

lemma spares_settle: "spares key m0 (object_side_for_remove env st key)"
  unfolding object_side_for_remove_def side_contradicted_def Let_def
  by (auto intro!: spares_basic split: marker_verdict.split option.split)

lemma spares_remove: "spares key m0 (p11_owner_start_remove env key required)"
  unfolding p11_owner_start_remove_def with_owner_def remove_start_def release_empty_def optional_missing_def absent_verdict_def
  by (auto intro!: spares_basic spares_settle split: option.split)

section \<open>Properties\<close>

text \<open>C25: However the kernel helpers answer, every state reached by native calls of any
  tasks, by writes of the probes into rows they hold and by task exits, each running the
  cleanup with whatever result before its storage is freed, has its books right: the control
  row counts the leased owners within its limit, each leased owner counts exactly the START
  rows under its identity and lists exactly its discovery rows; and while nothing is poisoned
  the count is exact, every row has an owner, and every side row is bound to a START row that
  requires it. Once the capture is being stopped the exit hook no longer cleans up, and the
  books stay right until a task leaves with its lease. Assumed of the kernel: the exit hook
  finds the control row, and no two living tasks share an identity.\<close>
theorem custody_invariant:
  assumes "custody_reachable rows phase s" "phase \<noteq> Abandoned"
  shows "books rows s"
  using assms by (rule reachable_books)

theorem custody_invariant_witness:
  "custody_reachable (object_rows demo_owner_env) Running demo_exited \<and> books (object_rows demo_owner_env) demo_exited
   \<and> custody_reachable (object_rows demo_owner_env) Stopping (storage_freed 2 demo_begun)
   \<and> o_object (storage_freed 2 demo_begun) demo_start_key \<noteq> None \<and> books (object_rows demo_owner_env) (storage_freed 2 demo_begun)"
  using custody_invariant[OF demo_exit_reachable] demo_exit_reachable custody_invariant[OF demo_stopping] demo_stopping demo_begun_state(2)
  by (simp add: storage_freed_def)

text \<open>C26: A call that was begun is found again: once \<^verbatim>\<open>p11_owner_start_begin\<close> returned a
  row, whatever the helpers answered on the way, a later query of the same task with
  answering helpers returns exactly that row, which carries the seed's timestamp, image
  and marker on an otherwise zero row.\<close>
theorem begin_then_get:
  assumes "books (object_rows env) s" "ct_poison (o_ctl s) = 0" "task_ok env s"
    and "run_state (p11_owner_start_begin env key seed) s = (Some row, s1)"
    and "answers env'" "o_task env' = o_task env" "object_rows env' = object_rows env"
  shows "row = seeded_start (Some seed) 0 zero_start \<and> (\<exists>s2. run_state (p11_owner_start_get env' key required) s1 = (Some row, s2))"
proof -
  have "at_ease env' (sk_pid key) s1 \<and> o_start s1 key = Some row \<and> row = seeded_start (Some seed) 0 zero_start"
    using begun_at_ease[OF assms(1) _ assms(3,4,6,7)] assms(2) by simp
  then show ?thesis using wp_run_ex[OF wp_start_get_answers[OF assms(5)]] by blast
qed

theorem begin_then_get_witness:
  "\<exists>s2. run_state (p11_owner_start_get demo_owner_env demo_start_key True) demo_begun = (Some (seeded_start (Some demo_seed) 0 zero_start), s2)"
proof -
  have r: "run_state (p11_owner_start_begin demo_owner_env demo_start_key demo_seed) fresh_custody =
      (Some (seeded_start (Some demo_seed) 0 zero_start), demo_begun)"
    using demo_begin_row by (simp add: demo_begun_def prod_eq_iff)
  have "ct_poison (o_ctl fresh_custody) = 0" by (simp add: fresh_custody_def)
  from begin_then_get[OF fresh_books this demo_task_ok r demo_answers refl refl] show ?thesis by blast
qed

text \<open>C27: A healthy task below the lease limit is admitted: with answering helpers a call
  whose key names the task and a free slot, whose image is minted and whose marker is
  ordinary or required gets its row, and nothing is poisoned.\<close>
theorem begin_admitted:
  assumes "answers env" "books (object_rows env) s" "ct_poison (o_ctl s) = 0" "task_ok env s" "may_lease env s"
    and "sk_pid key = o_pid_tgid env" "sk_slot key < OWNER_SLOT_BOUND" "sk_pad key = 0" "o_start s key = None"
    and "task_cookie (seed_image seed) \<noteq> 0" "object_marker_verdict (object_rows env) (seed_object_required seed) \<noteq> MarkerInvalid"
  shows "\<exists>s1. run_state (p11_owner_start_begin env key seed) s = (Some (seeded_start (Some seed) 0 zero_start), s1)
    \<and> ct_poison (o_ctl s1) = 0"
  using wp_run_ex[OF wp_begin_owned_answers[OF assms(1,2) _ assms(4-6) _ assms(9), of "Some seed" 0]] assms(3,7,8,10,11)
  by (simp add: p11_owner_start_begin_def)

theorem begin_admitted_witness:
  "\<exists>s1. run_state (p11_owner_start_begin demo_owner_env demo_start_key demo_seed) fresh_custody =
     (Some (seeded_start (Some demo_seed) 0 zero_start), s1) \<and> ct_poison (o_ctl s1) = 0"
proof (rule begin_admitted[OF demo_answers fresh_books _ demo_task_ok])
  show "object_marker_verdict (object_rows demo_owner_env) (seed_object_required demo_seed) \<noteq> MarkerInvalid" by code_simp
qed (simp_all add: fresh_custody_def may_lease_def owns_def demo_owner_env_def demo_start_key_def demo_seed_def)

text \<open>C28: A call that was begun can be retired: with answering helpers the removal returns 0,
  takes exactly the row of that call away, its side row with it, and poisons nothing.\<close>
theorem begin_then_remove:
  assumes "books (object_rows env) s" "ct_poison (o_ctl s) = 0" "task_ok env s"
    and "run_state (p11_owner_start_begin env key seed) s = (Some row, s1)"
    and "answers env'" "o_task env' = o_task env" "object_rows env' = object_rows env"
  shows "\<exists>s2. run_state (p11_owner_start_remove env' key required) s1 = (0, s2) \<and> ct_poison (o_ctl s2) = 0
    \<and> o_start s2 = (o_start s1)(key := None) \<and> o_object s2 = (o_object s1)(key := None)"
proof -
  have e: "at_ease env' (sk_pid key) s1" "o_start s1 key = Some row"
    using begun_at_ease[OF assms(1) _ assms(3,4,6,7)] assms(2) by simp_all
  then have "books (object_rows env') s1" by (auto simp: at_ease_def books_inside)
  from wp_conj[OF wp_start_remove_answers[OF assms(5) e(1) refl e(2)] wp_start_remove[OF this]]
  have "wp (p11_owner_start_remove env' key required) (\<lambda>rc s'. rc = 0 \<and> (\<not> poisoned s' \<and> o_start s' = (o_start s1)(key := None)
      \<and> books (object_rows env') s')) s1"
    by (rule wp_conseq) (auto simp: retired_def)
  from wp_run_ex[OF this] obtain s2 where s2: "run_state (p11_owner_start_remove env' key required) s1 = (0, s2)"
    "\<not> poisoned s2" "o_start s2 = (o_start s1)(key := None)" "books (object_rows env') s2" by blast
  have "o_object s2 key = None" using books_bound[OF s2(4,2), of key] s2(3) by (auto simp: row_bound_def)
  moreover have "o_object s2 k = o_object s1 k" if "k \<noteq> key" for k
    using keepsD[OF spares_remove _ s2(1), of "o_object s1"] that by blast
  ultimately have "o_object s2 = (o_object s1)(key := None)" by (simp add: fun_eq_iff)
  with s2 show ?thesis by blast
qed

theorem begin_then_remove_witness:
  "\<exists>s2. run_state (p11_owner_start_remove demo_owner_env demo_start_key True) demo_begun = (0, s2) \<and> ct_poison (o_ctl s2) = 0
    \<and> o_start s2 = (o_start demo_begun)(demo_start_key := None) \<and> o_object s2 = (o_object demo_begun)(demo_start_key := None)"
proof -
  have r: "run_state (p11_owner_start_begin demo_owner_env demo_start_key demo_seed) fresh_custody =
      (Some (seeded_start (Some demo_seed) 0 zero_start), demo_begun)"
    using demo_begin_row by (simp add: demo_begun_def prod_eq_iff)
  have "ct_poison (o_ctl fresh_custody) = 0" by (simp add: fresh_custody_def)
  from begin_then_remove[OF fresh_books this demo_task_ok r demo_answers refl refl] show ?thesis .
qed

text \<open>C29: A cleanup that does not report failure has settled the exiting task: none of the
  START, OBJECT and DISCOVERY rows under its former identity are left, and its lease is
  returned, the shared count being the number of leases that remain. This holds whatever the
  helpers answered.\<close>
theorem cleanup_settles:
  assumes "books (object_rows env) s" "run_state (p11_owner_cleanup env) s = (rc, s')" "rc \<noteq> 1"
    and "o_owners s (o_task env) = Some w" "ow_flags w \<noteq> 0"
  shows "(\<forall>key. sk_pid key = original_pid_tgid w \<longrightarrow> o_start s' key = None \<and> o_object s' key = None)
    \<and> (\<forall>key. sk_pid_tgid key = original_pid_tgid w \<longrightarrow> o_discovery s' key = None)
    \<and> o_task env \<notin> leased (o_owners s') \<and> unat (ct_outstanding (o_ctl s')) = card (leased (o_owners s'))"
proof -
  have st: "settled env s rc s'" by (rule run_wp[OF wp_cleanup[OF assms(1)] assms(2)])
  then have s: "sound (object_rows env) 0 {} s'" "\<not> has_owner (o_owners s') (original_pid_tgid w)" "o_task env \<notin> leased (o_owners s')"
    using assms(3-5) by (auto simp: settled_def custody_def)
  have none: "o_start s' key = None" if "sk_pid key = original_pid_tgid w" for key
    using s that by (auto simp: sound_def)
  moreover have "o_object s' key = None" if "sk_pid key = original_pid_tgid w" for key
  proof -
    have "row_bound (object_rows env) (o_start s' key) (o_object s' key)" using s(1) by (simp add: sound_def)
    then show ?thesis using none[OF that] by (simp add: row_bound_def)
  qed
  moreover have "o_discovery s' key = None" if "sk_pid_tgid key = original_pid_tgid w" for key
    using s that by (auto simp: sound_def)
  moreover have "unat (ct_outstanding (o_ctl s')) = card (leased (o_owners s'))" using s(1) by (simp add: sound_def)
  ultimately show ?thesis using s(3) by blast
qed

text \<open>C30: A healthy cleanup terminates with success: with answering helpers, from any state
  with right books and nothing poisoned, it reports 2 when the task leaves calls behind
  and 0 otherwise, never failure.\<close>
theorem cleanup_succeeds:
  assumes "answers env" "books (object_rows env) s" "ct_poison (o_ctl s) = 0"
  shows "fst (run_state (p11_owner_cleanup env) s) =
    (if owns (o_task env) s \<and> start_count (owner_at env s) \<noteq> 0 then P11_OWNER_CLEANUP_ABANDONED_START else 0)"
  using run_wp[OF wp_cleanup_answers[OF assms(1,2)]] assms(3) by (metis prod.collapse)

lemma demo_books: "books (object_rows demo_owner_env) demo_begun"
proof -
  have "wp (p11_owner_start_begin demo_owner_env demo_start_key demo_seed) (\<lambda>_. books (object_rows demo_owner_env)) fresh_custody"
    unfolding p11_owner_start_begin_def
    by (rule wp_conseq[OF wp_begin_owned_start[OF fresh_books demo_task_ok]]) (simp add: begun_def)
  then show ?thesis by (simp add: demo_begun_def wp_def split: prod.splits)
qed

theorem cleanup_succeeds_witness: "fst (run_state (p11_owner_cleanup demo_owner_env) demo_begun) = P11_OWNER_CLEANUP_ABANDONED_START"
  using cleanup_succeeds[OF demo_answers demo_books demo_begun_state(3)] demo_owner by (auto simp: owns_def owner_at_def)

theorem cleanup_settles_witness:
  "\<exists>rc s'. run_state (p11_owner_cleanup demo_owner_env) demo_begun = (rc, s') \<and> rc \<noteq> 1 \<and> o_start s' demo_start_key = None
     \<and> o_object s' demo_start_key = None"
proof -
  obtain rc s' where r: "run_state (p11_owner_cleanup demo_owner_env) demo_begun = (rc, s')" by fastforce
  have "rc = P11_OWNER_CLEANUP_ABANDONED_START"
    using run_wp[OF wp_cleanup_answers[OF demo_answers demo_books] r] demo_begun_state(3) demo_owner by (auto simp: owns_def owner_at_def)
  then have "rc \<noteq> 1" by simp
  obtain w where w: "o_owners demo_begun (o_task demo_owner_env) = Some w" "ow_flags w \<noteq> 0" "original_pid_tgid w = 77"
    using demo_owner by auto
  from cleanup_settles[OF demo_books r \<open>rc \<noteq> 1\<close> w(1,2)] w(3) r \<open>rc \<noteq> 1\<close> show ?thesis by (auto simp: demo_start_key_def)
qed

text \<open>C34: The marker check of the C custody object, with its fused range checks, decides every
  marker against a full descriptor table exactly as \<^verbatim>\<open>object_wire::validate_start_marker\<close>.\<close>
theorem marker_verdict_exact:
  assumes "length rows = 105"
  shows "verdict_of (object_marker_verdict rows marker) = validate_start_marker marker rows"
  by (rule marker_verdict_eq[OF assms])

theorem marker_verdict_exact_witness:
  "verdict_of (object_marker_verdict (publish_object_descriptors (\<lambda>_. None)) 7) = validate_start_marker 7 (publish_object_descriptors (\<lambda>_. None))"
  by (rule marker_verdict_exact) simp

text \<open>C31: No cleanup fails in silence: from right books, however the helpers answer, it reports
  failure exactly when custody is poisoned after it, so that a task which leaves rows or its
  lease behind always leaves a recorded reason.\<close>
theorem cleanup_failure_recorded:
  assumes "books (object_rows env) s" "ctl_present env" "run_state (p11_owner_cleanup env) s = (rc, s')"
  shows "(rc = 1 \<longleftrightarrow> ct_poison (o_ctl s') \<noteq> 0)
    \<and> (o_task env \<in> leased (o_owners s') \<longrightarrow> ct_poison (o_ctl s') \<noteq> 0)"
  using run_wp[OF wp_cleanup[OF assms(1)] assms(3)] run_wp[OF loud_cleanup[OF assms(2)] assms(3)] by (auto simp: settled_def)

theorem cleanup_failure_recorded_witness:
  "\<exists>s'. run_state (p11_owner_cleanup (demo_owner_env\<lparr>delete_rc := \<lambda>_. - 5\<rparr>)) demo_begun = (1, s') \<and> ct_poison (o_ctl s') \<noteq> 0"
proof -
  let ?env = "demo_owner_env\<lparr>delete_rc := \<lambda>_. - 5\<rparr>"
  obtain rc s' where r: "run_state (p11_owner_cleanup ?env) demo_begun = (rc, s')" by fastforce
  have "fst (run_state (p11_owner_cleanup ?env) demo_begun) = 1" by code_simp
  with r have "rc = 1" by simp
  moreover have "books (object_rows ?env) demo_begun" "ctl_present ?env" using demo_books by (simp_all add: demo_owner_env_def)
  ultimately show ?thesis using cleanup_failure_recorded[of ?env demo_begun rc s'] r by simp
qed

end
