(* ===== verification/P11_Lease.thy ===== *)
theory P11_Lease
  imports P11_Owner
begin

text \<open>
  Lease accounting under contention. \<^verbatim>\<open>reserve_local\<close> and \<^verbatim>\<open>refund_local\<close> of
  \<^verbatim>\<open>native/task_owner.c\<close> read the shared count and add to it in separate atomic steps,
  and the steps of different tasks interleave. Each step of a task is one transition of
  \<open>lease_step\<close>. The code itself, \<open>reserve_with\<close> and \<open>refund_with\<close> of \<open>P11_Owner\<close>, is run on the
  shared count with arbitrary steps of other tasks before each access, and is a path of it.
\<close>

section \<open>Steps\<close>

datatype lease_pc = LeaseOut | LeaseClaim | LeaseClaimed | LeaseUndo | LeaseHeld | LeaseRefund

record lease_world =
  lw_count :: u64
  lw_poison :: bool
  lw_pc :: "nat \<Rightarrow> lease_pc"

definition lease_at :: "nat \<Rightarrow> lease_pc \<Rightarrow> u64 \<Rightarrow> lease_world \<Rightarrow> lease_world" where
  "lease_at t pc n w = w\<lparr>lw_count := n, lw_pc := (lw_pc w)(t := pc)\<rparr>"

inductive lease_step :: "nat \<Rightarrow> lease_world \<Rightarrow> lease_world \<Rightarrow> bool" for t where
  full: "lw_pc w t = LeaseOut \<Longrightarrow> lw_count w \<ge> OWNER_LIMIT \<Longrightarrow> lease_step t w w"
| room: "lw_pc w t = LeaseOut \<Longrightarrow> \<not> lw_count w \<ge> OWNER_LIMIT \<Longrightarrow> lease_step t w (lease_at t LeaseClaim (lw_count w) w)"
| claim: "lw_pc w t = LeaseClaim \<Longrightarrow> lease_step t w (lease_at t LeaseClaimed (lw_count w + 1) w)"
| over: "lw_pc w t = LeaseClaimed \<Longrightarrow> lw_count w > OWNER_LIMIT \<Longrightarrow> lease_step t w (lease_at t LeaseUndo (lw_count w) w)"
| undo: "lw_pc w t = LeaseUndo \<Longrightarrow> lease_step t w (lease_at t LeaseOut (lw_count w + - 1) w)"
| keep: "lw_pc w t = LeaseClaimed \<Longrightarrow> \<not> lw_count w > OWNER_LIMIT \<Longrightarrow> lease_step t w (lease_at t LeaseHeld (lw_count w) w)"
| broken: "lw_pc w t = LeaseHeld \<Longrightarrow> lw_count w = 0 \<or> lw_count w > OWNER_CONTROL_BOUND \<Longrightarrow>
    lease_step t w ((lease_at t LeaseOut (lw_count w) w)\<lparr>lw_poison := True\<rparr>)"
| settle: "lw_pc w t = LeaseHeld \<Longrightarrow> \<not> (lw_count w = 0 \<or> lw_count w > OWNER_CONTROL_BOUND) \<Longrightarrow>
    lease_step t w (lease_at t LeaseRefund (lw_count w) w)"
| refund: "lw_pc w t = LeaseRefund \<Longrightarrow> lease_step t w (lease_at t LeaseOut (lw_count w + - 1) w)"

inductive lease_reachable :: "nat \<Rightarrow> lease_world \<Rightarrow> bool" for n where
  start: "lease_reachable n \<lparr>lw_count = 0, lw_poison = False, lw_pc = (\<lambda>_. LeaseOut)\<rparr>"
| step: "lease_reachable n w \<Longrightarrow> t < n \<Longrightarrow> lease_step t w w' \<Longrightarrow> lease_reachable n w'"

section \<open>The count\<close>

text \<open>The tasks whose unit is in the count, and those that keep theirs.\<close>

definition holding :: "nat \<Rightarrow> lease_world \<Rightarrow> lease_pc set \<Rightarrow> nat set" where
  "holding n w P = {t. t < n \<and> lw_pc w t \<in> P}"

abbreviation adding :: "lease_pc set" where
  "adding \<equiv> {LeaseClaimed, LeaseUndo, LeaseHeld, LeaseRefund}"

abbreviation keeping :: "lease_pc set" where
  "keeping \<equiv> {LeaseHeld, LeaseRefund}"

lemma finite_holding [simp]: "finite (holding n w P)"
  by (simp add: holding_def)

lemma holding_at:
  "t < n \<Longrightarrow> holding n (lease_at t pc c w) P = (if pc \<in> P then insert t (holding n w P) else holding n w P - {t})"
  by (auto simp: holding_def lease_at_def)

lemma holding_poison [simp]: "holding n (w\<lparr>lw_poison := p\<rparr>) P = holding n w P"
  by (simp add: holding_def)

lemma in_holding: "t < n \<Longrightarrow> t \<in> holding n w P \<longleftrightarrow> lw_pc w t \<in> P"
  by (simp add: holding_def)

lemma lease_at_count [simp]: "lw_count (lease_at t pc c w) = c" "lw_poison (lease_at t pc c w) = lw_poison w"
  by (simp_all add: lease_at_def)

definition lease_inv :: "nat \<Rightarrow> lease_world \<Rightarrow> bool" where
  "lease_inv n w \<longleftrightarrow> unat (lw_count w) = card (holding n w adding) \<and> card (holding n w keeping) \<le> unat OWNER_LIMIT \<and> \<not> lw_poison w"

lemma counted_bound:
  assumes "lease_inv n w" "n \<le> unat OWNER_TRANSIENT_CLAIMS"
  shows "unat (lw_count w) \<le> unat OWNER_LIMIT + n"
proof -
  have "holding n w adding \<subseteq> holding n w keeping \<union> {..<n}" by (auto simp: holding_def)
  then have "card (holding n w adding) \<le> card (holding n w keeping \<union> {..<n})" by (intro card_mono) simp_all
  also have "\<dots> \<le> card (holding n w keeping) + n" using card_Un_le[of "holding n w keeping" "{..<n}"] by simp
  finally show ?thesis using assms(1) by (simp add: lease_inv_def)
qed

lemma lease_inv_step:
  assumes i: "lease_inv n w" and n: "n \<le> unat OWNER_TRANSIENT_CLAIMS" and t: "t < n" and s: "lease_step t w w'"
  shows "lease_inv n w'"
proof -
  have b: "unat (lw_count w) \<le> 16448 + n" using counted_bound[OF i n] by simp
  have up: "unat (lw_count w + 1) = unat (lw_count w) + 1" using b n by (simp add: unat_add_exact)
  have own: "0 < unat (lw_count w)" "unat (lw_count w + - 1) = unat (lw_count w) - 1" if "lw_pc w t \<in> adding"
  proof -
    have "t \<in> holding n w adding" using that in_holding[OF t] by simp
    then have "card (holding n w adding) > 0" using finite_holding card_gt_0_iff by blast
    then show p: "0 < unat (lw_count w)" using i by (simp only: lease_inv_def)
    then have "lw_count w \<noteq> 0" by auto
    then show "unat (lw_count w + - 1) = unat (lw_count w) - 1" by (simp add: unat_minus_one)
  qed
  show ?thesis using s
  proof cases
    case full
    then show ?thesis using i by simp
  next
    case room
    then show ?thesis using i t in_holding[OF t] by (simp add: lease_inv_def holding_at)
  next
    case claim
    then show ?thesis using i t up in_holding[OF t] by (simp add: lease_inv_def holding_at)
  next
    case over
    then show ?thesis using i t in_holding[OF t] by (simp add: lease_inv_def holding_at insert_absorb)
  next
    case undo
    then show ?thesis using i t own in_holding[OF t] by (simp add: lease_inv_def holding_at)
  next
    case keep
    have "insert t (holding n w keeping) \<subseteq> holding n w adding" using keep t by (auto simp: holding_def)
    then have "card (insert t (holding n w keeping)) \<le> card (holding n w adding)" by (rule card_mono[OF finite_holding])
    also have "\<dots> = unat (lw_count w)" using i by (simp add: lease_inv_def)
    also have "\<dots> \<le> 16448" using keep by (simp add: word_le_nat_alt not_less)
    finally show ?thesis using i t keep in_holding[OF t] by (simp add: lease_inv_def holding_at insert_absorb)
  next
    case broken
    have "lw_count w \<noteq> 0" using own(1) broken by auto
    moreover have "\<not> lw_count w > OWNER_CONTROL_BOUND" using b n by (simp add: word_less_nat_alt)
    ultimately show ?thesis using broken by simp
  next
    case settle
    then show ?thesis using i t in_holding[OF t] by (simp add: lease_inv_def holding_at insert_absorb)
  next
    case refund
    have "card (holding n w keeping - {t}) \<le> card (holding n w keeping)" by (rule card_Diff1_le)
    also have "\<dots> \<le> 16448" using i by (simp add: lease_inv_def)
    finally show ?thesis using i t own refund in_holding[OF t] by (simp add: lease_inv_def holding_at)
  qed
qed

lemma lease_reachable_inv: "lease_reachable n w \<Longrightarrow> n \<le> unat OWNER_TRANSIENT_CLAIMS \<Longrightarrow> lease_inv n w"
proof (induction rule: lease_reachable.induct)
  case start
  then show ?case by (simp add: lease_inv_def holding_def)
next
  case (step w t w')
  then show ?case using lease_inv_step by blast
qed

section \<open>The code under interleaving\<close>

text \<open>Before each of its accesses to the shared cell a task may be overtaken: \<open>noise\<close> is what
  the other tasks do meanwhile, an arbitrary function of time and world.\<close>

definition interleaved :: "(nat \<Rightarrow> lease_world \<Rightarrow> lease_world) \<Rightarrow> (lease_world \<Rightarrow> 'a \<times> lease_world) \<Rightarrow> (lease_world \<times> nat, 'a) state" where
  "interleaved noise access = State (\<lambda>(w, k). case access (noise k w) of (x, w') \<Rightarrow> (x, w', Suc k))"

definition shared_read :: "(nat \<Rightarrow> lease_world \<Rightarrow> lease_world) \<Rightarrow> (lease_world \<times> nat, u64) state" where
  "shared_read noise = interleaved noise (\<lambda>w. (lw_count w, w))"

definition shared_add :: "(nat \<Rightarrow> lease_world \<Rightarrow> lease_world) \<Rightarrow> u64 \<Rightarrow> (lease_world \<times> nat, unit) state" where
  "shared_add noise d = interleaved noise (\<lambda>w. ((), w\<lparr>lw_count := lw_count w + d\<rparr>))"

definition shared_poison :: "(nat \<Rightarrow> lease_world \<Rightarrow> lease_world) \<Rightarrow> (lease_world \<times> nat, unit) state" where
  "shared_poison noise = interleaved noise (\<lambda>w. ((), w\<lparr>lw_poison := True\<rparr>))"

lemmas shared_access = interleaved_def shared_read_def shared_add_def shared_poison_def

definition lease_path :: "nat \<Rightarrow> lease_world \<Rightarrow> lease_world \<Rightarrow> bool" where
  "lease_path n = (\<lambda>w w'. \<exists>u < n. lease_step u w w')\<^sup>*\<^sup>*"

definition by_others :: "nat \<Rightarrow> nat \<Rightarrow> lease_world \<Rightarrow> lease_world \<Rightarrow> bool" where
  "by_others n t = (\<lambda>w w'. \<exists>u < n. u \<noteq> t \<and> lease_step u w w')\<^sup>*\<^sup>*"

definition at_pc :: "nat \<Rightarrow> lease_pc \<Rightarrow> lease_world \<Rightarrow> lease_world" where
  "at_pc t pc w = w\<lparr>lw_pc := (lw_pc w)(t := pc)\<rparr>"

text \<open>The other tasks look neither at the position of this one nor at the poison.\<close>

definition marked :: "nat \<Rightarrow> lease_pc \<Rightarrow> bool \<Rightarrow> lease_world \<Rightarrow> lease_world" where
  "marked t pc p w = (at_pc t pc w)\<lparr>lw_poison := lw_poison w \<or> p\<rparr>"

lemma marked_simps [simp]:
  "lw_count (marked t pc p w) = lw_count w" "lw_pc (marked t pc p w) = (lw_pc w)(t := pc)"
  "marked t pc False w = at_pc t pc w"
  by (simp_all add: marked_def at_pc_def)

lemma marked_at: "u \<noteq> t \<Longrightarrow> lease_at u q c (marked t pc p w) = marked t pc p (lease_at u q c w)"
  by (simp add: marked_def at_pc_def lease_at_def fun_upd_twist)

lemma marked_poison: "(marked t pc p w)\<lparr>lw_poison := True\<rparr> = marked t pc p (w\<lparr>lw_poison := True\<rparr>)"
  by (simp add: marked_def at_pc_def)

lemma step_marked: "lease_step u w w' \<Longrightarrow> u \<noteq> t \<Longrightarrow> lease_step u (marked t pc p w) (marked t pc p w')"
proof (induction rule: lease_step.induct)
  case (broken w)
  then show ?case using lease_step.broken[of "marked t pc p w" u] by (simp add: marked_at marked_poison)
qed (use lease_step.intros(1-6,8,9)[of "marked t pc p _" u] in \<open>simp_all add: marked_at\<close>)

lemma others_path: "by_others n t w w' \<Longrightarrow> lease_path n (marked t pc p w) (marked t pc p w')"
  unfolding by_others_def lease_path_def
proof (induction rule: rtranclp_induct)
  case (step v v')
  from step.hyps(2) obtain u where "u < n" "lease_step u (marked t pc p v) (marked t pc p v')" using step_marked by blast
  then have "\<exists>u < n. lease_step u (marked t pc p v) (marked t pc p v')" by blast
  with step.IH show ?case by (rule rtranclp.rtrancl_into_rtrancl)
qed simp

lemma own_path: "t < n \<Longrightarrow> lease_step t w w' \<Longrightarrow> lease_path n w w'"
  unfolding lease_path_def by auto

lemma path_trans [trans]: "lease_path n w w' \<Longrightarrow> lease_path n w' w'' \<Longrightarrow> lease_path n w w''"
  unfolding lease_path_def by (rule rtranclp_trans)

text \<open>The own steps, on marked worlds.\<close>

lemma marked_lease_at: "lease_at t q c (marked t pc p w) = marked t q p (w\<lparr>lw_count := c\<rparr>)"
  by (simp add: marked_def at_pc_def lease_at_def)

lemma count_same [simp]: "w\<lparr>lw_count := lw_count w\<rparr> = w"
  by simp

lemma poisoned_mark: "(marked t pc p w)\<lparr>lw_poison := True\<rparr> = marked t pc True w"
  by (simp add: marked_def at_pc_def)

lemma own_steps:
  shows "lw_count w \<ge> OWNER_LIMIT \<Longrightarrow> lease_step t (marked t LeaseOut p w) (marked t LeaseOut p w)"
    and "\<not> lw_count w \<ge> OWNER_LIMIT \<Longrightarrow> lease_step t (marked t LeaseOut p w) (marked t LeaseClaim p w)"
    and "lease_step t (marked t LeaseClaim p w) (marked t LeaseClaimed p (w\<lparr>lw_count := lw_count w + 1\<rparr>))"
    and "lw_count w > OWNER_LIMIT \<Longrightarrow> lease_step t (marked t LeaseClaimed p w) (marked t LeaseUndo p w)"
    and "lease_step t (marked t LeaseUndo p w) (marked t LeaseOut p (w\<lparr>lw_count := lw_count w + - 1\<rparr>))"
    and "\<not> lw_count w > OWNER_LIMIT \<Longrightarrow> lease_step t (marked t LeaseClaimed p w) (marked t LeaseHeld p w)"
    and "lw_count w = 0 \<or> lw_count w > OWNER_CONTROL_BOUND \<Longrightarrow> lease_step t (marked t LeaseHeld p w) (marked t LeaseOut True w)"
    and "\<not> (lw_count w = 0 \<or> lw_count w > OWNER_CONTROL_BOUND) \<Longrightarrow> lease_step t (marked t LeaseHeld p w) (marked t LeaseRefund p w)"
    and "lease_step t (marked t LeaseRefund p w) (marked t LeaseOut p (w\<lparr>lw_count := lw_count w + - 1\<rparr>))"
  subgoal using lease_step.full[of "marked t LeaseOut p w" t] by (simp only: marked_simps fun_upd_same simp_thms)
  subgoal using lease_step.room[of "marked t LeaseOut p w" t] by (simp only: marked_lease_at marked_simps fun_upd_same count_same simp_thms)
  subgoal using lease_step.claim[of "marked t LeaseClaim p w" t] by (simp only: marked_lease_at marked_simps fun_upd_same count_same simp_thms)
  subgoal using lease_step.over[of "marked t LeaseClaimed p w" t] by (simp only: marked_lease_at marked_simps fun_upd_same count_same simp_thms)
  subgoal using lease_step.undo[of "marked t LeaseUndo p w" t] by (simp only: marked_lease_at marked_simps fun_upd_same count_same simp_thms)
  subgoal using lease_step.keep[of "marked t LeaseClaimed p w" t] by (simp only: marked_lease_at marked_simps fun_upd_same count_same simp_thms)
  subgoal using lease_step.broken[of "marked t LeaseHeld p w" t] by (simp only: marked_lease_at marked_simps fun_upd_same count_same simp_thms poisoned_mark)
  subgoal using lease_step.settle[of "marked t LeaseHeld p w" t] by (simp only: marked_lease_at marked_simps fun_upd_same count_same simp_thms)
  subgoal using lease_step.refund[of "marked t LeaseRefund p w" t] by (simp only: marked_lease_at marked_simps fun_upd_same count_same simp_thms)
  done

definition bumped :: "lease_world \<Rightarrow> lease_world" where
  "bumped w = w\<lparr>lw_count := lw_count w + 1\<rparr>"

lemma marked_poisoned: "marked t pc True w = at_pc t pc (w\<lparr>lw_poison := True\<rparr>)"
  by (simp add: marked_def at_pc_def)

lemma reserve_interleaved:
  assumes t: "t < n" and noise: "\<And>k w. by_others n t w (noise k w)"
  shows "case run_state (reserve_with (shared_read noise) (shared_add noise) (State_Monad.return ())) (w, k) of (ok, w', _) \<Rightarrow>
      lease_path n (at_pc t LeaseOut w) (at_pc t (if ok then LeaseHeld else LeaseOut) w')
      \<and> (ok \<longleftrightarrow> lw_count (noise k w) < OWNER_LIMIT
          \<and> lw_count (noise (k + 2) (bumped (noise (k + 1) (noise k w)))) \<le> OWNER_LIMIT)"
proof -
  have drift: "lease_path n (marked t pc False v) (marked t pc False (noise j v))" for pc j v by (rule others_path[OF noise])
  note own = own_steps[where p = False and t = t, THEN own_path[OF t]]
  let ?v0 = "noise k w" and ?v1 = "bumped (noise (k + 1) (noise k w))"
  let ?v2 = "noise (k + 2) ?v1" and ?v3 = "noise (k + 3) (noise (k + 2) ?v1)"
  have first: "lease_path n (marked t LeaseOut False w) (marked t LeaseOut False ?v0)" by (rule drift)
  show ?thesis
  proof (cases "lw_count ?v0 \<ge> OWNER_LIMIT")
    case True
    with first show ?thesis by (simp add: reserve_with_def shared_access not_less)
  next
    case room: False
    have "lease_path n (marked t LeaseOut False w) (marked t LeaseClaimed False ?v1)"
      unfolding bumped_def by (rule path_trans[OF path_trans[OF first own(2)[OF room]] path_trans[OF drift own(3)]])
    then have claimed: "lease_path n (marked t LeaseOut False w) (marked t LeaseClaimed False ?v2)" by (rule path_trans[OF _ drift])
    show ?thesis
    proof (cases "lw_count ?v2 > OWNER_LIMIT")
      case True
      have "lease_path n (marked t LeaseOut False w) (marked t LeaseOut False (?v3\<lparr>lw_count := lw_count ?v3 + - 1\<rparr>))"
        by (rule path_trans[OF path_trans[OF claimed own(4)[OF True]] path_trans[OF drift own(5)]])
      with room True show ?thesis by (auto simp: reserve_with_def shared_access bumped_def eval_nat_numeral not_le)
    next
      case False
      with path_trans[OF claimed own(6)[OF False]] room show ?thesis
        by (simp add: reserve_with_def shared_access bumped_def eval_nat_numeral not_le)
    qed
  qed
qed

lemma refund_interleaved:
  assumes t: "t < n" and noise: "\<And>k w. by_others n t w (noise k w)"
  shows "case run_state (refund_with (shared_read noise) (shared_add noise) (shared_poison noise)) (w, k) of (ok, w', _) \<Rightarrow>
      lease_path n (at_pc t LeaseHeld w) (at_pc t LeaseOut w')
      \<and> (ok \<longleftrightarrow> lw_count (noise k w) \<in> {1..OWNER_CONTROL_BOUND}) \<and> (\<not> ok \<longrightarrow> lw_poison w')"
proof -
  note own = own_steps[where p = False and t = t, THEN own_path[OF t]]
  let ?v0 = "noise k w" and ?v1 = "noise (Suc k) (noise k w)"
  have first: "lease_path n (marked t LeaseHeld False w) (marked t LeaseHeld False ?v0)" by (rule others_path[OF noise])
  have range: "c \<in> {1..OWNER_CONTROL_BOUND} \<longleftrightarrow> \<not> (c = 0 \<or> c > OWNER_CONTROL_BOUND)" for c
  proof -
    have "1 \<le> c \<longleftrightarrow> c \<noteq> 0" by (simp add: word_le_nat_alt Suc_le_eq unat_gt_0)
    then show ?thesis by (simp add: not_less)
  qed
  show ?thesis
  proof (cases "lw_count ?v0 = 0 \<or> lw_count ?v0 > OWNER_CONTROL_BOUND")
    case True
    have "lease_path n (marked t LeaseHeld False w) (marked t LeaseOut True ?v1)"
      by (rule path_trans[OF path_trans[OF first own(7)[OF True]] others_path[OF noise]])
    with True show ?thesis unfolding range by (simp add: refund_with_def shared_access marked_poisoned)
  next
    case False
    have "lease_path n (marked t LeaseHeld False w) (marked t LeaseOut False (?v1\<lparr>lw_count := lw_count ?v1 + - 1\<rparr>))"
      by (rule path_trans[OF path_trans[OF first own(8)[OF False]] path_trans[OF others_path[OF noise] own(9)]])
    with False show ?thesis unfolding range by (simp add: refund_with_def shared_access)
  qed
qed

definition rival_claims :: "nat \<Rightarrow> lease_world \<Rightarrow> lease_world" where
  "rival_claims k w = (if k = 1 \<and> lw_pc w 1 = LeaseClaim then lease_at 1 LeaseClaimed (lw_count w + 1) w else w)"

definition nearly_full :: lease_world where
  "nearly_full = \<lparr>lw_count = OWNER_LIMIT - 1, lw_poison = False, lw_pc = (\<lambda>_. LeaseOut)(1 := LeaseClaim)\<rparr>"

lemma rival_claims_others: "by_others 2 0 w (rival_claims k w)"
proof (cases "k = 1 \<and> lw_pc w 1 = LeaseClaim")
  case True
  then have "lease_step 1 w (rival_claims k w)" using lease_step.claim[of w 1] by (simp add: rival_claims_def)
  then show ?thesis unfolding by_others_def by (intro r_into_rtranclp exI[of _ 1]) simp
qed (auto simp: rival_claims_def by_others_def)

section \<open>Properties\<close>

text \<open>C32: However the steps of up to \<open>2\<^sup>2\<^sup>2\<close> tasks interleave, never more than
  \<^verbatim>\<open>OWNER_LIMIT\<close> of them keep a lease, the shared count stays within
  \<^verbatim>\<open>OWNER_CONTROL_BOUND\<close>, so that contention is never taken for corruption, and no refund
  poisons the capture.\<close>
theorem lease_limit:
  assumes "lease_reachable n w" "n \<le> unat OWNER_TRANSIENT_CLAIMS"
  shows "card {t. t < n \<and> lw_pc w t \<in> {LeaseHeld, LeaseRefund}} \<le> unat OWNER_LIMIT
    \<and> lw_count w \<le> OWNER_CONTROL_BOUND \<and> \<not> lw_poison w"
proof -
  have i: "lease_inv n w" by (rule lease_reachable_inv[OF assms])
  have "unat (lw_count w) \<le> 16448 + 4194304" using counted_bound[OF i assms(2)] assms(2) by simp
  then have "lw_count w \<le> OWNER_CONTROL_BOUND" by (simp add: word_le_nat_alt)
  then show ?thesis using i by (simp add: lease_inv_def holding_def)
qed

theorem lease_limit_witness:
  "lw_pc (lease_at 0 LeaseClaimed 1 (lease_at 0 LeaseClaim 0 \<lparr>lw_count = 0, lw_poison = False, lw_pc = (\<lambda>_. LeaseOut)\<rparr>)) 0 = LeaseClaimed
   \<and> lw_count (lease_at 0 LeaseClaimed 1 (lease_at 0 LeaseClaim 0 \<lparr>lw_count = 0, lw_poison = False, lw_pc = (\<lambda>_. LeaseOut)\<rparr>)) \<le> OWNER_CONTROL_BOUND"
proof -
  let ?w0 = "\<lparr>lw_count = 0, lw_poison = False, lw_pc = (\<lambda>_. LeaseOut)\<rparr>" and ?w1 = "lease_at 0 LeaseClaim 0 \<lparr>lw_count = 0, lw_poison = False, lw_pc = (\<lambda>_. LeaseOut)\<rparr>"
  have s1: "lease_step 0 ?w0 ?w1" using lease_step.room[of ?w0 0] by simp
  have r: "lease_reachable 2 ?w1" by (rule lease_reachable.step[OF lease_reachable.start _ s1]) simp
  have s2: "lease_step 0 ?w1 (lease_at 0 LeaseClaimed 1 ?w1)" using lease_step.claim[of ?w1 0] by (simp add: lease_at_def)
  have "lease_reachable 2 (lease_at 0 LeaseClaimed 1 ?w1)" by (rule lease_reachable.step[OF r _ s2]) simp
  from lease_limit[OF this] show ?thesis by (simp add: lease_at_def)
qed

text \<open>C33: The two accounting functions run as that step relation says, whatever the other
  tasks do before each of their accesses: a run of \<^verbatim>\<open>reserve_local\<close> is an interleaved path
  that takes the task from no lease to a held one when it returns true and back to none when
  it refuses, and it returns true exactly when the first read is under the limit and the read
  after its own increment is within it; a run of \<^verbatim>\<open>refund_local\<close> is a path from a held lease to
  none, succeeds exactly when it reads a count from 1 to \<^verbatim>\<open>OWNER_CONTROL_BOUND\<close>, and poisons when it
  does not.\<close>
theorem lease_functions_step:
  assumes "t < n" "\<And>k w. by_others n t w (noise k w)"
  shows "(case run_state (reserve_with (shared_read noise) (shared_add noise) (State_Monad.return ())) (w, k) of (ok, w', _) \<Rightarrow>
      lease_path n (at_pc t LeaseOut w) (at_pc t (if ok then LeaseHeld else LeaseOut) w')
      \<and> (ok \<longleftrightarrow> lw_count (noise k w) < OWNER_LIMIT
          \<and> lw_count (noise (k + 2) (bumped (noise (k + 1) (noise k w)))) \<le> OWNER_LIMIT))
   \<and> (case run_state (refund_with (shared_read noise) (shared_add noise) (shared_poison noise)) (w, k) of (ok, w', _) \<Rightarrow>
      lease_path n (at_pc t LeaseHeld w) (at_pc t LeaseOut w')
      \<and> (ok \<longleftrightarrow> lw_count (noise k w) \<in> {1..OWNER_CONTROL_BOUND}) \<and> (\<not> ok \<longrightarrow> lw_poison w'))"
  by (rule conjI) (rule reserve_interleaved[where noise = noise, OF assms], rule refund_interleaved[where noise = noise, OF assms])

text \<open>Another task's claim lands between the first read and the increment of this one: the count
  was one under the limit, and the second read refuses.\<close>

theorem lease_functions_step_witness:
  "\<exists>w' j. run_state (reserve_with (shared_read rival_claims) (shared_add rival_claims) (State_Monad.return ())) (nearly_full, 0) = (False, w', j)
   \<and> lease_path 2 (at_pc 0 LeaseOut nearly_full) (at_pc 0 LeaseOut w')
   \<and> lw_count (rival_claims 0 nearly_full) < OWNER_LIMIT"
proof -
  obtain ok w' j where r: "run_state (reserve_with (shared_read rival_claims) (shared_add rival_claims) (State_Monad.return ())) (nearly_full, 0) = (ok, w', j)"
    by (metis prod_cases3)
  have "\<not> lw_count (rival_claims 2 (bumped (rival_claims 1 (rival_claims 0 nearly_full)))) \<le> OWNER_LIMIT"
    by (simp add: rival_claims_def bumped_def nearly_full_def)
  moreover have "lw_count (rival_claims 0 nearly_full) < OWNER_LIMIT" by (simp add: rival_claims_def nearly_full_def)
  ultimately show ?thesis
    using lease_functions_step[of 0 2 rival_claims nearly_full 0, OF _ rival_claims_others]
    by (cases ok) (simp_all add: r numeral_2_eq_2 split: prod.splits)
qed

end
