(* ===== verification/P11_Metadata.thy ===== *)
theory P11_Metadata
  imports P11_Flow
begin

text \<open>
  The metadata readers of \<^verbatim>\<open>crates/ebpf/src/main.rs\<close> that only the diagnostic build
  \<^verbatim>\<open>unsafe-unvalidated-metadata\<close> carries: mechanism parameters of known shapes and the
  attribute types of call templates. Their output goes into the START row; a
  failure is a status the caller records. The log of the target says what they read.
\<close>

section \<open>Mechanism parameters\<close>

abbreviation (input) shape_NONE :: u32 where "shape_NONE \<equiv> 0"
abbreviation (input) shape_RSA_PKCS_PSS :: u32 where "shape_RSA_PKCS_PSS \<equiv> 1"
abbreviation (input) shape_GCM :: u32 where "shape_GCM \<equiv> 2"
abbreviation (input) shape_GCM_V220 :: u32 where "shape_GCM_V220 \<equiv> 3"
abbreviation (input) shape_GCM_V240 :: u32 where "shape_GCM_V240 \<equiv> 4"
abbreviation (input) PARAMS_DECODE_FAILURE :: u32 where "PARAMS_DECODE_FAILURE \<equiv> 0xFFFFFFFF"

record ParamsOutput =
  po_p0 :: u64
  po_p1 :: u64
  po_p2 :: u64

text \<open>The three field offsets of a parameter block and the shape it decodes to, by the
  registered shape and the exact length.\<close>

definition params_fields :: "u64 \<Rightarrow> u32 \<Rightarrow> u64 \<Rightarrow> (u64 \<times> u64 \<times> u64 \<times> u32) option" where
  "params_fields width sh param_len =
     (if sh = shape_RSA_PKCS_PSS \<and> param_len = width * 3 then Some (0, width, width * 2, shape_RSA_PKCS_PSS)
      else if sh = shape_GCM \<and> param_len = width * 5 then Some (width, width * 3, width * 4, shape_GCM_V220)
      else if sh = shape_GCM \<and> param_len = width * 6 then Some (width, width * 4, width * 5, shape_GCM_V240)
      else None)"

definition params_read ::
  "target \<Rightarrow> LinuxLayout \<Rightarrow> u64 \<Rightarrow> u64 \<times> u64 \<times> u64 \<times> u32 \<Rightarrow> ParamsOutput \<Rightarrow> (ParamsOutput \<times> u32) rd" where
  "params_read t l pparam = (\<lambda>(o0, o1, o2, out_shape) output.
     (case (checked_add pparam o0, checked_add pparam o1, checked_add pparam o2) of
        (Some a0, Some a1, Some a2) \<Rightarrow> do {
          r0 \<leftarrow> read_word t a0 l;
          r1 \<leftarrow> read_word t a1 l;
          r2 \<leftarrow> read_word t a2 l;
          State_Monad.return (case (r0, r1, r2) of
            (Some a, Some b, Some c) \<Rightarrow> (\<lparr>po_p0 = a, po_p1 = b, po_p2 = c\<rparr>, out_shape)
          | _ \<Rightarrow> (output, PARAMS_DECODE_FAILURE)) }
      | _ \<Rightarrow> State_Monad.return (output, PARAMS_DECODE_FAILURE)))"

definition decode_params_impl ::
  "(LinuxLayout \<Rightarrow> u64) \<Rightarrow> target \<Rightarrow> LinuxLayout \<Rightarrow> u64 \<Rightarrow> u32 \<Rightarrow> ParamsOutput \<Rightarrow> (ParamsOutput \<times> u32) rd" where
  "decode_params_impl wb t l pmech sh output =
     (case checked_add pmech (wb l * 2) of
        None \<Rightarrow> State_Monad.return (output, PARAMS_DECODE_FAILURE)
      | Some param_len_addr \<Rightarrow> do {
          param_len \<leftarrow> read_word t param_len_addr l;
          case param_len of
            None \<Rightarrow> State_Monad.return (output, PARAMS_DECODE_FAILURE)
          | Some param_len \<Rightarrow>
              (case params_fields (wb l) sh param_len of
                 None \<Rightarrow> State_Monad.return (output, shape_NONE)
               | Some offsets \<Rightarrow>
                   (case checked_add pmech (wb l) of
                      None \<Rightarrow> State_Monad.return (output, PARAMS_DECODE_FAILURE)
                    | Some pparam_addr \<Rightarrow> do {
                        pparam \<leftarrow> read_word t pparam_addr l;
                        case pparam of
                          None \<Rightarrow> State_Monad.return (output, PARAMS_DECODE_FAILURE)
                        | Some pparam \<Rightarrow>
                            if pparam = 0 then State_Monad.return (output, shape_NONE)
                            else params_read t l pparam offsets output })) })"

definition layout_of_bytes :: "u32 \<Rightarrow> LinuxLayout option" where
  "layout_of_bytes word_bytes = (if word_bytes = 4 then Some Ilp32 else if word_bytes = 8 then Some Lp64 else None)"

definition p11_decode_params ::
  "(LinuxLayout \<Rightarrow> u64) \<Rightarrow> target \<Rightarrow> u64 \<Rightarrow> u32 \<Rightarrow> u32 \<Rightarrow> ParamsOutput \<Rightarrow> (ParamsOutput \<times> u32) rd" where
  "p11_decode_params wb t pmech sh bytes output =
     (case layout_of_bytes bytes of
        None \<Rightarrow> State_Monad.return (output, PARAMS_DECODE_FAILURE)
      | Some l \<Rightarrow> decode_params_impl wb t l pmech sh output)"

section \<open>Templates\<close>

abbreviation (input) MAX_ATTRS :: nat where "MAX_ATTRS \<equiv> 8"
abbreviation (input) TEMPLATE_WALK_FAILURE :: u32 where "TEMPLATE_WALK_FAILURE \<equiv> 1"

record TemplateOutput =
  to_types :: "u64 list"
  to_count :: u32
  to_total :: u32
  to_bools :: u32
  to_seen :: u32

definition template_slot :: "u64 \<Rightarrow> u64 \<Rightarrow> nat \<Rightarrow> u64 option" where
  "template_slot width ptemplate i = checked_add ptemplate (of_nat i * width * 3)"

definition note_type :: "nat \<Rightarrow> u64 \<Rightarrow> TemplateOutput \<Rightarrow> TemplateOutput" where
  "note_type i attr_type output = output\<lparr>to_types := (to_types output)[i := attr_type], to_count := to_count output + 1\<rparr>"

definition template_total :: "u64 \<Rightarrow> TemplateOutput \<Rightarrow> TemplateOutput" where
  "template_total count output = output\<lparr>to_total := ucast (min count 0xFFFFFFFF)\<rparr>"

text \<open>The loops over \<^verbatim>\<open>0..MAX_ATTRS\<close>: \<open>n\<close> rounds are left and the index is \<open>i\<close>.\<close>

fun walk_types_loop ::
  "(LinuxLayout \<Rightarrow> u64) \<Rightarrow> target \<Rightarrow> LinuxLayout \<Rightarrow> u64 \<Rightarrow> u64 \<Rightarrow> nat \<Rightarrow> nat \<Rightarrow> TemplateOutput \<Rightarrow> (TemplateOutput \<times> u32) rd" where
  "walk_types_loop wb t l ptemplate count 0 i output = State_Monad.return (output, 0)"
| "walk_types_loop wb t l ptemplate count (Suc n) i output =
     (if of_nat i \<ge> count then State_Monad.return (output, 0)
      else case template_slot (wb l) ptemplate i of
        None \<Rightarrow> State_Monad.return (output, TEMPLATE_WALK_FAILURE)
      | Some base \<Rightarrow> do {
          attr_type \<leftarrow> read_word t base l;
          case attr_type of
            None \<Rightarrow> State_Monad.return (output, TEMPLATE_WALK_FAILURE)
          | Some attr_type \<Rightarrow> walk_types_loop wb t l ptemplate count n (Suc i) (note_type i attr_type output) })"

definition walk_template_types ::
  "(LinuxLayout \<Rightarrow> u64) \<Rightarrow> target \<Rightarrow> LinuxLayout \<Rightarrow> u64 \<Rightarrow> u64 \<Rightarrow> TemplateOutput \<Rightarrow> (TemplateOutput \<times> u32) rd" where
  "walk_template_types wb t l ptemplate count output =
     walk_types_loop wb t l ptemplate count MAX_ATTRS 0 (template_total count output)"

text \<open>Two adjacent target words, fetched with one helper call.\<close>

definition pair_words :: "LinuxLayout \<Rightarrow> u8 list \<Rightarrow> u64 \<times> u64" where
  "pair_words l bs =
     (case l of
        Lp64 \<Rightarrow> (le_at 8 bs 0, le_at 8 bs 8)
      | Ilp32 \<Rightarrow> (ucast (le_at 4 bs 0 :: u32), ucast (le_at 4 bs 4 :: u32)))"

definition pair_bytes :: "LinuxLayout \<Rightarrow> nat" where
  "pair_bytes l = (case l of Lp64 \<Rightarrow> 16 | Ilp32 \<Rightarrow> 8)"

definition read_word_pair :: "(LinuxLayout \<Rightarrow> u64) \<Rightarrow> target \<Rightarrow> u64 \<Rightarrow> LinuxLayout \<Rightarrow> (u64 \<times> u64) option rd" where
  "read_word_pair wb t address l =
     (case Option.bind (checked_add address (wb l)) (\<lambda>second. target_word_end second l) of
        None \<Rightarrow> State_Monad.return None
      | Some _ \<Rightarrow> do { bs \<leftarrow> read_bytes t address (pair_bytes l); State_Monad.return (map_option (pair_words l) bs) })"

definition allowlisted_mask :: "(u32 \<Rightarrow> u32 option) \<Rightarrow> u64 \<Rightarrow> u32 option" where
  "allowlisted_mask bits attr_type = (if attr_type > 0xFFFFFFFF then None else bits (ucast attr_type))"

definition walk_value ::
  "(LinuxLayout \<Rightarrow> u64) \<Rightarrow> (u32 \<Rightarrow> u32 option) \<Rightarrow> target \<Rightarrow> LinuxLayout \<Rightarrow> u64 \<Rightarrow> u64 \<Rightarrow> TemplateOutput \<Rightarrow>
    (TemplateOutput \<times> bool) rd" where
  "walk_value wb bits t l base attr_type output =
     (case allowlisted_mask bits attr_type of
        None \<Rightarrow> State_Monad.return (output, True)
      | Some m \<Rightarrow>
          (case checked_add base (wb l) of
             None \<Rightarrow> State_Monad.return (output, False)
           | Some value_addr \<Rightarrow> do {
               pair \<leftarrow> read_word_pair wb t value_addr l;
               case pair of
                 None \<Rightarrow> State_Monad.return (output, False)
               | Some (pvalue, len) \<Rightarrow>
                   if len \<noteq> 1 then State_Monad.return (output, True)
                   else do {
                     b \<leftarrow> read_bytes t pvalue 1;
                     State_Monad.return (case b of
                       None \<Rightarrow> (output, False)
                     | Some bs \<Rightarrow>
                         (output\<lparr>to_seen := to_seen output OR m,
                                 to_bools := (if bs ! 0 \<noteq> 0 then to_bools output OR m else to_bools output)\<rparr>, True)) } }))"

fun walk_template_loop ::
  "(LinuxLayout \<Rightarrow> u64) \<Rightarrow> (u32 \<Rightarrow> u32 option) \<Rightarrow> target \<Rightarrow> LinuxLayout \<Rightarrow> u64 \<Rightarrow> u64 \<Rightarrow> nat \<Rightarrow> nat \<Rightarrow> TemplateOutput \<Rightarrow>
    (TemplateOutput \<times> u32) rd" where
  "walk_template_loop wb bits t l ptemplate count 0 i output = State_Monad.return (output, 0)"
| "walk_template_loop wb bits t l ptemplate count (Suc n) i output =
     (if of_nat i \<ge> count then State_Monad.return (output, 0)
      else case template_slot (wb l) ptemplate i of
        None \<Rightarrow> State_Monad.return (output, TEMPLATE_WALK_FAILURE)
      | Some base \<Rightarrow> do {
          attr_type \<leftarrow> read_word t base l;
          case attr_type of
            None \<Rightarrow> State_Monad.return (output, TEMPLATE_WALK_FAILURE)
          | Some attr_type \<Rightarrow> do {
              (output, ok) \<leftarrow> walk_value wb bits t l base attr_type (note_type i attr_type output);
              if ok then walk_template_loop wb bits t l ptemplate count n (Suc i) output
              else State_Monad.return (output, TEMPLATE_WALK_FAILURE) } })"

definition walk_template_impl ::
  "(LinuxLayout \<Rightarrow> u64) \<Rightarrow> (u32 \<Rightarrow> u32 option) \<Rightarrow> target \<Rightarrow> LinuxLayout \<Rightarrow> u64 \<Rightarrow> u64 \<Rightarrow> TemplateOutput \<Rightarrow>
    (TemplateOutput \<times> u32) rd" where
  "walk_template_impl wb bits t l ptemplate count output =
     walk_template_loop wb bits t l ptemplate count MAX_ATTRS 0 (template_total count output)"

definition p11_walk_template ::
  "(LinuxLayout \<Rightarrow> u64) \<Rightarrow> (u32 \<Rightarrow> u32 option) \<Rightarrow> target \<Rightarrow> u64 \<Rightarrow> u64 \<Rightarrow> u32 \<Rightarrow> TemplateOutput \<Rightarrow> (TemplateOutput \<times> u32) rd" where
  "p11_walk_template wb bits t ptemplate count bytes output =
     (case layout_of_bytes bytes of
        None \<Rightarrow> State_Monad.return (output, TEMPLATE_WALK_FAILURE)
      | Some l \<Rightarrow> walk_template_impl wb bits t l ptemplate count output)"

definition p11_walk_template_types ::
  "(LinuxLayout \<Rightarrow> u64) \<Rightarrow> target \<Rightarrow> u64 \<Rightarrow> u64 \<Rightarrow> u32 \<Rightarrow> TemplateOutput \<Rightarrow> (TemplateOutput \<times> u32) rd" where
  "p11_walk_template_types wb t ptemplate count bytes output =
     (case layout_of_bytes bytes of
        None \<Rightarrow> State_Monad.return (output, TEMPLATE_WALK_FAILURE)
      | Some l \<Rightarrow> walk_template_types wb t l ptemplate count output)"

section \<open>What is read\<close>

text \<open>The accesses a reader adds to the log.\<close>

definition logs :: "'a rd \<Rightarrow> ('a \<Rightarrow> read_event set \<Rightarrow> bool) \<Rightarrow> bool" where
  "logs m P \<longleftrightarrow> (\<forall>log. case run_state m log of (x, log') \<Rightarrow> \<exists>new. log' = new @ log \<and> P x (set new))"

lemma logs_return: "P x {} \<Longrightarrow> logs (State_Monad.return x) P"
  by (auto simp: logs_def)

lemma logs_bind:
  assumes m: "logs m P" and f: "\<And>x A. P x A \<Longrightarrow> logs (f x) (\<lambda>y B. Q y (A \<union> B))"
  shows "logs (State_Monad.bind m f) Q"
  unfolding logs_def
proof
  fix log
  obtain x log1 where r: "run_state m log = (x, log1)" by (cases "run_state m log")
  obtain A where A: "log1 = A @ log" "P x (set A)" using m r by (auto simp: logs_def dest!: spec[of _ log])
  obtain y log2 where r2: "run_state (f x) log1 = (y, log2)" by (cases "run_state (f x) log1")
  obtain B where B: "log2 = B @ log1" "Q y (set A \<union> set B)" using f[OF A(2)] r2 by (auto simp: logs_def dest!: spec[of _ log1])
  have "log2 = (B @ A) @ log" "Q y (set (B @ A))" using A B by (simp_all add: Un_commute)
  then show "case run_state (State_Monad.bind m f) log of (x, log') \<Rightarrow> \<exists>new. log' = new @ log \<and> Q x (set new)"
    using r r2 by auto
qed

lemma logs_conseq: "logs m P \<Longrightarrow> (\<And>x A. P x A \<Longrightarrow> Q x A) \<Longrightarrow> logs m Q"
proof -
  assume m: "logs m P" and q: "\<And>x A. P x A \<Longrightarrow> Q x A"
  show "logs m Q" unfolding logs_def
  proof
    fix log
    obtain x log' where r: "run_state m log = (x, log')" by (cases "run_state m log")
    then obtain new where "log' = new @ log" "P x (set new)" using m by (auto simp: logs_def dest!: spec[of _ log])
    then show "case run_state m log of (x, log') \<Rightarrow> \<exists>new. log' = new @ log \<and> Q x (set new)" using r q by auto
  qed
qed

lemma logs_word: "logs (read_word t a l) (\<lambda>v A. A = {WordRead a l v})"
  by (auto simp: logs_def rd_run)

lemma logs_bytes: "logs (read_bytes t a n) (\<lambda>v A. A = {BytesRead a n v})"
  by (auto simp: logs_def rd_run)

lemma logs_case_prod: "(\<And>a b. x = (a, b) \<Longrightarrow> logs (f a b) P) \<Longrightarrow> logs (case x of (a, b) \<Rightarrow> f a b) P"
  by (cases x) simp

text \<open>The reads a template walk is allowed: the type word of one of the first eight
  entries; pointer and length of an entry whose type is on the list; and one byte, at
  the pointer of such an entry whose length is one.\<close>

definition slot_addr :: "(LinuxLayout \<Rightarrow> u64) \<Rightarrow> LinuxLayout \<Rightarrow> u64 \<Rightarrow> nat \<Rightarrow> u64" where
  "slot_addr wb l ptemplate i = ptemplate + of_nat i * wb l * 3"

definition type_seen :: "(LinuxLayout \<Rightarrow> u64) \<Rightarrow> (u32 \<Rightarrow> u32 option) \<Rightarrow> LinuxLayout \<Rightarrow> u64 \<Rightarrow> read_event set \<Rightarrow> nat \<Rightarrow> bool" where
  "type_seen wb bits l ptemplate A i \<longleftrightarrow> i < MAX_ATTRS
     \<and> (\<exists>ty. WordRead (slot_addr wb l ptemplate i) l (Some ty) \<in> A \<and> allowlisted_mask bits ty \<noteq> None)"

definition walk_reads ::
  "(LinuxLayout \<Rightarrow> u64) \<Rightarrow> (u32 \<Rightarrow> u32 option) \<Rightarrow> LinuxLayout \<Rightarrow> u64 \<Rightarrow> u64 \<Rightarrow> read_event set \<Rightarrow> read_event \<Rightarrow> bool" where
  "walk_reads wb bits l ptemplate count A e \<longleftrightarrow>
     (case e of
        WordRead a l' _ \<Rightarrow> l' = l \<and> (\<exists>i < MAX_ATTRS. of_nat i < count \<and> a = slot_addr wb l ptemplate i)
      | BytesRead a n _ \<Rightarrow> \<exists>i. type_seen wb bits l ptemplate A i
          \<and> (a = slot_addr wb l ptemplate i + wb l \<and> n = pair_bytes l
             \<or> n = 1 \<and> (\<exists>bs. BytesRead (slot_addr wb l ptemplate i + wb l) (pair_bytes l) (Some bs) \<in> A \<and> pair_words l bs = (a, 1)))
      | ArgFetch _ _ \<Rightarrow> False)"

definition walk_private where
  "walk_private wb bits l ptemplate count A \<longleftrightarrow> (\<forall>e \<in> A. walk_reads wb bits l ptemplate count A e)"

lemma walk_reads_mono: "A \<subseteq> B \<Longrightarrow> walk_reads wb bits l p count A e \<Longrightarrow> walk_reads wb bits l p count B e"
  by (auto simp: walk_reads_def type_seen_def split: read_event.splits)

lemma walk_private_Un:
  "walk_private wb bits l p count A \<Longrightarrow> walk_private wb bits l p count B \<Longrightarrow> walk_private wb bits l p count (A \<union> B)"
  using walk_reads_mono[of A "A \<union> B"] walk_reads_mono[of B "A \<union> B"] unfolding walk_private_def by blast

lemma checked_addD: "checked_add a b = Some c \<Longrightarrow> c = a + b"
  by (simp add: checked_add_def split: if_splits)

lemma logs_pair:
  "logs (read_word_pair wb t a l) (\<lambda>v A. A = {} \<and> v = None \<or>
     (\<exists>bs. A = {BytesRead a (pair_bytes l) bs} \<and> v = map_option (pair_words l) bs))"
  unfolding read_word_pair_def
  by (auto split: option.split intro!: logs_return logs_bind[OF logs_bytes])

lemma walk_value_reads:
  assumes i: "i < MAX_ATTRS" and A: "WordRead (slot_addr wb l p i) l (Some ty) \<in> A"
  shows "logs (walk_value wb bits t l (slot_addr wb l p i) ty output)
    (\<lambda>_ B. \<forall>e \<in> B. walk_reads wb bits l p count (A \<union> B) e)"
proof (cases "allowlisted_mask bits ty")
  case None
  then show ?thesis by (simp add: walk_value_def logs_return)
next
  case (Some m)
  let ?a = "slot_addr wb l p i" let ?ok = "\<lambda>B. \<forall>e \<in> B. walk_reads wb bits l p count (A \<union> B) e"
  have seen: "type_seen wb bits l p (A \<union> B) i" for B using i A Some by (auto simp: type_seen_def)
  have pair: "?ok {BytesRead (?a + wb l) (pair_bytes l) bs}" for bs
    using seen[of "{BytesRead (?a + wb l) (pair_bytes l) bs}"] by (auto simp: walk_reads_def intro!: exI[of _ i])
  have byte: "?ok {BytesRead (?a + wb l) (pair_bytes l) (Some bs), BytesRead q 1 v}" if "pair_words l bs = (q, 1)" for bs q v
    using seen[of "{BytesRead (?a + wb l) (pair_bytes l) (Some bs), BytesRead q 1 v}"] that
    by (auto simp: walk_reads_def intro!: exI[of _ i])
  have one: "logs (do {
        b \<leftarrow> read_bytes t q 1;
        State_Monad.return (g b) }) (\<lambda>_ B. ?ok ({BytesRead (?a + wb l) (pair_bytes l) (Some bs)} \<union> B))"
    if "pair_words l bs = (q, 1)" for q bs and g :: "u8 list option \<Rightarrow> TemplateOutput \<times> bool"
    using byte[OF that] by (intro logs_bind[OF logs_bytes] logs_return) (simp add: insert_commute)
  show ?thesis
  proof (cases "checked_add ?a (wb l)")
    case None
    then show ?thesis by (simp add: walk_value_def Some logs_return)
  next
    case a: (Some v)
    note v = checked_addD[OF a]
    show ?thesis unfolding walk_value_def Some a option.case v
    proof (rule logs_bind[OF logs_pair])
      fix w B assume w: "B = {} \<and> w = None \<or> (\<exists>bs. B = {BytesRead (?a + wb l) (pair_bytes l) bs} \<and> w = map_option (pair_words l) bs)"
      show "logs (case w of None \<Rightarrow> State_Monad.return (output, False)
          | Some (pvalue, len) \<Rightarrow>
             if len \<noteq> 1 then State_Monad.return (output, True)
             else do {
               b \<leftarrow> read_bytes t pvalue 1;
               State_Monad.return (case b of
                 None \<Rightarrow> (output, False)
               | Some bs \<Rightarrow>
                   (output\<lparr>to_seen := to_seen output OR m,
                           to_bools := (if bs ! 0 \<noteq> 0 then to_bools output OR m else to_bools output)\<rparr>, True)) })
          (\<lambda>_ C. ?ok (B \<union> C))"
      proof (cases w)
        case None
        then show ?thesis using w pair by (auto intro!: logs_return)
      next
        case (Some x)
        obtain q n where x: "x = (q, n)" by (cases x)
        obtain bs where bs: "B = {BytesRead (?a + wb l) (pair_bytes l) (Some bs)}" "pair_words l bs = (q, n)"
          using w Some x by (auto simp: eq_commute[of "Some _"])
        show ?thesis unfolding Some x option.case prod.case bs(1)
          using pair[of "Some bs"] one[of bs q] bs(2) by (auto intro: logs_return)
      qed
    qed
  qed
qed

lemma template_slotD: "template_slot (wb l) p i = Some base \<Longrightarrow> base = slot_addr wb l p i"
  unfolding template_slot_def slot_addr_def by (rule checked_addD)

lemma walk_template_loop_reads:
  "i + n \<le> MAX_ATTRS \<Longrightarrow> logs (walk_template_loop wb bits t l p count n i out) (\<lambda>_. walk_private wb bits l p count)"
proof (induction n arbitrary: i out)
  case 0
  show ?case by (simp add: logs_return walk_private_def)
next
  case (Suc n)
  let ?P = "walk_private wb bits l p count"
  show ?case
  proof (cases "of_nat i \<ge> count \<or> template_slot (wb l) p i = None")
    case True
    then show ?thesis by (auto intro!: logs_return simp: walk_private_def)
  next
    case False
    let ?a = "slot_addr wb l p i"
    have s: "template_slot (wb l) p i = Some ?a" and c: "of_nat i < count" using False template_slotD by auto
    have word: "?P {WordRead ?a l v}" for v using c Suc.prems by (auto simp: walk_private_def walk_reads_def intro!: exI[of _ i])
    have step: "?P ({WordRead ?a l (Some ty)} \<union> B)"
      if "\<forall>e \<in> B. walk_reads wb bits l p count ({WordRead ?a l (Some ty)} \<union> B) e" for B ty
      using that walk_reads_mono[OF _ word[of "Some ty", unfolded walk_private_def, rule_format]]
      by (auto simp: walk_private_def)
    have rest: "logs (walk_template_loop wb bits t l p count n (Suc i) o') (\<lambda>_. ?P)" for o'
      using Suc by simp
    have "logs (do {
          (output, ok) \<leftarrow> walk_value wb bits t l ?a ty (note_type i ty out);
          if ok then walk_template_loop wb bits t l p count n (Suc i) output
          else State_Monad.return (output, TEMPLATE_WALK_FAILURE) }) (\<lambda>_ B. ?P ({WordRead ?a l (Some ty)} \<union> B))" for ty
    proof (rule logs_bind[OF walk_value_reads[where A = "{WordRead ?a l (Some ty)}"]])
      fix x :: "TemplateOutput \<times> bool" and B
      assume B: "\<forall>e \<in> B. walk_reads wb bits l p count ({WordRead ?a l (Some ty)} \<union> B) e"
      have "?P ({WordRead ?a l (Some ty)} \<union> (B \<union> C))" if "?P C" for C
        using walk_private_Un[OF step[OF B] that] by (simp add: Un_assoc)
      then show "logs (case x of (output, ok) \<Rightarrow>
            if ok then walk_template_loop wb bits t l p count n (Suc i) output
            else State_Monad.return (output, TEMPLATE_WALK_FAILURE)) (\<lambda>_ C. ?P ({WordRead ?a l (Some ty)} \<union> (B \<union> C)))"
        using step[OF B] by (cases x) (auto intro: logs_return logs_conseq[OF rest])
    qed (use Suc.prems in simp_all)
    then show ?thesis using False s word
      by (auto intro!: logs_bind[OF logs_word] logs_return split: option.split)
  qed
qed

definition types_private :: "(LinuxLayout \<Rightarrow> u64) \<Rightarrow> LinuxLayout \<Rightarrow> u64 \<Rightarrow> u64 \<Rightarrow> read_event set \<Rightarrow> bool" where
  "types_private wb l ptemplate count A \<longleftrightarrow>
     A \<subseteq> {WordRead (slot_addr wb l ptemplate i) l v | i v. i < MAX_ATTRS \<and> of_nat i < count}"

lemma walk_types_loop_reads:
  "i + n \<le> MAX_ATTRS \<Longrightarrow> logs (walk_types_loop wb t l p count n i out) (\<lambda>_. types_private wb l p count)"
proof (induction n arbitrary: i out)
  case 0
  show ?case by (simp add: logs_return types_private_def)
next
  case (Suc n)
  have rest: "logs (walk_types_loop wb t l p count n (Suc i) o') (\<lambda>_ B. types_private wb l p count ({WordRead (slot_addr wb l p i) l v} \<union> B))"
    if "of_nat i < count" for o' v
    using Suc.prems that by (intro logs_conseq[OF Suc.IH]) (auto simp: types_private_def)
  have last: "types_private wb l p count {WordRead (slot_addr wb l p i) l v}" if "of_nat i < count" for v
    using Suc.prems that by (auto simp: types_private_def)
  show ?case using rest last template_slotD[of wb l p i]
    by (auto intro!: logs_bind[OF logs_word] logs_return simp: types_private_def[of _ _ _ _ "{}"] not_le split: option.split)
qed

text \<open>The reads a parameter decode is allowed: length and pointer of the mechanism, and
  then the three scalars of the block, counted in target words, for the exact length that
  was read.\<close>

definition params_private :: "(LinuxLayout \<Rightarrow> u64) \<Rightarrow> LinuxLayout \<Rightarrow> u64 \<Rightarrow> u32 \<Rightarrow> read_event set \<Rightarrow> bool" where
  "params_private wb l pmech sh A \<longleftrightarrow>
     (\<exists>len p ks. A \<subseteq> {WordRead (pmech + wb l * 2) l len} \<union> {WordRead (pmech + wb l) l p}
          \<union> {WordRead (q + k * wb l) l v | q k v. p = Some q \<and> k \<in> ks}
        \<and> (ks = {} \<or> sh = shape_RSA_PKCS_PSS \<and> len = Some (wb l * 3) \<and> ks = {0, 1, 2}
           \<or> sh = shape_GCM \<and> len = Some (wb l * 5) \<and> ks = {1, 3, 4} \<or> sh = shape_GCM \<and> len = Some (wb l * 6) \<and> ks = {1, 4, 5}))"

lemma params_read_reads:
  "logs (params_read t l q (o0, o1, o2, sh) out) (\<lambda>_ A. A \<subseteq> {WordRead (q + k) l v | k v. k \<in> {o0, o1, o2}})"
  unfolding params_read_def prod.case
  by (auto intro!: logs_return logs_bind[OF logs_word] split: option.split dest: checked_addD)

lemma decode_params_reads: "logs (decode_params_impl wb t l pmech sh out) (\<lambda>_. params_private wb l pmech sh)"
proof (cases "checked_add pmech (wb l * 2)")
  case None
  have "params_private wb l pmech sh {}"
    unfolding params_private_def by (rule exI[of _ None], rule exI[of _ None], rule exI[of _ "{}"]) simp
  then show ?thesis using None by (simp add: decode_params_impl_def logs_return)
next
  case a: (Some a)
  note a' = checked_addD[OF a]
  have none: "params_private wb l pmech sh {WordRead a l len}" for len
    unfolding params_private_def a' by (rule exI[of _ len], rule exI[of _ None], rule exI[of _ "{}"]) simp
  have two: "params_private wb l pmech sh {WordRead a l len, WordRead (pmech + wb l) l p}" for len p
    unfolding params_private_def a' by (rule exI[of _ len], rule exI[of _ p], rule exI[of _ "{}"]) simp
  have block: "logs (params_read t l q offs out) (\<lambda>_ B. params_private wb l pmech sh ({WordRead a l (Some len)} \<union> ({WordRead (pmech + wb l) l (Some q)} \<union> B)))"
    if f: "params_fields (wb l) sh len = Some offs" for q len offs
  proof -
    obtain o0 o1 o2 out_sh where offs: "offs = (o0, o1, o2, out_sh)" by (cases offs)
    obtain ks where ks: "{o0, o1, o2} = (\<lambda>k. k * wb l) ` ks"
      "sh = shape_RSA_PKCS_PSS \<and> len = wb l * 3 \<and> ks = {0, 1, 2} \<or> sh = shape_GCM \<and> len = wb l * 5 \<and> ks = {1, 3, 4}
       \<or> sh = shape_GCM \<and> len = wb l * 6 \<and> ks = {1, 4, 5}"
      using f that[of "{0, 1, 2}"] that[of "{1, 3, 4}"] that[of "{1, 4, 5}"]
      unfolding offs params_fields_def by (auto split: if_splits simp: mult.commute)
    show ?thesis unfolding offs
    proof (rule logs_conseq[OF params_read_reads])
      fix x B assume B: "B \<subseteq> {WordRead (q + k) l v | k v. k \<in> {o0, o1, o2}}"
      then have sub: "B \<subseteq> {WordRead (q + k * wb l) l v | k v. k \<in> ks}" unfolding ks(1) by blast
      show "params_private wb l pmech sh ({WordRead a l (Some len)} \<union> ({WordRead (pmech + wb l) l (Some q)} \<union> B))"
        unfolding params_private_def a'
        by (rule exI[of _ "Some len"], rule exI[of _ "Some q"], rule exI[of _ ks])
          (use sub ks(2) in blast)
    qed
  qed
  show ?thesis unfolding decode_params_impl_def a option.case
    by (rule logs_bind[OF logs_word])
      (auto intro!: logs_return logs_bind[OF logs_word] block[unfolded insert_is_Un[symmetric]] none two dest!: checked_addD split: option.split
        simp: Un_commute[of "{WordRead a l _}"])
qed

section \<open>Properties\<close>

text \<open>C35: The diagnostic metadata readers stay within what they are allowed to read,
  whatever the observed process answers. A template walk reads the type words of at most
  eight announced entries, pointer and length only of entries whose type is on the
  boolean allowlist, and one byte only where such an entry states the length one; the
  types-only walk reads type words alone; and a parameter decode reads, besides the length
  and the pointer of the mechanism, only the three scalar words of a block whose exact
  length it has read, so that the pointers inside a GCM block are never read.\<close>
theorem metadata_reads_private:
  "logs (walk_template_impl wb bits t l ptemplate count out) (\<lambda>_. walk_private wb bits l ptemplate count)
   \<and> logs (walk_template_types wb t l ptemplate count out') (\<lambda>_. types_private wb l ptemplate count)
   \<and> logs (decode_params_impl wb t l pmech sh out'') (\<lambda>_. params_private wb l pmech sh)"
  unfolding walk_template_impl_def walk_template_types_def
  by (intro conjI walk_template_loop_reads walk_types_loop_reads decode_params_reads) simp_all

end
