(* ===== verification/P11_Call.thy ===== *)
theory P11_Call
  imports P11_Probes P11_Owner P11_Metadata
begin

text \<open>
  The call probes of \<^verbatim>\<open>crates/ebpf/src/main.rs\<close> in the Detailed build: \<^verbatim>\<open>p11_entry\<close> records a
  PKCS#11 call under its START key, \<^verbatim>\<open>p11_return\<close> pairs it, keeps the statistics and
  submits the event. A probe runs over the state \<open>call_state\<close>: the cells shared with the
  other probes (evidence, stop gate), the custody object of \<^verbatim>\<open>native/task_owner.c\<close>, the
  log of target accesses, the statistics and the event ring. The environment \<open>call_env\<close>
  answers for the kernel, the observed process, the frozen maps and the continuity
  object \<^verbatim>\<open>native/instance_epoch.c\<close>. Journal, counter and birth-marker builds are not part
  of this theory; the diagnostic build is the switch \<open>ce_metadata\<close>.
\<close>

section \<open>Environment and state\<close>

record SlotStats =
  ss_entered :: u64
  ss_returned :: u64
  ss_errors :: u64
  ss_total_ns :: u64
  ss_max_ns :: u64
  ss_buckets :: "u64 list"

datatype call_record =
    EventRecord Event InstanceContinuity
  | ObjectEventRecord Event InstanceContinuity ObjectCallWire

text \<open>Kernel helpers and scope maps are \<open>ce_k\<close>, the probe context is \<open>ce_ctx\<close>, the answers
  for the custody object are \<open>ce_own\<close>. Then the maps userspace froze, the identity of the
  current image, the continuity the return half reports, what a fresh reservation
  contains, and how the RV map behaves: whether it is full and what another program
  inserted between the lookup and the insertion.\<close>

record call_env =
  ce_k :: kenv
  ce_ctx :: pctx
  ce_own :: oenv
  ce_target :: target
  ce_bpf :: bool
  ce_wired :: bool
  ce_metadata :: bool
  ce_descriptors :: "SlotSemantics list"
  ce_mech_shape :: "u64 \<Rightarrow> u32 option"
  ce_async_functions :: "FunctionNameKey \<Rightarrow> u32 option"
  ce_attr_bits :: "u32 \<Rightarrow> u32 option"
  ce_identity :: "ImageIdentity option"
  ce_cgroup_id :: u64
  ce_root_tag :: u64
  ce_continuity :: InstanceContinuity
  ce_reserved :: "Event \<times> ObjectCallWire"
  ce_rv_full :: bool
  ce_rv_race :: "u64 option"

record call_state =
  ca_k :: kstate
  ca_own :: ostate
  ca_log :: read_log
  ca_stats :: "u32 \<Rightarrow> SlotStats"
  ca_rv :: "u32 \<times> u64 \<Rightarrow> u64 option"
  ca_faults :: nat
  ca_events :: "call_record list"

type_synonym 'a call = "(call_state, 'a) state"

definition zoom :: "('s \<Rightarrow> 't) \<Rightarrow> (('t \<Rightarrow> 't) \<Rightarrow> 's \<Rightarrow> 's) \<Rightarrow> ('t, 'a) state \<Rightarrow> ('s, 'a) state" where
  "zoom part update m = State (\<lambda>s. case run_state m (part s) of (x, t) \<Rightarrow> (x, update (\<lambda>_. t) s))"

abbreviation kernel :: "'a k \<Rightarrow> 'a call" where "kernel \<equiv> zoom ca_k ca_k_update"
abbreviation native :: "'a own \<Rightarrow> 'a call" where "native \<equiv> zoom ca_own ca_own_update"
abbreviation reading :: "'a rd \<Rightarrow> 'a call" where "reading \<equiv> zoom ca_log ca_log_update"

definition cget :: "(call_state \<Rightarrow> 'a) \<Rightarrow> 'a call" where
  "cget f = State (\<lambda>s. (f s, s))"

definition cput :: "(call_state \<Rightarrow> call_state) \<Rightarrow> unit call" where
  "cput f = State (\<lambda>s. ((), f s))"

abbreviation (input) EVIDENCE_RING_LOSS :: nat where "EVIDENCE_RING_LOSS \<equiv> 0"
abbreviation (input) EVIDENCE_START_INSERT_FAILURES :: nat where "EVIDENCE_START_INSERT_FAILURES \<equiv> 1"
abbreviation (input) EVIDENCE_UNMATCHED_RETURNS :: nat where "EVIDENCE_UNMATCHED_RETURNS \<equiv> 2"
abbreviation (input) EVIDENCE_RV_UPDATE_FAILURES :: nat where "EVIDENCE_RV_UPDATE_FAILURES \<equiv> 3"
abbreviation (input) EVIDENCE_SEMANTIC_CAPTURE_FAILURES :: nat where "EVIDENCE_SEMANTIC_CAPTURE_FAILURES \<equiv> 5"
abbreviation (input) EVIDENCE_TEMPLATE_TAIL_FAILURES :: nat where "EVIDENCE_TEMPLATE_TAIL_FAILURES \<equiv> 6"
abbreviation (input) EVIDENCE_UNREGISTERED_MECHANISMS :: nat where "EVIDENCE_UNREGISTERED_MECHANISMS \<equiv> 7"

abbreviation evidence_add :: "nat \<Rightarrow> unit call" where
  "evidence_add index \<equiv> kernel (bump_evidence index)"

text \<open>\<^verbatim>\<open>p11_object_fault\<close> advances the checked fault cell.\<close>

definition object_fault :: "unit call" where
  "object_fault = cput (\<lambda>s. s\<lparr>ca_faults := ca_faults s + 1\<rparr>)"

abbreviation slot_of_call :: "call_env \<Rightarrow> u32" where
  "slot_of_call env \<equiv> cookie_slot (cookie_of (ce_ctx env))"

abbreviation (input) MAX_SLOTS :: u32 where "MAX_SLOTS \<equiv> 512"

definition start_key :: "call_env \<Rightarrow> owner_start_key" where
  "start_key env = \<lparr>sk_pid = cur_pid_tgid (ce_ctx env), sk_slot = slot_of_call env, sk_pad = 0\<rparr>"

definition semantics_of :: "call_env \<Rightarrow> SlotSemantics" where
  "semantics_of env =
     (let d = cookie_descriptor (cookie_of (ce_ctx env)) in
      if unat d < length (ce_descriptors env) then ce_descriptors env ! unat d else COUNT_ONLY)"

text \<open>The scope receipt, with the health the custody object reports.\<close>

definition scope_flags_word :: "call_env \<Rightarrow> u64 call" where
  "scope_flags_word env = do {
     healthy \<leftarrow> native (p11_owner_healthy (ce_own env));
     receipt \<leftarrow> kernel (scope_auth ((ce_k env)\<lparr>owner_healthy := \<lambda>_. healthy\<rparr>) (ce_ctx env));
     State_Monad.return (case receipt of Some scope \<Rightarrow> sa_flags scope | None \<Rightarrow> 0) }"

definition scope_flags :: "call_env \<Rightarrow> u64 option call" where
  "scope_flags env = do {
     flags \<leftarrow> scope_flags_word env;
     State_Monad.return (if flags \<noteq> 0 then Some flags else None) }"

abbreviation wb_of :: "call_env \<Rightarrow> LinuxLayout \<Rightarrow> u64" where "wb_of env \<equiv> word_bytes (ce_k env)"
abbreviation rows_of_env :: "call_env \<Rightarrow> ObjectDescriptorWire list" where "rows_of_env env \<equiv> object_rows (ce_own env)"

section \<open>Entry: scalars\<close>

abbreviation (input) capture_ARG_READ_FAILURE :: u32 where "capture_ARG_READ_FAILURE \<equiv> 0x10"
abbreviation (input) capture_ASYNC_SESSION :: u32 where "capture_ASYNC_SESSION \<equiv> 0x20"
abbreviation (input) capture_ASYNC_VALUE_UNREADABLE :: u32 where "capture_ASYNC_VALUE_UNREADABLE \<equiv> 0x40"
abbreviation (input) capture_MECHANISM_UNREGISTERED :: u32 where "capture_MECHANISM_UNREGISTERED \<equiv> 0x80"
abbreviation (input) MECHANISM_MASK :: u32 where "MECHANISM_MASK \<equiv> 3"
abbreviation (input) MECHANISM_NONE :: u32 where "MECHANISM_NONE \<equiv> 0"
abbreviation (input) MECHANISM_NULL :: u32 where "MECHANISM_NULL \<equiv> 1"
abbreviation (input) MECHANISM_UNREADABLE :: u32 where "MECHANISM_UNREADABLE \<equiv> 2"
abbreviation (input) OUTPUT_NONE :: u32 where "OUTPUT_NONE \<equiv> 0"
abbreviation (input) OUTPUT_NULL :: u32 where "OUTPUT_NULL \<equiv> 4"
abbreviation (input) OUTPUT_UNREADABLE :: u32 where "OUTPUT_UNREADABLE \<equiv> 0xC"
abbreviation (input) lifecycle_OPEN_SESSION :: u8 where "lifecycle_OPEN_SESSION \<equiv> 1"
abbreviation (input) lifecycle_ASYNC_GET_ID :: u8 where "lifecycle_ASYNC_GET_ID \<equiv> 12"
abbreviation (input) lifecycle_ASYNC_JOIN :: u8 where "lifecycle_ASYNC_JOIN \<equiv> 13"
abbreviation (input) NULL_MECHANISM_CANCEL :: u8 where "NULL_MECHANISM_CANCEL \<equiv> 1"
abbreviation (input) MECH_NONE :: u64 where "MECH_NONE \<equiv> 0xFFFFFFFFFFFFFFFF"
abbreviation (input) SESSION_NONE :: u64 where "SESSION_NONE \<equiv> 0xFFFFFFFFFFFFFFFF"

definition capture_failure :: "CallStart \<Rightarrow> CallStart call" where
  "capture_failure start = do {
     evidence_add EVIDENCE_SEMANTIC_CAPTURE_FAILURES;
     State_Monad.return (start\<lparr>cs_capture := cs_capture start OR capture_ARG_READ_FAILURE\<rparr>) }"

definition capture_scalar :: "call_env \<Rightarrow> u8 \<Rightarrow> CallStart \<Rightarrow> (u64 option \<times> CallStart) call" where
  "capture_scalar env index start =
     (if index = ARG_NONE then State_Monad.return (None, start)
      else do {
        word \<leftarrow> reading (fetch_arg (ce_target env) index);
        case word of
          Some w \<Rightarrow> State_Monad.return (Some w, start)
        | None \<Rightarrow> do { start \<leftarrow> capture_failure start; State_Monad.return (None, start) } })"

definition capture_into :: "call_env \<Rightarrow> u8 \<Rightarrow> (u64 \<Rightarrow> CallStart \<Rightarrow> CallStart) \<Rightarrow> CallStart \<Rightarrow> CallStart call" where
  "capture_into env index store start = do {
     (word, start) \<leftarrow> capture_scalar env index start;
     State_Monad.return (case word of Some w \<Rightarrow> store w start | None \<Rightarrow> start) }"

definition fresh_call :: "CallStart \<Rightarrow> CallStart" where
  "fresh_call start = start\<lparr>cs_session := SESSION_NONE, cs_mechanism := MECH_NONE, cs_user_type := USER_TYPE_NONE,
     cs_shape := shape_NONE, cs_capture := MECHANISM_NONE OR OUTPUT_NONE, cs_target_function := FUNCTION_NONE\<rparr>"

definition entry_flags :: "SlotSemantics \<Rightarrow> u64 \<Rightarrow> CallStart \<Rightarrow> CallStart" where
  "entry_flags semantics flags start =
     (let start = start\<lparr>cs_flags := flags\<rparr> in
      if lifecycle semantics = lifecycle_OPEN_SESSION \<and> flags AND 8 \<noteq> 0
      then start\<lparr>cs_capture := cs_capture start OR capture_ASYNC_SESSION\<rparr> else start)"

definition entry_scalars :: "call_env \<Rightarrow> SlotSemantics \<Rightarrow> CallStart \<Rightarrow> CallStart call" where
  "entry_scalars env semantics start = do {
     start \<leftarrow> capture_into env (session_arg semantics) (\<lambda>w start. start\<lparr>cs_session := w\<rparr>) start;
     start \<leftarrow> capture_into env (slot_arg semantics) (\<lambda>w start. start\<lparr>cs_slot_id := w\<rparr>) start;
     start \<leftarrow> capture_into env (flags_arg semantics) (entry_flags semantics) start;
     capture_into env (user_type_arg semantics) (\<lambda>w start. start\<lparr>cs_user_type := finite_login_user_type w\<rparr>) start }"

definition mechanism_state :: "u32 \<Rightarrow> CallStart \<Rightarrow> CallStart" where
  "mechanism_state bits start = start\<lparr>cs_capture := (cs_capture start AND NOT MECHANISM_MASK) OR bits\<rparr>"

definition output_state :: "u32 \<Rightarrow> CallStart \<Rightarrow> CallStart" where
  "output_state bits start = start\<lparr>cs_capture := (cs_capture start AND NOT OUTPUT_MASK) OR bits\<rparr>"

section \<open>Entry: metadata of the diagnostic build\<close>

definition entry_params :: "call_env \<Rightarrow> LinuxLayout \<Rightarrow> u64 \<Rightarrow> u32 \<Rightarrow> CallStart \<Rightarrow> CallStart call" where
  "entry_params env l pointer parameter_shape start = do {
     (out, decoded) \<leftarrow> reading (p11_decode_params (wb_of env) (ce_target env) pointer parameter_shape (ucast (wb_of env l))
        \<lparr>po_p0 = cs_p0 start, po_p1 = cs_p1 start, po_p2 = cs_p2 start\<rparr>);
     let start = start\<lparr>cs_p0 := po_p0 out, cs_p1 := po_p1 out, cs_p2 := po_p2 out\<rparr>;
     if decoded \<in> {shape_RSA_PKCS_PSS, shape_GCM_V220, shape_GCM_V240} then State_Monad.return (start\<lparr>cs_shape := decoded\<rparr>)
     else if decoded = shape_NONE then State_Monad.return start
     else capture_failure start }"

definition entry_mechanism_value :: "call_env \<Rightarrow> LinuxLayout \<Rightarrow> u64 \<Rightarrow> CallStart \<Rightarrow> CallStart call" where
  "entry_mechanism_value env l pointer start = do {
     word \<leftarrow> reading (read_word (ce_target env) pointer l);
     case word of
       None \<Rightarrow> capture_failure (mechanism_state MECHANISM_UNREADABLE start)
     | Some w \<Rightarrow> do {
         let start = mechanism_state MECHANISM_VALUE (start\<lparr>cs_mechanism := w\<rparr>);
         let start = (if ce_mech_shape env w = None
                      then start\<lparr>cs_capture := cs_capture start OR capture_MECHANISM_UNREGISTERED\<rparr> else start);
         case ce_mech_shape env w of
           None \<Rightarrow> State_Monad.return start
         | Some parameter_shape \<Rightarrow>
             if parameter_shape \<noteq> shape_NONE then entry_params env l pointer parameter_shape start
             else State_Monad.return start } }"

text \<open>The template region of a START row as the walkers see it: the first or the second.\<close>

definition template_region :: "bool \<Rightarrow> CallStart \<Rightarrow> TemplateOutput" where
  "template_region second start =
     (if second
      then \<lparr>to_types = cs_attr_types1 start, to_count = cs_attr_count1 start, to_total = cs_attr_total1 start,
            to_bools = cs_attr_bools1 start, to_seen = cs_attr_bools_seen1 start\<rparr>
      else \<lparr>to_types = cs_attr_types start, to_count = cs_attr_count start, to_total = cs_attr_total start,
            to_bools = cs_attr_bools start, to_seen = cs_attr_bools_seen start\<rparr>)"

definition set_template_region :: "bool \<Rightarrow> TemplateOutput \<Rightarrow> CallStart \<Rightarrow> CallStart" where
  "set_template_region second out start =
     (if second
      then start\<lparr>cs_attr_types1 := to_types out, cs_attr_count1 := to_count out, cs_attr_total1 := to_total out,
                 cs_attr_bools1 := to_bools out, cs_attr_bools_seen1 := to_seen out\<rparr>
      else start\<lparr>cs_attr_types := to_types out, cs_attr_count := to_count out, cs_attr_total := to_total out,
                 cs_attr_bools := to_bools out, cs_attr_bools_seen := to_seen out\<rparr>)"

definition walk_template :: "call_env \<Rightarrow> bool \<Rightarrow> bool \<Rightarrow> u64 \<Rightarrow> u64 \<Rightarrow> LinuxLayout \<Rightarrow> CallStart \<Rightarrow> CallStart call" where
  "walk_template env types_only second ptemplate count l start = do {
     let bytes = ucast (wb_of env l);
     (out, status) \<leftarrow> reading
       (if types_only then p11_walk_template_types (wb_of env) (ce_target env) ptemplate count bytes (template_region second start)
        else p11_walk_template (wb_of env) (ce_attr_bits env) (ce_target env) ptemplate count bytes (template_region second start));
     let start = set_template_region second out start;
     if status \<noteq> 0 then capture_failure start else State_Monad.return start }"

text \<open>Template pointer and count are captured one after the other; the walk runs when
  both were read.\<close>

definition capture_template :: "call_env \<Rightarrow> bool \<Rightarrow> bool \<Rightarrow> u8 \<Rightarrow> u8 \<Rightarrow> LinuxLayout \<Rightarrow> CallStart \<Rightarrow> CallStart call" where
  "capture_template env types_only second template_arg count_arg l start = do {
     (template, start) \<leftarrow> capture_scalar env template_arg start;
     case template of
       None \<Rightarrow> State_Monad.return start
     | Some template \<Rightarrow> do {
         (count, start) \<leftarrow> capture_scalar env count_arg start;
         case count of
           None \<Rightarrow> State_Monad.return start
         | Some count \<Rightarrow> walk_template env types_only second template count l start } }"

section \<open>Entry: mechanism, output and asynchronous calls\<close>

definition entry_mechanism :: "call_env \<Rightarrow> u64 \<Rightarrow> LinuxLayout \<Rightarrow> SlotSemantics \<Rightarrow> CallStart \<Rightarrow> CallStart call" where
  "entry_mechanism env flags l semantics start =
     (if mechanism_arg semantics = ARG_NONE then State_Monad.return start
      else do {
        (word, start) \<leftarrow> capture_scalar env (mechanism_arg semantics) start;
        case word of
          None \<Rightarrow> State_Monad.return (mechanism_state MECHANISM_UNREADABLE start)
        | Some pointer \<Rightarrow>
            if pointer = 0 then State_Monad.return (mechanism_state MECHANISM_NULL start)
            else do {
              let start = start\<lparr>cs_mechanism_ptr := pointer\<rparr>;
              if ce_metadata env \<and> flags AND FLAG_POLICY_UNSAFE_UNVALIDATED_METADATA \<noteq> 0
              then entry_mechanism_value env l pointer start
              else State_Monad.return start } })"

definition entry_output :: "call_env \<Rightarrow> SlotSemantics \<Rightarrow> CallStart \<Rightarrow> CallStart call" where
  "entry_output env semantics start =
     (if output_arg semantics = ARG_NONE then State_Monad.return start
      else do {
        (word, start) \<leftarrow> capture_scalar env (output_arg semantics) start;
        State_Monad.return (case word of
          None \<Rightarrow> output_state OUTPUT_UNREADABLE start
        | Some pointer \<Rightarrow>
            let start = output_state (if pointer = 0 then OUTPUT_NULL else OUTPUT_NON_NULL) start in
            if lifecycle semantics = lifecycle_OPEN_SESSION then start\<lparr>cs_out_ptr := pointer\<rparr> else start) })"

definition entry_templates :: "call_env \<Rightarrow> nat \<Rightarrow> u64 \<Rightarrow> LinuxLayout \<Rightarrow> SlotSemantics \<Rightarrow> CallStart \<Rightarrow> CallStart call" where
  "entry_templates env template_mode flags l semantics start =
     (if ce_metadata env \<and> flags AND FLAG_POLICY_UNSAFE_UNVALIDATED_METADATA \<noteq> 0 \<and> template_mode \<noteq> 0
         \<and> template0_arg semantics \<noteq> ARG_NONE
      then capture_template env (template_mode = 2) False (template0_arg semantics) (template_count0_arg semantics) l start
      else State_Monad.return start)"

text \<open>One bounded string read; the copied bytes are those before the terminator.\<close>

definition read_name :: "call_env \<Rightarrow> u64 \<Rightarrow> (int \<times> u8 list) call" where
  "read_name env pointer = do {
     (rc, bytes) \<leftarrow> kernel (ask (\<lambda>t. user_str (ce_k env) t pointer (FUNCTION_NAME_MAX_BYTES + 2)));
     reading (State (\<lambda>log. ((), BytesRead pointer (FUNCTION_NAME_MAX_BYTES + 2) (if rc \<le> 0 then None else Some (take (nat rc) bytes)) # log)));
     State_Monad.return (rc, bytes) }"

definition name_key :: "nat \<Rightarrow> u8 list \<Rightarrow> FunctionNameKey" where
  "name_key len bytes = \<lparr>fnk_len = of_nat len, fnk_bytes = map (\<lambda>i. if i < len then bytes ! i else 0) [0..<FUNCTION_NAME_MAX_BYTES] @ [0]\<rparr>"

definition capture_async_target :: "call_env \<Rightarrow> u64 \<Rightarrow> CallStart \<Rightarrow> CallStart call" where
  "capture_async_target env pointer start =
     (if pointer = 0 then capture_failure start
      else do {
        (rc, bytes) \<leftarrow> read_name env pointer;
        if rc \<le> 0 \<or> rc > int (FUNCTION_NAME_MAX_BYTES + 1) then capture_failure start
        else case ce_async_functions env (name_key (nat (rc - 1)) bytes) of
          Some ordinal \<Rightarrow> State_Monad.return (start\<lparr>cs_target_function := ordinal\<rparr>)
        | None \<Rightarrow> capture_failure start })"

definition entry_async_value :: "call_env \<Rightarrow> SlotSemantics \<Rightarrow> CallStart \<Rightarrow> CallStart call" where
  "entry_async_value env semantics start =
     (if lifecycle semantics = lifecycle_ASYNC_JOIN then do {
        (word, start) \<leftarrow> capture_scalar env (async_value_arg semantics) start;
        State_Monad.return (case word of
          Some w \<Rightarrow> start\<lparr>cs_async_value := w\<rparr>
        | None \<Rightarrow> start\<lparr>cs_capture := cs_capture start OR capture_ASYNC_VALUE_UNREADABLE\<rparr>) }
      else if lifecycle semantics = lifecycle_ASYNC_GET_ID
      then capture_into env (async_value_arg semantics) (\<lambda>w start. start\<lparr>cs_out_ptr := w\<rparr>) start
      else State_Monad.return start)"

definition entry_async :: "call_env \<Rightarrow> nat \<Rightarrow> SlotSemantics \<Rightarrow> CallStart \<Rightarrow> CallStart call" where
  "entry_async env template_mode semantics start =
     (if template_mode = 0 \<and> async_name_arg semantics \<noteq> ARG_NONE then do {
        (word, start) \<leftarrow> capture_scalar env (async_name_arg semantics) start;
        start \<leftarrow> (case word of Some pointer \<Rightarrow> capture_async_target env pointer start | None \<Rightarrow> State_Monad.return start);
        entry_async_value env semantics start }
      else State_Monad.return start)"

text \<open>The writes into the fresh START row, all of which happen while the task holds it.\<close>

definition capture_call :: "call_env \<Rightarrow> nat \<Rightarrow> u64 \<Rightarrow> LinuxLayout \<Rightarrow> CallStart \<Rightarrow> CallStart call" where
  "capture_call env template_mode flags l start = do {
     let semantics = semantics_of env;
     start \<leftarrow> entry_scalars env semantics (fresh_call start);
     start \<leftarrow> entry_mechanism env flags l semantics start;
     start \<leftarrow> entry_output env semantics start;
     start \<leftarrow> entry_templates env template_mode flags l semantics start;
     entry_async env template_mode semantics start }"

section \<open>Entry: the side row\<close>

definition side_store :: "owner_start_key \<Rightarrow> ObjectStart option \<Rightarrow> unit own" where
  "side_store key side = (case side of None \<Rightarrow> State_Monad.return () | Some s \<Rightarrow> object_put key s)"

definition side_step ::
  "call_env \<Rightarrow> owner_start_key \<Rightarrow> u32 \<Rightarrow> bool \<Rightarrow> (ObjectStart option \<Rightarrow> (ObjectStart option \<times> bool) rd) \<Rightarrow> bool call" where
  "side_step env key descriptor required adapter = do {
     side \<leftarrow> native (p11_object_side_get (ce_own env) key descriptor required);
     (side, ok) \<leftarrow> reading (adapter side);
     native (side_store key side);
     State_Monad.return ok }"

text \<open>The entry adapters in the order of the probe, each on a freshly queried row.\<close>

definition entry_adapters ::
  "call_env \<Rightarrow> LinuxLayout \<Rightarrow> u32 \<Rightarrow> bool \<Rightarrow> (ObjectStart option \<Rightarrow> (ObjectStart option \<times> bool) rd) list" where
  "entry_adapters env l entry_capture null_cancel =
     (let rows = rows_of_env env; t = ce_target env; wb = wb_of env; rsp = regs_rsp (ce_ctx env) in
      [\<lambda>side. State_Monad.return (object_record_entry_abi side l),
       \<lambda>side. object_fill_entry rows t side l null_cancel,
       \<lambda>side. object_entry_derive rows t side l,
       \<lambda>side. object_entry_results rows t side l rsp,
       \<lambda>side. object_entry_kem rows wb (ce_wired env) t side l rsp entry_capture null_cancel,
       \<lambda>side. object_entry_find rows t side,
       \<lambda>side. object_entry_attributes rows (ce_bpf env) wb (ce_wired env) t side l])"

fun run_adapters ::
  "call_env \<Rightarrow> owner_start_key \<Rightarrow> u32 \<Rightarrow> (ObjectStart option \<Rightarrow> (ObjectStart option \<times> bool) rd) list \<Rightarrow> bool call" where
  "run_adapters env key descriptor [] = State_Monad.return True"
| "run_adapters env key descriptor (adapter # adapters) = do {
     ok \<leftarrow> side_step env key descriptor False adapter;
     if ok then run_adapters env key descriptor adapters else State_Monad.return False }"

definition null_cancelled :: "call_env \<Rightarrow> u32 \<Rightarrow> bool" where
  "null_cancelled env entry_capture \<longleftrightarrow>
     semantic_flags (semantics_of env) AND NULL_MECHANISM_CANCEL \<noteq> 0 \<and> entry_capture AND MECHANISM_MASK = MECHANISM_NULL"

definition owned_start_remove :: "call_env \<Rightarrow> owner_start_key \<Rightarrow> bool \<Rightarrow> bool call" where
  "owned_start_remove env key required = do {
     rc \<leftarrow> native (p11_owner_start_remove (ce_own env) key required);
     State_Monad.return (rc = 0) }"

definition entry_object :: "call_env \<Rightarrow> owner_start_key \<Rightarrow> u64 \<Rightarrow> LinuxLayout \<Rightarrow> u32 \<Rightarrow> bool call" where
  "entry_object env key object_required l entry_capture = do {
     ok \<leftarrow> run_adapters env key (ucast (object_required - 1)) (entry_adapters env l entry_capture (null_cancelled env entry_capture));
     if ok then State_Monad.return True
     else do {
       _ \<leftarrow> owned_start_remove env key True;
       object_fault;
       evidence_add EVIDENCE_START_INSERT_FAILURES;
       State_Monad.return False } }"

section \<open>Entry\<close>

datatype entry_abi = ENTRY_ABI_MIXED | ENTRY_ABI_LP64 | ENTRY_ABI_ILP32

definition entry_layout :: "call_env \<Rightarrow> entry_abi \<Rightarrow> LinuxLayout option" where
  "entry_layout env abi =
     (case (probe_layout (ce_ctx env), abi) of
        (None, _) \<Rightarrow> None
      | (Some actual, ENTRY_ABI_LP64) \<Rightarrow> if actual = Lp64 then Some Lp64 else None
      | (Some actual, ENTRY_ABI_ILP32) \<Rightarrow> if actual = Ilp32 then Some Ilp32 else None
      | (Some actual, ENTRY_ABI_MIXED) \<Rightarrow> Some actual)"

definition count_entered :: "u32 \<Rightarrow> unit call" where
  "count_entered slot = cput (\<lambda>s. s\<lparr>ca_stats := (ca_stats s)(slot := (ca_stats s slot)\<lparr>ss_entered := ss_entered (ca_stats s slot) + 1\<rparr>)\<rparr>)"

definition record_aggregate_start :: "call_env \<Rightarrow> owner_start_key \<Rightarrow> unit call" where
  "record_aggregate_start env key = do {
     timestamp \<leftarrow> kernel (ask (ktime (ce_k env)));
     ok \<leftarrow> native (p11_owner_start_aggregate (ce_own env) key timestamp);
     if ok then State_Monad.return () else evidence_add EVIDENCE_START_INSERT_FAILURES }"

definition owned_start_discard :: "call_env \<Rightarrow> owner_start_key \<Rightarrow> unit call" where
  "owned_start_discard env key = do {
     rc \<leftarrow> native (p11_owner_start_remove (ce_own env) key False);
     if rc = 0 \<or> rc = - 2 then State_Monad.return () else object_fault }"

text \<open>The continuation of the template pair: the second template of the same call.\<close>

definition p11_entry_template_second_impl :: "call_env \<Rightarrow> unit call" where
  "p11_entry_template_second_impl env = do {
     scope \<leftarrow> scope_flags env;
     case scope of
       None \<Rightarrow> State_Monad.return ()
     | Some flags \<Rightarrow>
         if slot_of_call env \<ge> MAX_SLOTS \<or> flags AND FLAG_POLICY_UNSAFE_UNVALIDATED_METADATA = 0 then State_Monad.return ()
         else (case probe_layout (ce_ctx env) of
           None \<Rightarrow> do { owned_start_discard env (start_key env); evidence_add EVIDENCE_ABI_REFUSALS }
         | Some l \<Rightarrow> do {
             row \<leftarrow> native (p11_owner_start_get (ce_own env) (start_key env) True);
             case row of
               None \<Rightarrow> evidence_add EVIDENCE_TEMPLATE_TAIL_FAILURES
             | Some start \<Rightarrow> do {
                 start \<leftarrow> capture_template env False True (template1_arg (semantics_of env)) (template_count1_arg (semantics_of env)) l start;
                 native (start_put (start_key env) start) } }) }"

definition entry_call :: "call_env \<Rightarrow> nat \<Rightarrow> u64 \<Rightarrow> LinuxLayout \<Rightarrow> CallStart \<Rightarrow> unit call" where
  "entry_call env template_mode flags l row = do {
     let key = start_key env;
     start \<leftarrow> capture_call env template_mode flags l row;
     native (start_put key start);
     ok \<leftarrow> (if cs_object_required start \<noteq> 0
            then entry_object env key (cs_object_required start) l (cs_capture start)
            else State_Monad.return True);
     if ok \<and> ce_metadata env \<and> template_mode = 3 then do {
       jumped \<leftarrow> kernel (ask (tail_call_ok (ce_k env)));
       if jumped then p11_entry_template_second_impl env else evidence_add EVIDENCE_TEMPLATE_TAIL_FAILURES }
     else State_Monad.return () }"

definition p11_entry_impl :: "call_env \<Rightarrow> nat \<Rightarrow> entry_abi \<Rightarrow> unit call" where
  "p11_entry_impl env template_mode abi =
     (if slot_of_call env \<ge> MAX_SLOTS then State_Monad.return ()
      else do {
        scope \<leftarrow> scope_flags env;
        case scope of
          None \<Rightarrow> State_Monad.return ()
        | Some flags \<Rightarrow>
            (case entry_layout env abi of
               None \<Rightarrow> do { _ \<leftarrow> owned_start_remove env (start_key env) False; evidence_add EVIDENCE_ABI_REFUSALS }
             | Some l \<Rightarrow> do {
                 count_entered (slot_of_call env);
                 if flags AND FLAG_POLICY_AGGREGATE \<noteq> 0 then record_aggregate_start env (start_key env)
                 else do {
                   ts \<leftarrow> kernel (ask (ktime (ce_k env)));
                   case ce_identity env of
                     None \<Rightarrow> do { _ \<leftarrow> owned_start_remove env (start_key env) False; evidence_add EVIDENCE_SEMANTIC_CAPTURE_FAILURES }
                   | Some identity \<Rightarrow>
                       if task_cookie identity = 0
                       then do { _ \<leftarrow> owned_start_remove env (start_key env) False; evidence_add EVIDENCE_SEMANTIC_CAPTURE_FAILURES }
                       else do {
                         let marker = (if flags AND FLAG_POLICY_ALLOWLISTED \<noteq> 0
                                       then object_marker_for (rows_of_env env) (cookie_of (ce_ctx env)) else 0);
                         row \<leftarrow> native (p11_owner_start_begin (ce_own env) (start_key env)
                           \<lparr>seed_ts_ns = ts, seed_image = identity, seed_object_required = marker\<rparr>);
                         case row of
                           None \<Rightarrow> evidence_add EVIDENCE_START_INSERT_FAILURES
                         | Some row \<Rightarrow> entry_call env template_mode flags l row } } }) })"

definition admitted :: "call_env \<Rightarrow> unit call \<Rightarrow> unit call" where
  "admitted env body = do {
     ok \<leftarrow> kernel (stop_gate_enter (ce_k env));
     if \<not> ok then State_Monad.return () else do { body; kernel (stop_gate_leave (ce_k env)) } }"

definition p11_entry :: "call_env \<Rightarrow> nat \<Rightarrow> entry_abi \<Rightarrow> unit call" where
  "p11_entry env template_mode abi = admitted env (p11_entry_impl env template_mode abi)"

section \<open>Return: accounting\<close>

record ReturnAccounting =
  ra_now :: u64
  ra_delta :: u64
  ra_rv :: u64

text \<open>The three map operations of a completion count: the lookup, the insertion that
  fails when the row exists by then or the map is full, and the second lookup.\<close>

definition rv_count_add :: "call_env \<Rightarrow> u32 \<times> u64 \<Rightarrow> bool call" where
  "rv_count_add env key = do {
     cell \<leftarrow> cget (\<lambda>s. ca_rv s key);
     case cell of
       Some n \<Rightarrow> do { cput (\<lambda>s. s\<lparr>ca_rv := (ca_rv s)(key := Some (n + 1))\<rparr>); State_Monad.return True }
     | None \<Rightarrow>
         (case ce_rv_race env of
            Some n \<Rightarrow> do { cput (\<lambda>s. s\<lparr>ca_rv := (ca_rv s)(key := Some (n + 1))\<rparr>); State_Monad.return True }
          | None \<Rightarrow>
              if ce_rv_full env then State_Monad.return False
              else do { cput (\<lambda>s. s\<lparr>ca_rv := (ca_rv s)(key := Some 1)\<rparr>); State_Monad.return True }) }"

definition count_returned :: "u64 \<Rightarrow> u64 \<Rightarrow> SlotStats \<Rightarrow> SlotStats" where
  "count_returned delta rv stats =
     stats\<lparr>ss_returned := ss_returned stats + 1, ss_total_ns := ss_total_ns stats + delta,
           ss_max_ns := (if delta > ss_max_ns stats then delta else ss_max_ns stats),
           ss_buckets := (let b = bucket_of delta in
             if b < length (ss_buckets stats) then (ss_buckets stats)[b := ss_buckets stats ! b + 1] else ss_buckets stats),
           ss_errors := (if rv \<noteq> 0 \<and> rv \<noteq> 0x204 then ss_errors stats + 1 else ss_errors stats)\<rparr>"

definition account_return :: "call_env \<Rightarrow> u32 \<Rightarrow> u64 \<Rightarrow> LinuxLayout \<Rightarrow> ReturnAccounting call" where
  "account_return env slot entry_ns l = do {
     now \<leftarrow> kernel (ask (ktime (ce_k env)));
     let delta = saturating_sub now entry_ns;
     let rv = normalize_target_word (ret_value (ce_ctx env)) l;
     cput (\<lambda>s. s\<lparr>ca_stats := (ca_stats s)(slot := count_returned delta rv (ca_stats s slot))\<rparr>);
     counted \<leftarrow> rv_count_add env (slot, rv);
     (if counted then State_Monad.return () else evidence_add EVIDENCE_RV_UPDATE_FAILURES);
     State_Monad.return \<lparr>ra_now = now, ra_delta = delta, ra_rv = rv\<rparr> }"

section \<open>Return: facts\<close>

definition async_get_id_fact :: "call_env \<Rightarrow> u64 \<Rightarrow> u64 \<Rightarrow> u8 \<Rightarrow> LinuxLayout \<Rightarrow> u64 \<Rightarrow> (u64 \<times> u32) call" where
  "async_get_id_fact env out_ptr rv cycle l out =
     (if rv \<noteq> 0 \<or> cycle \<noteq> lifecycle_ASYNC_GET_ID then State_Monad.return (out, 0)
      else if out_ptr = 0
      then do { evidence_add EVIDENCE_SEMANTIC_CAPTURE_FAILURES; State_Monad.return (out, capture_ASYNC_VALUE_UNREADABLE) }
      else do {
        word \<leftarrow> reading (read_word (ce_target env) out_ptr l);
        case word of
          Some w \<Rightarrow> State_Monad.return (w, 0)
        | None \<Rightarrow> do { evidence_add EVIDENCE_SEMANTIC_CAPTURE_FAILURES; State_Monad.return (out, capture_ASYNC_VALUE_UNREADABLE) } })"

definition return_mechanism :: "call_env \<Rightarrow> CallStart \<Rightarrow> u64 \<Rightarrow> LinuxLayout \<Rightarrow> u64 \<Rightarrow> (u64 \<times> u32) call" where
  "return_mechanism env start flags l rv =
     (if flags AND FLAG_POLICY_ALLOWLISTED \<noteq> 0 \<and> return_allows_mechanism rv \<and> cs_mechanism_ptr start \<noteq> 0 then do {
        word \<leftarrow> reading (read_word (ce_target env) (cs_mechanism_ptr start) l);
        case word of
          Some w \<Rightarrow> do {
            let member = ce_mech_shape env w \<noteq> None;
            (if member then State_Monad.return () else evidence_add EVIDENCE_UNREGISTERED_MECHANISMS);
            State_Monad.return
              (if member \<or> w \<le> 0xFFFFFFFF
               then (w, (cs_capture start AND NOT MECHANISM_MASK) OR MECHANISM_VALUE OR (if member then 0 else capture_MECHANISM_UNREGISTERED))
               else (cs_mechanism start, cs_capture start)) }
        | None \<Rightarrow> do {
            evidence_add EVIDENCE_SEMANTIC_CAPTURE_FAILURES;
            State_Monad.return (cs_mechanism start,
              (cs_capture start AND NOT MECHANISM_MASK) OR MECHANISM_UNREADABLE OR capture_ARG_READ_FAILURE) } }
      else State_Monad.return (cs_mechanism start, cs_capture start))"

definition return_session :: "call_env \<Rightarrow> CallStart \<Rightarrow> LinuxLayout \<Rightarrow> u64 \<Rightarrow> u64 call" where
  "return_session env start l rv =
     (if lifecycle (semantics_of env) = lifecycle_OPEN_SESSION \<and> cs_out_ptr start \<noteq> 0 \<and> (rv = 0 \<or> rv = 0x204) then do {
        word \<leftarrow> reading (read_word (ce_target env) (cs_out_ptr start) l);
        case word of
          Some w \<Rightarrow> State_Monad.return w
        | None \<Rightarrow> do { evidence_add EVIDENCE_SEMANTIC_CAPTURE_FAILURES; State_Monad.return (cs_session start) } }
      else State_Monad.return (cs_session start))"

definition capture_return_facts ::
  "call_env \<Rightarrow> CallStart \<Rightarrow> u64 \<Rightarrow> LinuxLayout \<Rightarrow> ReturnAccounting \<Rightarrow> ReturnEventFacts call" where
  "capture_return_facts env start flags l accounting = do {
     (mechanism, capture_flags) \<leftarrow> return_mechanism env start flags l (ra_rv accounting);
     session \<leftarrow> return_session env start l (ra_rv accounting);
     (async_value, async_flags) \<leftarrow> async_get_id_fact env (cs_out_ptr start) (ra_rv accounting)
        (lifecycle (semantics_of env)) l (cs_async_value start);
     State_Monad.return
       \<lparr>rf_ts_ns = ra_now accounting, rf_duration_ns = ra_delta accounting, rf_rv = ra_rv accounting,
        rf_mechanism = mechanism, rf_session = session, rf_async_value = async_value,
        rf_capture_flags = capture_flags OR async_flags, rf_pid_tgid = cur_pid_tgid (ce_ctx env),
        rf_cgroup_id = ce_cgroup_id env, rf_root_affiliation = ce_root_tag env\<rparr> }"

section \<open>Return: records\<close>

definition submit_event :: "call_record \<Rightarrow> unit call" where
  "submit_event r = cput (\<lambda>s. s\<lparr>ca_events := ca_events s @ [r]\<rparr>)"

definition ring_room :: "call_env \<Rightarrow> bool call" where
  "ring_room env = kernel (ask (ring_has_room (ce_k env)))"

definition base_event :: "call_env \<Rightarrow> CallStart \<Rightarrow> ReturnEventFacts \<Rightarrow> Event" where
  "base_event env start facts = fill_call_event (fst (ce_reserved env)) start (slot_of_call env) facts"

definition image_lost :: "call_env \<Rightarrow> CallStart \<Rightarrow> bool" where
  "image_lost env start =
     (case ce_identity env of None \<Rightarrow> True | Some identity \<Rightarrow> \<not> image_pair_matches (cs_image start) identity)"

definition ordinary_return :: "call_env \<Rightarrow> CallStart \<Rightarrow> u64 \<Rightarrow> LinuxLayout \<Rightarrow> unit call" where
  "ordinary_return env start flags l = do {
     retired \<leftarrow> owned_start_remove env (start_key env) True;
     if \<not> retired then do { object_fault; evidence_add EVIDENCE_UNMATCHED_RETURNS }
     else do {
       accounting \<leftarrow> account_return env (slot_of_call env) (cs_ts_ns start) l;
       if flags AND FLAG_POLICY_AGGREGATE \<noteq> 0 then State_Monad.return ()
       else if image_lost env start then evidence_add EVIDENCE_SEMANTIC_CAPTURE_FAILURES
       else do {
         facts \<leftarrow> capture_return_facts env start flags l accounting;
         room \<leftarrow> ring_room env;
         if room then submit_event (EventRecord (base_event env start facts) (ce_continuity env))
         else evidence_add EVIDENCE_RING_LOSS } } }"

text \<open>Every refusal of the object return retires what is owned before it faults.\<close>

definition object_refused :: "call_env \<Rightarrow> nat \<Rightarrow> unit call" where
  "object_refused env reason = do {
     _ \<leftarrow> owned_start_remove env (start_key env) True;
     object_fault;
     evidence_add reason }"

definition side_agrees :: "ObjectStart option \<Rightarrow> u32 \<Rightarrow> LinuxLayout \<Rightarrow> bool" where
  "side_agrees side descriptor l =
     (case side of None \<Rightarrow> False
      | Some row \<Rightarrow> os_descriptor_index row = descriptor \<and> (os_layout row = 0 \<or> os_layout row = layout_code l))"

text \<open>The last two emission levels fill their sections of the tail; each runs on a row of
  its own query.\<close>

definition object_emit ::
  "call_env \<Rightarrow> u32 \<Rightarrow> LinuxLayout \<Rightarrow> u64 \<Rightarrow> ObjectCallWire option \<Rightarrow> ObjectStart option \<Rightarrow> ObjectStart option \<Rightarrow>
    ObjectCallWire option call" where
  "object_emit env descriptor l rv tail find_side get_side = do {
     let rows = rows_of_env env;
     let t = ce_target env;
     let gate = encode_return_gate l True;
     (tail, found) \<leftarrow> reading (object_emit_find rows t tail find_side descriptor rv gate);
     if \<not> found then State_Monad.return None
     else do {
       (tail, emitted) \<leftarrow> reading (object_emit_get_attributes rows (ce_bpf env) (wb_of env) (ce_wired env) t tail get_side descriptor rv gate);
       State_Monad.return (if emitted then tail else None) } }"

definition object_sections ::
  "call_env \<Rightarrow> u32 \<Rightarrow> LinuxLayout \<Rightarrow> u64 \<Rightarrow> ObjectCallWire option \<times> bool \<Rightarrow> ObjectCallWire option call" where
  "object_sections env descriptor l rv = (\<lambda>(tail, tailed). do {
     let query = native (p11_object_side_get (ce_own env) (start_key env) descriptor False);
     find_side \<leftarrow> query;
     get_side \<leftarrow> query;
     if \<not> tailed then State_Monad.return None else object_emit env descriptor l rv tail find_side get_side })"

definition object_tail :: "call_env \<Rightarrow> u32 \<Rightarrow> LinuxLayout \<Rightarrow> ReturnEventFacts \<Rightarrow> ObjectCallWire option call" where
  "object_tail env descriptor l facts = do {
     let rows = rows_of_env env;
     let rv = rf_rv facts;
     filled \<leftarrow> side_step env (start_key env) descriptor True
       (\<lambda>side. object_fill_return rows (wb_of env) (ce_target env) side rv (rf_capture_flags facts AND MECHANISM_MASK)
          (rf_mechanism facts) (encode_return_gate l True));
     tail_side \<leftarrow> native (p11_object_side_get (ce_own env) (start_key env) descriptor False);
     object_sections env descriptor l rv
       (if filled then object_tail_fill rows (ce_wired env) (Some (snd (ce_reserved env))) tail_side descriptor
        else (Some (snd (ce_reserved env)), False)) }"

definition refused_join :: "call_env \<Rightarrow> Event \<Rightarrow> unit call" where
  "refused_join env base = do {
     outcome \<leftarrow> preserve_refused_base (owned_start_remove env (start_key env) True) object_fault
       (do { room \<leftarrow> ring_room env;
             if room then do { submit_event (EventRecord base (ce_continuity env)); State_Monad.return True }
             else State_Monad.return False });
     (if outcome = OutputFailed then evidence_add EVIDENCE_RING_LOSS else State_Monad.return ());
     evidence_add EVIDENCE_UNMATCHED_RETURNS }"

definition object_emission :: "call_env \<Rightarrow> u32 \<Rightarrow> LinuxLayout \<Rightarrow> CallStart \<Rightarrow> ReturnEventFacts \<Rightarrow> unit call" where
  "object_emission env descriptor l start facts = do {
     let base = base_event env start facts;
     if \<not> continuity_joins (ce_continuity env) then refused_join env base
     else do {
       tail \<leftarrow> object_tail env descriptor l facts;
       outcome \<leftarrow> emission_finalize (tail \<noteq> None) (owned_start_remove env (start_key env) True);
       case (submitted outcome, tail) of
         (True, Some wire) \<Rightarrow> submit_event (ObjectEventRecord base (ce_continuity env) wire)
       | _ \<Rightarrow> do { object_fault; evidence_add EVIDENCE_UNMATCHED_RETURNS } } }"

definition object_return_ordinary :: "call_env \<Rightarrow> CallStart \<Rightarrow> u64 \<Rightarrow> LinuxLayout \<Rightarrow> unit call" where
  "object_return_ordinary env start flags l = do {
     let key = start_key env;
     let descriptor = cookie_descriptor (cookie_of (ce_ctx env));
     ready \<leftarrow> native (p11_object_side_get (ce_own env) key descriptor True);
     if ready = None then object_refused env EVIDENCE_UNMATCHED_RETURNS
     else do {
       side \<leftarrow> native (p11_object_side_get (ce_own env) key descriptor False);
       if \<not> side_agrees side descriptor l then object_refused env EVIDENCE_UNMATCHED_RETURNS
       else do {
         accounting \<leftarrow> account_return env (slot_of_call env) (cs_ts_ns start) l;
         if flags AND FLAG_POLICY_AGGREGATE \<noteq> 0 then do {
           retired \<leftarrow> owned_start_remove env key True;
           if retired then State_Monad.return () else do { object_fault; evidence_add EVIDENCE_UNMATCHED_RETURNS } }
         else if image_lost env start then object_refused env EVIDENCE_SEMANTIC_CAPTURE_FAILURES
         else do {
           facts \<leftarrow> capture_return_facts env start flags l accounting;
           room \<leftarrow> ring_room env;
           if \<not> room then do {
             retired \<leftarrow> owned_start_remove env key True;
             (if retired then State_Monad.return () else object_fault);
             evidence_add EVIDENCE_RING_LOSS }
           else object_emission env descriptor l start facts } } } }"

section \<open>Return\<close>

definition return_unscoped :: "call_env \<Rightarrow> unit call" where
  "return_unscoped env = do {
     rc \<leftarrow> native (p11_owner_start_remove (ce_own env) (start_key env) False);
     if rc = 0 then evidence_add EVIDENCE_UNMATCHED_RETURNS
     else if rc = - 2 then State_Monad.return ()
     else do { object_fault; evidence_add EVIDENCE_UNMATCHED_RETURNS } }"

definition p11_return_impl :: "call_env \<Rightarrow> unit call" where
  "p11_return_impl env =
     (if slot_of_call env \<ge> MAX_SLOTS then State_Monad.return ()
      else do {
        scope \<leftarrow> scope_flags env;
        case scope of
          None \<Rightarrow> return_unscoped env
        | Some flags \<Rightarrow>
            (case probe_layout (ce_ctx env) of
               None \<Rightarrow> do { owned_start_discard env (start_key env); evidence_add EVIDENCE_ABI_REFUSALS }
             | Some l \<Rightarrow> do {
                 row \<leftarrow> native (p11_owner_start_get (ce_own env) (start_key env) False);
                 case row of
                   None \<Rightarrow> State_Monad.return ()
                 | Some start \<Rightarrow>
                     if cs_object_required start = 0 then ordinary_return env start flags l
                     else object_return_ordinary env start flags l }) })"

definition p11_return :: "call_env \<Rightarrow> unit call" where
  "p11_return env = admitted env (p11_return_impl env)"

text \<open>What \<^verbatim>\<open>sched_process_exit\<close> does first: a failed settlement of the exiting task is
  capture loss.\<close>

definition exit_cleanup :: "call_env \<Rightarrow> unit call" where
  "exit_cleanup env = do {
     cleanup \<leftarrow> native (p11_owner_cleanup (ce_own env));
     if cleanup = 1 then object_fault else State_Monad.return () }"

end
