(* ===== verification/P11_Call_Safety.thy ===== *)
theory P11_Call_Safety
  imports P11_Call P11_Object_Safety P11_Custody
begin

text \<open>
  The call probes over the custody object. The contract on side rows that the native
  calls keep is a locale; the entry adapters establish its instance, the return adapters
  rely on it, so that every object record that reaches the ring satisfies the contract of
  the validator. What the probes write besides rows and events is the other locale:
  evidence, statistics and the log of target accesses.
\<close>

section \<open>Native calls and side rows\<close>

lemma wp_zoom [simp]: "wp (zoom part update m) Q = (\<lambda>s. wp m (\<lambda>x t. Q x (update (\<lambda>_. t) s)) (part s))"
  by (simp add: wp_def zoom_def fun_eq_iff split: prod.split)

lemma wp_cget [simp]: "wp (cget f) Q = (\<lambda>s. Q (f s) s)"
  by (simp add: wp_def cget_def fun_eq_iff)

lemma wp_cput [simp]: "wp (cput f) Q = (\<lambda>s. Q () (f s))"
  by (simp add: wp_def cput_def fun_eq_iff)

definition sides :: "(ObjectStart \<Rightarrow> bool) \<Rightarrow> ostate \<Rightarrow> bool" where
  "sides R s \<longleftrightarrow> (\<forall>key side. o_object s key = Some side \<longrightarrow> R side)"

abbreviation stays :: "(ObjectStart \<Rightarrow> bool) \<Rightarrow> 'a own \<Rightarrow> bool" where
  "stays R m \<equiv> keeps (sides R) m (\<lambda>_. True)"

lemma staysI: "(\<And>s. sides R s \<Longrightarrow> wp m (\<lambda>_. sides R) s) \<Longrightarrow> stays R m"
  by (rule keepsI) (auto dest: wp_run)

lemma stays_wp: "stays R m \<Longrightarrow> sides R s \<Longrightarrow> wp m (\<lambda>_. sides R) s"
  by (auto simp: wp_def dest: keepsD split: prod.split)

lemma stays_frame: "frame m \<Longrightarrow> stays R m"
  by (rule staysI, erule wp_frame) (simp add: sides_def frame_rows)

lemmas stays_atoms = frame_basic[THEN stays_frame] frame_account[THEN stays_frame] frame_lookup[THEN stays_frame]
  frame_checks[THEN stays_frame] frame_peek[THEN stays_frame]

lemma stays_put: "(\<And>s. o_object (f s) = o_object s) \<Longrightarrow> stays R (oput f)"
  by (rule staysI) (simp add: sides_def)

lemma stays_object_put: "R side \<Longrightarrow> stays R (object_put key side)"
  by (rule staysI) (simp add: object_put_def sides_def)

lemma stays_delete_other:
  assumes "\<And>f s. o_object (store f s) = o_object s"
  shows "stays R (row_delete env rows store key)" "stays R (row_update env rows store key v flags)"
  unfolding row_delete_def row_update_def
  by (auto intro!: keeps_then keeps_rules stays_put stays_atoms assms simp: Let_def)

lemma stays_object_delete: "stays R (object_delete env key)"
proof (rule staysI)
  fix s assume "sides R s"
  then show "wp (object_delete env key) (\<lambda>_. sides R) s"
    by (simp add: row_delete_def Let_def sides_def)
qed

lemmas stays_basic = keeps_then keeps_rules stays_atoms stays_put stays_delete_other stays_object_delete

lemma stays_owner_set: "stays R (owner_set env f)"
  unfolding owner_set_def by (rule stays_put) simp

lemma stays_local: "stays R reserve_local" "stays R refund_local" "stays R (add_outstanding n)"
  unfolding reserve_local_def reserve_with_def refund_local_def refund_with_def add_outstanding_def
  by (auto intro!: stays_basic)

lemma stays_refund: "stays R (p11_owner_refund env)"
  unfolding p11_owner_refund_def by (auto intro!: stays_basic stays_local)

lemma stays_release: "stays R (release_empty env)"
  unfolding release_empty_def by (auto intro!: stays_basic stays_owner_set stays_refund)

lemma stays_storage: "stays R (storage_get env create)"
  unfolding storage_get_def by (auto intro!: stays_basic)

lemma stays_lease_idle: "stays R (lease_idle env)"
  unfolding lease_idle_def by (auto intro!: stays_basic stays_owner_set stays_local)

lemma stays_lease_make: "stays R (lease_make env)"
  unfolding lease_make_def clear_fresh_def
  by (auto intro!: stays_basic stays_owner_set stays_local stays_storage stays_lease_idle)

lemma stays_lease: "stays R (p11_owner_lease env)"
  unfolding p11_owner_lease_def
  by (auto intro!: stays_basic stays_owner_set stays_local stays_storage stays_lease_idle stays_lease_make)

lemma stays_get_owner: "stays R (get_owner env ctl create)"
  unfolding get_owner_def by (auto intro!: stays_basic stays_lease stays_frame[OF frame_owner_here])

lemma stays_with_owner: "stays R body \<Longrightarrow> frame missing \<Longrightarrow> stays R absent \<Longrightarrow> stays R (with_owner env c missing refused absent body)"
  unfolding with_owner_def by (auto intro!: stays_basic stays_get_owner stays_frame[of missing])

lemma wp_update_new:
  assumes "\<And>rc. rc \<noteq> 0 \<Longrightarrow> Q rc (tick s)" "Q 0 ((tick s)\<lparr>o_object := (o_object s)(key := Some v)\<rparr>)"
  shows "wp (object_update env key v 1) Q s"
  using assms by (cases s) (simp add: row_update_def Let_def)

text \<open>What the custody object promises about side rows: it only ever scrubs them, deletes
  them or binds a zero row, so a property of scrubbed and freshly bound rows that
  holds of all rows survives every native call.\<close>

locale side_contract =
  fixes R :: "ObjectStart \<Rightarrow> bool"
  assumes scrubbed: "R zero_side"
    and bound: "R (bind_side index act start zero_side)"
begin

lemma stays_side_delete: "stays R (object_side_delete env key)"
  unfolding object_side_delete_def object_scrub_side_def by (auto intro!: stays_basic stays_object_put scrubbed)

lemma stays_contradicted: "stays R (side_contradicted env key side)"
  unfolding side_contradicted_def by (auto intro!: stays_basic stays_side_delete)

lemma stays_side_for_remove: "stays R (object_side_for_remove env start key)"
  unfolding object_side_for_remove_def
  by (auto intro!: stays_basic stays_side_delete stays_contradicted split: marker_verdict.split)

lemma stays_rollback: "stays R (object_rollback_insert env key)" "stays R (rollback_mismatch env key)"
  unfolding rollback_mismatch_def object_rollback_insert_def
  by (auto intro!: stays_basic stays_owner_set stays_release)

lemma stays_remove_start: "stays R (remove_start env key)"
  unfolding remove_start_def by (auto intro!: stays_basic stays_owner_set stays_side_for_remove)

lemma stays_start_remove: "stays R (p11_owner_start_remove env key required)"
  unfolding p11_owner_start_remove_def absent_verdict_def
  by (auto intro!: stays_with_owner stays_basic stays_remove_start stays_release frame_missing)

lemma stays_collision: "stays R (collision_remove env key)"
  unfolding collision_remove_def by (auto intro!: stays_basic stays_remove_start stays_release)

text \<open>A granted allocation leaves the zero row bound to the call.\<close>

lemma wp_alloc:
  assumes s: "sides R s"
  shows "wp (object_side_alloc env key start) (\<lambda>rc s'. sides R s' \<and> (rc = 0 \<longrightarrow>
     object_marker_verdict (object_rows env) (cs_object_required start) \<noteq> MarkerInvalid
     \<and> (\<forall>index act. object_marker_verdict (object_rows env) (cs_object_required start) = MarkerRequired index act \<longrightarrow>
        o_object s' key = Some (bind_side index act start zero_side)))) s" (is "wp _ ?Q s")
proof -
  have fail: "wp m ?Q s'" if "stays R m" "sides R s'" "yields m rc" "rc \<noteq> 0" for m s' rc
    using stays_wp[OF that(1,2)] yields_run[OF that(3), of s'] that(4) by (auto simp: wp_def split: prod.splits)
  show ?thesis
  proof (cases "object_marker_verdict (object_rows env) (cs_object_required start)")
    case MarkerOrdinary
    then show ?thesis using s by (simp add: object_side_alloc_def)
  next
    case MarkerInvalid
    have "yields (rollback_mismatch env key) (- 1)" by (simp add: rollback_mismatch_def yields_def case_prod_unfold)
    then show ?thesis using fail[OF stays_rollback(2) s] by (simp add: object_side_alloc_def MarkerInvalid)
  next
    case (MarkerRequired index act)
    have roll: "wp (rollback_mismatch env key) ?Q s'" if "sides R s'" for s'
      by (rule fail[where rc = "- 1", OF stays_rollback(2) that]) (simp_all add: rollback_mismatch_def yields_def case_prod_unfold)
    have refuse: "wp (do { object_rollback_insert env key;
          _ \<leftarrow> (if rc = EEXIST then bookkeeping OWNER_OBJECT_MISMATCH else count_admission);
          State_Monad.return rc }) ?Q s'" if "sides R s'" "rc \<noteq> 0" for s' rc
      by (rule fail[OF _ that(1) _ that(2)])
        (auto intro!: stays_basic stays_rollback simp: yields_def case_prod_unfold)
    have orphan: "wp (do { orphan \<leftarrow> object_delete env key;
          if orphan \<noteq> 0 \<and> orphan \<noteq> ENOENT
          then do { poison OWNER_STATE_DELETE_FAILED; bookkeeping OWNER_OBJECT_MISMATCH; State_Monad.return (- 1) }
          else rollback_mismatch env key }) ?Q s'" if "sides R s'" for s'
      by (rule fail[where rc = "- 1", OF _ that])
        (auto intro!: stays_basic stays_rollback stays_object_delete simp: yields_def case_prod_unfold rollback_mismatch_def)
    have put: "wp (object_put key (bind_side index act start zero_side)) (\<lambda>_. ?Q 0) s'" if "sides R s'" for s'
      using that bound MarkerRequired by (simp add: object_put_def sides_def)
    have zero: "sides R (s'\<lparr>o_object := (o_object s')(key := Some zero_side)\<rparr>)" if "sides R s'" for s'
      using that scrubbed by (simp add: sides_def)
    have tick: "sides R (s'\<lparr>o_ticks := n\<rparr>) = sides R s'" for s' n by (simp add: sides_def)
    have looked: "wp (do { side \<leftarrow> object_lookup env key;
          case side of
            None \<Rightarrow> do { orphan \<leftarrow> object_delete env key;
              if orphan \<noteq> 0 \<and> orphan \<noteq> ENOENT
              then do { poison OWNER_STATE_DELETE_FAILED; bookkeeping OWNER_OBJECT_MISMATCH; State_Monad.return (- 1) }
              else rollback_mismatch env key }
          | Some side \<Rightarrow> do { object_put key (bind_side index act start side); State_Monad.return 0 } }) ?Q s'"
      if "sides R s'" "o_object s' key = Some zero_side" for s'
      using orphan[of "tick s'"] put[of "tick s'"] that
      by (simp only: row_lookup_def wp_bind wp_oask wp_oget) (auto simp: tick simp del: wp_bind, simp_all)
    have "wp (object_update env key zero_side 1) (\<lambda>rc. wp (if rc \<noteq> 0 then do {
              object_rollback_insert env key;
              _ \<leftarrow> (if rc = EEXIST then bookkeeping OWNER_OBJECT_MISMATCH else count_admission);
              State_Monad.return rc }
            else do {
              side \<leftarrow> object_lookup env key;
              case side of
                None \<Rightarrow> do {
                  orphan \<leftarrow> object_delete env key;
                  if orphan \<noteq> 0 \<and> orphan \<noteq> ENOENT
                  then do {
                    poison OWNER_STATE_DELETE_FAILED;
                    bookkeeping OWNER_OBJECT_MISMATCH;
                    State_Monad.return (- 1) }
                  else rollback_mismatch env key }
              | Some side \<Rightarrow> do { object_put key (bind_side index act start side); State_Monad.return 0 } }) ?Q) s"
    proof (rule wp_update_new)
      show "wp (if rc \<noteq> 0 then do {
              object_rollback_insert env key;
              _ \<leftarrow> (if rc = EEXIST then bookkeeping OWNER_OBJECT_MISMATCH else count_admission);
              State_Monad.return rc } else m) ?Q (tick s)" if "rc \<noteq> 0" for rc m
        using refuse[of "tick s" rc] s that tick by (simp del: wp_bind)
    qed (use looked[of "(tick s)\<lparr>o_object := (o_object s)(key := Some zero_side)\<rparr>"] zero[of "tick s"] s tick in \<open>simp del: wp_bind\<close>)
    then show ?thesis unfolding object_side_alloc_def MarkerRequired marker_verdict.case
      using roll[OF s] by (simp add: MarkerRequired)
  qed
qed

definition granted :: "oenv \<Rightarrow> owner_start_key \<Rightarrow> call_start_seed option \<Rightarrow> CallStart option \<Rightarrow> ostate \<Rightarrow> bool" where
  "granted env key seed row s \<longleftrightarrow> sides R s \<and> (\<forall>st. row = Some st \<longrightarrow> seed \<noteq> None \<longrightarrow>
     object_marker_verdict (object_rows env) (cs_object_required st) \<noteq> MarkerInvalid
     \<and> (\<forall>index act. object_marker_verdict (object_rows env) (cs_object_required st) = MarkerRequired index act \<longrightarrow>
          o_object s key = Some (bind_side index act st zero_side)))"

lemma granted_none: "sides R s \<Longrightarrow> granted env key seed None s"
  by (simp add: granted_def)

lemma granted_refused: "stays R m \<Longrightarrow> sides R s \<Longrightarrow> wp (do { _ \<leftarrow> m; State_Monad.return None }) (granted env key seed) s"
  using stays_wp[of R m s] by (auto simp: granted_def intro: wp_conseq)

lemma wp_begin_row_sides:
  assumes s: "sides R s"
  shows "wp (begin_row env key seed ts) (granted env key seed) s"
proof -
  let ?put = "\<lambda>start. do {
         start_put key start;
         if seed = None then State_Monad.return (Some start)
         else do {
           rc \<leftarrow> object_side_alloc env key start;
           State_Monad.return (if rc \<noteq> 0 then None else Some start) } }"
  have put: "wp (?put start) (granted env key seed) s'" if "sides R s'" for start s'
  proof (cases "seed = None")
    case True
    then show ?thesis using that by (simp add: start_put_def granted_def sides_def)
  next
    case False
    have "sides R (s'\<lparr>o_start := (o_start s')(key := Some start)\<rparr>)" using that by (simp add: sides_def)
    then have "wp (object_side_alloc env key start) (\<lambda>rc. granted env key seed (if rc \<noteq> 0 then None else Some start))
        (s'\<lparr>o_start := (o_start s')(key := Some start)\<rparr>)"
      by (intro wp_conseq[OF wp_alloc]) (auto simp: granted_def)
    then show ?thesis using False by (auto simp: start_put_def)
  qed
  have roll: "wp (do { object_rollback_insert env key; bookkeeping OWNER_START_ROW_MISSING; State_Monad.return None })
      (granted env key seed) s'" if "sides R s'" for s'
    using granted_refused[where m = "do { object_rollback_insert env key; bookkeeping OWNER_START_ROW_MISSING }", OF _ that]
    by (auto intro!: stays_basic stays_rollback)
  have "sides R (tick s)" using s by (simp add: sides_def)
  then show ?thesis unfolding begin_row_def row_lookup_def wp_bind wp_oask wp_oget Let_def
    using put roll by (auto split: option.split simp del: wp_bind)
qed

lemma wp_begin_sides:
  assumes s: "sides R s"
  shows "wp (begin_owned_start env key seed ts) (granted env key seed) s"
proof -
  have next_row: "wp (do { rc \<leftarrow> start_update env key zero_start 1;
       if rc \<noteq> 0
       then do {
         owner_set env (\<lambda>w. w\<lparr>start_count := start_count w - 1\<rparr>);
         count_admission;
         collision_remove env key;
         State_Monad.return None }
       else begin_row env key seed ts }) (granted env key seed) s'" if "sides R s'" for s'
  proof -
    have "wp (start_update env key zero_start 1) (\<lambda>_. sides R) s'"
      by (rule stays_wp[OF _ that]) (auto intro!: stays_basic)
    then show ?thesis unfolding wp_bind
    proof (rule wp_conseq)
      fix rc s1 assume s1: "sides R s1"
      have "wp (do { _ \<leftarrow> do { owner_set env (\<lambda>w. w\<lparr>start_count := start_count w - 1\<rparr>); count_admission; collision_remove env key };
           State_Monad.return None }) (granted env key seed) s1"
        by (rule granted_refused[OF _ s1]) (auto intro!: stays_basic stays_owner_set stays_collision)
      then show "wp (if rc \<noteq> 0
       then do {
         owner_set env (\<lambda>w. w\<lparr>start_count := start_count w - 1\<rparr>);
         count_admission;
         collision_remove env key;
         State_Monad.return None }
       else begin_row env key seed ts) (granted env key seed) s1"
        using wp_begin_row_sides[OF s1] by simp
    qed
  qed
  have owner: "wp (begin_as_owner env key seed ts) (granted env key seed) s'" if s': "sides R s'" for s'
  proof -
    have refuse: "wp (do { a; _ \<leftarrow> b; State_Monad.return None }) (granted env key seed) s'" if "stays R a" "stays R b"
      for a :: "unit own" and b :: "'x own"
      using granted_refused[where m = "do { a; b }", OF _ s'] that by (auto intro!: keeps_then)
    have set: "wp (owner_set env f) (\<lambda>_. sides R) s'" for f by (rule stays_wp[OF stays_owner_set s'])
    show ?thesis unfolding begin_as_owner_def start_key_valid_def
      by (simp only: wp_bind wp_oget split: if_split)
        (intro conjI impI, (rule refuse[unfolded wp_bind]; auto intro!: stays_basic stays_release stays_remove_start)+,
          rule wp_conseq[OF set], rule next_row[unfolded wp_bind], simp)
  qed
  have ctl: "wp (control env) (\<lambda>_. sides R) s" by (rule stays_wp[OF _ s]) (auto intro!: stays_basic)
  show ?thesis unfolding begin_owned_start_def wp_bind
    by (rule wp_conseq[OF ctl], rule wp_conseq[OF stays_wp[OF stays_get_owner]], assumption)
      (auto intro: owner granted_none)
qed

lemma stays_sweep: "(\<And>i. stays R (callback i)) \<Longrightarrow> stays R (sweep callback i n)"
  by (induction n arbitrary: i) (auto intro!: stays_basic)

lemma stays_callbacks:
  "stays R (owner_cleanup_start_callback env pid slot)" "stays R (owner_cleanup_orphan_callback env pid slot)"
  unfolding owner_cleanup_start_callback_def owner_cleanup_orphan_callback_def object_scrub_side_def
  by (auto intro!: stays_basic stays_remove_start stays_release stays_object_put scrubbed simp: Let_def)

lemma stays_remove_discovery: "stays R (remove_discovery env key index)"
  unfolding remove_discovery_def by (auto intro!: stays_basic stays_owner_set)

lemma stays_cells: "stays R (cleanup_cells env pid is)"
  by (induction "is") (auto intro!: stays_basic stays_remove_discovery)

lemma stays_cleanup: "stays R (p11_owner_cleanup env)"
proof -
  have "stays R (cleanup_rows env pid)" for pid
    unfolding cleanup_rows_def owner_loop_def by (auto intro!: stays_basic stays_sweep stays_callbacks)
  then show ?thesis
    unfolding p11_owner_cleanup_def cleanup_task_def cleanup_unseen_def cleanup_leased_def cleanup_verdict_def
    by (auto intro!: stays_basic stays_cells stays_release simp: Let_def)
qed

lemma stays_discovery:
  "stays R (p11_owner_discovery_get env dkey required)" "stays R (p11_owner_discovery_remove env dkey required)"
  "stays R (p11_owner_discovery_insert env dkey v flags)"
  unfolding p11_owner_discovery_get_def p11_owner_discovery_remove_def p11_owner_discovery_insert_def
    discovery_as_owner_def replace_cell_def insert_cell_def absent_verdict_def
  by (auto intro!: stays_with_owner stays_basic stays_remove_discovery stays_release stays_owner_set stays_get_owner frame_missing
      stays_frame[OF frame_inspect])

end

text \<open>A side query hands out the row of the key, with the descriptor that was asked for.\<close>

lemma frame_with_owner: "frame missing \<Longrightarrow> frame absent \<Longrightarrow> frame body \<Longrightarrow> frame (with_owner env c missing refused absent body)"
  unfolding with_owner_def by (auto intro!: frame_bind frame_get_owner)

lemma wp_with_owner_frame:
  assumes "frame missing" "\<And>s'. same_books s s' \<Longrightarrow> Q refused s'" "\<And>s'. same_books s s' \<Longrightarrow> wp absent Q s'"
    "\<And>s'. same_books s s' \<Longrightarrow> wp body Q s'"
  shows "wp (with_owner env c missing refused absent body) Q s"
proof -
  have owner: "wp (get_owner env ctl False) (\<lambda>owner. wp (if \<not> owner then State_Monad.return refused else body) Q) s'"
    if "same_books s s'" for s' ctl
    by (rule wp_frame[OF frame_get_owner]) (use that assms(2,4) in \<open>auto dest: same_books_trans\<close>)
  have miss: "wp missing (\<lambda>none. wp (if none then absent else do {
         owner \<leftarrow> get_owner env ctl False;
         if \<not> owner then State_Monad.return refused else body }) Q) s'" if "same_books s s'" for s' ctl
    by (rule wp_frame[OF assms(1)]) (use that assms(3) owner in \<open>auto dest: same_books_trans\<close>)
  show ?thesis unfolding with_owner_def wp_bind
  proof (rule wp_frame, simp)
    fix ctl s1 assume s1: "same_books s s1"
    show "wp (healthy ctl) (\<lambda>ok. wp (if \<not> ok \<or> \<not> c then State_Monad.return refused
       else do {
         none \<leftarrow> missing;
         if none then absent
         else do {
           owner \<leftarrow> get_owner env ctl False;
           if \<not> owner then State_Monad.return refused else body } }) Q) s1"
      using s1 assms(2) miss by (simp add: healthy_def)
  qed
qed

definition handed :: "owner_start_key \<Rightarrow> u32 \<Rightarrow> bool \<Rightarrow> ostate \<Rightarrow> ObjectStart option \<Rightarrow> ostate \<Rightarrow> bool" where
  "handed key d required s side s' \<longleftrightarrow> same_books s s' \<and> (\<forall>v. side = Some v \<longrightarrow>
     o_object s key = Some v \<and> os_descriptor_index v = d \<and> live_phase (os_phase v) \<and> (required \<longrightarrow> os_phase v = OBJECT_PHASE_READY))"

lemma wp_side_handed: "wp (p11_object_side_get env key d required) (handed key d required s) s"
  unfolding p11_object_side_get_def
proof (rule wp_with_owner_frame)
  show "frame (optional_missing required (object_lookup env key))" by simp
  show "handed key d required s None s'" if "same_books s s'" for s' using that by (simp add: handed_def)
  show "wp (do { _ \<leftarrow> peek_absent_owner env; State_Monad.return None }) (handed key d required s) s'" if "same_books s s'" for s'
    unfolding wp_bind by (rule wp_frame[OF frame_peek]) (use same_books_trans[OF that] in \<open>auto simp: handed_def\<close>)
  fix s' assume s': "same_books s s'"
  have o: "o_object s' = o_object s" by (rule frame_rows[OF s'])
  have ticks: "same_books s (s'\<lparr>o_ticks := n\<rparr>)" for n using s' by (simp add: same_books_def same_rows_def)
  show "wp (do { valid \<leftarrow> start_key_valid env key;
         if \<not> valid then State_Monad.return None else side_query env key d required }) (handed key d required s) s'"
    unfolding start_key_valid_def side_query_def row_lookup_def
    using s' o ticks by (auto simp: handed_def binding_matches_iff split: option.split marker_verdict.split)
qed

section \<open>The contract of side rows\<close>

definition fresh_side :: "ObjectStart \<Rightarrow> bool" where
  "fresh_side side \<longleftrightarrow> (\<exists>index act st. side = bind_side index act st zero_side)"

definition filled_side :: "ObjectDescriptorWire list \<Rightarrow> bool \<Rightarrow> ObjectStart \<Rightarrow> bool" where
  "filled_side rows wired side \<longleftrightarrow> (\<exists>r l. descriptor_row rows (os_descriptor_index side) = Some r
     \<and> side_inv r (os_descriptor_index side) l side \<and> (wired \<or> lists_fresh side))"

definition side_row :: "ObjectDescriptorWire list \<Rightarrow> bool \<Rightarrow> ObjectStart \<Rightarrow> bool" where
  "side_row rows wired side \<longleftrightarrow> os_phase side = 0 \<or> fresh_side side \<or> filled_side rows wired side"

interpretation call_rows: side_contract "side_row rows wired" for rows wired
  by unfold_locales (auto simp: side_row_def fresh_side_def zero_side_def)

definition record_ok :: "ObjectDescriptorWire list \<Rightarrow> call_record \<Rightarrow> bool" where
  "record_ok rows e \<longleftrightarrow> (case e of EventRecord _ _ \<Rightarrow> True
     | ObjectEventRecord _ _ w \<Rightarrow> \<exists>r. descriptor_row rows (oc_descriptor_index w) = Some r
         \<and> row_admits r (oc_descriptor_index w) \<and> object_call_ok w r \<and> tail_wf w)"

text \<open>Invariants over the custody state and the submitted events.\<close>

definition on :: "(ostate \<Rightarrow> call_record list \<Rightarrow> bool) \<Rightarrow> call_state \<Rightarrow> bool" where
  "on P s \<longleftrightarrow> P (ca_own s) (ca_events s)"

definition calls_ok :: "ObjectDescriptorWire list \<Rightarrow> bool \<Rightarrow> ostate \<Rightarrow> call_record list \<Rightarrow> bool" where
  "calls_ok rows wired o' es \<longleftrightarrow> sides (side_row rows wired) o' \<and> list_all (record_ok rows) es"

lemma keeps_kernel: "keeps (on P) (kernel m) (\<lambda>_. True)"
  by (rule keepsI) (auto simp: zoom_def on_def split: prod.splits)

lemma keeps_reading: "gives m Q \<Longrightarrow> keeps (on P) (reading m) Q"
  by (rule keepsI) (auto simp: zoom_def on_def dest: keepsD split: prod.splits)

lemmas keeps_silent = keeps_kernel keeps_reading[OF gives_True]

lemma keeps_native: "stays (side_row rows wired) m \<Longrightarrow> keeps (on (calls_ok rows wired)) (native m) (\<lambda>_. True)"
  by (rule keepsI) (auto simp: zoom_def on_def calls_ok_def dest: keepsD split: prod.splits)

lemma keeps_cput: "(\<And>s. ca_own (f s) = ca_own s \<and> ca_events (f s) = ca_events s) \<Longrightarrow> keeps (on P) (cput f) (\<lambda>_. True)"
  by (rule keepsI) (auto simp: cput_def on_def)

lemma keeps_fault: "keeps (on P) object_fault (\<lambda>_. True)"
  unfolding object_fault_def by (rule keeps_cput) simp

section \<open>What entry writes into a START row\<close>

lemma same_binding_refl [simp]: "same_binding st st"
  by (simp add: same_binding_def)

lemma same_binding_trans: "same_binding a b \<Longrightarrow> same_binding b c \<Longrightarrow> same_binding a c"
  by (simp add: same_binding_def)

definition captures :: "(call_state \<Rightarrow> bool) \<Rightarrow> (CallStart \<Rightarrow> CallStart call) \<Rightarrow> bool" where
  "captures I f \<longleftrightarrow> (\<forall>start. keeps I (f start) (same_binding start))"

lemma capturesI: "(\<And>start. keeps I (f start) (same_binding start)) \<Longrightarrow> captures I f"
  by (simp add: captures_def)

lemma capturesD: "captures I f \<Longrightarrow> same_binding st start \<Longrightarrow> keeps I (f start) (same_binding st)"
  unfolding captures_def by (blast intro: keeps_weaken same_binding_trans)

lemma captures_bind: "captures I f \<Longrightarrow> captures I g \<Longrightarrow> captures I (\<lambda>st. State_Monad.bind (f st) g)"
  by (auto intro!: capturesI keeps_bind[where R = "same_binding st" for st] intro: capturesD)

lemma same_binding_writes [simp]:
  "same_binding start (set_template_region second out start)" "same_binding start (fresh_call start)"
  by (simp_all add: same_binding_def set_template_region_def fresh_call_def)

text \<open>Capture, accounting and the facts of a return read the target and advance evidence,
  statistics and result counts, nothing else: they keep every property that is blind to
  these cells.\<close>

locale quiet_cells =
  fixes I :: "call_state \<Rightarrow> bool"
  assumes kernel_cell: "I s \<Longrightarrow> I (ca_k_update k s)"
    and log_cell: "I s \<Longrightarrow> I (ca_log_update g s)"
    and stats_cell: "I s \<Longrightarrow> I (ca_stats_update f s)"
    and rv_cell: "I s \<Longrightarrow> I (ca_rv_update h s)"
begin

lemma quiet_kernel: "keeps I (kernel m) (\<lambda>_. True)"
  by (rule keepsI) (auto simp: zoom_def kernel_cell split: prod.splits)

lemma quiet_reading: "gives m Q \<Longrightarrow> keeps I (reading m) Q"
  by (rule keepsI) (auto simp: zoom_def log_cell dest: keepsD split: prod.splits)

lemmas quiet_silent = quiet_kernel quiet_reading[OF gives_True]

lemma quiet_count: "keeps I (cput (\<lambda>s. ca_stats_update (f s) s)) (\<lambda>_. True)" "keeps I (cput (\<lambda>s. ca_rv_update (h s) s)) (\<lambda>_. True)"
  by (rule keepsI; auto simp: cput_def stats_cell rv_cell)+

lemma quiet_cget: "keeps I (cget f) (\<lambda>_. True)"
  by (rule keepsI) (auto simp: cget_def)

lemma captures_failure: "captures I capture_failure"
  unfolding capture_failure_def
  by (auto intro!: capturesI keeps_then[OF quiet_kernel] keeps_return simp: same_binding_def)

lemma keeps_scalar: "same_binding st start \<Longrightarrow> keeps I (capture_scalar env index start) (\<lambda>(_, st'). same_binding st st')"
  unfolding capture_scalar_def
  by (auto intro!: keeps_rules keeps_then[OF quiet_silent(2)] keeps_bind[OF capturesD[OF captures_failure]])

lemma captures_into: "(\<And>w st. same_binding st (store w st)) \<Longrightarrow> captures I (capture_into env index store)"
  unfolding capture_into_def
  by (auto intro!: capturesI keeps_bind[OF keeps_scalar] keeps_rules split: option.split intro: same_binding_trans)

lemma captures_scalars: "captures I (entry_scalars env semantics)"
  unfolding entry_scalars_def
  by (intro captures_bind captures_into) (simp_all add: same_binding_def entry_flags_def Let_def)

lemma captures_mechanism: "captures I (entry_mechanism env flags l semantics)"
proof -
  have params: "captures I (entry_params env l p sh)" for p sh
    unfolding entry_params_def
    by (auto intro!: capturesI keeps_then[OF quiet_silent(2)] keeps_rules capturesD[OF captures_failure] simp: same_binding_def)
  have read: "captures I (entry_mechanism_value env l p)" for p
    unfolding entry_mechanism_value_def Let_def
    by (auto intro!: capturesI keeps_then[OF quiet_silent(2)] keeps_rules capturesD[OF captures_failure] capturesD[OF params]
        simp: same_binding_def mechanism_state_def split: option.split)
  show ?thesis unfolding entry_mechanism_def Let_def
    by (auto intro!: capturesI keeps_rules keeps_bind[OF keeps_scalar] capturesD[OF read]
        simp: same_binding_def mechanism_state_def split: option.split)
qed

lemma captures_output: "captures I (entry_output env semantics)"
  unfolding entry_output_def Let_def
  by (auto intro!: capturesI keeps_rules keeps_bind[OF keeps_scalar] simp: same_binding_def output_state_def split: option.split)

lemma captures_template: "captures I (capture_template env types_only second a c l)"
proof -
  have "captures I (walk_template env types_only second p n l)" for p n
    unfolding walk_template_def Let_def
    by (auto intro!: capturesI keeps_then[OF quiet_silent(2)] keeps_rules capturesD[OF captures_failure])
  then show ?thesis unfolding capture_template_def
    by (auto intro!: capturesI keeps_rules keeps_bind[OF keeps_scalar] intro: capturesD split: option.split)
qed

lemma captures_async: "captures I (entry_async env mode semantics)"
proof -
  have name: "captures I (capture_async_target env p)" for p
    unfolding capture_async_target_def read_name_def
    by (auto intro!: capturesI keeps_rules keeps_then quiet_silent capturesD[OF captures_failure] simp: same_binding_def
        split: option.split)
  have v: "captures I (entry_async_value env semantics)"
    unfolding entry_async_value_def
    by (auto intro!: capturesI keeps_rules keeps_bind[OF keeps_scalar] capturesD[OF captures_into] simp: same_binding_def split: option.split)
  show ?thesis unfolding entry_async_def
    by (auto intro!: capturesI keeps_rules keeps_bind[OF keeps_scalar] keeps_bind[OF capturesD[OF name]] capturesD[OF v]
        split: option.split)
qed

lemma captures_call: "captures I (capture_call env mode flags l)"
proof -
  have "captures I (entry_templates env mode flags l (semantics_of env))"
    unfolding entry_templates_def
    by (auto intro!: capturesI keeps_return capturesD[OF captures_template])
  then have "captures I (\<lambda>st. do {
     start \<leftarrow> entry_scalars env (semantics_of env) st;
     start \<leftarrow> entry_mechanism env flags l (semantics_of env) start;
     start \<leftarrow> entry_output env (semantics_of env) start;
     start \<leftarrow> entry_templates env mode flags l (semantics_of env) start;
     entry_async env mode (semantics_of env) start })"
    by (intro captures_bind captures_scalars captures_mechanism captures_output captures_async)
  then show ?thesis unfolding capture_call_def Let_def by (intro capturesI) (erule capturesD, simp)
qed

lemma quiet_account: "keeps I (account_return env slot ns l) (\<lambda>_. True)"
proof -
  have "keeps I (rv_count_add env key) (\<lambda>_. True)" for key
    unfolding rv_count_add_def by (intro keeps_then[OF quiet_cget] keeps_rules keeps_then[OF quiet_count(2)]) simp_all
  then show ?thesis unfolding account_return_def Let_def
    by (intro keeps_then[OF quiet_kernel] keeps_then[OF quiet_count(1)]) (auto intro!: keeps_then keeps_rules quiet_silent)
qed

lemma quiet_entered: "keeps I (count_entered slot) (\<lambda>_. True)"
  unfolding count_entered_def by (rule quiet_count)

lemma quiet_facts: "keeps I (capture_return_facts env start flags l a) (\<lambda>_. True)"
proof -
  have "keeps I (return_mechanism env start flags l rv) (\<lambda>_. True)" "keeps I (return_session env start l rv) (\<lambda>_. True)"
    "keeps I (async_get_id_fact env p rv c l out) (\<lambda>_. True)" for rv p c out
    unfolding return_mechanism_def return_session_def async_get_id_fact_def Let_def
    by (auto intro!: keeps_rules keeps_then quiet_silent)
  then show ?thesis unfolding capture_return_facts_def by (auto intro!: keeps_rules keeps_then)
qed

lemma quiet_room: "keeps I (ring_room env) (\<lambda>_. True)"
  unfolding ring_room_def by (rule quiet_kernel)

end

interpretation on_cells: quiet_cells "on P" for P
  by unfold_locales (simp_all add: on_def)

section \<open>Entry adapters on the bound row\<close>

text \<open>While a probe works on the row of its key, the row is known.\<close>

definition holding_side :: "ObjectDescriptorWire list \<Rightarrow> bool \<Rightarrow> owner_start_key \<Rightarrow> (ObjectStart \<Rightarrow> bool) \<Rightarrow> ostate \<Rightarrow> call_record list \<Rightarrow> bool" where
  "holding_side rows wired key P o' es \<longleftrightarrow> calls_ok rows wired o' es \<and> (\<exists>side. o_object o' key = Some side \<and> P side)"

definition adapts :: "(ObjectStart \<Rightarrow> bool) \<Rightarrow> (ObjectStart \<Rightarrow> bool) \<Rightarrow> (ObjectStart option \<Rightarrow> (ObjectStart option \<times> bool) rd) \<Rightarrow> bool" where
  "adapts P Q adapter \<longleftrightarrow>
     (\<forall>side. P side \<longrightarrow> gives (adapter (Some side)) (\<lambda>(side', ok). \<exists>s'. side' = Some s' \<and> Q s'))
     \<and> gives (adapter None) (\<lambda>(side', ok). side' = None \<and> \<not> ok)"

lemma calls_ok_books: "same_books o1 o2 \<Longrightarrow> calls_ok rows wired o2 es = calls_ok rows wired o1 es"
  by (simp add: calls_ok_def sides_def frame_rows)

lemma wp_gives: "gives m Q \<Longrightarrow> (\<And>x s'. Q x \<Longrightarrow> R x s') \<Longrightarrow> wp m R s"
  by (auto simp: wp_def dest: keepsD split: prod.split)

lemma wp_side_step:
  assumes s: "on (holding_side rows wired key P) s" and a: "adapts P Q adapter" and q: "\<And>x. Q x \<Longrightarrow> side_row rows wired x"
  shows "wp (side_step env key d required adapter)
    (\<lambda>ok s'. on (calls_ok rows wired) s' \<and> (ok \<longrightarrow> on (holding_side rows wired key Q) s')) s"
proof -
  obtain side where side: "o_object (ca_own s) key = Some side" "P side" and c: "calls_ok rows wired (ca_own s) (ca_events s)"
    using s by (auto simp: on_def holding_side_def)
  have none: "gives (adapter None) (\<lambda>(side', ok). side' = None \<and> \<not> ok)" using a by (simp add: adapts_def)
  have some: "gives (adapter (Some side)) (\<lambda>(side', ok). \<exists>s'. side' = Some s' \<and> Q s')" using a side by (simp add: adapts_def)
  show ?thesis unfolding side_step_def wp_bind wp_zoom
  proof (rule wp_conseq[OF wp_side_handed])
    fix v o1 assume "handed key d required (ca_own s) v o1"
    then have v: "same_books (ca_own s) o1" "v = None \<or> v = Some side" using side by (cases v; auto simp: handed_def)+
    have c1: "calls_ok rows wired o1 (ca_events s)" using c v(1) calls_ok_books by blast
    from v(2) show "wp (adapter v) (\<lambda>x t. wp (case x of (side, ok) \<Rightarrow> do { native (side_store key side); State_Monad.return ok })
         (\<lambda>ok s'. on (calls_ok rows wired) s' \<and> (ok \<longrightarrow> on (holding_side rows wired key Q) s'))
         (ca_log_update (\<lambda>_. t) (ca_own_update (\<lambda>_. o1) s))) (ca_log (ca_own_update (\<lambda>_. o1) s))"
    proof
      assume "v = None"
      then show ?thesis using c1 by (auto intro!: wp_gives[OF none] simp: side_store_def on_def)
    next
      have "calls_ok rows wired (o1\<lparr>o_object := (o_object o1)(key := Some s')\<rparr>) (ca_events s)" if "Q s'" for s'
        using c1 q[OF that] by (simp add: calls_ok_def sides_def)
      moreover assume "v = Some side"
      ultimately show ?thesis
        by (auto intro!: wp_gives[OF some] simp: side_store_def object_put_def on_def holding_side_def)
    qed
  qed
qed

lemma wp_run_cons:
  assumes s: "on (holding_side rows wired key P) s" and a: "adapts P Q adapter" and q: "\<And>x. Q x \<Longrightarrow> side_row rows wired x"
    and rest: "\<And>s'. on (holding_side rows wired key Q) s' \<Longrightarrow> wp (run_adapters env key d adapters) R s'"
    and stop: "\<And>s'. on (calls_ok rows wired) s' \<Longrightarrow> R False s'"
  shows "wp (run_adapters env key d (adapter # adapters)) R s"
  by (simp, rule wp_conseq[OF wp_side_step[OF s a q]]) (auto intro: rest stop)

lemma adapts_abi:
  assumes "descriptor_row rows d = Some r"
  shows "adapts (\<lambda>side. \<exists>act st. side = bind_side d act st zero_side) (\<lambda>s. side_inv r d l s \<and> lists_fresh s \<and> os_phase s = 1)
    (\<lambda>side. State_Monad.return (object_record_entry_abi side l))"
  by (auto simp: adapts_def object_record_entry_abi_def bind_side_def zero_side_def side_inv_def get_row_ok_def less_2_cases_iff
      intro!: keeps_return)

lemma adapts_entry:
  assumes r: "descriptor_row rows d = Some r"
  shows "adapts (\<lambda>s. side_inv r d l s \<and> lists_fresh s \<and> os_phase s = 1) (entry_row r d l) (\<lambda>side. object_fill_entry rows t side l nc)"
    "adapts (entry_row r d l) (entry_row r d l) (\<lambda>side. object_entry_derive rows t side l)"
    "adapts (entry_row r d l) (entry_row r d l) (\<lambda>side. object_entry_results rows t side l rsp)"
    "adapts (entry_row r d l) (entry_row r d l) (\<lambda>side. object_entry_kem rows wb wired t side l rsp cap nc)"
    "adapts (entry_row r d l) (entry_row r d l) (\<lambda>side. object_entry_find rows t side)"
    "adapts (entry_row r d l) (\<lambda>s. ready_row r d l s \<and> (wired \<or> lists_fresh s)) (\<lambda>side. object_entry_attributes rows bpf wb wired t side l)"
proof -
  have n: "adapts P Q a" if "\<And>s. P s \<Longrightarrow> gives (a (Some s)) (\<lambda>(side', ok). \<exists>s'. side' = Some s' \<and> Q s')"
    "a None = State_Monad.return (None, False)" for P Q and a :: "ObjectStart option \<Rightarrow> (ObjectStart option \<times> bool) rd"
    using that by (auto simp: adapts_def intro: keeps_return)
  note none = object_fill_entry_def object_entry_derive_def object_entry_results_def object_entry_kem_def object_entry_find_def
    object_entry_attributes_def adapter_derive_entry_def adapter_kem_entry_def adapter_attributes_entry_def
  show "adapts (\<lambda>s. side_inv r d l s \<and> lists_fresh s \<and> os_phase s = 1) (entry_row r d l) (\<lambda>side. object_fill_entry rows t side l nc)"
    by (rule n, rule object_fill_entry_keeps[OF r]) (simp_all add: none Let_def)
  show "adapts (entry_row r d l) (entry_row r d l) (\<lambda>side. object_entry_derive rows t side l)"
    by (rule n, erule object_entry_derive_keeps[OF r]) (simp add: none Let_def)
  show "adapts (entry_row r d l) (entry_row r d l) (\<lambda>side. object_entry_results rows t side l rsp)"
    by (rule n, erule object_entry_results_keeps[OF r]) (simp add: none Let_def)
  show "adapts (entry_row r d l) (entry_row r d l) (\<lambda>side. object_entry_kem rows wb wired t side l rsp cap nc)"
    by (rule n, erule object_entry_kem_keeps[OF r]) (simp add: none Let_def)
  show "adapts (entry_row r d l) (entry_row r d l) (\<lambda>side. object_entry_find rows t side)"
    by (rule n, erule object_entry_find_keeps[OF r]) (simp add: none Let_def)
  show "adapts (entry_row r d l) (\<lambda>s. ready_row r d l s \<and> (wired \<or> lists_fresh s)) (\<lambda>side. object_entry_attributes rows bpf wb wired t side l)"
    by (rule n, rule keeps_weaken, erule object_entry_attributes_keeps[OF r]) (auto simp: none Let_def)
qed

section \<open>Entry keeps the contract\<close>

lemma entry_row_side: "descriptor_row rows d = Some r \<Longrightarrow> side_inv r d l s \<Longrightarrow> wired \<or> lists_fresh s \<Longrightarrow> side_row rows wired s"
  by (auto simp: side_row_def filled_side_def side_inv_def)

lemma wp_entry_adapters:
  assumes r: "descriptor_row (rows_of_env env) d = Some r"
    and s: "on (holding_side (rows_of_env env) (ce_wired env) key (\<lambda>side. \<exists>act st. side = bind_side d act st zero_side)) s"
  shows "wp (run_adapters env key d (entry_adapters env l cap nc)) (\<lambda>ok. on (calls_ok (rows_of_env env) (ce_wired env))) s"
  unfolding entry_adapters_def Let_def
  apply (rule wp_run_cons[OF s adapts_abi[OF r, of l]])
    apply (blast intro: entry_row_side[OF r])
   apply (erule wp_run_cons[OF _ adapts_entry(1)[OF r, of l]])
     apply (blast intro: entry_row_side[OF r])
    apply (erule wp_run_cons[OF _ adapts_entry(2)[OF r, of l]])
      apply (blast intro: entry_row_side[OF r])
     apply (erule wp_run_cons[OF _ adapts_entry(3)[OF r, of l]])
       apply (blast intro: entry_row_side[OF r])
      apply (erule wp_run_cons[OF _ adapts_entry(4)[OF r, of l]])
        apply (blast intro: entry_row_side[OF r])
       apply (erule wp_run_cons[OF _ adapts_entry(5)[OF r, of l]])
         apply (blast intro: entry_row_side[OF r])
        apply (erule wp_run_cons[OF _ adapts_entry(6)[OF r, of l]])
          apply (blast intro: entry_row_side[OF r])
         apply (simp_all add: on_def holding_side_def)
  done

abbreviation calls_kept :: "call_env \<Rightarrow> 'a call \<Rightarrow> bool" where
  "calls_kept env m \<equiv> keeps (on (calls_ok (rows_of_env env) (ce_wired env))) m (\<lambda>_. True)"

lemma kept_remove: "calls_kept env (owned_start_remove env key required)"
  unfolding owned_start_remove_def by (intro keeps_then keeps_return keeps_native call_rows.stays_start_remove) simp

lemma kept_discard: "calls_kept env (owned_start_discard env key)"
  unfolding owned_start_discard_def by (intro keeps_then keeps_rules keeps_native keeps_fault call_rows.stays_start_remove) simp_all

lemma stays_start_get: "stays R (p11_owner_start_get env key required)"
  unfolding p11_owner_start_get_def by (auto intro!: stays_with_owner stays_basic frame_missing)

lemma stays_start_put: "stays R (start_put key start)"
  unfolding start_put_def by (rule stays_put) simp

lemma keeps_wp: "keeps I m Q \<Longrightarrow> I s \<Longrightarrow> wp m (\<lambda>x s'. I s' \<and> Q x) s"
  by (auto simp: wp_def dest: keepsD split: prod.split)

lemma wp_keeps: "(\<And>s. I s \<Longrightarrow> wp m (\<lambda>_. I) s) \<Longrightarrow> keeps I m (\<lambda>_. True)"
  by (rule keepsI) (auto dest: wp_run)

lemma kept_scope: "calls_kept env (scope_flags env)"
proof -
  have "frame (p11_owner_healthy (ce_own env))" unfolding p11_owner_healthy_def by (intro frame_bind) simp_all
  then show ?thesis unfolding scope_flags_def scope_flags_word_def
    by (auto intro!: keeps_then keeps_return keeps_native keeps_silent stays_frame)
qed

lemma kept_second: "calls_kept env (p11_entry_template_second_impl env)"
  unfolding p11_entry_template_second_impl_def
  by (auto intro!: keeps_then keeps_rules kept_scope kept_discard keeps_silent keeps_native stays_start_get stays_start_put
      keeps_bind[OF capturesD[OF on_cells.captures_template same_binding_refl]])

lemma verdict_index:
  assumes "object_marker_verdict rows m \<noteq> MarkerInvalid" "m \<noteq> 0"
  shows "\<exists>r act. descriptor_row rows (ucast (m - 1)) = Some r \<and> object_marker_verdict rows m = MarkerRequired (ucast (m - 1)) act"
  using assms unfolding object_marker_verdict_def Let_def by (auto split: option.splits if_splits)

lemma wp_entry_object:
  assumes r: "descriptor_row (rows_of_env env) (ucast (m - 1)) = Some r" and s: "on (calls_ok (rows_of_env env) (ce_wired env)) s"
    and side: "o_object (ca_own s) key = Some (bind_side (ucast (m - 1)) act st zero_side)"
  shows "wp (entry_object env key m l cap) (\<lambda>_. on (calls_ok (rows_of_env env) (ce_wired env))) s"
proof -
  have "on (holding_side (rows_of_env env) (ce_wired env) key (\<lambda>side. \<exists>act st. side = bind_side (ucast (m - 1)) act st zero_side)) s"
    using s side by (auto simp: on_def holding_side_def)
  note run = wp_entry_adapters[OF r this, of l cap "null_cancelled env cap"]
  have rest: "calls_kept env (do { _ \<leftarrow> owned_start_remove env key True; object_fault;
       evidence_add EVIDENCE_START_INSERT_FAILURES; State_Monad.return False })"
    by (intro keeps_then kept_remove keeps_fault keeps_silent keeps_return) simp
  show ?thesis unfolding entry_object_def wp_bind[of "run_adapters _ _ _ _"]
    by (rule wp_conseq[OF run]) (use keeps_wp[OF rest] in \<open>auto simp del: wp_bind\<close>)
qed

lemma wp_entry_call:
  assumes s: "on (calls_ok (rows_of_env env) (ce_wired env)) s"
    and m: "cs_object_required row \<noteq> 0 \<Longrightarrow> \<exists>r act st. descriptor_row (rows_of_env env) (ucast (cs_object_required row - 1)) = Some r
       \<and> o_object (ca_own s) (start_key env) = Some (bind_side (ucast (cs_object_required row - 1)) act st zero_side)"
  shows "wp (entry_call env mode flags l row) (\<lambda>_. on (calls_ok (rows_of_env env) (ce_wired env))) s"
proof -
  let ?I = "calls_ok (rows_of_env env) (ce_wired env)" and ?k = "start_key env"
  let ?J = "on (\<lambda>o' es. ?I o' es \<and> o_object o' ?k = o_object (ca_own s) ?k)"
  have tail: "calls_kept env (if ok \<and> ce_metadata env \<and> mode = 3 then do {
       jumped \<leftarrow> kernel (ask (tail_call_ok (ce_k env)));
       if jumped then p11_entry_template_second_impl env else evidence_add EVIDENCE_TEMPLATE_TAIL_FAILURES }
     else State_Monad.return ())" for ok
    by (intro keeps_then keeps_rules kept_second keeps_silent) simp
  have object: "wp (if cs_object_required start \<noteq> 0 then entry_object env ?k (cs_object_required start) l (cs_capture start)
            else State_Monad.return True) (\<lambda>_. on ?I) s2" if "?J s2" "same_binding row start" for s2 start
  proof (cases "cs_object_required row = 0")
    case True
    then show ?thesis using that by (simp add: same_binding_def on_def)
  next
    case False
    then show ?thesis using m that by (auto simp: same_binding_def on_def intro!: wp_entry_object)
  qed
  have put: "?J s1 \<Longrightarrow> ?J (ca_own_update (\<lambda>_. (ca_own s1)\<lparr>o_start := f\<rparr>) s1)" for s1 f
    by (simp add: on_def calls_ok_def sides_def)
  have call: "wp (capture_call env mode flags l row) (\<lambda>start s1. ?J s1 \<and> same_binding row start) s"
    by (rule keeps_wp[OF capturesD[OF on_cells.captures_call]]) (use s in \<open>simp_all add: on_def\<close>)
  show ?thesis unfolding entry_call_def Let_def wp_bind[of "capture_call _ _ _ _ _"]
  proof (rule wp_conseq[OF call], elim conjE)
    fix start s1 assume s1: "?J s1" "same_binding row start"
    show "wp (do { native (start_put ?k start);
       ok \<leftarrow> (if cs_object_required start \<noteq> 0 then entry_object env ?k (cs_object_required start) l (cs_capture start)
              else State_Monad.return True);
       if ok \<and> ce_metadata env \<and> mode = 3 then do {
         jumped \<leftarrow> kernel (ask (tail_call_ok (ce_k env)));
         if jumped then p11_entry_template_second_impl env else evidence_add EVIDENCE_TEMPLATE_TAIL_FAILURES }
       else State_Monad.return () }) (\<lambda>_. on ?I) s1"
      unfolding wp_bind[of "native _"] wp_bind[of "If _ _ _"] wp_zoom start_put_def wp_oput
      by (rule wp_conseq[OF object[OF put[OF s1(1)] s1(2)]], rule wp_conseq[OF keeps_wp[OF tail]]) simp_all
  qed
qed

lemma kept_entry: "calls_kept env (p11_entry env mode abi)"
proof -
  let ?I = "on (calls_ok (rows_of_env env) (ce_wired env))"
  have begin_call: "calls_kept env (do {
       row \<leftarrow> native (p11_owner_start_begin (ce_own env) (start_key env) seed);
       case row of
         None \<Rightarrow> evidence_add EVIDENCE_START_INSERT_FAILURES
       | Some row \<Rightarrow> entry_call env mode flags l row })" for seed flags l
  proof (rule wp_keeps)
    fix s assume s: "?I s"
    have "sides (side_row (rows_of_env env) (ce_wired env)) (ca_own s)" using s by (simp add: on_def calls_ok_def)
    note g = call_rows.wp_begin_sides[OF this, of "ce_own env" "start_key env" "Some seed" 0]
    show "wp (do {
       row \<leftarrow> native (p11_owner_start_begin (ce_own env) (start_key env) seed);
       case row of
         None \<Rightarrow> evidence_add EVIDENCE_START_INSERT_FAILURES
       | Some row \<Rightarrow> entry_call env mode flags l row }) (\<lambda>_. ?I) s"
      unfolding wp_bind[of "native _"] wp_zoom p11_owner_start_begin_def
    proof (rule wp_conseq[OF g])
      fix row o1 assume o1: "side_contract.granted (side_row (rows_of_env env) (ce_wired env)) (ce_own env) (start_key env) (Some seed) row o1"
      have i: "?I (ca_own_update (\<lambda>_. o1) s)" using o1 s by (simp add: call_rows.granted_def on_def calls_ok_def)
      show "wp (case row of None \<Rightarrow> evidence_add EVIDENCE_START_INSERT_FAILURES | Some row \<Rightarrow> entry_call env mode flags l row)
          (\<lambda>_. ?I) (ca_own_update (\<lambda>_. o1) s)"
      proof (cases row)
        case None
        then show ?thesis using keeps_wp[OF keeps_kernel i] by (simp del: wp_zoom)
      next
        case (Some st)
        have "\<exists>r act st'. descriptor_row (rows_of_env env) (ucast (cs_object_required st - 1)) = Some r
           \<and> o_object o1 (start_key env) = Some (bind_side (ucast (cs_object_required st - 1)) act st' zero_side)"
          if "cs_object_required st \<noteq> 0"
          using o1 verdict_index[OF _ that, of "rows_of_env env"] by (auto simp: call_rows.granted_def Some)
        then show ?thesis unfolding Some option.case by (intro wp_entry_call[OF i]) simp
      qed
    qed
  qed
  have aggregate: "calls_kept env (record_aggregate_start env key)" for key
  proof -
    have "stays (side_row rows wired) (begin_owned_start e key None ts)" for rows wired e ts
      by (rule staysI, rule wp_conseq[OF call_rows.wp_begin_sides], assumption) (simp add: call_rows.granted_def)
    then show ?thesis unfolding record_aggregate_start_def p11_owner_start_aggregate_def
      by (auto intro!: keeps_then keeps_rules keeps_silent keeps_native)
  qed
  have refuse: "calls_kept env (do { _ \<leftarrow> owned_start_remove env key False; evidence_add n })" for key n
    by (intro keeps_then kept_remove keeps_silent)
  have count: "calls_kept env (count_entered slot)" for slot by (rule on_cells.quiet_entered)
  have "calls_kept env (p11_entry_impl env mode abi)"
    unfolding p11_entry_impl_def Let_def
    by (auto intro!: keeps_rules keeps_then[OF kept_scope] keeps_then[OF count] keeps_then[OF keeps_kernel] refuse aggregate begin_call)
  then show ?thesis unfolding p11_entry_def admitted_def by (auto intro!: keeps_then keeps_rules keeps_silent)
qed

section \<open>Return keeps the contract\<close>

lemma adapts_return:
  assumes r: "descriptor_row rows d = Some r"
  shows "adapts (\<lambda>s. ready_row r d l s \<and> (wired \<or> lists_fresh s)) (\<lambda>s. side_inv r d l s \<and> (wired \<or> lists_fresh s))
    (\<lambda>side. object_fill_return rows wb t side rv ms mech (encode_return_gate l True))"
  unfolding adapts_def
proof (intro conjI allI impI)
  fix side assume "ready_row r d l side \<and> (wired \<or> lists_fresh side)"
  then show "gives (object_fill_return rows wb t (Some side) rv ms mech (encode_return_gate l True))
      (\<lambda>(side', ok). \<exists>s'. side' = Some s' \<and> side_inv r d l s' \<and> (wired \<or> lists_fresh s'))"
    by (intro keeps_weaken[OF object_fill_return_keeps[OF r _ decode_encode_return_gate]]) auto
next
  show "gives (object_fill_return rows wb t None rv ms mech (encode_return_gate l True)) (\<lambda>(side', ok). side' = None \<and> \<not> ok)"
    by (auto simp: object_fill_return_def adapter_fill_return_control_def decode_encode_return_gate adapter_fill_return_def Let_def
        intro: keeps_return)
qed

text \<open>What the tail may hold between the emission levels.\<close>

definition tail_open :: "ObjectDescriptorWire \<Rightarrow> LinuxLayout \<Rightarrow> bool \<Rightarrow> ObjectCallWire \<Rightarrow> bool" where
  "tail_open r l wired w \<longleftrightarrow> tail_good r l w
     \<and> (od_action r = OBJECT_ACTION_GET \<longrightarrow> \<not> wired \<longrightarrow> oc_result_attributes w = zero_list\<lparr>al_flags := OBJECT_ATTR_LIST_UNINSPECTED\<rparr>)"

lemma tail_fill_open:
  assumes r: "descriptor_row (publish_object_descriptors fname) d = Some r" and inv: "side_inv r d l side" "wired \<or> lists_fresh side"
    and f: "object_tail_fill (publish_object_descriptors fname) wired (Some w0) (Some side) d = (tail, True)"
  obtains w where "tail = Some w" "tail_open r l wired w" "no_find w" "row_admits r d" "oc_descriptor_index w = d"
proof -
  have a: "row_admits r d" using f r by (auto simp: object_tail_fill_def adapter_tail_fill_def split: if_splits)
  obtain w where w: "tail = Some w" using f by (auto simp: object_tail_fill_def adapter_tail_fill_def r split: if_splits)
  note ok = object_tail_fill_ok[OF r published_row_wf[OF r a] inv f[unfolded w]]
  have "oc_descriptor_index w = d"
    "od_action r = OBJECT_ACTION_GET \<Longrightarrow> oc_result_attributes w = zero_list\<lparr>al_flags := OBJECT_ATTR_LIST_UNINSPECTED\<rparr>"
    using f w by (auto simp: object_tail_fill_def adapter_tail_fill_def r split: if_splits)
  then show ?thesis using that[OF w _ ok(3) a] ok by (simp add: tail_open_def)
qed

lemma gives_emit_find:
  assumes wb: "word_bytes_ok wb" and r: "descriptor_row rows d = Some r" and w: "tail_open r l wired w" "no_find w"
    and side: "find_side = None \<or> find_side = Some side"
  shows "gives (object_emit_find rows t (Some w) find_side d rv (encode_return_gate l True))
    (\<lambda>(tail, found). found \<longrightarrow> (\<exists>w'. tail = Some w' \<and> tail_open r l wired w'))"
proof (cases find_side)
  case None
  then show ?thesis
    by (simp add: object_emit_find_def adapter_emit_find_control_def decode_encode_return_gate adapter_emit_find_def keeps_return)
next
  case (Some s)
  show ?thesis
  proof (cases "od_action r = OBJECT_ACTION_FIND")
    case True
    have "tail_good r l w" using w by (simp add: tail_open_def)
    from object_emit_find_keeps[OF wb this w(2) r decode_encode_return_gate, of t s rv True] show ?thesis
      unfolding Some by (rule keeps_weaken) (use True in \<open>auto simp: tail_open_def\<close>)
  next
    case False
    then show ?thesis using w
      by (auto simp: Some object_emit_find_def adapter_emit_find_control_def decode_encode_return_gate adapter_emit_find_def r
          intro!: keeps_return)
  qed
qed

lemma gives_emit_get:
  assumes r: "descriptor_row rows d = Some r" and w: "tail_open r l wired w" and inv: "side_inv r d l side"
    and side: "get_side = None \<or> get_side = Some side"
  shows "gives (object_emit_get_attributes rows bpf wb wired t (Some w) get_side d rv (encode_return_gate l True))
    (\<lambda>(tail, emitted). emitted \<longrightarrow> (\<exists>w'. tail = Some w' \<and> tail_good r l w'))"
proof (cases get_side)
  case None
  then show ?thesis
    by (simp add: object_emit_get_attributes_def adapter_emit_get_control_def decode_encode_return_gate adapter_emit_get_attributes_def keeps_return)
next
  case (Some s)
  then have s: "get_side = Some side" using side by simp
  have "tail_good r l w" using w by (simp add: tail_open_def)
  then have "gives (object_emit_get_attributes rows bpf wb wired t (Some w) (Some side) d rv (encode_return_gate l True))
      (\<lambda>(tail, ok). \<exists>w. tail = Some w \<and> tail_good r l w)"
    by (rule object_emit_get_keeps[OF _ r inv _ decode_encode_return_gate]) (use w in \<open>auto simp: tail_open_def\<close>)
  then show ?thesis unfolding s by (rule keeps_weaken) auto
qed

lemma tail_good_record:
  "descriptor_row rows d = Some r \<Longrightarrow> row_admits r d \<Longrightarrow> tail_good r l w \<Longrightarrow> record_ok rows (ObjectEventRecord ev c w)"
proof -
  assume r: "descriptor_row rows d = Some r" "row_admits r d" "tail_good r l w"
  then have "oc_descriptor_index w - 1 = d - 1" by (auto simp: object_call_ok_def row_names_def row_admits_def)
  then have "oc_descriptor_index w = d" by simp
  then show ?thesis using r by (auto simp: record_ok_def)
qed

lemma wp_query:
  assumes s: "on (holding_side rows wired key ((=) side)) s"
  shows "wp (native (p11_object_side_get e key d required))
    (\<lambda>v s'. on (holding_side rows wired key ((=) side)) s' \<and> (v = None \<or> v = Some side)) s"
  unfolding wp_zoom
  by (rule wp_conseq[OF wp_side_handed], case_tac x)
    (use s in \<open>auto simp: handed_def on_def holding_side_def calls_ok_books frame_rows\<close>)

text \<open>A tail that may be submitted.\<close>

abbreviation emitted_ok :: "call_env \<Rightarrow> ObjectCallWire option \<Rightarrow> call_state \<Rightarrow> bool" where
  "emitted_ok env \<equiv> \<lambda>tail s'. on (calls_ok (rows_of_env env) (ce_wired env)) s'
    \<and> (\<forall>w. tail = Some w \<longrightarrow> (\<forall>ev c. record_ok (rows_of_env env) (ObjectEventRecord ev c w)))"

abbreviation holds_row :: "call_env \<Rightarrow> ObjectStart \<Rightarrow> call_state \<Rightarrow> bool" where
  "holds_row env side \<equiv> on (holding_side (rows_of_env env) (ce_wired env) (start_key env) ((=) side))"

lemma holds_row_calls: "holds_row env side s \<Longrightarrow> on (calls_ok (rows_of_env env) (ce_wired env)) s"
  by (simp add: on_def holding_side_def)

lemma wp_object_emit:
  assumes wb: "word_bytes_ok (wb_of env)" and r: "descriptor_row (rows_of_env env) d = Some r" "row_admits r d"
    and w: "tail_open r l (ce_wired env) w" "no_find w" and h: "holds_row env side s" and inv: "side_inv r d l side"
    and f: "find_side = None \<or> find_side = Some side" and g: "get_side = None \<or> get_side = Some side"
  shows "wp (object_emit env d l rv (Some w) find_side get_side) (emitted_ok env) s"
proof -
  let ?rows = "rows_of_env env" and ?gate = "encode_return_gate l True"
  let ?get = "\<lambda>tail. object_emit_get_attributes ?rows (ce_bpf env) (wb_of env) (ce_wired env) (ce_target env) tail get_side d rv ?gate"
  have get: "wp (do { (tail, emitted) \<leftarrow> reading (?get (Some w')); State_Monad.return (if emitted then tail else None) }) (emitted_ok env) s2"
    if "tail_open r l (ce_wired env) w'" "holds_row env side s2" for w' s2
    unfolding wp_bind wp_zoom
    by (rule wp_gives[OF gives_emit_get[OF r(1) that(1) inv g]])
      (use holds_row_calls[OF that(2)] tail_good_record[OF r] in \<open>auto simp: on_def split: if_splits\<close>)
  have "wp (reading (object_emit_find ?rows (ce_target env) (Some w) find_side d rv ?gate))
      (\<lambda>x s2. holds_row env side s2 \<and> (snd x \<longrightarrow> (\<exists>w'. fst x = Some w' \<and> tail_open r l (ce_wired env) w'))) s"
    unfolding wp_zoom
    by (rule wp_gives[OF gives_emit_find[OF wb r(1) w f]]) (use h in \<open>auto simp: on_def\<close>)
  then show ?thesis unfolding object_emit_def Let_def wp_bind[of "reading (object_emit_find _ _ _ _ _ _ _)"]
  proof (rule wp_conseq)
    fix x s2 assume x: "holds_row env side s2 \<and> (snd x \<longrightarrow> (\<exists>w'. fst x = Some w' \<and> tail_open r l (ce_wired env) w'))"
    then show "wp (case x of (tail, found) \<Rightarrow> if \<not> found then State_Monad.return None
         else do { (tail, emitted) \<leftarrow> reading (?get tail); State_Monad.return (if emitted then tail else None) }) (emitted_ok env) s2"
      using get holds_row_calls by (cases x; cases "snd x") (auto simp del: wp_bind)
  qed
qed

lemma wp_object_sections:
  assumes rows: "rows_of_env env = publish_object_descriptors fname" and wb: "word_bytes_ok (wb_of env)"
    and r: "descriptor_row (rows_of_env env) d = Some r" and h: "holds_row env side s"
    and inv: "side_inv r d l side" "ce_wired env \<or> lists_fresh side" and v: "tail_side = None \<or> tail_side = Some side"
  shows "wp (object_sections env d l rv (object_tail_fill (rows_of_env env) (ce_wired env) (Some w0) tail_side d)) (emitted_ok env) s"
proof -
  let ?q = "native (p11_object_side_get (ce_own env) (start_key env) d False)"
  obtain tail tailed where t: "object_tail_fill (rows_of_env env) (ce_wired env) (Some w0) tail_side d = (tail, tailed)" by fastforce
  have fin: "wp (if \<not> tailed then State_Monad.return None else object_emit env d l rv tail find_side get_side) (emitted_ok env) s3"
    if "holds_row env side s3" "find_side = None \<or> find_side = Some side" "get_side = None \<or> get_side = Some side" for s3 find_side get_side
  proof (cases tailed)
    case False
    then show ?thesis using holds_row_calls[OF that(1)] by simp
  next
    case True
    then have "tail_side = Some side" using v t by (auto simp: object_tail_fill_def adapter_tail_fill_def)
    then have t': "object_tail_fill (publish_object_descriptors fname) (ce_wired env) (Some w0) (Some side) d = (tail, True)"
      using t True rows by simp
    obtain w where "tail = Some w" "tail_open r l (ce_wired env) w" "no_find w" "row_admits r d"
      by (rule tail_fill_open[OF r[unfolded rows] inv t'])
    then show ?thesis using wp_object_emit[OF wb r _ _ _ that(1) inv(1) that(2,3)] True by simp
  qed
  show ?thesis unfolding object_sections_def t prod.case Let_def wp_bind[of ?q]
    by (rule wp_conseq[OF wp_query[OF h]], elim conjE, rule wp_conseq[OF wp_query], assumption, elim conjE, rule fin)
qed

lemma wp_object_tail:
  assumes rows: "rows_of_env env = publish_object_descriptors fname" and wb: "word_bytes_ok (wb_of env)"
    and r: "descriptor_row (rows_of_env env) d = Some r"
    and s: "on (holding_side (rows_of_env env) (ce_wired env) (start_key env)
       (\<lambda>s. ready_row r d l s \<and> (ce_wired env \<or> lists_fresh s))) s"
  shows "wp (object_tail env d l facts) (emitted_ok env) s"
proof -
  let ?rows = "rows_of_env env" and ?wired = "ce_wired env" and ?k = "start_key env"
  let ?q = "native (p11_object_side_get (ce_own env) ?k d False)"
  have query: "calls_kept env ?q" by (rule keeps_native, rule staysI, rule wp_conseq[OF wp_side_handed])
    (auto simp: handed_def sides_def frame_rows)
  have unfilled: "wp (do { _ \<leftarrow> ?q; object_sections env d l rv (x, False) }) (emitted_ok env) s1" if "on (calls_ok ?rows ?wired) s1" for s1 rv x
    using keeps_wp[OF keeps_then[OF query keeps_then[OF query query]] that] by (auto simp: object_sections_def Let_def intro: wp_conseq)
  have filled: "wp (do { tail_side \<leftarrow> ?q; object_sections env d l rv (object_tail_fill ?rows ?wired (Some w0) tail_side d) }) (emitted_ok env) s1"
    if h: "on (holding_side ?rows ?wired ?k (\<lambda>s. side_inv r d l s \<and> (?wired \<or> lists_fresh s))) s1" for s1 w0 rv
  proof -
    obtain side where side: "holds_row env side s1" "side_inv r d l side" "?wired \<or> lists_fresh side"
      using h by (auto simp: on_def holding_side_def)
    show ?thesis unfolding wp_bind[of ?q]
      by (rule wp_conseq[OF wp_query[OF side(1)]], elim conjE, rule wp_object_sections[OF rows wb r _ side(2,3)])
  qed
  have row: "side_row ?rows ?wired x" if "side_inv r d l x \<and> (?wired \<or> lists_fresh x)" for x
    using that entry_row_side[OF r] by blast
  show ?thesis unfolding object_tail_def Let_def wp_bind[of "side_step _ _ _ _ _"]
    by (rule wp_conseq[OF wp_side_step[OF s adapts_return[OF r] row]], assumption, case_tac x)
      (use filled unfilled in \<open>simp_all del: wp_bind\<close>)
qed

lemma kept_event: "calls_kept env (submit_event (EventRecord ev c))"
  unfolding submit_event_def by (rule keepsI) (auto simp: cput_def on_def calls_ok_def record_ok_def)

lemmas kept_basic = keeps_rules keeps_silent keeps_fault kept_remove kept_discard kept_event on_cells.quiet_room on_cells.quiet_account on_cells.quiet_facts

lemma kept_refused: "calls_kept env (object_refused env reason)"
  unfolding object_refused_def by (auto intro!: keeps_then kept_basic)

lemma kept_ordinary: "calls_kept env (ordinary_return env start flags l)"
  unfolding ordinary_return_def by (auto intro!: keeps_then kept_basic)

lemma kept_refused_join: "calls_kept env (refused_join env base)"
  unfolding refused_join_def preserve_refused_base_def by (auto intro!: keeps_then kept_basic)

lemma wp_object_emission:
  assumes rows: "rows_of_env env = publish_object_descriptors fname" and wb: "word_bytes_ok (wb_of env)"
    and r: "descriptor_row (rows_of_env env) d = Some r"
    and s: "on (holding_side (rows_of_env env) (ce_wired env) (start_key env)
       (\<lambda>s. ready_row r d l s \<and> (ce_wired env \<or> lists_fresh s))) s"
  shows "wp (object_emission env d l start facts) (\<lambda>_. on (calls_ok (rows_of_env env) (ce_wired env))) s"
proof -
  let ?I = "on (calls_ok (rows_of_env env) (ce_wired env))"
  have s0: "?I s" using s by (simp add: on_def holding_side_def)
  have lost: "calls_kept env (do { object_fault; evidence_add EVIDENCE_UNMATCHED_RETURNS })" by (auto intro!: keeps_then kept_basic)
  have submit: "calls_kept env (submit_event (ObjectEventRecord ev c w))" if "record_ok (rows_of_env env) (ObjectEventRecord ev c w)" for ev c w
    unfolding submit_event_def by (rule keepsI) (use that in \<open>auto simp: cput_def on_def calls_ok_def\<close>)
  have close: "calls_kept env (do {
       outcome \<leftarrow> emission_finalize (tail \<noteq> None) (owned_start_remove env (start_key env) True);
       case (submitted outcome, tail) of
         (True, Some wire) \<Rightarrow> submit_event (ObjectEventRecord base c wire)
       | _ \<Rightarrow> do { object_fault; evidence_add EVIDENCE_UNMATCHED_RETURNS } })"
    if "\<forall>w. tail = Some w \<longrightarrow> (\<forall>ev c. record_ok (rows_of_env env) (ObjectEventRecord ev c w))" for tail base c
    unfolding emission_finalize_def
    by (auto intro!: keeps_then kept_remove keeps_return lost submit that[rule_format] split: bool.split option.split)
  show ?thesis
  proof (cases "continuity_joins (ce_continuity env)")
    case False
    then show ?thesis using keeps_wp[OF kept_refused_join s0] by (simp add: object_emission_def Let_def)
  next
    case True
    then have e: "\<not> continuity_joins (ce_continuity env) \<longleftrightarrow> False" by simp
    show ?thesis unfolding object_emission_def Let_def e if_False wp_bind[of "object_tail _ _ _ _"]
      by (rule wp_conseq[OF wp_object_tail[OF rows wb r s]], elim conjE, rule wp_conseq[OF keeps_wp[OF close]]) simp_all
  qed
qed

end
