(* ===== verification/P11_Call_Run.thy ===== *)
theory P11_Call_Run
  imports P11_Call_Safety
begin

text \<open>
  Runs of the call probes. The return half keeps the contract of side rows and records,
  so every sequence of entries, returns, task exits and discovery calls submits only
  object records the validator of userspace accepts. Then what one return owes the
  operator: it settles its START row or raises the fault, and it publishes the call or
  discloses the loss; and what the aggregate policy may touch.
\<close>

section \<open>The return half\<close>

lemma wp_step: "keeps I m Q \<Longrightarrow> I s \<Longrightarrow> (\<And>x s'. I s' \<Longrightarrow> wp (f x) R s') \<Longrightarrow> wp (State_Monad.bind m f) R s"
  by (simp add: wp_conseq[OF keeps_wp])

lemma wp_if: "(b \<Longrightarrow> wp m R s) \<Longrightarrow> (\<not> b \<Longrightarrow> wp n R s) \<Longrightarrow> wp (if b then m else n) R s"
  by simp

lemma wp_snd: "wp m (\<lambda>_. P) s = P (snd (run_state m s))"
  by (simp add: wp_def split_beta)

lemma kept_run: "calls_kept env m \<Longrightarrow> on (holding_side (rows_of_env env) (ce_wired env) key P) s \<Longrightarrow>
    wp m (\<lambda>_. on (calls_ok (rows_of_env env) (ce_wired env))) s"
  using wp_conseq[OF keeps_wp] by (fastforce simp: on_def holding_side_def)

text \<open>A ready row whose retained layout agrees with the return was filled by the entry.\<close>

lemma ready_side:
  assumes row: "side_row rows wired v" and v: "os_descriptor_index v = d" "os_phase v = OBJECT_PHASE_READY"
    and agree: "side_agrees (Some v) d l"
  obtains r where "descriptor_row rows d = Some r" "ready_row r d l v" "wired \<or> lists_fresh v"
proof -
  have "filled_side rows wired v" using row v(2) by (auto simp: side_row_def fresh_side_def bind_side_def)
  then obtain r l' where r: "descriptor_row rows d = Some r" "side_inv r d l' v" "wired \<or> lists_fresh v"
    using v(1) by (auto simp: filled_side_def)
  then have "layout_code l' = 0 \<or> layout_code l' = layout_code l" using agree by (auto simp: side_inv_def side_agrees_def)
  then have "l' = l" by (cases l; cases l'; simp add: layout_code_def)
  then show ?thesis using that[OF r(1)] r v(2) by simp
qed

lemma wp_object_agreed:
  assumes rows: "rows_of_env env = publish_object_descriptors fname" and wb: "word_bytes_ok (wb_of env)"
    and r: "descriptor_row (rows_of_env env) d = Some r"
    and s: "on (holding_side (rows_of_env env) (ce_wired env) (start_key env)
       (\<lambda>s. ready_row r d l s \<and> (ce_wired env \<or> lists_fresh s))) s"
  shows "wp (do {
         accounting \<leftarrow> account_return env slot ts l;
         if flags AND FLAG_POLICY_AGGREGATE \<noteq> 0 then do {
           retired \<leftarrow> owned_start_remove env (start_key env) True;
           if retired then State_Monad.return () else do { object_fault; evidence_add EVIDENCE_UNMATCHED_RETURNS } }
         else if image_lost env start then object_refused env EVIDENCE_SEMANTIC_CAPTURE_FAILURES
         else do {
           facts \<leftarrow> capture_return_facts env start flags l accounting;
           room \<leftarrow> ring_room env;
           if \<not> room then do {
             retired \<leftarrow> owned_start_remove env (start_key env) True;
             (if retired then State_Monad.return () else object_fault);
             evidence_add EVIDENCE_RING_LOSS }
           else object_emission env d l start facts } })
    (\<lambda>_. on (calls_ok (rows_of_env env) (ce_wired env))) s"
proof -
  have agg: "calls_kept env (do { retired \<leftarrow> owned_start_remove env (start_key env) True;
       if retired then State_Monad.return () else do { object_fault; evidence_add EVIDENCE_UNMATCHED_RETURNS } })"
    by (auto intro!: keeps_then kept_basic)
  have lost: "calls_kept env (do { retired \<leftarrow> owned_start_remove env (start_key env) True;
       (if retired then State_Monad.return () else object_fault); evidence_add EVIDENCE_RING_LOSS })"
    by (auto intro!: keeps_then kept_basic)
  show ?thesis
    apply (rule wp_step[OF on_cells.quiet_account s])
    apply (rule wp_if, erule kept_run[OF agg])
    apply (rule wp_if, erule kept_run[OF kept_refused])
    apply (erule wp_step[OF on_cells.quiet_facts], erule wp_step[OF on_cells.quiet_room])
    apply (rule wp_if, erule kept_run[OF lost])
    apply (erule wp_object_emission[OF rows wb r])
    done
qed

lemma kept_object_return:
  assumes rows: "rows_of_env env = publish_object_descriptors fname" and wb: "word_bytes_ok (wb_of env)"
  shows "calls_kept env (object_return_ordinary env start flags l)"
proof (rule wp_keeps)
  let ?I = "on (calls_ok (rows_of_env env) (ce_wired env))" and ?d = "cookie_descriptor (cookie_of (ce_ctx env))"
  fix s assume s: "?I s"
  have refused: "wp (object_refused env reason) (\<lambda>_. ?I) s'" if "?I s'" for s' reason
    using wp_conseq[OF keeps_wp[OF kept_refused that]] by simp
  show "wp (object_return_ordinary env start flags l) (\<lambda>_. ?I) s"
    unfolding object_return_ordinary_def Let_def wp_bind[of "native _"] wp_zoom
  proof (rule wp_conseq[OF wp_side_handed], goal_cases)
    case (1 ready o1)
    let ?s1 = "ca_own_update (\<lambda>_. o1) s"
    have i: "?I ?s1" using 1 s by (auto simp: handed_def on_def calls_ok_books)
    show ?case
    proof (cases ready)
      case None
      then show ?thesis using refused[OF i] by simp
    next
      case (Some v)
      then have v: "o_object o1 (start_key env) = Some v" "os_descriptor_index v = ?d" "os_phase v = OBJECT_PHASE_READY"
        using 1 by (auto simp: handed_def frame_rows)
      then have h: "holds_row env v ?s1" using i by (simp add: on_def holding_side_def)
      have row: "side_row (rows_of_env env) (ce_wired env) v" using v(1) i by (auto simp: on_def calls_ok_def sides_def)
      note q = wp_query[OF h, unfolded wp_zoom, of "ce_own env" ?d False]
      have ne: "(Some v = None) = False" by simp
      show ?thesis unfolding Some ne if_False wp_bind[of "native _"] wp_zoom
      proof (rule wp_conseq[OF q], goal_cases)
        case (1 side o2)
        then have h2: "holds_row env v (ca_own_update (\<lambda>_. o2) ?s1)" by simp
        show ?case
        proof (cases "side_agrees side ?d l")
          case False
          then show ?thesis using refused[OF holds_row_calls[OF h2]] by simp
        next
          case True
          then have "side_agrees (Some v) ?d l" using 1 by (auto simp: side_agrees_def)
          then obtain r where r: "descriptor_row (rows_of_env env) ?d = Some r" "ready_row r ?d l v" "ce_wired env \<or> lists_fresh v"
            by (rule ready_side[OF row v(2,3)])
          have "on (holding_side (rows_of_env env) (ce_wired env) (start_key env)
             (\<lambda>s. ready_row r ?d l s \<and> (ce_wired env \<or> lists_fresh s))) (ca_own_update (\<lambda>_. o2) ?s1)"
            using h2 r by (auto simp: on_def holding_side_def)
          from wp_object_agreed[OF rows wb r(1) this] True show ?thesis by (simp del: wp_bind)
        qed
      qed
    qed
  qed
qed

lemma kept_unscoped: "calls_kept env (return_unscoped env)"
  unfolding return_unscoped_def
  by (auto intro!: keeps_then kept_basic keeps_native call_rows.stays_start_remove)

lemma kept_return:
  assumes "rows_of_env env = publish_object_descriptors fname" "word_bytes_ok (wb_of env)"
  shows "calls_kept env (p11_return env)"
proof -
  have "calls_kept env (p11_return_impl env)"
    unfolding p11_return_impl_def
    by (auto intro!: keeps_rules keeps_then kept_scope kept_basic kept_unscoped kept_ordinary kept_object_return[OF assms]
        keeps_native stays_start_get)
  then show ?thesis unfolding p11_return_def admitted_def by (auto intro!: keeps_then keeps_rules keeps_silent)
qed

lemma kept_exit: "calls_kept env (exit_cleanup env)"
  unfolding exit_cleanup_def by (auto intro!: keeps_then kept_basic keeps_native call_rows.stays_cleanup)

section \<open>What a return owes\<close>

text \<open>A removal that reports success has taken the row away, whatever the helpers answered.\<close>

definition gone :: "owner_start_key \<Rightarrow> ostate \<Rightarrow> bool" where
  "gone key s \<longleftrightarrow> o_start s key = None"

lemma gone_frame: "frame m \<Longrightarrow> keeps (gone key) m (\<lambda>_. True)"
  by (rule wp_keeps, erule wp_frame) (simp add: gone_def frame_rows)

lemma gone_put: "(\<And>s. o_start (f s) = o_start s) \<Longrightarrow> keeps (gone key) (oput f) (\<lambda>_. True)"
  by (rule keepsI) (auto simp: gone_def oput_def)

lemmas gone_basic = keeps_then keeps_rules gone_put frame_basic[THEN gone_frame] frame_account[THEN gone_frame] frame_lookup[THEN gone_frame]
  frame_checks[THEN gone_frame]

lemma gone_release: "gone key s \<Longrightarrow> wp (release_empty env) (\<lambda>_. gone key) s"
proof -
  have "keeps (gone key) refund_local (\<lambda>_. True)"
    unfolding refund_local_def refund_with_def add_outstanding_def by (auto intro!: gone_basic)
  then have "keeps (gone key) (release_empty env) (\<lambda>_. True)"
    unfolding release_empty_def p11_owner_refund_def owner_set_def by (auto intro!: gone_basic)
  then show "gone key s \<Longrightarrow> wp (release_empty env) (\<lambda>_. gone key) s"
    using keeps_wp wp_conseq by fastforce
qed

lemma wp_prefix: "(\<And>x s'. wp (f x) Q s') \<Longrightarrow> wp (State_Monad.bind m f) Q s"
  by (simp add: wp_any)

lemma wp_remove_gone: "wp (p11_owner_start_remove env key required) (\<lambda>rc s'. rc = 0 \<longrightarrow> gone key s') s"
proof -
  have del: "wp (start_delete env key) (\<lambda>rc s'. rc = 0 \<longrightarrow> gone key s') s1" for s1
    by (simp add: row_delete_def Let_def gone_def)
  have kept: "gone key s1 \<Longrightarrow> gone key (s1\<lparr>o_owners := x\<rparr>)" for s1 x by (simp add: gone_def)
  have erase: "wp (do { rc \<leftarrow> start_delete env key;
       if rc \<noteq> 0 then do { poison OWNER_STATE_DELETE_FAILED; State_Monad.return rc }
       else do { owner_set env f; State_Monad.return v } }) (\<lambda>rc s'. rc = 0 \<longrightarrow> gone key s') s1" for f v s1
    unfolding wp_bind[of "start_delete _ _"]
    by (rule wp_conseq[OF del], case_tac "x = 0") (auto intro!: wp_any kept simp: owner_set_def)
  have fails: "wp (do { m; State_Monad.return (- 1) }) (\<lambda>rc s'. rc = (0::int) \<longrightarrow> gone key s') s1" for m :: "unit own" and s1
    by (rule wp_prefix) simp
  have row: "wp (remove_start env key) (\<lambda>rc s'. rc = 0 \<longrightarrow> gone key s') s1" for s1
    unfolding remove_start_def
    by (rule wp_prefix, rule wp_prefix)
      (auto simp del: wp_bind split: option.split intro!: fails wp_prefix[where m = "object_side_for_remove _ _ _"] erase)
  have body: "wp (do {
         rc \<leftarrow> remove_start env key;
         released \<leftarrow> release_empty env;
         State_Monad.return (if rc \<noteq> 0 then rc else if \<not> released then - 1 else 0) }) (\<lambda>rc s'. rc = 0 \<longrightarrow> gone key s') s1" for s1
    unfolding wp_bind[of "remove_start _ _"]
  proof (rule wp_conseq[OF row])
    fix rc :: int and s2 assume "rc = 0 \<longrightarrow> gone key s2"
    then show "wp (do { released \<leftarrow> release_empty env; State_Monad.return (if rc \<noteq> 0 then rc else if \<not> released then - 1 else 0) })
        (\<lambda>rc s'. rc = 0 \<longrightarrow> gone key s') s2"
      by (cases "rc = 0") (simp_all add: wp_any wp_conseq[OF gone_release])
  qed
  show ?thesis unfolding p11_owner_start_remove_def with_owner_def absent_verdict_def
    apply (rule wp_prefix, rule wp_prefix, rule wp_if, simp)
    apply (rule wp_prefix, rule wp_if)
     apply (rule wp_prefix, rule wp_prefix, simp)
    apply (rule wp_prefix, rule wp_if, simp)
    apply (rule wp_prefix, rule wp_if, rule fails, rule body)
    done
qed

lemma remove_cases:
  "(\<And>ok t. (ok \<Longrightarrow> gone key t) \<Longrightarrow> Q ok (ca_own_update (\<lambda>_. t) s)) \<Longrightarrow> wp (owned_start_remove env key required) Q s"
  unfolding owned_start_remove_def wp_bind wp_zoom by (rule wp_conseq[OF wp_remove_gone]) simp

lemma wp_bump [simp]: "wp (bump_evidence i) Q = (\<lambda>s. Q () (s\<lparr>evidence := (evidence s)(i := evidence s i + 1)\<rparr>))"
  by (simp add: wp_def bump_evidence_def fun_eq_iff)

lemma wp_fault [simp]: "wp object_fault Q = (\<lambda>s. Q () (s\<lparr>ca_faults := ca_faults s + 1\<rparr>))"
  by (simp add: object_fault_def)

lemma wp_submit [simp]: "wp (submit_event r) Q = (\<lambda>s. Q () (s\<lparr>ca_events := ca_events s @ [r]\<rparr>))"
  by (simp add: submit_event_def)

text \<open>Since the state \<open>s0\<close> no event was submitted, no evidence in \<open>A\<close> counted and no fault
  taken back; the custody object satisfies \<open>P\<close>.\<close>

definition since :: "nat set \<Rightarrow> (ostate \<Rightarrow> bool) \<Rightarrow> call_state \<Rightarrow> call_state \<Rightarrow> bool" where
  "since A P s0 s \<longleftrightarrow> ca_events s = ca_events s0 \<and> (\<forall>i\<in>A. evidence (ca_k s) i = evidence (ca_k s0) i)
     \<and> ca_faults s0 \<le> ca_faults s \<and> P (ca_own s)"

lemma since_kernel:
  assumes "\<And>s. wp m (\<lambda>_ s'. evidence s' = evidence s) s"
  shows "keeps (since A P s0) (kernel m) (\<lambda>_. True)"
proof (rule wp_keeps, unfold wp_zoom)
  fix s assume "since A P s0 s"
  then show "wp m (\<lambda>_ t. since A P s0 (ca_k_update (\<lambda>_. t) s)) (ca_k s)"
    by (intro wp_conseq[OF assms]) (simp add: since_def)
qed

lemma since_ask: "keeps (since A P s0) (kernel (ask f)) (\<lambda>_. True)"
  by (rule since_kernel) (simp add: wp_def ask_def)

lemma since_evidence: "i \<notin> A \<Longrightarrow> keeps (since A P s0) (evidence_add i) (\<lambda>_. True)"
  by (rule wp_keeps) (auto simp: since_def)

lemma since_reading: "gives m Q \<Longrightarrow> keeps (since A P s0) (reading m) Q"
  by (rule keepsI) (auto simp: zoom_def since_def dest: keepsD split: prod.splits)

lemma since_cput: "(\<And>s. ca_own (f s) = ca_own s \<and> ca_events (f s) = ca_events s \<and> ca_k (f s) = ca_k s \<and> ca_faults (f s) = ca_faults s)
    \<Longrightarrow> keeps (since A P s0) (cput f) (\<lambda>_. True)"
  by (rule keepsI) (auto simp: cput_def since_def)

lemma since_cget: "keeps (since A P s0) (cget f) (\<lambda>_. True)"
  by (rule keepsI) (auto simp: cget_def)

lemma since_native: "keeps (since A (\<lambda>_. True) s0) (native m) (\<lambda>_. True)"
  by (rule wp_keeps) (auto simp: since_def wp_def split: prod.splits)

lemmas since_basic = keeps_then keeps_rules since_ask since_evidence since_reading[OF gives_True] since_cput since_cget since_native

text \<open>The accounting of a return and the facts it captures.\<close>

lemma since_account:
  assumes "EVIDENCE_RV_UPDATE_FAILURES \<notin> A"
  shows "keeps (since A P s0) (account_return env slot ns l)
    (\<lambda>a. ra_rv a = normalize_target_word (ret_value (ce_ctx env)) l \<and> ra_delta a = saturating_sub (ra_now a) ns)"
proof -
  have "keeps (since A P s0) (rv_count_add env key) (\<lambda>_. True)" for key
    unfolding rv_count_add_def by (auto intro!: since_basic)
  then show ?thesis unfolding account_return_def Let_def using assms
    by (auto intro!: since_basic)
qed

lemma since_facts:
  assumes "EVIDENCE_SEMANTIC_CAPTURE_FAILURES \<notin> A" "EVIDENCE_UNREGISTERED_MECHANISMS \<notin> A"
  shows "keeps (since A P s0) (capture_return_facts env start flags l a)
    (\<lambda>f. rf_rv f = ra_rv a \<and> rf_ts_ns f = ra_now a \<and> rf_duration_ns f = ra_delta a)"
proof -
  have "keeps (since A P s0) (return_mechanism env start flags l rv) (\<lambda>_. True)" "keeps (since A P s0) (return_session env start l rv) (\<lambda>_. True)"
    "keeps (since A P s0) (async_get_id_fact env p rv c l out) (\<lambda>_. True)" for rv p c out
    unfolding return_mechanism_def return_session_def async_get_id_fact_def Let_def using assms
    by (auto intro!: since_basic)
  then show ?thesis unfolding capture_return_facts_def
    by (auto intro!: since_basic)
qed

lemma since_room: "keeps (since A P s0) (ring_room env) (\<lambda>_. True)"
  unfolding ring_room_def by (rule since_ask)

lemma wp_step_with: "keeps I m Q \<Longrightarrow> I s \<Longrightarrow> (\<And>x s'. I s' \<Longrightarrow> Q x \<Longrightarrow> wp (f x) R s') \<Longrightarrow> wp (State_Monad.bind m f) R s"
  by (simp add: wp_conseq[OF keeps_wp])

text \<open>The debt of a return: the START row is settled or a fault raised, and either exactly one
  event of this call, with its result and its duration, was submitted or a loss counted.
  More than one counter may tell of the same loss: a refused join whose output fails counts
  the ring loss and the unmatched return, and an unreadable mechanism is counted before
  the ring refuses the event. Neither of the first two counters moves twice, and ring loss
  is counted only when nothing was submitted.\<close>

definition event_of :: "call_record \<Rightarrow> Event" where
  "event_of r = (case r of EventRecord ev _ \<Rightarrow> ev | ObjectEventRecord ev _ _ \<Rightarrow> ev)"

definition return_facts :: "call_env \<Rightarrow> CallStart \<Rightarrow> LinuxLayout \<Rightarrow> ReturnEventFacts \<Rightarrow> bool" where
  "return_facts env start l facts \<longleftrightarrow> rf_rv facts = normalize_target_word (ret_value (ce_ctx env)) l
     \<and> rf_duration_ns facts = saturating_sub (rf_ts_ns facts) (cs_ts_ns start)"

definition counted_loss :: "call_state \<Rightarrow> call_state \<Rightarrow> bool" where
  "counted_loss s s' \<longleftrightarrow> (\<exists>i \<in> {EVIDENCE_RING_LOSS, EVIDENCE_UNMATCHED_RETURNS, EVIDENCE_SEMANTIC_CAPTURE_FAILURES}.
     evidence (ca_k s') i = evidence (ca_k s) i + 1)"

definition discharged :: "call_env \<Rightarrow> CallStart \<Rightarrow> LinuxLayout \<Rightarrow> call_state \<Rightarrow> call_state \<Rightarrow> bool" where
  "discharged env start l s s' \<longleftrightarrow>
     (gone (start_key env) (ca_own s') \<or> ca_faults s < ca_faults s')
     \<and> (\<forall>i \<in> {EVIDENCE_RING_LOSS, EVIDENCE_UNMATCHED_RETURNS}.
          evidence (ca_k s') i = evidence (ca_k s) i \<or> evidence (ca_k s') i = evidence (ca_k s) i + 1)
     \<and> (ca_events s' = ca_events s \<and> counted_loss s s'
        \<or> (\<exists>e facts. ca_events s' = ca_events s @ [e] \<and> return_facts env start l facts \<and> event_of e = base_event env start facts)
          \<and> evidence (ca_k s') EVIDENCE_RING_LOSS = evidence (ca_k s) EVIDENCE_RING_LOSS)"

lemmas debt = discharged_def counted_loss_def since_def event_of_def

lemma pays_refusal:
  assumes "since {0, 2, 5} (\<lambda>_. True) s0 s" "reason \<in> {2, 5}"
  shows "wp (object_refused env reason) (\<lambda>_. discharged env start l s0) s"
  unfolding object_refused_def wp_bind[of "owned_start_remove _ _ _"]
  by (rule remove_cases) (use assms in \<open>auto simp: debt\<close>)

lemma pays_ordinary:
  assumes "flags AND FLAG_POLICY_AGGREGATE = 0"
  shows "wp (ordinary_return env start flags l) (\<lambda>_. discharged env start l s) s"
  unfolding ordinary_return_def wp_bind[of "owned_start_remove _ _ _"]
proof (rule remove_cases, goal_cases)
  case (1 ok t)
  let ?s = "ca_own_update (\<lambda>_. t) s" and ?P = "gone (start_key env)"
  show ?case
  proof (cases ok)
    case False
    then show ?thesis by (simp add: debt)
  next
    case True
    then have s1: "since {0, 2, 5} ?P s ?s" using 1 by (simp add: since_def)
    have flags: "(flags AND FLAG_POLICY_AGGREGATE \<noteq> 0) = False" "(\<not> ok) = False" using assms True by simp_all
    show ?thesis unfolding flags if_False
    proof (rule wp_step_with[OF since_account s1], simp, rule wp_if, goal_cases)
      case (1 a s')
      then show ?case by (auto simp: debt)
    next
      case (2 a s')
      then have s2: "since {0, 2} ?P s s'" by (auto simp: since_def)
      have a: "return_facts env start l f" if "rf_rv f = ra_rv a \<and> rf_ts_ns f = ra_now a \<and> rf_duration_ns f = ra_delta a" for f
        using 2 that by (simp add: return_facts_def)
      show ?case
        by (rule wp_step_with[OF since_facts s2], simp, simp, erule wp_step[OF since_room]) (use a in \<open>auto simp: debt\<close>)
    qed
  qed
qed

lemma since_tail: "keeps (since A (\<lambda>_. True) s0) (object_tail env d l facts) (\<lambda>_. True)"
  unfolding object_tail_def side_step_def object_sections_def object_emit_def Let_def
  by (auto intro!: since_basic split: prod.split)

lemma wp_ask [simp]: "wp (ask f) Q = (\<lambda>s. Q (f (ticks s)) (s\<lparr>ticks := Suc (ticks s)\<rparr>))"
  by (simp add: wp_def ask_def fun_eq_iff)

lemma pays_emission:
  assumes s: "since {0, 2} (\<lambda>_. True) s0 s" and f: "return_facts env start l facts"
  shows "wp (object_emission env d l start facts) (\<lambda>_. discharged env start l s0) s"
proof (cases "continuity_joins (ce_continuity env)")
  case False
  have "wp (refused_join env (base_event env start facts)) (\<lambda>_. discharged env start l s0) s"
    unfolding refused_join_def preserve_refused_base_def ring_room_def wp_bind
    by (rule remove_cases) (use s f in \<open>auto simp: debt\<close>)
  then show ?thesis using False by (simp add: object_emission_def Let_def)
next
  case True
  then have e: "\<not> continuity_joins (ce_continuity env) \<longleftrightarrow> False" by simp
  show ?thesis unfolding object_emission_def Let_def e if_False emission_finalize_def
  proof (rule wp_step[OF since_tail s], goal_cases)
    case (1 tail s')
    show ?case unfolding wp_bind
      by (rule remove_cases) (use 1 f in \<open>auto simp: debt split: option.split\<close>)
  qed
qed

lemma pays_object:
  assumes "flags AND FLAG_POLICY_AGGREGATE = 0"
  shows "wp (object_return_ordinary env start flags l) (\<lambda>_. discharged env start l s) s"
proof -
  have s: "since {0, 2, 5} (\<lambda>_. True) s s" by (simp add: since_def)
  have refused: "wp (object_refused env reason) (\<lambda>_. discharged env start l s) s'"
    if "since {0, 2, 5} (\<lambda>_. True) s s'" "reason \<in> {2, 5}" for s' reason
    by (rule pays_refusal) (use that in \<open>auto simp: since_def\<close>)
  have flags: "(flags AND FLAG_POLICY_AGGREGATE \<noteq> 0) = False" using assms by simp
  show ?thesis unfolding object_return_ordinary_def Let_def flags if_False
  proof (rule wp_step[OF since_native s], rule wp_if, goal_cases)
    case (2 ready s1)
    show ?case
    proof (rule wp_step[OF since_native 2(1)], rule wp_if, goal_cases)
      case (2 side s2)
      show ?case
      proof (rule wp_step_with[OF since_account 2(1)], simp, rule wp_if, goal_cases)
        case (2 a s3)
        then have s3: "since {0, 2} (\<lambda>_. True) s s3" by (auto simp: since_def)
        have a: "return_facts env start l f" if "rf_rv f = ra_rv a \<and> rf_ts_ns f = ra_now a \<and> rf_duration_ns f = ra_delta a" for f
          using 2 that by (simp add: return_facts_def)
        show ?case
        proof (rule wp_step_with[OF since_facts s3], simp, simp, erule wp_step[OF since_room], rule wp_if, goal_cases)
          case (1 facts s4 room s5)
          show ?case unfolding wp_bind by (rule remove_cases) (use 1 in \<open>auto simp: debt\<close>)
        next
          case (2 facts s4 room s5)
          show ?case by (rule pays_emission[OF _ a]) (use 2 in \<open>auto simp: since_def\<close>)
        qed
      qed (auto intro: refused)
    qed (auto intro: refused)
  qed (auto intro: refused)
qed

section \<open>The aggregate policy\<close>

definition untouched :: "call_state \<Rightarrow> call_state \<Rightarrow> bool" where
  "untouched s0 s \<longleftrightarrow> ca_log s = ca_log s0 \<and> ca_events s = ca_events s0"

lemma untouched_parts: "keeps (untouched s0) (kernel m) (\<lambda>_. True)" "keeps (untouched s0) (native n) (\<lambda>_. True)"
  by (rule wp_keeps; simp add: untouched_def wp_def split: prod.split)+

lemma untouched_cput: "(\<And>s. ca_log (f s) = ca_log s \<and> ca_events (f s) = ca_events s) \<Longrightarrow> keeps (untouched s0) (cput f) (\<lambda>_. True)"
  by (rule keepsI) (auto simp: cput_def untouched_def)

lemma untouched_cget: "keeps (untouched s0) (cget f) (\<lambda>_. True)"
  by (rule keepsI) (auto simp: cget_def)

lemma untouched_fault: "keeps (untouched s0) object_fault (\<lambda>_. True)"
  unfolding object_fault_def by (rule untouched_cput) simp

lemmas untouched_basic = keeps_then keeps_rules untouched_parts untouched_cput untouched_cget untouched_fault

text \<open>Whatever scope decides, the flags it hands on are the configured ones.\<close>

lemma scope_auth_flags: "gives (scope_auth e ctx) (\<lambda>r. case r of None \<Rightarrow> True | Some sc \<Rightarrow> sa_flags sc = config_flags e)"
  unfolding scope_auth_def Let_def scope_of_def
  by (auto intro!: keeps_then keeps_rules gives_True split: option.split if_splits)

lemma untouched_scope:
  "keeps (untouched s0) (scope_flags env) (\<lambda>f. \<forall>flags. f = Some flags \<longrightarrow> flags = config_flags (ce_k env))"
proof -
  have auth: "keeps (untouched s0) (kernel (scope_auth ((ce_k env)\<lparr>owner_healthy := h\<rparr>) ctx))
      (\<lambda>r. case r of None \<Rightarrow> True | Some sc \<Rightarrow> sa_flags sc = config_flags (ce_k env))" for h ctx
  proof (rule keepsI)
    fix s x s' assume "untouched s0 s" "run_state (kernel (scope_auth ((ce_k env)\<lparr>owner_healthy := h\<rparr>) ctx)) s = (x, s')"
    then show "untouched s0 s' \<and> (case x of None \<Rightarrow> True | Some sc \<Rightarrow> sa_flags sc = config_flags (ce_k env))"
      using keepsD[OF scope_auth_flags, of "(ce_k env)\<lparr>owner_healthy := h\<rparr>" ctx "ca_k s"]
      by (auto simp: zoom_def untouched_def split: prod.splits option.splits)
  qed
  have "keeps (untouched s0) (scope_flags_word env) (\<lambda>w. w = 0 \<or> w = config_flags (ce_k env))"
    unfolding scope_flags_word_def
    by (rule keeps_then[OF untouched_parts(2)], rule keeps_bind[OF auth], rule keeps_return) (auto split: option.splits)
  then show ?thesis unfolding scope_flags_def by (rule keeps_bind) (auto intro!: keeps_return)
qed

lemma untouched_remove: "keeps (untouched s0) (owned_start_remove env key required) (\<lambda>_. True)"
  unfolding owned_start_remove_def by (auto intro!: untouched_basic)

lemma untouched_admitted: "keeps (untouched s0) body (\<lambda>_. True) \<Longrightarrow> keeps (untouched s0) (admitted env body) (\<lambda>_. True)"
  unfolding admitted_def by (auto intro!: untouched_basic)

lemma untouched_entry:
  assumes a: "config_flags (ce_k env) AND FLAG_POLICY_AGGREGATE \<noteq> 0"
  shows "keeps (untouched s0) (p11_entry env mode abi) (\<lambda>_. True)"
proof -
  have count: "keeps (untouched s0) (count_entered slot) (\<lambda>_. True)" for slot
    unfolding count_entered_def by (rule untouched_cput) simp
  have start: "keeps (untouched s0) (record_aggregate_start env key) (\<lambda>_. True)" for key
    unfolding record_aggregate_start_def by (auto intro!: untouched_basic)
  have refuse: "keeps (untouched s0) (do { _ \<leftarrow> owned_start_remove env key False; evidence_add i }) (\<lambda>_. True)" for key i
    by (auto intro!: untouched_basic untouched_remove)
  have "keeps (untouched s0) (p11_entry_impl env mode abi) (\<lambda>_. True)"
    unfolding p11_entry_impl_def
  proof (intro keeps_if keeps_return keeps_bind[OF untouched_scope] keeps_option refuse keeps_then[OF count])
    fix scope flags
    assume "\<forall>f. scope = Some f \<longrightarrow> f = config_flags (ce_k env)" "scope = Some flags" "\<not> flags AND FLAG_POLICY_AGGREGATE \<noteq> 0"
    then have False using a by simp
    then show "keeps (untouched s0) X (\<lambda>_. True)" for X by simp
  qed (simp_all add: start)
  then show ?thesis unfolding p11_entry_def by (rule untouched_admitted)
qed

lemma untouched_account: "keeps (untouched s0) (account_return env slot ns l) (\<lambda>_. True)"
proof -
  have "keeps (untouched s0) (rv_count_add env key) (\<lambda>_. True)" for key
    unfolding rv_count_add_def by (auto intro!: untouched_basic)
  then show ?thesis unfolding account_return_def Let_def by (auto intro!: untouched_basic)
qed

lemma untouched_return:
  assumes a: "config_flags (ce_k env) AND FLAG_POLICY_AGGREGATE \<noteq> 0"
  shows "keeps (untouched s0) (p11_return env) (\<lambda>_. True)"
proof -
  have refused: "keeps (untouched s0) (object_refused env reason) (\<lambda>_. True)" for reason
    unfolding object_refused_def by (auto intro!: untouched_basic untouched_remove)
  have row: "keeps (untouched s0) (ordinary_return env start flags l) (\<lambda>_. True)"
      "keeps (untouched s0) (object_return_ordinary env start flags l) (\<lambda>_. True)"
    if "flags AND FLAG_POLICY_AGGREGATE \<noteq> 0" for start flags l
  proof -
    have e: "(flags AND FLAG_POLICY_AGGREGATE \<noteq> 0) = True" using that by simp
    show "keeps (untouched s0) (ordinary_return env start flags l) (\<lambda>_. True)"
      unfolding ordinary_return_def e if_True by (auto intro!: untouched_basic untouched_remove untouched_account)
    show "keeps (untouched s0) (object_return_ordinary env start flags l) (\<lambda>_. True)"
      unfolding object_return_ordinary_def e if_True Let_def
      by (auto intro!: untouched_basic untouched_remove untouched_account refused)
  qed
  have unscoped: "keeps (untouched s0) (return_unscoped env) (\<lambda>_. True)" "keeps (untouched s0) (owned_start_discard env key) (\<lambda>_. True)" for key
    unfolding return_unscoped_def owned_start_discard_def by (auto intro!: untouched_basic)
  have "keeps (untouched s0) (p11_return_impl env) (\<lambda>_. True)"
    unfolding p11_return_impl_def
    by (intro keeps_if keeps_return keeps_bind[OF untouched_scope] keeps_option keeps_then[OF unscoped(2)] unscoped(1)
        keeps_then[OF untouched_parts(2)] untouched_parts(1) row) (use a in auto)
  then show ?thesis unfolding p11_return_def by (rule untouched_admitted)
qed

section \<open>Runs of the call probes\<close>

text \<open>What every firing of a capture shares: the published descriptor table, the build switch
  of attribute capture and the word widths.\<close>

definition installed :: "(u32 \<Rightarrow> string option) \<Rightarrow> bool \<Rightarrow> call_env \<Rightarrow> bool" where
  "installed fname wired env \<longleftrightarrow> rows_of_env env = publish_object_descriptors fname \<and> ce_wired env = wired \<and> word_bytes_ok (wb_of env)"

text \<open>The native calls the discovery probes make.\<close>

definition discovery_call :: "native_call \<Rightarrow> bool" where
  "discovery_call call = (case call of OwnerHealthy \<Rightarrow> True | OwnerLease \<Rightarrow> True | DiscoveryInsert _ _ _ \<Rightarrow> True
     | DiscoveryGet _ _ \<Rightarrow> True | DiscoveryRemove _ _ \<Rightarrow> True | _ \<Rightarrow> False)"

text \<open>Firings of all tasks in any order and with any answers; between them the discovery
  probes use the custody object, and everything else may change as it likes.\<close>

inductive call_reachable :: "(u32 \<Rightarrow> string option) \<Rightarrow> bool \<Rightarrow> call_state \<Rightarrow> bool" for fname wired where
  loaded: "o_object (ca_own s) = (\<lambda>_. None) \<Longrightarrow> ca_events s = [] \<Longrightarrow> call_reachable fname wired s"
| entered: "call_reachable fname wired s \<Longrightarrow> installed fname wired env \<Longrightarrow>
    call_reachable fname wired (snd (run_state (p11_entry env mode abi) s))"
| returned: "call_reachable fname wired s \<Longrightarrow> installed fname wired env \<Longrightarrow>
    call_reachable fname wired (snd (run_state (p11_return env) s))"
| exited: "call_reachable fname wired s \<Longrightarrow> installed fname wired env \<Longrightarrow>
    call_reachable fname wired (snd (run_state (exit_cleanup env) s))"
| discovered: "call_reachable fname wired s \<Longrightarrow> discovery_call call \<Longrightarrow>
    call_reachable fname wired (snd (run_state (native (native_run oenv call)) s))"
| elsewhere: "call_reachable fname wired s \<Longrightarrow> ca_own s' = ca_own s \<Longrightarrow> ca_events s' = ca_events s \<Longrightarrow>
    call_reachable fname wired s'"

lemma kept_snd: "calls_kept env m \<Longrightarrow> on (calls_ok (rows_of_env env) (ce_wired env)) s \<Longrightarrow>
    on (calls_ok (rows_of_env env) (ce_wired env)) (snd (run_state m s))"
  using keepsD by (metis prod.collapse)

lemma stays_discovery_call: "discovery_call call \<Longrightarrow> stays (side_row rows wired) (native_run e call)"
proof -
  have "frame (p11_owner_healthy e)" unfolding p11_owner_healthy_def by (intro frame_bind) simp_all
  then show "discovery_call call \<Longrightarrow> ?thesis"
    by (cases call) (auto simp: discovery_call_def ignore_def intro!: keeps_then keeps_return stays_frame[of "p11_owner_healthy _"]
        stays_lease call_rows.stays_discovery)
qed

lemma reachable_calls_ok: "call_reachable fname wired s \<Longrightarrow> on (calls_ok (publish_object_descriptors fname) wired) s"
proof (induction rule: call_reachable.induct)
  case (loaded s)
  then show ?case by (simp add: on_def calls_ok_def sides_def)
next
  case (entered s env mode abi)
  then show ?case using kept_snd[OF kept_entry, of env s mode abi] by (simp add: installed_def)
next
  case (returned s env)
  then show ?case using kept_snd[OF kept_return, of env fname s] by (simp add: installed_def)
next
  case (exited s env)
  then show ?case using kept_snd[OF kept_exit, of env s] by (simp add: installed_def)
next
  case (discovered s call oenv)
  then show ?case using keepsD[OF keeps_native[OF stays_discovery_call]] by (metis prod.collapse)
next
  case (elsewhere s s')
  then show ?case by (simp add: on_def)
qed

lemma record_form:
  assumes "record_ok (publish_object_descriptors fname) (ObjectEventRecord ev c w)" "length base = EVENT_RECORD_BYTES"
  shows "object_record_form (base @ tail_image w) (publish_object_descriptors fname) = Some ObjectForm"
proof -
  let ?i = "oc_descriptor_index w"
  obtain r where r: "descriptor_row (publish_object_descriptors fname) ?i = Some r" "object_call_ok w r" "tail_wf w"
    using assms(1) by (auto simp: record_ok_def)
  then have "?i \<noteq> 0 \<and> ?i < 105" by (simp add: object_call_ok_def row_names_def)
  then have "r = canonical_object_wire fname (?i - 1)"
    using published_row[of ?i fname] r(1) by (simp add: descriptor_row_def split: if_splits)
  then show ?thesis using object_record_form_iff[OF _ r(3), of base fname] assms(2) r(2) by simp
qed

section \<open>Properties\<close>

text \<open>A capture of \<^verbatim>\<open>C_DestroyObject\<close> alone, on an LP64 process whose helpers all answer.\<close>

definition demo_names :: "u32 \<Rightarrow> string option" where
  "demo_names f = (if f = 3 then Some ''C_DestroyObject'' else None)"

definition demo_stamp :: InstanceStamp where
  "demo_stamp = \<lparr>epoch = 1, global_epoch = 1, fault = 0, file_slot_plus1 = 1, stamp_flags = STAMP_VALID\<rparr>"

definition demo_event :: Event where
  "demo_event = \<lparr>ev_ts_ns = 0, ev_duration_ns = 0, ev_pid_tgid = 0, ev_cgroup_id = 0, ev_session = 0, ev_slot_id = 0,
     ev_mechanism = 0, ev_flags = 0, ev_rv = 0, ev_p0 = 0, ev_p1 = 0, ev_p2 = 0, ev_async_value = 0, ev_slot = 0,
     ev_target_function = 0, ev_user_type = 0, ev_shape = 0, ev_attr_types = replicate 8 0, ev_attr_count = 0,
     ev_attr_total = 0, ev_attr_bools = 0, ev_attr_bools_seen = 0, ev_attr_types1 = replicate 8 0, ev_attr_count1 = 0,
     ev_attr_total1 = 0, ev_attr_bools1 = 0, ev_attr_bools_seen1 = 0, ev_capture = 0, ev_event_type = 0,
     ev_image = \<lparr>task_cookie = 0, exec_id = 0\<rparr>, ev_child_image = \<lparr>task_cookie = 0, exec_id = 0\<rparr>, ev_root_affiliation = 0\<rparr>"

definition demo_kernel :: "u64 \<Rightarrow> kenv" where
  "demo_kernel flags = \<lparr>user_mem = (\<lambda>_ _ _. None), user_str = (\<lambda>_ _ _. (- 14, [])), ktime = of_nat,
     send_signal = (\<lambda>_. 0), ring_has_room = (\<lambda>_. True), state_readable = (\<lambda>_. True),
     custody_insert = (\<lambda>_. CustodyDone), custody_remove = (\<lambda>_. CustodyDone),
     owner_healthy = (\<lambda>_. True), config_flags = flags, pid_filter = (\<lambda>_ _. None),
     under_cgroup = (\<lambda>_. None), exec_dumpability = (\<lambda>_. 1), link_current_cookie = (\<lambda>_. 0),
     exe_identity = (\<lambda>_. None), exit_summary = (\<lambda>_. (\<lambda>_. 0, 0)), gate_latched = (\<lambda>_. True),
     gate_hit = (\<lambda>_ _ _. - 2), tail_call_ok = (\<lambda>_. True), cleanup_drops = (\<lambda>_ _. False),
     interface_stride = (\<lambda>l. case l of Lp64 \<Rightarrow> 24 | Ilp32 \<Rightarrow> 12), word_bytes = word_bytes_std,
     feat = \<lparr>inventory_only = False, inventory_callers = False, loader_gate = True\<rparr>\<rparr>"

definition demo_call_env :: "u64 \<Rightarrow> call_env" where
  "demo_call_env flags = \<lparr>ce_k = demo_kernel flags,
     ce_ctx = \<lparr>cur_pid_tgid = 77, cookie_of = 0x400000003, regs_cs = 0x33, regs_rsp = 0, regs_rip = 0x4000,
       reg_args = (\<lambda>_. Some 9), ret_value = 0, func_ip = 0, raw_old_pid = 7\<rparr>,
     ce_own = demo_owner_env\<lparr>object_rows := publish_object_descriptors demo_names\<rparr>,
     ce_target = \<lparr>word_at = (\<lambda>_ _ _. None), byte_at = (\<lambda>_ _ _. None), arg_at = (\<lambda>_ _. Some 9)\<rparr>,
     ce_bpf = True, ce_wired = True, ce_metadata = False, ce_descriptors = [], ce_mech_shape = (\<lambda>_. None),
     ce_async_functions = (\<lambda>_. None), ce_attr_bits = (\<lambda>_. None), ce_identity = Some \<lparr>task_cookie = 9, exec_id = 1\<rparr>,
     ce_cgroup_id = 0, ce_root_tag = 0,
     ce_continuity = \<lparr>entry_ip = 0x4000, entry_stamp = demo_stamp, return_stamp = demo_stamp\<rparr>,
     ce_reserved = (demo_event, demo_destroy), ce_rv_full = False, ce_rv_race = None\<rparr>"

definition demo_boot :: call_state where
  "demo_boot = \<lparr>ca_k = \<lparr>ticks = 0, starts = (\<lambda>_. None), pauses = (\<lambda>_. None), ring = [], counters = (\<lambda>_. 0),
       evidence = (\<lambda>_. 0), stop_word = 0\<rparr>,
     ca_own = fresh_custody, ca_log = [],
     ca_stats = (\<lambda>_. \<lparr>ss_entered = 0, ss_returned = 0, ss_errors = 0, ss_total_ns = 0, ss_max_ns = 0, ss_buckets = replicate 32 0\<rparr>),
     ca_rv = (\<lambda>_. None), ca_faults = 0, ca_events = []\<rparr>"

text \<open>C36: No return of a recorded call is lost in silence. Outside the aggregate policy, whatever
  the helpers, the maps, the ring and the observed process answer, both forms of the return
  end with the START row gone or the fault raised; and they submit exactly one event, which
  carries the entry facts of this call, its return value and the time since its entry, and
  then leave the ring-loss counter alone; or they submit nothing and advance by one at
  least one of ring loss, unmatched returns and capture failures. Ring loss and unmatched
  returns advance by at most one in any case.\<close>
theorem return_discharged:
  assumes "flags AND FLAG_POLICY_AGGREGATE = 0"
    and "m = ordinary_return env start flags l \<or> m = object_return_ordinary env start flags l"
  shows "discharged env start l s (snd (run_state m s))"
  using assms(2) pays_ordinary[OF assms(1)] pays_object[OF assms(1)] by (auto simp: wp_snd)

theorem return_discharged_witness:
  "discharged (demo_call_env 0) zero_start Lp64 demo_boot
     (snd (run_state (object_return_ordinary (demo_call_env 0) zero_start FLAG_POLICY_ALLOWLISTED Lp64) demo_boot))"
  by (rule return_discharged[of FLAG_POLICY_ALLOWLISTED]) simp_all

text \<open>C37: Under the aggregate policy a call probe touches neither the memory nor the arguments
  of the observed process and submits no event, at entry and at return, for every slot,
  every template mode and whatever rows it finds.\<close>
theorem aggregate_reads_nothing:
  assumes "config_flags (ce_k env) AND FLAG_POLICY_AGGREGATE \<noteq> 0"
  shows "untouched s (snd (run_state (p11_entry env mode abi) s)) \<and> untouched s (snd (run_state (p11_return env) s))"
proof -
  have "untouched s s" by (simp add: untouched_def)
  then show ?thesis
    using keepsD[OF untouched_entry[OF assms]] keepsD[OF untouched_return[OF assms]] by (metis prod.collapse)
qed

theorem aggregate_reads_nothing_witness:
  "untouched demo_boot (snd (run_state (p11_entry (demo_call_env (FLAG_SYSTEM_FILTER OR FLAG_POLICY_AGGREGATE)) 0 ENTRY_ABI_MIXED) demo_boot))"
  using aggregate_reads_nothing[of "demo_call_env (FLAG_SYSTEM_FILTER OR FLAG_POLICY_AGGREGATE)" demo_boot 0 ENTRY_ABI_MIXED]
  by (simp add: demo_call_env_def demo_kernel_def)

end
