(* ===== verification/Spec2Isabelle.thy ===== *)
theory Spec2Isabelle
  imports P11_Probe_Safety P11_Object_Safety P11_Stream_Get P11_Custody P11_Lease P11_Metadata P11_Call_Run
begin

text \<open>
  p11scope observes PKCS#11 calls of running processes. Its kernel half is a set of BPF
  programs (\<^verbatim>\<open>crates/ebpf/src/main.rs\<close>), a native custody object linked to them
  (\<^verbatim>\<open>crates/ebpf/native/task_owner.c\<close>) and a crate of code shared with userspace
  (\<^verbatim>\<open>crates/ebpf-common/src\<close>). This library models that kernel half and the userspace stop
  gate (\<^verbatim>\<open>src/attach/stop_gate.rs\<close>). The kernel half writes two rings: discovery records,
  which say where a process keeps its function tables, and call events, some with an object
  tail. Userspace trusts a record only after a validator of the shared crate accepted it.

  \<^bold>\<open>Parts and their theories.\<close>

  \<^item> \<open>P11_Prelude\<close>: words with checked and saturating arithmetic, little-endian images, the
    reader monad \<open>rd\<close>, in which each access to the observed process is an event of a log and
    its answer may depend on all earlier accesses (so target memory may change at any time),
    and the rules of \<open>triple\<close>, \<open>keeps\<close> and \<open>gives\<close> for monadic programs.

  \<^item> \<open>P11_Abi\<close>, \<open>P11_Discovery\<close>: \<^verbatim>\<open>lib.rs\<close> of the shared crate: target layouts, stack
    arguments, cookies, configuration cells, latency buckets, boolean attributes, image and
    continuity stamps; then the discovery record with its validator and the packed
    continuation word of the interface walk.

  \<^item> \<open>P11_Concurrency\<close>: the retry loops of \<^verbatim>\<open>counter_policy.rs\<close> on a cell that others write at
    any time, and the stop gate: the admission of \<^verbatim>\<open>lib.rs\<close>, the userspace half of
    \<^verbatim>\<open>stop_gate.rs\<close>, and their protocol as a step relation over any number of threads.

  \<^item> \<open>P11_Probes\<close>, \<open>P11_Probe_Safety\<close>: the discovery and lifecycle programs of \<^verbatim>\<open>main.rs\<close> as
    programs over \<open>kstate\<close> with an environment \<open>kenv\<close> that answers for kernel, maps and
    target; locales state what an invariant must respect so that all handlers keep it.

  \<^item> \<open>P11_Policy\<close>, \<open>P11_Wire\<close>: \<^verbatim>\<open>object_policy.rs\<close> and \<^verbatim>\<open>object_wire.rs\<close>: safe attributes, the
    descriptor table, START markers, the 240-byte object tail and its byte-level validator.

  \<^item> \<open>P11_Capture\<close>, \<open>P11_Stream\<close>, \<open>P11_Stream_Refine\<close>, \<open>P11_Stream_Get\<close>: \<^verbatim>\<open>object_capture.rs\<close>.
    The array forms of attribute and handle capture, the streamed forms the BPF target runs
    with their packed subprogram boundaries, and that the latter refine the former.

  \<^item> \<open>P11_Flow\<close>, \<open>P11_Flow_Safety\<close>, \<open>P11_Object\<close>, \<open>P11_Object_Safety\<close>: the adapters of
    \<^verbatim>\<open>object_flow.rs\<close>, their wrappers in \<^verbatim>\<open>main.rs\<close>, and the invariant of a side row from
    entry to emission.

  \<^item> \<open>P11_Owner\<close>, \<open>P11_Owner_Safety\<close>, \<open>P11_Owner_Custody\<close>, \<open>P11_Custody\<close>, \<open>P11_Lease\<close>:
    \<^verbatim>\<open>task_owner.c\<close> over \<open>ostate\<close> (control row, owners, START, OBJECT and DISCOVERY rows) with
    an environment \<open>oenv\<close> in which every helper may fail at every step; the books invariant,
    what each call promises, whole runs; and the lease count under interleaving.

  \<^item> \<open>P11_Metadata\<close>: the parameter and template readers of the diagnostic build.

  \<^item> \<open>P11_Call\<close>, \<open>P11_Call_Safety\<close>, \<open>P11_Call_Run\<close>: \<^verbatim>\<open>p11_entry\<close>, \<^verbatim>\<open>p11_return\<close> and the exit
    settlement over \<open>call_state\<close>, which joins \<open>kstate\<close>, \<open>ostate\<close>, the log of reads, the
    statistics and the event ring; the contract of side rows is the locale \<open>side_contract\<close>.

  \<^bold>\<open>What is shown.\<close> Discovery: every submitted record passes the validator, up to two
  named loader-state cases, one of which is a real disagreement of producer and validator;
  the interface walk publishes exactly the announced elements; admissions are released once.
  Stop gate: an observed quiescence is final. Counters never wrap. Wire: both validators
  accept exactly the well-formed records, and the published table is the only one the
  verifier accepts. Capture: the streamed walkers refine the array forms on a target that
  does not change during a call. Custody: the books hold after any run of
  the capture, task exits included, and during its stop until a task leaves with its lease,
  which the exit hook no longer returns then; begun calls are found and retired; a cleanup
  leaves nothing of its task behind or poisons custody; at most \<^verbatim>\<open>OWNER_LIMIT\<close> leases are
  kept, and the code that takes and returns them follows the interleaved step relation
  whatever other tasks do between its accesses.
  Calls: a return settles its row or raises the fault and publishes the call or counts at
  least one loss; submitted object tails are accepted by the validator after any run of the call
  probes; the aggregate policy reads nothing of the observed process; the diagnostic readers
  read only the fields they name.

  \<^bold>\<open>Bounds.\<close> No definition runs out of fuel. Loops of the source have constant bounds and
  are structural recursions over them: 8 attribute slots, 8 Find handles, 104 table words,
  64 discovery cells, 512 START slots, 8 template entries, the tries of the counter loops. The
  interface walk counts the kernel's tail-call budget of 33 down; an announced list has at
  most 16 elements, and the publication theorem shows that the budget suffices.

  \<^bold>\<open>Parameters.\<close> The layout widths and strides of the layout crate and the function-name
  catalog are arguments of the definitions, with the hypotheses \<open>word_bytes_ok\<close> where a proof
  needs them. Helper results, maps frozen by userspace, ring space, the register file behind
  \<^verbatim>\<open>arg_u64\<close>, image identities, continuity stamps and the loader-gate verdict are answers of
  the environments. The discovery probes see custody through three outcomes (done, failed
  and kept, failed and dropped) instead of the full object.

  \<^bold>\<open>Not modelled.\<close> The journal lane (\<^verbatim>\<open>object_journal.c\<close>, \<^verbatim>\<open>journal_roots.rs\<close> and the journal
  forms of entry, return and removal), the counter-broad, birth-marker and inventory-only
  variants of the call probes, fork events, and the native objects that walk kernel
  structures (\<^verbatim>\<open>instance_epoch.c\<close>, \<^verbatim>\<open>image_identity.c\<close>, \<^verbatim>\<open>image_bank.c\<close>, \<^verbatim>\<open>root_affiliation.c\<close>,
  \<^verbatim>\<open>loader_gate.c\<close>, \<^verbatim>\<open>prearm_witness.c\<close>, \<^verbatim>\<open>selected_detailed.c\<close>). A firing of a call probe is one
  step of a run: firings of different tasks are not interleaved inside (their rows are
  disjoint by key), except in \<open>P11_Concurrency\<close> and \<open>P11_Lease\<close>, where shared words are
  interleaved. The byte layout of the 368-byte base event is not modelled. Of userspace only
  the stop gate is: attachment, process discovery, inventory, semantics of events, metrics,
  rendering and the command line are file, process and kernel I/O around these records and
  are listed in the manifest as not modelled.
\<close>

end
